(* ===== verification/Prelude.thy ===== *)
theory Prelude
  imports Main "HOL-Library.Sublist" "HOL-Library.Code_Target_Nat"
begin

text \<open>
  Shared vocabulary of the development: the JavaScript string and object
  operations that the modelled sources use, as executable HOL functions, and the
  generic lemmas the component theories rest on.

  A JavaScript string is a HOL \<open>string\<close>: one \<open>char\<close> per UTF-16 code unit, restricted to
  the code units 0..255 that \<open>char\<close> has.  On that range \<open>String.prototype.normalize\<close> is
  the identity and upper and lower case are code unit maps.  A JavaScript object or a
  \<open>Map\<close> whose iteration order is observable is an association list in insertion order
  (\<open>od_set\<close>, \<open>od_delete\<close>, \<open>map_of\<close>); one whose order is not observed is a HOL map.
\<close>

named_theorems od_simps \<open>lookup and key laws of ordered dictionaries\<close>
named_theorems js_simps \<open>laws of the JavaScript string operations\<close>

section \<open>Strings\<close>

text \<open>\<open>String.prototype.trim\<close>: the white space and line terminator code units below 256.\<close>

definition is_ws :: "char \<Rightarrow> bool" where
  "is_ws c \<longleftrightarrow> (of_char c :: nat) \<in> {9, 10, 11, 12, 13, 32, 160}"

definition js_trim :: "string \<Rightarrow> string" where
  "js_trim s = rev (dropWhile is_ws (rev (dropWhile is_ws s)))"

text \<open>\<open>toLowerCase\<close> and \<open>toUpperCase\<close> on one code unit.\<close>

definition lower_char :: "char \<Rightarrow> char" where
  "lower_char c = (let n = (of_char c :: nat) in
     if (65 \<le> n \<and> n \<le> 90) \<or> (192 \<le> n \<and> n \<le> 222 \<and> n \<noteq> 215) then char_of (n + 32) else c)"

definition upper_ascii_char :: "char \<Rightarrow> char" where
  "upper_ascii_char c = (let n = (of_char c :: nat) in
     if 97 \<le> n \<and> n \<le> 122 then char_of (n - 32) else c)"

definition js_lower :: "string \<Rightarrow> string" where
  "js_lower s = map lower_char s"

definition js_upper :: "string \<Rightarrow> string" where
  "js_upper s = map upper_ascii_char s"

text \<open>\<open>indexOf\<close> of a one character string: \<open>None\<close> stands for the result \<open>-1\<close>.\<close>

fun index_of :: "'a \<Rightarrow> 'a list \<Rightarrow> nat option" where
  "index_of c [] = None"
| "index_of c (x # xs) = (if x = c then Some 0 else map_option Suc (index_of c xs))"

text \<open>\<open>substring (a, b)\<close> clamps to the length and swaps its bounds when \<open>a > b\<close>.\<close>

definition js_substring :: "'a list \<Rightarrow> nat \<Rightarrow> nat \<Rightarrow> 'a list" where
  "js_substring s a b = drop (min a b) (take (max a b) s)"

fun split_on :: "'a \<Rightarrow> 'a list \<Rightarrow> 'a list list" where
  "split_on c [] = [[]]"
| "split_on c (x # xs) =
     (if x = c then [] # split_on c xs
      else (case split_on c xs of [] \<Rightarrow> [[x]] | w # ws \<Rightarrow> (x # w) # ws))"

fun join_with :: "'a list \<Rightarrow> 'a list list \<Rightarrow> 'a list" where
  "join_with sep [] = []"
| "join_with sep [w] = w"
| "join_with sep (w # v # ws) = w @ sep @ join_with sep (v # ws)"

definition is_digit :: "char \<Rightarrow> bool" where
  "is_digit c \<longleftrightarrow> (48::nat) \<le> of_char c \<and> of_char c \<le> (57::nat)"

text \<open>\<open>Number (s)\<close> on a string of decimal digits, and \<open>String (n)\<close> of an integer.\<close>

definition digit_val :: "char \<Rightarrow> nat" where
  "digit_val c = of_char c - 48"

definition read_nat :: "string \<Rightarrow> nat" where
  "read_nat s = foldl (\<lambda>n c. 10 * n + digit_val c) 0 s"

definition digit_char :: "nat \<Rightarrow> char" where
  "digit_char d = char_of (48 + d)"

fun show_nat :: "nat \<Rightarrow> string" where
  "show_nat n = (if n < 10 then [digit_char n] else show_nat (n div 10) @ [digit_char (n mod 10)])"

declare show_nat.simps [simp del]

section \<open>Laws of the string operations\<close>

lemma index_of_None_iff [js_simps]: "index_of c s = None \<longleftrightarrow> c \<notin> set s"
  by (induction s) auto

lemma index_of_Some_takeWhile:
  "index_of c s = Some i \<Longrightarrow> take i s = takeWhile (\<lambda>x. x \<noteq> c) s \<and> i < length s \<and> s ! i = c"
  by (induction s arbitrary: i) (auto split: if_splits)

lemma index_of_append_notin [js_simps]:
  "c \<notin> set xs \<Longrightarrow> index_of c (xs @ ys) = map_option (\<lambda>i. length xs + i) (index_of c ys)"
  by (induction xs) (cases "index_of c ys"; auto)+

lemma index_of_le: "index_of c s = Some i \<Longrightarrow> i < length s"
  by (simp add: index_of_Some_takeWhile)

lemma split_on_nonempty [simp]: "split_on c s \<noteq> []"
  by (induction s) (auto split: list.splits)

lemma split_on_notin: "c \<notin> set s \<Longrightarrow> split_on c s = [s]"
  by (induction s) auto

lemma split_on_append: "c \<notin> set w \<Longrightarrow> split_on c (w @ c # s) = w # split_on c s"
  by (induction w) auto

lemma split_on_parts: "w \<in> set (split_on c s) \<Longrightarrow> c \<notin> set w"
proof (induction s arbitrary: w)
  case Nil
  then show ?case by simp
next
  case (Cons x s)
  obtain v vs where split: "split_on c s = v # vs"
    by (cases "split_on c s") auto
  with Cons show ?case by (cases "x = c") auto
qed

lemma join_split [js_simps]: "join_with [c] (split_on c s) = s"
proof (induction s)
  case Nil
  then show ?case by simp
next
  case (Cons x s)
  obtain w ws where split: "split_on c s = w # ws"
    by (cases "split_on c s") auto
  with Cons.IH show ?case by (cases ws) auto
qed

lemma split_join [js_simps]:
  "ws \<noteq> [] \<Longrightarrow> \<forall>w \<in> set ws. c \<notin> set w \<Longrightarrow> split_on c (join_with [c] ws) = ws"
  by (induction "[c]" ws rule: join_with.induct) (auto simp: split_on_notin split_on_append)

lemma js_trim_id_iff:
  "js_trim s = s \<longleftrightarrow> s = [] \<or> (\<not> is_ws (hd s) \<and> \<not> is_ws (last s))"
proof (cases s rule: rev_cases)
  case Nil
  then show ?thesis by (simp add: js_trim_def)
next
  case (snoc ys y)
  show ?thesis
  proof (cases "is_ws (hd s)")
    case True
    have "length (js_trim s) \<le> length (dropWhile is_ws s)"
      by (metis js_trim_def length_dropWhile_le length_rev)
    also have "\<dots> < length s"
    proof (cases s)
      case (Cons a list)
      with True show ?thesis
        using length_dropWhile_le [of is_ws list] by simp
    qed (use snoc in simp)
    finally show ?thesis using True snoc by auto
  next
    case False
    then have "dropWhile is_ws s = s" by (cases s) auto
    with snoc False show ?thesis
      using length_dropWhile_le [of is_ws "rev ys"] by (auto simp: js_trim_def dest: arg_cong [of _ _ length])
  qed
qed

lemma js_trim_hd_last:
  assumes "s \<noteq> []" "\<not> is_ws (hd s)" "\<not> is_ws (last s)"
  shows "js_trim s = s"
  using assms by (simp add: js_trim_id_iff)

lemma of_char_digit_char [simp]: "d < 10 \<Longrightarrow> of_char (digit_char d) = 48 + d"
  by (simp add: digit_char_def)

lemma is_digit_digit_char [simp]: "d < 10 \<Longrightarrow> is_digit (digit_char d)"
  by (simp add: is_digit_def)

lemma digit_val_digit_char [simp]: "d < 10 \<Longrightarrow> digit_val (digit_char d) = d"
  by (simp add: digit_val_def)

lemma show_nat_nonempty [simp]: "show_nat n \<noteq> []"
  by (subst show_nat.simps) simp

lemma show_nat_digits [simp]: "\<forall>c \<in> set (show_nat n). is_digit c"
proof (induction n rule: show_nat.induct)
  case (1 n)
  show ?case
  proof (cases "n < 10")
    case True
    then show ?thesis by (subst show_nat.simps) simp
  next
    case False
    with "1.IH" have "\<forall>c \<in> set (show_nat (n div 10)). is_digit c" by simp
    with False show ?thesis by (subst show_nat.simps) auto
  qed
qed

lemma read_show_nat [simp, js_simps]: "read_nat (show_nat n) = n"
proof (induction n rule: show_nat.induct)
  case (1 n)
  show ?case
  proof (cases "n < 10")
    case True
    then show ?thesis by (simp add: show_nat.simps [of n] read_nat_def)
  next
    case False
    with "1.IH" have "foldl (\<lambda>n c. 10 * n + digit_val c) 0 (show_nat (n div 10)) = n div 10"
      by (simp add: read_nat_def)
    with False show ?thesis by (simp add: show_nat.simps [of n] read_nat_def)
  qed
qed

lemma show_nat_inject [simp]: "show_nat m = show_nat n \<longleftrightarrow> m = n"
  by (metis read_show_nat)

lemma show_nat_leading:
  "0 < n \<Longrightarrow> hd (show_nat n) \<noteq> CHR ''0''"
proof (induction n rule: show_nat.induct)
  case (1 n)
  show ?case
  proof (cases "n < 10")
    case True
    have "of_char (digit_char n) \<noteq> (of_char CHR ''0'' :: nat)"
      using True "1.prems" by simp
    then have "digit_char n \<noteq> CHR ''0''" by auto
    with True show ?thesis by (simp add: show_nat.simps [of n])
  next
    case False
    with "1.IH" show ?thesis by (simp add: show_nat.simps [of n])
  qed
qed

section \<open>Ordered dictionaries\<close>

text \<open>
  Assigning a property of a JavaScript object keeps the position of an existing key and
  appends a new one; \<open>delete\<close> removes the key.
\<close>

fun od_set :: "'k \<Rightarrow> 'v \<Rightarrow> ('k \<times> 'v) list \<Rightarrow> ('k \<times> 'v) list" where
  "od_set k v [] = [(k, v)]"
| "od_set k v ((k', v') # d) = (if k' = k then (k, v) # d else (k', v') # od_set k v d)"

definition od_delete :: "'k \<Rightarrow> ('k \<times> 'v) list \<Rightarrow> ('k \<times> 'v) list" where
  "od_delete k d = filter (\<lambda>(k', _). k' \<noteq> k) d"

definition od_keys_distinct :: "('k \<times> 'v) list \<Rightarrow> bool" where
  "od_keys_distinct d \<longleftrightarrow> distinct (map fst d)"

lemma map_of_od_set [simp, od_simps]: "map_of (od_set k v d) = (map_of d)(k \<mapsto> v)"
  by (induction d) (auto simp: fun_eq_iff)

lemma keys_od_set [simp, od_simps]: "fst ` set (od_set k v d) = insert k (fst ` set d)"
  by (induction k v d rule: od_set.induct) (simp_all add: insert_commute)

lemma od_set_distinct [simp, od_simps]: "od_keys_distinct d \<Longrightarrow> od_keys_distinct (od_set k v d)"
  unfolding od_keys_distinct_def
proof (induction d)
  case Nil
  then show ?case by simp
next
  case (Cons e d)
  then show ?case using keys_od_set [of k v d] by (cases e) (auto simp: image_iff)
qed

lemma od_set_nonempty [simp]: "od_set k v d \<noteq> []"
  by (induction k v d rule: od_set.induct) simp_all

lemma set_od_set_subset: "set (od_set k v d) \<subseteq> insert (k, v) (set d)"
  by (induction k v d rule: od_set.induct) auto

lemma map_of_od_delete [simp, od_simps]: "map_of (od_delete k d) = (map_of d)(k := None)"
  unfolding od_delete_def by (induction d) (auto simp: fun_eq_iff)

lemma set_od_delete: "set (od_delete k d) \<subseteq> set d"
  by (auto simp: od_delete_def)

lemma od_delete_distinct [simp, od_simps]: "od_keys_distinct d \<Longrightarrow> od_keys_distinct (od_delete k d)"
  unfolding od_keys_distinct_def od_delete_def by (induction d) auto

lemma map_of_filter_key:
  "map_of (filter (\<lambda>(k, _). P k) d) k = (if P k then map_of d k else None)"
  by (induction d) auto

lemma map_of_filter_value:
  "od_keys_distinct d \<Longrightarrow>
   map_of (filter (\<lambda>(_, v). P v) d) k =
     (case map_of d k of None \<Rightarrow> None | Some v \<Rightarrow> if P v then Some v else None)"
  unfolding od_keys_distinct_def
proof (induction d)
  case Nil
  then show ?case by simp
next
  case (Cons e d)
  obtain k' v' where e: "e = (k', v')" by (cases e)
  have "map_of d k' = None" using Cons.prems e by (simp add: map_of_eq_None_iff)
  with Cons e show ?case by (auto split: option.splits)
qed

lemma od_filter_distinct: "od_keys_distinct d \<Longrightarrow> od_keys_distinct (filter P d)"
  unfolding od_keys_distinct_def by (induction d) auto

section \<open>Options\<close>

fun the_default :: "'a \<Rightarrow> 'a option \<Rightarrow> 'a" where
  "the_default d None = d"
| "the_default d (Some x) = x"

section \<open>Exceptions and safe integers\<close>

text \<open>Code that may throw is a sum with the exception on the left; what follows runs only on success.\<close>

fun sum_bind :: "'e + 'a \<Rightarrow> ('a \<Rightarrow> 'e + 'b) \<Rightarrow> 'e + 'b" where
  "sum_bind (Inl e) f = Inl e"
| "sum_bind (Inr x) f = f x"

lemma sum_bind_Inr: "sum_bind x f = Inr y \<longleftrightarrow> (\<exists>a. x = Inr a \<and> f a = Inr y)"
  by (cases x) auto

lemma sum_bind_Inl: "sum_bind x f = Inl e \<longleftrightarrow> x = Inl e \<or> (\<exists>a. x = Inr a \<and> f a = Inl e)"
  by (cases x) auto

lemma sum_bind_assoc: "sum_bind (sum_bind x f) g = sum_bind x (\<lambda>a. sum_bind (f a) g)"
  by (cases x) auto

text \<open>\<open>Number.MAX_SAFE_INTEGER\<close>, the bound of \<open>Number.isSafeInteger\<close>.\<close>

definition MAX_SAFE_INTEGER :: nat where "MAX_SAFE_INTEGER = 9007199254740991"

end
