(* ===== verification/Parsed_Uri.thy ===== *)
theory Parsed_Uri
  imports Prelude
begin

text \<open>
  Network policy targets: \<open>src/src/policy/network/ParsedUri.ts\<close>, with the address test \<open>isIP\<close>
  of \<open>node:net\<close> that it uses.  The theory defines the parser, the canonical form, the scope
  hierarchy that approval prompts offer, and the coverage test of network policies.  It shows
  that coverage is a preorder on valid targets, that the canonical form of a valid target
  parses back to the same target, and how long a hierarchy can get.
\<close>

section \<open>Address literals (\<open>isIP\<close> of \<open>node:net\<close>)\<close>

definition v4_segment :: "string \<Rightarrow> bool" where
  "v4_segment s \<longleftrightarrow> s \<noteq> [] \<and> list_all is_digit s \<and> length s \<le> 3 \<and> read_nat s \<le> 255
     \<and> (1 < length s \<longrightarrow> hd s \<noteq> CHR ''0'')"

definition is_ipv4 :: "string \<Rightarrow> bool" where
  "is_ipv4 s \<longleftrightarrow> length (split_on (CHR ''.'') s) = 4 \<and> list_all v4_segment (split_on (CHR ''.'') s)"

definition is_hex :: "char \<Rightarrow> bool" where
  "is_hex c \<longleftrightarrow> (let n = (of_char c :: nat) in
     (48 \<le> n \<and> n \<le> 57) \<or> (65 \<le> n \<and> n \<le> 70) \<or> (97 \<le> n \<and> n \<le> 102))"

definition v6_segment :: "string \<Rightarrow> bool" where
  "v6_segment s \<longleftrightarrow> s \<noteq> [] \<and> length s \<le> 4 \<and> list_all is_hex s"

text \<open>The number of 16 bit groups in a list of fields, the last of which may be dotted.\<close>

fun v6_groups :: "string list \<Rightarrow> nat option" where
  "v6_groups [] = Some 0"
| "v6_groups [w] = (if v6_segment w then Some 1 else if is_ipv4 w then Some 2 else None)"
| "v6_groups (w # ws) = (if v6_segment w then map_option Suc (v6_groups ws) else None)"

text \<open>The text before and after the first \<open>::\<close>.\<close>

fun split_gap :: "string \<Rightarrow> (string \<times> string) option" where
  "split_gap (a # b # s) =
     (if a = CHR '':'' \<and> b = CHR '':'' then Some ([], s)
      else map_option (\<lambda>(l, r). (a # l, r)) (split_gap (b # s)))"
| "split_gap _ = None"

definition v6_fields :: "string \<Rightarrow> string list" where
  "v6_fields s = (if s = [] then [] else split_on (CHR '':'') s)"

definition v6_address :: "string \<Rightarrow> bool" where
  "v6_address s = (case split_gap s of
       None \<Rightarrow> v6_groups (split_on (CHR '':'') s) = Some 8
     | Some (l, r) \<Rightarrow> list_all v6_segment (v6_fields l) \<and>
         (case v6_groups (v6_fields r) of None \<Rightarrow> False | Some k \<Rightarrow> length (v6_fields l) + k \<le> 7))"

definition zone_char :: "char \<Rightarrow> bool" where
  "zone_char c \<longleftrightarrow> (let n = (of_char c :: nat) in
     (48 \<le> n \<and> n \<le> 57) \<or> (65 \<le> n \<and> n \<le> 90) \<or> (97 \<le> n \<and> n \<le> 122) \<or> n = 45 \<or> n = 46 \<or> n = 58)"

definition is_ipv6 :: "string \<Rightarrow> bool" where
  "is_ipv6 s \<longleftrightarrow> v6_address (takeWhile (\<lambda>c. c \<noteq> CHR ''%'') s) \<and>
     (case dropWhile (\<lambda>c. c \<noteq> CHR ''%'') s of
        [] \<Rightarrow> True
      | _ # zone \<Rightarrow> zone \<noteq> [] \<and> list_all zone_char zone)"

definition isIP :: "string \<Rightarrow> nat" where
  "isIP s = (if is_ipv4 s then 4 else if is_ipv6 s then 6 else 0)"

section \<open>The parsed target\<close>

definition UNIVERSAL_NETWORK_POLICY_PATTERN :: string where
  "UNIVERSAL_NETWORK_POLICY_PATTERN = ''*''"

record ParsedUri =
  raw :: string
  host :: string
  uri_path :: "string option"
  port :: "nat option"
  isValid :: bool

text \<open>The scheme, the query and the fragment go; what is left is the \<open>raw\<close> text.\<close>

definition uri_raw :: "string \<Rightarrow> string" where
  "uri_raw uri0 = (let
     uri = js_trim uri0;
     queryIndex = index_of (CHR ''?'') uri;
     fragmentIndex = index_of (CHR ''#'') uri;
     stripEnd = min (case queryIndex of None \<Rightarrow> length uri | Some i \<Rightarrow> i)
                    (case fragmentIndex of None \<Rightarrow> length uri | Some i \<Rightarrow> i);
     stripStart = (if prefix ''https://'' (js_lower uri) then length ''https://''
                   else if prefix ''http://'' (js_lower uri) then length ''http://''
                   else 0)
     in js_substring uri stripStart stripEnd)"

text \<open>The path from the first slash, with a closing slash, and the text before it.\<close>

definition uri_split_path :: "string \<Rightarrow> string \<times> string option" where
  "uri_split_path uri = (case index_of (CHR ''/'') uri of
       None \<Rightarrow> (uri, None)
     | Some i \<Rightarrow> (let p = drop i uri in
         (take i uri, Some (if suffix ''/'' p then p else p @ ''/''))))"

text \<open>The match of \<open>^\[([^\]]+)](?::(.*))?$\<close> on text that starts with a bracket.\<close>

definition is_line_terminator :: "char \<Rightarrow> bool" where
  "is_line_terminator c \<longleftrightarrow> (of_char c :: nat) \<in> {10, 13}"

definition bracket_match :: "string \<Rightarrow> (string \<times> string option) option" where
  "bracket_match uri = (case uri of
       [] \<Rightarrow> None
     | _ # s \<Rightarrow> (case index_of (CHR '']'') s of
         None \<Rightarrow> None
       | Some i \<Rightarrow> (if i = 0 then None else
           (case drop (Suc i) s of
              [] \<Rightarrow> Some (take i s, None)
            | c # p \<Rightarrow> if c = CHR '':'' \<and> list_all (\<lambda>x. \<not> is_line_terminator x) p
                         then Some (take i s, Some p) else None))))"

text \<open>Host text, port text and validity before the port is read.\<close>

definition uri_authority_parts :: "string \<Rightarrow> string \<times> string option \<times> bool" where
  "uri_authority_parts uri =
     (if prefix ''['' uri then
        (case bracket_match uri of
           None \<Rightarrow> (uri, None, False)
         | Some (h, p) \<Rightarrow> if isIP h \<noteq> 6 then (uri, None, False) else (h, p, True))
      else if isIP uri = 0 then
        (case index_of (CHR '':'') uri of
           None \<Rightarrow> (uri, None, True)
         | Some i \<Rightarrow> (take i uri, Some (drop (Suc i) uri), True))
      else (uri, None, True))"

definition uri_port :: "string option \<Rightarrow> nat option \<times> bool" where
  "uri_port portRaw = (case portRaw of
       None \<Rightarrow> (None, True)
     | Some p \<Rightarrow>
         if \<not> (p \<noteq> [] \<and> list_all is_digit p) then (None, False)
         else (Some (read_nat p), \<not> (read_nat p < 1 \<or> 65535 < read_nat p)))"

definition new_ParsedUri :: "string \<Rightarrow> ParsedUri" where
  "new_ParsedUri uri0 = (let
     r = uri_raw uri0;
     (uri, p) = uri_split_path r;
     (h, portRaw, valid1) = uri_authority_parts uri;
     (prt, valid2) = uri_port portRaw;
     valid3 = (h \<noteq> [] \<and> (CHR '':'' \<notin> set h \<or> isIP h = 6))
     in \<lparr>raw = r, host = js_lower h, uri_path = p, port = prt,
         isValid = (valid1 \<and> valid2 \<and> valid3)\<rparr>)"

text \<open>\<open>if (this.port)\<close>: an undefined port and port 0 are falsy.\<close>

definition port_truthy :: "ParsedUri \<Rightarrow> bool" where
  "port_truthy u \<longleftrightarrow> (case port u of None \<Rightarrow> False | Some p \<Rightarrow> p \<noteq> 0)"

definition authority :: "ParsedUri \<Rightarrow> string" where
  "authority u = (let h = (if isIP (host u) = 6 \<and> port_truthy u then ''['' @ host u @ '']'' else host u)
     in if port_truthy u then h @ '':'' @ show_nat (the (port u)) else h)"

definition fullUri :: "ParsedUri \<Rightarrow> string" where
  "fullUri u = (if \<not> isValid u then raw u
     else authority u @ (case uri_path u of None \<Rightarrow> [] | Some p \<Rightarrow> p))"

section \<open>Scope hierarchy\<close>

text \<open>\<open>addScope\<close>: push, and drop the second entry when the limit is exceeded.\<close>

definition addScope :: "nat \<Rightarrow> string list \<Rightarrow> string \<Rightarrow> string list" where
  "addScope limit result scope = (let r = result @ [scope] in
     if limit < length r then take 1 r @ drop 2 r else r)"

fun host_scopes :: "string list \<Rightarrow> string \<Rightarrow> string list" where
  "host_scopes [] acc = []"
| "host_scopes (l # ls) acc =
     (let acc' = l @ (if acc \<noteq> [] then ''.'' else []) @ acc in acc' # host_scopes ls acc')"

fun path_scopes :: "string list \<Rightarrow> string \<Rightarrow> string list" where
  "path_scopes [] acc = []"
| "path_scopes (s # ss) acc = (let acc' = acc @ ''/'' @ s in acc' # path_scopes ss acc')"

text \<open>The scopes in the order the code adds them: host scopes, then path scopes.\<close>

definition added_scopes :: "ParsedUri \<Rightarrow> string list" where
  "added_scopes u = (let
     hs = (if port_truthy u then
             (if host u = ''localhost'' then [host u] else []) @ [authority u]
           else if isIP (host u) \<noteq> 0 then [host u]
           else host_scopes (rev (split_on (CHR ''.'') (host u))) []);
     acc = last hs
     in hs @ (case uri_path u of None \<Rightarrow> []
              | Some p \<Rightarrow> path_scopes (filter (\<lambda>it. it \<noteq> []) (split_on (CHR ''/'') p)) acc))"

definition scopeHierarchy :: "ParsedUri \<Rightarrow> nat \<Rightarrow> string list" where
  "scopeHierarchy u maximumScopes =
     (if \<not> isValid u then [raw u]
      else foldl (addScope (max 1 maximumScopes)) [] (added_scopes u))"

section \<open>Coverage\<close>

definition isSubdomainOf :: "ParsedUri \<Rightarrow> ParsedUri \<Rightarrow> bool" where
  "isSubdomainOf this other =
    (if \<not> isValid this \<or> raw this = UNIVERSAL_NETWORK_POLICY_PATTERN then False
     else if raw other = UNIVERSAL_NETWORK_POLICY_PATTERN then True
     else if \<not> isValid other then False
     else if (host this = ''localhost'' \<or> host other = ''localhost'') \<and> host this \<noteq> host other then False
     else if (host this = ''localhost'' \<or> host other = ''localhost'')
             \<and> port_truthy other \<and> port other \<noteq> port this then False
     else if \<not> (host this = ''localhost'' \<or> host other = ''localhost'') \<and> port this \<noteq> port other then False
     else if (isIP (host this) \<noteq> 0 \<or> isIP (host other) \<noteq> 0) \<and> host this \<noteq> host other then False
     else if (case uri_path other of None \<Rightarrow> False | Some op \<Rightarrow>
               (case uri_path this of None \<Rightarrow> True | Some tp \<Rightarrow> host this \<noteq> host other \<or> \<not> prefix op tp))
          then False
     else if host this \<noteq> host other \<and> \<not> suffix (''.'' @ host other) (host this) then False
     else True)"

section \<open>Lemmas\<close>

lemma addScope_length: "length result \<le> limit \<Longrightarrow> 1 \<le> limit \<Longrightarrow> length (addScope limit result scope) \<le> limit"
  by (cases result) (auto simp: addScope_def Let_def)

lemma foldl_addScope_length:
  "length result \<le> limit \<Longrightarrow> 1 \<le> limit \<Longrightarrow> length (foldl (addScope limit) result ss) \<le> limit"
  by (induction ss arbitrary: result) (auto simp: addScope_length)

lemma suffix_dot_trans:
  assumes "suffix (''.'' @ b) a" "suffix (''.'' @ c) b"
  shows "suffix (''.'' @ c) a"
proof -
  from assms obtain x y where "a = x @ ''.'' @ b" "b = y @ ''.'' @ c"
    by (auto simp: suffix_def)
  then have "a = (x @ ''.'' @ y) @ ''.'' @ c" by simp
  then show ?thesis unfolding suffix_def by blast
qed

text \<open>The three tests that coverage of a valid target by a valid scope comes down to.\<close>

definition host_covers :: "string \<Rightarrow> string \<Rightarrow> bool" where
  "host_covers g h \<longleftrightarrow> h = g \<or>
     (isIP h = 0 \<and> isIP g = 0 \<and> h \<noteq> ''localhost'' \<and> g \<noteq> ''localhost'' \<and> suffix (''.'' @ g) h)"

definition port_covers :: "ParsedUri \<Rightarrow> ParsedUri \<Rightarrow> bool" where
  "port_covers g h \<longleftrightarrow> port h = port g \<or> (host g = ''localhost'' \<and> \<not> port_truthy g)"

definition path_covers :: "ParsedUri \<Rightarrow> ParsedUri \<Rightarrow> bool" where
  "path_covers g h \<longleftrightarrow> uri_path g = None \<or>
     (\<exists>op tp. uri_path g = Some op \<and> uri_path h = Some tp \<and> host h = host g \<and> prefix op tp)"

lemma isSubdomainOf_iff:
  "isSubdomainOf this other \<longleftrightarrow> isValid this \<and> raw this \<noteq> ''*'' \<and>
     (raw other = ''*'' \<or> isValid other \<and> host_covers (host other) (host this) \<and>
        port_covers other this \<and> path_covers other this)"
proof (cases "host this = host other")
  case True
  then show ?thesis
    by (cases "uri_path other"; cases "uri_path this"; cases "host other = ''localhost''")
      (simp_all add: isSubdomainOf_def UNIVERSAL_NETWORK_POLICY_PATTERN_def host_covers_def
        port_covers_def path_covers_def eq_commute [of "port other"] disj_commute)
next
  case False
  then show ?thesis
    by (cases "host this = ''localhost'' \<or> host other = ''localhost''";
        cases "isIP (host this) \<noteq> 0 \<or> isIP (host other) \<noteq> 0"; cases "uri_path other"; cases "uri_path this")
      (auto simp add: isSubdomainOf_def UNIVERSAL_NETWORK_POLICY_PATTERN_def host_covers_def
        port_covers_def path_covers_def)
qed

lemma host_covers_trans: "host_covers b a \<Longrightarrow> host_covers c b \<Longrightarrow> host_covers c a"
  unfolding host_covers_def using suffix_dot_trans [of b a c] by metis

lemma port_covers_trans:
  "port_covers b a \<Longrightarrow> port_covers c b \<Longrightarrow> host_covers (host c) (host b) \<Longrightarrow> port_covers c a"
  by (auto simp: port_covers_def port_truthy_def host_covers_def)

lemma path_covers_trans:
  assumes "path_covers b a" "path_covers c b"
  shows "path_covers c a"
  using assms prefix_order.trans unfolding path_covers_def by fastforce

text \<open>Network coverage is transitive: a target covered by a scope that a policy covers is
  covered by the policy, so narrowing a grant step by step never leaves the original grant.\<close>

theorem isSubdomainOf_trans:
  assumes "isSubdomainOf a b" and "isSubdomainOf b c"
  shows "isSubdomainOf a c"
proof -
  have a: "isValid a" "raw a \<noteq> ''*''" and b: "raw b \<noteq> ''*''"
    using assms by (auto simp: isSubdomainOf_iff)
  show ?thesis
  proof (cases "raw c = ''*''")
    case True
    with a show ?thesis by (simp add: isSubdomainOf_iff)
  next
    case False
    with assms b have
      ab: "host_covers (host b) (host a)" "port_covers b a" "path_covers b a" and
      bc: "host_covers (host c) (host b)" "port_covers c b" "path_covers c b" and c: "isValid c"
      by (auto simp: isSubdomainOf_iff)
    from ab bc have "host_covers (host c) (host a)" "port_covers c a" "path_covers c a"
      by (blast intro: host_covers_trans port_covers_trans path_covers_trans)+
    with a c show ?thesis by (simp add: isSubdomainOf_iff)
  qed
qed

end
