(* ===== verification/Parsed_Uri_Canonical.thy ===== *)
theory Parsed_Uri_Canonical
  imports Parsed_Uri
begin

text \<open>
  The canonical form of network targets.  \<open>PolicyScope.resolveUri\<close> stores and compares network
  targets by \<open>ParsedUri.fullUri\<close>; this theory shows that the canonical text of a valid target
  parses to the same host, port and path, and that this fails for two kinds of input that the
  parser accepts or passes through: text with a second scheme, and white space at the edge of
  the host.
\<close>

section \<open>Case mapping and address literals\<close>

lemma lower_char_idem [simp]: "lower_char (lower_char c) = lower_char c"
proof -
  have "of_char c < (256::nat)" by simp
  then show ?thesis by (simp add: lower_char_def Let_def)
qed

lemma js_lower_idem [simp]: "js_lower (js_lower s) = js_lower s"
  by (simp add: js_lower_def comp_def)

lemma js_lower_append [simp]: "js_lower (a @ b) = js_lower a @ js_lower b"
  by (simp add: js_lower_def)

lemma of_char_lower:
  "(of_char (lower_char c) :: nat) =
     (if (65 \<le> (of_char c::nat) \<and> (of_char c::nat) \<le> 90) \<or>
         (192 \<le> (of_char c::nat) \<and> (of_char c::nat) \<le> 222 \<and> (of_char c::nat) \<noteq> 215)
      then of_char c + 32 else of_char c)"
  by (simp add: lower_char_def Let_def)

lemma char_eq_of_char: "c = d \<longleftrightarrow> (of_char c :: nat) = of_char d"
  by simp

lemma lower_char_below:
  assumes "(of_char d :: nat) < 65"
  shows "lower_char c = d \<longleftrightarrow> c = d"
  unfolding char_eq_of_char of_char_lower using assms by auto

lemma is_hex_lower [simp]: "is_hex (lower_char c) = is_hex c"
  unfolding is_hex_def of_char_lower Let_def by auto

lemma is_digit_lower [simp]: "is_digit (lower_char c) = is_digit c"
  unfolding is_digit_def of_char_lower by auto

lemma zone_char_lower [simp]: "zone_char (lower_char c) = zone_char c"
  unfolding zone_char_def of_char_lower Let_def by auto

lemma digits_lower: "list_all is_digit s \<Longrightarrow> js_lower s = s"
  by (induction s) (auto simp: js_lower_def lower_char_def is_digit_def Let_def)

lemma split_on_map:
  assumes "\<And>x. f x = c \<longleftrightarrow> x = c"
  shows "split_on c (map f s) = map (map f) (split_on c s)"
  by (induction s) (auto simp: assms split: list.splits)

lemma split_on_lower:
  "(of_char d :: nat) < 65 \<Longrightarrow> split_on d (js_lower s) = map js_lower (split_on d s)"
  unfolding js_lower_def by (rule split_on_map) (rule lower_char_below)

lemma v4_segment_lower [simp]: "v4_segment (js_lower s) = v4_segment s"
proof (cases "list_all is_digit s")
  case True
  then show ?thesis by (simp add: digits_lower)
next
  case False
  moreover from this have "\<not> list_all is_digit (js_lower s)"
    by (simp add: js_lower_def list_all_iff)
  ultimately show ?thesis by (simp add: v4_segment_def)
qed

lemma is_ipv4_lower [simp]: "is_ipv4 (js_lower s) = is_ipv4 s"
  by (simp add: is_ipv4_def split_on_lower list.pred_map comp_def)

lemma v6_segment_lower [simp]: "v6_segment (js_lower s) = v6_segment s"
  by (simp add: v6_segment_def js_lower_def list.pred_map comp_def)

lemma v6_groups_lower [simp]: "v6_groups (map js_lower ws) = v6_groups ws"
  by (induction ws rule: v6_groups.induct) simp_all

lemma split_gap_lower:
  "split_gap (js_lower s) = map_option (\<lambda>(l, r). (js_lower l, js_lower r)) (split_gap s)"
proof (induction s rule: split_gap.induct)
  case (1 a b s)
  have eq: "lower_char x = CHR '':'' \<longleftrightarrow> x = CHR '':''" for x
    by (rule lower_char_below) simp
  show ?case
  proof (cases "a = CHR '':'' \<and> b = CHR '':''")
    case True
    then show ?thesis by (simp add: js_lower_def eq)
  next
    case False
    with "1.IH" have "split_gap (js_lower (b # s)) =
        map_option (\<lambda>(l, r). (js_lower l, js_lower r)) (split_gap (b # s))" by blast
    with False show ?thesis
      by (cases "split_gap (b # s)") (auto simp: js_lower_def eq)
  qed
qed (simp_all add: js_lower_def)

lemma v6_fields_lower: "v6_fields (js_lower s) = map js_lower (v6_fields s)"
  by (auto simp: v6_fields_def split_on_lower) (simp_all add: js_lower_def)

lemma v6_address_lower [simp]: "v6_address (js_lower s) = v6_address s"
  by (auto simp: v6_address_def split_gap_lower v6_fields_lower split_on_lower list.pred_map comp_def
      split: option.splits)

lemma is_ipv6_lower [simp]: "is_ipv6 (js_lower s) = is_ipv6 s"
proof -
  have eq: "(\<lambda>x. lower_char x \<noteq> CHR ''%'') = (\<lambda>x. x \<noteq> CHR ''%'')"
    using lower_char_below [of "CHR ''%''"] by auto
  have tw: "takeWhile (\<lambda>c. c \<noteq> CHR ''%'') (js_lower s) = js_lower (takeWhile (\<lambda>c. c \<noteq> CHR ''%'') s)"
    by (simp add: js_lower_def takeWhile_map comp_def eq)
  have dw: "dropWhile (\<lambda>c. c \<noteq> CHR ''%'') (js_lower s) = js_lower (dropWhile (\<lambda>c. c \<noteq> CHR ''%'') s)"
    by (simp add: js_lower_def dropWhile_map comp_def eq)
  have zone: "(case js_lower d of [] \<Rightarrow> True | _ # z \<Rightarrow> z \<noteq> [] \<and> list_all zone_char z) =
      (case d of [] \<Rightarrow> True | _ # z \<Rightarrow> z \<noteq> [] \<and> list_all zone_char z)" for d
    by (cases d) (simp_all add: js_lower_def list.pred_map comp_def)
  show ?thesis
    unfolding is_ipv6_def tw dw v6_address_lower zone by (rule refl)
qed

lemma isIP_lower [simp]: "isIP (js_lower s) = isIP s"
  by (simp add: isIP_def)

section \<open>Which characters address literals have\<close>

lemma set_split_on: "set s \<subseteq> insert c (\<Union>(set ` set (split_on c s)))"
proof (induction s)
  case (Cons x s)
  obtain w ws where "split_on c s = w # ws" by (cases "split_on c s") auto
  with Cons show ?case by (cases "x = c") auto
qed simp

lemma is_ipv4_chars: "is_ipv4 s \<Longrightarrow> x \<in> set s \<Longrightarrow> is_digit x \<or> x = CHR ''.''"
  using set_split_on [of s "CHR ''.''"] by (auto simp: is_ipv4_def v4_segment_def list_all_iff)

lemma zone_char_cases: "is_digit x \<or> is_hex x \<or> x = CHR ''.'' \<or> x = CHR '':'' \<Longrightarrow> zone_char x"
  by (auto simp: zone_char_def is_digit_def is_hex_def Let_def)

lemma v6_groups_chars: "v6_groups ws = Some k \<Longrightarrow> w \<in> set ws \<Longrightarrow> x \<in> set w \<Longrightarrow> zone_char x"
proof (induction ws arbitrary: k rule: v6_groups.induct)
  case (2 v)
  then show ?case
    by (auto simp: v6_segment_def list_all_iff intro: zone_char_cases dest: is_ipv4_chars split: if_splits)
next
  case (3 v w' ws)
  then show ?case
    by (auto simp: v6_segment_def list_all_iff intro: zone_char_cases split: if_splits)
qed simp

lemma v6_fields_chars:
  "\<forall>w \<in> set (v6_fields s). \<forall>x \<in> set w. zone_char x \<Longrightarrow> x \<in> set s \<Longrightarrow> zone_char x"
  using set_split_on [of s "CHR '':''"]
  by (auto simp: v6_fields_def intro: zone_char_cases split: if_splits)

lemma split_gap_Some: "split_gap s = Some (l, r) \<Longrightarrow> s = l @ ''::'' @ r"
  by (induction s arbitrary: l r rule: split_gap.induct) (auto split: if_splits)

lemma v6_address_chars: "v6_address s \<Longrightarrow> x \<in> set s \<Longrightarrow> zone_char x"
proof (cases "split_gap s")
  case None
  assume *: "v6_address s" "x \<in> set s"
  with None have "v6_groups (split_on (CHR '':'') s) = Some 8" by (simp add: v6_address_def)
  then have "\<forall>w \<in> set (split_on (CHR '':'') s). \<forall>y \<in> set w. zone_char y"
    using v6_groups_chars by blast
  with * show "zone_char x"
    using set_split_on [of s "CHR '':''"] by (auto intro: zone_char_cases)
next
  case (Some lr)
  obtain l r where lr: "lr = (l, r)" by (cases lr)
  assume *: "v6_address s" "x \<in> set s"
  from * Some lr obtain k where
    l: "list_all v6_segment (v6_fields l)" and r: "v6_groups (v6_fields r) = Some k"
    by (auto simp: v6_address_def split: option.splits)
  have "\<forall>w \<in> set (v6_fields l). \<forall>y \<in> set w. zone_char y"
    using l by (auto simp: list_all_iff v6_segment_def intro: zone_char_cases)
  moreover have "\<forall>w \<in> set (v6_fields r). \<forall>y \<in> set w. zone_char y"
    using v6_groups_chars [OF r] by blast
  moreover have "s = l @ ''::'' @ r" using Some lr split_gap_Some by blast
  ultimately show "zone_char x"
    using * v6_fields_chars [of l x] v6_fields_chars [of r x] by (auto intro: zone_char_cases)
qed

lemma is_ipv6_chars:
  assumes "is_ipv6 s" "x \<in> set s"
  shows "zone_char x \<or> x = CHR ''%''"
proof -
  have "s = takeWhile (\<lambda>c. c \<noteq> CHR ''%'') s @ dropWhile (\<lambda>c. c \<noteq> CHR ''%'') s" by simp
  with assms(2) consider "x \<in> set (takeWhile (\<lambda>c. c \<noteq> CHR ''%'') s)"
    | "x \<in> set (dropWhile (\<lambda>c. c \<noteq> CHR ''%'') s)"
    by (metis UnE set_append)
  then show ?thesis
  proof cases
    case 1
    with assms(1) show ?thesis by (auto simp: is_ipv6_def dest: v6_address_chars)
  next
    case 2
    then obtain z zs where dw: "dropWhile (\<lambda>c. c \<noteq> CHR ''%'') s = z # zs"
      by (cases "dropWhile (\<lambda>c. c \<noteq> CHR ''%'') s") auto
    then have "z = CHR ''%''" using hd_dropWhile [of "\<lambda>c. c \<noteq> CHR ''%''" s] by simp
    with 2 dw assms(1) show ?thesis by (auto simp: is_ipv6_def list_all_iff)
  qed
qed

lemma count_split: "length (split_on c s) = Suc (count_list s c)"
  by (induction s) (auto split: list.splits)

lemma v6_groups_bound: "v6_groups ws = Some k \<Longrightarrow> k \<le> Suc (length ws)"
  by (induction ws arbitrary: k rule: v6_groups.induct) (auto split: if_splits)

lemma v6_address_colons:
  assumes "v6_address s"
  shows "2 \<le> count_list s (CHR '':'')"
proof (cases "split_gap s")
  case None
  with assms have "v6_groups (split_on (CHR '':'') s) = Some 8" by (simp add: v6_address_def)
  then have "8 \<le> Suc (length (split_on (CHR '':'') s))" by (rule v6_groups_bound)
  then show ?thesis by (simp add: count_split)
next
  case (Some lr)
  then obtain l r where "s = l @ ''::'' @ r" by (cases lr) (auto dest: split_gap_Some)
  then show ?thesis by simp
qed

lemma is_ipv6_colons:
  assumes "is_ipv6 s"
  shows "2 \<le> count_list s (CHR '':'')"
proof -
  let ?t = "takeWhile (\<lambda>c. c \<noteq> CHR ''%'') s"
  have "2 \<le> count_list ?t (CHR '':'')"
    using assms by (intro v6_address_colons) (simp add: is_ipv6_def)
  also have "\<dots> \<le> count_list (?t @ dropWhile (\<lambda>c. c \<noteq> CHR ''%'') s) (CHR '':'')"
    unfolding count_list_append by (rule le_add1)
  finally show ?thesis by simp
qed

lemma isIP_6_chars:
  assumes "isIP s = 6" "x \<in> set s"
  shows "zone_char x \<or> x = CHR ''%''"
  using assms is_ipv6_chars by (simp add: isIP_def split: if_splits)

lemma isIP_0_few_colons:
  assumes "count_list s (CHR '':'') = 1"
  shows "isIP s = 0"
proof -
  have "\<not> is_ipv4 s"
    using assms is_ipv4_chars [of s "CHR '':''"] count_notin [of "CHR '':''" s]
    by (auto simp: is_digit_def)
  with assms show ?thesis using is_ipv6_colons [of s] by (auto simp: isIP_def)
qed

section \<open>What the parser guarantees of a valid target\<close>

definition canonical_host :: "string \<Rightarrow> bool" where
  "canonical_host h \<longleftrightarrow> h \<noteq> [] \<and> js_lower h = h \<and> CHR ''/'' \<notin> set h \<and> CHR ''?'' \<notin> set h \<and> CHR ''#'' \<notin> set h
     \<and> (isIP h = 6 \<or> (CHR '':'' \<notin> set h \<and> \<not> prefix ''['' h))"

definition canonical_port :: "nat option \<Rightarrow> bool" where
  "canonical_port p \<longleftrightarrow> (case p of None \<Rightarrow> True | Some n \<Rightarrow> 1 \<le> n \<and> n \<le> 65535)"

definition canonical_path :: "string option \<Rightarrow> bool" where
  "canonical_path p \<longleftrightarrow> (case p of None \<Rightarrow> True | Some x \<Rightarrow>
     x \<noteq> [] \<and> hd x = CHR ''/'' \<and> last x = CHR ''/'' \<and> CHR ''?'' \<notin> set x \<and> CHR ''#'' \<notin> set x)"

definition canonical_uri :: "ParsedUri \<Rightarrow> bool" where
  "canonical_uri u \<longleftrightarrow> isValid u \<and> canonical_host (host u) \<and> canonical_port (port u) \<and> canonical_path (uri_path u)"

lemma take_before_index:
  assumes "m \<le> (case index_of c t of None \<Rightarrow> length t | Some i \<Rightarrow> i)"
  shows "c \<notin> set (take m t)"
proof (cases "index_of c t")
  case None
  then show ?thesis by (auto simp: js_simps dest: in_set_takeD)
next
  case (Some i)
  then have "take i t = takeWhile (\<lambda>x. x \<noteq> c) t" by (simp add: index_of_Some_takeWhile)
  with assms Some have "set (take m t) \<subseteq> set (takeWhile (\<lambda>x. x \<noteq> c) t)"
    by (metis option.case(2) set_take_subset_set_take)
  then show ?thesis using set_takeWhileD by fastforce
qed

lemma scheme_before_index:
  assumes "prefix P (js_lower t)" "d \<notin> set P" "(of_char d :: nat) < 65"
  shows "length P \<le> (case index_of d t of None \<Rightarrow> length t | Some i \<Rightarrow> i)"
proof (cases "index_of d t")
  case None
  then show ?thesis using prefix_length_le [OF assms(1)] by (simp add: js_lower_def)
next
  case (Some i)
  then have i: "i < length t" "t ! i = d" by (simp_all add: index_of_Some_takeWhile)
  have "lower_char d = d" using lower_char_below [OF assms(3)] by blast
  with i have "js_lower t ! i = d" by (simp add: js_lower_def)
  with assms(1,2) have "\<not> i < length P" by (auto simp: prefix_def nth_append)
  with Some show ?thesis by simp
qed

lemma uri_raw_no_query: "CHR ''?'' \<notin> set (uri_raw s) \<and> CHR ''#'' \<notin> set (uri_raw s)"
proof -
  define t where "t = js_trim s"
  define q where "q = (case index_of (CHR ''?'') t of None \<Rightarrow> length t | Some i \<Rightarrow> i)"
  define f where "f = (case index_of (CHR ''#'') t of None \<Rightarrow> length t | Some i \<Rightarrow> i)"
  define k where "k = (if prefix ''https://'' (js_lower t) then length ''https://''
                   else if prefix ''http://'' (js_lower t) then length ''http://'' else 0)"
  have "k \<le> q" "k \<le> f"
    unfolding k_def q_def f_def
    using scheme_before_index [of "''https://''" t "CHR ''?''"] scheme_before_index [of "''http://''" t "CHR ''?''"]
      scheme_before_index [of "''https://''" t "CHR ''#''"] scheme_before_index [of "''http://''" t "CHR ''#''"]
    by simp_all
  then have sub: "js_substring t k (min q f) = drop k (take (min q f) t)"
    by (simp add: js_substring_def)
  have raw: "uri_raw s = drop k (take (min q f) t)"
    unfolding sub [symmetric] unfolding uri_raw_def Let_def t_def k_def q_def f_def by (rule refl)
  have "CHR ''?'' \<notin> set (take (min q f) t)" "CHR ''#'' \<notin> set (take (min q f) t)"
    by (rule take_before_index, simp add: q_def f_def)+
  then show ?thesis unfolding raw by (meson in_set_dropD)
qed

lemma uri_split_path_facts:
  assumes "uri_split_path r = (a, p)" "CHR ''?'' \<notin> set r" "CHR ''#'' \<notin> set r"
  shows "CHR ''/'' \<notin> set a" "set a \<subseteq> set r" "canonical_path p"
proof -
  have "CHR ''/'' \<notin> set a \<and> set a \<subseteq> set r \<and> canonical_path p"
  proof (cases "index_of (CHR ''/'') r")
    case None
    with assms(1) show ?thesis by (auto simp: uri_split_path_def js_simps canonical_path_def)
  next
    case (Some i)
    note i = index_of_Some_takeWhile [OF Some]
    have a: "a = take i r" and p: "p = Some (if suffix ''/'' (drop i r) then drop i r else drop i r @ ''/'')"
      using assms(1) Some by (simp_all add: uri_split_path_def Let_def)
    have "CHR ''/'' \<notin> set a" using i a set_takeWhileD by fastforce
    moreover have "set a \<subseteq> set r" using a by (simp add: set_take_subset)
    moreover have "canonical_path p"
    proof -
      define d where "d = drop i r"
      have d: "d \<noteq> []" "hd d = CHR ''/''" "CHR ''?'' \<notin> set d" "CHR ''#'' \<notin> set d"
        using i assms(2,3) by (auto simp: d_def hd_drop_conv_nth dest: in_set_dropD)
      then show ?thesis
        unfolding p canonical_path_def d_def [symmetric] by (auto simp: suffix_def)
    qed
    ultimately show ?thesis by blast
  qed
  then show "CHR ''/'' \<notin> set a" "set a \<subseteq> set r" "canonical_path p" by blast+
qed

lemma bracket_match_sub: "bracket_match u = Some (h, p) \<Longrightarrow> set h \<subseteq> set u"
  by (auto simp: bracket_match_def split: list.splits option.splits if_splits dest: in_set_takeD)

lemma uri_authority_parts_facts:
  assumes "uri_authority_parts u = (h, p, True)" "CHR '':'' \<notin> set h \<or> isIP h = 6"
  shows "set h \<subseteq> set u \<and> (isIP h = 6 \<or> (CHR '':'' \<notin> set h \<and> (h = [] \<or> \<not> prefix ''['' h)))"
proof (cases "prefix ''['' u")
  case True
  with assms(1) show ?thesis
    by (auto simp: uri_authority_parts_def split: option.splits if_splits dest: bracket_match_sub [THEN subsetD])
next
  case False
  then have "\<not> prefix ''['' (take i u) \<or> take i u = []" for i
    by (cases u; cases i) auto
  with False assms show ?thesis
    by (auto simp: uri_authority_parts_def split: option.splits if_splits dest: in_set_takeD)
qed

lemma lower_char_below_mem:
  "(of_char d :: nat) < 65 \<Longrightarrow> d \<in> set (js_lower s) \<longleftrightarrow> d \<in> set s"
proof (induction s)
  case (Cons x s)
  then show ?case using lower_char_below [of d x] by (auto simp: js_lower_def)
qed (simp add: js_lower_def)

lemma prefix_bracket_lower: "prefix ''['' (js_lower s) \<longleftrightarrow> prefix ''['' s"
proof (cases s)
  case (Cons x xs)
  have "lower_char x = CHR ''['' \<longleftrightarrow> x = CHR ''[''"
    unfolding char_eq_of_char of_char_lower by auto
  with Cons show ?thesis by (auto simp: js_lower_def)
qed (simp add: js_lower_def)

lemma new_ParsedUri_canonical:
  assumes "isValid (new_ParsedUri s)"
  shows "canonical_uri (new_ParsedUri s)"
proof -
  obtain a p where ap: "uri_split_path (uri_raw s) = (a, p)" by fastforce
  obtain h pr v1 where hp: "uri_authority_parts a = (h, pr, v1)" by (metis prod_cases3)
  obtain prt v2 where pv: "uri_port pr = (prt, v2)" by fastforce
  have u: "new_ParsedUri s = \<lparr>raw = uri_raw s, host = js_lower h, uri_path = p, port = prt,
      isValid = (v1 \<and> v2 \<and> h \<noteq> [] \<and> (CHR '':'' \<notin> set h \<or> isIP h = 6))\<rparr>"
    by (simp add: new_ParsedUri_def ap hp pv)
  with assms have v: "v1" "v2" "h \<noteq> []" "CHR '':'' \<notin> set h \<or> isIP h = 6" by auto
  note path = uri_split_path_facts [OF ap uri_raw_no_query [THEN conjunct1] uri_raw_no_query [THEN conjunct2]]
  have parts: "set h \<subseteq> set a \<and> (isIP h = 6 \<or> (CHR '':'' \<notin> set h \<and> (h = [] \<or> \<not> prefix ''['' h)))"
    by (rule uri_authority_parts_facts) (use hp v in auto)
  have "CHR ''/'' \<notin> set h" "CHR ''?'' \<notin> set h" "CHR ''#'' \<notin> set h"
    using parts path(1,2) uri_raw_no_query [of s] by blast+
  with parts v have "canonical_host (js_lower h)"
    by (auto simp: canonical_host_def lower_char_below_mem prefix_bracket_lower)
      (simp_all add: js_lower_def)
  moreover have "canonical_port prt"
    using pv v by (auto simp: uri_port_def canonical_port_def split: option.splits if_splits)
  ultimately show ?thesis
    using path(3) v by (simp add: canonical_uri_def u)
qed

section \<open>Parsing the canonical text\<close>

lemma zone_char_not:
  "zone_char x \<or> x = CHR ''%'' \<Longrightarrow> x \<noteq> CHR '']'' \<and> x \<noteq> CHR ''['' \<and> x \<noteq> CHR ''/''"
  by (auto simp: zone_char_def Let_def)

lemma isIP_6_not_in: "isIP h = 6 \<Longrightarrow> CHR '']'' \<notin> set h \<and> CHR ''['' \<notin> set h"
  using isIP_6_chars zone_char_not by blast

lemma show_nat_no_terminator: "list_all (\<lambda>x. \<not> is_line_terminator x) (show_nat n)"
  using show_nat_digits [of n] by (auto simp: list_all_iff is_line_terminator_def is_digit_def)

lemma digit_not: "is_digit x \<Longrightarrow> x \<noteq> CHR '':'' \<and> x \<noteq> CHR ''/'' \<and> x \<noteq> CHR ''?'' \<and> x \<noteq> CHR ''#''"
  by (auto simp: is_digit_def)

lemma show_nat_not_in:
  "CHR '':'' \<notin> set (show_nat n) \<and> CHR ''/'' \<notin> set (show_nat n) \<and> CHR ''?'' \<notin> set (show_nat n)
    \<and> CHR ''#'' \<notin> set (show_nat n)"
  using show_nat_digits [of n] digit_not by blast

lemma authority_eq:
  assumes "canonical_uri u"
  shows "authority u = (case port u of
      None \<Rightarrow> host u
    | Some n \<Rightarrow> (if isIP (host u) = 6 then ''['' @ host u @ '']'' else host u) @ '':'' @ show_nat n)"
  using assms by (auto simp: authority_def port_truthy_def canonical_uri_def canonical_port_def
      split: option.splits)

lemma authority_chars:
  assumes "canonical_uri u"
  shows "CHR ''/'' \<notin> set (authority u) \<and> CHR ''?'' \<notin> set (authority u) \<and> CHR ''#'' \<notin> set (authority u)"
  using assms show_nat_not_in
  by (auto simp: authority_eq canonical_uri_def canonical_host_def split: option.splits)

lemma authority_parts_canonical:
  assumes "canonical_uri u"
  shows "uri_authority_parts (authority u) = (host u, map_option show_nat (port u), True)"
proof (cases "port u")
  case None
  have h: "canonical_host (host u)" using assms by (simp add: canonical_uri_def)
  show ?thesis
  proof (cases "isIP (host u) = 6")
    case True
    then have "\<not> prefix ''['' (host u)" using isIP_6_not_in [of "host u"] by (cases "host u") auto
    with True None show ?thesis by (simp add: authority_eq [OF assms] uri_authority_parts_def)
  next
    case False
    with h None show ?thesis
      by (auto simp: authority_eq [OF assms] uri_authority_parts_def canonical_host_def
          index_of_None_iff [THEN iffD2])
  qed
next
  case (Some n)
  have h: "canonical_host (host u)" using assms by (simp add: canonical_uri_def)
  show ?thesis
  proof (cases "isIP (host u) = 6")
    case True
    have "index_of (CHR '']'') (host u @ '']:'' @ show_nat n) = Some (length (host u))"
      using isIP_6_not_in [OF True] by (simp add: index_of_append_notin)
    then have "bracket_match (''['' @ host u @ '']:'' @ show_nat n) = Some (host u, Some (show_nat n))"
      using h show_nat_no_terminator [of n] by (simp add: bracket_match_def canonical_host_def)
    with True Some show ?thesis
      by (simp add: authority_eq [OF assms] uri_authority_parts_def)
  next
    case False
    then have h': "CHR '':'' \<notin> set (host u)" "\<not> prefix ''['' (host u)" "host u \<noteq> []"
      using h by (auto simp: canonical_host_def)
    have "count_list (host u @ '':'' @ show_nat n) (CHR '':'') = 1"
      using h' show_nat_not_in [of n] by (simp add: count_notin)
    then have "isIP (host u @ '':'' @ show_nat n) = 0" by (rule isIP_0_few_colons)
    moreover have "index_of (CHR '':'') (host u @ '':'' @ show_nat n) = Some (length (host u))"
      using h' by (simp add: index_of_append_notin)
    moreover have "\<not> prefix ''['' (host u @ '':'' @ show_nat n)"
      using h' by (cases "host u") auto
    ultimately show ?thesis
      using False Some by (simp add: authority_eq [OF assms] uri_authority_parts_def)
  qed
qed

lemma uri_port_canonical: "canonical_port p \<Longrightarrow> uri_port (map_option show_nat p) = (p, True)"
  using show_nat_digits
  by (cases p) (auto simp: uri_port_def canonical_port_def list_all_iff)

lemma uri_split_path_canonical:
  assumes "CHR ''/'' \<notin> set a" "canonical_path p"
  shows "uri_split_path (a @ (case p of None \<Rightarrow> [] | Some x \<Rightarrow> x)) = (a, p)"
proof (cases p)
  case None
  with assms show ?thesis by (simp add: uri_split_path_def index_of_None_iff [THEN iffD2])
next
  case (Some x)
  with assms obtain y where x: "x = CHR ''/'' # y" by (cases x) (auto simp: canonical_path_def)
  have "suffix ''/'' x"
  proof -
    have "last x = CHR ''/''" "x \<noteq> []" using assms Some by (simp_all add: canonical_path_def)
    then have "x = butlast x @ ''/''" using append_butlast_last_id [of x] by simp
    then show ?thesis unfolding suffix_def by blast
  qed
  moreover have "index_of (CHR ''/'') (a @ x) = Some (length a)"
    using assms x by (simp add: index_of_append_notin)
  ultimately show ?thesis using Some by (simp add: uri_split_path_def)
qed

text \<open>Text up to the first slash that is not a scheme name keeps the scheme from being stripped.\<close>

lemma no_scheme:
  assumes "CHR ''/'' \<notin> set a" "js_lower a \<noteq> sch" "CHR ''/'' \<notin> set sch"
    "p = [] \<or> hd p = CHR ''/''"
  shows "\<not> prefix (sch @ ''//'') (js_lower (a @ p))"
proof
  assume "prefix (sch @ ''//'') (js_lower (a @ p))"
  then obtain z where z: "js_lower a @ js_lower p = sch @ CHR ''/'' # CHR ''/'' # z"
    by (auto simp: prefix_def)
  have a: "CHR ''/'' \<notin> set (js_lower a)"
    using assms(1) by (simp add: lower_char_below_mem)
  have p: "js_lower p = [] \<or> hd (js_lower p) = CHR ''/''"
    using assms(4) lower_char_below [of "CHR ''/''" "CHR ''/''"] by (cases p) (simp_all add: js_lower_def)
  have "takeWhile (\<lambda>c. c \<noteq> CHR ''/'') (js_lower a @ q) = js_lower a" if "q = [] \<or> hd q = CHR ''/''" for q
  proof -
    have "\<forall>x \<in> set (js_lower a). x \<noteq> CHR ''/''" using a by blast
    then show ?thesis using that by (cases q) simp_all
  qed
  from this [OF p] have "takeWhile (\<lambda>c. c \<noteq> CHR ''/'') (js_lower a @ js_lower p) = js_lower a" .
  moreover have "takeWhile (\<lambda>c. c \<noteq> CHR ''/'') (sch @ CHR ''/'' # CHR ''/'' # z) = sch"
    using assms(3) by (subst takeWhile_append2) auto
  ultimately show False using z assms(2) by simp
qed

lemma authority_not_scheme:
  assumes "canonical_uri u" "last sch = CHR '':''" "count_list sch (CHR '':'') = 1" "sch \<noteq> []"
  shows "js_lower (authority u) \<noteq> sch"
proof
  assume eq: "js_lower (authority u) = sch"
  have h: "canonical_host (host u)" using assms(1) by (simp add: canonical_uri_def)
  show False
  proof (cases "port u")
    case None
    then have hs: "host u = sch"
      using eq h by (simp add: authority_eq [OF assms(1)] canonical_host_def)
    have "CHR '':'' \<in> set sch" using assms(2,4) last_in_set by metis
    with h hs have "isIP sch = 6" by (auto simp: canonical_host_def)
    moreover have "isIP sch = 0" using assms(3) by (rule isIP_0_few_colons)
    ultimately show False by simp
  next
    case (Some n)
    have low: "js_lower ('':'' @ show_nat n) = js_lower '':'' @ show_nat n"
      using digits_lower [of "show_nat n"] show_nat_digits [of n] by (simp only: js_lower_append list_all_iff)
    have "js_lower (authority u) =
        js_lower (if isIP (host u) = 6 then ''['' @ host u @ '']'' else host u) @ js_lower '':'' @ show_nat n"
      unfolding authority_eq [OF assms(1)] Some option.case(2) js_lower_append [of "if isIP _ = _ then _ else _"] low
      by (rule refl)
    then have "last (js_lower (authority u)) = last (show_nat n)" by simp
    then have "is_digit (last sch)"
      using eq by (metis last_in_set show_nat_nonempty show_nat_digits)
    with assms(2) show False by (simp add: is_digit_def)
  qed
qed

lemma uri_raw_canonical:
  assumes "canonical_uri u" "js_trim (fullUri u) = fullUri u"
  shows "uri_raw (fullUri u) = fullUri u"
proof -
  let ?p = "case uri_path u of None \<Rightarrow> [] | Some x \<Rightarrow> x"
  have v: "isValid u" and path: "canonical_path (uri_path u)" using assms(1) by (auto simp: canonical_uri_def)
  have F: "fullUri u = authority u @ ?p" using v by (simp add: fullUri_def)
  have p: "?p = [] \<or> hd ?p = CHR ''/''"
    using path by (auto simp: canonical_path_def split: option.splits)
  have a: "CHR ''/'' \<notin> set (authority u)" using authority_chars [OF assms(1)] by simp
  have "js_lower (authority u) \<noteq> ''https:''" "js_lower (authority u) \<noteq> ''http:''"
    by (rule authority_not_scheme [OF assms(1)]; simp)+
  then have "\<not> prefix (''https:'' @ ''//'') (js_lower (fullUri u))"
    "\<not> prefix (''http:'' @ ''//'') (js_lower (fullUri u))"
    unfolding F by (intro no_scheme a p; simp)+
  moreover have "CHR ''?'' \<notin> set (fullUri u)" "CHR ''#'' \<notin> set (fullUri u)"
    using authority_chars [OF assms(1)] path
    by (auto simp: F canonical_path_def split: option.splits)
  moreover from this have "index_of (CHR ''?'') (fullUri u) = None" "index_of (CHR ''#'') (fullUri u) = None"
    by (simp_all add: index_of_None_iff)
  moreover have "js_substring (fullUri u) 0 (length (fullUri u)) = fullUri u" by (simp add: js_substring_def)
  ultimately show ?thesis
    unfolding uri_raw_def Let_def assms(2) by simp
qed

lemma reparse_canonical:
  assumes "canonical_uri u" "js_trim (fullUri u) = fullUri u"
  shows "new_ParsedUri (fullUri u) = u\<lparr>raw := fullUri u\<rparr>"
proof -
  have v: "isValid u" and h: "canonical_host (host u)" and prt: "canonical_port (port u)"
    and path: "canonical_path (uri_path u)" using assms(1) by (auto simp: canonical_uri_def)
  have split: "uri_split_path (fullUri u) = (authority u, uri_path u)"
    using v authority_chars [OF assms(1)] path
    by (simp add: fullUri_def uri_split_path_canonical)
  have "CHR '':'' \<notin> set (host u) \<or> isIP (host u) = 6" "host u \<noteq> []" "js_lower (host u) = host u"
    using h by (auto simp: canonical_host_def)
  then show ?thesis
    using v unfolding new_ParsedUri_def uri_raw_canonical [OF assms] split
        authority_parts_canonical [OF assms(1)] uri_port_canonical [OF prt] Let_def prod.case by simp
qed

lemma dropWhile_length_id: "length xs \<le> length (dropWhile P xs) \<Longrightarrow> dropWhile P xs = xs"
  by (metis append_eq_append_conv append_self_conv2 dropWhile_append2 le_antisym length_dropWhile_le takeWhile_dropWhile_id)

lemma js_trim_length_id: "length s \<le> length (js_trim s) \<Longrightarrow> js_trim s = s"
proof -
  assume *: "length s \<le> length (js_trim s)"
  have "length (js_trim s) \<le> length (dropWhile is_ws s)"
    by (metis js_trim_def length_dropWhile_le length_rev)
  with * have "dropWhile is_ws s = s" by (intro dropWhile_length_id) simp
  moreover from this * have "dropWhile is_ws (rev s) = rev s" by (intro dropWhile_length_id) (simp add: js_trim_def)
  ultimately show ?thesis by (simp add: js_trim_def)
qed

lemma raw_new_ParsedUri: "raw (new_ParsedUri s) = uri_raw s"
  by (simp add: new_ParsedUri_def Let_def split: prod.split)

lemma length_uri_raw: "length (uri_raw s) \<le> length (js_trim s)"
  by (auto simp: uri_raw_def Let_def js_substring_def)

text \<open>C15: the canonical text of a valid network target parses back to the same host, port and path and is still valid
  exactly when it has no white space at its edges.  So a valid target that is stored, compared and resolved again keeps
  its meaning, except for a host like \<open> x\<close> (from \<open>http:// x\<close>), whose blank the second reading trims.\<close>

theorem fullUri_reparse:
  assumes "isValid (new_ParsedUri s)"
  shows "new_ParsedUri (fullUri (new_ParsedUri s)) = (new_ParsedUri s)\<lparr>raw := fullUri (new_ParsedUri s)\<rparr>
    \<longleftrightarrow> js_trim (fullUri (new_ParsedUri s)) = fullUri (new_ParsedUri s)"
proof
  let ?t = "fullUri (new_ParsedUri s)"
  assume "new_ParsedUri ?t = (new_ParsedUri s)\<lparr>raw := ?t\<rparr>"
  then have "raw (new_ParsedUri ?t) = ?t" by simp
  then show "js_trim ?t = ?t" using length_uri_raw [of ?t] by (intro js_trim_length_id) (simp add: raw_new_ParsedUri)
qed (use assms in \<open>intro reparse_canonical new_ParsedUri_canonical\<close>)

theorem fullUri_reparse_witness:
  "fullUri (new_ParsedUri ''HTTP://A.b:80/c?q'') = ''a.b:80/c/''
   \<and> new_ParsedUri ''a.b:80/c/'' =
     (new_ParsedUri ''HTTP://A.b:80/c?q'')\<lparr>raw := ''a.b:80/c/''\<rparr>"
proof -
  have v: "isValid (new_ParsedUri ''HTTP://A.b:80/c?q'')" by code_simp
  have f: "fullUri (new_ParsedUri ''HTTP://A.b:80/c?q'') = ''a.b:80/c/''" by code_simp
  have t: "js_trim ''a.b:80/c/'' = ''a.b:80/c/''" by code_simp
  show ?thesis using f fullUri_reparse [OF v, unfolded f] t by simp
qed

section \<open>A doubled scheme\<close>

text \<open>A target with a second scheme is not a fixed point of the canonical form.  One reading finds it invalid and keeps the
  text behind the first scheme; the next reading takes that text for the target behind the second scheme.\<close>

lemma uri_raw_http:
  assumes "js_trim t = t" "t \<noteq> []" "CHR ''?'' \<notin> set t" "CHR ''#'' \<notin> set t"
  shows "uri_raw (''http://'' @ t) = t"
proof -
  have "js_trim (''http://'' @ t) = ''http://'' @ t"
    using assms(1,2) by (simp add: js_trim_id_iff is_ws_def)
  moreover have "index_of (CHR ''?'') t = None" "index_of (CHR ''#'') t = None" using assms(3,4) by (simp_all add: index_of_None_iff)
  moreover have "js_lower (''http://'' @ t) = ''http://'' @ js_lower t" by (simp add: js_lower_def lower_char_def)
  ultimately show ?thesis by (simp add: uri_raw_def Let_def js_substring_def)
qed

lemma doubled_scheme:
  assumes "canonical_uri u" "js_trim (fullUri u) = fullUri u"
  shows "\<not> isValid (new_ParsedUri (''http://http://'' @ fullUri u))"
    and "fullUri (new_ParsedUri (''http://http://'' @ fullUri u)) = ''http://'' @ fullUri u"
    and "new_ParsedUri (''http://'' @ fullUri u) = u\<lparr>raw := fullUri u\<rparr>"
proof -
  let ?t = "fullUri u"
  have q: "CHR ''?'' \<notin> set ?t" "CHR ''#'' \<notin> set ?t"
    using uri_raw_no_query [of ?t] uri_raw_canonical [OF assms] by simp_all
  have ne: "?t \<noteq> []"
    using assms(1) by (auto simp: fullUri_def authority_eq canonical_uri_def canonical_host_def split: option.splits)
  have r1: "uri_raw (''http://'' @ ?t) = ?t" by (rule uri_raw_http [OF assms(2) ne q])
  have "uri_raw (''http://'' @ (''http://'' @ ?t)) = ''http://'' @ ?t"
    using assms(2) ne q by (intro uri_raw_http) (simp_all add: js_trim_id_iff is_ws_def)
  then have r2: "uri_raw (''http://http://'' @ ?t) = ''http://'' @ ?t" by simp
  have "uri_split_path (''http://'' @ ?t) = (''http:'', Some (let p = ''//'' @ ?t in if suffix ''/'' p then p else p @ ''/''))"
    by (simp add: uri_split_path_def Let_def)
  moreover have "uri_authority_parts ''http:'' = (''http'', Some [], True)" by code_simp
  ultimately show "\<not> isValid (new_ParsedUri (''http://http://'' @ ?t))"
    unfolding new_ParsedUri_def r2 by (simp add: uri_port_def)
  then show "fullUri (new_ParsedUri (''http://http://'' @ ?t)) = ''http://'' @ ?t"
    by (simp only: fullUri_def [of "new_ParsedUri _"] raw_new_ParsedUri r2 not_False_eq_True if_True)
  have "new_ParsedUri (''http://'' @ ?t) = new_ParsedUri ?t"
    by (simp only: new_ParsedUri_def r1 uri_raw_canonical [OF assms])
  then show "new_ParsedUri (''http://'' @ ?t) = u\<lparr>raw := ?t\<rparr>" by (simp add: reparse_canonical [OF assms])
qed

end
