(* ===== verification/Policy_Scope_Laws.thy ===== *)
theory Policy_Scope_Laws
  imports Policy_Scope
begin

text \<open>
  Laws of file scopes.  An absolute normalised path is the text of a list of good segments;
  on such paths the functions of \<open>node:path\<close> are list functions, coverage is the prefix order,
  and the hierarchy loop walks the prefixes of the list.
\<close>

section \<open>Absolute normalised paths\<close>

definition good_segment :: "string \<Rightarrow> bool" where
  "good_segment s \<longleftrightarrow> s \<noteq> [] \<and> CHR ''/'' \<notin> set s \<and> s \<noteq> ''.'' \<and> s \<noteq> ''..''"

abbreviation good_segments :: "string list \<Rightarrow> bool" where
  "good_segments segs \<equiv> list_all good_segment segs"

lemma good_segmentsD: "good_segments segs \<Longrightarrow> s \<in> set segs \<Longrightarrow> s \<noteq> [] \<and> CHR ''/'' \<notin> set s"
  by (auto simp: list_all_iff good_segment_def)

lemma good_segments_take [simp]: "good_segments segs \<Longrightarrow> good_segments (take k segs)"
  by (auto simp: list_all_iff dest: in_set_takeD)

lemma good_segments_drop [simp]: "good_segments segs \<Longrightarrow> good_segments (drop k segs)"
  by (auto simp: list_all_iff dest: in_set_dropD)

lemma segments_abs_path [simp]: "good_segments segs \<Longrightarrow> segments (abs_path segs) = segs"
proof (cases "segs = []")
  case True
  then show ?thesis by (simp add: segments_def abs_path_def)
next
  case False
  assume g: "good_segments segs"
  then have "split_on (CHR ''/'') (join_with ''/'' segs) = segs"
    using False good_segmentsD [OF g] by (intro split_join) auto
  moreover have "filter (\<lambda>s. s \<noteq> []) segs = segs"
    using good_segmentsD [OF g] by (simp add: filter_id_conv)
  ultimately show ?thesis by (simp add: segments_def abs_path_def)
qed

lemma segments_parts: "s \<in> set (segments p) \<Longrightarrow> s \<noteq> [] \<and> CHR ''/'' \<notin> set s"
  by (auto simp: segments_def dest: split_on_parts)

lemma norm_step_good: "good_segment s \<Longrightarrow> norm_step b acc s = acc @ [s]"
  by (simp add: norm_step_def good_segment_def)

lemma foldl_norm_good: "good_segments segs \<Longrightarrow> foldl (norm_step b) acc segs = acc @ segs"
  by (induction segs arbitrary: acc) (simp_all add: norm_step_good)

lemma norm_step_keeps_good:
  assumes "good_segments acc" "s \<noteq> []" "CHR ''/'' \<notin> set s"
  shows "good_segments (norm_step False acc s)"
proof -
  have "good_segments (butlast acc)" using assms(1) by (auto simp: list_all_iff dest: in_set_butlastD)
  then show ?thesis using assms by (auto simp: norm_step_def good_segment_def)
qed

lemma normalizeString_good: "good_segments (normalizeString p False)"
proof -
  have "good_segments (foldl (norm_step False) acc xs)"
    if "good_segments acc" "\<forall>s \<in> set xs. s \<noteq> [] \<and> CHR ''/'' \<notin> set s" for acc xs
    using that by (induction xs arbitrary: acc) (simp_all add: norm_step_keeps_good)
  then show ?thesis using segments_parts by (auto simp: normalizeString_def)
qed

lemma normalizeString_abs_path [simp]:
  "good_segments segs \<Longrightarrow> normalizeString (abs_path segs) b = segs"
  by (simp add: normalizeString_def foldl_norm_good)

lemma abs_path_isAbsolute [simp]: "path_isAbsolute (abs_path segs)"
  by (simp add: path_isAbsolute_def abs_path_def)

lemma path_resolve_abs_path [simp]: "good_segments segs \<Longrightarrow> path_resolve env (abs_path segs) = abs_path segs"
  by (simp add: path_resolve_def)

lemma path_resolve_form: "\<exists>segs. good_segments segs \<and> path_resolve env p = abs_path segs"
  unfolding path_resolve_def using normalizeString_good by blast

lemma segments_resolve_good [simp]: "good_segments (segments (path_resolve env p))"
  using path_resolve_form [of env p] by auto

lemma abs_path_inject:
  "good_segments a \<Longrightarrow> good_segments b \<Longrightarrow> abs_path a = abs_path b \<longleftrightarrow> a = b"
  by (metis segments_abs_path)

lemma join_snoc: "xs \<noteq> [] \<Longrightarrow> join_with sep (xs @ [y]) = join_with sep xs @ sep @ y"
proof (induction sep xs rule: join_with.induct)
  case (3 sep w v ws)
  then show ?case by (cases ws) auto
qed simp_all

lemma join_nonempty: "good_segments segs \<Longrightarrow> segs \<noteq> [] \<Longrightarrow> join_with ''/'' segs \<noteq> []"
  by (cases segs; cases "tl segs") (auto simp: good_segment_def)

lemma last_join_not_slash:
  "good_segments segs \<Longrightarrow> segs \<noteq> [] \<Longrightarrow> last (join_with ''/'' segs) \<noteq> CHR ''/''"
proof (induction segs rule: rev_induct)
  case (snoc s segs)
  then have "s \<noteq> []" "CHR ''/'' \<notin> set s" by (auto simp: good_segment_def)
  then have s: "s \<noteq> []" "last s \<noteq> CHR ''/''" using last_in_set [of s] by metis+
  then show ?case by (cases "segs = []") (simp_all add: join_snoc)
qed simp

lemma strip_abs_path [simp]: "good_segments segs \<Longrightarrow> stripTrailingPathSeparators (abs_path segs) = abs_path segs"
proof (cases "segs = []")
  case True
  then show ?thesis by (simp add: stripTrailingPathSeparators_def abs_path_def path_isAbsolute_def)
next
  case False
  assume g: "good_segments segs"
  then have ne: "join_with ''/'' segs \<noteq> []" and "last (join_with ''/'' segs) \<noteq> CHR ''/''"
    using False by (simp_all add: join_nonempty last_join_not_slash)
  then have "dropWhile (\<lambda>c. c = CHR ''/'') (rev (abs_path segs)) = rev (abs_path segs)"
    by (cases "join_with ''/'' segs" rule: rev_cases) (simp_all add: abs_path_def)
  then show ?thesis by (simp add: stripTrailingPathSeparators_def abs_path_def path_isAbsolute_def)
qed

section \<open>Parents\<close>

lemma path_dirname_root [simp]: "path_dirname (abs_path []) = abs_path []"
  by code_simp

lemma path_dirname_snoc [simp]:
  assumes g: "good_segments segs" and s: "good_segment s"
  shows "path_dirname (abs_path (segs @ [s])) = abs_path segs"
proof -
  have sl: "\<forall>c \<in> set (rev s). c \<noteq> CHR ''/''" and sn: "rev s \<noteq> []"
    using s by (auto simp: good_segment_def)
  have dw1: "dropWhile (\<lambda>c. c = CHR ''/'') (rev s @ R) = rev s @ R" for R
    using sl sn by (cases "rev s") auto
  have dw2: "dropWhile (\<lambda>c. c \<noteq> CHR ''/'') (rev s @ R) = dropWhile (\<lambda>c. c \<noteq> CHR ''/'') R" for R
    using sl by (rule dropWhile_append2 [OF bspec])
  show ?thesis
  proof (cases "segs = []")
    case True
    have "dropWhile (\<lambda>c. c = CHR ''/'') (rev s) = rev s" using dw1 [of "[]"] by simp
    moreover have "dropWhile (\<lambda>c. c \<noteq> CHR ''/'') (rev s) = []" using dw2 [of "[]"] by simp
    ultimately show ?thesis
      using True unfolding path_dirname_def abs_path_def Let_def by simp
  next
    case False
    let ?j = "join_with ''/'' segs"
    have p: "abs_path (segs @ [s]) = CHR ''/'' # ?j @ CHR ''/'' # s"
      using False by (simp add: abs_path_def join_snoc)
    have r: "dropWhile (\<lambda>c. c \<noteq> CHR ''/'') (dropWhile (\<lambda>c. c = CHR ''/'') (rev (tl (abs_path (segs @ [s])))))
        = CHR ''/'' # rev ?j"
      unfolding p using dw1 [of "CHR ''/'' # rev ?j"] dw2 [of "CHR ''/'' # rev ?j"] by simp
    have "?j \<noteq> []" using g False by (rule join_nonempty)
    then show ?thesis
      unfolding path_dirname_def Let_def r unfolding p by (simp add: abs_path_def)
  qed
qed

section \<open>Coverage of file scopes\<close>

lemma common_prefix_le: "common_prefix xs ys \<le> length xs \<and> common_prefix xs ys \<le> length ys"
  by (induction xs ys rule: common_prefix.induct) auto

lemma common_prefix_full: "common_prefix xs ys = length xs \<longleftrightarrow> prefix xs ys"
  by (induction xs ys rule: common_prefix.induct) (auto simp: Cons_prefix_Cons)

lemma path_relative_segments:
  "path_relative env from to = (let fs = segments (path_resolve env from); ts = segments (path_resolve env to);
     k = common_prefix fs ts in join_with ''/'' (replicate (length fs - k) ''..'' @ drop k ts))"
proof (cases "from = to")
  case True
  have "common_prefix xs xs = length xs" for xs :: "string list" by (simp add: common_prefix_full)
  with True show ?thesis by (simp add: path_relative_def Let_def)
qed (simp add: path_relative_def)

lemma relative_inside:
  assumes "good_segments xs"
  defines "r \<equiv> join_with ''/'' xs"
  shows "r = [] \<or> (\<not> prefix ''../'' r \<and> r \<noteq> ''..'' \<and> \<not> path_isAbsolute r)"
proof (cases xs)
  case (Cons x ys)
  have x: "x \<noteq> []" "CHR ''/'' \<notin> set x" "x \<noteq> ''..''" using assms(1) Cons by (auto simp: good_segment_def)
  have r: "r = x @ (if ys = [] then [] else CHR ''/'' # join_with ''/'' ys)"
    unfolding r_def Cons by (cases ys) simp_all
  have tw: "takeWhile (\<lambda>c. c \<noteq> CHR ''/'') r = x"
    using x(2) by (auto simp: r takeWhile_append)
  have "\<not> prefix ''../'' r" using tw x(3) by (auto simp: prefix_def)
  moreover have "r \<noteq> ''..''" using tw x(3) by auto
  moreover have "\<not> path_isAbsolute r" using x by (cases x) (auto simp: r path_isAbsolute_def)
  ultimately show ?thesis by blast
qed (simp add: r_def)

lemma relative_outside:
  fixes n :: nat and xs :: "string list"
  assumes "0 < n"
  defines "r \<equiv> join_with ''/'' (replicate n ''..'' @ xs)"
  shows "r = ''..'' \<or> prefix ''../'' r"
proof -
  obtain m where "n = Suc m" using assms(1) by (cases n) auto
  then have "r = join_with ''/'' (''..'' # replicate m ''..'' @ xs)" by (simp add: r_def)
  then show ?thesis by (cases "replicate m ''..'' @ xs") simp_all
qed

lemma fs_covers_iff:
  assumes "isFilesystemAccess at"
  shows "policyScopeCovers env at c d \<longleftrightarrow>
    prefix (segments (path_resolve env c)) (segments (path_resolve env d))"
proof -
  let ?fs = "segments (path_resolve env c)" and ?ts = "segments (path_resolve env d)"
  let ?k = "common_prefix ?fs ?ts"
  have rel: "path_relative env c d = join_with ''/'' (replicate (length ?fs - ?k) ''..'' @ drop ?k ?ts)"
    by (simp add: path_relative_segments Let_def)
  show ?thesis
  proof (cases "?k = length ?fs")
    case True
    then have r: "path_relative env c d = join_with ''/'' (drop ?k ?ts)" by (simp add: rel)
    have "policyScopeCovers env at c d"
      using assms relative_inside [of "drop ?k ?ts"] unfolding policyScopeCovers_def Let_def r by simp
    then show ?thesis using True by (simp add: common_prefix_full)
  next
    case False
    then have "0 < length ?fs - ?k" using common_prefix_le [of ?fs ?ts] by simp
    from relative_outside [OF this, of "drop ?k ?ts"] show ?thesis
      using assms False common_prefix_full [of ?fs ?ts]
      by (auto simp: policyScopeCovers_def Let_def rel)
  qed
qed

lemma fs_covers_abs:
  "isFilesystemAccess at \<Longrightarrow> good_segments a \<Longrightarrow> good_segments b \<Longrightarrow>
   policyScopeCovers env at (abs_path a) (abs_path b) \<longleftrightarrow> prefix a b"
  by (simp add: fs_covers_iff)

section \<open>The hierarchy of an absolute path\<close>

lemma fs_scope_loop_root: "fs_scope_loop limit scopes (abs_path []) =
    (if length scopes < limit then scopes @ [abs_path []] else scopes[limit - 1 := abs_path []])"
  by (subst fs_scope_loop.simps) (simp add: Let_def)

lemma fs_scope_loop_snoc:
  assumes "good_segments segs" "good_segment s"
  shows "fs_scope_loop limit scopes (abs_path (segs @ [s])) = fs_scope_loop limit
    (if length scopes < limit then scopes @ [abs_path (segs @ [s])] else scopes[limit - 1 := abs_path (segs @ [s])])
    (abs_path segs)"
proof -
  have "abs_path segs \<noteq> abs_path (segs @ [s])"
    using assms abs_path_inject [of segs "segs @ [s]"] by simp
  then show ?thesis
    by (subst fs_scope_loop.simps) (simp add: Let_def assms)
qed

lemma fs_scope_loop_spec:
  assumes "good_segments segs" "length scopes \<le> limit" "1 \<le> limit"
  shows "length (fs_scope_loop limit scopes (abs_path segs)) \<le> limit
    \<and> fs_scope_loop limit scopes (abs_path segs) \<noteq> []
    \<and> last (fs_scope_loop limit scopes (abs_path segs)) = abs_path []
    \<and> set (fs_scope_loop limit scopes (abs_path segs)) \<subseteq> set scopes \<union> {abs_path x | x. prefix x segs}
    \<and> (scopes \<noteq> [] \<and> 2 \<le> limit \<longrightarrow> hd (fs_scope_loop limit scopes (abs_path segs)) = hd scopes)"
  using assms
proof (induction segs arbitrary: scopes rule: rev_induct)
  case Nil
  have upd: "last (scopes[length scopes - 1 := x]) = x" if "scopes \<noteq> []" for x
    using that by (simp add: last_list_update)
  have hd_upd: "hd (scopes[limit - 1 := x]) = hd scopes" if "2 \<le> limit" "scopes \<noteq> []" for x
    using that by (cases scopes; cases "limit - 1") auto
  show ?case
  proof (cases "length scopes < limit")
    case True
    then show ?thesis by (auto simp: fs_scope_loop_root hd_append)
  next
    case False
    then have len: "limit = length scopes" "scopes \<noteq> []" using Nil by auto
    with False show ?thesis
      using upd [OF len(2)] hd_upd set_update_subset_insert [of scopes "limit - 1" "abs_path []"]
      by (auto simp: fs_scope_loop_root)
  qed
next
  case (snoc s segs)
  then have g: "good_segments segs" "good_segment s" by simp_all
  let ?sc = "if length scopes < limit then scopes @ [abs_path (segs @ [s])] else scopes[limit - 1 := abs_path (segs @ [s])]"
  have step: "fs_scope_loop limit scopes (abs_path (segs @ [s])) = fs_scope_loop limit ?sc (abs_path segs)"
    using g by (rule fs_scope_loop_snoc)
  have len: "length ?sc \<le> limit" using snoc.prems by auto
  have ne: "?sc \<noteq> []" using snoc.prems by auto
  have st: "set ?sc \<subseteq> set scopes \<union> {abs_path (segs @ [s])}"
    using set_update_subset_insert [of scopes "limit - 1" "abs_path (segs @ [s])"] by auto
  have hd: "scopes \<noteq> [] \<and> 2 \<le> limit \<longrightarrow> hd ?sc = hd scopes"
    by (cases scopes; cases "limit - 1") auto
  note IH = snoc.IH [OF g(1) len snoc.prems(3)]
  have pre: "{abs_path x | x. prefix x segs} \<subseteq> {abs_path x | x. prefix x (segs @ [s])}"
    by auto
  show ?case unfolding step
    using IH st pre hd ne by (auto 4 3)
qed

lemma fs_scope_loop_hd:
  assumes "good_segments segs" "2 \<le> limit"
  shows "hd (fs_scope_loop limit [] (abs_path segs)) = abs_path segs"
proof (cases segs rule: rev_cases)
  case Nil
  then show ?thesis using assms by (simp add: fs_scope_loop_root)
next
  case (snoc ys y)
  with assms show ?thesis
    using fs_scope_loop_spec [of ys "[abs_path (ys @ [y])]" limit] by (simp add: fs_scope_loop_snoc)
qed

section \<open>Physical resolution\<close>

text \<open>
  What the code relies on of the file system: \<open>realpath\<close> answers with a normalised absolute path
  that exists and is its own real path, and a name exists below a directory exactly when it
  exists below the directory's real path.
\<close>

definition fs_wf :: "fs_env \<Rightarrow> bool" where
  "fs_wf env \<longleftrightarrow> (\<forall>p r. fs_realpath env p = Some r \<longrightarrow>
      (\<exists>rs. good_segments rs \<and> r = abs_path rs) \<and> fs_exists env r \<and> fs_realpath env r = Some r)
    \<and> (\<forall>es rs xs. good_segments es \<longrightarrow> good_segments rs \<longrightarrow> good_segments xs \<longrightarrow>
        fs_realpath env (abs_path es) = Some (abs_path rs) \<longrightarrow>
        fs_exists env (abs_path (rs @ xs)) = fs_exists env (abs_path (es @ xs)))"

lemma nea_found: "fs_exists env p \<Longrightarrow> nearestExistingAncestor env p = Some p"
  by (subst nearestExistingAncestor.simps) simp

lemma nea_root: "\<not> fs_exists env (abs_path []) \<Longrightarrow> nearestExistingAncestor env (abs_path []) = None"
  by (subst nearestExistingAncestor.simps) (simp add: Let_def)

lemma nea_snoc:
  assumes "good_segments segs" "good_segment s" "\<not> fs_exists env (abs_path (segs @ [s]))"
  shows "nearestExistingAncestor env (abs_path (segs @ [s])) = nearestExistingAncestor env (abs_path segs)"
proof -
  have "abs_path segs \<noteq> abs_path (segs @ [s])"
    using assms abs_path_inject [of segs "segs @ [s]"] by simp
  then show ?thesis
    by (subst nearestExistingAncestor.simps) (simp add: Let_def assms)
qed

lemma nea_Some:
  assumes "good_segments segs" "nearestExistingAncestor env (abs_path segs) = Some e"
  shows "\<exists>es xs. segs = es @ xs \<and> e = abs_path es \<and> fs_exists env e
    \<and> (\<forall>j. 0 < j \<and> j \<le> length xs \<longrightarrow> \<not> fs_exists env (abs_path (es @ take j xs)))"
  using assms
proof (induction segs rule: rev_induct)
  case Nil
  then have "fs_exists env (abs_path [])" using nea_root by fastforce
  with Nil show ?case by (auto simp: nea_found)
next
  case (snoc s segs)
  show ?case
  proof (cases "fs_exists env (abs_path (segs @ [s]))")
    case True
    with snoc.prems show ?thesis
      by - (rule exI [of _ "segs @ [s]"], rule exI [of _ "[]"], auto simp: nea_found)
  next
    case False
    with snoc obtain es xs where *: "segs = es @ xs" "e = abs_path es" "fs_exists env e"
      "\<forall>j. 0 < j \<and> j \<le> length xs \<longrightarrow> \<not> fs_exists env (abs_path (es @ take j xs))"
      by (auto simp: nea_snoc)
    have "\<forall>j. 0 < j \<and> j \<le> length (xs @ [s]) \<longrightarrow> \<not> fs_exists env (abs_path (es @ take j (xs @ [s])))"
      using * False by (auto simp: le_Suc_eq)
    with * show ?thesis by (intro exI [of _ es] exI [of _ "xs @ [s]"]) simp
  qed
qed

lemma nea_skip:
  assumes "good_segments es" "good_segments xs" "fs_exists env (abs_path es)"
    "\<forall>j. 0 < j \<and> j \<le> length xs \<longrightarrow> \<not> fs_exists env (abs_path (es @ take j xs))"
  shows "nearestExistingAncestor env (abs_path (es @ xs)) = Some (abs_path es)"
  using assms
proof (induction xs rule: rev_induct)
  case (snoc x xs)
  have "\<not> fs_exists env (abs_path (es @ xs @ [x]))"
    using snoc.prems(4) by (auto dest!: spec [of _ "Suc (length xs)"])
  moreover have "\<forall>j. 0 < j \<and> j \<le> length xs \<longrightarrow> \<not> fs_exists env (abs_path (es @ take j xs))"
  proof (intro allI impI)
    fix j assume "0 < j \<and> j \<le> length xs"
    then show "\<not> fs_exists env (abs_path (es @ take j xs))"
      using snoc.prems(4) [rule_format, of j] by simp
  qed
  ultimately show ?case
    using snoc nea_snoc [of "es @ xs" x env] by simp
qed (simp add: nea_found)

lemma path_relative_refl [simp]: "path_relative env p p = []"
  by (simp add: path_relative_def)

lemma relative_below:
  "good_segments es \<Longrightarrow> good_segments xs \<Longrightarrow>
   path_relative env (abs_path es) (abs_path (es @ xs)) = join_with ''/'' xs"
proof -
  assume g: "good_segments es" "good_segments xs"
  have "common_prefix es (es @ xs) = length es" by (simp add: common_prefix_full)
  with g show ?thesis by (simp add: path_relative_segments Let_def)
qed

lemma segments_join:
  "good_segments es \<Longrightarrow> good_segments xs \<Longrightarrow> segments (abs_path es @ ''/'' @ join_with ''/'' xs) = es @ xs"
proof -
  assume g: "good_segments es" "good_segments xs"
  have cat: "segments (a @ CHR ''/'' # b) = segments a @ segments b" for a b
  proof (induction a)
    case (Cons c a)
    obtain w ws where "split_on (CHR ''/'') a = w # ws" by (cases "split_on (CHR ''/'') a") auto
    moreover obtain v vs where "split_on (CHR ''/'') (a @ CHR ''/'' # b) = v # vs"
      by (cases "split_on (CHR ''/'') (a @ CHR ''/'' # b)") auto
    moreover have "split_on (CHR ''/'') (a @ CHR ''/'' # b) = split_on (CHR ''/'') a @ split_on (CHR ''/'') b"
      by (induction a) (auto split: list.splits)
    ultimately show ?case by (auto simp: segments_def)
  qed (simp add: segments_def)
  have "segments (join_with ''/'' xs) = xs"
    using g segments_abs_path [of xs] by (simp add: segments_def abs_path_def)
  with g show ?thesis using cat by simp
qed

lemma path_join_below:
  assumes "good_segments es" "good_segments xs" "xs \<noteq> []"
  shows "path_join (abs_path es) (join_with ''/'' xs) = abs_path (es @ xs)"
proof -
  let ?p = "abs_path es @ ''/'' @ join_with ''/'' xs"
  have ne: "join_with ''/'' xs \<noteq> []" using assms by (simp add: join_nonempty)
  have "normalizeString ?p False = es @ xs"
    unfolding normalizeString_def segments_join [OF assms(1,2)] using assms by (subst foldl_norm_good) simp_all
  moreover have "path_isAbsolute ?p" by (simp add: path_isAbsolute_def abs_path_def)
  moreover have "\<not> suffix ''/'' ?p"
    using last_join_not_slash [OF assms(2,3)] ne by (auto simp: suffix_def dest!: arg_cong [of _ _ last])
  moreover have "join_with ''/'' (es @ xs) \<noteq> []" using assms by (intro join_nonempty) simp_all
  ultimately have "path_normalize ?p = abs_path (es @ xs)"
    unfolding path_normalize_def Let_def by (simp add: abs_path_def)
  then show ?thesis using ne by (simp add: path_join_def abs_path_def)
qed

lemma resolvePhysicalPath_cases:
  assumes "fs_wf env"
  obtains (none) ns where "good_segments ns" "resolvePhysicalPath env p = abs_path ns"
      "path_resolve env p = abs_path ns"
      "nearestExistingAncestor env (abs_path ns) = None"
  | (unreal) ns e where "good_segments ns" "resolvePhysicalPath env p = abs_path ns"
      "path_resolve env p = abs_path ns"
      "nearestExistingAncestor env (abs_path ns) = Some e" "fs_realpath env e = None"
  | (real) es xs rs where "good_segments es" "good_segments xs" "good_segments rs"
      "resolvePhysicalPath env p = abs_path (rs @ xs)"
      "fs_realpath env (abs_path es) = Some (abs_path rs)"
      "\<forall>j. 0 < j \<and> j \<le> length xs \<longrightarrow> \<not> fs_exists env (abs_path (es @ take j xs))"
proof -
  obtain ns where ns: "good_segments ns" "path_resolve env p = abs_path ns"
    using path_resolve_form by blast
  show ?thesis
  proof (cases "nearestExistingAncestor env (abs_path ns)")
    case None
    with ns show ?thesis by (intro none) (simp_all add: resolvePhysicalPath_def)
  next
    case (Some e)
    from nea_Some [OF ns(1) Some] obtain es xs where e: "ns = es @ xs" "e = abs_path es"
      "\<forall>j. 0 < j \<and> j \<le> length xs \<longrightarrow> \<not> fs_exists env (abs_path (es @ take j xs))" by blast
    have g: "good_segments es" "good_segments xs" using ns(1) e(1) by simp_all
    show ?thesis
    proof (cases "fs_realpath env e")
      case None
      with ns Some show ?thesis by (intro unreal) (simp_all add: resolvePhysicalPath_def)
    next
      case (Some r)
      then obtain rs where rs: "good_segments rs" "r = abs_path rs"
        using assms unfolding fs_wf_def by blast
      have "resolvePhysicalPath env p = abs_path (rs @ xs)"
        using ns e g rs Some \<open>nearestExistingAncestor env (abs_path ns) = Some e\<close>
        by (cases "xs = []") (simp_all add: resolvePhysicalPath_def Let_def relative_below join_nonempty path_join_below)
      with g rs e Some show ?thesis by (intro real) simp_all
    qed
  qed
qed

lemma resolvePhysicalPath_form:
  "fs_wf env \<Longrightarrow> \<exists>segs. good_segments segs \<and> resolvePhysicalPath env p = abs_path segs"
  by (erule resolvePhysicalPath_cases [where p = p]) (blast intro: list_all_append [THEN iffD2])+

lemma resolvePhysicalPath_idem:
  assumes wf: "fs_wf env"
  shows "resolvePhysicalPath env (resolvePhysicalPath env p) = resolvePhysicalPath env p"
  using wf
proof (cases rule: resolvePhysicalPath_cases [where p = p, case_names none unreal real])
  case (none ns)
  then show ?thesis by (simp add: resolvePhysicalPath_def)
next
  case (unreal ns e)
  then show ?thesis by (simp add: resolvePhysicalPath_def)
next
  case (real es xs rs)
  have ex: "fs_exists env (abs_path rs)" "fs_realpath env (abs_path rs) = Some (abs_path rs)"
    using wf real(5) unfolding fs_wf_def by blast+
  have "\<forall>j. 0 < j \<and> j \<le> length xs \<longrightarrow> \<not> fs_exists env (abs_path (rs @ take j xs))"
    using wf real unfolding fs_wf_def by (metis good_segments_take)
  then have "nearestExistingAncestor env (abs_path (rs @ xs)) = Some (abs_path rs)"
    using real ex by (intro nea_skip) simp_all
  with real ex show ?thesis
    by (cases "xs = []") (simp_all add: resolvePhysicalPath_def Let_def relative_below join_nonempty path_join_below)
qed

section \<open>Properties\<close>

text \<open>a file scope covers a path exactly when the segments of the resolved scope are a
  prefix of the segments of the resolved path; in particular \<open>/a/b\<close> does not cover \<open>/a/bc\<close>, and
  a name that only starts with two dots is not mistaken for a parent directory.\<close>

theorem file_scope_covers_prefix:
  assumes "isFilesystemAccess at"
  shows "policyScopeCovers env at coveringScope candidateScope \<longleftrightarrow>
    prefix (segments (path_resolve env coveringScope)) (segments (path_resolve env candidateScope))"
  using assms by (rule fs_covers_iff)

text \<open>A file system with a directory \<open>/d\<close> and a symbolic link \<open>/l\<close> to it.\<close>

definition link_env :: fs_env where
  "link_env = \<lparr>cwd = ''/'', fs_exists = (\<lambda>p. p = ''/'' \<or> p = ''/d'' \<or> p = ''/l''),
     fs_realpath = (\<lambda>p. if p = ''/'' then Some ''/'' else if p = ''/d'' \<or> p = ''/l'' then Some ''/d'' else None)\<rparr>"

lemma link_env_wf: "fs_wf link_env"
proof -
  have root: "''/'' = abs_path []" and d: "''/d'' = abs_path [''d'']" and l: "''/l'' = abs_path [''l'']"
    by (simp_all add: abs_path_def)
  have g: "good_segments []" "good_segments [''d'']" "good_segments [''l'']" by (simp_all add: good_segment_def)
  have eq: "good_segments a \<Longrightarrow> abs_path a = ''/'' \<longleftrightarrow> a = []"
    "good_segments a \<Longrightarrow> abs_path a = ''/d'' \<longleftrightarrow> a = [''d'']"
    "good_segments a \<Longrightarrow> abs_path a = ''/l'' \<longleftrightarrow> a = [''l'']" for a
    unfolding root d l using g by (simp_all add: abs_path_inject)
  have eq': "good_segments a \<Longrightarrow> ''/'' = abs_path a \<longleftrightarrow> a = []"
    "good_segments a \<Longrightarrow> ''/d'' = abs_path a \<longleftrightarrow> a = [''d'']" for a
    using eq [of a] by metis+
  have form: "\<exists>rs. good_segments rs \<and> ''/'' = abs_path rs" "\<exists>rs. good_segments rs \<and> ''/d'' = abs_path rs"
    unfolding root d using g by blast+
  show ?thesis
    unfolding fs_wf_def
  proof (intro conjI allI impI, goal_cases)
    case (1 p r)
    then show ?case using form by (auto simp: link_env_def split: if_splits)
  next
    case (2 p r)
    then show ?case by (auto simp: link_env_def split: if_splits)
  next
    case (3 p r)
    then show ?case by (auto simp: link_env_def split: if_splits)
  next
    case (4 es rs xs)
    then show ?case by (auto simp: link_env_def eq eq' split: if_splits)
  qed
qed

text \<open>on a well-behaved file system physical resolution of a target is idempotent, so the
  runtime, the engine and the stored rules agree on a file target however often each of them
  resolves it.\<close>

theorem resolveUri_filesystem_idempotent:
  assumes "fs_wf env" and "isFilesystemAccess at"
  shows "resolveUri env at (resolveUri env at uri) = resolveUri env at uri"
  using assms by (auto simp: isFilesystemAccess_def resolveUri_def resolvePhysicalPath_idem)

lemma resolveUri_fs_form:
  "fs_wf env \<Longrightarrow> isFilesystemAccess at \<Longrightarrow> \<exists>segs. good_segments segs \<and> resolveUri env at uri = abs_path segs"
  by (auto simp: isFilesystemAccess_def resolveUri_def resolvePhysicalPath_form)

lemma fs_hierarchy_facts:
  fixes env at uri
  defines "target \<equiv> resolveUri env at uri"
  assumes "fs_wf env" and "isFilesystemAccess at" and "2 \<le> limit"
  shows "length (policyScopeHierarchy env uri at limit) \<le> limit
    \<and> hd (policyScopeHierarchy env uri at limit) = target
    \<and> last (policyScopeHierarchy env uri at limit) = ''/''
    \<and> (\<forall>scope \<in> set (policyScopeHierarchy env uri at limit). policyScopeCovers env at scope target)"
proof -
  obtain segs where segs: "good_segments segs" "target = abs_path segs"
    unfolding target_def using resolveUri_fs_form [OF assms(2,3)] by blast
  have h: "policyScopeHierarchy env uri at limit = fs_scope_loop limit [] (abs_path segs)"
    using assms segs by (simp add: policyScopeHierarchy_def Let_def target_def)
  have spec: "length (fs_scope_loop limit [] (abs_path segs)) \<le> limit"
    "last (fs_scope_loop limit [] (abs_path segs)) = abs_path []"
    "set (fs_scope_loop limit [] (abs_path segs)) \<subseteq> {abs_path x | x. prefix x segs}"
    using fs_scope_loop_spec [OF segs(1), of "[]" limit] assms(4) by simp_all
  have "policyScopeCovers env at s target" if s: "s \<in> set (fs_scope_loop limit [] (abs_path segs))" for s
  proof -
    obtain x where x: "s = abs_path x" "prefix x segs" using spec(3) s by blast
    then have "good_segments x" using segs(1) by (auto simp: prefix_def)
    with x segs assms(3) show ?thesis by (simp add: fs_covers_abs)
  qed
  with spec segs show ?thesis
    unfolding h using fs_scope_loop_hd [OF segs(1) assms(4)] by (simp add: abs_path_def)
qed

text \<open>the scopes offered for a file target are between one and the given limit, start with
  the target (for a limit of two or more) and end with the root, and every one of them covers
  the target.\<close>

theorem file_scope_hierarchy_covers:
  fixes env at uri
  defines "target \<equiv> resolveUri env at uri"
  assumes "fs_wf env" and "isFilesystemAccess at" and "2 \<le> limit"
  shows "length (policyScopeHierarchy env uri at limit) \<le> limit
    \<and> hd (policyScopeHierarchy env uri at limit) = target
    \<and> last (policyScopeHierarchy env uri at limit) = ''/''
    \<and> (\<forall>scope \<in> set (policyScopeHierarchy env uri at limit). policyScopeCovers env at scope target)"
  unfolding target_def using fs_hierarchy_facts [OF assms(2-4)] by simp

end
