(* ===== verification/Policy_Evaluation.thy ===== *)
theory Policy_Evaluation
  imports Policy_Engine
begin

text \<open>
  What evaluation of an engine answers: the longest covering pattern wins, no rule applies
  exactly when the answer is empty, the order of the rules is irrelevant for files, and a rule
  written for a target decides that target.
\<close>

section \<open>The matching loop\<close>

definition applies :: "fs_env \<Rightarrow> PolicyAccessType \<Rightarrow> string \<Rightarrow> Policy \<Rightarrow> PolicyStatus \<Rightarrow> bool" where
  "applies env at uri p st \<longleftrightarrow> map_of (info p) at = Some st \<and> policyScopeCovers env at (pattern p) uri"

definition result_of :: "string \<Rightarrow> PolicyAccessType \<Rightarrow> PolicyResolutionSource \<Rightarrow> string \<Rightarrow> PolicyStatus \<Rightarrow> PolicyResult" where
  "result_of uri at src pat st = \<lparr>evaluatedUri = uri, evaluatedAccessType = at, matchedPattern = pat,
     matchedLifetime = lifetime st, matchedStatus = status st, matchedReason = reason st,
     resolutionSource = src\<rparr>"

lemma match_loop_Some_start: "\<exists>r. match_loop env at uri (Some b) ps = Some r"
  by (induction ps arbitrary: b) (auto split: option.splits prod.splits)

lemma match_loop_None_iff:
  "match_loop env at uri None ps = None \<longleftrightarrow> (\<forall>p \<in> set ps. \<forall>st. \<not> applies env at uri p st)"
  using match_loop_Some_start [of env at uri]
  by (induction ps) (auto simp: applies_def split: option.splits)

lemma match_loop_Some:
  assumes "match_loop env at uri best ps = Some (pat, st)"
  shows "(best = Some (pat, st) \<or> (\<exists>p \<in> set ps. pattern p = pat \<and> applies env at uri p st))
    \<and> (\<forall>q \<in> set ps. \<forall>st'. applies env at uri q st' \<longrightarrow> length (pattern q) \<le> length pat)
    \<and> (\<forall>b bs. best = Some (b, bs) \<longrightarrow> length b \<le> length pat)"
  using assms
proof (induction ps arbitrary: best)
  case (Cons p ps)
  show ?case
  proof (cases "\<exists>s. applies env at uri p s")
    case False
    then have "match_loop env at uri best (p # ps) = match_loop env at uri best ps"
      by (auto simp: applies_def split: option.splits)
    with Cons False show ?thesis by auto
  next
    case True
    then obtain s where s: "applies env at uri p s" by blast
    then have uniq: "applies env at uri p s' \<longleftrightarrow> s' = s" for s' by (auto simp: applies_def)
    show ?thesis
    proof (cases "\<exists>b bs. best = Some (b, bs) \<and> length (pattern p) \<le> length b")
      case True
      then obtain b bs where b: "best = Some (b, bs)" "length (pattern p) \<le> length b" by blast
      with s have "match_loop env at uri best (p # ps) = match_loop env at uri best ps"
        by (auto simp: applies_def split: option.splits)
      with Cons.IH [of best] Cons.prems
      have IH: "(best = Some (pat, st) \<or> (\<exists>p \<in> set ps. pattern p = pat \<and> applies env at uri p st))
        \<and> (\<forall>q \<in> set ps. \<forall>st'. applies env at uri q st' \<longrightarrow> length (pattern q) \<le> length pat)
        \<and> (\<forall>b bs. best = Some (b, bs) \<longrightarrow> length b \<le> length pat)" by simp
      then have "length b \<le> length pat" using b by blast
      with b(2) have "length (pattern p) \<le> length pat" by simp
      with IH uniq show ?thesis by auto
    next
      case False
      with s have "match_loop env at uri best (p # ps) = match_loop env at uri (Some (pattern p, s)) ps"
        by (cases best) (auto simp: applies_def split: option.splits)
      with Cons.IH [of "Some (pattern p, s)"] Cons.prems
      have IH: "((pattern p, s) = (pat, st) \<or> (\<exists>p \<in> set ps. pattern p = pat \<and> applies env at uri p st))
        \<and> (\<forall>q \<in> set ps. \<forall>st'. applies env at uri q st' \<longrightarrow> length (pattern q) \<le> length pat)
        \<and> length (pattern p) \<le> length pat" by simp
      have "\<forall>b bs. best = Some (b, bs) \<longrightarrow> length b \<le> length pat"
      proof (intro allI impI)
        fix b bs assume "best = Some (b, bs)"
        with False have "length b < length (pattern p)" by (auto simp: not_le)
        with IH show "length b \<le> length pat" by simp
      qed
      moreover have "best = Some (pat, st) \<or> (\<exists>q \<in> set (p # ps). pattern q = pat \<and> applies env at uri q st)"
        using IH s by (metis list.set_intros prod.inject)
      moreover have "\<forall>q \<in> set (p # ps). \<forall>st'. applies env at uri q st' \<longrightarrow> length (pattern q) \<le> length pat"
        using IH by simp
      ultimately show ?thesis by blast
    qed
  qed
qed simp

lemma evaluateStoredPolicies_None:
  "evaluateStoredPolicies env ps uri at src = None \<longleftrightarrow> (\<forall>p \<in> set ps. \<forall>st. \<not> applies env at uri p st)"
  by (auto simp: evaluateStoredPolicies_def match_loop_None_iff [symmetric] split: option.splits)

lemma evaluateStoredPolicies_Some:
  assumes "evaluateStoredPolicies env ps uri at src = Some r"
  obtains p st where "p \<in> set ps" "applies env at uri p st" "r = result_of uri at src (pattern p) st"
    "\<And>q st'. q \<in> set ps \<Longrightarrow> applies env at uri q st' \<Longrightarrow> length (pattern q) \<le> length (pattern p)"
proof -
  from assms obtain pat st where m: "match_loop env at uri None ps = Some (pat, st)"
    and r: "r = result_of uri at src pat st"
    by (auto simp: evaluateStoredPolicies_def result_of_def split: option.splits)
  from match_loop_Some [OF m] obtain p where "p \<in> set ps" "pattern p = pat" "applies env at uri p st" by auto
  with match_loop_Some [OF m] r that show ?thesis by blast
qed

text \<open>C12: evaluation answers nothing exactly when no stored rule for the access type covers the
  target, and otherwise answers with a covering stored rule whose pattern is at least as long as
  that of every other covering rule, so that a more specific rule overrides a broader one.\<close>

theorem evaluate_most_specific_rule:
  "case evaluateStoredPolicies env ps uri at src of
     None \<Rightarrow> (\<forall>p \<in> set ps. \<forall>st. \<not> applies env at uri p st)
   | Some r \<Rightarrow> (\<exists>p \<in> set ps. \<exists>st. applies env at uri p st \<and> r = result_of uri at src (pattern p) st
       \<and> (\<forall>q \<in> set ps. \<forall>st'. applies env at uri q st' \<longrightarrow> length (pattern q) \<le> length (pattern p)))"
proof (cases "evaluateStoredPolicies env ps uri at src")
  case None
  moreover from None have "\<forall>p \<in> set ps. \<forall>st. \<not> applies env at uri p st"
    unfolding evaluateStoredPolicies_None .
  ultimately show ?thesis by simp
next
  case (Some r)
  from this show ?thesis by (rule evaluateStoredPolicies_Some) (auto simp: Some)
qed

definition sample_status :: "PolicyAccessType \<Rightarrow> PolicyResponse \<Rightarrow> PolicyStatus" where
  "sample_status at st = createStatus at SESSION st ''r''"

definition sample_rules :: "Policy list" where
  "sample_rules = [\<lparr>pattern = ''/d'', info = [(FS_READ, sample_status FS_READ ALLOWED)]\<rparr>,
     \<lparr>pattern = ''/d/k'', info = [(FS_READ, sample_status FS_READ DENIED)]\<rparr>]"

theorem evaluate_most_specific_rule_witness:
  "evaluateStoredPolicies link_env sample_rules ''/d/k/x'' FS_READ SYSTEM
     = Some (result_of ''/d/k/x'' FS_READ SYSTEM ''/d/k'' (sample_status FS_READ DENIED))
   \<and> (\<exists>p \<in> set sample_rules. \<exists>st. applies link_env FS_READ ''/d/k/x'' p st
        \<and> result_of ''/d/k/x'' FS_READ SYSTEM ''/d/k'' (sample_status FS_READ DENIED)
          = result_of ''/d/k/x'' FS_READ SYSTEM (pattern p) st)"
proof -
  have e: "evaluateStoredPolicies link_env sample_rules ''/d/k/x'' FS_READ SYSTEM
     = Some (result_of ''/d/k/x'' FS_READ SYSTEM ''/d/k'' (sample_status FS_READ DENIED))" by code_simp
  show ?thesis
    using e evaluate_most_specific_rule
      [where env = link_env and ps = sample_rules and uri = "''/d/k/x''" and at = FS_READ and src = SYSTEM]
    unfolding e option.case by blast
qed

section \<open>Files: one rule per prefix\<close>

text \<open>Patterns of file rules are normalised absolute paths, as the engine stores them.\<close>

definition file_rules_canonical :: "engine \<Rightarrow> bool" where
  "file_rules_canonical eng \<longleftrightarrow> (\<forall>p \<in> set eng. \<forall>at. isFilesystemAccess at \<longrightarrow> map_of (info p) at \<noteq> None \<longrightarrow>
     (\<exists>segs. good_segments segs \<and> pattern p = abs_path segs))"

lemma length_abs_path_prefix:
  assumes "prefix a b" "length (abs_path a) = length (abs_path b)" "good_segments b"
  shows "a = b"
proof -
  obtain c where c: "b = a @ c" using assms(1) by (auto simp: prefix_def)
  have "c = []"
  proof (rule ccontr)
    assume "c \<noteq> []"
    then obtain x xs where x: "c = x # xs" by (cases c) auto
    then have "x \<noteq> []" using assms(3) c by (auto simp: good_segment_def)
    have "length (join_with ''/'' a) < length (join_with ''/'' (a @ x # xs))"
    proof (induction a rule: induct_list012)
      case 1
      then show ?case using \<open>x \<noteq> []\<close> by (cases xs) auto
    next
      case (2 y)
      then show ?case by simp
    next
      case (3 y z ys)
      then show ?case by simp
    qed
    with assms(2) c x show False by (simp add: abs_path_def)
  qed
  with c show ?thesis by simp
qed

lemma covering_same_length:
  assumes "isFilesystemAccess at" "good_segments t" "good_segments a" "good_segments b"
    "policyScopeCovers env at (abs_path a) (abs_path t)" "policyScopeCovers env at (abs_path b) (abs_path t)"
    "length (abs_path a) = length (abs_path b)"
  shows "a = b"
proof -
  have "prefix a t" "prefix b t" using assms by (simp_all add: fs_covers_abs)
  then consider "prefix a b" | "prefix b a" using prefix_same_cases by blast
  then show ?thesis
    using assms length_abs_path_prefix [of a b] length_abs_path_prefix [of b a] by cases auto
qed

lemma engine_unique_policy:
  assumes "engine_wf eng" "p \<in> set eng" "q \<in> set eng" "pattern p = pattern q"
  shows "p = q"
  using assms by (auto simp: engine_wf_def distinct_map dest: inj_onD)

lemma canonical_applies:
  "file_rules_canonical eng \<Longrightarrow> isFilesystemAccess at \<Longrightarrow> p \<in> set eng \<Longrightarrow> applies env at uri p st \<Longrightarrow>
   \<exists>a. good_segments a \<and> pattern p = abs_path a"
  by (fastforce simp: file_rules_canonical_def applies_def)

lemma file_evaluation_decided:
  assumes "engine_wf eng" "file_rules_canonical eng" "isFilesystemAccess at" "good_segments t"
    and p: "p \<in> set eng" "applies env at (abs_path t) p st"
    and longest: "\<And>q st'. q \<in> set eng \<Longrightarrow> applies env at (abs_path t) q st' \<Longrightarrow> length (pattern q) \<le> length (pattern p)"
  shows "evaluateStoredPolicies env eng (abs_path t) at src = Some (result_of (abs_path t) at src (pattern p) st)"
proof -
  have "evaluateStoredPolicies env eng (abs_path t) at src \<noteq> None"
    using p by (auto simp: evaluateStoredPolicies_None)
  then obtain r where r: "evaluateStoredPolicies env eng (abs_path t) at src = Some r" by blast
  from this obtain q st' where q: "q \<in> set eng" "applies env at (abs_path t) q st'"
    "r = result_of (abs_path t) at src (pattern q) st'"
    "\<And>q' s. q' \<in> set eng \<Longrightarrow> applies env at (abs_path t) q' s \<Longrightarrow> length (pattern q') \<le> length (pattern q)"
    by (rule evaluateStoredPolicies_Some) blast
  have len: "length (pattern p) = length (pattern q)" using longest [OF q(1,2)] q(4) [OF p] by simp
  obtain a b where ab: "good_segments a" "pattern p = abs_path a" "good_segments b" "pattern q = abs_path b"
    using canonical_applies [OF assms(2,3) p] canonical_applies [OF assms(2,3) q(1,2)] by blast
  have "a = b"
    using covering_same_length [OF assms(3,4) ab(1,3), of env] p q(2) len ab by (simp add: applies_def)
  then have "p = q" using engine_unique_policy [OF assms(1) p(1) q(1)] ab by simp
  then show ?thesis using r q p by (auto simp: applies_def)
qed

text \<open>for files the answer depends only on which rules an engine holds, not on the order in
  which they were added.\<close>

theorem file_evaluation_order_irrelevant:
  assumes "engine_wf a" and "engine_wf b" and "set a = set b" and "file_rules_canonical a"
    and "isFilesystemAccess at" and "fs_wf env"
  shows "engine_evaluate env a uri at = engine_evaluate env b uri at"
proof -
  obtain t where t: "good_segments t" "resolveUri env at uri = abs_path t"
    using resolveUri_fs_form [OF assms(6,5)] by blast
  have canon: "file_rules_canonical b" using assms(3,4) by (simp add: file_rules_canonical_def)
  show ?thesis
  proof (cases "engine_evaluate env a uri at")
    case None
    moreover from None have "engine_evaluate env b uri at = None"
      using assms(3) by (simp add: engine_evaluate_def evaluateStoredPolicies_None)
    ultimately show ?thesis by simp
  next
    case (Some r)
    then have "evaluateStoredPolicies env a (abs_path t) at EXISTING_USER_POLICY = Some r"
      by (simp add: engine_evaluate_def t)
    from this obtain p st where p: "p \<in> set a" "applies env at (abs_path t) p st"
      "r = result_of (abs_path t) at EXISTING_USER_POLICY (pattern p) st"
      "\<And>q s. q \<in> set a \<Longrightarrow> applies env at (abs_path t) q s \<Longrightarrow> length (pattern q) \<le> length (pattern p)"
      by (rule evaluateStoredPolicies_Some) blast
    have "evaluateStoredPolicies env b (abs_path t) at EXISTING_USER_POLICY = Some r"
      unfolding p(3) using assms(3) p by (intro file_evaluation_decided [OF assms(2) canon assms(5) t(1)]) auto
    with Some show ?thesis by (simp add: engine_evaluate_def t)
  qed
qed

lemma sample_rules_ok: "engine_wf sample_rules \<and> engine_wf (rev sample_rules) \<and> file_rules_canonical sample_rules"
proof -
  have "good_segments [''d'']" "good_segments [''d'', ''k'']"
    and "''/d'' = abs_path [''d'']" "''/d/k'' = abs_path [''d'', ''k'']"
    by (simp_all add: good_segment_def abs_path_def)
  then have "\<exists>segs. good_segments segs \<and> ''/d'' = abs_path segs" "\<exists>segs. good_segments segs \<and> ''/d/k'' = abs_path segs"
    by blast+
  then have "file_rules_canonical sample_rules"
    unfolding file_rules_canonical_def sample_rules_def by (auto split: if_splits)
  moreover have "engine_wf sample_rules \<and> engine_wf (rev sample_rules)"
    by (simp add: engine_wf_def sample_rules_def info_wf_def od_keys_distinct_def sample_status_def createStatus_def)
  ultimately show ?thesis by blast
qed

section \<open>A rule for a target decides it\<close>

lemma engine_rule_policy:
  assumes "engine_wf eng"
  shows "engine_rule eng pat at = Some st \<longleftrightarrow> (\<exists>p \<in> set eng. pattern p = pat \<and> map_of (info p) at = Some st)"
proof
  assume "engine_rule eng pat at = Some st"
  then show "\<exists>p \<in> set eng. pattern p = pat \<and> map_of (info p) at = Some st"
    by (auto simp: engine_rule_def split: option.splits dest: find_policy_SomeD)
next
  assume "\<exists>p \<in> set eng. pattern p = pat \<and> map_of (info p) at = Some st"
  then obtain p where p: "p \<in> set eng" "pattern p = pat" "map_of (info p) at = Some st" by blast
  then obtain q where q: "find_policy pat eng = Some q"
    by (metis find_policy_None_iff imageI not_Some_eq)
  then have "q = p" using find_policy_SomeD [OF q] p engine_unique_policy [OF assms] by blast
  with p q show "engine_rule eng pat at = Some st" by (simp add: engine_rule_def)
qed

lemma file_rules_canonical_iff:
  assumes "engine_wf eng"
  shows "file_rules_canonical eng \<longleftrightarrow> (\<forall>pat at st. isFilesystemAccess at \<longrightarrow> engine_rule eng pat at = Some st \<longrightarrow>
    (\<exists>segs. good_segments segs \<and> pat = abs_path segs))"
  unfolding file_rules_canonical_def engine_rule_policy [OF assms] by (metis not_Some_eq)

lemma engine_put_canonical:
  assumes "engine_wf eng" "file_rules_canonical eng" "fs_wf env"
  shows "file_rules_canonical (engine_put env eng pat st)"
  using assms engine.invar_put [OF assms(1)] resolveUri_fs_form [OF assms(3)]
  by (auto simp: file_rules_canonical_iff engine.rule_at_put split: if_splits)

text \<open>after a rule for a file target has been added, evaluating that target answers with
  exactly that rule, whatever broader or narrower rules the engine already had.\<close>

theorem added_file_rule_decides_target:
  assumes "engine_wf eng" and "file_rules_canonical eng" and "fs_wf env" and "isFilesystemAccess (accessType st)"
  shows "engine_evaluate env (engine_put env eng uri st) uri (accessType st) =
    Some (result_of (resolveUri env (accessType st) uri) (accessType st) EXISTING_USER_POLICY
           (resolveUri env (accessType st) uri) st)"
proof -
  let ?at = "accessType st" and ?e = "engine_put env eng uri st"
  obtain t where t: "good_segments t" "resolveUri env ?at uri = abs_path t"
    using resolveUri_fs_form [OF assms(3,4)] by blast
  have wf: "engine_wf ?e" and canon: "file_rules_canonical ?e"
    using assms by (simp_all add: engine.invar_put engine_put_canonical)
  have "engine_rule ?e (abs_path t) ?at = Some st"
    using assms(1) t by (simp add: engine.rule_at_put)
  then obtain p where p: "p \<in> set ?e" "pattern p = abs_path t" "map_of (info p) ?at = Some st"
    unfolding engine_rule_policy [OF wf] by blast
  have "applies env ?at (abs_path t) p st"
    using p t assms(4) by (simp add: applies_def fs_covers_abs)
  moreover have "length (pattern q) \<le> length (pattern p)"
    if q: "q \<in> set ?e" "applies env ?at (abs_path t) q s" for q s
  proof -
    obtain b where b: "good_segments b" "pattern q = abs_path b"
      using canonical_applies [OF canon assms(4) q] by blast
    then obtain c where "t = b @ c"
      using q(2) t assms(4) by (auto simp: applies_def fs_covers_abs prefix_def)
    moreover have "length (join_with ''/'' b) \<le> length (join_with ''/'' (b @ c))"
      by (induction b rule: induct_list012) (cases c; auto)+
    ultimately show ?thesis using p b by (simp add: abs_path_def)
  qed
  ultimately have "evaluateStoredPolicies env ?e (abs_path t) ?at EXISTING_USER_POLICY =
      Some (result_of (abs_path t) ?at EXISTING_USER_POLICY (pattern p) st)"
    by (intro file_evaluation_decided [OF wf canon assms(4) t(1) p(1)])
  then show ?thesis using p t by (simp add: engine_evaluate_def)
qed

end
