(* ===== verification/Policy_Dao.thy ===== *)
theory Policy_Dao
  imports Policy_Evaluation "HOL-Library.Product_Lexorder"
begin

text \<open>
  Storage: the rule table of \<open>src/src/storage/PolicyDao.ts\<close> and the defaults files of
  \<open>src/src/storage/JsonDefaultsFile.ts\<close> and \<open>src/src/policy/defaults.ts\<close>.  A database is the
  table \<open>policy_rules\<close>, absent or a list of rows with the primary key (pattern, accessType) in
  insertion order; a statement on an absent table throws, which is \<open>None\<close>.  The data access
  object is a second interpretation of \<open>rule_store\<close>; loading returns the stored table, and an
  engine built from what another engine persisted has the same persisted rules.
\<close>

section \<open>Rows and the data access object\<close>

record PathPolicyRuleRow =
  row_lifetime :: PolicyLifetime
  row_status :: PolicyResponse
  row_reason :: string
  row_updatedAt :: int

type_synonym policy_rules = "((string \<times> PolicyAccessType) \<times> PathPolicyRuleRow) list"

record PolicyDao =
  schemaInitialized :: bool
  db_policy_rules :: "policy_rules option"

definition dao_initializeSchema :: "PolicyDao \<Rightarrow> PolicyDao" where
  "dao_initializeSchema dao = (if schemaInitialized dao then dao
     else dao\<lparr>schemaInitialized := True,
        db_policy_rules := (case db_policy_rules dao of None \<Rightarrow> Some [] | Some t \<Rightarrow> Some t)\<rparr>)"

definition row_status_of :: "PolicyAccessType \<Rightarrow> PathPolicyRuleRow \<Rightarrow> PolicyStatus" where
  "row_status_of at r = \<lparr>accessType = at, lifetime = row_lifetime r, status = row_status r, reason = row_reason r\<rparr>"

text \<open>Grouping of the selected rows: a \<open>Map\<close> from pattern to policy in order of first insertion.\<close>

definition group_row :: "(string \<times> Policy) list \<Rightarrow> (string \<times> PolicyAccessType) \<times> PathPolicyRuleRow \<Rightarrow>
    (string \<times> Policy) list" where
  "group_row policies row = (case row of ((pat, at), r) \<Rightarrow>
     let policy = (case map_of policies pat of Some p \<Rightarrow> p | None \<Rightarrow> \<lparr>pattern = pat, info = []\<rparr>)
     in od_set pat (policy\<lparr>info := od_set at (row_status_of at r) (info policy)\<rparr>) policies)"

definition dao_loadPolicies :: "PolicyDao \<Rightarrow> (Policy list \<times> PolicyDao) option" where
  "dao_loadPolicies dao0 = (let dao = dao_initializeSchema dao0 in
     case db_policy_rules dao of
       None \<Rightarrow> None
     | Some rows \<Rightarrow> Some (map snd (foldl group_row [] (sort_key fst rows)), dao))"

definition upsert_row :: "int \<Rightarrow> string \<Rightarrow> policy_rules \<Rightarrow> PolicyStatus \<Rightarrow> policy_rules" where
  "upsert_row now pat t st = od_set (pat, accessType st)
     \<lparr>row_lifetime = lifetime st, row_status = status st, row_reason = reason st, row_updatedAt = now\<rparr> t"

definition dao_upsertPolicies :: "PolicyDao \<Rightarrow> int \<Rightarrow> Policy list \<Rightarrow> PolicyDao option" where
  "dao_upsertPolicies dao0 now policies = (let dao = dao_initializeSchema dao0 in
     case db_policy_rules dao of
       None \<Rightarrow> None
     | Some t \<Rightarrow> Some (dao\<lparr>db_policy_rules :=
         Some (foldl (\<lambda>t p. foldl (upsert_row now (pattern p)) t (map snd (info p))) t policies)\<rparr>))"

definition dao_deletePolicy :: "PolicyDao \<Rightarrow> string \<Rightarrow> PolicyAccessType \<Rightarrow> PolicyDao option" where
  "dao_deletePolicy dao0 pat at = (let dao = dao_initializeSchema dao0 in
     case db_policy_rules dao of
       None \<Rightarrow> None
     | Some t \<Rightarrow> Some (dao\<lparr>db_policy_rules := Some (od_delete (pat, at) t)\<rparr>))"

section \<open>Invariant and abstract table\<close>

definition dao_rows :: "PolicyDao \<Rightarrow> policy_rules" where
  "dao_rows dao = (case db_policy_rules dao of None \<Rightarrow> [] | Some t \<Rightarrow> t)"

definition dao_wf :: "PolicyDao \<Rightarrow> bool" where
  "dao_wf dao \<longleftrightarrow> (schemaInitialized dao \<longrightarrow> db_policy_rules dao \<noteq> None) \<and> od_keys_distinct (dao_rows dao)"

definition dao_rule :: "PolicyDao \<Rightarrow> rule_table" where
  "dao_rule dao pat at = map_option (row_status_of at) (map_of (dao_rows dao) (pat, at))"

definition dao_put :: "int \<Rightarrow> PolicyDao \<Rightarrow> string \<Rightarrow> PolicyStatus \<Rightarrow> PolicyDao" where
  "dao_put now dao pat st = the_default dao
     (dao_upsertPolicies dao now [\<lparr>pattern = pat, info = [(accessType st, st)]\<rparr>])"

definition dao_del :: "PolicyDao \<Rightarrow> string \<Rightarrow> PolicyAccessType \<Rightarrow> PolicyDao" where
  "dao_del dao pat at = the_default dao (dao_deletePolicy dao pat at)"

lemma initializeSchema_rows [simp]: "dao_rows (dao_initializeSchema dao) = dao_rows dao"
  by (auto simp: dao_rows_def dao_initializeSchema_def split: option.splits)

lemma initializeSchema_wf:
  "dao_wf dao \<Longrightarrow> dao_wf (dao_initializeSchema dao)
    \<and> db_policy_rules (dao_initializeSchema dao) = Some (dao_rows dao)"
  by (auto simp: dao_wf_def dao_rows_def dao_initializeSchema_def split: option.splits)

lemma row_status_upsert [simp]:
  "row_status_of (accessType st) \<lparr>row_lifetime = lifetime st, row_status = status st, row_reason = reason st,
     row_updatedAt = now\<rparr> = st"
  by (cases st) (simp add: row_status_of_def)

lemma upsert_row_distinct: "od_keys_distinct t \<Longrightarrow> od_keys_distinct (foldl (upsert_row now pat) t sts)"
  by (induction sts arbitrary: t) (auto simp: upsert_row_def)

lemma upsert_rows_distinct:
  "od_keys_distinct t \<Longrightarrow>
   od_keys_distinct (foldl (\<lambda>t p. foldl (upsert_row now (pattern p)) t (map snd (info p))) t ps)"
  by (induction ps arbitrary: t) (auto simp: upsert_row_distinct)

definition rows_rule :: "policy_rules \<Rightarrow> rule_table" where
  "rows_rule t pat at = map_option (row_status_of at) (map_of t (pat, at))"

lemma rows_rule_upsert:
  "rows_rule (upsert_row now pat t st) = (\<lambda>p a. if p = pat \<and> a = accessType st then Some st else rows_rule t p a)"
  by (intro ext) (auto simp: rows_rule_def upsert_row_def)

lemma rows_rule_upserts:
  "info_wf d \<Longrightarrow> rows_rule (foldl (upsert_row now pat) t (map snd d)) = table_add (rows_rule t) \<lparr>pattern = pat, info = d\<rparr>"
proof (induction d arbitrary: t)
  case (Cons x d)
  obtain k st where x: "x = (k, st)" by (cases x)
  with Cons.prems have k: "accessType st = k" "map_of d k = None" and wf: "info_wf d"
    by (auto simp: info_wf_def od_keys_distinct_def map_of_eq_None_iff)
  show ?case using Cons.IH [OF wf, of "upsert_row now pat t st"] k x
    by (intro ext) (auto simp: rows_rule_upsert table_add_def split: option.splits)
qed (auto simp: table_add_def fun_eq_iff)

lemma rows_rule_upsert_policies:
  "list_all (\<lambda>p. info_wf (info p)) ps \<Longrightarrow>
   rows_rule (foldl (\<lambda>t p. foldl (upsert_row now (pattern p)) t (map snd (info p))) t ps)
     = foldl table_add (rows_rule t) ps"
proof (induction ps arbitrary: t)
  case (Cons p ps)
  have "table_add r \<lparr>pattern = pattern p, info = info p\<rparr> = table_add r p" for r
    by (auto simp: table_add_def fun_eq_iff)
  with Cons show ?case by (simp add: rows_rule_upserts)
qed simp

lemma dao_upsertPolicies_ok:
  assumes "dao_wf dao" "list_all (\<lambda>p. info_wf (info p)) ps"
  shows "\<exists>dao'. dao_upsertPolicies dao now ps = Some dao' \<and> dao_wf dao'
    \<and> dao_rule dao' = foldl table_add (dao_rule dao) ps"
proof -
  have r: "dao_rule d = rows_rule (dao_rows d)" for d
    by (intro ext) (simp add: dao_rule_def rows_rule_def)
  show ?thesis
    using initializeSchema_wf [OF assms(1)] assms rows_rule_upsert_policies [OF assms(2), of now "dao_rows dao"]
    by (auto simp: dao_upsertPolicies_def Let_def r dao_wf_def dao_rows_def upsert_rows_distinct)
qed

lemma dao_deletePolicy_ok:
  assumes "dao_wf dao"
  shows "\<exists>dao'. dao_deletePolicy dao pat at = Some dao' \<and> dao_wf dao'
    \<and> dao_rule dao' = (\<lambda>p a. if p = pat \<and> a = at then None else dao_rule dao p a)"
  using initializeSchema_wf [OF assms] assms
  by (auto simp: dao_deletePolicy_def Let_def dao_wf_def dao_rows_def dao_rule_def fun_eq_iff)

text \<open>The database obeys the laws of a rule store, with patterns stored as they are given.\<close>

interpretation dao: rule_store dao_wf dao_rule "\<lambda>_ pat. pat" "dao_put now" dao_del for now
proof
  fix s pat st p a
  assume wf: "dao_wf s"
  have "list_all (\<lambda>p. info_wf (info p)) [\<lparr>pattern = pat, info = [(accessType st, st)]\<rparr>]"
    by (simp add: info_wf_def od_keys_distinct_def)
  from dao_upsertPolicies_ok [OF wf this, of now] obtain s' where
    s': "dao_put now s pat st = s'" "dao_wf s'"
      "dao_rule s' = foldl table_add (dao_rule s) [\<lparr>pattern = pat, info = [(accessType st, st)]\<rparr>]"
    unfolding dao_put_def by (metis the_default.simps(2))
  then show "dao_rule (dao_put now s pat st) p a =
      (if p = pat \<and> a = accessType st then Some st else dao_rule s p a)"
    by (auto simp: table_add_def)
  show "dao_wf (dao_put now s pat st)" using s' by simp
next
  fix s pat at p a
  assume wf: "dao_wf s"
  from dao_deletePolicy_ok [OF wf, of pat at] obtain s' where
    s': "dao_del s pat at = s'" "dao_wf s'" "dao_rule s' = (\<lambda>p a. if p = pat \<and> a = at then None else dao_rule s p a)"
    unfolding dao_del_def by (metis the_default.simps(2))
  then show "dao_rule (dao_del s pat at) p a = (if p = pat \<and> a = at then None else dao_rule s p a)" by simp
  show "dao_wf (dao_del s pat at)" using s' by simp
qed

section \<open>Loading\<close>

definition grouped :: "(string \<times> Policy) list \<Rightarrow> bool" where
  "grouped g \<longleftrightarrow> od_keys_distinct g \<and> (\<forall>(pat, p) \<in> set g. pattern p = pat \<and> info_wf (info p))"

lemma find_policy_grouped: "grouped g \<Longrightarrow> find_policy pat (map snd g) = map_of g pat"
  by (induction g) (auto simp: grouped_def od_keys_distinct_def)

lemma grouped_engine_wf:
  assumes "grouped g"
  shows "engine_wf (map snd g)"
proof -
  have "map pattern (map snd g) = map fst g" using assms by (auto simp: grouped_def)
  then have "distinct (map pattern (map snd g))" using assms by (simp only: grouped_def od_keys_distinct_def)
  then show ?thesis using assms by (auto simp: engine_wf_def grouped_def)
qed

lemma grouped_lookup: "grouped g \<Longrightarrow> map_of g pat = Some p \<Longrightarrow> pattern p = pat \<and> info_wf (info p)"
  by (auto simp: grouped_def dest: map_of_SomeD)

lemma grouped_group_row:
  assumes "grouped g"
  shows "grouped (group_row g ((pat, at), r))"
proof -
  let ?p = "case map_of g pat of Some p \<Rightarrow> p | None \<Rightarrow> \<lparr>pattern = pat, info = []\<rparr>"
  have "pattern ?p = pat \<and> info_wf (info ?p)"
    using grouped_lookup [OF assms] by (auto simp: info_wf_def od_keys_distinct_def split: option.splits)
  then have "info_wf (od_set at (row_status_of at r) (info ?p))"
    using info_wf_od_set [of "info ?p" "row_status_of at r"] by (simp add: row_status_of_def)
  with \<open>pattern ?p = pat \<and> info_wf (info ?p)\<close> show ?thesis
    using assms set_od_set_subset by (fastforce simp: grouped_def group_row_def Let_def)
qed

lemma engine_rule_group_row:
  assumes "grouped g"
  shows "engine_rule (map snd (group_row g ((pat, at), r))) =
    (\<lambda>p a. if p = pat \<and> a = at then Some (row_status_of at r) else engine_rule (map snd g) p a)"
  using find_policy_grouped [OF grouped_group_row [OF assms, of pat at r]] find_policy_grouped [OF assms]
  by (auto simp: fun_eq_iff engine_rule_def group_row_def Let_def split: option.splits)

lemma load_loop:
  "grouped g \<Longrightarrow> od_keys_distinct rows \<Longrightarrow>
   grouped (foldl group_row g rows) \<and> engine_rule (map snd (foldl group_row g rows)) =
    (\<lambda>p a. case map_of rows (p, a) of Some r \<Rightarrow> Some (row_status_of a r) | None \<Rightarrow> engine_rule (map snd g) p a)"
proof (induction rows arbitrary: g)
  case (Cons row rows)
  obtain pat at r where row: "row = ((pat, at), r)" by (metis prod.exhaust)
  have fresh: "map_of rows (pat, at) = None" and d: "od_keys_distinct rows"
    using Cons.prems row by (auto simp: od_keys_distinct_def map_of_eq_None_iff)
  have g: "grouped (group_row g row)" using grouped_group_row [OF Cons.prems(1)] row by simp
  show ?case
    using Cons.IH [OF g d] engine_rule_group_row [OF Cons.prems(1), of pat at r] fresh row
    by (auto simp: fun_eq_iff split: option.splits)
qed simp

lemma map_of_sort_key:
  assumes "od_keys_distinct rows"
  shows "map_of (sort_key fst rows) = map_of (rows :: ('k :: linorder \<times> 'v) list)"
proof -
  have "distinct (map fst (sort_key fst rows))" "distinct (map fst rows)"
    using assms by (simp_all add: od_keys_distinct_def distinct_map)
  then show ?thesis by (metis map_of_inject_set set_sort)
qed

lemma load_table:
  assumes "dao_wf dao"
  shows "\<exists>ps dao'. dao_loadPolicies dao = Some (ps, dao') \<and> engine_wf ps
    \<and> engine_rule ps = dao_rule dao \<and> dao_wf dao' \<and> dao_rows dao' = dao_rows dao"
proof -
  let ?rows = "sort_key fst (dao_rows dao)"
  have d: "od_keys_distinct (dao_rows dao)" using assms by (simp add: dao_wf_def)
  then have "od_keys_distinct ?rows" by (simp add: od_keys_distinct_def distinct_map)
  from load_loop [OF _ this, of "[]"] have l: "grouped (foldl group_row [] ?rows)"
    "engine_rule (map snd (foldl group_row [] ?rows)) = dao_rule dao"
    using map_of_sort_key [OF d]
    by (auto simp: grouped_def od_keys_distinct_def engine_rule_def dao_rule_def fun_eq_iff split: option.splits)
  show ?thesis
    using initializeSchema_wf [OF assms] l grouped_engine_wf [OF l(1)]
    by (simp add: dao_loadPolicies_def Let_def)
qed

text \<open>Loading a database never throws and returns exactly the stored table: the policies are
  well formed and hold a status for a pattern and an access type exactly when the table has that
  row, whatever the order and grouping of the rows; the stored rows are unchanged.\<close>

theorem loadPolicies_returns_table:
  assumes "dao_wf dao"
  shows "\<exists>ps dao'. dao_loadPolicies dao = Some (ps, dao') \<and> engine_wf ps
    \<and> engine_rule ps = dao_rule dao \<and> dao_wf dao' \<and> dao_rows dao' = dao_rows dao"
  by (rule load_table [OF assms])

text \<open>A database with two rows under one pattern, for the examples.\<close>

definition sample_dao :: PolicyDao where
  "sample_dao = \<lparr>schemaInitialized = False, db_policy_rules = Some
     [((''/d'', FS_WRITE), \<lparr>row_lifetime = LOCAL, row_status = DENIED, row_reason = ''no'', row_updatedAt = 1\<rparr>),
      ((''/a'', FS_READ), \<lparr>row_lifetime = GLOBAL, row_status = ALLOWED, row_reason = ''r'', row_updatedAt = 2\<rparr>),
      ((''/d'', FS_READ), \<lparr>row_lifetime = GLOBAL, row_status = ALLOWED, row_reason = ''ok'', row_updatedAt = 3\<rparr>)]\<rparr>"

lemma sample_dao_wf: "dao_wf sample_dao"
  by (simp add: dao_wf_def dao_rows_def sample_dao_def od_keys_distinct_def)

section \<open>Persist and reload\<close>

definition engine_canonical :: "fs_env \<Rightarrow> engine \<Rightarrow> bool" where
  "engine_canonical env eng \<longleftrightarrow>
     list_all (\<lambda>p. list_all (\<lambda>(at, _). resolveUri env at (pattern p) = pattern p) (info p)) eng"

lemma engine_rule_mem: "engine_wf eng \<Longrightarrow> p \<in> set eng \<Longrightarrow> engine_rule eng (pattern p) at = map_of (info p) at"
proof (induction eng)
  case (Cons q eng)
  then show ?case by (auto simp: engine_rule_def engine_wf_def)
qed simp

lemma engine_rule_SomeD:
  "engine_rule eng pat at = Some st \<Longrightarrow> \<exists>p \<in> set eng. pattern p = pat \<and> (at, st) \<in> set (info p)"
  by (auto simp: engine_rule_def split: option.splits dest: find_policy_SomeD map_of_SomeD)

lemma table_of_engine:
  assumes "engine_wf eng"
  shows "foldl table_add t eng = (\<lambda>pat at. case engine_rule eng pat at of None \<Rightarrow> t pat at | Some st \<Rightarrow> Some st)"
  using assms
proof (induction eng arbitrary: t)
  case (Cons p eng)
  then have wf: "engine_wf eng" and "pattern p \<notin> pattern ` set eng" by (auto simp: engine_wf_def)
  then have "find_policy (pattern p) eng = None" by (simp add: find_policy_None_iff)
  then show ?case
    using Cons.IH [OF wf, of "table_add t p"] by (auto simp: fun_eq_iff table_add_def engine_rule_def split: option.splits)
qed (simp add: engine_rule_def)

lemma standardize_canonical:
  assumes "engine_wf ps" "\<And>pat at st. engine_rule ps pat at = Some st \<Longrightarrow> resolveUri env at pat = pat"
  shows "map (standardizePolicy env) ps = ps"
proof (rule map_idI)
  fix p assume p: "p \<in> set ps"
  show "standardizePolicy env p = p"
  proof (cases "info p")
    case (Cons x xs)
    then have "map_of (info p) (fst x) = Some (snd x)" by (cases x) simp
    then have "resolveUri env (fst x) (pattern p) = pattern p"
      using assms engine_rule_mem [OF assms(1) p, of "fst x"] by simp
    moreover have "accessType (snd x) = fst x" using assms(1) p Cons
      by (cases x) (fastforce simp: engine_wf_def info_wf_def)
    ultimately show ?thesis using Cons by (cases x) (simp add: standardizePolicy_def)
  qed (simp add: standardizePolicy_def)
qed

lemma engine_rule_new_canonical:
  assumes "engine_wf ps" "\<And>pat at st. engine_rule ps pat at = Some st \<Longrightarrow> resolveUri env at pat = pat"
  shows "engine_wf (new_PolicyEngine env ps) \<and> engine_rule (new_PolicyEngine env ps) = engine_rule ps"
proof -
  have i: "list_all (\<lambda>p. info_wf (info p)) ps" using assms(1) by (simp add: engine_wf_def list_all_iff)
  have e: "engine_wf []" "engine_rule [] = (\<lambda>_ _. None)" by (simp_all add: engine_wf_def engine_rule_def fun_eq_iff)
  show ?thesis
    using engine_rule_addPolicies [OF i, of env "[]"] engine_wf_addPolicies [OF e(1), of ps env] i
      standardize_canonical [OF assms] table_of_engine [OF assms(1), of "\<lambda>_ _. None"] e(2)
    by (auto simp: new_PolicyEngine_def list_all_iff fun_eq_iff split: option.splits)
qed

text \<open>C14: persisted rules survive a restart, as long as the patterns of the engine and of the database resolve to
  themselves (a path that became a symbolic link, or an invalid network pattern such as \<open>http://x\<close>, is resolved
  anew when the engine is rebuilt).  Writing the LOCAL and GLOBAL rules of the engine to the database, loading it and
  building an engine from what was loaded succeeds and gives a well-formed engine, whose rule for a pattern and an access
  type is the persisted rule of the first engine where it has one, and otherwise the rule the database had before.\<close>

theorem persist_reload_roundtrip:
  assumes "engine_wf eng" and "engine_canonical env eng" and "dao_wf dao"
    and "\<And>pat at st. dao_rule dao pat at = Some st \<Longrightarrow> resolveUri env at pat = pat"
  shows "\<exists>dao' ps dao''. dao_upsertPolicies dao now (persistedPolicies eng) = Some dao'
    \<and> dao_loadPolicies dao' = Some (ps, dao'') \<and> engine_wf (new_PolicyEngine env ps)
    \<and> (\<forall>pat at. engine_rule (new_PolicyEngine env ps) pat at =
        (case engine_rule eng pat at of
           None \<Rightarrow> dao_rule dao pat at
         | Some st \<Rightarrow> if isPersistedLifetime (lifetime st) then Some st else dao_rule dao pat at))"
proof -
  let ?pp = "persistedPolicies eng"
  have wf: "engine_wf ?pp" by (rule engine_wf_persisted [OF assms(1)])
  then have i: "list_all (\<lambda>p. info_wf (info p)) ?pp" by (simp add: engine_wf_def list_all_iff)
  from dao_upsertPolicies_ok [OF assms(3) i, of now] obtain dao' where
    u: "dao_upsertPolicies dao now ?pp = Some dao'" "dao_wf dao'" "dao_rule dao' = foldl table_add (dao_rule dao) ?pp"
    by blast
  have t: "dao_rule dao' pat at = (case engine_rule eng pat at of
      None \<Rightarrow> dao_rule dao pat at
    | Some st \<Rightarrow> if isPersistedLifetime (lifetime st) then Some st else dao_rule dao pat at)" for pat at
    using u(3) table_of_engine [OF wf] engine_rule_persisted [OF assms(1)]
    by (auto simp: fun_eq_iff split: option.splits)
  from load_table [OF u(2)] obtain ps dao'' where
    l: "dao_loadPolicies dao' = Some (ps, dao'')" "engine_wf ps" "engine_rule ps = dao_rule dao'" by blast
  have c: "resolveUri env at pat = pat" if "engine_rule ps pat at = Some st" for pat at st
  proof -
    have "engine_rule eng pat at = Some st \<or> dao_rule dao pat at = Some st"
      using that l(3) t by (auto split: option.splits if_splits)
    then show ?thesis using assms(2,4) by (auto simp: engine_canonical_def list_all_iff dest!: engine_rule_SomeD)
  qed
  have "engine_wf (new_PolicyEngine env ps) \<and> engine_rule (new_PolicyEngine env ps) = engine_rule ps"
    using l(2) c by (rule engine_rule_new_canonical)
  then show ?thesis using l(1,3) t u(1) by auto
qed

theorem persist_reload_roundtrip_witness:
  "\<exists>dao' ps dao''. dao_upsertPolicies \<lparr>schemaInitialized = False, db_policy_rules = None\<rparr> 7
       (persistedPolicies [\<lparr>pattern = ''/d'', info = [(FS_READ, createStatus FS_READ LOCAL ALLOWED ''a''),
          (FS_WRITE, createStatus FS_WRITE SESSION DENIED ''b'')]\<rparr>]) = Some dao'
    \<and> dao_loadPolicies dao' = Some (ps, dao'')
    \<and> engine_rule (new_PolicyEngine link_env ps) ''/d'' FS_READ = Some (createStatus FS_READ LOCAL ALLOWED ''a'')
    \<and> engine_rule (new_PolicyEngine link_env ps) ''/d'' FS_WRITE = None"
proof -
  let ?eng = "[\<lparr>pattern = ''/d'', info = [(FS_READ, createStatus FS_READ LOCAL ALLOWED ''a''),
          (FS_WRITE, createStatus FS_WRITE SESSION DENIED ''b'')]\<rparr>]"
  let ?dao = "\<lparr>schemaInitialized = False, db_policy_rules = None\<rparr>"
  have "engine_wf ?eng" by (simp add: engine_wf_def info_wf_def od_keys_distinct_def createStatus_def)
  moreover have "engine_canonical link_env ?eng" by code_simp
  moreover have "dao_wf ?dao" "dao_rule ?dao = (\<lambda>_ _. None)"
    by (simp_all add: dao_wf_def dao_rule_def dao_rows_def od_keys_distinct_def fun_eq_iff)
  moreover have "engine_rule ?eng ''/d'' FS_READ = Some (createStatus FS_READ LOCAL ALLOWED ''a'')"
    "engine_rule ?eng ''/d'' FS_WRITE = Some (createStatus FS_WRITE SESSION DENIED ''b'')"
    by (simp_all add: engine_rule_def)
  moreover have "isPersistedLifetime LOCAL" "\<not> isPersistedLifetime SESSION" by (simp_all add: isPersistedLifetime_def)
  ultimately show ?thesis
    using persist_reload_roundtrip [of ?eng link_env ?dao 7]
    by (auto simp: createStatus_def)
qed

end
