(* ===== verification/Runtime_State.thy ===== *)
theory Runtime_State
  imports Policy_Dao
begin

text \<open>
  The state of the policy runtime, \<open>src/src/policy/PolicyRuntime.ts\<close>, with the request types of
  \<open>AgentPolicyDecisionFlow.ts\<close> and the native filesystem bases and views of
  \<open>path/native/NativeFilesystemPolicyView.ts\<close>.  Principals, once-engines, bases and views are
  objects with identity: a reference is an index into a list of objects, and a removed principal
  stays in its list, because pending requests still hold it.  A thrown error is \<open>Inl\<close> of its
  message.  Text is a list of one-byte characters; the ellipsis that marks cut text is one
  reserved character.
\<close>

section \<open>Results, errors and bounded texts\<close>

type_synonym 'a res = "string + 'a"

definition ellipsis :: char where
  "ellipsis = CHR 0x85"

definition boundedText :: "string \<Rightarrow> nat \<Rightarrow> string" where
  "boundedText value maximum = (if length value \<le> maximum then value else take (maximum - 1) value @ [ellipsis])"

text \<open>\<open>a || b\<close> on strings: the empty string is falsy.\<close>

definition or_text :: "string \<Rightarrow> string \<Rightarrow> string" where
  "or_text a b = (if a = [] then b else a)"

definition boundedOptionalText :: "string option \<Rightarrow> nat \<Rightarrow> string option" where
  "boundedOptionalText value maximum = (case value of
       None \<Rightarrow> None
     | Some v \<Rightarrow> if boundedText v maximum = [] then None else Some (boundedText v maximum))"

definition MAX_AGENT_POLICY_SCOPES :: nat where "MAX_AGENT_POLICY_SCOPES = 32"
definition MAX_AGENT_POLICY_SCOPE_CHARS :: nat where "MAX_AGENT_POLICY_SCOPE_CHARS = 32000"
definition MAX_POLICY_URI_CHARS :: nat where "MAX_POLICY_URI_CHARS = 16000"

lemma length_boundedText: "0 < maximum \<Longrightarrow> length (boundedText value maximum) \<le> maximum"
  by (simp add: boundedText_def)

definition failedClosedResult :: "string \<Rightarrow> PolicyAccessType \<Rightarrow> string \<Rightarrow> PolicyResult" where
  "failedClosedResult uri at rsn = \<lparr>evaluatedUri = uri, evaluatedAccessType = at, matchedPattern = uri,
     matchedLifetime = ONCE, matchedStatus = DENIED, matchedReason = rsn, resolutionSource = SYSTEM\<rparr>"

definition systemFallbackResult :: "PolicyResult \<Rightarrow> PolicyResult" where
  "systemFallbackResult r = \<lparr>evaluatedUri = evaluatedUri r, evaluatedAccessType = evaluatedAccessType r,
     matchedPattern = matchedPattern r, matchedLifetime = matchedLifetime r, matchedStatus = matchedStatus r,
     matchedReason = matchedReason r, resolutionSource = SYSTEM\<rparr>"

section \<open>Contexts, choices and requests\<close>

record PolicyPrincipalContext =
  role :: string
  task :: string

record PolicyToolCallContext =
  toolCallId :: "string option"
  toolName :: "string option"
  command :: "string option"
  purpose :: "string option"

record PolicyApprovalAgentContext =
  agent_identifier :: string
  agent_role :: string
  agent_task :: string

record PolicyApprovalRequestContext =
  requestId :: string
  requestingAgentIdentifier :: string
  ancestry :: "PolicyApprovalAgentContext list"
  toolCall :: PolicyToolCallContext

record PolicyChoice =
  choice_uri :: string
  choice_accessType :: PolicyAccessType
  choice_lifetime :: PolicyLifetime
  choice_status :: PolicyResponse
  choice_reason :: string

text \<open>The two kinds of review, with the fields that only that kind has.\<close>

datatype review_source =
    ANCESTOR_AUTHORITY PolicyResult
  | POLICY_DEFAULT_ASK_LLM PolicyArea nat

record AgentPolicyApprovalRequest =
  request_context :: PolicyApprovalRequestContext
  approvingAgentIdentifier :: string
  request_uri :: string
  request_accessType :: PolicyAccessType
  allowedScopes :: "string list"
  allowedLifetimes :: "PolicyLifetime list"
  reviewSource :: review_source

definition ROOT_AGENT_CONTEXT :: PolicyPrincipalContext where
  "ROOT_AGENT_CONTEXT = \<lparr>role = ''Root agent'', task = ''Active root orchestration session''\<rparr>"

definition normalizedPrincipalContext :: "PolicyPrincipalContext \<Rightarrow> PolicyPrincipalContext" where
  "normalizedPrincipalContext c = \<lparr>role = or_text (boundedText (role c) 120) ''Agent'',
     task = or_text (boundedText (task c) 4000) ''Unspecified work''\<rparr>"

definition normalizedToolCallContext :: "PolicyToolCallContext \<Rightarrow> PolicyToolCallContext" where
  "normalizedToolCallContext c = \<lparr>toolCallId = boundedOptionalText (toolCallId c) 500,
     toolName = boundedOptionalText (toolName c) 120, command = boundedOptionalText (command c) 8000,
     purpose = boundedOptionalText (purpose c) 500\<rparr>"

definition policyFromChoice :: "PolicyChoice \<Rightarrow> Policy" where
  "policyFromChoice c = \<lparr>pattern = choice_uri c,
     info = [(choice_accessType c, createStatus (choice_accessType c) (choice_lifetime c) (choice_status c) (choice_reason c))]\<rparr>"

definition sessionPolicy :: "Policy \<Rightarrow> Policy" where
  "sessionPolicy p = \<lparr>pattern = pattern p, info = map (\<lambda>(at, st). (at, st\<lparr>lifetime := SESSION\<rparr>)) (info p)\<rparr>"

definition deniedChoice :: "string \<Rightarrow> PolicyAccessType \<Rightarrow> string \<Rightarrow> PolicyChoice" where
  "deniedChoice uri at rsn = \<lparr>choice_uri = uri, choice_accessType = at, choice_lifetime = ONCE,
     choice_status = DENIED, choice_reason = rsn\<rparr>"

definition allowedAgentLifetimes :: "PolicyLifetime \<Rightarrow> PolicyLifetime list" where
  "allowedAgentLifetimes source = (if source = ONCE then [ONCE] else [ONCE, SESSION])"

definition fallbackScope :: "PolicyAccessType \<Rightarrow> string" where
  "fallbackScope at = (if at = FS_READ \<or> at = FS_WRITE then ''/'' else UNIVERSAL_NETWORK_POLICY_PATTERN)"

definition policyStatus :: "PolicyFallbackResponse option \<Rightarrow> PolicyResponse option" where
  "policyStatus response = (case response of
       Some allow \<Rightarrow> Some ALLOWED | Some deny \<Rightarrow> Some DENIED | _ \<Rightarrow> None)"

definition filesystemPolicies :: "Policy list \<Rightarrow> Policy list" where
  "filesystemPolicies policies = filter (\<lambda>p. info p \<noteq> [])
     (map (\<lambda>p. \<lparr>pattern = pattern p, info = filter (\<lambda>(at, _). at = FS_READ \<or> at = FS_WRITE) (info p)\<rparr>) policies)"

section \<open>Audit records\<close>

datatype PolicyApprovalAuditRoute = Route_USER | Route_ANCESTOR_AUTHORITY | Route_POLICY_DEFAULT_ASK_LLM
datatype PolicyApprovalAuditOutcome = DECIDED | FAILED_CLOSED | SUPERSEDED

record audit_outcome =
  audit_scope :: string
  audit_lifetime :: PolicyLifetime
  audit_status :: PolicyResponse
  audit_reason :: string

datatype audit_authority =
    Audit_Ancestor audit_outcome PolicyResolutionSource
  | Audit_Default PolicyArea nat

record PolicyApprovalAuditRecord =
  timestamp :: string
  sessionIdentifier :: string
  audit_requestId :: string
  route :: PolicyApprovalAuditRoute
  outcome :: PolicyApprovalAuditOutcome
  audit_requester :: string
  audit_ancestry :: "PolicyApprovalAgentContext list"
  routingOwner :: string
  audit_target :: string
  audit_accessType :: PolicyAccessType
  audit_toolCall :: PolicyToolCallContext
  audit_authority :: "audit_authority option"
  audit_decision :: audit_outcome
  audit_result :: audit_outcome
  audit_resolutionSource :: PolicyResolutionSource

definition auditDecision :: "PolicyChoice \<Rightarrow> audit_outcome" where
  "auditDecision c = \<lparr>audit_scope = choice_uri c, audit_lifetime = choice_lifetime c,
     audit_status = choice_status c, audit_reason = choice_reason c\<rparr>"

definition auditResult :: "PolicyResult \<Rightarrow> audit_outcome" where
  "auditResult r = \<lparr>audit_scope = matchedPattern r, audit_lifetime = matchedLifetime r,
     audit_status = matchedStatus r, audit_reason = matchedReason r\<rparr>"

text \<open>The bounds of the log: here an optional text is cut but never dropped.\<close>

definition bounded_outcome :: "audit_outcome \<Rightarrow> audit_outcome" where
  "bounded_outcome a = a\<lparr>audit_scope := boundedText (audit_scope a) 16000, audit_reason := boundedText (audit_reason a) 2000\<rparr>"

fun bounded_authority :: "audit_authority \<Rightarrow> audit_authority" where
  "bounded_authority (Audit_Ancestor a src) = Audit_Ancestor (bounded_outcome a) src"
| "bounded_authority (Audit_Default area rv) = Audit_Default area rv"

definition bounded_agent :: "PolicyApprovalAgentContext \<Rightarrow> PolicyApprovalAgentContext" where
  "bounded_agent a = \<lparr>agent_identifier = boundedText (agent_identifier a) 200,
     agent_role = boundedText (agent_role a) 120, agent_task = boundedText (agent_task a) 500\<rparr>"

definition bounded_toolCall :: "PolicyToolCallContext \<Rightarrow> PolicyToolCallContext" where
  "bounded_toolCall c = \<lparr>toolCallId = map_option (\<lambda>v. boundedText v 500) (toolCallId c),
     toolName = map_option (\<lambda>v. boundedText v 120) (toolName c),
     command = map_option (\<lambda>v. boundedText v 8000) (command c),
     purpose = map_option (\<lambda>v. boundedText v 500) (purpose c)\<rparr>"

definition boundedPolicyApprovalAuditRecord :: "PolicyApprovalAuditRecord \<Rightarrow> PolicyApprovalAuditRecord" where
  "boundedPolicyApprovalAuditRecord r = r\<lparr>
     timestamp := boundedText (timestamp r) 64,
     sessionIdentifier := boundedText (sessionIdentifier r) 500,
     audit_requestId := boundedText (audit_requestId r) 200,
     audit_requester := boundedText (audit_requester r) 200,
     audit_ancestry := map bounded_agent (take 100 (audit_ancestry r)),
     routingOwner := boundedText (routingOwner r) 200,
     audit_target := boundedText (audit_target r) 16000,
     audit_toolCall := bounded_toolCall (audit_toolCall r),
     audit_authority := map_option bounded_authority (audit_authority r),
     audit_decision := bounded_outcome (audit_decision r),
     audit_result := bounded_outcome (audit_result r)\<rparr>"

lemma boundedText_idem [simp]: "0 < n \<Longrightarrow> boundedText (boundedText v n) n = boundedText v n"
  by (simp add: boundedText_def)

lemma bounded_outcome_idem [simp]: "bounded_outcome (bounded_outcome a) = bounded_outcome a"
  by (simp add: bounded_outcome_def)

lemma bounded_authority_idem [simp]: "bounded_authority (bounded_authority a) = bounded_authority a"
  by (cases a) simp_all

lemma bounded_agent_idem [simp]: "bounded_agent (bounded_agent a) = bounded_agent a"
  by (simp add: bounded_agent_def)

lemma bounded_toolCall_idem [simp]: "bounded_toolCall (bounded_toolCall c) = bounded_toolCall c"
  by (simp add: bounded_toolCall_def option.map_comp comp_def)

text \<open>The runtime bounds a record before appending it and the log bounds it again before writing
  it: the second pass changes nothing.\<close>

lemma bounded_record_idem:
  "boundedPolicyApprovalAuditRecord (boundedPolicyApprovalAuditRecord r) = boundedPolicyApprovalAuditRecord r"
  by (simp add: boundedPolicyApprovalAuditRecord_def option.map_comp comp_def take_map)

end
