(* ===== verification/Policy_Runtime.thy ===== *)
theory Policy_Runtime
  imports Runtime_State
begin

text \<open>
  The operations of \<open>src/src/policy/PolicyRuntime.ts\<close> that manage principals, defaults and native
  bases and views.  Evaluation is in the next theory.  Loops that follow parent identifiers
  carry fuel, because a map of principals may be cyclic; the laws show that the principals of a
  runtime never are and that the fuel is enough.
\<close>

section \<open>Objects\<close>

record PolicyPrincipal =
  agentIdentifier :: string
  parentAgentIdentifier :: "string option"
  children :: "string list"
  policies :: engine
  policyRevision :: nat
  principal_context :: PolicyPrincipalContext
  contextRevision :: nat
  approvalWaitScope :: "nat option"

record NativeFilesystemPolicyLayer =
  layer_policies :: "Policy list"
  layer_source :: PolicyResolutionSource

record NativeFilesystemPolicySnapshot =
  native_revision :: nat
  native_layers :: "NativeFilesystemPolicyLayer list"

record NativeFilesystemPolicyBase =
  base_agent :: string
  base_principal :: nat
  base_revision :: nat
  base_closed :: bool
  base_listeners :: "nat list"
  base_closeListeners :: "nat list"

record NativeFilesystemPolicyView =
  view_base :: nat
  view_principal :: nat
  view_once :: nat
  view_context :: PolicyToolCallContext
  view_scopes :: "nat list"
  view_oncePoliciesState :: "Policy list"
  view_onceRevision :: nat
  view_closed :: bool
  view_onceListeners :: "nat list"
  view_closeListeners :: "nat list"

text \<open>What native consumers are told, in order: listeners are named by numbers.\<close>

datatype native_event =
    Base_Changed nat NativeFilesystemPolicySnapshot
  | Base_Closed nat
  | Once_Changed nat NativeFilesystemPolicySnapshot
  | View_Closed nat

record PolicyRuntime =
  heap :: "PolicyPrincipal list"
  principals :: "(string \<times> nat) list"
  rootFallbackPolicies :: engine
  rootAgentIdentifier :: string
  agentDecisionFlow :: bool
  fallbackRevisions :: "PolicyArea \<Rightarrow> nat"
  viewHeap :: "NativeFilesystemPolicyView list"
  nativeFilesystemViews :: "nat list"
  baseHeap :: "NativeFilesystemPolicyBase list"
  nativeFilesystemPolicyBases :: "(string \<times> nat) list"
  closing :: bool
  defaultResponses :: "PolicyArea \<Rightarrow> PolicyFallbackResponse option"
  database :: PolicyDao
  onceHeap :: "engine list"
  auditLog :: "PolicyApprovalAuditRecord list option"
  auditWritable :: bool
  events :: "native_event list"

fun res_bind :: "'a res \<Rightarrow> ('a \<Rightarrow> 'b res) \<Rightarrow> 'b res" where
  "res_bind (Inl e) f = Inl e"
| "res_bind (Inr x) f = f x"

definition prin :: "PolicyRuntime \<Rightarrow> nat \<Rightarrow> PolicyPrincipal" where
  "prin rt r = heap rt ! r"

definition requirePrincipal :: "PolicyRuntime \<Rightarrow> string \<Rightarrow> nat res" where
  "requirePrincipal rt ident = (case map_of (principals rt) ident of
       None \<Rightarrow> Inl (''No agent registered with this identifier: '' @ ident)
     | Some r \<Rightarrow> Inr r)"

text \<open>\<open>if (parentAgentIdentifier)\<close>: an undefined and an empty identifier are falsy.\<close>

definition parent_of :: "PolicyPrincipal \<Rightarrow> string option" where
  "parent_of p = (case parentAgentIdentifier p of
       None \<Rightarrow> None | Some s \<Rightarrow> if s = [] then None else Some s)"

section \<open>Native bases and views\<close>

definition nativeFilesystemPolicyLayers :: "PolicyRuntime \<Rightarrow> nat \<Rightarrow> NativeFilesystemPolicyLayer list" where
  "nativeFilesystemPolicyLayers rt r =
     \<lparr>layer_policies = filesystemPolicies (allPolicies (policies (prin rt r))), layer_source = EXISTING_USER_POLICY\<rparr> #
     (if agentIdentifier (prin rt r) = rootAgentIdentifier rt
      then [\<lparr>layer_policies = filesystemPolicies (allPolicies (rootFallbackPolicies rt)), layer_source = SYSTEM\<rparr>]
      else [])"

definition base_snapshot :: "PolicyRuntime \<Rightarrow> NativeFilesystemPolicyBase \<Rightarrow> NativeFilesystemPolicySnapshot" where
  "base_snapshot rt b = \<lparr>native_revision = base_revision b,
     native_layers = nativeFilesystemPolicyLayers rt (base_principal b)\<rparr>"

definition policyStateChanged :: "nat \<Rightarrow> PolicyRuntime \<Rightarrow> PolicyRuntime" where
  "policyStateChanged i rt = (let b = baseHeap rt ! i in
     if base_closed b then rt
     else let b' = b\<lparr>base_revision := Suc (base_revision b)\<rparr> in
       rt\<lparr>baseHeap := (baseHeap rt)[i := b'],
          events := events rt @ map (\<lambda>l. Base_Changed l (base_snapshot rt b')) (base_listeners b)\<rparr>)"

definition base_onSnapshotChanged :: "nat \<Rightarrow> nat \<Rightarrow> PolicyRuntime \<Rightarrow> PolicyRuntime res" where
  "base_onSnapshotChanged i l rt = (let b = baseHeap rt ! i in
     if base_closed b then Inl ''Native filesystem policy base is closed''
     else Inr (rt\<lparr>baseHeap := (baseHeap rt)[i := b\<lparr>base_listeners := List.insert l (base_listeners b)\<rparr>]\<rparr>))"

definition base_close :: "nat \<Rightarrow> PolicyRuntime \<Rightarrow> PolicyRuntime" where
  "base_close i rt = (let b = baseHeap rt ! i in
     if base_closed b then rt
     else rt\<lparr>baseHeap := (baseHeap rt)[i := b\<lparr>base_closed := True, base_listeners := [], base_closeListeners := []\<rparr>],
             events := events rt @ map Base_Closed (base_closeListeners b)\<rparr>)"

definition view_close :: "nat \<Rightarrow> PolicyRuntime \<Rightarrow> PolicyRuntime" where
  "view_close i rt = (let v = viewHeap rt ! i in
     if view_closed v then rt
     else rt\<lparr>viewHeap := (viewHeap rt)[i := v\<lparr>view_closed := True, view_onceListeners := [], view_closeListeners := []\<rparr>],
             nativeFilesystemViews := filter (\<lambda>j. j \<noteq> i) (nativeFilesystemViews rt),
             events := events rt @ map View_Closed (view_closeListeners v)\<rparr>)"

definition view_agent :: "PolicyRuntime \<Rightarrow> nat \<Rightarrow> string" where
  "view_agent rt i = base_agent (baseHeap rt ! view_base (viewHeap rt ! i))"

definition notifyNativeFilesystemPolicyBase :: "nat \<Rightarrow> PolicyRuntime \<Rightarrow> PolicyRuntime" where
  "notifyNativeFilesystemPolicyBase r rt =
     (case map_of (nativeFilesystemPolicyBases rt) (agentIdentifier (prin rt r)) of
        None \<Rightarrow> rt | Some b \<Rightarrow> policyStateChanged b rt)"

section \<open>Policies of principals\<close>

definition addPrincipalPolicies :: "fs_env \<Rightarrow> Policy list \<Rightarrow> PolicyRuntime \<Rightarrow> nat \<Rightarrow> PolicyRuntime" where
  "addPrincipalPolicies env ps rt r = (let
     p = prin rt r;
     rt1 = rt\<lparr>heap := (heap rt)[r := p\<lparr>policies := addPolicies env (policies p) ps,
                                       policyRevision := Suc (policyRevision p)\<rparr>]\<rparr>
     in if filesystemPolicies ps \<noteq> [] then notifyNativeFilesystemPolicyBase r rt1 else rt1)"

definition effectivePolicies :: "fs_env \<Rightarrow> PolicyRuntime \<Rightarrow> nat \<Rightarrow> Policy list" where
  "effectivePolicies env rt r =
     (if agentIdentifier (prin rt r) \<noteq> rootAgentIdentifier rt then allPolicies (policies (prin rt r))
      else allPolicies (addPolicies env (new_PolicyEngine env (allPolicies (rootFallbackPolicies rt)))
             (allPolicies (policies (prin rt r)))))"

definition inheritedPolicySnapshot :: "fs_env \<Rightarrow> PolicyRuntime \<Rightarrow> nat \<Rightarrow> PolicyArea list \<Rightarrow> Policy list" where
  "inheritedPolicySnapshot env rt r areas = (let
     accessTypes = concat (map policyAreaAccessTypes (remdups areas))
     in if accessTypes = [] then []
        else filter (\<lambda>p. info p \<noteq> []) (map (\<lambda>p. \<lparr>pattern = pattern p,
          info = map (\<lambda>(at, st). (at, st\<lparr>lifetime := SESSION\<rparr>))
                   (filter (\<lambda>(_, st). accessType st \<in> set accessTypes) (info p))\<rparr>) (effectivePolicies env rt r)))"

section \<open>Defaults\<close>

text \<open>The change of the fallback engine: asking responses have no rule.\<close>

definition fallback_update :: "fs_env \<Rightarrow> PolicyArea \<Rightarrow> PolicyFallbackResponse option \<Rightarrow> engine \<Rightarrow> engine" where
  "fallback_update env area response eng = (let
     accessTypes = policyAreaAccessTypes area;
     pat = fallbackScope (hd accessTypes)
     in case policyStatus response of
        None \<Rightarrow> removePolicies env eng [\<lparr>delete_uri = pat, delete_accessTypes = accessTypes\<rparr>]
      | Some st \<Rightarrow> addPolicies env eng [\<lparr>pattern = pat,
          info = map (\<lambda>at. (at, createStatus at SESSION st ''Automated fallback'')) accessTypes\<rparr>])"

definition setFallback :: "fs_env \<Rightarrow> PolicyArea \<Rightarrow> PolicyFallbackResponse option \<Rightarrow> PolicyRuntime \<Rightarrow> PolicyRuntime res" where
  "setFallback env area response rt = (let
     affectsFilesystem = (area = fs_read \<or> area = fs_write);
     rt1 = rt\<lparr>rootFallbackPolicies := fallback_update env area response (rootFallbackPolicies rt)\<rparr>
     in if affectsFilesystem
        then res_bind (requirePrincipal rt1 (rootAgentIdentifier rt1)) (\<lambda>root. Inr (notifyNativeFilesystemPolicyBase root rt1))
        else Inr rt1)"

definition setDefaultResponse :: "fs_env \<Rightarrow> PolicyArea \<Rightarrow> PolicyFallbackResponse option \<Rightarrow> PolicyRuntime \<Rightarrow> PolicyRuntime res" where
  "setDefaultResponse env area response rt =
     (if defaultResponses rt area = response then Inr rt
      else setFallback env area response
        (rt\<lparr>defaultResponses := (defaultResponses rt)(area := response),
            fallbackRevisions := (fallbackRevisions rt)(area := Suc (fallbackRevisions rt area))\<rparr>))"

text \<open>A defaults file is a possibly partial record: nothing validates it.\<close>

type_synonym loaded_defaults = "PolicyArea \<Rightarrow> PolicyFallbackResponse option"

fun setDefaultResponses :: "fs_env \<Rightarrow> loaded_defaults \<Rightarrow> PolicyArea list \<Rightarrow> PolicyRuntime \<Rightarrow> PolicyRuntime res" where
  "setDefaultResponses env defaults [] rt = Inr rt"
| "setDefaultResponses env defaults (area # areas) rt =
     res_bind (setDefaultResponse env area (defaults area) rt) (setDefaultResponses env defaults areas)"

definition resetDefaultResponses :: "fs_env \<Rightarrow> loaded_defaults option \<Rightarrow> PolicyRuntime \<Rightarrow> PolicyRuntime res" where
  "resetDefaultResponses env loaded rt = setDefaultResponses env
     (case loaded of Some d \<Rightarrow> d | None \<Rightarrow> (\<lambda>area. Some (initialPolicyDefaults area))) POLICY_AREAS rt"

definition mergedDefaults :: "loaded_defaults option \<Rightarrow> loaded_defaults" where
  "mergedDefaults loaded area = (case loaded of
       None \<Rightarrow> Some (initialPolicyDefaults area)
     | Some d \<Rightarrow> (case d area of None \<Rightarrow> Some (initialPolicyDefaults area) | Some x \<Rightarrow> Some x))"

text \<open>The own keys of the merged defaults in the order in which the constructor visits them.\<close>

definition defaultsOrder :: "PolicyArea list" where
  "defaultsOrder = [fs_read, fs_write, web_read, web_write, web_dns, web_grpc, web_smtp, web_ssh,
     web_tcp, web_udp, web_websocket]"

fun setFallbacks :: "fs_env \<Rightarrow> PolicyArea list \<Rightarrow> PolicyRuntime \<Rightarrow> PolicyRuntime res" where
  "setFallbacks env [] rt = Inr rt"
| "setFallbacks env (area # areas) rt =
     res_bind (setFallback env area (defaultResponses rt area) rt) (setFallbacks env areas)"

section \<open>Construction and shutdown\<close>

definition createNativeFilesystemPolicyBase :: "nat \<Rightarrow> string \<Rightarrow> PolicyRuntime \<Rightarrow> PolicyRuntime" where
  "createNativeFilesystemPolicyBase r ident rt = rt\<lparr>
     nativeFilesystemPolicyBases := od_set ident (length (baseHeap rt)) (nativeFilesystemPolicyBases rt),
     baseHeap := baseHeap rt @ [\<lparr>base_agent = ident, base_principal = r, base_revision = 0, base_closed = False,
       base_listeners = [], base_closeListeners = []\<rparr>]\<rparr>"

definition initial_runtime :: "fs_env \<Rightarrow> string \<Rightarrow> Policy list \<Rightarrow> PolicyDao \<Rightarrow> loaded_defaults option \<Rightarrow>
    PolicyPrincipalContext \<Rightarrow> PolicyApprovalAuditRecord list option \<Rightarrow> PolicyRuntime" where
  "initial_runtime env ident loadedPolicies dao loaded rootContext audit =
     \<lparr>heap = [\<lparr>agentIdentifier = ident, parentAgentIdentifier = None, children = [],
         policies = new_PolicyEngine env loadedPolicies, policyRevision = 0,
         principal_context = normalizedPrincipalContext rootContext, contextRevision = 0, approvalWaitScope = None\<rparr>],
      principals = [(ident, 0)], rootFallbackPolicies = [], rootAgentIdentifier = ident,
      agentDecisionFlow = False, fallbackRevisions = (\<lambda>_. 0), viewHeap = [], nativeFilesystemViews = [],
      baseHeap = [], nativeFilesystemPolicyBases = [], closing = False,
      defaultResponses = mergedDefaults loaded, database = dao, onceHeap = [], auditLog = audit,
      auditWritable = True, events = []\<rparr>"

definition new_PolicyRuntime :: "fs_env \<Rightarrow> string \<Rightarrow> PolicyDao \<Rightarrow> loaded_defaults option \<Rightarrow> PolicyPrincipalContext \<Rightarrow>
    PolicyApprovalAuditRecord list option \<Rightarrow> int \<Rightarrow> PolicyRuntime res" where
  "new_PolicyRuntime env ident dao loaded rootContext audit timeoutMs =
     (if timeoutMs < 1 \<or> timeoutMs > 2147483647
      then Inl ''User policy approval timeout must be an integer between 1 and 2147483647 milliseconds.''
      else case dao_loadPolicies dao of
        None \<Rightarrow> Inl ''SQL error''
      | Some (loadedPolicies, dao') \<Rightarrow>
          res_bind (setFallbacks env defaultsOrder (initial_runtime env ident loadedPolicies dao' loaded rootContext audit))
            (\<lambda>rt. Inr (createNativeFilesystemPolicyBase 0 ident rt)))"

definition setAgentDecisionFlow :: "bool \<Rightarrow> PolicyRuntime \<Rightarrow> PolicyRuntime" where
  "setAgentDecisionFlow flow rt = rt\<lparr>agentDecisionFlow := flow\<rparr>"

definition beginShutdown :: "PolicyRuntime \<Rightarrow> PolicyRuntime" where
  "beginShutdown rt = (let
     rt1 = rt\<lparr>closing := True, agentDecisionFlow := False\<rparr>;
     rt2 = fold view_close (nativeFilesystemViews rt1) rt1
     in fold base_close (map snd (nativeFilesystemPolicyBases rt2)) rt2)"

section \<open>Principals\<close>

definition registerPolicyPrincipal :: "fs_env \<Rightarrow> string \<Rightarrow> string \<Rightarrow> PolicyArea list \<Rightarrow> PolicyPrincipalContext \<Rightarrow>
    PolicyRuntime \<Rightarrow> PolicyRuntime res" where
  "registerPolicyPrincipal env ident parentIdent areas ctx rt =
     (if map_of (principals rt) ident \<noteq> None
      then Inl (''An agent is already registered with this identifier: '' @ ident)
      else res_bind (requirePrincipal rt parentIdent) (\<lambda>parent. let
        r = length (heap rt);
        p0 = \<lparr>agentIdentifier = ident, parentAgentIdentifier = Some parentIdent, children = [],
          policies = new_PolicyEngine env (inheritedPolicySnapshot env rt parent areas), policyRevision = 0,
          principal_context = normalizedPrincipalContext ctx, contextRevision = 0, approvalWaitScope = None\<rparr>;
        rt1 = rt\<lparr>heap := heap rt @ [p0], principals := od_set ident r (principals rt)\<rparr>;
        rt2 = createNativeFilesystemPolicyBase r ident rt1;
        q = prin rt2 parent
        in Inr (rt2\<lparr>heap := (heap rt2)[parent := q\<lparr>children := List.insert ident (children q)\<rparr>]\<rparr>)))"

text \<open>A field of the update is given or left out; an explicitly undefined field, which would clear the old value and which no
  caller passes, is not represented.\<close>

definition updatePolicyPrincipalContext :: "string \<Rightarrow> string option \<Rightarrow> string option \<Rightarrow> PolicyRuntime \<Rightarrow> PolicyRuntime res" where
  "updatePolicyPrincipalContext ident newRole newTask rt = res_bind (requirePrincipal rt ident) (\<lambda>r. let
     p = prin rt r;
     c = principal_context p;
     c' = \<lparr>role = the_default (role c) newRole, task = the_default (task c) newTask\<rparr>
     in Inr (rt\<lparr>heap := (heap rt)[r := p\<lparr>principal_context := normalizedPrincipalContext c',
                                         contextRevision := Suc (contextRevision p)\<rparr>]\<rparr>))"

definition setPolicyApprovalWaitScope :: "string \<Rightarrow> nat option \<Rightarrow> PolicyRuntime \<Rightarrow> PolicyRuntime res" where
  "setPolicyApprovalWaitScope ident scope rt = res_bind (requirePrincipal rt ident) (\<lambda>r.
     Inr (rt\<lparr>heap := (heap rt)[r := (prin rt r)\<lparr>approvalWaitScope := scope\<rparr>]\<rparr>))"

definition remove_child :: "string \<Rightarrow> PolicyPrincipal \<Rightarrow> PolicyRuntime \<Rightarrow> PolicyRuntime res" where
  "remove_child ident p0 rt = (case parent_of p0 of
       None \<Rightarrow> Inr rt
     | Some pid \<Rightarrow> res_bind (requirePrincipal rt pid) (\<lambda>q. Inr (rt\<lparr>heap :=
         (heap rt)[q := (prin rt q)\<lparr>children := filter (\<lambda>c. c \<noteq> ident) (children (prin rt q))\<rparr>]\<rparr>)))"

definition removePolicyPrincipal :: "string \<Rightarrow> PolicyRuntime \<Rightarrow> PolicyRuntime res" where
  "removePolicyPrincipal ident rt = res_bind (requirePrincipal rt ident) (\<lambda>r. let p0 = prin rt r in
     if ident = rootAgentIdentifier rt then Inl ''The root policy principal cannot be removed''
     else if children p0 \<noteq> [] then Inl (''Policy principal still has registered children: '' @ ident)
     else let
       rt1 = fold view_close (filter (\<lambda>v. view_agent rt v = ident) (nativeFilesystemViews rt)) rt;
       rt2 = (case map_of (nativeFilesystemPolicyBases rt1) ident of None \<Rightarrow> rt1 | Some b \<Rightarrow> base_close b rt1);
       rt3 = rt2\<lparr>nativeFilesystemPolicyBases := od_delete ident (nativeFilesystemPolicyBases rt2)\<rparr>
       in res_bind (remove_child ident p0 rt3) (\<lambda>rt4. Inr (rt4\<lparr>principals := od_delete ident (principals rt4)\<rparr>)))"

end
