(* ===== verification/Runtime_Evaluation.thy ===== *)
theory Runtime_Evaluation
  imports Policy_Runtime
begin

text \<open>
  Evaluation in \<open>src/src/policy/PolicyRuntime.ts\<close>: the automated part, the walk to an ancestor
  with authority, and the three ways to ask.  A request that has to wait for an answer is split
  where the code awaits: \<open>evaluate_begin\<close> returns a pending request with the snapshots the code
  takes, and a completion runs the code after the await in whatever state the runtime has by
  then.  Random request identifiers, times, answers and abort signals are arguments.
\<close>

section \<open>Snapshots and paths\<close>

record PrincipalPathSnapshot =
  snap_path :: "nat list"
  snap_policyRevisions :: "nat list"
  snap_contextRevisions :: "nat list"

record FallbackSnapshot =
  fb_area :: PolicyArea
  fb_revision :: nat

record AncestorAuthority =
  auth_snapshot :: PrincipalPathSnapshot
  authorityPrincipal :: nat
  auth_result :: PolicyResult
  auth_fallback :: "FallbackSnapshot option"

datatype AncestorResolution = Authority AncestorAuthority | Denied PolicyResult | User

definition principalPathSnapshot :: "PolicyRuntime \<Rightarrow> nat list \<Rightarrow> PrincipalPathSnapshot" where
  "principalPathSnapshot rt path = \<lparr>snap_path = path,
     snap_policyRevisions = map (\<lambda>r. policyRevision (prin rt r)) path,
     snap_contextRevisions = map (\<lambda>r. contextRevision (prin rt r)) path\<rparr>"

text \<open>The area of an access type; the search never throws.\<close>

definition area_of :: "PolicyAccessType \<Rightarrow> PolicyArea" where
  "area_of at = the_default fs_read (policyAreaForAccessType at)"

definition fallbackSnapshot :: "PolicyRuntime \<Rightarrow> PolicyAccessType \<Rightarrow> FallbackSnapshot" where
  "fallbackSnapshot rt at = \<lparr>fb_area = area_of at, fb_revision = fallbackRevisions rt (area_of at)\<rparr>"

definition isUnchangedFallback :: "PolicyRuntime \<Rightarrow> FallbackSnapshot \<Rightarrow> bool" where
  "isUnchangedFallback rt s \<longleftrightarrow> fallbackRevisions rt (fb_area s) = fb_revision s"

definition isUnchangedPrincipalPath :: "PolicyRuntime \<Rightarrow> PrincipalPathSnapshot \<Rightarrow> bool" where
  "isUnchangedPrincipalPath rt s \<longleftrightarrow> list_all (\<lambda>(r, p, c). policyRevision (prin rt r) = p \<and> contextRevision (prin rt r) = c)
     (zip (snap_path s) (zip (snap_policyRevisions s) (snap_contextRevisions s)))"

fun isActivePrincipalPath :: "PolicyRuntime \<Rightarrow> nat list \<Rightarrow> bool" where
  "isActivePrincipalPath rt [] \<longleftrightarrow> True"
| "isActivePrincipalPath rt (r # path) \<longleftrightarrow>
     map_of (principals rt) (agentIdentifier (prin rt r)) = Some r
     \<and> (case path of [] \<Rightarrow> True
        | q # _ \<Rightarrow> parentAgentIdentifier (prin rt r) = Some (agentIdentifier (prin rt q)))
     \<and> isActivePrincipalPath rt path"

definition isActiveAuthorityPath :: "PolicyRuntime \<Rightarrow> AncestorAuthority \<Rightarrow> bool" where
  "isActiveAuthorityPath rt s \<longleftrightarrow> snap_path (auth_snapshot s) \<noteq> []
     \<and> last (snap_path (auth_snapshot s)) = authorityPrincipal s
     \<and> isActivePrincipalPath rt (snap_path (auth_snapshot s))"

definition isUnchangedAuthorityPath :: "PolicyRuntime \<Rightarrow> AncestorAuthority \<Rightarrow> bool" where
  "isUnchangedAuthorityPath rt s \<longleftrightarrow> isUnchangedPrincipalPath rt (auth_snapshot s)
     \<and> (case auth_fallback s of None \<Rightarrow> True | Some f \<Rightarrow> isUnchangedFallback rt f)"

section \<open>Walking to the root\<close>

definition out_of_fuel :: string where
  "out_of_fuel = ''the parents form a cycle''"

fun pathToRoot_loop :: "nat \<Rightarrow> PolicyRuntime \<Rightarrow> nat \<Rightarrow> nat list res" where
  "pathToRoot_loop 0 rt r = Inl out_of_fuel"
| "pathToRoot_loop (Suc n) rt r = (case parent_of (prin rt r) of
       None \<Rightarrow> Inr [r]
     | Some pid \<Rightarrow> res_bind (requirePrincipal rt pid) (\<lambda>q.
         res_bind (pathToRoot_loop n rt q) (\<lambda>path. Inr (r # path))))"

definition pathToRoot :: "PolicyRuntime \<Rightarrow> nat \<Rightarrow> nat list res" where
  "pathToRoot rt r = pathToRoot_loop (length (heap rt) + 2) rt r"

definition evaluatePrincipalAuthority :: "fs_env \<Rightarrow> PolicyRuntime \<Rightarrow> nat \<Rightarrow> string \<Rightarrow> PolicyAccessType \<Rightarrow> PolicyResult option" where
  "evaluatePrincipalAuthority env rt r uri at = (case engine_evaluate env (policies (prin rt r)) uri at of
       Some local \<Rightarrow> Some local
     | None \<Rightarrow> if agentIdentifier (prin rt r) \<noteq> rootAgentIdentifier rt then None
               else map_option systemFallbackResult (engine_evaluate env (rootFallbackPolicies rt) uri at))"

fun resolveAncestor_loop :: "nat \<Rightarrow> fs_env \<Rightarrow> PolicyRuntime \<Rightarrow> string \<Rightarrow> PolicyAccessType \<Rightarrow> nat list \<Rightarrow> nat \<Rightarrow>
    AncestorResolution res" where
  "resolveAncestor_loop 0 env rt uri at path current = Inl out_of_fuel"
| "resolveAncestor_loop (Suc n) env rt uri at path current = (case parent_of (prin rt current) of
       None \<Rightarrow> Inr User
     | Some pid \<Rightarrow> res_bind (requirePrincipal rt pid) (\<lambda>parent. let path' = path @ [parent] in
         case evaluatePrincipalAuthority env rt parent uri at of
           None \<Rightarrow> resolveAncestor_loop n env rt uri at path' parent
         | Some a \<Rightarrow> (case matchedStatus a of
             DENIED \<Rightarrow> Inr (Denied a)
           | ALLOWED \<Rightarrow> Inr (Authority \<lparr>auth_snapshot = principalPathSnapshot rt path', authorityPrincipal = parent,
               auth_result = a, auth_fallback = (if resolutionSource a = SYSTEM then Some (fallbackSnapshot rt at) else None)\<rparr>))))"

definition resolveAncestorAuthority :: "fs_env \<Rightarrow> PolicyRuntime \<Rightarrow> nat \<Rightarrow> string \<Rightarrow> PolicyAccessType \<Rightarrow> AncestorResolution res" where
  "resolveAncestorAuthority env rt requester uri at =
     resolveAncestor_loop (length (heap rt) + 2) env rt uri at [requester] requester"

section \<open>Requests\<close>

definition truthy :: "string option \<Rightarrow> bool" where
  "truthy s \<longleftrightarrow> (case s of None \<Rightarrow> False | Some t \<Rightarrow> t \<noteq> [])"

fun boundedScopes_loop :: "string option \<Rightarrow> string list \<Rightarrow> nat \<Rightarrow> string list \<Rightarrow> string list" where
  "boundedScopes_loop req selected selectedChars [] = selected"
| "boundedScopes_loop req selected selectedChars (scope # scopes) =
     (if Some scope = req \<or> scope \<in> set selected then boundedScopes_loop req selected selectedChars scopes
      else if MAX_AGENT_POLICY_SCOPES - (if truthy req then 1 else 0) \<le> length selected then selected
      else if MAX_AGENT_POLICY_SCOPE_CHARS < selectedChars + length scope + (case req of None \<Rightarrow> 0 | Some q \<Rightarrow> length q)
        then boundedScopes_loop req selected selectedChars scopes
      else boundedScopes_loop req (selected @ [scope]) (selectedChars + length scope) scopes)"

definition boundedPolicyScopes :: "string list \<Rightarrow> string option \<Rightarrow> string list" where
  "boundedPolicyScopes scopes req = (let selected = boundedScopes_loop req [] 0 scopes in
     case req of Some q \<Rightarrow> if q \<noteq> [] \<and> q \<notin> set selected then selected @ [q] else selected | None \<Rightarrow> selected)"

definition allowedApprovalScopes :: "fs_env \<Rightarrow> string \<Rightarrow> PolicyAccessType \<Rightarrow> string \<Rightarrow> string list" where
  "allowedApprovalScopes env uri at sourceScope = (let
     hierarchy = policyScopeHierarchy env uri at MAX_AGENT_POLICY_SCOPES;
     hierarchy' = (if sourceScope \<noteq> UNIVERSAL_NETWORK_POLICY_PATTERN \<and> sourceScope \<notin> set hierarchy
                   then hierarchy @ [sourceScope] else hierarchy)
     in boundedPolicyScopes
          (map (resolveUri env at) (filter (\<lambda>scope. policyScopeCovers env at sourceScope scope) hierarchy'))
          (if sourceScope = UNIVERSAL_NETWORK_POLICY_PATTERN then None else Some sourceScope))"

definition agent_context :: "PolicyRuntime \<Rightarrow> nat \<Rightarrow> PolicyApprovalAgentContext" where
  "agent_context rt r = \<lparr>agent_identifier = agentIdentifier (prin rt r),
     agent_role = role (principal_context (prin rt r)), agent_task = task (principal_context (prin rt r))\<rparr>"

definition policyRequestContext :: "PolicyRuntime \<Rightarrow> string \<Rightarrow> nat \<Rightarrow> nat list \<Rightarrow> PolicyToolCallContext \<Rightarrow> PolicyApprovalRequestContext" where
  "policyRequestContext rt rid requester path tool = \<lparr>requestId = rid,
     requestingAgentIdentifier = agentIdentifier (prin rt requester),
     ancestry = map (agent_context rt) (rev path), toolCall = tool\<rparr>"

definition agentApprovalRequest :: "fs_env \<Rightarrow> PolicyRuntime \<Rightarrow> string \<Rightarrow> nat \<Rightarrow> AncestorAuthority \<Rightarrow> string \<Rightarrow> PolicyAccessType \<Rightarrow>
    PolicyToolCallContext \<Rightarrow> AgentPolicyApprovalRequest res" where
  "agentApprovalRequest env rt rid requester source uri at tool = (let
     sourceScope = resolveUri env at (matchedPattern (auth_result source));
     scopes = allowedApprovalScopes env uri at sourceScope
     in if scopes = [] then Inl ''The approving agent's policy does not cover any valid request scope''
        else Inr \<lparr>request_context = policyRequestContext rt rid requester (snap_path (auth_snapshot source)) tool,
          approvingAgentIdentifier = agentIdentifier (prin rt (authorityPrincipal source)),
          request_uri = uri, request_accessType = at, allowedScopes = scopes,
          allowedLifetimes = allowedAgentLifetimes (matchedLifetime (auth_result source)),
          reviewSource = ANCESTOR_AUTHORITY (auth_result source)\<rparr>)"

definition llmFallbackApprovalRequest :: "fs_env \<Rightarrow> PolicyRuntime \<Rightarrow> string \<Rightarrow> nat \<Rightarrow> nat list \<Rightarrow> string \<Rightarrow> PolicyAccessType \<Rightarrow>
    PolicyToolCallContext \<Rightarrow> FallbackSnapshot \<Rightarrow> AgentPolicyApprovalRequest res" where
  "llmFallbackApprovalRequest env rt rid requester path uri at tool fb = (let
     scopes = allowedApprovalScopes env uri at (fallbackScope at)
     in if scopes = [] then Inl ''The ask_llm policy default did not produce a valid request scope''
        else Inr \<lparr>request_context = policyRequestContext rt rid requester path tool,
          approvingAgentIdentifier = rootAgentIdentifier rt,
          request_uri = uri, request_accessType = at, allowedScopes = scopes,
          allowedLifetimes = [ONCE, SESSION],
          reviewSource = POLICY_DEFAULT_ASK_LLM (fb_area fb) (fb_revision fb)\<rparr>)"

text \<open>A response outside the enumeration cannot occur here: the type has only its two members.\<close>

definition validatedAgentChoice :: "fs_env \<Rightarrow> PolicyChoice \<Rightarrow> AgentPolicyApprovalRequest \<Rightarrow> PolicyChoice res" where
  "validatedAgentChoice env c request =
     (if choice_accessType c \<noteq> request_accessType request
      then Inl ''the access type did not match the pending operation''
      else let scope = resolveUri env (request_accessType request) (choice_uri c) in
        if scope \<notin> set (allowedScopes request)
        then Inl ''the selected scope exceeded the approving agent's authority''
        else if choice_lifetime c \<notin> set (allowedLifetimes request)
        then Inl ''the selected lifetime exceeded the approving agent's authority''
        else Inr (c\<lparr>choice_uri := scope,
               choice_reason := or_text (boundedText (choice_reason c) 2000) ''Agent policy approver supplied no reason.''\<rparr>))"

section \<open>Audit\<close>

definition appendApprovalAudit :: "PolicyApprovalAuditRecord \<Rightarrow> PolicyRuntime \<Rightarrow> PolicyRuntime" where
  "appendApprovalAudit r rt = (case auditLog rt of
       None \<Rightarrow> rt
     | Some rs \<Rightarrow> if auditWritable rt then rt\<lparr>auditLog := Some (rs @ [boundedPolicyApprovalAuditRecord r])\<rparr> else rt)"

fun audit_route :: "review_source \<Rightarrow> PolicyApprovalAuditRoute" where
  "audit_route (ANCESTOR_AUTHORITY a) = Route_ANCESTOR_AUTHORITY"
| "audit_route (POLICY_DEFAULT_ASK_LLM area rv) = Route_POLICY_DEFAULT_ASK_LLM"

fun audit_authority_of :: "review_source \<Rightarrow> audit_authority" where
  "audit_authority_of (ANCESTOR_AUTHORITY a) = Audit_Ancestor (auditResult a) (resolutionSource a)"
| "audit_authority_of (POLICY_DEFAULT_ASK_LLM area rv) = Audit_Default area rv"

definition auditStructuredApproval :: "string \<Rightarrow> AgentPolicyApprovalRequest \<Rightarrow> PolicyChoice \<Rightarrow> PolicyResult \<Rightarrow>
    PolicyApprovalAuditOutcome \<Rightarrow> PolicyRuntime \<Rightarrow> PolicyRuntime" where
  "auditStructuredApproval now request c result oc rt = appendApprovalAudit
     \<lparr>timestamp = now, sessionIdentifier = rootAgentIdentifier rt,
      audit_requestId = requestId (request_context request), route = audit_route (reviewSource request), outcome = oc,
      audit_requester = requestingAgentIdentifier (request_context request),
      audit_ancestry = ancestry (request_context request), routingOwner = approvingAgentIdentifier request,
      audit_target = request_uri request, audit_accessType = request_accessType request,
      audit_toolCall = toolCall (request_context request),
      audit_authority = Some (audit_authority_of (reviewSource request)),
      audit_decision = auditDecision c, audit_result = auditResult result,
      audit_resolutionSource = resolutionSource result\<rparr> rt"

definition auditUserApproval :: "string \<Rightarrow> PolicyApprovalRequestContext \<Rightarrow> string \<Rightarrow> PolicyAccessType \<Rightarrow> PolicyChoice \<Rightarrow> PolicyResult \<Rightarrow>
    PolicyApprovalAuditOutcome \<Rightarrow> PolicyRuntime \<Rightarrow> PolicyRuntime" where
  "auditUserApproval now ctx uri at c result oc rt = appendApprovalAudit
     \<lparr>timestamp = now, sessionIdentifier = rootAgentIdentifier rt,
      audit_requestId = requestId ctx, route = Route_USER, outcome = oc,
      audit_requester = requestingAgentIdentifier ctx, audit_ancestry = ancestry ctx, routingOwner = ''user'',
      audit_target = uri, audit_accessType = at, audit_toolCall = toolCall ctx, audit_authority = None,
      audit_decision = auditDecision c, audit_result = auditResult result,
      audit_resolutionSource = resolutionSource result\<rparr> rt"

section \<open>Asking an agent\<close>

datatype pending_kind =
    Ask_Ancestor AncestorAuthority AgentPolicyApprovalRequest
  | Ask_Llm PrincipalPathSnapshot FallbackSnapshot AgentPolicyApprovalRequest
  | Ask_User PrincipalPathSnapshot FallbackSnapshot PolicyApprovalRequestContext

record pending =
  pend_requester :: nat
  pend_uri :: string
  pend_accessType :: PolicyAccessType
  pend_once :: nat
  pend_toolCall :: PolicyToolCallContext
  pend_kind :: pending_kind

datatype evaluation = Resolved PolicyResult | Pending pending

definition once_engine :: "PolicyRuntime \<Rightarrow> nat \<Rightarrow> engine" where
  "once_engine rt k = onceHeap rt ! k"

definition add_once :: "fs_env \<Rightarrow> Policy list \<Rightarrow> nat \<Rightarrow> PolicyRuntime \<Rightarrow> PolicyRuntime" where
  "add_once env ps k rt = rt\<lparr>onceHeap := (onceHeap rt)[k := addPolicies env (once_engine rt k) ps]\<rparr>"

definition resolved_while_pending :: "fs_env \<Rightarrow> PolicyRuntime \<Rightarrow> nat \<Rightarrow> nat \<Rightarrow> string \<Rightarrow> PolicyAccessType \<Rightarrow> PolicyResult option" where
  "resolved_while_pending env rt requester k uri at =
     (case engine_evaluate env (policies (prin rt requester)) uri at of
        Some r \<Rightarrow> Some r | None \<Rightarrow> engine_evaluate env (once_engine rt k) uri at)"

definition decision_result :: "fs_env \<Rightarrow> PolicyResolutionSource \<Rightarrow> string \<Rightarrow> PolicyAccessType \<Rightarrow> PolicyChoice \<Rightarrow> PolicyResult" where
  "decision_result env src uri at c = \<lparr>evaluatedUri = uri, evaluatedAccessType = at,
     matchedPattern = resolveUri env at (choice_uri c), matchedLifetime = choice_lifetime c,
     matchedStatus = choice_status c, matchedReason = choice_reason c, resolutionSource = src\<rparr>"

text \<open>How the protected part after the await ends: early return, error, or a validated choice.\<close>

datatype review_end = Superseded PolicyChoice PolicyResult | Failed string | Validated PolicyChoice

fun validate_twice :: "fs_env \<Rightarrow> PolicyChoice \<Rightarrow> AgentPolicyApprovalRequest \<Rightarrow> AgentPolicyApprovalRequest res \<Rightarrow> review_end" where
  "validate_twice env c request current = (case validatedAgentChoice env c request of
       Inl e \<Rightarrow> Failed e
     | Inr c1 \<Rightarrow> (case current of
         Inl e \<Rightarrow> Failed e
       | Inr request2 \<Rightarrow> (case validatedAgentChoice env c1 request2 of
           Inl e \<Rightarrow> Failed e | Inr c2 \<Rightarrow> Validated c2)))"

definition ancestor_review :: "fs_env \<Rightarrow> PolicyRuntime \<Rightarrow> pending \<Rightarrow> AncestorAuthority \<Rightarrow> AgentPolicyApprovalRequest \<Rightarrow>
    PolicyChoice res \<Rightarrow> bool \<Rightarrow> review_end" where
  "ancestor_review env rt p source request answer aborted = (case answer of
       Inl e \<Rightarrow> Failed e
     | Inr c \<Rightarrow>
       if aborted \<or> closing rt then Failed ''the pending operation was aborted''
       else if \<not> isActiveAuthorityPath rt source then Failed ''the policy authority path is no longer active''
       else case resolved_while_pending env rt (pend_requester p) (pend_once p) (pend_uri p) (pend_accessType p) of
         Some r \<Rightarrow> Superseded c r
       | None \<Rightarrow> (case resolveAncestorAuthority env rt (pend_requester p) (pend_uri p) (pend_accessType p) of
           Inl e \<Rightarrow> Failed e
         | Inr (Denied r) \<Rightarrow> Superseded c r
         | Inr User \<Rightarrow> Failed (if \<not> isUnchangedAuthorityPath rt source
             then ''the policy authority or request context changed while approval was pending''
             else ''the approving agent is no longer the nearest covering authority'')
         | Inr (Authority a) \<Rightarrow>
             if \<not> isUnchangedAuthorityPath rt source
             then Failed ''the policy authority or request context changed while approval was pending''
             else if authorityPrincipal a \<noteq> authorityPrincipal source
             then Failed ''the approving agent is no longer the nearest covering authority''
             else validate_twice env c request (agentApprovalRequest env rt (requestId (request_context request))
                    (pend_requester p) a (pend_uri p) (pend_accessType p) (pend_toolCall p))))"

definition install_decision :: "fs_env \<Rightarrow> PolicyChoice \<Rightarrow> nat list \<Rightarrow> nat \<Rightarrow> PolicyRuntime \<Rightarrow> PolicyRuntime" where
  "install_decision env c receivers k rt = (if choice_lifetime c = SESSION
     then foldl (addPrincipalPolicies env [policyFromChoice c]) rt receivers
     else add_once env [policyFromChoice c] k rt)"

definition audit_opt :: "string \<Rightarrow> AgentPolicyApprovalRequest option \<Rightarrow> PolicyChoice \<Rightarrow> PolicyResult \<Rightarrow>
    PolicyApprovalAuditOutcome \<Rightarrow> PolicyRuntime \<Rightarrow> PolicyRuntime" where
  "audit_opt now request c r oc rt = (case request of
       None \<Rightarrow> rt | Some q \<Rightarrow> auditStructuredApproval now q c r oc rt)"

fun ancestor_finish :: "fs_env \<Rightarrow> string \<Rightarrow> PolicyRuntime \<Rightarrow> pending \<Rightarrow> AncestorAuthority \<Rightarrow> AgentPolicyApprovalRequest option \<Rightarrow>
    review_end \<Rightarrow> PolicyRuntime \<times> PolicyResult" where
  "ancestor_finish env now rt p source request (Superseded c r) = (audit_opt now request c r SUPERSEDED rt, r)"
| "ancestor_finish env now rt p source request (Failed e) = (let
     c = deniedChoice (pend_uri p) (pend_accessType p) (''Agent policy approval failed closed: '' @ e);
     r = decision_result env NEW_AGENT_DECISION (pend_uri p) (pend_accessType p) c
     in (audit_opt now request c r FAILED_CLOSED rt, r))"
| "ancestor_finish env now rt p source request (Validated c) = (let
     rt1 = (if isActiveAuthorityPath rt source
            then install_decision env c (butlast (snap_path (auth_snapshot source))) (pend_once p) rt else rt);
     r = decision_result env NEW_AGENT_DECISION (pend_uri p) (pend_accessType p) c
     in (audit_opt now request c r DECIDED rt1, r))"

definition llm_valid :: "PolicyRuntime \<Rightarrow> PrincipalPathSnapshot \<Rightarrow> FallbackSnapshot \<Rightarrow> bool" where
  "llm_valid rt s fb \<longleftrightarrow> isActivePrincipalPath rt (snap_path s) \<and> isUnchangedPrincipalPath rt s
     \<and> isUnchangedFallback rt fb \<and> defaultResponses rt (fb_area fb) = Some ask_llm"

definition llm_review :: "fs_env \<Rightarrow> PolicyRuntime \<Rightarrow> pending \<Rightarrow> PrincipalPathSnapshot \<Rightarrow> FallbackSnapshot \<Rightarrow>
    AgentPolicyApprovalRequest \<Rightarrow> PolicyChoice res \<Rightarrow> bool \<Rightarrow> review_end" where
  "llm_review env rt p s fb request answer aborted = (case answer of
       Inl e \<Rightarrow> Failed e
     | Inr c \<Rightarrow>
       if aborted \<or> closing rt then Failed ''the pending operation was aborted''
       else case resolved_while_pending env rt (pend_requester p) (pend_once p) (pend_uri p) (pend_accessType p) of
         Some r \<Rightarrow> Superseded c r
       | None \<Rightarrow>
           if \<not> llm_valid rt s fb
           then Failed ''the ask_llm policy default or request context changed while review was pending''
           else validate_twice env c request (llmFallbackApprovalRequest env rt (requestId (request_context request))
                  (pend_requester p) (snap_path s) (pend_uri p) (pend_accessType p) (pend_toolCall p) fb))"

fun llm_finish :: "fs_env \<Rightarrow> string \<Rightarrow> PolicyRuntime \<Rightarrow> pending \<Rightarrow> PrincipalPathSnapshot \<Rightarrow> FallbackSnapshot \<Rightarrow>
    AgentPolicyApprovalRequest option \<Rightarrow> review_end \<Rightarrow> PolicyRuntime \<times> PolicyResult" where
  "llm_finish env now rt p s fb request (Superseded c r) = (audit_opt now request c r SUPERSEDED rt, r)"
| "llm_finish env now rt p s fb request (Failed e) = (let
     c = deniedChoice (pend_uri p) (pend_accessType p) (''LLM policy approval failed closed: '' @ e);
     r = decision_result env SYSTEM (pend_uri p) (pend_accessType p) c
     in (audit_opt now request c r FAILED_CLOSED rt, r))"
| "llm_finish env now rt p s fb request (Validated c) = (let
     rt1 = (if llm_valid rt s fb then install_decision env c (snap_path s) (pend_once p) rt else rt);
     r = decision_result env NEW_DEFAULT_LLM_DECISION (pend_uri p) (pend_accessType p) c
     in (audit_opt now request c r DECIDED rt1, r))"

section \<open>Asking the user\<close>

text \<open>An approval signal: not aborted, aborted by the deadline with its message, or otherwise.\<close>

datatype approval_signal = Not_Aborted | Timed_Out string | Aborted

definition aborted_signal :: "approval_signal \<Rightarrow> bool" where
  "aborted_signal s \<longleftrightarrow> s \<noteq> Not_Aborted"

fun userApprovalInactiveReason :: "approval_signal \<Rightarrow> string" where
  "userApprovalInactiveReason (Timed_Out message) = message"
| "userApprovalInactiveReason Not_Aborted = ''User policy approval is no longer active.''"
| "userApprovalInactiveReason Aborted = ''User policy approval is no longer active.''"

definition automated_result :: "fs_env \<Rightarrow> PolicyRuntime \<Rightarrow> nat \<Rightarrow> nat \<Rightarrow> string \<Rightarrow> PolicyAccessType \<Rightarrow> PolicyResult option" where
  "automated_result env rt r k uri at = (case evaluatePrincipalAuthority env rt r uri at of
       Some a \<Rightarrow> Some a | None \<Rightarrow> engine_evaluate env (once_engine rt k) uri at)"

definition queuedUserApprovalResolution :: "fs_env \<Rightarrow> PolicyRuntime \<Rightarrow> pending \<Rightarrow> PrincipalPathSnapshot \<Rightarrow> FallbackSnapshot \<Rightarrow>
    approval_signal \<Rightarrow> PolicyResult option res" where
  "queuedUserApprovalResolution env rt p s fb signal = (let uri = pend_uri p; at = pend_accessType p in
     if aborted_signal signal \<or> closing rt \<or> \<not> isActivePrincipalPath rt (snap_path s)
     then Inr (Some (failedClosedResult uri at (userApprovalInactiveReason signal)))
     else case automated_result env rt (pend_requester p) (pend_once p) uri at of
       Some r \<Rightarrow> Inr (Some r)
     | None \<Rightarrow> res_bind (resolveAncestorAuthority env rt (pend_requester p) uri at) (\<lambda>ancestor.
         case ancestor of
           Denied r \<Rightarrow> Inr (Some r)
         | _ \<Rightarrow> if \<not> isUnchangedPrincipalPath rt s \<or> \<not> isUnchangedFallback rt fb
                    \<or> defaultResponses rt (fb_area fb) \<noteq> Some ask_user
                then Inr (Some (failedClosedResult uri at ''User policy approval is no longer active.''))
                else Inr None))"

definition user_receivers :: "PolicyRuntime \<Rightarrow> nat \<Rightarrow> nat list \<Rightarrow> PolicyChoice \<Rightarrow> nat list" where
  "user_receivers rt requester path c =
     (if agentIdentifier (prin rt requester) \<noteq> rootAgentIdentifier rt \<and> choice_lifetime c \<noteq> ONCE then butlast path else [])"

definition completeUserApproval :: "fs_env \<Rightarrow> string \<Rightarrow> int \<Rightarrow> PolicyRuntime \<Rightarrow> pending \<Rightarrow> PrincipalPathSnapshot \<Rightarrow> FallbackSnapshot \<Rightarrow>
    PolicyApprovalRequestContext \<Rightarrow> PolicyChoice \<Rightarrow> approval_signal \<Rightarrow> (PolicyRuntime \<times> PolicyResult) res" where
  "completeUserApproval env now ms rt p s fb ctx c signal = (let uri = pend_uri p; at = pend_accessType p in
     if aborted_signal signal \<or> closing rt \<or> \<not> isUnchangedFallback rt fb \<or> defaultResponses rt (fb_area fb) \<noteq> Some ask_user
     then let r = failedClosedResult uri at (userApprovalInactiveReason signal)
          in Inr (auditUserApproval now ctx uri at c r FAILED_CLOSED rt, r)
     else case resolved_while_pending env rt (pend_requester p) (pend_once p) uri at of
       Some r \<Rightarrow> Inr (auditUserApproval now ctx uri at c r SUPERSEDED rt, r)
     | None \<Rightarrow>
         if \<not> isActivePrincipalPath rt (snap_path s) \<or> \<not> isUnchangedPrincipalPath rt s
         then let r = failedClosedResult uri at ''User policy approval is no longer active.''
              in Inr (auditUserApproval now ctx uri at c r FAILED_CLOSED rt, r)
         else res_bind (requirePrincipal rt (rootAgentIdentifier rt)) (\<lambda>root. let policy = policyFromChoice c in
           res_bind
             (if isPersistedLifetime (choice_lifetime c) then
                (case dao_upsertPolicies (database rt) ms [policy] of
                   None \<Rightarrow> Inl ''SQL error''
                 | Some dao \<Rightarrow> Inr (addPrincipalPolicies env [policy] (rt\<lparr>database := dao\<rparr>) root))
              else if choice_lifetime c = SESSION then Inr (addPrincipalPolicies env [policy] rt root)
              else Inr (add_once env [policy] (pend_once p) rt))
           (\<lambda>rt1. let
              receivers = user_receivers rt1 (pend_requester p) (snap_path s) c;
              rt2 = foldl (addPrincipalPolicies env [sessionPolicy policy]) rt1 receivers;
              effectiveLifetime = (if agentIdentifier (prin rt1 (pend_requester p)) \<noteq> rootAgentIdentifier rt1
                  \<and> choice_lifetime c \<noteq> ONCE then SESSION else choice_lifetime c);
              r = (decision_result env NEW_USER_DECISION uri at c)\<lparr>matchedLifetime := effectiveLifetime\<rparr>
              in Inr (auditUserApproval now ctx uri at c r DECIDED rt2, r))))"

section \<open>Evaluation\<close>

definition ask_ancestor_begin :: "fs_env \<Rightarrow> string \<Rightarrow> string \<Rightarrow> PolicyRuntime \<Rightarrow> AncestorAuthority \<Rightarrow> nat \<Rightarrow> string \<Rightarrow> PolicyAccessType \<Rightarrow> nat \<Rightarrow>
    PolicyToolCallContext \<Rightarrow> PolicyRuntime \<times> evaluation" where
  "ask_ancestor_begin env now rid rt source requester uri at k tool = (let
     p = (\<lambda>kind. \<lparr>pend_requester = requester, pend_uri = uri, pend_accessType = at, pend_once = k, pend_toolCall = tool, pend_kind = kind\<rparr>)
     in case agentApprovalRequest env rt rid requester source uri at tool of
       Inl e \<Rightarrow> (let r = decision_result env NEW_AGENT_DECISION uri at
                   (deniedChoice uri at (''Agent policy approval failed closed: '' @ e)) in (rt, Resolved r))
     | Inr request \<Rightarrow>
         if \<not> agentDecisionFlow rt
         then apsnd Resolved (ancestor_finish env now rt (p (Ask_Ancestor source request)) source (Some request)
                (Failed ''Authorized super-agent review is unavailable.''))
         else (rt, Pending (p (Ask_Ancestor source request))))"

definition ask_llm_begin :: "fs_env \<Rightarrow> string \<Rightarrow> string \<Rightarrow> PolicyRuntime \<Rightarrow> nat \<Rightarrow> string \<Rightarrow> PolicyAccessType \<Rightarrow> nat \<Rightarrow>
    PolicyToolCallContext \<Rightarrow> (PolicyRuntime \<times> evaluation) res" where
  "ask_llm_begin env now rid rt requester uri at k tool = res_bind (pathToRoot rt requester) (\<lambda>path. let
     s = principalPathSnapshot rt path;
     fb = fallbackSnapshot rt at;
     p = (\<lambda>kind. \<lparr>pend_requester = requester, pend_uri = uri, pend_accessType = at, pend_once = k, pend_toolCall = tool, pend_kind = kind\<rparr>)
     in case llmFallbackApprovalRequest env rt rid requester path uri at tool fb of
       Inl e \<Rightarrow> (let r = decision_result env SYSTEM uri at
                   (deniedChoice uri at (''LLM policy approval failed closed: '' @ e)) in Inr (rt, Resolved r))
     | Inr request \<Rightarrow>
         if \<not> agentDecisionFlow rt
         then Inr (apsnd Resolved (llm_finish env now rt (p (Ask_Llm s fb request)) s fb (Some request)
                (Failed ''LLM policy review is unavailable.'')))
         else Inr (rt, Pending (p (Ask_Llm s fb request))))"

definition ask_user_begin :: "string \<Rightarrow> PolicyRuntime \<Rightarrow> nat \<Rightarrow> string \<Rightarrow> PolicyAccessType \<Rightarrow> nat \<Rightarrow> PolicyToolCallContext \<Rightarrow>
    (PolicyRuntime \<times> evaluation) res" where
  "ask_user_begin rid rt requester uri at k tool = res_bind (pathToRoot rt requester) (\<lambda>path. let
     s = principalPathSnapshot rt path;
     fb = fallbackSnapshot rt at;
     ctx = policyRequestContext rt rid requester path tool
     in Inr (rt, Pending \<lparr>pend_requester = requester, pend_uri = uri, pend_accessType = at, pend_once = k,
                   pend_toolCall = tool, pend_kind = Ask_User s fb ctx\<rparr>))"

definition fallback_text :: "PolicyFallbackResponse option \<Rightarrow> string" where
  "fallback_text response = (case response of None \<Rightarrow> ''undefined'' | Some x \<Rightarrow> fallbackValue x)"

definition evaluate_begin :: "fs_env \<Rightarrow> string \<Rightarrow> string \<Rightarrow> PolicyRuntime \<Rightarrow> nat \<Rightarrow> string \<Rightarrow> PolicyAccessType \<Rightarrow> nat \<Rightarrow>
    PolicyToolCallContext \<Rightarrow> (PolicyRuntime \<times> evaluation) res" where
  "evaluate_begin env now rid rt r inputUri at k tool =
     (if MAX_POLICY_URI_CHARS < length inputUri
      then Inr (rt, Resolved (failedClosedResult (boundedText inputUri MAX_POLICY_URI_CHARS) at
             ''Policy target exceeds the maximum supported length.''))
      else let uri = resolveUri env at inputUri in
        if closing rt then Inr (rt, Resolved (failedClosedResult uri at ''Policy runtime is shutting down.''))
        else case automated_result env rt r k uri at of
          Some a \<Rightarrow> Inr (rt, Resolved a)
        | None \<Rightarrow> res_bind (resolveAncestorAuthority env rt r uri at) (\<lambda>ancestor. case ancestor of
            Denied a \<Rightarrow> Inr (rt, Resolved a)
          | Authority source \<Rightarrow> Inr (ask_ancestor_begin env now rid rt source r uri at k tool)
          | User \<Rightarrow> (case defaultResponses rt (area_of at) of
              Some ask_llm \<Rightarrow> ask_llm_begin env now rid rt r uri at k tool
            | Some ask_user \<Rightarrow> ask_user_begin rid rt r uri at k tool
            | response \<Rightarrow> Inr (rt, Resolved (failedClosedResult uri at
                (''Policy fallback '' @ fallback_text response @ '' had no matching automated policy.''))))))"

text \<open>The answer of an agent to a pending request, in the state of that moment.\<close>

definition agent_answer :: "fs_env \<Rightarrow> string \<Rightarrow> PolicyRuntime \<Rightarrow> pending \<Rightarrow> PolicyChoice res \<Rightarrow> bool \<Rightarrow> (PolicyRuntime \<times> PolicyResult) option" where
  "agent_answer env now rt p answer aborted = (case pend_kind p of
       Ask_Ancestor source request \<Rightarrow> Some (ancestor_finish env now rt p source (Some request)
         (ancestor_review env rt p source request answer aborted))
     | Ask_Llm s fb request \<Rightarrow> Some (llm_finish env now rt p s fb (Some request)
         (llm_review env rt p s fb request answer aborted))
     | Ask_User s fb ctx \<Rightarrow> None)"

section \<open>Tool calls\<close>

record tool_call =
  tc_principal :: nat
  tc_once :: nat
  tc_context :: PolicyToolCallContext
  tc_scopes :: "nat list"

definition toolCallEvaluator :: "PolicyRuntime \<Rightarrow> nat \<Rightarrow> nat \<Rightarrow> PolicyToolCallContext \<Rightarrow> nat option \<Rightarrow> tool_call" where
  "toolCallEvaluator rt r k ctx scope = \<lparr>tc_principal = r, tc_once = k, tc_context = ctx,
     tc_scopes = remdups (List.map_filter (\<lambda>x. x) [scope, approvalWaitScope (prin rt r)])\<rparr>"

definition or_scope :: "nat option \<Rightarrow> nat option \<Rightarrow> nat option" where
  "or_scope a b = (case a of None \<Rightarrow> b | Some x \<Rightarrow> Some x)"

definition beginToolCall :: "PolicyRuntime \<Rightarrow> string \<Rightarrow> PolicyToolCallContext \<Rightarrow> nat option \<Rightarrow> (PolicyRuntime \<times> tool_call) res" where
  "beginToolCall rt ident tool current = res_bind (requirePrincipal rt ident) (\<lambda>r.
     Inr (rt\<lparr>onceHeap := onceHeap rt @ [[]]\<rparr>,
          toolCallEvaluator rt r (length (onceHeap rt)) (normalizedToolCallContext tool)
            (or_scope current (approvalWaitScope (prin rt r)))))"

definition beginNativeFilesystemToolCall :: "PolicyRuntime \<Rightarrow> string \<Rightarrow> PolicyToolCallContext \<Rightarrow> nat \<Rightarrow> (PolicyRuntime \<times> nat) res" where
  "beginNativeFilesystemToolCall rt ident tool newScope = res_bind (requirePrincipal rt ident) (\<lambda>r.
     case map_of (nativeFilesystemPolicyBases rt) ident of
       None \<Rightarrow> Inl (''Native filesystem policy base is unavailable: '' @ ident)
     | Some b \<Rightarrow> (let
         v = length (viewHeap rt);
         k = length (onceHeap rt);
         tc = toolCallEvaluator rt r k (normalizedToolCallContext tool) (Some newScope)
         in Inr (rt\<lparr>onceHeap := onceHeap rt @ [[]],
              viewHeap := viewHeap rt @ [\<lparr>view_base = b, view_principal = r, view_once = k, view_context = tc_context tc,
                view_scopes = tc_scopes tc, view_oncePoliciesState = [], view_onceRevision = 0, view_closed = False,
                view_onceListeners = [], view_closeListeners = []\<rparr>],
              nativeFilesystemViews := nativeFilesystemViews rt @ [v]\<rparr>, v)))"

section \<open>Views\<close>

fun evaluateLayers :: "fs_env \<Rightarrow> string \<Rightarrow> PolicyAccessType \<Rightarrow> NativeFilesystemPolicyLayer list \<Rightarrow> PolicyResult option" where
  "evaluateLayers env uri at [] = None"
| "evaluateLayers env uri at (l # ls) = (case evaluateStoredPolicies env (layer_policies l) uri at (layer_source l) of
       Some r \<Rightarrow> Some r | None \<Rightarrow> evaluateLayers env uri at ls)"

definition once_layer :: "PolicyRuntime \<Rightarrow> NativeFilesystemPolicyView \<Rightarrow> NativeFilesystemPolicyLayer" where
  "once_layer rt v = \<lparr>layer_policies = filesystemPolicies (allPolicies (once_engine rt (view_once v))),
     layer_source = EXISTING_USER_POLICY\<rparr>"

definition view_currentPolicyResult :: "fs_env \<Rightarrow> PolicyRuntime \<Rightarrow> nat \<Rightarrow> string \<Rightarrow> PolicyAccessType \<Rightarrow> PolicyResult option res" where
  "view_currentPolicyResult env rt i path at = (let v = viewHeap rt ! i; b = baseHeap rt ! view_base v in
     if view_closed v then Inl ''Native filesystem policy view is closed''
     else if base_closed b then Inl ''Native filesystem policy base is closed''
     else Inr (case evaluateLayers env (resolveUri env at path) at (nativeFilesystemPolicyLayers rt (base_principal b)) of
         Some r \<Rightarrow> Some r
       | None \<Rightarrow> evaluateLayers env (resolveUri env at path) at [once_layer rt v]))"

text \<open>The part of a view evaluation after its evaluator answered: the once layer is compared with
  the last published one, and published when it changed.\<close>

definition view_after_evaluation :: "PolicyRuntime \<Rightarrow> nat \<Rightarrow> PolicyAccessType \<Rightarrow> PolicyResult \<Rightarrow>
    (PolicyRuntime \<times> PolicyResult \<times> nat \<times> NativeFilesystemPolicySnapshot) res" where
  "view_after_evaluation rt i at result = (let v = viewHeap rt ! i; b = baseHeap rt ! view_base v in
     if view_closed v then Inl ''Native filesystem policy view is closed''
     else if base_closed b then Inl ''Native filesystem policy base is closed''
     else let
       next = layer_policies (once_layer rt v);
       onceChanged = ((at = FS_READ \<or> at = FS_WRITE) \<and> view_oncePoliciesState v \<noteq> next);
       v' = (if onceChanged then v\<lparr>view_oncePoliciesState := next, view_onceRevision := Suc (view_onceRevision v)\<rparr> else v);
       snapshot = \<lparr>native_revision = view_onceRevision v',
         native_layers = [\<lparr>layer_policies = next, layer_source = EXISTING_USER_POLICY\<rparr>]\<rparr>;
       rt' = rt\<lparr>viewHeap := (viewHeap rt)[i := v'],
                events := events rt @ (if onceChanged then map (\<lambda>l. Once_Changed l snapshot) (view_onceListeners v) else [])\<rparr>
       in Inr (rt', result, base_revision b, snapshot))"

end
