(* ===== verification/Runtime_Tree.thy ===== *)
theory Runtime_Tree
  imports Runtime_Evaluation
begin

text \<open>
  The principals of a runtime form a tree.  The invariant \<open>tree_wf\<close> is stated on what identifies a
  principal (identifier, parent identifier, children); operations that leave it alone preserve
  it by a frame lemma, and registration and removal preserve it.  Under it the walk to the root
  ends within its fuel, at the root, along an active path.
\<close>

section \<open>The invariant\<close>

type_synonym tree_node = "string \<times> string option \<times> string list"

definition tree_node :: "PolicyPrincipal \<Rightarrow> tree_node" where
  "tree_node p = (agentIdentifier p, parentAgentIdentifier p, children p)"

definition node_ok :: "(string \<times> nat) list \<Rightarrow> string \<Rightarrow> tree_node list \<Rightarrow> string \<Rightarrow> nat \<Rightarrow> bool" where
  "node_ok ps root ts ident r \<longleftrightarrow> r < length ts \<and> ident \<noteq> [] \<and> fst (ts ! r) = ident \<and> distinct (snd (snd (ts ! r)))
     \<and> (if ident = root then fst (snd (ts ! r)) = None
        else \<exists>pid q. fst (snd (ts ! r)) = Some pid \<and> map_of ps pid = Some q \<and> q < r \<and> ident \<in> set (snd (snd (ts ! q))))
     \<and> (\<forall>c \<in> set (snd (snd (ts ! r))). c \<noteq> root \<and> (\<exists>s. map_of ps c = Some s \<and> fst (snd (ts ! s)) = Some ident))"

definition tree_ok :: "(string \<times> nat) list \<Rightarrow> string \<Rightarrow> tree_node list \<Rightarrow> bool" where
  "tree_ok ps root ts \<longleftrightarrow> od_keys_distinct ps \<and> map_of ps root \<noteq> None
     \<and> (\<forall>ident r. map_of ps ident = Some r \<longrightarrow> node_ok ps root ts ident r)"

definition tree_wf :: "PolicyRuntime \<Rightarrow> bool" where
  "tree_wf rt \<longleftrightarrow> tree_ok (principals rt) (rootAgentIdentifier rt) (map tree_node (heap rt))"

definition same_tree :: "PolicyRuntime \<Rightarrow> PolicyRuntime \<Rightarrow> bool" where
  "same_tree rt rt' \<longleftrightarrow> principals rt' = principals rt \<and> rootAgentIdentifier rt' = rootAgentIdentifier rt
     \<and> map tree_node (heap rt') = map tree_node (heap rt)"

lemma same_tree_refl [simp]: "same_tree rt rt"
  by (simp add: same_tree_def)

lemma same_tree_trans: "same_tree a b \<Longrightarrow> same_tree b c \<Longrightarrow> same_tree a c"
  by (simp add: same_tree_def)

lemma same_tree_wf: "same_tree rt rt' \<Longrightarrow> tree_wf rt \<Longrightarrow> tree_wf rt'"
  by (simp add: same_tree_def tree_wf_def)

lemma same_tree_length: "same_tree rt rt' \<Longrightarrow> length (heap rt') = length (heap rt)"
  unfolding same_tree_def by (metis length_map)

lemma tree_node_update:
  "tree_node p = tree_node (xs ! r) \<Longrightarrow> map tree_node (xs[r := p]) = map tree_node xs"
  by (metis list_update_id map_update)

section \<open>Frames\<close>

named_theorems frame_simps \<open>what an operation leaves alone\<close>

lemma policyStateChanged_frame [frame_simps]:
  "heap (policyStateChanged i rt) = heap rt"
  "principals (policyStateChanged i rt) = principals rt"
  "rootAgentIdentifier (policyStateChanged i rt) = rootAgentIdentifier rt"
  "rootFallbackPolicies (policyStateChanged i rt) = rootFallbackPolicies rt"
  "onceHeap (policyStateChanged i rt) = onceHeap rt"
  "database (policyStateChanged i rt) = database rt"
  "closing (policyStateChanged i rt) = closing rt"
  "defaultResponses (policyStateChanged i rt) = defaultResponses rt"
  "fallbackRevisions (policyStateChanged i rt) = fallbackRevisions rt"
  "nativeFilesystemPolicyBases (policyStateChanged i rt) = nativeFilesystemPolicyBases rt"
  "agentDecisionFlow (policyStateChanged i rt) = agentDecisionFlow rt"
  "auditLog (policyStateChanged i rt) = auditLog rt"
  by (simp_all add: policyStateChanged_def Let_def)

lemma notify_frame [frame_simps]:
  "heap (notifyNativeFilesystemPolicyBase r rt) = heap rt"
  "principals (notifyNativeFilesystemPolicyBase r rt) = principals rt"
  "rootAgentIdentifier (notifyNativeFilesystemPolicyBase r rt) = rootAgentIdentifier rt"
  "rootFallbackPolicies (notifyNativeFilesystemPolicyBase r rt) = rootFallbackPolicies rt"
  "onceHeap (notifyNativeFilesystemPolicyBase r rt) = onceHeap rt"
  "database (notifyNativeFilesystemPolicyBase r rt) = database rt"
  "closing (notifyNativeFilesystemPolicyBase r rt) = closing rt"
  "defaultResponses (notifyNativeFilesystemPolicyBase r rt) = defaultResponses rt"
  "fallbackRevisions (notifyNativeFilesystemPolicyBase r rt) = fallbackRevisions rt"
  "nativeFilesystemPolicyBases (notifyNativeFilesystemPolicyBase r rt) = nativeFilesystemPolicyBases rt"
  "agentDecisionFlow (notifyNativeFilesystemPolicyBase r rt) = agentDecisionFlow rt"
  "auditLog (notifyNativeFilesystemPolicyBase r rt) = auditLog rt"
  by (simp_all add: notifyNativeFilesystemPolicyBase_def frame_simps split: option.splits)

lemma view_close_frame [frame_simps]:
  "heap (view_close i rt) = heap rt" "principals (view_close i rt) = principals rt"
  "rootAgentIdentifier (view_close i rt) = rootAgentIdentifier rt"
  "rootFallbackPolicies (view_close i rt) = rootFallbackPolicies rt"
  "onceHeap (view_close i rt) = onceHeap rt" "database (view_close i rt) = database rt"
  "closing (view_close i rt) = closing rt" "defaultResponses (view_close i rt) = defaultResponses rt"
  "fallbackRevisions (view_close i rt) = fallbackRevisions rt" "baseHeap (view_close i rt) = baseHeap rt"
  "nativeFilesystemPolicyBases (view_close i rt) = nativeFilesystemPolicyBases rt"
  "agentDecisionFlow (view_close i rt) = agentDecisionFlow rt"
  by (simp_all add: view_close_def Let_def)

lemma base_close_frame [frame_simps]:
  "heap (base_close i rt) = heap rt" "principals (base_close i rt) = principals rt"
  "rootAgentIdentifier (base_close i rt) = rootAgentIdentifier rt"
  "rootFallbackPolicies (base_close i rt) = rootFallbackPolicies rt"
  "onceHeap (base_close i rt) = onceHeap rt" "database (base_close i rt) = database rt"
  "closing (base_close i rt) = closing rt" "defaultResponses (base_close i rt) = defaultResponses rt"
  "fallbackRevisions (base_close i rt) = fallbackRevisions rt"
  "nativeFilesystemPolicyBases (base_close i rt) = nativeFilesystemPolicyBases rt"
  "agentDecisionFlow (base_close i rt) = agentDecisionFlow rt"
  by (simp_all add: base_close_def Let_def)

lemma fold_frame: "(\<And>x s. f (g x s) = f s) \<Longrightarrow> f (fold g xs s) = f s"
  by (induction xs arbitrary: s) auto

lemma audit_frame [frame_simps]:
  "heap (appendApprovalAudit a rt) = heap rt" "principals (appendApprovalAudit a rt) = principals rt"
  "rootAgentIdentifier (appendApprovalAudit a rt) = rootAgentIdentifier rt"
  "rootFallbackPolicies (appendApprovalAudit a rt) = rootFallbackPolicies rt"
  "onceHeap (appendApprovalAudit a rt) = onceHeap rt" "database (appendApprovalAudit a rt) = database rt"
  "closing (appendApprovalAudit a rt) = closing rt" "defaultResponses (appendApprovalAudit a rt) = defaultResponses rt"
  "fallbackRevisions (appendApprovalAudit a rt) = fallbackRevisions rt" "baseHeap (appendApprovalAudit a rt) = baseHeap rt"
  "nativeFilesystemPolicyBases (appendApprovalAudit a rt) = nativeFilesystemPolicyBases rt"
  by (simp_all add: appendApprovalAudit_def split: option.splits)

lemmas audit_defs = audit_opt_def auditStructuredApproval_def auditUserApproval_def

lemma addPrincipalPolicies_heap:
  "heap (addPrincipalPolicies env ps rt r) = (heap rt)[r := (prin rt r)\<lparr>policies := addPolicies env (policies (prin rt r)) ps,
     policyRevision := Suc (policyRevision (prin rt r))\<rparr>]"
  by (simp add: addPrincipalPolicies_def Let_def frame_simps)

lemma addPrincipalPolicies_frame [frame_simps]:
  "principals (addPrincipalPolicies env ps rt r) = principals rt"
  "rootAgentIdentifier (addPrincipalPolicies env ps rt r) = rootAgentIdentifier rt"
  "rootFallbackPolicies (addPrincipalPolicies env ps rt r) = rootFallbackPolicies rt"
  "onceHeap (addPrincipalPolicies env ps rt r) = onceHeap rt"
  "database (addPrincipalPolicies env ps rt r) = database rt"
  "closing (addPrincipalPolicies env ps rt r) = closing rt"
  "defaultResponses (addPrincipalPolicies env ps rt r) = defaultResponses rt"
  "fallbackRevisions (addPrincipalPolicies env ps rt r) = fallbackRevisions rt"
  "nativeFilesystemPolicyBases (addPrincipalPolicies env ps rt r) = nativeFilesystemPolicyBases rt"
  by (simp_all add: addPrincipalPolicies_def Let_def frame_simps)

lemma add_once_frame [frame_simps]:
  "heap (add_once env ps k rt) = heap rt" "principals (add_once env ps k rt) = principals rt"
  "rootAgentIdentifier (add_once env ps k rt) = rootAgentIdentifier rt"
  "rootFallbackPolicies (add_once env ps k rt) = rootFallbackPolicies rt"
  "database (add_once env ps k rt) = database rt"
  "closing (add_once env ps k rt) = closing rt" "defaultResponses (add_once env ps k rt) = defaultResponses rt"
  "fallbackRevisions (add_once env ps k rt) = fallbackRevisions rt" "baseHeap (add_once env ps k rt) = baseHeap rt"
  "nativeFilesystemPolicyBases (add_once env ps k rt) = nativeFilesystemPolicyBases rt"
  by (simp_all add: add_once_def)

lemma addPrincipalPolicies_same_tree: "same_tree rt (addPrincipalPolicies env ps rt r)"
  by (simp add: same_tree_def addPrincipalPolicies_heap frame_simps tree_node_update tree_node_def prin_def)

lemma foldl_addPrincipalPolicies_same_tree: "same_tree rt (foldl (addPrincipalPolicies env ps) rt rs)"
  by (induction rs arbitrary: rt) (auto intro: same_tree_trans addPrincipalPolicies_same_tree)

section \<open>Registration and removal\<close>

lemma tree_okD: "tree_ok ps root ts \<Longrightarrow> map_of ps ident = Some r \<Longrightarrow> node_ok ps root ts ident r"
  by (simp add: tree_ok_def)

lemma tree_ok_inj:
  "tree_ok ps root ts \<Longrightarrow> map_of ps a = Some r \<Longrightarrow> map_of ps b = Some r \<Longrightarrow> a = b"
  using tree_okD [of ps root ts a r] tree_okD [of ps root ts b r] by (simp add: node_ok_def)

lemma tree_ok_register:
  assumes ok: "tree_ok ps root ts" and new: "map_of ps ident = None" and ne: "ident \<noteq> []"
    and par: "map_of ps pid = Some q"
  shows "tree_ok (od_set ident (length ts) ps) root
    ((ts @ [(ident, Some pid, [])])[q := (fst (ts ! q), fst (snd (ts ! q)), List.insert ident (snd (snd (ts ! q))))])"
    (is "tree_ok ?ps root ?ts")
proof -
  have q: "q < length ts" "fst (ts ! q) = pid" "pid \<noteq> []"
    using tree_okD [OF ok par] by (auto simp: node_ok_def)
  have len: "length ?ts = Suc (length ts)" by simp
  have root: "root \<noteq> ident" using ok new by (auto simp: tree_ok_def)
  have old: "?ts ! r = (if r = q then (fst (ts ! q), fst (snd (ts ! q)), List.insert ident (snd (snd (ts ! q)))) else ts ! r)"
    if "r < length ts" for r using that q by (simp add: nth_append nth_list_update)
  have newest: "?ts ! length ts = (ident, Some pid, [])" using q by (simp add: nth_append nth_list_update)
  have keep: "node_ok ?ps root ?ts i r" if i: "map_of ps i = Some r" for i r
  proof -
    have n: "node_ok ps root ts i r" by (rule tree_okD [OF ok i])
    have r: "r < length ts" using n by (simp add: node_ok_def)
    have lk: "map_of ?ps x = Some y" "x \<noteq> ident" if "map_of ps x = Some y" for x y using that new by auto
    have kids: "\<forall>c \<in> set (snd (snd (?ts ! r))). c \<noteq> root \<and> (\<exists>s. map_of ?ps c = Some s \<and> fst (snd (?ts ! s)) = Some i)"
    proof
      fix c assume c: "c \<in> set (snd (snd (?ts ! r)))"
      show "c \<noteq> root \<and> (\<exists>s. map_of ?ps c = Some s \<and> fst (snd (?ts ! s)) = Some i)"
      proof (cases "c = ident")
        case True
        have "r = q"
        proof (rule ccontr)
          assume "r \<noteq> q"
          with c old [OF r] True n new show False by (auto simp: node_ok_def)
        qed
        then have "i = pid" using n q by (simp add: node_ok_def)
        with True newest root show ?thesis by auto
      next
        case False
        with c old [OF r] have "c \<in> set (snd (snd (ts ! r)))" by (auto split: if_splits)
        then obtain s where s: "c \<noteq> root" "map_of ps c = Some s" "fst (snd (ts ! s)) = Some i"
          using n by (auto simp: node_ok_def)
        moreover have "s < length ts" using tree_okD [OF ok s(2)] by (simp add: node_ok_def)
        ultimately show ?thesis using lk [OF s(2)] old [of s] by auto
      qed
    qed
    have up: "if i = root then fst (snd (?ts ! r)) = None
      else \<exists>pd p. fst (snd (?ts ! r)) = Some pd \<and> map_of ?ps pd = Some p \<and> p < r \<and> i \<in> set (snd (snd (?ts ! p)))"
    proof (cases "i = root")
      case True
      with n old [OF r] show ?thesis by (auto simp: node_ok_def)
    next
      case False
      with n obtain pd p where p: "fst (snd (ts ! r)) = Some pd" "map_of ps pd = Some p" "p < r" "i \<in> set (snd (snd (ts ! p)))"
        by (auto simp: node_ok_def)
      with r have pl: "p < length ts" by simp
      have "fst (snd (?ts ! r)) = Some pd" unfolding old [OF r] using p(1) by auto
      moreover have "i \<in> set (snd (snd (?ts ! p)))" unfolding old [OF pl] using p(4) by auto
      ultimately show ?thesis using False p(3) lk(1) [OF p(2)] by metis
    qed
    have "r < length ?ts" "fst (?ts ! r) = i" "distinct (snd (snd (?ts ! r)))" "i \<noteq> []"
      using n r unfolding old [OF r] by (auto simp: node_ok_def)
    with kids up show ?thesis unfolding node_ok_def by blast
  qed
  have fresh: "node_ok ?ps root ?ts ident (length ts)"
    using newest root ne q par old [of q] new by (auto simp: node_ok_def)
  have "map_of ?ps root \<noteq> None" using ok by (auto simp: tree_ok_def)
  with ok keep fresh show ?thesis unfolding tree_ok_def by (auto split: if_splits)
qed

lemma tree_ok_remove:
  assumes ok: "tree_ok ps root ts" and r: "map_of ps ident = Some r" and leaf: "snd (snd (ts ! r)) = []"
    and nr: "ident \<noteq> root" and par: "fst (snd (ts ! r)) = Some pid" "map_of ps pid = Some q"
  shows "tree_ok (od_delete ident ps) root
    (ts[q := (fst (ts ! q), fst (snd (ts ! q)), filter (\<lambda>c. c \<noteq> ident) (snd (snd (ts ! q))))])"
    (is "tree_ok ?ps root ?ts")
proof -
  have q: "q < length ts" "fst (ts ! q) = pid" using tree_okD [OF ok par(2)] by (auto simp: node_ok_def)
  have nth: "?ts ! i = (if i = q then (fst (ts ! q), fst (snd (ts ! q)), filter (\<lambda>c. c \<noteq> ident) (snd (snd (ts ! q)))) else ts ! i)" for i
    using q by (simp add: nth_list_update)
  have keep: "node_ok ?ps root ?ts i s" if "map_of ?ps i = Some s" for i s
  proof -
    from that have i: "map_of ps i = Some s" "i \<noteq> ident" by (auto split: if_splits)
    have n: "node_ok ps root ts i s" by (rule tree_okD [OF ok i(1)])
    have up: "if i = root then fst (snd (?ts ! s)) = None
      else \<exists>pd p. fst (snd (?ts ! s)) = Some pd \<and> map_of ?ps pd = Some p \<and> p < s \<and> i \<in> set (snd (snd (?ts ! p)))"
    proof (cases "i = root")
      case True
      with n nth show ?thesis by (auto simp: node_ok_def)
    next
      case False
      with n obtain pd p where p: "fst (snd (ts ! s)) = Some pd" "map_of ps pd = Some p" "p < s" "i \<in> set (snd (snd (ts ! p)))"
        by (auto simp: node_ok_def)
      have "pd \<noteq> ident" using p leaf r by auto
      with p i False nth show ?thesis by auto
    qed
    have kids: "\<forall>c \<in> set (snd (snd (?ts ! s))). c \<noteq> root \<and> (\<exists>t. map_of ?ps c = Some t \<and> fst (snd (?ts ! t)) = Some i)"
    proof
      fix c assume c: "c \<in> set (snd (snd (?ts ! s)))"
      then have c': "c \<in> set (snd (snd (ts ! s)))" using nth [of s] by (auto split: if_splits)
      then obtain t where t: "c \<noteq> root" "map_of ps c = Some t" "fst (snd (ts ! t)) = Some i"
        using n by (auto simp: node_ok_def)
      have "c \<noteq> ident"
      proof
        assume "c = ident"
        with t r par have "i = pid" by simp
        then have "s = q" using i par by simp
        with c \<open>c = ident\<close> nth show False by auto
      qed
      with t nth show "c \<noteq> root \<and> (\<exists>t. map_of ?ps c = Some t \<and> fst (snd (?ts ! t)) = Some i)" by auto
    qed
    have "s < length ?ts" "fst (?ts ! s) = i" "distinct (snd (snd (?ts ! s)))" "i \<noteq> []"
      using n unfolding nth [of s] by (auto simp: node_ok_def)
    with up kids show ?thesis unfolding node_ok_def by blast
  qed
  have "map_of ?ps root \<noteq> None" using ok nr by (auto simp: tree_ok_def)
  with ok keep show ?thesis unfolding tree_ok_def by auto
qed

lemma heap_nth_tree: "r < length (heap rt) \<Longrightarrow> map tree_node (heap rt) ! r = tree_node (prin rt r)"
  by (simp add: prin_def)

lemma tree_wf_live:
  assumes "tree_wf rt" "map_of (principals rt) ident = Some r"
  shows "r < length (heap rt) \<and> ident \<noteq> [] \<and> agentIdentifier (prin rt r) = ident
    \<and> (ident = rootAgentIdentifier rt \<longrightarrow> parentAgentIdentifier (prin rt r) = None)
    \<and> (ident \<noteq> rootAgentIdentifier rt \<longrightarrow> (\<exists>pid q. parentAgentIdentifier (prin rt r) = Some pid
         \<and> map_of (principals rt) pid = Some q \<and> q < r \<and> ident \<in> set (children (prin rt q))))"
proof -
  have n: "node_ok (principals rt) (rootAgentIdentifier rt) (map tree_node (heap rt)) ident r"
    using assms unfolding tree_wf_def by (rule tree_okD)
  then have r: "r < length (heap rt)" by (simp add: node_ok_def)
  then have "q < r \<Longrightarrow> map tree_node (heap rt) ! q = tree_node (prin rt q)" for q by (simp add: prin_def)
  with n r heap_nth_tree [OF r] show ?thesis
    by (auto simp: node_ok_def tree_node_def)
qed

lemma tree_wf_root:
  assumes "tree_wf rt"
  obtains q where "requirePrincipal rt (rootAgentIdentifier rt) = Inr q" "map_of (principals rt) (rootAgentIdentifier rt) = Some q"
    "q < length (heap rt)"
  using assms tree_wf_live [OF assms, of "rootAgentIdentifier rt"]
  by (auto simp: tree_wf_def tree_ok_def requirePrincipal_def)

lemma registerPolicyPrincipal_tree:
  assumes wf: "tree_wf rt" and ne: "ident \<noteq> []" and reg: "registerPolicyPrincipal env ident pid areas ctx rt = Inr rt'"
  shows "tree_wf rt'"
proof -
  from reg obtain q where new: "map_of (principals rt) ident = None" and q: "map_of (principals rt) pid = Some q"
    by (auto simp: registerPolicyPrincipal_def requirePrincipal_def split: if_splits option.splits)
  have ql: "q < length (heap rt)" using tree_wf_live [OF wf q] by simp
  have rt': "principals rt' = od_set ident (length (heap rt)) (principals rt)"
    "rootAgentIdentifier rt' = rootAgentIdentifier rt"
    "map tree_node (heap rt') = (map tree_node (heap rt) @ [(ident, Some pid, [])])
      [q := (agentIdentifier (prin rt q), parentAgentIdentifier (prin rt q), List.insert ident (children (prin rt q)))]"
    using reg new q ql
    by (auto simp: registerPolicyPrincipal_def requirePrincipal_def createNativeFilesystemPolicyBase_def Let_def
        map_update tree_node_def prin_def nth_append)
  show ?thesis
    using tree_ok_register [OF wf [unfolded tree_wf_def] new ne q] rt' ql
    by (simp add: tree_wf_def tree_node_def prin_def)
qed

lemma removePolicyPrincipal_shape:
  assumes wf: "tree_wf rt" and rem: "removePolicyPrincipal ident rt = Inr rt'"
  obtains r pid q where "map_of (principals rt) ident = Some r" "ident \<noteq> rootAgentIdentifier rt"
    "children (prin rt r) = []" "parentAgentIdentifier (prin rt r) = Some pid" "map_of (principals rt) pid = Some q"
    "q < length (heap rt)"
    "heap rt' = (heap rt)[q := (prin rt q)\<lparr>children := filter (\<lambda>c. c \<noteq> ident) (children (prin rt q))\<rparr>]"
    "principals rt' = od_delete ident (principals rt)" "rootAgentIdentifier rt' = rootAgentIdentifier rt"
    "rootFallbackPolicies rt' = rootFallbackPolicies rt" "onceHeap rt' = onceHeap rt" "database rt' = database rt"
    "closing rt' = closing rt" "defaultResponses rt' = defaultResponses rt"
    "nativeFilesystemPolicyBases rt' = od_delete ident (nativeFilesystemPolicyBases rt)"
proof -
  from rem obtain r where r: "map_of (principals rt) ident = Some r" "ident \<noteq> rootAgentIdentifier rt" "children (prin rt r) = []"
    by (auto simp: removePolicyPrincipal_def requirePrincipal_def Let_def split: option.splits if_splits)
  from tree_wf_live [OF wf r(1)] r(2) obtain pid q where
    p: "parentAgentIdentifier (prin rt r) = Some pid" "map_of (principals rt) pid = Some q" by auto
  then have q: "q < length (heap rt)" "pid \<noteq> []" using tree_wf_live [OF wf p(2)] by auto
  define vs where "vs = filter (\<lambda>v. view_agent rt v = ident) (nativeFilesystemViews rt)"
  define rt1 where "rt1 = fold view_close vs rt"
  define rt2 where "rt2 = (case map_of (nativeFilesystemPolicyBases rt1) ident of None \<Rightarrow> rt1 | Some b \<Rightarrow> base_close b rt1)"
  have f1: "heap rt1 = heap rt" "principals rt1 = principals rt" "rootAgentIdentifier rt1 = rootAgentIdentifier rt"
    "rootFallbackPolicies rt1 = rootFallbackPolicies rt" "onceHeap rt1 = onceHeap rt" "database rt1 = database rt"
    "closing rt1 = closing rt" "defaultResponses rt1 = defaultResponses rt"
    "nativeFilesystemPolicyBases rt1 = nativeFilesystemPolicyBases rt"
    unfolding rt1_def by (simp_all add: fold_frame frame_simps)
  then have f2: "heap rt2 = heap rt" "principals rt2 = principals rt" "rootAgentIdentifier rt2 = rootAgentIdentifier rt"
    "rootFallbackPolicies rt2 = rootFallbackPolicies rt" "onceHeap rt2 = onceHeap rt" "database rt2 = database rt"
    "closing rt2 = closing rt" "defaultResponses rt2 = defaultResponses rt"
    "nativeFilesystemPolicyBases rt2 = nativeFilesystemPolicyBases rt"
    unfolding rt2_def by (simp_all add: frame_simps split: option.splits)
  have pf: "parent_of (prin rt r) = Some pid" using p q by (simp add: parent_of_def)
  have eq: "rt' = rt2\<lparr>nativeFilesystemPolicyBases := od_delete ident (nativeFilesystemPolicyBases rt2),
      heap := (heap rt)[q := (prin rt q)\<lparr>children := filter (\<lambda>c. c \<noteq> ident) (children (prin rt q))\<rparr>],
      principals := od_delete ident (principals rt)\<rparr>"
    using rem r p pf f2 unfolding removePolicyPrincipal_def requirePrincipal_def
    by (simp add: Let_def remove_child_def requirePrincipal_def vs_def [symmetric] rt1_def [symmetric]
        rt2_def [symmetric] prin_def)
  show thesis
    by (rule that [OF r p q(1)]) (simp_all add: eq f2)
qed

lemma removePolicyPrincipal_tree:
  assumes wf: "tree_wf rt" and rem: "removePolicyPrincipal ident rt = Inr rt'"
  shows "tree_wf rt'"
proof -
  obtain r pid q where s: "map_of (principals rt) ident = Some r" "ident \<noteq> rootAgentIdentifier rt"
    "children (prin rt r) = []" "parentAgentIdentifier (prin rt r) = Some pid" "map_of (principals rt) pid = Some q"
    "q < length (heap rt)"
    "heap rt' = (heap rt)[q := (prin rt q)\<lparr>children := filter (\<lambda>c. c \<noteq> ident) (children (prin rt q))\<rparr>]"
    "principals rt' = od_delete ident (principals rt)" "rootAgentIdentifier rt' = rootAgentIdentifier rt"
    using removePolicyPrincipal_shape [OF wf rem] by metis
  have r: "r < length (heap rt)" using tree_wf_live [OF wf s(1)] by simp
  have nq: "map tree_node (heap rt) ! q = (agentIdentifier (prin rt q), parentAgentIdentifier (prin rt q), children (prin rt q))"
    "map tree_node (heap rt) ! r = (agentIdentifier (prin rt r), parentAgentIdentifier (prin rt r), children (prin rt r))"
    using r s(6) by (simp_all add: tree_node_def prin_def)
  have "tree_ok (od_delete ident (principals rt)) (rootAgentIdentifier rt)
      ((map tree_node (heap rt))[q := (agentIdentifier (prin rt q), parentAgentIdentifier (prin rt q),
         filter (\<lambda>c. c \<noteq> ident) (children (prin rt q)))])"
    using tree_ok_remove [OF wf [unfolded tree_wf_def] s(1) _ s(2) _ s(5)] s(3,4) nq by simp
  then show ?thesis using s(7-9) by (simp add: tree_wf_def map_update tree_node_def)
qed

section \<open>The walk to the root\<close>

definition live :: "PolicyRuntime \<Rightarrow> nat \<Rightarrow> bool" where
  "live rt r \<longleftrightarrow> r < length (heap rt) \<and> map_of (principals rt) (agentIdentifier (prin rt r)) = Some r"

lemma tree_wf_liveI: "tree_wf rt \<Longrightarrow> map_of (principals rt) ident = Some r \<Longrightarrow> live rt r"
  using tree_wf_live [of rt ident r] by (simp add: live_def)

text \<open>A path of a runtime: it starts at the requester and ends at the root along active links.\<close>

definition root_path :: "PolicyRuntime \<Rightarrow> nat \<Rightarrow> nat list \<Rightarrow> bool" where
  "root_path rt r path \<longleftrightarrow> path \<noteq> [] \<and> hd path = r \<and> list_all (live rt) path \<and> isActivePrincipalPath rt path
     \<and> agentIdentifier (prin rt (last path)) = rootAgentIdentifier rt"

lemma pathToRoot_loop_live:
  "tree_wf rt \<Longrightarrow> live rt r \<Longrightarrow> r < n \<Longrightarrow> \<exists>path. pathToRoot_loop n rt r = Inr path \<and> root_path rt r path"
proof (induction n arbitrary: r)
  case (Suc n)
  have r: "map_of (principals rt) (agentIdentifier (prin rt r)) = Some r" "r < length (heap rt)"
    using Suc.prems(2) by (auto simp: live_def)
  note t = tree_wf_live [OF Suc.prems(1) r(1)]
  show ?case
  proof (cases "agentIdentifier (prin rt r) = rootAgentIdentifier rt")
    case True
    then have "pathToRoot_loop (Suc n) rt r = Inr [r]" using t by (simp add: parent_of_def)
    then show ?thesis using True r Suc.prems(2) by (simp add: root_path_def)
  next
    case False
    with t obtain pid q where p: "parentAgentIdentifier (prin rt r) = Some pid" "map_of (principals rt) pid = Some q" "q < r"
      by auto
    have q: "live rt q" "pid \<noteq> []" "agentIdentifier (prin rt q) = pid"
      using tree_wf_live [OF Suc.prems(1) p(2)] tree_wf_liveI [OF Suc.prems(1) p(2)] by auto
    obtain path where path: "pathToRoot_loop n rt q = Inr path" "root_path rt q path"
      using Suc.IH [OF Suc.prems(1) q(1)] p(3) Suc.prems(3) by auto
    have "pathToRoot_loop (Suc n) rt r = Inr (r # path)"
      using p q path by (simp add: parent_of_def requirePrincipal_def)
    moreover have "root_path rt r (r # path)"
      using path(2) p(1) q Suc.prems(2) r by (cases path) (auto simp: root_path_def)
    ultimately show ?thesis by blast
  qed
qed simp

text \<open>A removed principal that a pending request still holds: the walk goes through the registered
  parent of that name, or fails because there is none; it never runs out of fuel.\<close>

lemma pathToRoot_cases:
  assumes "tree_wf rt"
  shows "(\<exists>path. pathToRoot rt r = Inr (r # path)) \<or> (\<exists>pid. pathToRoot rt r = Inl (''No agent registered with this identifier: '' @ pid))"
proof (cases "parent_of (prin rt r)")
  case (Some pid)
  show ?thesis
  proof (cases "map_of (principals rt) pid")
    case (Some q)
    then have q: "live rt q" "q < length (heap rt) + 1"
      using tree_wf_liveI [OF assms Some] by (auto simp: live_def)
    from pathToRoot_loop_live [OF assms q] obtain path where "pathToRoot_loop (length (heap rt) + 1) rt q = Inr path" by blast
    then show ?thesis using \<open>parent_of (prin rt r) = Some pid\<close> Some by (simp add: pathToRoot_def requirePrincipal_def)
  qed (use Some in \<open>simp add: pathToRoot_def requirePrincipal_def\<close>)
qed (simp add: pathToRoot_def)

lemma pathToRoot_live:
  assumes "tree_wf rt" "live rt r"
  shows "\<exists>path. pathToRoot rt r = Inr path \<and> root_path rt r path"
  using pathToRoot_loop_live [OF assms, of "length (heap rt) + 2"] assms(2)
  by (simp add: pathToRoot_def live_def)

section \<open>The nearest ancestor with an opinion\<close>

fun nearest_opinion :: "fs_env \<Rightarrow> PolicyRuntime \<Rightarrow> string \<Rightarrow> PolicyAccessType \<Rightarrow> nat list \<Rightarrow> nat list \<Rightarrow> AncestorResolution" where
  "nearest_opinion env rt uri at before [] = User"
| "nearest_opinion env rt uri at before (q # qs) = (case evaluatePrincipalAuthority env rt q uri at of
       None \<Rightarrow> nearest_opinion env rt uri at (before @ [q]) qs
     | Some a \<Rightarrow> (case matchedStatus a of
         DENIED \<Rightarrow> Denied a
       | ALLOWED \<Rightarrow> Authority \<lparr>auth_snapshot = principalPathSnapshot rt (before @ [q]), authorityPrincipal = q,
           auth_result = a, auth_fallback = (if resolutionSource a = SYSTEM then Some (fallbackSnapshot rt at) else None)\<rparr>))"

lemma pathToRoot_loop_hd: "pathToRoot_loop n rt r = Inr path \<Longrightarrow> \<exists>anc. path = r # anc"
proof (cases n)
  case (Suc m)
  assume "pathToRoot_loop n rt r = Inr path"
  then show ?thesis using Suc
    by (cases "parent_of (prin rt r)"; cases "pathToRoot_loop m rt (case requirePrincipal rt (the (parent_of (prin rt r))) of Inr q \<Rightarrow> q)")
      (auto simp: requirePrincipal_def split: option.splits)
qed simp

lemma resolveAncestor_loop_nearest:
  "pathToRoot_loop n rt current = Inr (current # anc) \<Longrightarrow>
   resolveAncestor_loop n env rt uri at path current = Inr (nearest_opinion env rt uri at path anc)"
proof (induction n arbitrary: current anc path)
  case (Suc n)
  show ?case
  proof (cases "parent_of (prin rt current)")
    case None
    with Suc.prems show ?thesis by simp
  next
    case (Some pid)
    then obtain q where q: "requirePrincipal rt pid = Inr q" using Suc.prems by (cases "requirePrincipal rt pid") auto
    with Some Suc.prems have "pathToRoot_loop n rt q = Inr anc" by (cases "pathToRoot_loop n rt q") auto
    with pathToRoot_loop_hd [OF this] obtain rest where rest: "anc = q # rest" "pathToRoot_loop n rt q = Inr (q # rest)" by auto
    from Suc.IH [OF rest(2)] Some q rest(1) show ?thesis
      by (auto split: option.splits PolicyResponse.splits)
  qed
qed simp

lemma resolveAncestorAuthority_nearest:
  assumes "pathToRoot rt r = Inr (r # anc)"
  shows "resolveAncestorAuthority env rt r uri at = Inr (nearest_opinion env rt uri at [r] anc)"
  unfolding resolveAncestorAuthority_def
  using assms unfolding pathToRoot_def by (rule resolveAncestor_loop_nearest)

lemma nearest_opinion_find:
  "nearest_opinion env rt uri at before anc =
    (case find (\<lambda>q. evaluatePrincipalAuthority env rt q uri at \<noteq> None) anc of
       None \<Rightarrow> User
     | Some q \<Rightarrow> (let a = the (evaluatePrincipalAuthority env rt q uri at) in
         if matchedStatus a = DENIED then Denied a
         else Authority \<lparr>auth_snapshot = principalPathSnapshot rt
                (before @ takeWhile (\<lambda>q. evaluatePrincipalAuthority env rt q uri at = None) anc @ [q]),
              authorityPrincipal = q, auth_result = a,
              auth_fallback = (if resolutionSource a = SYSTEM then Some (fallbackSnapshot rt at) else None)\<rparr>))"
  by (induction anc arbitrary: before) (auto simp: Let_def split: option.splits PolicyResponse.splits)

end
