(* ===== verification/Runtime_Invariant.thy ===== *)
theory Runtime_Invariant
  imports Runtime_Tree
begin

text \<open>
  The invariant of the runtime and its steps.  Every operation of the runtime is a step; between
  the begin and the completion of a request any other steps may happen, and a completion may
  even be called with any snapshot.  The invariant holds in every reachable state: the
  principals form a tree below the root, every engine and the database are well formed, and the
  rules of every principal but the root live no longer than the session.
\<close>

section \<open>The invariant\<close>

definition session_policy :: "Policy \<Rightarrow> bool" where
  "session_policy p \<longleftrightarrow> list_all (\<lambda>(_, st). lifetime st = SESSION) (info p)"

definition engines_wf :: "PolicyRuntime \<Rightarrow> bool" where
  "engines_wf rt \<longleftrightarrow> list_all (\<lambda>p. engine_wf (policies p)) (heap rt) \<and> engine_wf (rootFallbackPolicies rt)
     \<and> list_all engine_wf (onceHeap rt) \<and> dao_wf (database rt)"

definition session_wf :: "PolicyRuntime \<Rightarrow> bool" where
  "session_wf rt \<longleftrightarrow> list_all (\<lambda>p. agentIdentifier p = rootAgentIdentifier rt \<or> list_all session_policy (policies p)) (heap rt)"

definition rt_wf :: "PolicyRuntime \<Rightarrow> bool" where
  "rt_wf rt \<longleftrightarrow> tree_wf rt \<and> engines_wf rt \<and> session_wf rt"

text \<open>What decides evaluations: the part of the state that logging and native views leave alone.\<close>

definition same_core :: "PolicyRuntime \<Rightarrow> PolicyRuntime \<Rightarrow> bool" where
  "same_core rt rt' \<longleftrightarrow> heap rt' = heap rt \<and> principals rt' = principals rt
     \<and> rootAgentIdentifier rt' = rootAgentIdentifier rt \<and> rootFallbackPolicies rt' = rootFallbackPolicies rt
     \<and> onceHeap rt' = onceHeap rt \<and> database rt' = database rt \<and> defaultResponses rt' = defaultResponses rt
     \<and> fallbackRevisions rt' = fallbackRevisions rt"

lemma same_core_refl [simp]: "same_core rt rt"
  by (simp add: same_core_def)

lemma same_core_wf: "same_core rt rt' \<Longrightarrow> rt_wf rt \<Longrightarrow> rt_wf rt'"
  by (simp add: same_core_def rt_wf_def tree_wf_def engines_wf_def session_wf_def)

lemma same_core_audit: "same_core rt (audit_opt now q c r oc rt)" "same_core rt (auditUserApproval now ctx uri at c r oc rt)"
  by (simp_all add: same_core_def audit_defs frame_simps split: option.splits)

lemma same_core_fold: "(\<And>x s. same_core s (f x s)) \<Longrightarrow> same_core s (fold f xs s)"
  unfolding same_core_def by (induction xs arbitrary: s) auto

section \<open>Policies that engines accept\<close>

lemma session_update_first:
  "list_all session_policy eng \<Longrightarrow> (\<And>p. session_policy p \<Longrightarrow> session_policy (f p)) \<Longrightarrow> list_all session_policy (update_first pat f eng)"
  by (induction eng) auto

lemma session_merge:
  "list_all (\<lambda>(_, st). lifetime st = SESSION) d \<Longrightarrow> list_all (\<lambda>(_, st). lifetime st = SESSION) xs \<Longrightarrow>
   list_all (\<lambda>(_, st). lifetime st = SESSION) (merge_info d xs)"
  unfolding merge_info_def
proof (induction xs arbitrary: d)
  case (Cons x xs)
  have "list_all (\<lambda>(_, st). lifetime st = SESSION) (od_set (accessType (snd x)) (snd x) d)"
    using Cons.prems set_od_set_subset [of "accessType (snd x)" "snd x" d] by (cases x) (fastforce simp: list_all_iff)
  with Cons show ?case by (cases x) auto
qed simp

lemma session_standardize [simp]: "session_policy (standardizePolicy env p) = session_policy p"
  by (simp add: session_policy_def)

lemma session_addPolicies:
  "list_all session_policy eng \<Longrightarrow> list_all session_policy ps \<Longrightarrow> list_all session_policy (addPolicies env eng ps)"
  unfolding addPolicies_def
proof (induction ps arbitrary: eng)
  case (Cons p ps)
  have "list_all session_policy (addPolicy env eng p)"
    using Cons.prems unfolding addPolicy_def Let_def
    by (auto simp: session_policy_def [abs_def] split: option.splits intro!: session_update_first [unfolded session_policy_def] session_merge)
  with Cons show ?case by simp
qed simp

lemma info_wf_policyFromChoice [simp]: "info_wf (info (policyFromChoice c))"
  by (simp add: policyFromChoice_def info_wf_def od_keys_distinct_def createStatus_def)

lemma info_wf_session: "info_wf d \<Longrightarrow> info_wf (map (\<lambda>(at, st). (at, st\<lparr>lifetime := SESSION\<rparr>)) d)"
  by (auto simp: info_wf_def od_keys_distinct_def comp_def case_prod_unfold)

lemma info_wf_sessionPolicy: "info_wf (info p) \<Longrightarrow> info_wf (info (sessionPolicy p))"
  by (simp add: sessionPolicy_def info_wf_session)

lemma session_sessionPolicy [simp]: "session_policy (sessionPolicy p)"
  by (auto simp: session_policy_def sessionPolicy_def list_all_iff)

lemma session_policyFromChoice: "choice_lifetime c = SESSION \<Longrightarrow> session_policy (policyFromChoice c)"
  by (simp add: session_policy_def policyFromChoice_def createStatus_def)

lemma engine_wf_Nil [simp]: "engine_wf []"
  by (simp add: engine_wf_def)

lemma addPolicies_wf: "engine_wf eng \<Longrightarrow> list_all (\<lambda>p. info_wf (info p)) ps \<Longrightarrow> engine_wf (addPolicies env eng ps)"
  by (simp add: engine_wf_addPolicies list_all_iff)

lemma list_all_update: "list_all P xs \<Longrightarrow> (r < length xs \<Longrightarrow> P y) \<Longrightarrow> list_all P (xs[r := y])"
proof (cases "r < length xs")
  case True
  assume "list_all P xs" "r < length xs \<Longrightarrow> P y"
  with True show ?thesis using set_update_subset_insert [of xs r y] by (auto simp: list_all_iff)
qed (simp add: not_less list_update_beyond)

lemma list_all_nth: "list_all P xs \<Longrightarrow> r < length xs \<Longrightarrow> P (xs ! r)"
  by (simp add: list_all_length)

section \<open>Changes of policies\<close>

lemma addPrincipalPolicies_wf:
  assumes wf: "rt_wf rt" and ps: "list_all (\<lambda>p. info_wf (info p)) ps"
    and s: "agentIdentifier (prin rt r) = rootAgentIdentifier rt \<or> list_all session_policy ps"
  shows "rt_wf (addPrincipalPolicies env ps rt r)"
proof -
  have "tree_wf (addPrincipalPolicies env ps rt r)"
    using wf same_tree_wf [OF addPrincipalPolicies_same_tree, of rt] by (simp add: rt_wf_def)
  moreover have "engines_wf (addPrincipalPolicies env ps rt r)"
    using wf ps unfolding rt_wf_def engines_wf_def
    by (auto simp: addPrincipalPolicies_heap frame_simps prin_def intro!: list_all_update addPolicies_wf dest: list_all_nth)
  moreover have "session_wf (addPrincipalPolicies env ps rt r)"
    using wf s unfolding rt_wf_def session_wf_def
    by (auto simp: addPrincipalPolicies_heap frame_simps prin_def intro!: list_all_update session_addPolicies dest: list_all_nth)
  ultimately show ?thesis by (simp add: rt_wf_def)
qed

lemma foldl_addPrincipalPolicies_wf:
  "rt_wf rt \<Longrightarrow> list_all (\<lambda>p. info_wf (info p)) ps \<Longrightarrow> list_all session_policy ps \<Longrightarrow>
   rt_wf (foldl (addPrincipalPolicies env ps) rt rs)"
  by (induction rs arbitrary: rt) (auto simp: addPrincipalPolicies_wf)

lemma add_once_wf: "rt_wf rt \<Longrightarrow> list_all (\<lambda>p. info_wf (info p)) ps \<Longrightarrow> rt_wf (add_once env ps k rt)"
  unfolding rt_wf_def tree_wf_def engines_wf_def session_wf_def add_once_def
  by (auto simp: once_engine_def intro!: list_all_update addPolicies_wf dest: list_all_nth)

lemma install_decision_wf: "rt_wf rt \<Longrightarrow> rt_wf (install_decision env c rs k rt)"
  by (simp add: install_decision_def add_once_wf foldl_addPrincipalPolicies_wf session_policyFromChoice)

section \<open>Defaults\<close>

lemma setFallback_cases:
  assumes "tree_wf rt"
  shows "\<exists>rt'. setFallback env area response rt = Inr rt' \<and> heap rt' = heap rt \<and> principals rt' = principals rt
    \<and> rootAgentIdentifier rt' = rootAgentIdentifier rt \<and> onceHeap rt' = onceHeap rt \<and> database rt' = database rt
    \<and> defaultResponses rt' = defaultResponses rt \<and> fallbackRevisions rt' = fallbackRevisions rt \<and> closing rt' = closing rt
    \<and> rootFallbackPolicies rt' = fallback_update env area response (rootFallbackPolicies rt)"
proof -
  obtain q where q: "requirePrincipal rt (rootAgentIdentifier rt) = Inr q" using tree_wf_root [OF assms] by blast
  then have q': "requirePrincipal (rt\<lparr>rootFallbackPolicies := eng\<rparr>) (rootAgentIdentifier rt) = Inr q" for eng
    by (simp add: requirePrincipal_def)
  show ?thesis by (simp add: setFallback_def Let_def q' frame_simps)
qed

lemma info_wf_fallback: "info_wf (map (\<lambda>at. (at, createStatus at SESSION st rsn)) (policyAreaAccessTypes area))"
  by (simp add: info_wf_def od_keys_distinct_def createStatus_def comp_def)

lemma fallback_update_wf: "engine_wf eng \<Longrightarrow> engine_wf (fallback_update env area response eng)"
  by (simp add: fallback_update_def Let_def engine_wf_removePolicies addPolicies_wf info_wf_fallback split: option.splits)

lemma setFallback_wf:
  assumes "rt_wf rt" "setFallback env area response rt = Inr rt'"
  shows "rt_wf rt'"
  using setFallback_cases [of rt env area response] assms
  by (auto simp: rt_wf_def tree_wf_def engines_wf_def session_wf_def fallback_update_wf)

lemma setDefaultResponse_wf:
  assumes "rt_wf rt" "setDefaultResponse env area response rt = Inr rt'"
  shows "rt_wf rt'"
proof (cases "defaultResponses rt area = response")
  case True
  with assms show ?thesis by (simp add: setDefaultResponse_def)
next
  case False
  have "rt_wf (rt\<lparr>defaultResponses := d, fallbackRevisions := f\<rparr>)" for d f
    using assms(1) by (simp add: rt_wf_def tree_wf_def engines_wf_def session_wf_def)
  with False assms(2) show ?thesis by (auto simp: setDefaultResponse_def intro: setFallback_wf)
qed

lemma setDefaultResponses_wf: "rt_wf rt \<Longrightarrow> setDefaultResponses env d areas rt = Inr rt' \<Longrightarrow> rt_wf rt'"
proof (induction areas arbitrary: rt)
  case (Cons area areas)
  then obtain rt1 where "setDefaultResponse env area (d area) rt = Inr rt1" "setDefaultResponses env d areas rt1 = Inr rt'"
    by (cases "setDefaultResponse env area (d area) rt") auto
  with Cons show ?case using setDefaultResponse_wf by blast
qed simp

lemma setFallbacks_wf: "rt_wf rt \<Longrightarrow> setFallbacks env areas rt = Inr rt' \<Longrightarrow> rt_wf rt'"
proof (induction areas arbitrary: rt)
  case (Cons area areas)
  then obtain rt1 where "setFallback env area (defaultResponses rt area) rt = Inr rt1" "setFallbacks env areas rt1 = Inr rt'"
    by (cases "setFallback env area (defaultResponses rt area) rt") auto
  with Cons show ?case using setFallback_wf by blast
qed simp

section \<open>Construction, principals, requests\<close>

lemma initial_runtime_wf:
  assumes "ident \<noteq> []" "engine_wf ps" "dao_wf dao"
  shows "rt_wf (initial_runtime env ident ps dao loaded ctx audit)"
proof -
  have "engine_wf (new_PolicyEngine env ps)"
    unfolding new_PolicyEngine_def using assms(2) by (intro addPolicies_wf) (simp_all add: engine_wf_def list_all_iff)
  then show ?thesis
    using assms(1,3) by (auto simp: initial_runtime_def rt_wf_def tree_wf_def tree_ok_def node_ok_def tree_node_def
        engines_wf_def session_wf_def od_keys_distinct_def)
qed

lemma new_PolicyRuntime_wf:
  assumes "ident \<noteq> []" "dao_wf dao" "new_PolicyRuntime env ident dao loaded ctx audit ms = Inr rt"
  shows "rt_wf rt"
proof -
  obtain ps dao' where l: "dao_loadPolicies dao = Some (ps, dao')" "engine_wf ps" "dao_wf dao'"
    using load_table [OF assms(2)] by blast
  note init = initial_runtime_wf [OF assms(1) l(2,3), of env loaded ctx audit]
  show ?thesis
    using assms(3) l(1) setFallbacks_wf [OF init, of env defaultsOrder]
    by (cases "setFallbacks env defaultsOrder (initial_runtime env ident ps dao' loaded ctx audit)")
      (auto simp: new_PolicyRuntime_def createNativeFilesystemPolicyBase_def rt_wf_def tree_wf_def engines_wf_def session_wf_def
        split: if_splits)
qed

lemma effectivePolicies_wf:
  assumes "engines_wf rt" "r < length (heap rt)"
  shows "engine_wf (effectivePolicies env rt r)"
proof -
  have p: "engine_wf (policies (prin rt r))" "engine_wf (rootFallbackPolicies rt)"
    using assms by (auto simp: engines_wf_def prin_def list_all_length)
  have i: "engine_wf eng \<Longrightarrow> list_all (\<lambda>p. info_wf (info p)) eng" for eng by (simp add: engine_wf_def list_all_iff)
  have "engine_wf []" by (simp add: engine_wf_def)
  then show ?thesis using p i unfolding effectivePolicies_def allPolicies_def new_PolicyEngine_def
    by (auto intro!: addPolicies_wf)
qed

lemma inheritedPolicySnapshot_wf:
  assumes "engines_wf rt" "r < length (heap rt)"
  shows "list_all (\<lambda>p. info_wf (info p)) (inheritedPolicySnapshot env rt r areas)
    \<and> list_all session_policy (inheritedPolicySnapshot env rt r areas)"
  using effectivePolicies_wf [OF assms, of env]
  by (auto simp: inheritedPolicySnapshot_def Let_def list_all_iff engine_wf_def session_policy_def
      intro!: info_wf_session info_wf_filter)

lemma registerPolicyPrincipal_wf:
  assumes wf: "rt_wf rt" and ne: "ident \<noteq> []" and reg: "registerPolicyPrincipal env ident pid areas ctx rt = Inr rt'"
  shows "rt_wf rt'"
proof -
  have tree: "tree_wf rt" using wf by (simp add: rt_wf_def)
  from reg obtain q where q: "map_of (principals rt) pid = Some q"
    by (auto simp: registerPolicyPrincipal_def requirePrincipal_def split: if_splits option.splits)
  have ql: "q < length (heap rt)" using tree_wf_live [OF tree q] by simp
  note inh = inheritedPolicySnapshot_wf [OF _ ql, of env areas]
  have e: "engine_wf (new_PolicyEngine env (inheritedPolicySnapshot env rt q areas))"
    "list_all session_policy (new_PolicyEngine env (inheritedPolicySnapshot env rt q areas))"
    using inh wf unfolding new_PolicyEngine_def rt_wf_def
    by (auto intro!: addPolicies_wf session_addPolicies)
  define p0 where "p0 = \<lparr>agentIdentifier = ident, parentAgentIdentifier = Some pid, children = [],
    policies = new_PolicyEngine env (inheritedPolicySnapshot env rt q areas), policyRevision = 0,
    principal_context = normalizedPrincipalContext ctx, contextRevision = 0, approvalWaitScope = None\<rparr>"
  have p0: "heap rt' = (heap rt @ [p0])[q := (prin rt q)\<lparr>children := List.insert ident (children (prin rt q))\<rparr>]"
    "rootFallbackPolicies rt' = rootFallbackPolicies rt" "onceHeap rt' = onceHeap rt" "database rt' = database rt"
    "rootAgentIdentifier rt' = rootAgentIdentifier rt"
    "policies p0 = new_PolicyEngine env (inheritedPolicySnapshot env rt q areas)"
    using reg q ql
    by (auto simp: registerPolicyPrincipal_def requirePrincipal_def createNativeFilesystemPolicyBase_def Let_def
        prin_def nth_append p0_def split: if_splits)
  have "engines_wf rt'" "session_wf rt'"
    using wf e p0 ql unfolding rt_wf_def engines_wf_def session_wf_def
    by (auto simp: prin_def intro!: list_all_update dest: list_all_nth)
  then show ?thesis using registerPolicyPrincipal_tree [OF tree ne reg] by (simp add: rt_wf_def)
qed

lemma removePolicyPrincipal_wf:
  assumes wf: "rt_wf rt" and rem: "removePolicyPrincipal ident rt = Inr rt'"
  shows "rt_wf rt'"
proof -
  have tree: "tree_wf rt" using wf by (simp add: rt_wf_def)
  obtain q where q: "q < length (heap rt)"
    "heap rt' = (heap rt)[q := (prin rt q)\<lparr>children := filter (\<lambda>c. c \<noteq> ident) (children (prin rt q))\<rparr>]"
    "rootAgentIdentifier rt' = rootAgentIdentifier rt"
    "rootFallbackPolicies rt' = rootFallbackPolicies rt" "onceHeap rt' = onceHeap rt" "database rt' = database rt"
    using removePolicyPrincipal_shape [OF tree rem] by metis
  have "engines_wf rt'" "session_wf rt'"
    using wf q unfolding rt_wf_def engines_wf_def session_wf_def
    by (auto simp: prin_def intro!: list_all_update dest: list_all_nth)
  then show ?thesis using removePolicyPrincipal_tree [OF tree rem] by (simp add: rt_wf_def)
qed

text \<open>Changes of a principal that keep its identity and its policies.\<close>

lemma principal_update_wf:
  assumes "rt_wf rt" "policies p = policies (prin rt r)" "tree_node p = tree_node (prin rt r)"
  shows "rt_wf (rt\<lparr>heap := (heap rt)[r := p]\<rparr>)"
proof -
  have "agentIdentifier p = agentIdentifier (prin rt r)" using assms(3) by (simp add: tree_node_def)
  with assms show ?thesis unfolding rt_wf_def tree_wf_def engines_wf_def session_wf_def
    by (auto simp: tree_node_update prin_def intro!: list_all_update dest: list_all_nth)
qed

lemma ancestor_finish_wf: "rt_wf rt \<Longrightarrow> rt_wf (fst (ancestor_finish env now rt p source q e))"
  by (cases e) (auto simp: Let_def intro: same_core_wf [OF same_core_audit(1)] install_decision_wf)

lemma llm_finish_wf: "rt_wf rt \<Longrightarrow> rt_wf (fst (llm_finish env now rt p s fb q e))"
  by (cases e) (auto simp: Let_def intro: same_core_wf [OF same_core_audit(1)] install_decision_wf)

lemma agent_answer_wf: "rt_wf rt \<Longrightarrow> agent_answer env now rt p answer aborted = Some (rt', r) \<Longrightarrow> rt_wf rt'"
  using ancestor_finish_wf llm_finish_wf
  by (auto simp: agent_answer_def split: pending_kind.splits) (metis fst_conv)+

lemma evaluate_begin_same_core:
  assumes "evaluate_begin env now rid rt r uri at k tool = Inr (rt', e)"
  shows "same_core rt rt'"
proof -
  have a: "same_core rt (fst (ask_ancestor_begin env now rid rt source r u at k tool))" for source u
    by (auto simp: ask_ancestor_begin_def Let_def same_core_audit split: sum.splits)
  have l: "ask_llm_begin env now rid rt r u at k tool = Inr (x, y) \<Longrightarrow> same_core rt x" for x y u
    by (cases "pathToRoot rt r") (auto simp: ask_llm_begin_def Let_def same_core_audit split: sum.splits if_splits)
  have u: "ask_user_begin rid rt r u at k tool = Inr (x, y) \<Longrightarrow> same_core rt x" for x y u
    by (cases "pathToRoot rt r") (auto simp: ask_user_begin_def Let_def)
  show ?thesis
  proof (cases "resolveAncestorAuthority env rt r (resolveUri env at uri) at")
    case (Inr x)
    then show ?thesis using assms a l u
      by (auto simp: evaluate_begin_def Let_def split: if_splits option.splits AncestorResolution.splits PolicyFallbackResponse.splits)
        (metis fst_conv)+
  qed (use assms in \<open>auto simp: evaluate_begin_def Let_def split: if_splits option.splits\<close>)
qed

lemma engine_evaluate_source: "engine_evaluate env eng uri at = Some r \<Longrightarrow> resolutionSource r = EXISTING_USER_POLICY"
  by (auto simp: engine_evaluate_def evaluateStoredPolicies_def split: option.splits)

lemma resolved_while_pending_source:
  "resolved_while_pending env rt r k uri at = Some a \<Longrightarrow> resolutionSource a = EXISTING_USER_POLICY"
  by (auto simp: resolved_while_pending_def split: option.splits dest: engine_evaluate_source)

text \<open>What completing a user approval can do to the state.\<close>

lemma completeUserApproval_cases:
  assumes "completeUserApproval env now ms rt p s fb ctx c signal = Inr (rt', r)"
  obtains (unchanged) "same_core rt rt'" "resolutionSource r \<noteq> NEW_USER_DECISION"
  | (decided) root dao rtm where
      "requirePrincipal rt (rootAgentIdentifier rt) = Inr root"
      "\<not> closing rt" "\<not> aborted_signal signal" "isUnchangedFallback rt fb" "defaultResponses rt (fb_area fb) = Some ask_user"
      "isActivePrincipalPath rt (snap_path s)" "isUnchangedPrincipalPath rt s"
      "resolved_while_pending env rt (pend_requester p) (pend_once p) (pend_uri p) (pend_accessType p) = None"
      "isPersistedLifetime (choice_lifetime c) \<and> dao_upsertPolicies (database rt) ms [policyFromChoice c] = Some dao
          \<and> rtm = addPrincipalPolicies env [policyFromChoice c] (rt\<lparr>database := dao\<rparr>) root
       \<or> choice_lifetime c = SESSION \<and> rtm = addPrincipalPolicies env [policyFromChoice c] rt root
       \<or> choice_lifetime c = ONCE \<and> rtm = add_once env [policyFromChoice c] (pend_once p) rt"
      "same_core (foldl (addPrincipalPolicies env [sessionPolicy (policyFromChoice c)]) rtm
          (user_receivers rtm (pend_requester p) (snap_path s) c)) rt'"
proof (cases "aborted_signal signal \<or> closing rt \<or> \<not> isUnchangedFallback rt fb \<or> defaultResponses rt (fb_area fb) \<noteq> Some ask_user
    \<or> resolved_while_pending env rt (pend_requester p) (pend_once p) (pend_uri p) (pend_accessType p) \<noteq> None
    \<or> \<not> isActivePrincipalPath rt (snap_path s) \<or> \<not> isUnchangedPrincipalPath rt s")
  case True
  then have "same_core rt rt'" "resolutionSource r \<noteq> NEW_USER_DECISION" using assms
    by (auto simp: completeUserApproval_def Let_def same_core_audit failedClosedResult_def
        split: if_splits option.splits dest: resolved_while_pending_source)
  then show ?thesis by (rule unchanged)
next
  case False
  then obtain root where root: "requirePrincipal rt (rootAgentIdentifier rt) = Inr root"
    using assms by (cases "requirePrincipal rt (rootAgentIdentifier rt)") (auto simp: completeUserApproval_def Let_def)
  have cases: "isPersistedLifetime (choice_lifetime c) \<or> choice_lifetime c = SESSION \<or> choice_lifetime c = ONCE"
    by (cases "choice_lifetime c") (simp_all add: isPersistedLifetime_def)
  have excl: "isPersistedLifetime (choice_lifetime c) \<Longrightarrow> choice_lifetime c \<noteq> SESSION \<and> choice_lifetime c \<noteq> ONCE"
    by (auto simp: isPersistedLifetime_def)
  show ?thesis
  proof (cases "isPersistedLifetime (choice_lifetime c)")
    case True
    then obtain dao where dao: "dao_upsertPolicies (database rt) ms [policyFromChoice c] = Some dao"
      using assms False root
      by (cases "dao_upsertPolicies (database rt) ms [policyFromChoice c]") (auto simp: completeUserApproval_def Let_def)
    show ?thesis
      by (rule decided [OF root, where dao = dao])
        (use assms False root dao True in \<open>auto simp: completeUserApproval_def Let_def same_core_audit\<close>)
  next
    case np: False
    show ?thesis
      by (rule decided [OF root, where rtm = "if choice_lifetime c = SESSION then addPrincipalPolicies env [policyFromChoice c] rt root
          else add_once env [policyFromChoice c] (pend_once p) rt"])
        (use assms False root np cases in \<open>auto simp: completeUserApproval_def Let_def same_core_audit\<close>)
  qed
qed

lemma completeUserApproval_wf:
  assumes wf: "rt_wf rt" and c: "completeUserApproval env now ms rt p s fb ctx c signal = Inr (rt', r)"
  shows "rt_wf rt'"
  using c
proof (cases rule: completeUserApproval_cases)
  case unchanged
  from unchanged(1) wf show ?thesis by (rule same_core_wf)
next
  case (decided root dao rtm)
  have root: "agentIdentifier (prin rt root) = rootAgentIdentifier rt"
    using decided(1) wf tree_wf_live [of rt "rootAgentIdentifier rt" root]
    by (auto simp: rt_wf_def requirePrincipal_def split: option.splits)
  have dao: "rt_wf (rt\<lparr>database := dao\<rparr>)" if "dao_upsertPolicies (database rt) ms [policyFromChoice c] = Some dao"
    using that wf dao_upsertPolicies_ok [of "database rt" "[policyFromChoice c]" ms]
    by (auto simp: rt_wf_def tree_wf_def engines_wf_def session_wf_def)
  have "rt_wf rtm"
    using decided(9) wf root dao
    by (auto intro!: addPrincipalPolicies_wf add_once_wf simp: prin_def)
  then have "rt_wf (foldl (addPrincipalPolicies env [sessionPolicy (policyFromChoice c)]) rtm
          (user_receivers rtm (pend_requester p) (snap_path s) c))"
    by (intro foldl_addPrincipalPolicies_wf) (simp_all add: info_wf_sessionPolicy)
  with decided(10) show ?thesis by (rule same_core_wf)
qed

section \<open>Steps and reachable states\<close>

text \<open>Identifiers of registered principals are not empty: \<open>registerPolicyPrincipal\<close> does not check this, its only caller passes
  \<open>subagent-\<close> with a unique suffix.\<close>

inductive runtime_step :: "PolicyRuntime \<Rightarrow> PolicyRuntime \<Rightarrow> bool" where
  step_register: "ident \<noteq> [] \<Longrightarrow> registerPolicyPrincipal env ident pid areas ctx rt = Inr rt' \<Longrightarrow> runtime_step rt rt'"
| step_remove: "removePolicyPrincipal ident rt = Inr rt' \<Longrightarrow> runtime_step rt rt'"
| step_context: "updatePolicyPrincipalContext ident newRole newTask rt = Inr rt' \<Longrightarrow> runtime_step rt rt'"
| step_scope: "setPolicyApprovalWaitScope ident scope rt = Inr rt' \<Longrightarrow> runtime_step rt rt'"
| step_default: "setDefaultResponse env area response rt = Inr rt' \<Longrightarrow> runtime_step rt rt'"
| step_reset: "resetDefaultResponses env loaded rt = Inr rt' \<Longrightarrow> runtime_step rt rt'"
| step_flow: "runtime_step rt (setAgentDecisionFlow flow rt)"
| step_shutdown: "runtime_step rt (beginShutdown rt)"
| step_tool: "beginToolCall rt ident tool current = Inr (rt', tc) \<Longrightarrow> runtime_step rt rt'"
| step_native: "beginNativeFilesystemToolCall rt ident tool scope = Inr (rt', v) \<Longrightarrow> runtime_step rt rt'"
| step_evaluate: "evaluate_begin env now rid rt r uri at k tool = Inr (rt', e) \<Longrightarrow> runtime_step rt rt'"
| step_agent: "agent_answer env now rt p answer aborted = Some (rt', r) \<Longrightarrow> runtime_step rt rt'"
| step_user: "completeUserApproval env now ms rt p s fb ctx c signal = Inr (rt', r) \<Longrightarrow> runtime_step rt rt'"
| step_subscribe: "base_onSnapshotChanged b l rt = Inr rt' \<Longrightarrow> runtime_step rt rt'"
| step_view: "view_after_evaluation rt i at result = Inr (rt', out) \<Longrightarrow> runtime_step rt rt'"
| step_view_close: "runtime_step rt (view_close i rt)"

lemma same_core_shutdown: "same_core rt (beginShutdown rt)"
proof -
  have v: "same_core s (view_close x s)" and b: "same_core s (base_close x s)" for x s
    by (simp_all add: same_core_def frame_simps)
  let ?rt1 = "rt\<lparr>closing := True, agentDecisionFlow := False\<rparr>"
  have "same_core rt ?rt1" by (simp add: same_core_def)
  moreover have "same_core ?rt1 (fold view_close (nativeFilesystemViews ?rt1) ?rt1)" by (rule same_core_fold) (rule v)
  moreover have "same_core x (fold base_close xs x)" for x xs by (rule same_core_fold) (rule b)
  ultimately show ?thesis unfolding beginShutdown_def Let_def same_core_def by metis
qed

lemma runtime_step_wf: "runtime_step rt rt' \<Longrightarrow> rt_wf rt \<Longrightarrow> rt_wf rt'"
proof (induction rule: runtime_step.induct)
  case (step_context ident newRole newTask rt rt')
  then obtain r where "requirePrincipal rt ident = Inr r" by (cases "requirePrincipal rt ident") (auto simp: updatePolicyPrincipalContext_def)
  with step_context show ?case
    by (auto simp: updatePolicyPrincipalContext_def Let_def tree_node_def intro!: principal_update_wf)
next
  case (step_scope ident scope rt rt')
  then obtain r where "requirePrincipal rt ident = Inr r" by (cases "requirePrincipal rt ident") (auto simp: setPolicyApprovalWaitScope_def)
  with step_scope show ?case
    by (auto simp: setPolicyApprovalWaitScope_def tree_node_def intro!: principal_update_wf)
next
  case (step_tool rt ident tool current rt' tc)
  then show ?case
    by (cases "requirePrincipal rt ident") (auto simp: beginToolCall_def rt_wf_def tree_wf_def engines_wf_def session_wf_def)
next
  case (step_native rt ident tool scope rt' v)
  then show ?case
    by (cases "requirePrincipal rt ident")
      (auto simp: beginNativeFilesystemToolCall_def Let_def rt_wf_def tree_wf_def engines_wf_def session_wf_def split: option.splits)
next
  case (step_flow rt flow)
  then show ?case by (auto intro: same_core_wf simp: same_core_def setAgentDecisionFlow_def)
next
  case (step_subscribe b l rt rt')
  then show ?case by (auto intro: same_core_wf simp: same_core_def base_onSnapshotChanged_def Let_def split: if_splits)
next
  case (step_view rt i at result rt' out)
  then show ?case by (auto intro: same_core_wf simp: same_core_def view_after_evaluation_def Let_def split: if_splits)
next
  case (step_view_close rt i)
  then show ?case by (auto intro: same_core_wf simp: same_core_def frame_simps)
qed (auto intro: registerPolicyPrincipal_wf removePolicyPrincipal_wf setDefaultResponse_wf setDefaultResponses_wf
    same_core_wf same_core_shutdown evaluate_begin_same_core agent_answer_wf completeUserApproval_wf simp: resetDefaultResponses_def)

lemma reachable_wf: "runtime_step\<^sup>*\<^sup>* rt rt' \<Longrightarrow> rt_wf rt \<Longrightarrow> rt_wf rt'"
  by (induction rule: rtranclp_induct) (auto intro: runtime_step_wf)

end
