(* ===== verification/Runtime_Safety.thy ===== *)
theory Runtime_Safety
  imports Runtime_Invariant
begin

text \<open>
  Safety of evaluation in the policy runtime: reachable states keep the invariant, the walk to the
  root ends, an access is allowed without a question only by a stored rule, the denial of an
  ancestor is final, an answer that comes too late changes nothing, and an agent cannot grant
  more than the authority it answers with.
\<close>

section \<open>Physical ancestors\<close>

text \<open>A file system in which existing paths have a real path, the ancestors of an existing path
  exist, and the ancestors of a physical path are physical.\<close>

definition fs_tree :: "fs_env \<Rightarrow> bool" where
  "fs_tree env \<longleftrightarrow> (\<forall>p. fs_exists env p \<longrightarrow> fs_realpath env p \<noteq> None)
     \<and> (\<forall>a b. good_segments a \<longrightarrow> good_segments b \<longrightarrow> fs_exists env (abs_path (a @ b)) \<longrightarrow> fs_exists env (abs_path a))
     \<and> (\<forall>a b. good_segments a \<longrightarrow> good_segments b \<longrightarrow> fs_realpath env (abs_path (a @ b)) = Some (abs_path (a @ b)) \<longrightarrow>
          fs_realpath env (abs_path a) = Some (abs_path a))"

lemma resolvePhysicalPath_missing:
  assumes g: "good_segments rs" "good_segments xs" and r: "fs_exists env (abs_path rs)" "fs_realpath env (abs_path rs) = Some (abs_path rs)"
    and none: "\<forall>j. 0 < j \<and> j \<le> length xs \<longrightarrow> \<not> fs_exists env (abs_path (rs @ take j xs))"
  shows "resolvePhysicalPath env (abs_path (rs @ xs)) = abs_path (rs @ xs)"
proof -
  have "nearestExistingAncestor env (abs_path (rs @ xs)) = Some (abs_path rs)"
    using g r none by (intro nea_skip) simp_all
  with g r show ?thesis
    by (cases "xs = []") (simp_all add: resolvePhysicalPath_def Let_def relative_below join_nonempty path_join_below)
qed

lemma nea_None_prefix:
  assumes "good_segments (a @ b)" "nearestExistingAncestor env (abs_path (a @ b)) = None"
  shows "nearestExistingAncestor env (abs_path a) = None"
  using assms
proof (induction b rule: rev_induct)
  case (snoc s b)
  have g: "good_segments (a @ b)" "good_segment s" using snoc.prems(1) by auto
  have "\<not> fs_exists env (abs_path ((a @ b) @ [s]))"
    using snoc.prems(2) nea_found [of env "abs_path ((a @ b) @ [s])"] by auto
  then have "nearestExistingAncestor env (abs_path ((a @ b) @ [s])) = nearestExistingAncestor env (abs_path (a @ b))"
    using g by (intro nea_snoc)
  with snoc g show ?case by simp
qed simp

lemma physical_ancestor:
  assumes wf: "fs_wf env" and tree: "fs_tree env" and p: "resolvePhysicalPath env p = abs_path (a @ b)"
    and g: "good_segments (a @ b)"
  shows "resolvePhysicalPath env (abs_path a) = abs_path a"
  using wf
proof (cases rule: resolvePhysicalPath_cases [where p = p])
  case (none ns)
  then have ns: "ns = a @ b" using p g abs_path_inject by metis
  have "nearestExistingAncestor env (abs_path a) = None" using none ns g by (intro nea_None_prefix [of a b]) simp_all
  then show ?thesis using g by (simp add: resolvePhysicalPath_def)
next
  case (unreal ns e)
  then have "fs_exists env e" using nea_Some by blast
  with unreal tree show ?thesis by (auto simp: fs_tree_def)
next
  case (real es xs rs)
  have eq: "rs @ xs = a @ b" using real p g abs_path_inject [of "rs @ xs" "a @ b"] by simp
  have ex: "fs_exists env (abs_path rs)" "fs_realpath env (abs_path rs) = Some (abs_path rs)"
    using wf real(5) unfolding fs_wf_def by blast+
  have no: "\<forall>j. 0 < j \<and> j \<le> length xs \<longrightarrow> \<not> fs_exists env (abs_path (rs @ take j xs))"
    using wf real unfolding fs_wf_def by (metis good_segments_take)
  show ?thesis
  proof (cases "length a \<le> length rs")
    case True
    then obtain c where c: "rs = a @ c" using eq by (metis append_eq_append_conv_if append_take_drop_id)
    have "good_segments a" "good_segments c" using g real(3) c by simp_all
    with ex c tree have "fs_exists env (abs_path a)" "fs_realpath env (abs_path a) = Some (abs_path a)"
      unfolding fs_tree_def by blast+
    then show ?thesis using resolvePhysicalPath_missing [of a "[]" env] \<open>good_segments a\<close> by auto
  next
    case False
    have "take (length a) (rs @ xs) = a" using eq by simp
    with False have a: "a = rs @ take (length a - length rs) xs" by (simp add: take_append)
    let ?ys = "take (length a - length rs) xs"
    have "\<forall>j. 0 < j \<and> j \<le> length ?ys \<longrightarrow> \<not> fs_exists env (abs_path (rs @ take j ?ys))"
      using no by (auto simp: min_def)
    then have "resolvePhysicalPath env (abs_path (rs @ ?ys)) = abs_path (rs @ ?ys)"
      using ex real(2,3) by (intro resolvePhysicalPath_missing) simp_all
    then show ?thesis using a by simp
  qed
qed

lemma link_env_tree: "fs_tree link_env"
proof -
  have root: "''/'' = abs_path []" and d: "''/d'' = abs_path [''d'']" and l: "''/l'' = abs_path [''l'']"
    by (simp_all add: abs_path_def)
  have g: "good_segments []" "good_segments [''d'']" "good_segments [''l'']" by (simp_all add: good_segment_def)
  have eq: "good_segments a \<Longrightarrow> abs_path a = ''/'' \<longleftrightarrow> a = []"
    "good_segments a \<Longrightarrow> abs_path a = ''/d'' \<longleftrightarrow> a = [''d'']"
    "good_segments a \<Longrightarrow> abs_path a = ''/l'' \<longleftrightarrow> a = [''l'']" for a
    unfolding root d l using g by (simp_all add: abs_path_inject)
  show ?thesis unfolding fs_tree_def
  proof (intro conjI allI impI, goal_cases)
    case (1 p)
    then show ?case by (auto simp: link_env_def)
  next
    case (2 a b)
    then show ?case using eq [of "a @ b"] eq [of a] by (auto simp: link_env_def append_eq_Cons_conv)
  next
    case (3 a b)
    then have "abs_path (a @ b) = ''/'' \<or> abs_path (a @ b) = ''/d'' \<or> abs_path (a @ b) = ''/l''"
      by (auto simp: link_env_def split: if_splits)
    with 3 show ?case using eq [of "a @ b"] eq [of a] by (auto simp: link_env_def append_eq_Cons_conv split: if_splits)
  qed
qed

section \<open>Scopes an agent may choose\<close>

lemma boundedScopes_loop_subset: "set (boundedScopes_loop req sel n scopes) \<subseteq> set sel \<union> set scopes"
  by (induction req sel n scopes rule: boundedScopes_loop.induct) auto

lemma boundedPolicyScopes_subset: "set (boundedPolicyScopes scopes req) \<subseteq> set scopes \<union> set_option req"
  using boundedScopes_loop_subset [of req "[]" 0 scopes]
  by (auto simp: boundedPolicyScopes_def Let_def split: option.splits)

lemma boundedScopes_loop_length:
  "length sel \<le> MAX_AGENT_POLICY_SCOPES - (if truthy req then 1 else 0) \<Longrightarrow>
   length (boundedScopes_loop req sel n scopes) \<le> MAX_AGENT_POLICY_SCOPES - (if truthy req then 1 else 0)"
  by (induction req sel n scopes rule: boundedScopes_loop.induct) auto

lemma boundedPolicyScopes_length: "length (boundedPolicyScopes scopes req) \<le> MAX_AGENT_POLICY_SCOPES"
  using boundedScopes_loop_length [of "[]" req 0 scopes]
  by (auto simp: boundedPolicyScopes_def Let_def truthy_def MAX_AGENT_POLICY_SCOPES_def split: option.splits if_splits)

text \<open>Every scope offered for a source scope is the source scope itself or the resolved form of a
  scope that the source covers.\<close>

lemma allowedApprovalScopes_covered:
  assumes "scope \<in> set (allowedApprovalScopes env uri at src)"
  shows "scope = src \<or> (\<exists>s. policyScopeCovers env at src s \<and> scope = resolveUri env at s
    \<and> (s = src \<or> s \<in> set (policyScopeHierarchy env uri at MAX_AGENT_POLICY_SCOPES)))"
  using assms boundedPolicyScopes_subset
  unfolding allowedApprovalScopes_def Let_def
  by (fastforce split: if_splits)

lemma fs_hierarchy_physical:
  assumes wf: "fs_wf env" "fs_tree env" and at: "isFilesystemAccess at"
    and s: "s \<in> set (policyScopeHierarchy env uri at limit)"
  shows "resolveUri env at s = s"
proof -
  have r: "resolveUri env at x = resolvePhysicalPath env x" for x
    using at by (auto simp: isFilesystemAccess_def resolveUri_def)
  obtain segs where segs: "good_segments segs" "resolveUri env at uri = abs_path segs"
    using resolveUri_fs_form [OF wf(1) at] by blast
  have "s \<in> {abs_path x | x. prefix x segs}"
    using s segs at fs_scope_loop_spec [OF segs(1), of "[]" "max 1 limit"]
    by (auto simp: policyScopeHierarchy_def Let_def)
  then obtain x b where x: "s = abs_path x" "segs = x @ b" by (auto simp: prefix_def)
  show ?thesis
    unfolding r x(1) using wf segs x r by (intro physical_ancestor [of env uri x b]) simp_all
qed

lemma fs_allowed_scope_covered:
  assumes wf: "fs_wf env" "fs_tree env" and at: "isFilesystemAccess at" and src: "resolveUri env at src = src"
    and scope: "scope \<in> set (allowedApprovalScopes env uri at src)"
  shows "policyScopeCovers env at src scope \<and> resolveUri env at scope = scope"
proof -
  have self: "policyScopeCovers env at src src" using at by (simp add: fs_covers_iff)
  from allowedApprovalScopes_covered [OF scope] show ?thesis
  proof
    assume "scope = src"
    then show ?thesis using self src by simp
  next
    assume "\<exists>s. policyScopeCovers env at src s \<and> scope = resolveUri env at s
      \<and> (s = src \<or> s \<in> set (policyScopeHierarchy env uri at MAX_AGENT_POLICY_SCOPES))"
    then obtain s where s: "policyScopeCovers env at src s" "scope = resolveUri env at s"
      "s = src \<or> s \<in> set (policyScopeHierarchy env uri at MAX_AGENT_POLICY_SCOPES)" by blast
    then have "resolveUri env at s = s" using src fs_hierarchy_physical [OF wf at] by auto
    with s show ?thesis by simp
  qed
qed

section \<open>Validated choices\<close>

lemma validatedAgentChoice_Inr:
  "validatedAgentChoice env c request = Inr c' \<Longrightarrow>
   choice_accessType c' = request_accessType request \<and> choice_uri c' \<in> set (allowedScopes request)
   \<and> choice_lifetime c' \<in> set (allowedLifetimes request) \<and> choice_status c' = choice_status c
   \<and> choice_uri c' = resolveUri env (request_accessType request) (choice_uri c)"
  by (auto simp: validatedAgentChoice_def Let_def split: if_splits)

lemma validate_twice_Validated:
  assumes "validate_twice env c request current = Validated c'"
  obtains request2 where "current = Inr request2" "choice_accessType c' = request_accessType request2"
    "choice_uri c' \<in> set (allowedScopes request2)" "choice_lifetime c' \<in> set (allowedLifetimes request2)"
    "choice_status c' = choice_status c"
proof (cases "validatedAgentChoice env c request")
  case (Inr c1)
  with assms show ?thesis
    using that validatedAgentChoice_Inr [of env c request c1] validatedAgentChoice_Inr [of env c1]
    by (auto split: sum.splits)
qed (use assms in simp)

lemma ancestor_review_Validated:
  assumes "ancestor_review env rt p source request answer aborted = Validated c"
  obtains a where "\<not> aborted" "\<not> closing rt" "isActiveAuthorityPath rt source" "isUnchangedAuthorityPath rt source"
    "resolved_while_pending env rt (pend_requester p) (pend_once p) (pend_uri p) (pend_accessType p) = None"
    "resolveAncestorAuthority env rt (pend_requester p) (pend_uri p) (pend_accessType p) = Inr (Authority a)"
    "authorityPrincipal a = authorityPrincipal source"
    "choice_accessType c = pend_accessType p"
    "choice_uri c \<in> set (allowedApprovalScopes env (pend_uri p) (pend_accessType p)
       (resolveUri env (pend_accessType p) (matchedPattern (auth_result a))))"
    "choice_lifetime c \<in> set (allowedAgentLifetimes (matchedLifetime (auth_result a)))"
proof -
  from assms obtain c0 a where a: "\<not> aborted" "\<not> closing rt" "isActiveAuthorityPath rt source"
    "isUnchangedAuthorityPath rt source"
    "resolved_while_pending env rt (pend_requester p) (pend_once p) (pend_uri p) (pend_accessType p) = None"
    "resolveAncestorAuthority env rt (pend_requester p) (pend_uri p) (pend_accessType p) = Inr (Authority a)"
    "authorityPrincipal a = authorityPrincipal source"
    and v: "validate_twice env c0 request (agentApprovalRequest env rt (requestId (request_context request))
        (pend_requester p) a (pend_uri p) (pend_accessType p) (pend_toolCall p)) = Validated c"
    unfolding ancestor_review_def
    by (auto split: sum.splits if_splits option.splits AncestorResolution.splits simp del: validate_twice.simps)
  from validate_twice_Validated [OF v] obtain r2 where r2:
    "agentApprovalRequest env rt (requestId (request_context request)) (pend_requester p) a (pend_uri p) (pend_accessType p)
      (pend_toolCall p) = Inr r2" "choice_accessType c = request_accessType r2"
    "choice_uri c \<in> set (allowedScopes r2)" "choice_lifetime c \<in> set (allowedLifetimes r2)" by blast
  then show thesis using that [OF a]
    by (auto simp: agentApprovalRequest_def Let_def split: if_splits)
qed

text \<open>The nearest authority of a resolution is an ancestor whose own rules allow the access now.\<close>

lemma nearest_opinion_Authority:
  assumes "nearest_opinion env rt uri at before anc = Authority a"
  shows "authorityPrincipal a \<in> set anc \<and> evaluatePrincipalAuthority env rt (authorityPrincipal a) uri at = Some (auth_result a)
    \<and> matchedStatus (auth_result a) = ALLOWED"
  using assms
  by (induction anc arbitrary: before) (auto split: option.splits PolicyResponse.splits)

lemma resolveAncestorAuthority_Authority:
  assumes "resolveAncestorAuthority env rt r uri at = Inr (Authority a)"
  shows "evaluatePrincipalAuthority env rt (authorityPrincipal a) uri at = Some (auth_result a)
    \<and> matchedStatus (auth_result a) = ALLOWED"
proof -
  have l: "resolveAncestor_loop n env rt uri at p x = Inr (Authority a) \<Longrightarrow>
    evaluatePrincipalAuthority env rt (authorityPrincipal a) uri at = Some (auth_result a) \<and> matchedStatus (auth_result a) = ALLOWED"
    for n p x
  proof (induction n arbitrary: p x)
    case (Suc n)
    then show ?case
      by (cases "parent_of (prin rt x)"; cases "requirePrincipal rt (the (parent_of (prin rt x)))")
        (auto simp: Let_def split: option.splits PolicyResponse.splits)
  qed simp
  show ?thesis using assms unfolding resolveAncestorAuthority_def by (rule l)
qed

lemma resolveAncestorAuthority_Denied:
  assumes "resolveAncestorAuthority env rt r uri at = Inr (Denied a)"
  shows "matchedStatus a = DENIED"
proof -
  have l: "resolveAncestor_loop n env rt uri at p x = Inr (Denied a) \<Longrightarrow> matchedStatus a = DENIED" for n p x
  proof (induction n arbitrary: p x)
    case (Suc n)
    then show ?case
      by (cases "parent_of (prin rt x)"; cases "requirePrincipal rt (the (parent_of (prin rt x)))")
        (auto simp: Let_def split: option.splits PolicyResponse.splits)
  qed simp
  show ?thesis using assms unfolding resolveAncestorAuthority_def by (rule l)
qed

text \<open>How a review ends early: with a rule that was stored meanwhile or with the denial of an ancestor.\<close>

lemma ancestor_review_Superseded:
  "ancestor_review env rt p source request answer aborted = Superseded c r \<Longrightarrow>
   resolved_while_pending env rt (pend_requester p) (pend_once p) (pend_uri p) (pend_accessType p) = Some r
   \<or> matchedStatus r = DENIED"
  using resolveAncestorAuthority_Denied [of env rt "pend_requester p" "pend_uri p" "pend_accessType p"]
  by (auto simp: ancestor_review_def split: sum.splits if_splits option.splits AncestorResolution.splits)

lemma llm_review_Superseded:
  "llm_review env rt p s fb request answer aborted = Superseded c r \<Longrightarrow>
   resolved_while_pending env rt (pend_requester p) (pend_once p) (pend_uri p) (pend_accessType p) = Some r"
  by (auto simp: llm_review_def split: sum.splits if_splits option.splits)

lemma finish_Failed:
  "ancestor_finish env now rt p source q (Failed e) = (rt', r) \<Longrightarrow> matchedStatus r = DENIED \<and> same_core rt rt'"
  "llm_finish env now rt p s fb q (Failed e) = (rt', r) \<Longrightarrow> matchedStatus r = DENIED \<and> same_core rt rt'"
  by (auto simp: Let_def decision_result_def deniedChoice_def same_core_audit)

lemma finish_Superseded:
  "ancestor_finish env now rt p source q (Superseded c a) = (rt', r) \<Longrightarrow> r = a \<and> same_core rt rt'"
  "llm_finish env now rt p s fb q (Superseded c a) = (rt', r) \<Longrightarrow> r = a \<and> same_core rt rt'"
  by (auto simp: same_core_audit)

section \<open>A runtime for the examples\<close>

text \<open>A root that may read below \<open>/d\<close> and must not write there, and a child without rules.\<close>

definition sample_principal :: "string \<Rightarrow> string option \<Rightarrow> string list \<Rightarrow> engine \<Rightarrow> PolicyPrincipal" where
  "sample_principal ident parent kids eng = \<lparr>agentIdentifier = ident, parentAgentIdentifier = parent, children = kids,
     policies = eng, policyRevision = 0, principal_context = \<lparr>role = ''R'', task = ''T''\<rparr>, contextRevision = 0,
     approvalWaitScope = None\<rparr>"

definition sample_root_rules :: engine where
  "sample_root_rules = [\<lparr>pattern = ''/d'', info = [(FS_READ, createStatus FS_READ LOCAL ALLOWED ''y''),
     (FS_WRITE, createStatus FS_WRITE LOCAL DENIED ''n'')]\<rparr>]"

definition sample_runtime :: PolicyRuntime where
  "sample_runtime = \<lparr>heap = [sample_principal ''r'' None [''c''] sample_root_rules, sample_principal ''c'' (Some ''r'') [] []],
     principals = [(''r'', 0), (''c'', 1)], rootFallbackPolicies = [], rootAgentIdentifier = ''r'', agentDecisionFlow = True,
     fallbackRevisions = (\<lambda>_. 0), viewHeap = [], nativeFilesystemViews = [], baseHeap = [], nativeFilesystemPolicyBases = [],
     closing = False, defaultResponses = (\<lambda>_. Some ask_user),
     database = \<lparr>schemaInitialized = True, db_policy_rules = Some []\<rparr>, onceHeap = [[]], auditLog = None, auditWritable = True,
     events = []\<rparr>"

definition sample_tool :: PolicyToolCallContext where
  "sample_tool = \<lparr>toolCallId = None, toolName = None, command = None, purpose = None\<rparr>"

definition sample_choice :: "PolicyAccessType \<Rightarrow> string \<Rightarrow> PolicyLifetime \<Rightarrow> PolicyChoice" where
  "sample_choice at uri lt = \<lparr>choice_uri = uri, choice_accessType = at, choice_lifetime = lt,
     choice_status = ALLOWED, choice_reason = ''q''\<rparr>"

lemma sample_rules_wf: "engine_wf sample_root_rules"
  by (simp add: engine_wf_def info_wf_def od_keys_distinct_def createStatus_def sample_root_rules_def)

lemma sample_runtime_wf: "rt_wf sample_runtime"
proof -
  have "tree_wf sample_runtime"
    by (auto simp: tree_wf_def tree_ok_def node_ok_def sample_runtime_def sample_principal_def tree_node_def od_keys_distinct_def)
  then show ?thesis using sample_rules_wf
    by (simp add: rt_wf_def engines_wf_def session_wf_def sample_runtime_def sample_principal_def engine_wf_def
        dao_wf_def dao_rows_def od_keys_distinct_def)
qed

section \<open>Properties\<close>

lemma setFallbacks_ok: "rt_wf rt \<Longrightarrow> \<exists>rt'. setFallbacks env areas rt = Inr rt'"
proof (induction areas arbitrary: rt)
  case (Cons area areas)
  then obtain rt1 where "setFallback env area (defaultResponses rt area) rt = Inr rt1"
    using setFallback_cases [of rt env area "defaultResponses rt area"] by (auto simp: rt_wf_def)
  with Cons show ?case using setFallback_wf by fastforce
qed simp

text \<open>C2: a runtime with a non-empty root identifier, a well-formed database and a legal approval
  timeout can always be constructed, and in every state reachable from it by any interleaving of
  its operations and of answers to its requests the principals form a tree below the root, all
  engines and the database are well formed, and every principal but the root only has rules that
  end with the session.\<close>

theorem runtime_invariant_reachable:
  assumes "ident \<noteq> []" and "dao_wf dao" and "1 \<le> ms" and "ms \<le> 2147483647"
  shows "\<exists>rt0. new_PolicyRuntime env ident dao loaded ctx audit ms = Inr rt0
    \<and> (\<forall>rt. runtime_step\<^sup>*\<^sup>* rt0 rt \<longrightarrow> rt_wf rt)"
proof -
  obtain ps dao' where l: "dao_loadPolicies dao = Some (ps, dao')" "engine_wf ps" "dao_wf dao'"
    using load_table [OF assms(2)] by blast
  obtain rt1 where "setFallbacks env defaultsOrder (initial_runtime env ident ps dao' loaded ctx audit) = Inr rt1"
    using setFallbacks_ok [OF initial_runtime_wf [OF assms(1) l(2,3)]] by blast
  then have "\<exists>rt0. new_PolicyRuntime env ident dao loaded ctx audit ms = Inr rt0"
    using assms(3,4) l(1) by (simp add: new_PolicyRuntime_def)
  then show ?thesis using new_PolicyRuntime_wf [OF assms(1,2)] reachable_wf by blast
qed

theorem runtime_invariant_reachable_witness:
  "\<exists>rt0. new_PolicyRuntime link_env ''r'' sample_dao None ROOT_AGENT_CONTEXT None 300000 = Inr rt0
    \<and> runtime_step\<^sup>*\<^sup>* rt0 (beginShutdown rt0) \<and> rt_wf (beginShutdown rt0)"
proof -
  obtain rt0 where "new_PolicyRuntime link_env ''r'' sample_dao None ROOT_AGENT_CONTEXT None 300000 = Inr rt0"
    "\<forall>rt. runtime_step\<^sup>*\<^sup>* rt0 rt \<longrightarrow> rt_wf rt"
    using runtime_invariant_reachable [of "''r''" sample_dao 300000 link_env None ROOT_AGENT_CONTEXT None] sample_dao_wf by auto
  moreover have "runtime_step\<^sup>*\<^sup>* rt0 (beginShutdown rt0)" by (blast intro: step_shutdown)
  ultimately show ?thesis by blast
qed

text \<open>the walk from a registered principal to the root ends: it returns the path of registered
  principals from that principal to the root, each the parent of the one before.\<close>

theorem principal_path_reaches_root:
  assumes "tree_wf rt" and "map_of (principals rt) ident = Some r"
  shows "\<exists>path. pathToRoot rt r = Inr path \<and> root_path rt r path"
  using pathToRoot_live [OF assms(1) tree_wf_liveI [OF assms]] .

text \<open>C4: an evaluation that is answered at once allows an access only by a stored rule: the target is
  not too long, the runtime is not shutting down, and a rule of the principal, a default of the
  root or a once rule of the tool call covers the target. No question is asked and no rule changes.\<close>

theorem immediate_allow_has_rule:
  assumes "evaluate_begin env now rid rt r inputUri at k tool = Inr (rt', Resolved a)" and "matchedStatus a = ALLOWED"
  shows "length inputUri \<le> MAX_POLICY_URI_CHARS \<and> \<not> closing rt
    \<and> automated_result env rt r k (resolveUri env at inputUri) at = Some a \<and> same_core rt rt'"
proof -
  let ?uri = "resolveUri env at inputUri"
  have anc: "ask_ancestor_begin env now rid rt source r ?uri at k tool = (x, Resolved b) \<Longrightarrow> matchedStatus b = DENIED" for source x b
    by (auto simp: ask_ancestor_begin_def Let_def decision_result_def deniedChoice_def split: sum.splits if_splits)
  have llm: "ask_llm_begin env now rid rt r ?uri at k tool = Inr (x, Resolved b) \<Longrightarrow> matchedStatus b = DENIED" for x b
    by (cases "pathToRoot rt r")
      (auto simp: ask_llm_begin_def Let_def decision_result_def deniedChoice_def split: sum.splits if_splits)
  have usr: "ask_user_begin rid rt r ?uri at k tool = Inr (x, Resolved b) \<Longrightarrow> False" for x b
    by (cases "pathToRoot rt r") (auto simp: ask_user_begin_def Let_def)
  have den: "resolveAncestorAuthority env rt r ?uri at = Inr (Denied b) \<Longrightarrow> matchedStatus b = DENIED" for b
    by (rule resolveAncestorAuthority_Denied)
  have "automated_result env rt r k ?uri at = Some a \<and> length inputUri \<le> MAX_POLICY_URI_CHARS \<and> \<not> closing rt"
  proof (cases "resolveAncestorAuthority env rt r ?uri at")
    case (Inl e)
    then show ?thesis using assms
      by (auto simp: evaluate_begin_def Let_def failedClosedResult_def split: if_splits option.splits)
  next
    case (Inr x)
    then show ?thesis using assms anc llm usr den
      by (auto simp: evaluate_begin_def Let_def failedClosedResult_def
          split: if_splits option.splits AncestorResolution.splits PolicyFallbackResponse.splits)
  qed
  then show ?thesis using evaluate_begin_same_core [OF assms(1)] by blast
qed

theorem immediate_allow_has_rule_witness:
  "\<exists>rt' a. evaluate_begin link_env ''t'' ''i'' sample_runtime 0 ''/l/x'' FS_READ 0 sample_tool = Inr (rt', Resolved a)
    \<and> matchedStatus a = ALLOWED \<and> matchedPattern a = ''/d''
    \<and> automated_result link_env sample_runtime 0 0 (resolveUri link_env FS_READ ''/l/x'') FS_READ = Some a"
proof -
  have u: "resolveUri link_env FS_READ ''/l/x'' = ''/d/x''" by code_simp
  have r: "automated_result link_env sample_runtime 0 0 ''/d/x'' FS_READ =
      Some (result_of ''/d/x'' FS_READ EXISTING_USER_POLICY ''/d'' (createStatus FS_READ LOCAL ALLOWED ''y''))" by code_simp
  have e: "evaluate_begin link_env ''t'' ''i'' sample_runtime 0 ''/l/x'' FS_READ 0 sample_tool = Inr (sample_runtime,
      Resolved (result_of ''/d/x'' FS_READ EXISTING_USER_POLICY ''/d'' (createStatus FS_READ LOCAL ALLOWED ''y'')))"
    by (simp add: evaluate_begin_def u r MAX_POLICY_URI_CHARS_def sample_runtime_def [unfolded sample_runtime_def] Let_def)
      (simp add: sample_runtime_def)
  show ?thesis
    using immediate_allow_has_rule [OF e] e by (auto simp: result_of_def createStatus_def)
qed



text \<open>C7: an agent review fails closed: when the request was aborted, the runtime is shutting down or
  the reviewer failed, the access is denied and neither rules nor database change.\<close>

theorem agent_answer_fails_closed:
  assumes "agent_answer env now rt p answer aborted = Some (rt', r)" and "aborted \<or> closing rt \<or> isl answer"
  shows "matchedStatus r = DENIED \<and> same_core rt rt'"
proof -
  have a: "\<exists>e. ancestor_review env rt p source request answer aborted = Failed e" for source request
    using assms(2) by (cases answer) (auto simp: ancestor_review_def)
  have l: "\<exists>e. llm_review env rt p s fb request answer aborted = Failed e" for s fb request
    using assms(2) by (cases answer) (auto simp: llm_review_def)
  show ?thesis
    using assms(1) a l finish_Failed unfolding agent_answer_def
    by (auto split: pending_kind.splits simp del: ancestor_finish.simps llm_finish.simps) metis+
qed

text \<open>The child of the example asks to read \<open>/d/x\<close>; the root has the authority to answer.\<close>

definition sample_pending :: pending where
  "sample_pending = (case evaluate_begin link_env ''t'' ''i'' sample_runtime 1 ''/d/x'' FS_READ 0 sample_tool of
     Inr (_, Pending p) \<Rightarrow> p | _ \<Rightarrow> undefined)"

definition asks_ancestor :: "pending \<Rightarrow> bool" where
  "asks_ancestor p = (case pend_kind p of Ask_Ancestor _ _ \<Rightarrow> True | _ \<Rightarrow> False)"

lemma asks_ancestorD: "asks_ancestor p \<Longrightarrow> \<exists>source request. pend_kind p = Ask_Ancestor source request"
  by (auto simp: asks_ancestor_def split: pending_kind.splits)

theorem agent_answer_fails_closed_witness:
  "\<exists>rt' r. agent_answer link_env ''t'' sample_runtime sample_pending (Inr (sample_choice FS_READ ''/d'' SESSION)) True = Some (rt', r)
    \<and> matchedStatus r = DENIED \<and> same_core sample_runtime rt'"
proof -
  have "agent_answer link_env ''t'' sample_runtime sample_pending (Inr (sample_choice FS_READ ''/d'' SESSION)) True \<noteq> None"
    using asks_ancestorD [of sample_pending] by (auto simp: agent_answer_def asks_ancestor_def split: pending_kind.splits) code_simp
  then obtain rt' r where e: "agent_answer link_env ''t'' sample_runtime sample_pending (Inr (sample_choice FS_READ ''/d'' SESSION)) True
      = Some (rt', r)" by auto
  show ?thesis using agent_answer_fails_closed [OF e] e by blast
qed

text \<open>C8: an answer of an ancestor that comes after its authority changed is void: when the path to the
  approving principal is no longer active, or a rule or context on it or the default it rests on
  changed, no rule changes, and the access is allowed only if a rule that covers it was stored
  meanwhile.\<close>

theorem stale_ancestor_answer_is_void:
  assumes "pend_kind p = Ask_Ancestor source request" and "agent_answer env now rt p answer aborted = Some (rt', r)"
    and "\<not> isActiveAuthorityPath rt source \<or> \<not> isUnchangedAuthorityPath rt source"
  shows "same_core rt rt' \<and> (matchedStatus r = ALLOWED \<longrightarrow>
    resolved_while_pending env rt (pend_requester p) (pend_once p) (pend_uri p) (pend_accessType p) = Some r)"
proof -
  have f: "ancestor_finish env now rt p source (Some request) (ancestor_review env rt p source request answer aborted) = (rt', r)"
    using assms(1,2) by (simp add: agent_answer_def)
  show ?thesis
  proof (cases "ancestor_review env rt p source request answer aborted")
    case (Superseded c a)
    with f have "r = a \<and> same_core rt rt'" using finish_Superseded(1) by metis
    then show ?thesis using ancestor_review_Superseded [OF Superseded] by auto
  next
    case (Failed e)
    with f have "matchedStatus r = DENIED \<and> same_core rt rt'" using finish_Failed(1) by metis
    then show ?thesis by simp
  next
    case (Validated c)
    then show ?thesis using assms(3) by (auto elim: ancestor_review_Validated)
  qed
qed

theorem stale_ancestor_answer_is_void_witness:
  "\<exists>rt' r. agent_answer link_env ''t'' (sample_runtime\<lparr>principals := []\<rparr>) sample_pending (Inr (sample_choice FS_READ ''/d'' SESSION)) False = Some (rt', r)
    \<and> same_core (sample_runtime\<lparr>principals := []\<rparr>) rt' \<and> matchedStatus r = DENIED"
proof -
  let ?rt = "sample_runtime\<lparr>principals := []\<rparr>"
  have a: "asks_ancestor sample_pending" by code_simp
  then obtain source request where k: "pend_kind sample_pending = Ask_Ancestor source request" using asks_ancestorD by blast
  then obtain rt' r where e: "agent_answer link_env ''t'' ?rt sample_pending (Inr (sample_choice FS_READ ''/d'' SESSION)) False = Some (rt', r)"
    by (simp add: agent_answer_def) (metis surj_pair)
  have "\<not> isActiveAuthorityPath ?rt source"
    by (cases "snap_path (auth_snapshot source)") (auto simp: isActiveAuthorityPath_def)
  with stale_ancestor_answer_is_void [OF k e] have "same_core ?rt rt'" by blast
  moreover have "map_option (\<lambda>(_, r). matchedStatus r)
    (agent_answer link_env ''t'' ?rt sample_pending (Inr (sample_choice FS_READ ''/d'' SESSION)) False) = Some DENIED" by code_simp
  ultimately show ?thesis using e by auto
qed

text \<open>C1: an agent cannot grant more than it may do itself: when the answer of an ancestor allows a file
  access, that ancestor's own rules allow the target at that moment, the granted scope is covered
  by the scope of the rule the ancestor answers with, and the grant lasts for the session only if
  that rule lasts longer than one use.\<close>

theorem agent_grant_within_authority:
  assumes "fs_wf env" and "fs_tree env" and "isFilesystemAccess (pend_accessType p)"
    and "pend_kind p = Ask_Ancestor source request" and "agent_answer env now rt p answer aborted = Some (rt', r)"
    and "matchedStatus r = ALLOWED" and "resolutionSource r = NEW_AGENT_DECISION"
  shows "\<exists>auth. evaluatePrincipalAuthority env rt (authorityPrincipal source) (pend_uri p) (pend_accessType p) = Some auth
    \<and> matchedStatus auth = ALLOWED
    \<and> policyScopeCovers env (pend_accessType p) (resolveUri env (pend_accessType p) (matchedPattern auth)) (matchedPattern r)
    \<and> (matchedLifetime r = ONCE \<or> matchedLifetime r = SESSION \<and> matchedLifetime auth \<noteq> ONCE)"
proof -
  let ?at = "pend_accessType p"
  have f: "ancestor_finish env now rt p source (Some request) (ancestor_review env rt p source request answer aborted) = (rt', r)"
    using assms(4,5) by (simp add: agent_answer_def)
  show ?thesis
  proof (cases "ancestor_review env rt p source request answer aborted")
    case (Superseded c a)
    with f have "r = a" using finish_Superseded(1) by metis
    then show ?thesis using ancestor_review_Superseded [OF Superseded] assms(6,7) resolved_while_pending_source by fastforce
  next
    case (Failed e)
    with f have "matchedStatus r = DENIED" using finish_Failed(1) by metis
    then show ?thesis using assms(6) by simp
  next
    case (Validated c)
    then obtain a where a: "resolveAncestorAuthority env rt (pend_requester p) (pend_uri p) ?at = Inr (Authority a)"
      "authorityPrincipal a = authorityPrincipal source"
      "choice_uri c \<in> set (allowedApprovalScopes env (pend_uri p) ?at (resolveUri env ?at (matchedPattern (auth_result a))))"
      "choice_lifetime c \<in> set (allowedAgentLifetimes (matchedLifetime (auth_result a)))"
      by (elim ancestor_review_Validated)
    let ?src = "resolveUri env ?at (matchedPattern (auth_result a))"
    have "resolveUri env ?at ?src = ?src"
      using assms(1,3) by (auto simp: isFilesystemAccess_def resolveUri_def resolvePhysicalPath_idem)
    from fs_allowed_scope_covered [OF assms(1-3) this a(3)]
    have s: "policyScopeCovers env ?at ?src (choice_uri c)" "resolveUri env ?at (choice_uri c) = choice_uri c" by auto
    have r: "r = decision_result env NEW_AGENT_DECISION (pend_uri p) ?at c" using f Validated by (simp add: Let_def)
    have "matchedLifetime r = ONCE \<or> matchedLifetime r = SESSION \<and> matchedLifetime (auth_result a) \<noteq> ONCE"
      using a(4) r by (auto simp: allowedAgentLifetimes_def decision_result_def split: if_splits)
    then show ?thesis using resolveAncestorAuthority_Authority [OF a(1)] a(2) s r
      by (auto simp: decision_result_def)
  qed
qed

theorem agent_grant_within_authority_witness:
  "\<exists>rt' r. agent_answer link_env ''t'' sample_runtime sample_pending (Inr (sample_choice FS_READ ''/d'' SESSION)) False = Some (rt', r)
    \<and> matchedStatus r = ALLOWED \<and> matchedPattern r = ''/d'' \<and> matchedLifetime r = SESSION
    \<and> (\<exists>auth :: PolicyResult. matchedStatus auth = ALLOWED \<and> policyScopeCovers link_env FS_READ (resolveUri link_env FS_READ (matchedPattern auth)) ''/d''
        \<and> matchedLifetime auth \<noteq> ONCE)"
proof -
  let ?ans = "agent_answer link_env ''t'' sample_runtime sample_pending (Inr (sample_choice FS_READ ''/d'' SESSION)) False"
  have "asks_ancestor sample_pending" by code_simp
  then obtain source request where k: "pend_kind sample_pending = Ask_Ancestor source request" using asks_ancestorD by blast
  have "map_option (\<lambda>(_, r). (matchedStatus r, matchedPattern r, matchedLifetime r, resolutionSource r)) ?ans
      = Some (ALLOWED, ''/d'', SESSION, NEW_AGENT_DECISION)" by code_simp
  then obtain rt' r where e: "?ans = Some (rt', r)" and r: "matchedStatus r = ALLOWED" "matchedPattern r = ''/d''"
    "matchedLifetime r = SESSION" "resolutionSource r = NEW_AGENT_DECISION" by auto
  have at: "pend_accessType sample_pending = FS_READ" by code_simp
  then have fs: "isFilesystemAccess (pend_accessType sample_pending)" by (simp add: isFilesystemAccess_def)
  show ?thesis
    using agent_grant_within_authority [OF link_env_wf link_env_tree fs k e r(1,4)] e r at by auto
qed

text \<open>C9: a user decision that comes too late is void: when the request was aborted or timed out, the
  runtime is shutting down, the default of the area or its revision changed, or the path of the
  requester is no longer active or unchanged, no rule and no row changes, and the access is
  allowed only if a rule that covers it was stored meanwhile.\<close>

theorem late_user_decision_is_void:
  assumes "completeUserApproval env now ms rt p s fb ctx c signal = Inr (rt', r)"
    and "aborted_signal signal \<or> closing rt \<or> \<not> isUnchangedFallback rt fb \<or> defaultResponses rt (fb_area fb) \<noteq> Some ask_user
      \<or> \<not> isActivePrincipalPath rt (snap_path s) \<or> \<not> isUnchangedPrincipalPath rt s"
  shows "same_core rt rt' \<and> (matchedStatus r = ALLOWED \<longrightarrow>
    resolved_while_pending env rt (pend_requester p) (pend_once p) (pend_uri p) (pend_accessType p) = Some r)"
  using assms
  by (auto simp: completeUserApproval_def Let_def same_core_audit failedClosedResult_def split: if_splits option.splits)

theorem late_user_decision_is_void_witness:
  "\<exists>rt' r. completeUserApproval link_env ''t'' 5 sample_runtime
      \<lparr>pend_requester = 1, pend_uri = ''/d/x'', pend_accessType = FS_READ, pend_once = 0, pend_toolCall = sample_tool,
       pend_kind = pend_kind sample_pending\<rparr>
      (principalPathSnapshot sample_runtime [1, 0]) (fallbackSnapshot sample_runtime FS_READ)
      (policyRequestContext sample_runtime ''i'' 1 [1, 0] sample_tool) (sample_choice FS_READ ''/d'' LOCAL) (Timed_Out ''late'') = Inr (rt', r)
    \<and> same_core sample_runtime rt' \<and> matchedStatus r = DENIED \<and> matchedReason r = ''late''"
proof -
  obtain rt' r where e: "completeUserApproval link_env ''t'' 5 sample_runtime
      \<lparr>pend_requester = 1, pend_uri = ''/d/x'', pend_accessType = FS_READ, pend_once = 0, pend_toolCall = sample_tool,
       pend_kind = pend_kind sample_pending\<rparr>
      (principalPathSnapshot sample_runtime [1, 0]) (fallbackSnapshot sample_runtime FS_READ)
      (policyRequestContext sample_runtime ''i'' 1 [1, 0] sample_tool) (sample_choice FS_READ ''/d'' LOCAL) (Timed_Out ''late'') = Inr (rt', r)"
    and r: "matchedStatus r = DENIED" "matchedReason r = ''late''"
    by (simp add: completeUserApproval_def Let_def aborted_signal_def failedClosedResult_def)
  have "aborted_signal (Timed_Out ''late'')" by (simp add: aborted_signal_def)
  then show ?thesis using late_user_decision_is_void [OF e] e r by blast
qed

section \<open>What is persisted\<close>

lemma foldl_addPrincipalPolicies_frame:
  "database (foldl (addPrincipalPolicies env ps) rt rs) = database rt"
  "onceHeap (foldl (addPrincipalPolicies env ps) rt rs) = onceHeap rt"
  "rootFallbackPolicies (foldl (addPrincipalPolicies env ps) rt rs) = rootFallbackPolicies rt"
  by (induction rs arbitrary: rt) (simp_all add: frame_simps)

lemma install_decision_database: "database (install_decision env c rs k rt) = database rt"
  by (simp add: install_decision_def foldl_addPrincipalPolicies_frame frame_simps)

lemma agent_answer_database: "agent_answer env now rt p answer aborted = Some (rt', r) \<Longrightarrow> database rt' = database rt"
proof -
  assume "agent_answer env now rt p answer aborted = Some (rt', r)"
  moreover have "database (fst (ancestor_finish env now rt p source q e)) = database rt" for source q e
    by (cases e) (auto simp: Let_def audit_defs frame_simps install_decision_database split: option.splits)
  moreover have "database (fst (llm_finish env now rt p s fb q e)) = database rt" for s fb q e
    by (cases e) (auto simp: Let_def audit_defs frame_simps install_decision_database split: option.splits)
  ultimately show ?thesis by (auto simp: agent_answer_def split: pending_kind.splits) (metis fst_conv)+
qed

lemma setDefaultResponse_database:
  "tree_wf rt \<Longrightarrow> setDefaultResponse env area response rt = Inr rt' \<Longrightarrow> database rt' = database rt \<and> tree_wf rt'"
proof -
  assume t: "tree_wf rt" and s: "setDefaultResponse env area response rt = Inr rt'"
  let ?rt1 = "rt\<lparr>defaultResponses := (defaultResponses rt)(area := response),
    fallbackRevisions := (fallbackRevisions rt)(area := Suc (fallbackRevisions rt area))\<rparr>"
  have "tree_wf ?rt1" using t by (simp add: tree_wf_def)
  from setFallback_cases [OF this, of env area response] t s show ?thesis
    by (auto simp: setDefaultResponse_def tree_wf_def split: if_splits)
qed

lemma setDefaultResponses_database:
  "tree_wf rt \<Longrightarrow> setDefaultResponses env d areas rt = Inr rt' \<Longrightarrow> database rt' = database rt"
proof (induction areas arbitrary: rt)
  case (Cons area areas)
  then obtain rt1 where "setDefaultResponse env area (d area) rt = Inr rt1" "setDefaultResponses env d areas rt1 = Inr rt'"
    by (cases "setDefaultResponse env area (d area) rt") auto
  with Cons show ?case using setDefaultResponse_database by metis
qed simp

lemma step_database:
  assumes "runtime_step rt rt'" "tree_wf rt" "database rt' \<noteq> database rt"
  shows "\<exists>env now ms p s fb ctx c signal r. completeUserApproval env now ms rt p s fb ctx c signal = Inr (rt', r)"
  using assms
proof (induction rule: runtime_step.induct)
  case (step_register ident env pid areas ctx rt rt')
  then show ?case
    by (cases "requirePrincipal rt pid") (auto simp: registerPolicyPrincipal_def createNativeFilesystemPolicyBase_def Let_def split: if_splits)
next
  case (step_remove ident rt rt')
  then show ?case using removePolicyPrincipal_shape [of rt ident rt'] by metis
next
  case (step_context ident newRole newTask rt rt')
  then show ?case by (cases "requirePrincipal rt ident") (auto simp: updatePolicyPrincipalContext_def Let_def)
next
  case (step_scope ident scope rt rt')
  then show ?case by (cases "requirePrincipal rt ident") (auto simp: setPolicyApprovalWaitScope_def)
next
  case (step_tool rt ident tool current rt' tc)
  then show ?case by (cases "requirePrincipal rt ident") (auto simp: beginToolCall_def)
next
  case (step_native rt ident tool scope rt' v)
  then show ?case
    by (cases "requirePrincipal rt ident") (auto simp: beginNativeFilesystemToolCall_def Let_def split: option.splits)
next
  case (step_shutdown rt)
  then show ?case using same_core_shutdown [of rt] by (simp add: same_core_def)
next
  case (step_evaluate env now rid rt r uri at k tool rt' e)
  then show ?case using evaluate_begin_same_core [of env now rid rt r uri at k tool rt' e] by (simp add: same_core_def)
qed (auto simp: resetDefaultResponses_def setAgentDecisionFlow_def base_onSnapshotChanged_def view_after_evaluation_def Let_def
    frame_simps dest: agent_answer_database setDefaultResponse_database setDefaultResponses_database split: if_splits)

lemma completeUserApproval_database:
  assumes "dao_wf (database rt)" "completeUserApproval env now ms rt p s fb ctx c signal = Inr (rt', r)" "database rt' \<noteq> database rt"
  shows "isPersistedLifetime (choice_lifetime c) \<and> dao_rule (database rt') = table_add (dao_rule (database rt)) (policyFromChoice c)"
  using assms(2)
proof (cases rule: completeUserApproval_cases)
  case unchanged
  then show ?thesis using assms(3) by (simp add: same_core_def)
next
  case (decided root dao rtm)
  have db: "database rt' = database rtm"
    using decided(10) by (simp add: same_core_def foldl_addPrincipalPolicies_frame)
  with decided(9) assms(3) have d: "isPersistedLifetime (choice_lifetime c)"
    "dao_upsertPolicies (database rt) ms [policyFromChoice c] = Some dao" "database rt' = dao"
    by (auto simp: frame_simps)
  then show ?thesis using dao_upsertPolicies_ok [OF assms(1), of "[policyFromChoice c]" ms] by auto
qed

text \<open>C3: the database only changes by a decision of the user to keep a rule: if a step of the runtime
  changes it, the step completes a user approval with a LOCAL or GLOBAL choice, and the stored
  table gains exactly the rule of that choice. No agent, default or child can persist a rule.\<close>

theorem only_users_persist_rules:
  assumes "rt_wf rt" and "runtime_step rt rt'" and "database rt' \<noteq> database rt"
  shows "\<exists>env now ms p s fb ctx c signal r. completeUserApproval env now ms rt p s fb ctx c signal = Inr (rt', r)
    \<and> isPersistedLifetime (choice_lifetime c)
    \<and> dao_rule (database rt') = table_add (dao_rule (database rt)) (policyFromChoice c)"
proof -
  have wf: "tree_wf rt" "dao_wf (database rt)" using assms(1) by (auto simp: rt_wf_def engines_wf_def)
  from step_database [OF assms(2) wf(1) assms(3)] obtain env now ms p s fb ctx c signal r
    where u: "completeUserApproval env now ms rt p s fb ctx c signal = Inr (rt', r)" by blast
  with completeUserApproval_database [OF wf(2) u assms(3)] show ?thesis by blast
qed

definition sample_user_completion :: "(PolicyRuntime \<times> PolicyResult) res" where
  "sample_user_completion = completeUserApproval link_env ''t'' 5 sample_runtime
      \<lparr>pend_requester = 1, pend_uri = ''/k/x'', pend_accessType = FS_READ, pend_once = 0, pend_toolCall = sample_tool,
       pend_kind = pend_kind sample_pending\<rparr>
      (principalPathSnapshot sample_runtime [1, 0]) (fallbackSnapshot sample_runtime FS_READ)
      (policyRequestContext sample_runtime ''i'' 1 [1, 0] sample_tool) (sample_choice FS_READ ''/k'' LOCAL) Not_Aborted"

theorem only_users_persist_rules_witness:
  "\<exists>rt' r. sample_user_completion = Inr (rt', r) \<and> rt_wf sample_runtime \<and> runtime_step sample_runtime rt'
    \<and> database rt' \<noteq> database sample_runtime
    \<and> (\<exists>c. isPersistedLifetime (choice_lifetime c)
        \<and> dao_rule (database rt') = table_add (dao_rule (database sample_runtime)) (policyFromChoice c))"
proof -
  have "case sample_user_completion of Inr (rt', _) \<Rightarrow> db_policy_rules (database rt') \<noteq> Some [] | _ \<Rightarrow> False" by code_simp
  then obtain rt' r where e: "sample_user_completion = Inr (rt', r)" and d: "db_policy_rules (database rt') \<noteq> Some []"
    by (auto split: sum.splits)
  have s: "runtime_step sample_runtime rt'" using e unfolding sample_user_completion_def by (rule step_user)
  have d': "database rt' \<noteq> database sample_runtime" using d by (auto simp: sample_runtime_def)
  show ?thesis using only_users_persist_rules [OF sample_runtime_wf s d'] e s d' sample_runtime_wf by blast
qed

end
