(* ===== verification/Runtime_Delegation.thy ===== *)
theory Runtime_Delegation
  imports Runtime_Safety
begin

text \<open>
  What the runtime hands on: the rules a child inherits, the defaults that become fallback rules,
  what native views are told, and that a decision of the user answers later requests.
\<close>

section \<open>Engines with mapped rules\<close>

text \<open>Rewriting the statuses of every policy and dropping the policies that become empty.\<close>

definition map_rules :: "(policy_info \<Rightarrow> policy_info) \<Rightarrow> engine \<Rightarrow> engine" where
  "map_rules g eng = filter (\<lambda>p. info p \<noteq> []) (map (\<lambda>p. \<lparr>pattern = pattern p, info = g (info p)\<rparr>) eng)"

lemma find_policy_map_rules:
  "distinct (map pattern eng) \<Longrightarrow> find_policy pat (map_rules g eng) =
    (case find_policy pat eng of None \<Rightarrow> None
     | Some p \<Rightarrow> if g (info p) = [] then None else Some \<lparr>pattern = pattern p, info = g (info p)\<rparr>)"
proof (induction eng)
  case (Cons p eng)
  have "find_policy (pattern p) (map_rules g eng) = None"
    using Cons.prems by (auto simp: find_policy_None_iff map_rules_def)
  then show ?case using Cons by (auto simp: map_rules_def)
qed (simp add: map_rules_def)

lemma engine_rule_map_rules:
  assumes "engine_wf eng"
  shows "engine_rule (map_rules g eng) pat at = (case find_policy pat eng of None \<Rightarrow> None | Some p \<Rightarrow> map_of (g (info p)) at)"
  using assms find_policy_map_rules [of eng pat g]
  by (auto simp: engine_rule_def engine_wf_def split: option.splits)

lemma engine_wf_map_rules:
  assumes "engine_wf eng" "\<And>d. info_wf d \<Longrightarrow> info_wf (g d)"
  shows "engine_wf (map_rules g eng)"
proof -
  have "distinct (map pattern (map_rules g eng))"
    using assms(1) by (induction eng) (auto simp: engine_wf_def map_rules_def)
  then show ?thesis using assms by (auto simp: engine_wf_def map_rules_def)
qed

lemma map_of_session:
  "map_of (map (\<lambda>(at, st). (at, st\<lparr>lifetime := SESSION\<rparr>)) d) at = map_option (\<lambda>st. st\<lparr>lifetime := SESSION\<rparr>) (map_of d at)"
  by (induction d) auto

lemma map_of_filter_accessType:
  "info_wf d \<Longrightarrow> map_of (filter (\<lambda>(_, st). P (accessType st)) d) at = (if P at then map_of d at else None)"
  by (induction d) (auto simp: info_wf_def od_keys_distinct_def map_of_eq_None_iff)

section \<open>Inheritance\<close>

definition area_types :: "PolicyArea list \<Rightarrow> PolicyAccessType set" where
  "area_types areas = (\<Union>a \<in> set areas. set (policyAreaAccessTypes a))"

lemma inherited_rules:
  assumes "engine_wf (effectivePolicies env rt q)"
  shows "engine_wf (inheritedPolicySnapshot env rt q areas)
    \<and> engine_rule (inheritedPolicySnapshot env rt q areas) pat at =
        (if at \<in> area_types areas
         then map_option (\<lambda>st. st\<lparr>lifetime := SESSION\<rparr>) (engine_rule (effectivePolicies env rt q) pat at) else None)"
proof (cases "concat (map policyAreaAccessTypes (remdups areas)) = []")
  case True
  then have "areas = []" by (cases areas) (auto split: if_splits)
  then show ?thesis by (simp add: inheritedPolicySnapshot_def area_types_def engine_rule_def)
next
  case False
  let ?ts = "concat (map policyAreaAccessTypes (remdups areas))"
  let ?g = "\<lambda>d. map (\<lambda>(at, st). (at, st\<lparr>lifetime := SESSION\<rparr>)) (filter (\<lambda>(_, st). accessType st \<in> set ?ts) d)"
  have ts: "set ?ts = area_types areas" by (auto simp: area_types_def)
  have eq: "inheritedPolicySnapshot env rt q areas = map_rules ?g (effectivePolicies env rt q)"
    using False by (simp add: inheritedPolicySnapshot_def Let_def map_rules_def)
  have "info_wf (?g d)" if "info_wf d" for d using that by (intro info_wf_session info_wf_filter)
  then have "engine_wf (map_rules ?g (effectivePolicies env rt q))" using assms by (rule engine_wf_map_rules [rotated])
  moreover have "map_of (?g (info p)) at = (if at \<in> area_types areas then map_option (\<lambda>st. st\<lparr>lifetime := SESSION\<rparr>) (map_of (info p) at) else None)"
    if "find_policy pat (effectivePolicies env rt q) = Some p" for p
    unfolding map_of_session ts
    using map_of_filter_accessType [OF engine_wf_info [OF assms that], of "\<lambda>a. a \<in> area_types areas" at] by simp
  ultimately show ?thesis
    unfolding eq using engine_rule_map_rules [OF assms, of ?g pat at]
    by (auto simp: engine_rule_def split: option.splits)
qed

text \<open>C10: when the patterns of the parent's effective rules resolve to themselves, a new child starts with exactly those
  rules in the inherited areas, all of them limited to the session: nothing outside those areas is inherited, no status
  is changed, and a rule the parent does not have is not invented.  (The child's engine resolves the patterns anew, so a
  pattern that has stopped resolving to itself, a path that became a symbolic link for example, is inherited under its
  new resolution; such engines are outside this statement.)\<close>

theorem child_inherits_parent_rules:
  assumes "rt_wf rt" and "registerPolicyPrincipal env ident pid areas ctx rt = Inr rt'"
    and "map_of (principals rt) pid = Some q" and "engine_canonical env (effectivePolicies env rt q)"
  shows "engine_rule (policies (prin rt' (length (heap rt)))) pat at =
    (if at \<in> area_types areas
     then map_option (\<lambda>st. st\<lparr>lifetime := SESSION\<rparr>) (engine_rule (effectivePolicies env rt q) pat at) else None)"
proof -
  have tree: "tree_wf rt" and eng: "engines_wf rt" using assms(1) by (auto simp: rt_wf_def)
  have q: "q < length (heap rt)" using tree_wf_live [OF tree assms(3)] by simp
  have e: "engine_wf (effectivePolicies env rt q)" by (rule effectivePolicies_wf [OF eng q])
  have "policies (prin rt' (length (heap rt))) = new_PolicyEngine env (inheritedPolicySnapshot env rt q areas)"
    using assms(2,3) q
    by (auto simp: registerPolicyPrincipal_def requirePrincipal_def createNativeFilesystemPolicyBase_def Let_def prin_def
        nth_append nth_list_update split: if_splits)
  moreover have "engine_rule (new_PolicyEngine env (inheritedPolicySnapshot env rt q areas)) = engine_rule (inheritedPolicySnapshot env rt q areas)"
  proof -
    have "resolveUri env a p = p" if "engine_rule (inheritedPolicySnapshot env rt q areas) p a = Some st" for p a st
    proof -
      from that obtain st0 where "engine_rule (effectivePolicies env rt q) p a = Some st0"
        using inherited_rules [OF e, of areas p a] by (auto split: if_splits)
      then show ?thesis using assms(4) by (auto simp: engine_canonical_def list_all_iff dest!: engine_rule_SomeD)
    qed
    then show ?thesis using engine_rule_new_canonical [of "inheritedPolicySnapshot env rt q areas" env] inherited_rules [OF e] by blast
  qed
  ultimately show ?thesis using inherited_rules [OF e, of areas pat at] by simp
qed

theorem child_inherits_parent_rules_witness:
  "\<exists>rt'. registerPolicyPrincipal link_env ''n'' ''r'' [fs_read] ROOT_AGENT_CONTEXT sample_runtime = Inr rt'
    \<and> engine_rule (policies (prin rt' 2)) ''/d'' FS_READ = Some (createStatus FS_READ SESSION ALLOWED ''y'')
    \<and> engine_rule (policies (prin rt' 2)) ''/d'' FS_WRITE = None"
proof -
  obtain rt' where reg: "registerPolicyPrincipal link_env ''n'' ''r'' [fs_read] ROOT_AGENT_CONTEXT sample_runtime = Inr rt'"
    by (simp add: registerPolicyPrincipal_def requirePrincipal_def sample_runtime_def Let_def)
  have q: "map_of (principals sample_runtime) ''r'' = Some 0" by code_simp
  have can: "engine_canonical link_env (effectivePolicies link_env sample_runtime 0)" by code_simp
  have len: "length (heap sample_runtime) = 2" by (simp add: sample_runtime_def)
  have eff: "engine_rule (effectivePolicies link_env sample_runtime 0) ''/d'' FS_READ = Some (createStatus FS_READ LOCAL ALLOWED ''y'')"
    by code_simp
  note rules = child_inherits_parent_rules [OF sample_runtime_wf reg q can, unfolded len]
  show ?thesis
    using reg rules [of "''/d''" FS_READ] rules [of "''/d''" FS_WRITE] eff by (auto simp: area_types_def createStatus_def)
qed

section \<open>Native views\<close>

lemma match_loop_filesystem:
  assumes "isFilesystemAccess at"
  shows "match_loop env at uri best (filesystemPolicies eng) = match_loop env at uri best eng"
proof (induction eng arbitrary: best)
  case (Cons p eng)
  let ?d = "filter (\<lambda>(a, _). a = FS_READ \<or> a = FS_WRITE) (info p)"
  have m: "map_of ?d at = map_of (info p) at"
    using assms by (simp add: map_of_filter_key isFilesystemAccess_def)
  have fs: "filesystemPolicies (p # eng) = (if ?d = [] then filesystemPolicies eng
      else \<lparr>pattern = pattern p, info = ?d\<rparr> # filesystemPolicies eng)"
    by (simp add: filesystemPolicies_def)
  show ?case
  proof (cases "?d = []")
    case True
    then have "map_of (info p) at = None" using m by simp
    then show ?thesis using fs True Cons by simp
  next
    case False
    then show ?thesis unfolding fs using m Cons by (auto split: option.splits)
  qed
qed (simp add: filesystemPolicies_def)

lemma evaluateStored_filesystem:
  "isFilesystemAccess at \<Longrightarrow> evaluateStoredPolicies env (filesystemPolicies eng) uri at src = evaluateStoredPolicies env eng uri at src"
  by (simp add: evaluateStoredPolicies_def match_loop_filesystem)

lemma system_fallback_stored:
  "map_option systemFallbackResult (evaluateStoredPolicies env eng uri at src) = evaluateStoredPolicies env eng uri at SYSTEM"
  by (auto simp: evaluateStoredPolicies_def systemFallbackResult_def split: option.splits)

lemma layers_automated:
  assumes at: "isFilesystemAccess at" and uri: "resolveUri env at uri = uri"
  shows "(case evaluateLayers env uri at (nativeFilesystemPolicyLayers rt r) of
      Some a \<Rightarrow> Some a | None \<Rightarrow> evaluateLayers env uri at [once_layer rt v]) = automated_result env rt r (view_once v) uri at"
  using system_fallback_stored [of env "rootFallbackPolicies rt" uri at EXISTING_USER_POLICY]
  by (auto simp: nativeFilesystemPolicyLayers_def once_layer_def automated_result_def evaluatePrincipalAuthority_def
      engine_evaluate_def uri allPolicies_def evaluateStored_filesystem [OF at] split: option.splits)

text \<open>C11: an open native view answers as the runtime would: for a file access, what a view of a
  principal reports without asking is exactly what an evaluation by that principal in the same
  tool call is answered at once, and the view reports nothing exactly when no rule decides.\<close>

theorem native_view_agrees_with_runtime:
  fixes rt i
  defines "v \<equiv> viewHeap rt ! i"
  assumes "fs_wf env" and "isFilesystemAccess at" and "length path \<le> MAX_POLICY_URI_CHARS" and "\<not> closing rt"
    and "base_principal (baseHeap rt ! view_base v) = view_principal v"
    and "view_currentPolicyResult env rt i path at = Inr res"
  shows "res = automated_result env rt (view_principal v) (view_once v) (resolveUri env at path) at
    \<and> (\<forall>r. res = Some r \<longrightarrow> evaluate_begin env now rid rt (view_principal v) path at (view_once v) tool = Inr (rt, Resolved r))"
proof -
  have idem: "resolveUri env at (resolveUri env at path) = resolveUri env at path"
    using assms(2,3) by (auto simp: isFilesystemAccess_def resolveUri_def resolvePhysicalPath_idem)
  have "res = automated_result env rt (view_principal v) (view_once v) (resolveUri env at path) at"
    using assms(6,7) layers_automated [OF assms(3) idem, where rt = rt and r = "view_principal v" and v = v]
    unfolding v_def by (auto simp: view_currentPolicyResult_def Let_def split: if_splits)
  then show ?thesis using assms(4,5) by (auto simp: evaluate_begin_def Let_def)
qed

text \<open>The example runtime with a native base for the root and a view on it.\<close>

definition sample_native :: PolicyRuntime where
  "sample_native = createNativeFilesystemPolicyBase 0 ''r'' (sample_runtime\<lparr>viewHeap := [\<lparr>view_base = 0, view_principal = 0, view_once = 0,
     view_context = sample_tool, view_scopes = [], view_oncePoliciesState = [], view_onceRevision = 0, view_closed = False,
     view_onceListeners = [], view_closeListeners = []\<rparr>], nativeFilesystemViews := [0]\<rparr>)"

theorem native_view_agrees_with_runtime_witness:
  "\<exists>r. view_currentPolicyResult link_env sample_native 0 ''/l/x'' FS_READ = Inr (Some r)
    \<and> evaluate_begin link_env ''t'' ''i'' sample_native 0 ''/l/x'' FS_READ 0 sample_tool = Inr (sample_native, Resolved r)
    \<and> matchedStatus r = ALLOWED"
proof -
  have "case view_currentPolicyResult link_env sample_native 0 ''/l/x'' FS_READ of Inr (Some r) \<Rightarrow> matchedStatus r = ALLOWED | _ \<Rightarrow> False"
    by code_simp
  then obtain r where r: "view_currentPolicyResult link_env sample_native 0 ''/l/x'' FS_READ = Inr (Some r)" "matchedStatus r = ALLOWED"
    by (auto split: sum.splits option.splits)
  have at: "isFilesystemAccess FS_READ" by (simp add: isFilesystemAccess_def)
  have c: "\<not> closing sample_native" "length ''/l/x'' \<le> MAX_POLICY_URI_CHARS"
    by (simp_all add: sample_native_def createNativeFilesystemPolicyBase_def sample_runtime_def MAX_POLICY_URI_CHARS_def)
  have v: "view_principal (viewHeap sample_native ! 0) = 0" "view_once (viewHeap sample_native ! 0) = 0"
    "base_principal (baseHeap sample_native ! view_base (viewHeap sample_native ! 0)) = view_principal (viewHeap sample_native ! 0)"
    by (simp_all add: sample_native_def createNativeFilesystemPolicyBase_def sample_runtime_def)
  show ?thesis
    using native_view_agrees_with_runtime [OF link_env_wf at c(2,1) v(3) r(1)] r unfolding v by blast
qed

lemma layers_baseHeap [simp]:
  "nativeFilesystemPolicyLayers (rt\<lparr>baseHeap := b, events := e\<rparr>) r = nativeFilesystemPolicyLayers rt r"
  by (simp add: nativeFilesystemPolicyLayers_def prin_def)

text \<open>no change of file rules goes unannounced: adding policies with a file status to a principal
  whose native base is open raises the revision of the base by one and tells every listener of
  the base, in order, the new revision with the layers as they are after the change.\<close>

theorem filesystem_change_is_published:
  fixes env rt r ps
  defines "rt' \<equiv> addPrincipalPolicies env ps rt r"
  assumes "map_of (nativeFilesystemPolicyBases rt) (agentIdentifier (prin rt r)) = Some b" and "b < length (baseHeap rt)"
    and "\<not> base_closed (baseHeap rt ! b)" and "filesystemPolicies ps \<noteq> []" and "r < length (heap rt)"
  shows "base_revision (baseHeap rt' ! b) = Suc (base_revision (baseHeap rt ! b))
    \<and> events rt' = events rt @ map (\<lambda>l. Base_Changed l \<lparr>native_revision = base_revision (baseHeap rt' ! b),
        native_layers = nativeFilesystemPolicyLayers rt' (base_principal (baseHeap rt ! b))\<rparr>) (base_listeners (baseHeap rt ! b))"
  using assms
  by (auto simp: addPrincipalPolicies_def Let_def notifyNativeFilesystemPolicyBase_def policyStateChanged_def base_snapshot_def prin_def)

section \<open>Defaults and fallback rules\<close>

text \<open>The fallback rule that a default response stands for.\<close>

definition fallback_rule :: "loaded_defaults \<Rightarrow> PolicyAccessType \<Rightarrow> PolicyStatus option" where
  "fallback_rule d at = map_option (\<lambda>st. createStatus at SESSION st ''Automated fallback'') (policyStatus (d (area_of at)))"

definition fallbacks_match :: "PolicyRuntime \<Rightarrow> bool" where
  "fallbacks_match rt \<longleftrightarrow> (\<forall>pat at. engine_rule (rootFallbackPolicies rt) pat at =
     (if pat = fallbackScope at then fallback_rule (defaultResponses rt) at else None))"

lemma area_of_iff: "area_of at = area \<longleftrightarrow> at \<in> set (policyAreaAccessTypes area)"
  by (cases at; cases area) (simp_all add: area_of_def policyAreaForAccessType_def POLICY_AREAS_def)

lemma area_fallbackScope: "at \<in> set (policyAreaAccessTypes area) \<Longrightarrow> fallbackScope at = fallbackScope (hd (policyAreaAccessTypes area))"
  by (cases area) (auto simp: fallbackScope_def)

lemma resolve_root:
  assumes "fs_wf env" "fs_tree env" "isFilesystemAccess at"
  shows "resolveUri env at ''/'' = ''/''"
proof -
  have root: "''/'' = abs_path []" by (simp add: abs_path_def)
  have phys: "resolvePhysicalPath env (abs_path []) = abs_path []"
  proof (cases "fs_exists env (abs_path [])")
    case True
    then obtain r where r: "fs_realpath env (abs_path []) = Some r" using assms(2) by (auto simp: fs_tree_def)
    then obtain rs where rs: "good_segments rs" "r = abs_path rs" "fs_realpath env r = Some r"
      using assms(1) unfolding fs_wf_def by blast
    then have "fs_realpath env (abs_path []) = Some (abs_path [])"
      using assms(2) unfolding fs_tree_def by (metis append_Nil list.pred_inject(1))
    then show ?thesis using resolvePhysicalPath_missing [of "[]" "[]" env] True by auto
  next
    case False
    then show ?thesis by (simp add: resolvePhysicalPath_def nea_root)
  qed
  then show ?thesis using assms(3) unfolding root by (auto simp: isFilesystemAccess_def resolveUri_def)
qed

lemma resolve_star: "\<not> isFilesystemAccess at \<Longrightarrow> resolveUri env at ''*'' = ''*''"
proof -
  assume "\<not> isFilesystemAccess at"
  then have "resolveUri env at ''*'' = fullUri (new_ParsedUri ''*'')" by (cases at) (simp_all add: resolveUri_def isFilesystemAccess_def)
  also have "\<dots> = ''*''" by code_simp
  finally show ?thesis .
qed

lemma resolve_fallbackScope:
  "fs_wf env \<Longrightarrow> fs_tree env \<Longrightarrow> resolveUri env at (fallbackScope at) = fallbackScope at"
  using resolve_root [of env at] resolve_star [of at env]
  by (auto simp: fallbackScope_def isFilesystemAccess_def UNIVERSAL_NETWORK_POLICY_PATTERN_def)

lemma hd_in_area: "hd (policyAreaAccessTypes area) \<in> set (policyAreaAccessTypes area)"
  by (rule hd_in_set) simp

lemma map_of_area:
  "map_of (map (\<lambda>at. (at, f at)) ts) at = (if at \<in> set ts then Some (f at) else None)"
  by (induction ts) auto

lemma engine_rule_fallback_update:
  assumes env: "fs_wf env" "fs_tree env" and wf: "engine_wf eng"
  shows "engine_rule (fallback_update env area response eng) pat at =
    (if pat = fallbackScope at \<and> area_of at = area
     then map_option (\<lambda>st. createStatus at SESSION st ''Automated fallback'') (policyStatus response)
     else engine_rule eng pat at)"
proof -
  let ?ts = "policyAreaAccessTypes area" and ?pat = "fallbackScope (hd (policyAreaAccessTypes area))"
  have r: "resolveUri env (hd ?ts) ?pat = ?pat" using resolve_fallbackScope [OF env] by blast
  obtain t ts where ts: "?ts = t # ts" by (cases ?ts) auto
  have scope: "at \<in> set ?ts \<Longrightarrow> fallbackScope at = ?pat" by (rule area_fallbackScope)
  show ?thesis
  proof (cases "policyStatus response")
    case None
    have "standardizeDeleteRequest env \<lparr>delete_uri = ?pat, delete_accessTypes = ?ts\<rparr> = \<lparr>delete_uri = ?pat, delete_accessTypes = ?ts\<rparr>"
      using r ts by (simp add: standardizeDeleteRequest_def)
    then show ?thesis using None wf scope
      by (auto simp: fallback_update_def Let_def removePolicies_def engine_rule_removePolicy area_of_iff)
  next
    case (Some st)
    let ?p = "\<lparr>pattern = ?pat, info = map (\<lambda>at. (at, createStatus at SESSION st ''Automated fallback'')) ?ts\<rparr>"
    have "pattern (standardizePolicy env ?p) = ?pat" using r ts by (simp add: standardizePolicy_def createStatus_def)
    moreover have "info_wf (info ?p)" by (simp add: info_wf_fallback)
    ultimately show ?thesis using Some scope
      by (auto simp: fallback_update_def Let_def addPolicies_def engine_rule_addPolicy map_of_area area_of_iff)
  qed
qed

text \<open>setting a default response keeps the fallback rules of the root in step with the defaults:
  afterwards the area has the given response, every access type has exactly the fallback rule its
  area's response stands for, and the revision of the area is raised exactly when the response
  changed.\<close>

theorem default_response_sets_fallback:
  assumes "fs_wf env" and "fs_tree env" and "rt_wf rt" and "fallbacks_match rt"
  shows "\<exists>rt'. setDefaultResponse env area response rt = Inr rt' \<and> fallbacks_match rt'
    \<and> defaultResponses rt' = (defaultResponses rt)(area := response)
    \<and> fallbackRevisions rt' area = (if defaultResponses rt area = response then fallbackRevisions rt area
        else Suc (fallbackRevisions rt area))"
proof (cases "defaultResponses rt area = response")
  case True
  then show ?thesis using assms(4) by (auto simp: setDefaultResponse_def)
next
  case False
  let ?rt1 = "rt\<lparr>defaultResponses := (defaultResponses rt)(area := response),
    fallbackRevisions := (fallbackRevisions rt)(area := Suc (fallbackRevisions rt area))\<rparr>"
  have "tree_wf ?rt1" "engine_wf (rootFallbackPolicies rt)"
    using assms(3) by (simp_all add: rt_wf_def tree_wf_def engines_wf_def)
  from setFallback_cases [OF this(1), of env area response] obtain rt' where
    rt': "setFallback env area response ?rt1 = Inr rt'" "defaultResponses rt' = (defaultResponses rt)(area := response)"
    "fallbackRevisions rt' area = Suc (fallbackRevisions rt area)"
    "rootFallbackPolicies rt' = fallback_update env area response (rootFallbackPolicies rt)" by auto
  have "fallbacks_match rt'"
    using assms(4) engine_rule_fallback_update [OF assms(1,2) \<open>engine_wf (rootFallbackPolicies rt)\<close>]
    unfolding fallbacks_match_def rt'(2,4) by (auto simp: fallback_rule_def)
  with rt' False show ?thesis by (auto simp: setDefaultResponse_def)
qed

lemma sample_fallbacks: "fallbacks_match sample_runtime"
proof -
  have "engine_rule (rootFallbackPolicies sample_runtime) pat at = None" for pat at
    by (simp add: sample_runtime_def engine_rule_def)
  then show ?thesis by (auto simp: fallbacks_match_def fallback_rule_def sample_runtime_def policyStatus_def)
qed

lemma setDefaultResponses_loaded:
  assumes "tree_wf rt"
  shows "\<exists>rt'. setDefaultResponses env d areas rt = Inr rt' \<and> tree_wf rt'
    \<and> defaultResponses rt' = (\<lambda>a. if a \<in> set areas then d a else defaultResponses rt a)"
  using assms
proof (induction areas arbitrary: rt)
  case (Cons area areas)
  have "\<exists>rt1. setDefaultResponse env area (d area) rt = Inr rt1 \<and> tree_wf rt1
      \<and> defaultResponses rt1 = (defaultResponses rt)(area := d area)"
  proof (cases "defaultResponses rt area = d area")
    case True
    then have "defaultResponses rt = (defaultResponses rt)(area := d area)" by (simp add: fun_upd_idem)
    then show ?thesis using True Cons.prems by (simp add: setDefaultResponse_def)
  next
    case False
    let ?rt1 = "rt\<lparr>defaultResponses := (defaultResponses rt)(area := d area),
      fallbackRevisions := (fallbackRevisions rt)(area := Suc (fallbackRevisions rt area))\<rparr>"
    have "tree_wf ?rt1" using Cons.prems by (simp add: tree_wf_def)
    from setFallback_cases [OF this, of env area "d area"] show ?thesis
      using False Cons.prems by (auto simp: setDefaultResponse_def tree_wf_def)
  qed
  then obtain rt1 where rt1: "setDefaultResponse env area (d area) rt = Inr rt1" "tree_wf rt1"
    "defaultResponses rt1 = (defaultResponses rt)(area := d area)" by blast
  from Cons.IH [OF rt1(2)] rt1 show ?case by (auto simp: fun_eq_iff)
qed simp

text \<open>resetting the defaults installs the stored file as it is: an area that the file does not
  mention is left without any response, while construction from the same file gives that area its
  built-in response. A partial defaults file therefore means one thing at start and another after
  a reset.\<close>

theorem reset_forgets_missing_areas:
  assumes "rt_wf rt"
  shows "\<exists>rt'. resetDefaultResponses env (Some d) rt = Inr rt' \<and> defaultResponses rt' = d
    \<and> (d area = None \<longrightarrow> defaultResponses rt' area = None \<and> mergedDefaults (Some d) area = Some (initialPolicyDefaults area))"
  using setDefaultResponses_loaded [of rt env d POLICY_AREAS] assms
  by (auto simp: resetDefaultResponses_def rt_wf_def mergedDefaults_def)

section \<open>A decision of the user answers later requests\<close>

text \<open>An engine whose only rule about a target is a given one.\<close>

definition only_rule :: "fs_env \<Rightarrow> PolicyAccessType \<Rightarrow> string \<Rightarrow> string \<Rightarrow> PolicyStatus \<Rightarrow> engine \<Rightarrow> bool" where
  "only_rule env at uri pat st eng \<longleftrightarrow> engine_wf eng \<and> engine_rule eng pat at = Some st
     \<and> (\<forall>pat' st'. engine_rule eng pat' at = Some st' \<longrightarrow> pat' \<noteq> pat \<longrightarrow> \<not> policyScopeCovers env at pat' uri)"

lemma applies_rule: "engine_wf eng \<Longrightarrow> p \<in> set eng \<Longrightarrow> applies env at uri p st \<longleftrightarrow>
    engine_rule eng (pattern p) at = Some st \<and> policyScopeCovers env at (pattern p) uri"
  by (simp add: applies_def engine_rule_mem)

lemma match_loop_only:
  assumes "only_rule env at uri pat st eng" "policyScopeCovers env at pat uri"
  shows "match_loop env at uri None eng = Some (pat, st)"
proof -
  have wf: "engine_wf eng" "engine_rule eng pat at = Some st" using assms(1) by (auto simp: only_rule_def)
  then obtain p where p: "p \<in> set eng" "pattern p = pat" by (auto dest!: engine_rule_SomeD)
  then have "applies env at uri p st" using wf assms(2) by (simp add: applies_rule)
  then obtain b bs where b: "match_loop env at uri None eng = Some (b, bs)"
    using p match_loop_None_iff [of env at uri eng] by (cases "match_loop env at uri None eng") auto
  from match_loop_Some [OF b] obtain q where q: "q \<in> set eng" "pattern q = b" "applies env at uri q bs" by auto
  then have "engine_rule eng b at = Some bs" "policyScopeCovers env at b uri" using applies_rule [OF wf(1) q(1)] by auto
  then show ?thesis using assms(1) wf(2) b unfolding only_rule_def by auto
qed

lemma no_rule_covers:
  assumes "engine_wf eng" "match_loop env at uri None eng = None" "engine_rule eng pat at = Some st"
  shows "\<not> policyScopeCovers env at pat uri"
  using assms match_loop_None_iff [of env at uri eng] engine_rule_SomeD [OF assms(3)] applies_rule [OF assms(1)] by auto

lemma only_rule_add:
  assumes wf: "engine_wf eng" and i: "info p = [(at, st)]" "accessType st = at"
    and pat: "pat = resolveUri env at (pattern p)"
    and old: "\<And>pat' st'. engine_rule eng pat' at = Some st' \<Longrightarrow> pat' \<noteq> pat \<Longrightarrow> \<not> policyScopeCovers env at pat' uri"
  shows "only_rule env at uri pat st (addPolicies env eng [p])"
proof -
  have iw: "info_wf (info p)" using i by (simp add: info_wf_def od_keys_distinct_def)
  have "pattern (standardizePolicy env p) = pat" using i pat by (simp add: standardizePolicy_def)
  then have r: "engine_rule (addPolicies env eng [p]) pat' at = (if pat' = pat then Some st else engine_rule eng pat' at)" for pat'
    using iw i by (simp add: addPolicies_def engine_rule_addPolicy)
  moreover have "engine_wf (addPolicies env eng [p])" using wf iw by (intro addPolicies_wf) simp_all
  ultimately show ?thesis using old unfolding only_rule_def by auto
qed

lemma addPrincipalPolicies_policies:
  "policies (prin (addPrincipalPolicies env ps rt r') r) =
    (if r = r' \<and> r < length (heap rt) then addPolicies env (policies (prin rt r)) ps else policies (prin rt r))"
  by (cases "r = r'"; cases "r' < length (heap rt)")
    (auto simp: prin_def addPrincipalPolicies_heap nth_list_update list_update_beyond)

lemma addPrincipalPolicies_length: "length (heap (addPrincipalPolicies env ps rt r)) = length (heap rt)"
  by (simp add: addPrincipalPolicies_heap)

lemma only_rule_fold:
  assumes "only_rule env at uri pat st (policies (prin rt r))" "info p = [(at, st)]" "accessType st = at"
    "pat = resolveUri env at (pattern p)"
  shows "only_rule env at uri pat st (policies (prin (foldl (addPrincipalPolicies env [p]) rt rs) r))"
  using assms(1)
proof (induction rs arbitrary: rt)
  case (Cons q rs)
  have "only_rule env at uri pat st (addPolicies env (policies (prin rt r)) [p])"
    using Cons.prems assms(2-4) by (intro only_rule_add) (auto simp: only_rule_def)
  then have "only_rule env at uri pat st (policies (prin (addPrincipalPolicies env [p] rt q) r))"
    using Cons.prems by (auto simp: addPrincipalPolicies_policies)
  from Cons.IH [OF this] show ?case by simp
qed simp

text \<open>C6: a decision of the user that outlives the request answers the next one: after the user decided a pending request
  for the session or for good, in its access type and with a scope that covers the target, and when the pending target
  resolves to itself, the same access by the same principal is answered at once by the rule of that decision, with the
  user's status.  (Both conditions can fail for network targets: the scope \<open>e.com/a/b\<close> that is offered for
  \<open>e.com/a//b/\<close> does not cover it, and an invalid target may resolve to another one; the user is then asked again.)\<close>

theorem user_decision_answers_next_request:
  assumes "rt_wf rt" and "completeUserApproval env now ms rt p s fb ctx c signal = Inr (rt', r)"
    and "resolutionSource r = NEW_USER_DECISION" and "choice_lifetime c \<noteq> ONCE"
    and "choice_accessType c = pend_accessType p" and "root_path rt (pend_requester p) (snap_path s)"
    and "resolveUri env (pend_accessType p) (pend_uri p) = pend_uri p"
    and "policyScopeCovers env (pend_accessType p) (resolveUri env (pend_accessType p) (choice_uri c)) (pend_uri p)"
  shows "\<exists>a. automated_result env rt' (pend_requester p) k (pend_uri p) (pend_accessType p) = Some a
    \<and> matchedStatus a = choice_status c \<and> matchedPattern a = resolveUri env (pend_accessType p) (choice_uri c)"
  using assms(2)
proof (cases rule: completeUserApproval_cases)
  case unchanged
  then show ?thesis using assms(3) by simp
next
  case (decided root dao rtm)
  let ?at = "pend_accessType p" and ?uri = "pend_uri p" and ?r = "pend_requester p"
  let ?pat = "resolveUri env ?at (choice_uri c)"
  have tree: "tree_wf rt" and engs: "list_all (\<lambda>p. engine_wf (policies p)) (heap rt)"
    using assms(1) by (auto simp: rt_wf_def engines_wf_def)
  have live: "live rt ?r" using assms(6) by (cases "snap_path s") (auto simp: root_path_def)
  then have len: "?r < length (heap rt)" by (simp add: live_def)
  have wf: "engine_wf (policies (prin rt ?r))" using engs len by (simp add: prin_def list_all_length)
  have "match_loop env ?at ?uri None (policies (prin rt ?r)) = None"
    using decided(8) assms(7)
    by (auto simp: resolved_while_pending_def engine_evaluate_def evaluateStoredPolicies_def split: option.splits)
  note old = no_rule_covers [OF wf this]
  have root: "map_of (principals rt) (rootAgentIdentifier rt) = Some root"
    using decided(1) by (auto simp: requirePrincipal_def split: option.splits)
  define rtd where "rtd = (if isPersistedLifetime (choice_lifetime c) then rt\<lparr>database := dao\<rparr> else rt)"
  have rtm: "rtm = addPrincipalPolicies env [policyFromChoice c] rtd root"
    using decided(9) assms(4) by (auto simp: rtd_def isPersistedLifetime_def)
  have rtd: "policies (prin rtd x) = policies (prin rt x)" "length (heap rtd) = length (heap rt)" for x
    by (simp_all add: rtd_def prin_def)
  have core: "policies (prin rt' x) = policies (prin (foldl (addPrincipalPolicies env [sessionPolicy (policyFromChoice c)]) rtm
      (user_receivers rtm ?r (snap_path s) c)) x)" for x
    using decided(10) by (simp add: same_core_def prin_def)
  have idr: "agentIdentifier (prin rtm ?r) = agentIdentifier (prin rt ?r)" "rootAgentIdentifier rtm = rootAgentIdentifier rt"
    using len unfolding rtm rtd_def
    by (cases "root = ?r"; simp add: prin_def addPrincipalPolicies_heap frame_simps)+
  have "\<exists>st. status st = choice_status c \<and> only_rule env ?at ?uri ?pat st (policies (prin rt' ?r))"
  proof (cases "agentIdentifier (prin rt ?r) = rootAgentIdentifier rt")
    case True
    then have "root = ?r" using root live by (simp add: live_def)
    moreover have "user_receivers rtm ?r (snap_path s) c = []" using True idr by (simp add: user_receivers_def)
    ultimately have "policies (prin rt' ?r) = addPolicies env (policies (prin rt ?r)) [policyFromChoice c]"
      using core [of ?r] len by (simp add: rtm addPrincipalPolicies_policies rtd)
    moreover have "only_rule env ?at ?uri ?pat (createStatus ?at (choice_lifetime c) (choice_status c) (choice_reason c))
        (addPolicies env (policies (prin rt ?r)) [policyFromChoice c])"
      using wf old assms(5) by (intro only_rule_add) (auto simp: policyFromChoice_def createStatus_def)
    ultimately show ?thesis by (metis PolicyStatus.select_convs(3) createStatus_def)
  next
    case False
    then obtain rest where rest: "user_receivers rtm ?r (snap_path s) c = ?r # rest"
      using assms(4,6) idr by (cases "snap_path s"; cases "tl (snap_path s)") (auto simp: user_receivers_def root_path_def)
    have "root \<noteq> ?r" using False root tree_wf_live [OF tree root] by auto
    then have pm: "policies (prin rtm ?r) = policies (prin rt ?r)" by (simp add: rtm addPrincipalPolicies_policies rtd)
    let ?p = "sessionPolicy (policyFromChoice c)"
    let ?st = "createStatus ?at SESSION (choice_status c) (choice_reason c)"
    have p: "info ?p = [(?at, ?st)]" "accessType ?st = ?at" "?pat = resolveUri env ?at (pattern ?p)"
      using assms(5) by (simp_all add: sessionPolicy_def policyFromChoice_def createStatus_def)
    have "only_rule env ?at ?uri ?pat ?st (policies (prin (addPrincipalPolicies env [?p] rtm ?r) ?r))"
      using len wf old p pm unfolding addPrincipalPolicies_policies
      by (auto simp: rtm addPrincipalPolicies_length rtd intro!: only_rule_add)
    from only_rule_fold [OF this p, of rest] have "only_rule env ?at ?uri ?pat ?st (policies (prin rt' ?r))"
      unfolding core rest by simp
    then show ?thesis by (metis PolicyStatus.select_convs(3) createStatus_def)
  qed
  then obtain st where st: "status st = choice_status c" "only_rule env ?at ?uri ?pat st (policies (prin rt' ?r))" by blast
  have "match_loop env ?at ?uri None (policies (prin rt' ?r)) = Some (?pat, st)"
    using match_loop_only [OF st(2) assms(8)] .
  then show ?thesis using st(1) assms(7)
    by (simp add: automated_result_def evaluatePrincipalAuthority_def engine_evaluate_def evaluateStoredPolicies_def)
qed

theorem user_decision_answers_next_request_witness:
  "\<exists>rt' r a. sample_user_completion = Inr (rt', r)
    \<and> automated_result link_env rt' 1 0 ''/k/x'' FS_READ = Some a \<and> matchedStatus a = ALLOWED \<and> matchedPattern a = ''/k''"
proof -
  have "case sample_user_completion of Inr (_, r) \<Rightarrow> resolutionSource r = NEW_USER_DECISION | _ \<Rightarrow> False" by code_simp
  then obtain rt' r where e: "sample_user_completion = Inr (rt', r)" and d: "resolutionSource r = NEW_USER_DECISION"
    by (auto split: sum.splits)
  let ?p = "\<lparr>pend_requester = 1, pend_uri = ''/k/x'', pend_accessType = FS_READ, pend_once = 0, pend_toolCall = sample_tool,
       pend_kind = pend_kind sample_pending\<rparr>"
  have path: "root_path sample_runtime (pend_requester ?p) (snap_path (principalPathSnapshot sample_runtime [1, 0]))" by code_simp
  have uri: "resolveUri link_env (pend_accessType ?p) (pend_uri ?p) = pend_uri ?p" by code_simp
  have cov: "policyScopeCovers link_env (pend_accessType ?p)
      (resolveUri link_env (pend_accessType ?p) (choice_uri (sample_choice FS_READ ''/k'' LOCAL))) (pend_uri ?p)" by code_simp
  have k: "resolveUri link_env FS_READ ''/k'' = ''/k''" by code_simp
  have c: "choice_lifetime (sample_choice FS_READ ''/k'' LOCAL) \<noteq> ONCE"
    "choice_accessType (sample_choice FS_READ ''/k'' LOCAL) = pend_accessType ?p"
    by (simp_all add: sample_choice_def)
  from user_decision_answers_next_request [OF sample_runtime_wf e [unfolded sample_user_completion_def] d c path uri cov, of 0]
  show ?thesis using e k by (auto simp: sample_choice_def)
qed

end
