(* ===== verification/Network_Protocol.thy ===== *)
theory Network_Protocol
  imports Policy_Types Parsed_Uri_Canonical
begin

text \<open>
  The text protocols between the network helpers and the broker:
  \<open>src/src/policy/network/network-queue-protocol.ts\<close> and
  \<open>src/src/policy/network/tcp-gateway-protocol.ts\<close>.  A record is a line of tab-separated fields;
  a thrown error is \<open>Inl\<close> of its message.  The theory shows that an accepted record is well formed
  and that the record of a well-formed event, as the helper prints it, is read back.
\<close>

section \<open>Events\<close>

datatype NetworkAddressFamily = IPV4 | IPV6
datatype NetworkDecision = ALLOW | DENY

record NetworkEndpoint =
  address :: string
  endpoint_port :: nat

text \<open>The operation of an event; only a DNS query carries a name and a record type.\<close>

datatype NetworkOperation = DNS_QUERY string string | TCP_CONNECT | UDP_FLOW

record NetworkQueueEvent =
  sequence :: nat
  family :: NetworkAddressFamily
  source :: NetworkEndpoint
  destination :: NetworkEndpoint
  operation :: NetworkOperation

datatype NetworkQueueMessage = READY | EVENT NetworkQueueEvent

fun familyValue :: "NetworkAddressFamily \<Rightarrow> string" where
  "familyValue IPV4 = ''IPV4''"
| "familyValue IPV6 = ''IPV6''"

fun decisionValue :: "NetworkDecision \<Rightarrow> string" where
  "decisionValue ALLOW = ''ALLOW''"
| "decisionValue DENY = ''DENY''"

definition tab :: char where "tab = CHR 0x09"

text \<open>A field of a record: \<open>undefined\<close> beyond the end.\<close>

definition field :: "string list \<Rightarrow> nat \<Rightarrow> string option" where
  "field fs i = (if i < length fs then Some (fs ! i) else None)"

section \<open>Field parsers\<close>

text \<open>The text of a positive integer, \<open>/^[1-9][0-9]*$/\<close>, that is safe as a number: numbers above the
  safe range are rounded to unsafe ones.\<close>

definition positive_integer :: "string option \<Rightarrow> nat option" where
  "positive_integer value = (case value of
       None \<Rightarrow> None
     | Some v \<Rightarrow> if v \<noteq> [] \<and> list_all is_digit v \<and> hd v \<noteq> CHR ''0'' \<and> read_nat v \<le> MAX_SAFE_INTEGER
                 then Some (read_nat v) else None)"

definition parsePositiveInteger :: "string option \<Rightarrow> string \<Rightarrow> string + nat" where
  "parsePositiveInteger value name = (case positive_integer value of
       None \<Rightarrow> Inl (''invalid network queue '' @ name) | Some n \<Rightarrow> Inr n)"

definition parsePort :: "string option \<Rightarrow> string \<Rightarrow> string + nat" where
  "parsePort value name = (case parsePositiveInteger value name of
       Inl e \<Rightarrow> Inl e
     | Inr p \<Rightarrow> if 65535 < p then Inl (''invalid network queue '' @ name) else Inr p)"

definition parseAddressFamily :: "string option \<Rightarrow> string + NetworkAddressFamily" where
  "parseAddressFamily value = (if value = Some ''IPV4'' then Inr IPV4 else if value = Some ''IPV6'' then Inr IPV6
     else Inl ''network queue helper sent an unsupported address family'')"

datatype NetworkTransport = tcp | udp

fun transportValue :: "NetworkTransport \<Rightarrow> string" where
  "transportValue tcp = ''tcp''"
| "transportValue udp = ''udp''"

definition parseTransport :: "string option \<Rightarrow> string + NetworkTransport" where
  "parseTransport value = (if value = Some ''tcp'' then Inr tcp else if value = Some ''udp'' then Inr udp
     else Inl ''network queue helper sent an unsupported transport'')"

definition ip_version :: "NetworkAddressFamily \<Rightarrow> nat" where
  "ip_version f = (if f = IPV4 then 4 else 6)"

definition address_ok :: "NetworkAddressFamily \<Rightarrow> string \<Rightarrow> bool" where
  "address_ok f a \<longleftrightarrow> a \<noteq> [] \<and> isIP a = ip_version f"

definition parseAddress :: "string option \<Rightarrow> NetworkAddressFamily \<Rightarrow> string \<Rightarrow> string + string" where
  "parseAddress value f name = (case value of
       Some v \<Rightarrow> if address_ok f v then Inr v else Inl (''invalid network queue '' @ name)
     | None \<Rightarrow> Inl (''invalid network queue '' @ name))"

definition label_edge :: "char \<Rightarrow> bool" where
  "label_edge c \<longleftrightarrow> (let n = (of_char c :: nat) in (97 \<le> n \<and> n \<le> 122) \<or> (48 \<le> n \<and> n \<le> 57) \<or> n = 95)"

text \<open>\<open>/^[a-z0-9_](?:[a-z0-9_-]{0,61}[a-z0-9_])?$/\<close>\<close>

definition dns_label :: "string \<Rightarrow> bool" where
  "dns_label l \<longleftrightarrow> l \<noteq> [] \<and> length l \<le> 63 \<and> label_edge (hd l) \<and> label_edge (last l)
     \<and> list_all (\<lambda>c. label_edge c \<or> c = CHR ''-'') l"

definition dns_name_ok :: "string \<Rightarrow> bool" where
  "dns_name_ok v \<longleftrightarrow> v \<noteq> [] \<and> length v \<le> 253 \<and> js_lower v = v \<and> list_all dns_label (split_on (CHR ''.'') v)"

definition parseDnsName :: "string option \<Rightarrow> string + string" where
  "parseDnsName value = (case value of
       Some v \<Rightarrow> if dns_name_ok v then Inr v else Inl ''invalid network queue DNS name''
     | None \<Rightarrow> Inl ''invalid network queue DNS name'')"

definition DNS_TYPE_NAMES :: "(nat \<times> string) list" where
  "DNS_TYPE_NAMES = [(1, ''A''), (2, ''NS''), (5, ''CNAME''), (6, ''SOA''), (12, ''PTR''), (15, ''MX''), (16, ''TXT''),
     (28, ''AAAA''), (33, ''SRV''), (64, ''SVCB''), (65, ''HTTPS''), (255, ''ANY'')]"

definition dns_type_name :: "nat \<Rightarrow> string" where
  "dns_type_name n = (case map_of DNS_TYPE_NAMES n of Some s \<Rightarrow> s | None \<Rightarrow> ''TYPE'' @ show_nat n)"

definition parseDnsType :: "string option \<Rightarrow> string + string" where
  "parseDnsType value = (case parsePositiveInteger value ''DNS type'' of
       Inl e \<Rightarrow> Inl e
     | Inr n \<Rightarrow> if 65535 < n then Inl ''invalid network queue DNS type'' else Inr (dns_type_name n))"

section \<open>Records\<close>

text \<open>The operation of an event: only a 13 field record carries DNS metadata, and only towards port 53.\<close>

definition parseOperation :: "string list \<Rightarrow> NetworkTransport \<Rightarrow> nat \<Rightarrow> string + NetworkOperation" where
  "parseOperation fs transport destinationPort =
     (if length fs = 13 then
        (if transport \<noteq> udp \<or> destinationPort \<noteq> 53 \<or> field fs 10 \<noteq> Some ''DNS''
         then Inl ''network queue helper sent malformed DNS metadata''
         else sum_bind (parseDnsName (field fs 11)) (\<lambda>name.
           sum_bind (parseDnsType (field fs 12)) (\<lambda>ty. Inr (DNS_QUERY name ty))))
      else if transport = udp \<and> destinationPort = 53 then Inl ''network queue helper omitted DNS query metadata''
      else Inr (if transport = tcp then TCP_CONNECT else UDP_FLOW))"

definition parseNetworkQueueMessage :: "string \<Rightarrow> string + NetworkQueueMessage" where
  "parseNetworkQueueMessage line = (let fs = split_on tab line in
     if field fs 0 \<noteq> Some ''PI_NETWORK_QUEUE'' \<or> field fs 1 \<noteq> Some ''3''
     then Inl ''network queue helper used an unsupported protocol''
     else if field fs 2 = Some ''READY'' \<and> length fs = 3 then Inr READY
     else if field fs 2 \<noteq> Some ''EVENT'' \<or> (length fs \<noteq> 10 \<and> length fs \<noteq> 13)
     then Inl ''network queue helper sent a malformed record''
     else sum_bind (parsePositiveInteger (field fs 3) ''sequence'') (\<lambda>sq.
       sum_bind (parseAddressFamily (field fs 4)) (\<lambda>fam.
       sum_bind (parseTransport (field fs 5)) (\<lambda>transport.
       sum_bind (parseAddress (field fs 6) fam ''source address'') (\<lambda>sa.
       sum_bind (parsePort (field fs 7) ''source port'') (\<lambda>sp.
       sum_bind (parseAddress (field fs 8) fam ''destination address'') (\<lambda>da.
       sum_bind (parsePort (field fs 9) ''destination port'') (\<lambda>dp.
       sum_bind (parseOperation fs transport dp) (\<lambda>op.
         Inr (EVENT \<lparr>sequence = sq, family = fam, source = \<lparr>address = sa, endpoint_port = sp\<rparr>,
                destination = \<lparr>address = da, endpoint_port = dp\<rparr>, operation = op\<rparr>))))))))))"

definition formatNetworkQueueVerdict :: "nat \<Rightarrow> NetworkDecision \<Rightarrow> string + string" where
  "formatNetworkQueueVerdict sq d = (if sq = 0 \<or> MAX_SAFE_INTEGER < sq then Inl ''invalid network queue sequence''
     else Inr (join_with [tab] [''PI_NETWORK_QUEUE'', ''3'', ''VERDICT'', show_nat sq, decisionValue d] @ newline))"

record TcpGatewayFlow =
  flow_family :: NetworkAddressFamily
  flow_source :: NetworkEndpoint
  flow_destination :: NetworkEndpoint

definition gateway_address :: "string option \<Rightarrow> NetworkAddressFamily \<Rightarrow> string \<Rightarrow> string + string" where
  "gateway_address value f name = (case value of
       Some v \<Rightarrow> if address_ok f v then Inr v else Inl (''invalid TCP gateway '' @ name)
     | None \<Rightarrow> Inl (''invalid TCP gateway '' @ name))"

definition gateway_port :: "string option \<Rightarrow> string \<Rightarrow> string + nat" where
  "gateway_port value name = (case positive_integer value of
       Some p \<Rightarrow> if 65535 < p then Inl (''invalid TCP gateway '' @ name) else Inr p
     | None \<Rightarrow> Inl (''invalid TCP gateway '' @ name))"

definition gateway_family :: "string option \<Rightarrow> string + NetworkAddressFamily" where
  "gateway_family value = (if value = Some ''IPV4'' then Inr IPV4 else if value = Some ''IPV6'' then Inr IPV6
     else Inl ''TCP gateway ingress sent an unsupported address family'')"

definition parseTcpGatewayFlow :: "string \<Rightarrow> string + TcpGatewayFlow" where
  "parseTcpGatewayFlow line = (let fs = split_on tab line in
     if field fs 0 \<noteq> Some ''PI_TCP_GATEWAY'' \<or> field fs 1 \<noteq> Some ''1''
     then Inl ''TCP gateway ingress used an unsupported protocol''
     else if field fs 2 \<noteq> Some ''FLOW'' \<or> length fs \<noteq> 8
     then Inl ''TCP gateway ingress sent a malformed flow record''
     else sum_bind (gateway_family (field fs 3)) (\<lambda>fam.
       sum_bind (gateway_address (field fs 4) fam ''source address'') (\<lambda>sa.
       sum_bind (gateway_port (field fs 5) ''source port'') (\<lambda>sp.
       sum_bind (gateway_address (field fs 6) fam ''destination address'') (\<lambda>da.
       sum_bind (gateway_port (field fs 7) ''destination port'') (\<lambda>dp.
         Inr \<lparr>flow_family = fam, flow_source = \<lparr>address = sa, endpoint_port = sp\<rparr>,
              flow_destination = \<lparr>address = da, endpoint_port = dp\<rparr>\<rparr>))))))"

section \<open>Accepted records are well formed\<close>

definition endpoint_ok :: "NetworkAddressFamily \<Rightarrow> NetworkEndpoint \<Rightarrow> bool" where
  "endpoint_ok f e \<longleftrightarrow> address_ok f (address e) \<and> 1 \<le> endpoint_port e \<and> endpoint_port e \<le> 65535"

lemma read_nat_acc_ge: "n \<le> foldl (\<lambda>n c. 10 * n + digit_val c) n s"
proof (induction s arbitrary: n)
  case (Cons c s)
  have "n \<le> 10 * n + digit_val c" by simp
  also have "\<dots> \<le> foldl (\<lambda>n c. 10 * n + digit_val c) (10 * n + digit_val c) s" by (rule Cons.IH)
  finally show ?case by simp
qed simp

lemma read_nat_pos: "v \<noteq> [] \<Longrightarrow> list_all is_digit v \<Longrightarrow> hd v \<noteq> CHR ''0'' \<Longrightarrow> 1 \<le> read_nat v"
proof (cases v)
  case (Cons c s)
  assume "list_all is_digit v" "hd v \<noteq> CHR ''0''"
  then have c: "is_digit c" "c \<noteq> CHR ''0''" using Cons by auto
  then have "1 \<le> digit_val c"
    using char_eq_of_char [of c "CHR ''0''"] by (auto simp: digit_val_def is_digit_def)
  then show ?thesis using read_nat_acc_ge [of "digit_val c" s] Cons by (simp add: read_nat_def)
qed simp

lemma positive_integer_Some: "positive_integer value = Some n \<Longrightarrow> 1 \<le> n \<and> n \<le> MAX_SAFE_INTEGER"
  using read_nat_pos by (auto simp: positive_integer_def split: option.splits if_splits)

lemma parsePositiveInteger_Inr: "parsePositiveInteger v name = Inr n \<Longrightarrow> 1 \<le> n \<and> n \<le> MAX_SAFE_INTEGER"
  using positive_integer_Some by (auto simp: parsePositiveInteger_def split: option.splits)

lemma parsePort_Inr: "parsePort v name = Inr n \<Longrightarrow> 1 \<le> n \<and> n \<le> 65535"
  using parsePositiveInteger_Inr by (auto simp: parsePort_def split: sum.splits if_splits)

lemma parseAddress_Inr: "parseAddress v f name = Inr a \<Longrightarrow> address_ok f a"
  by (auto simp: parseAddress_def split: option.splits if_splits)

lemma parseDnsName_Inr: "parseDnsName v = Inr a \<Longrightarrow> dns_name_ok a"
  by (auto simp: parseDnsName_def split: option.splits if_splits)

definition operation_ok :: "nat \<Rightarrow> NetworkOperation \<Rightarrow> bool" where
  "operation_ok destinationPort op \<longleftrightarrow> (case op of
       DNS_QUERY name ty \<Rightarrow> destinationPort = 53 \<and> dns_name_ok name
     | TCP_CONNECT \<Rightarrow> True
     | UDP_FLOW \<Rightarrow> destinationPort \<noteq> 53)"

definition event_ok :: "NetworkQueueEvent \<Rightarrow> bool" where
  "event_ok e \<longleftrightarrow> 1 \<le> sequence e \<and> sequence e \<le> MAX_SAFE_INTEGER \<and> endpoint_ok (family e) (source e)
     \<and> endpoint_ok (family e) (destination e) \<and> operation_ok (endpoint_port (destination e)) (operation e)"

lemma parseOperation_Inr: "parseOperation fs transport p = Inr op \<Longrightarrow> operation_ok p op"
  using parseDnsName_Inr
  by (cases transport) (auto simp: parseOperation_def operation_ok_def sum_bind_Inr split: if_splits)

lemmas parser_facts = parsePositiveInteger_Inr parsePort_Inr parseAddress_Inr parseOperation_Inr

text \<open>an accepted event of the packet queue is well formed: its sequence number is a positive safe
  integer, both ports are in range, both addresses are literals of the stated family, a DNS query
  goes to port 53 and names a valid lower-case host name, and no other datagram goes to port 53,
  so a name lookup can never pass as a plain flow.\<close>

theorem queue_events_well_formed:
  assumes "parseNetworkQueueMessage line = Inr (EVENT e)"
  shows "event_ok e"
  using assms unfolding parseNetworkQueueMessage_def Let_def
  by (auto simp: event_ok_def endpoint_ok_def sum_bind_Inr dest!: parser_facts split: if_splits)

section \<open>Records are read back\<close>

text \<open>The record of an event as the helper writes it (\<open>native/rust/src/network_queue.rs\<close>); a DNS query is
  written with the number of its record type.\<close>

definition operation_transport :: "NetworkOperation \<Rightarrow> NetworkTransport" where
  "operation_transport op = (if op = TCP_CONNECT then tcp else udp)"

definition record_fields :: "NetworkQueueEvent \<Rightarrow> nat \<Rightarrow> string list" where
  "record_fields e dnsType = [''PI_NETWORK_QUEUE'', ''3'', ''EVENT'', show_nat (sequence e), familyValue (family e),
       transportValue (operation_transport (operation e)), address (source e), show_nat (endpoint_port (source e)),
       address (destination e), show_nat (endpoint_port (destination e))]
     @ (case operation e of DNS_QUERY name ty \<Rightarrow> [''DNS'', name, show_nat dnsType] | _ \<Rightarrow> [])"

definition queue_record :: "NetworkQueueEvent \<Rightarrow> nat \<Rightarrow> string" where
  "queue_record e dnsType = join_with [tab] (record_fields e dnsType)"

definition dns_type_ok :: "NetworkQueueEvent \<Rightarrow> nat \<Rightarrow> bool" where
  "dns_type_ok e dnsType \<longleftrightarrow> (case operation e of
       DNS_QUERY name ty \<Rightarrow> 1 \<le> dnsType \<and> dnsType \<le> 65535 \<and> ty = dns_type_name dnsType | _ \<Rightarrow> True)"

lemma of_char_tab [simp]: "(of_char tab :: nat) = 9"
  by (simp add: tab_def)

lemma no_tab_digits [simp]: "tab \<notin> set (show_nat n)"
  using show_nat_digits [of n] by (auto simp: is_digit_def)

lemma address_no_tab: "address_ok f a \<Longrightarrow> tab \<notin> set a"
proof
  assume ok: "address_ok f a" and mem: "tab \<in> set a"
  have no: "\<not> is_digit tab" "tab \<noteq> CHR ''.''" "\<not> zone_char tab" "tab \<noteq> CHR ''%''"
    by (simp_all add: is_digit_def zone_char_def tab_def Let_def)
  from ok consider "is_ipv4 a" | "is_ipv6 a"
    by (auto simp: address_ok_def isIP_def ip_version_def split: if_splits)
  then show False using no is_ipv4_chars [OF _ mem] is_ipv6_chars [OF _ mem] by cases auto
qed

lemma dns_name_no_tab: "dns_name_ok n \<Longrightarrow> tab \<notin> set n"
proof
  assume ok: "dns_name_ok n" and mem: "tab \<in> set n"
  have "tab = CHR ''.'' \<or> (\<exists>w \<in> set (split_on (CHR ''.'') n). tab \<in> set w)"
    using set_split_on [of n "CHR ''.''"] mem by auto
  moreover have "tab \<noteq> CHR ''.''" by (simp add: tab_def)
  ultimately obtain w where "dns_label w" "tab \<in> set w"
    using ok by (auto simp: dns_name_ok_def list_all_iff)
  moreover have "\<not> label_edge tab" "tab \<noteq> CHR ''-''" by (simp_all add: label_edge_def Let_def tab_def)
  ultimately show False by (auto simp: dns_label_def list_all_iff)
qed

lemma positive_integer_show [simp]:
  "1 \<le> n \<Longrightarrow> n \<le> MAX_SAFE_INTEGER \<Longrightarrow> positive_integer (Some (show_nat n)) = Some n"
  using show_nat_leading [of n] show_nat_digits [of n] by (simp add: positive_integer_def list_all_iff)

lemma parsePort_show: "1 \<le> n \<Longrightarrow> n \<le> 65535 \<Longrightarrow> parsePort (Some (show_nat n)) name = Inr n"
  by (simp add: parsePort_def parsePositiveInteger_def MAX_SAFE_INTEGER_def)

lemma parseDnsType_show: "1 \<le> n \<Longrightarrow> n \<le> 65535 \<Longrightarrow> parseDnsType (Some (show_nat n)) = Inr (dns_type_name n)"
  by (simp add: parseDnsType_def parsePositiveInteger_def MAX_SAFE_INTEGER_def)

lemma parse_values [simp]:
  "parseAddressFamily (Some (familyValue f)) = Inr f"
  "parseTransport (Some (transportValue t)) = Inr t"
  by (cases f, simp_all add: parseAddressFamily_def) (cases t, simp_all add: parseTransport_def)

lemma record_fields_no_tab:
  assumes "event_ok e" shows "\<forall>w \<in> set (record_fields e k). tab \<notin> set w"
proof -
  have "tab \<notin> set (familyValue f)" "tab \<notin> set (transportValue t)" for f t
    by (cases f, simp_all add: tab_def) (cases t, simp_all add: tab_def)
  moreover have "tab \<notin> set (address (source e))" "tab \<notin> set (address (destination e))"
    using assms address_no_tab by (auto simp: event_ok_def endpoint_ok_def)
  moreover have "operation e = DNS_QUERY name ty \<Longrightarrow> tab \<notin> set name" for name ty
    using assms dns_name_no_tab by (auto simp: event_ok_def operation_ok_def)
  moreover have "tab \<notin> set ''PI_NETWORK_QUEUE''" "tab \<notin> set ''3''" "tab \<notin> set ''EVENT''" "tab \<notin> set ''DNS''"
    by (simp_all add: tab_def)
  ultimately show ?thesis
    by (cases "operation e") (simp_all add: record_fields_def)
qed

lemma split_queue_record: "event_ok e \<Longrightarrow> split_on tab (queue_record e k) = record_fields e k"
  unfolding queue_record_def by (rule split_join [OF _ record_fields_no_tab]) (simp_all add: record_fields_def)

text \<open>The record of a well-formed event, with the number of its DNS record type, is accepted and
  read back as exactly that event.\<close>

theorem queue_record_roundtrip:
  assumes "event_ok e" and "dns_type_ok e dnsType"
  shows "parseNetworkQueueMessage (queue_record e dnsType) = Inr (EVENT e)"
proof -
  have [simp]: "address_ok (family e) (address (source e))" "address_ok (family e) (address (destination e))"
    "1 \<le> sequence e" "sequence e \<le> MAX_SAFE_INTEGER"
    "parsePort (Some (show_nat (endpoint_port (source e)))) n = Inr (endpoint_port (source e))"
    "parsePort (Some (show_nat (endpoint_port (destination e)))) n = Inr (endpoint_port (destination e))" for n
    using assms(1) by (auto simp: event_ok_def endpoint_ok_def parsePort_show)
  have [simp]: "op = operation e \<Longrightarrow> dp = endpoint_port (destination e) \<Longrightarrow> \<lparr>sequence = sequence e, family = family e,
      source = \<lparr>address = address (source e), endpoint_port = endpoint_port (source e)\<rparr>,
      destination = \<lparr>address = address (destination e), endpoint_port = dp\<rparr>,
      operation = op\<rparr> = e" for op dp
    by simp
  show ?thesis using assms
    by (cases "operation e")
      (auto simp: parseTransport_def parsePort_show parseNetworkQueueMessage_def split_queue_record Let_def record_fields_def field_def
        parsePositiveInteger_def parseAddress_def operation_transport_def dns_type_ok_def parseDnsType_show
        parseDnsName_def event_ok_def operation_ok_def parseOperation_def)
qed

definition example_event :: NetworkQueueEvent where
  "example_event = \<lparr>sequence = 7, family = IPV4, source = \<lparr>address = ''10.0.0.2'', endpoint_port = 4000\<rparr>,
     destination = \<lparr>address = ''10.0.0.1'', endpoint_port = 53\<rparr>, operation = DNS_QUERY ''example.org'' ''AAAA''\<rparr>"

end
