(* ===== verification/Network_Policy.thy ===== *)
theory Network_Policy
  imports Network_Protocol
begin

text \<open>
  Network decisions: \<open>src/src/policy/network/NetworkPolicy.ts\<close> and
  \<open>src/src/policy/network/NetworkPolicyAuthorizer.ts\<close>.  An event is projected to a scope; a decision that
  covers the scope is reused, otherwise the authorizer asks the policy evaluator of the tool call.
  The question is asynchronous, so a decision is split at the question: \<open>decide_begin\<close> and
  \<open>decide_finish\<close>, and \<open>coordinator_run\<close> interleaves them in any way.  The theory shows that a scope
  addresses exactly its target, that an answer never changes, and that an allowed event rests on an
  answer of the policy evaluator for the same target.
\<close>

section \<open>Targets, events and scopes\<close>

record NetworkPolicyGranularity =
  distinguishOperation :: bool
  distinguishAddressFamily :: bool

definition DEFAULT_NETWORK_POLICY_GRANULARITY :: NetworkPolicyGranularity where
  "DEFAULT_NETWORK_POLICY_GRANULARITY = \<lparr>distinguishOperation = False, distinguishAddressFamily = False\<rparr>"

datatype NetworkTargetKind = HOSTNAME | IP | LOCALHOST

text \<open>The four forms of a target: a name to resolve; a named flow with hostname, port, address and
  synthetic address; an address with a port; a local address with a port.\<close>

datatype NetworkPolicyTarget =
    HostnameResolution string
  | HostnameFlow string nat string string
  | IpTarget string nat
  | LocalhostTarget string nat

fun target_kind :: "NetworkPolicyTarget \<Rightarrow> NetworkTargetKind" where
  "target_kind (HostnameResolution h) = HOSTNAME"
| "target_kind (HostnameFlow h p a s) = HOSTNAME"
| "target_kind (IpTarget a p) = IP"
| "target_kind (LocalhostTarget a p) = LOCALHOST"

fun target_name :: "NetworkPolicyTarget \<Rightarrow> string" where
  "target_name (HostnameResolution h) = h"
| "target_name (HostnameFlow h p a s) = h"
| "target_name (IpTarget a p) = a"
| "target_name (LocalhostTarget a p) = ''localhost''"

fun target_port :: "NetworkPolicyTarget \<Rightarrow> nat option" where
  "target_port (HostnameResolution h) = None"
| "target_port (HostnameFlow h p a s) = Some p"
| "target_port (IpTarget a p) = Some p"
| "target_port (LocalhostTarget a p) = Some p"

record NetworkPolicyEvent = NetworkQueueEvent +
  event_target :: NetworkPolicyTarget

record NetworkPolicyScope =
  scope_targetKind :: NetworkTargetKind
  scope_target :: string
  scope_port :: "nat option"
  scope_operation :: string
  scope_family :: string

record NetworkDecisionRecord =
  record_scope :: NetworkPolicyScope
  record_decision :: NetworkDecision

fun is_dns_query :: "NetworkOperation \<Rightarrow> bool" where
  "is_dns_query (DNS_QUERY name ty) = True"
| "is_dns_query op = False"

section \<open>The projector\<close>

definition projectPort :: "NetworkPolicyEvent \<Rightarrow> string + nat option" where
  "projectPort event = (if is_dns_query (operation event) then Inr None
     else (case target_port (event_target event) of
         Some p \<Rightarrow> if p < 1 \<or> 65535 < p then Inl ''network flow target has an invalid port'' else Inr (Some p)
       | None \<Rightarrow> Inl ''network flow target has an invalid port''))"

definition projectOperation :: "NetworkPolicyGranularity \<Rightarrow> NetworkPolicyEvent \<Rightarrow> string" where
  "projectOperation g event = (if \<not> distinguishOperation g then ''ANY'' else
     (case operation event of
        TCP_CONNECT \<Rightarrow> ''TCP_CONNECT''
      | UDP_FLOW \<Rightarrow> ''UDP_FLOW''
      | DNS_QUERY name ty \<Rightarrow> if ty = ''A'' \<or> ty = ''AAAA'' then ''DNS_ADDRESS'' else ''DNS_'' @ ty))"

definition projectFamily :: "NetworkPolicyGranularity \<Rightarrow> NetworkPolicyEvent \<Rightarrow> string" where
  "projectFamily g event = (if \<not> distinguishAddressFamily g then ''ANY''
     else if is_dns_query (operation event) then ''NONE'' else familyValue (family event))"

definition project :: "NetworkPolicyGranularity \<Rightarrow> NetworkPolicyEvent \<Rightarrow> string + NetworkPolicyScope" where
  "project g event = sum_bind (projectPort event) (\<lambda>p.
     Inr \<lparr>scope_targetKind = target_kind (event_target event), scope_target = target_name (event_target event),
          scope_port = p, scope_operation = projectOperation g event, scope_family = projectFamily g event\<rparr>)"

definition network_covers :: "NetworkPolicyScope \<Rightarrow> NetworkPolicyScope \<Rightarrow> bool" where
  "network_covers rule candidate \<longleftrightarrow> scope_targetKind rule = scope_targetKind candidate
     \<and> scope_target rule = scope_target candidate
     \<and> scope_operation rule = scope_operation candidate
     \<and> scope_family rule = scope_family candidate
     \<and> (scope_port rule = None \<or> scope_port rule = scope_port candidate)"

section \<open>The coordinator\<close>

record NetworkDecisionCoordinator =
  granularity :: NetworkPolicyGranularity
  decisions :: "NetworkDecisionRecord list"

definition new_NetworkDecisionCoordinator :: "NetworkPolicyGranularity \<Rightarrow> NetworkDecisionCoordinator" where
  "new_NetworkDecisionCoordinator g = \<lparr>granularity = g, decisions = []\<rparr>"

text \<open>The part of \<open>decide\<close> before the question: a decision that is reused, or a scope to ask for.  What
  the reuse callback does, or throws, has no influence (\<open>reportReuse\<close>).\<close>

datatype decide_start = Reuse NetworkPolicyScope NetworkDecision | Ask NetworkPolicyScope

definition decide_begin :: "NetworkDecisionCoordinator \<Rightarrow> NetworkPolicyEvent \<Rightarrow> string + decide_start" where
  "decide_begin c event = sum_bind (project (granularity c) event) (\<lambda>scope.
     case find (\<lambda>r. network_covers (record_scope r) scope) (decisions c) of
       Some r \<Rightarrow> Inr (Reuse (record_scope r) (record_decision r))
     | None \<Rightarrow> Inr (Ask scope))"

text \<open>The part after it, with what the decider delivered: an exception, or a decision, \<open>None\<close> standing
  for any value other than the two decisions.\<close>

definition decide_finish ::
    "NetworkDecisionCoordinator \<Rightarrow> NetworkPolicyScope \<Rightarrow> string + NetworkDecision option
      \<Rightarrow> NetworkDecisionCoordinator \<times> (string + NetworkDecision)" where
  "decide_finish c scope answer = (case answer of
       Inl e \<Rightarrow> (c, Inl e)
     | Inr None \<Rightarrow> (c, Inl ''invalid network decision'')
     | Inr (Some d) \<Rightarrow> (c\<lparr>decisions := decisions c @ [\<lparr>record_scope = scope, record_decision = d\<rparr>]\<rparr>, Inr d))"

section \<open>The authorizer\<close>

definition networkScopeUri :: "NetworkPolicyScope \<Rightarrow> string" where
  "networkScopeUri scope = (case scope_port scope of
       None \<Rightarrow> scope_target scope
     | Some p \<Rightarrow> (if CHR '':'' \<in> set (scope_target scope) then ''['' @ scope_target scope @ '']''
                   else scope_target scope) @ '':'' @ show_nat p)"

fun networkAccessType :: "NetworkOperation \<Rightarrow> PolicyAccessType" where
  "networkAccessType (DNS_QUERY name ty) = DNS_ACCESS"
| "networkAccessType TCP_CONNECT = TCP_ACCESS"
| "networkAccessType UDP_FLOW = UDP_ACCESS"

text \<open>The evaluator of the tool call, which may fail, is an argument; the second result is what is reported.\<close>

definition authorizer_decide ::
    "(string \<Rightarrow> PolicyAccessType \<Rightarrow> string + PolicyResult) \<Rightarrow> NetworkPolicyEvent \<Rightarrow> NetworkPolicyScope
      \<Rightarrow> string + NetworkDecision \<times> string list" where
  "authorizer_decide evaluator event scope =
     sum_bind (evaluator (networkScopeUri scope) (networkAccessType (operation event))) (\<lambda>result.
       if matchedStatus result = ALLOWED then Inr (ALLOW, [])
       else Inr (DENY, [toDenyMessage result]))"

definition authorizeHttpRequest ::
    "(string \<Rightarrow> PolicyAccessType \<Rightarrow> string + PolicyResult) \<Rightarrow> string \<Rightarrow> string \<Rightarrow> string + bool \<times> string list" where
  "authorizeHttpRequest evaluator url method =
     sum_bind (evaluator url (httpMethodAccessType method)) (\<lambda>result.
       if matchedStatus result = ALLOWED then Inr (True, []) else Inr (False, [toDenyMessage result]))"

section \<open>A scope addresses exactly its target\<close>

text \<open>A target as the packet queue, the synthetic resolver and the gateway produce it: a valid lower-case
  host name, or an address literal in lower case.\<close>

definition target_ok :: "NetworkPolicyTarget \<Rightarrow> bool" where
  "target_ok t \<longleftrightarrow> (case t of
       HostnameResolution h \<Rightarrow> dns_name_ok h
     | HostnameFlow h p a s \<Rightarrow> dns_name_ok h
     | IpTarget a p \<Rightarrow> isIP a \<noteq> 0 \<and> js_lower a = a
     | LocalhostTarget a p \<Rightarrow> True)"

lemma dns_name_chars: "dns_name_ok h \<Longrightarrow> x \<in> set h \<Longrightarrow> label_edge x \<or> x = CHR ''-'' \<or> x = CHR ''.''"
  using set_split_on [of h "CHR ''.''"] by (auto simp: dns_name_ok_def dns_label_def list_all_iff)

lemma isIP_chars: "isIP a \<noteq> 0 \<Longrightarrow> x \<in> set a \<Longrightarrow> zone_char x \<or> x = CHR ''%''"
  using is_ipv4_chars [of a x] is_ipv6_chars [of a x] zone_char_cases [of x]
  by (auto simp: isIP_def split: if_splits)

lemma label_char_not:
  "label_edge x \<or> x = CHR ''-'' \<or> x = CHR ''.'' \<Longrightarrow>
     x \<notin> {CHR ''/'', CHR ''?'', CHR ''#'', CHR '':'', CHR ''[''} \<and> \<not> is_ws x"
  by (auto simp: label_edge_def Let_def is_ws_def)

lemma zone_char_not_sep:
  "zone_char x \<or> x = CHR ''%'' \<Longrightarrow> x \<notin> {CHR ''/'', CHR ''?'', CHR ''#'', CHR ''[''} \<and> \<not> is_ws x"
  by (auto simp: zone_char_def Let_def is_ws_def)

lemma isIP_4_no_colon: "isIP a = 4 \<Longrightarrow> CHR '':'' \<notin> set a"
  using is_ipv4_chars digit_not by (fastforce simp: isIP_def split: if_splits)

lemma isIP_6_colon: "isIP a = 6 \<Longrightarrow> CHR '':'' \<in> set a"
  using is_ipv6_colons [of a] count_notin [of "CHR '':''" a] by (fastforce simp: isIP_def split: if_splits)

lemma isIP_cases: "isIP a \<noteq> 0 \<Longrightarrow> isIP a = 4 \<or> isIP a = 6"
  by (simp add: isIP_def split: if_splits)

lemma isIP_nonempty: "isIP a \<noteq> 0 \<Longrightarrow> a \<noteq> []"
  by (auto simp: isIP_def is_ipv4_def is_ipv6_def v6_address_def v4_segment_def v6_segment_def split: if_splits)

lemma prefix_bracket_mem: "prefix ''['' h \<Longrightarrow> CHR ''['' \<in> set h"
  by (auto simp: prefix_def)

text \<open>Hosts that a scope can name: canonical and free of white space.\<close>

definition plain_host :: "string \<Rightarrow> bool" where
  "plain_host h \<longleftrightarrow> canonical_host h \<and> (\<forall>x \<in> set h. \<not> is_ws x)"

lemma dns_name_plain: "dns_name_ok h \<Longrightarrow> plain_host h"
  using dns_name_chars [of h] label_char_not prefix_bracket_mem [of h]
  by (auto simp: plain_host_def canonical_host_def dns_name_ok_def)

lemma ip_plain:
  assumes "isIP a \<noteq> 0" "js_lower a = a" shows "plain_host a"
  using assms isIP_chars [OF assms(1)] zone_char_not_sep prefix_bracket_mem [of a] isIP_cases [of a]
    isIP_4_no_colon [of a] isIP_nonempty [of a]
  by (fastforce simp: plain_host_def canonical_host_def)

lemma target_plain: "target_ok t \<Longrightarrow> plain_host (target_name t)"
proof (cases t)
  case (LocalhostTarget a p)
  have "plain_host ''localhost''" by code_simp
  with LocalhostTarget show ?thesis by simp
qed (auto simp: target_ok_def dns_name_plain ip_plain)

definition scope_uri :: "NetworkPolicyScope \<Rightarrow> ParsedUri" where
  "scope_uri scope = \<lparr>raw = networkScopeUri scope, host = scope_target scope, uri_path = None,
     port = scope_port scope, isValid = True\<rparr>"

lemma networkScopeUri_authority:
  assumes "canonical_host (scope_target scope)" "canonical_port (scope_port scope)"
  shows "networkScopeUri scope = authority (scope_uri scope)"
  using assms isIP_6_colon [of "scope_target scope"]
  by (auto simp: networkScopeUri_def scope_uri_def authority_def port_truthy_def canonical_port_def
      canonical_host_def split: option.splits)

lemma digit_not_ws: "is_digit x \<Longrightarrow> \<not> is_ws x"
  by (auto simp: is_digit_def is_ws_def)

lemma networkScopeUri_no_ws:
  assumes "plain_host (scope_target scope)" "x \<in> set (networkScopeUri scope)"
  shows "\<not> is_ws x"
  using assms show_nat_digits digit_not_ws
  by (auto simp: networkScopeUri_def plain_host_def is_ws_def split: option.splits if_splits)

lemma networkScopeUri_parse:
  assumes "plain_host (scope_target scope)" "canonical_port (scope_port scope)"
  shows "new_ParsedUri (networkScopeUri scope) = scope_uri scope"
proof -
  let ?u = "scope_uri scope"
  have c: "canonical_uri ?u"
    using assms by (simp add: canonical_uri_def scope_uri_def plain_host_def canonical_path_def)
  have f: "fullUri ?u = networkScopeUri scope"
    using assms networkScopeUri_authority [of scope] by (simp add: fullUri_def scope_uri_def plain_host_def)
  have "networkScopeUri scope \<noteq> []"
    using assms by (auto simp: networkScopeUri_def plain_host_def canonical_host_def split: option.splits)
  then have "js_trim (fullUri ?u) = fullUri ?u"
    unfolding f using networkScopeUri_no_ws [OF assms(1)] by (intro js_trim_hd_last) auto
  from reparse_canonical [OF c this] show ?thesis unfolding f by (simp add: scope_uri_def)
qed

lemma project_Inr:
  "project g event = Inr scope \<Longrightarrow> scope_target scope = target_name (event_target event)
     \<and> scope_targetKind scope = target_kind (event_target event) \<and> canonical_port (scope_port scope)
     \<and> scope_port scope = (if is_dns_query (operation event) then None else target_port (event_target event))"
  by (auto simp: project_def sum_bind_Inr projectPort_def canonical_port_def split: option.splits if_splits)

lemma project_port_None: "project g event = Inr scope \<Longrightarrow> scope_port scope = None \<longleftrightarrow> is_dns_query (operation event)"
  by (auto simp: project_def sum_bind_Inr projectPort_def split: option.splits if_splits)

text \<open>C19: the text an event is authorized under parses to a valid target with exactly the event's host
  and its port, or no port for a name lookup, and no path: a rule that matches it names the host that
  is contacted.\<close>

theorem scope_uri_names_target:
  assumes "target_ok (event_target event)" and "project g event = Inr scope"
  shows "isValid (new_ParsedUri (networkScopeUri scope))
    \<and> host (new_ParsedUri (networkScopeUri scope)) = target_name (event_target event)
    \<and> uri_path (new_ParsedUri (networkScopeUri scope)) = None
    \<and> port (new_ParsedUri (networkScopeUri scope)) =
        (if is_dns_query (operation event) then None else target_port (event_target event))"
proof -
  have "new_ParsedUri (networkScopeUri scope) = scope_uri scope"
    using target_plain [OF assms(1)] project_Inr [OF assms(2)] networkScopeUri_parse [of scope] by metis
  then show ?thesis using project_Inr [OF assms(2)] by (simp add: scope_uri_def)
qed

definition example_flow :: NetworkPolicyEvent where
  "example_flow = \<lparr>sequence = 8, family = IPV6, source = \<lparr>address = ''fd00::2'', endpoint_port = 4000\<rparr>,
     destination = \<lparr>address = ''2001:db8::1'', endpoint_port = 443\<rparr>, operation = TCP_CONNECT,
     event_target = IpTarget ''2001:db8::1'' 443\<rparr>"

definition example_scope :: NetworkPolicyScope where
  "example_scope = \<lparr>scope_targetKind = IP, scope_target = ''2001:db8::1'', scope_port = Some 443,
     scope_operation = ''ANY'', scope_family = ''ANY''\<rparr>"

theorem scope_uri_names_target_witness:
  "networkScopeUri example_scope = ''[2001:db8::1]:443''
   \<and> host (new_ParsedUri ''[2001:db8::1]:443'') = ''2001:db8::1''
   \<and> port (new_ParsedUri ''[2001:db8::1]:443'') = Some 443"
proof -
  have t: "target_ok (event_target example_flow)"
    and p: "project DEFAULT_NETWORK_POLICY_GRANULARITY example_flow = Inr example_scope"
    and u: "networkScopeUri example_scope = ''[2001:db8::1]:443''"
    by code_simp+
  show ?thesis using scope_uri_names_target [OF t p] u by (simp add: example_flow_def)
qed

section \<open>Interleaved decisions\<close>

text \<open>An answered question: the event, the scope it was asked for and what the policy evaluator
  returned.  A run interleaves the events of any number of concurrent decisions: a question is
  answered at any time after it was asked, in any order, or never; \<open>pending\<close> are the open questions
  and \<open>answered\<close> the answers so far.\<close>

record coordinator_state =
  coordinator :: NetworkDecisionCoordinator
  pending :: "(NetworkPolicyEvent \<times> NetworkPolicyScope) list"
  answered :: "(NetworkPolicyEvent \<times> NetworkPolicyScope \<times> PolicyResult) list"

fun authorizer_answer :: "string + NetworkDecision \<times> string list \<Rightarrow> string + NetworkDecision option" where
  "authorizer_answer (Inl e) = Inl e"
| "authorizer_answer (Inr (d, reports)) = Inr (Some d)"

inductive coordinator_step :: "coordinator_state \<Rightarrow> coordinator_state \<Rightarrow> bool" where
  ask: "decide_begin (coordinator s) event = Inr (Ask scope)
    \<Longrightarrow> coordinator_step s (s\<lparr>pending := pending s @ [(event, scope)]\<rparr>)"
| reuse: "decide_begin (coordinator s) event = Inr (Reuse scope d) \<Longrightarrow> coordinator_step s s"
| answer: "(event, scope) \<in> set (pending s)
    \<Longrightarrow> authorizer_decide (\<lambda>_ _. Inr result) event scope = Inr (d, reports)
    \<Longrightarrow> decide_finish (coordinator s) scope (Inr (Some d)) = (c, Inr d)
    \<Longrightarrow> coordinator_step s (s\<lparr>coordinator := c, pending := remove1 (event, scope) (pending s),
          answered := answered s @ [(event, scope, result)]\<rparr>)"
| fail: "(event, scope) \<in> set (pending s)
    \<Longrightarrow> coordinator_step s (s\<lparr>coordinator := fst (decide_finish (coordinator s) scope (Inl e)),
          pending := remove1 (event, scope) (pending s)\<rparr>)"

inductive coordinator_run :: "coordinator_state \<Rightarrow> coordinator_state \<Rightarrow> bool" where
  refl: "coordinator_run s s"
| step: "coordinator_run s t \<Longrightarrow> coordinator_step t u \<Longrightarrow> coordinator_run s u"

definition initial_coordinator :: "NetworkPolicyGranularity \<Rightarrow> coordinator_state" where
  "initial_coordinator g = \<lparr>coordinator = new_NetworkDecisionCoordinator g, pending = [], answered = []\<rparr>"

definition result_decision :: "PolicyResult \<Rightarrow> NetworkDecision" where
  "result_decision r = (if matchedStatus r = ALLOWED then ALLOW else DENY)"

lemma authorizer_decide_result:
  "authorizer_decide (\<lambda>_ _. Inr result) event scope = Inr (d, reports) \<Longrightarrow> d = result_decision result"
  by (auto simp: authorizer_decide_def result_decision_def split: if_splits)

lemma decide_finish_Inr [simp]:
  "decide_finish c scope (Inr (Some d)) =
     (c\<lparr>decisions := decisions c @ [\<lparr>record_scope = scope, record_decision = d\<rparr>]\<rparr>, Inr d)"
  "decide_finish c scope (Inl e) = (c, Inl e)"
  by (simp_all add: decide_finish_def)

text \<open>A step only ever appends to the recorded decisions, so the first match stays the first match.\<close>

lemma coordinator_step_mono:
  "coordinator_step s t \<Longrightarrow> granularity (coordinator t) = granularity (coordinator s)
     \<and> (\<exists>ds. decisions (coordinator t) = decisions (coordinator s) @ ds)"
  by (cases rule: coordinator_step.cases) auto

lemma coordinator_run_mono:
  "coordinator_run s t \<Longrightarrow> granularity (coordinator t) = granularity (coordinator s)
     \<and> (\<exists>ds. decisions (coordinator t) = decisions (coordinator s) @ ds)"
  by (induction rule: coordinator_run.induct) (auto dest!: coordinator_step_mono)

lemma decide_begin_Reuse:
  assumes "decide_begin c event = Inr (Reuse scope d)"
  obtains candidate r where "project (granularity c) event = Inr candidate"
    "find (\<lambda>r. network_covers (record_scope r) candidate) (decisions c) = Some r"
    "record_scope r = scope" "record_decision r = d"
  using assms by (auto simp: decide_begin_def sum_bind_Inr split: option.splits)

lemma find_append: "find P (xs @ ys) = (case find P xs of Some x \<Rightarrow> Some x | None \<Rightarrow> find P ys)"
  by (induction xs) auto

text \<open>C18: an answer is final: once an event is answered by a recorded decision, every later occurrence
  of it gets the same decision from the same record, whatever other decisions are asked, answered
  or fail in between.\<close>

theorem network_decision_final:
  assumes "coordinator_run s t" and "decide_begin (coordinator s) event = Inr (Reuse scope d)"
  shows "decide_begin (coordinator t) event = Inr (Reuse scope d)"
proof -
  obtain ds where "decisions (coordinator t) = decisions (coordinator s) @ ds"
    and "granularity (coordinator t) = granularity (coordinator s)"
    using coordinator_run_mono [OF assms(1)] by blast
  moreover obtain candidate r where "project (granularity (coordinator s)) event = Inr candidate"
    and "find (\<lambda>r. network_covers (record_scope r) candidate) (decisions (coordinator s)) = Some r"
    and "record_scope r = scope" "record_decision r = d"
    using assms(2) by (rule decide_begin_Reuse)
  ultimately show ?thesis by (simp add: decide_begin_def find_append)
qed

text \<open>Every open question and every record stems from a projected event, and every record from an
  answer of the evaluator.\<close>

definition coordinator_wf :: "coordinator_state \<Rightarrow> bool" where
  "coordinator_wf s \<longleftrightarrow>
     (\<forall>event scope. (event, scope) \<in> set (pending s) \<longrightarrow> project (granularity (coordinator s)) event = Inr scope)
   \<and> (\<forall>event scope result. (event, scope, result) \<in> set (answered s)
        \<longrightarrow> project (granularity (coordinator s)) event = Inr scope)
   \<and> decisions (coordinator s) = map (\<lambda>(event, scope, result).
        \<lparr>record_scope = scope, record_decision = result_decision result\<rparr>) (answered s)"

lemma coordinator_step_wf:
  assumes "coordinator_step s t" "coordinator_wf s" shows "coordinator_wf t"
  using assms(1)
proof cases
  case (ask event scope)
  then have "project (granularity (coordinator s)) event = Inr scope"
    by (auto simp: decide_begin_def sum_bind_Inr split: option.splits)
  with assms(2) ask show ?thesis by (auto simp: coordinator_wf_def)
next
  case (answer event scope result d reports c)
  then show ?thesis using assms(2) authorizer_decide_result [of result event scope d reports]
    by (auto simp: coordinator_wf_def) (blast dest: set_remove1_subset [THEN subsetD])+
qed (use assms(2) in \<open>auto simp: coordinator_wf_def dest: set_remove1_subset [THEN subsetD]\<close>)

lemma coordinator_run_wf: "coordinator_run s t \<Longrightarrow> coordinator_wf s \<Longrightarrow> coordinator_wf t"
  by (induction rule: coordinator_run.induct) (auto intro: coordinator_step_wf)

lemma initial_coordinator_wf: "coordinator_wf (initial_coordinator g)"
  by (simp add: coordinator_wf_def initial_coordinator_def new_NetworkDecisionCoordinator_def)

text \<open>C17: an event is allowed without a new question only because the policy evaluator allowed an
  earlier event towards the same target: same kind, same host and the same port unless that event
  was a name lookup.  A denied or failed question never allows anything.\<close>

theorem network_allow_was_authorized:
  assumes "coordinator_run (initial_coordinator g) s"
    and "decide_begin (coordinator s) event = Inr (Reuse scope ALLOW)"
  shows "\<exists>earlier result. (earlier, scope, result) \<in> set (answered s) \<and> matchedStatus result = ALLOWED
    \<and> target_kind (event_target earlier) = target_kind (event_target event)
    \<and> target_name (event_target earlier) = target_name (event_target event)
    \<and> (is_dns_query (operation earlier) \<or>
       \<not> is_dns_query (operation event) \<and> target_port (event_target earlier) = target_port (event_target event))"
proof -
  have wf: "coordinator_wf s" using coordinator_run_wf [OF assms(1) initial_coordinator_wf] .
  obtain candidate r where candidate: "project (granularity (coordinator s)) event = Inr candidate"
    and found: "find (\<lambda>r. network_covers (record_scope r) candidate) (decisions (coordinator s)) = Some r"
    and r: "record_scope r = scope" "record_decision r = ALLOW"
    using assms(2) by (rule decide_begin_Reuse)
  from found have r_in: "r \<in> set (decisions (coordinator s))" and cov: "network_covers scope candidate"
    using r by (auto simp: find_Some_iff)
  with wf r obtain earlier result where e: "(earlier, scope, result) \<in> set (answered s)"
    and allowed: "result_decision result = ALLOW"
    by (auto simp: coordinator_wf_def)
  have asked: "project (granularity (coordinator s)) earlier = Inr scope"
    using wf e unfolding coordinator_wf_def by blast
  from project_Inr [OF asked] project_Inr [OF candidate] project_port_None [OF asked] project_port_None [OF candidate] cov
  have "target_kind (event_target earlier) = target_kind (event_target event)"
    "target_name (event_target earlier) = target_name (event_target event)"
    "is_dns_query (operation earlier) \<or>
       \<not> is_dns_query (operation event) \<and> target_port (event_target earlier) = target_port (event_target event)"
    by (auto simp: network_covers_def)
  with e allowed show ?thesis by (auto simp: result_decision_def split: if_splits)
qed

text \<open>A run on concrete events: a name lookup is allowed, and the connection to the name is covered.\<close>

definition example_lookup :: NetworkPolicyEvent where
  "example_lookup = \<lparr>sequence = 1, family = IPV4, source = \<lparr>address = ''10.0.0.2'', endpoint_port = 4000\<rparr>,
     destination = \<lparr>address = ''10.0.0.1'', endpoint_port = 53\<rparr>, operation = DNS_QUERY ''a.org'' ''A'',
     event_target = HostnameResolution ''a.org''\<rparr>"

definition example_connect :: NetworkPolicyEvent where
  "example_connect = \<lparr>sequence = 2, family = IPV4, source = \<lparr>address = ''10.0.0.2'', endpoint_port = 4001\<rparr>,
     destination = \<lparr>address = ''198.18.0.1'', endpoint_port = 443\<rparr>, operation = TCP_CONNECT,
     event_target = HostnameFlow ''a.org'' 443 ''192.0.2.7'' ''198.18.0.1''\<rparr>"

definition lookup_scope :: NetworkPolicyScope where
  "lookup_scope = \<lparr>scope_targetKind = HOSTNAME, scope_target = ''a.org'', scope_port = None,
     scope_operation = ''ANY'', scope_family = ''ANY''\<rparr>"

definition lookup_result :: PolicyResult where
  "lookup_result = \<lparr>evaluatedUri = ''a.org'', evaluatedAccessType = DNS_ACCESS, matchedPattern = ''a.org'',
     matchedLifetime = SESSION, matchedStatus = ALLOWED, matchedReason = [], resolutionSource = EXISTING_USER_POLICY\<rparr>"

definition example_asked :: coordinator_state where
  "example_asked = (initial_coordinator DEFAULT_NETWORK_POLICY_GRANULARITY)\<lparr>pending := [(example_lookup, lookup_scope)]\<rparr>"

definition example_answered :: coordinator_state where
  "example_answered = \<lparr>coordinator = \<lparr>granularity = DEFAULT_NETWORK_POLICY_GRANULARITY,
       decisions = [\<lparr>record_scope = lookup_scope, record_decision = ALLOW\<rparr>]\<rparr>,
     pending = [], answered = [(example_lookup, lookup_scope, lookup_result)]\<rparr>"

lemma example_asked_step: "coordinator_step (initial_coordinator DEFAULT_NETWORK_POLICY_GRANULARITY) example_asked"
proof -
  have "decide_begin (coordinator (initial_coordinator DEFAULT_NETWORK_POLICY_GRANULARITY)) example_lookup
      = Inr (Ask lookup_scope)" by code_simp
  from coordinator_step.ask [OF this] show ?thesis by (simp add: example_asked_def initial_coordinator_def)
qed

lemma example_answered_step: "coordinator_step example_asked example_answered"
proof -
  have "authorizer_decide (\<lambda>_ _. Inr lookup_result) example_lookup lookup_scope = Inr (ALLOW, [])"
    by (simp add: authorizer_decide_def lookup_result_def)
  from coordinator_step.answer [OF _ this decide_finish_Inr(1), of example_asked] show ?thesis
    by (simp add: example_asked_def example_answered_def initial_coordinator_def
        new_NetworkDecisionCoordinator_def)
qed

lemma example_run: "coordinator_run (initial_coordinator DEFAULT_NETWORK_POLICY_GRANULARITY) example_answered"
  by (meson example_asked_step example_answered_step coordinator_run.intros)

lemma example_reuse: "decide_begin (coordinator example_answered) example_connect = Inr (Reuse lookup_scope ALLOW)"
  by code_simp

theorem network_allow_was_authorized_witness:
  "\<exists>earlier result. (earlier, lookup_scope, result) \<in> set (answered example_answered)
     \<and> matchedStatus result = ALLOWED \<and> target_name (event_target earlier) = ''a.org''"
  using network_allow_was_authorized [OF example_run example_reuse] by (auto simp: example_connect_def)

theorem network_decision_final_witness:
  "decide_begin (coordinator example_answered) example_connect = Inr (Reuse lookup_scope ALLOW)
   \<and> (\<exists>t. coordinator_run example_answered t \<and> pending t = [(example_flow, example_scope)]
        \<and> decide_begin (coordinator t) example_connect = Inr (Reuse lookup_scope ALLOW))"
proof -
  have "decide_begin (coordinator example_answered) example_flow = Inr (Ask example_scope)" by code_simp
  then have "coordinator_run example_answered (example_answered\<lparr>pending := [(example_flow, example_scope)]\<rparr>)"
    using coordinator_step.ask [of example_answered example_flow example_scope]
    by (auto simp: example_answered_def intro: coordinator_run.intros)
  then show ?thesis using network_decision_final [OF _ example_reuse] example_reuse by fastforce
qed

end
