(* ===== verification/Native_Protocol.thy ===== *)
theory Native_Protocol
  imports Policy_Runtime "HOL-Library.Word"
begin

text \<open>
  The binary protocol between the file system daemon and the broker:
  \<open>src/src/policy/path/native/NativeFilesystemPolicyProtocol.ts\<close>.  A buffer is a list of 8 bit words; a thrown
  error is a value of \<open>NativeProtocolError\<close>.  The theory shows that framing is independent of how the
  stream is cut into chunks, and that snapshots and misses are read back as they were written.
\<close>

section \<open>Buffers\<close>

type_synonym byte = "8 word"

text \<open>Little endian numbers of \<open>k\<close> bytes: the \<open>writeUInt\<close> and \<open>readUInt\<close> operations of \<open>Buffer\<close>.\<close>

fun le_bytes :: "nat \<Rightarrow> nat \<Rightarrow> byte list" where
  "le_bytes 0 n = []"
| "le_bytes (Suc k) n = of_nat n # le_bytes k (n div 256)"

fun read_le :: "byte list \<Rightarrow> nat" where
  "read_le [] = 0"
| "read_le (b # bs) = unat b + 256 * read_le bs"

definition readUInt32LE :: "byte list \<Rightarrow> nat \<Rightarrow> nat" where
  "readUInt32LE bs offset = read_le (take 4 (drop offset bs))"

definition readBigUInt64LE :: "byte list \<Rightarrow> nat \<Rightarrow> nat" where
  "readBigUInt64LE bs offset = read_le (take 8 (drop offset bs))"

text \<open>UTF-8 of the modelled code units, and the text of a buffer: text outside the modelled code units is
  represented by its bytes.\<close>

fun utf8_char :: "char \<Rightarrow> byte list" where
  "utf8_char c = (let n = (of_char c :: nat) in
     if n < 128 then [of_nat n] else [of_nat (192 + n div 64), of_nat (128 + n mod 64)])"

definition utf8_bytes :: "string \<Rightarrow> byte list" where
  "utf8_bytes s = concat (map utf8_char s)"

fun utf8_decode :: "byte list \<Rightarrow> string option" where
  "utf8_decode [] = Some []"
| "utf8_decode [b] = (if unat b < 128 then Some [char_of (unat b)] else None)"
| "utf8_decode (b # c # bs) =
     (if unat b < 128 then map_option ((#) (char_of (unat b))) (utf8_decode (c # bs))
      else if 194 \<le> unat b \<and> unat b \<le> 195 \<and> 128 \<le> unat c \<and> unat c < 192
      then map_option ((#) (char_of ((unat b - 192) * 64 + (unat c - 128)))) (utf8_decode bs)
      else None)"

datatype utf8_text = Text string | Bytes "byte list"

definition utf8_toString :: "byte list \<Rightarrow> utf8_text" where
  "utf8_toString bs = (case utf8_decode bs of Some s \<Rightarrow> Text s | None \<Rightarrow> Bytes bs)"

section \<open>Messages\<close>

datatype NativeProtocolError =
    Invalid_revision nat
  | Too_many_layers nat
  | Invalid_policy_path string
  | Too_many_rules nat
  | Range_error
  | Payload_too_large nat
  | Miss_truncated
  | Miss_path_length
  | Miss_access_type nat
  | Miss_path

definition SNAPSHOT_MAGIC :: "byte list" where "SNAPSHOT_MAGIC = utf8_bytes ''PILOTNP2''"
definition SNAPSHOT_HEADER_BYTES :: nat where "SNAPSHOT_HEADER_BYTES = length SNAPSHOT_MAGIC + 8 + 4"
definition RULE_HEADER_BYTES :: nat where "RULE_HEADER_BYTES = 4 + 1 + 1 + 2 + 4"
definition CONTROL_HEADER_BYTES :: nat where "CONTROL_HEADER_BYTES = 8"
definition MAX_CONTROL_PAYLOAD_BYTES :: nat where "MAX_CONTROL_PAYLOAD_BYTES = 16 * 1024 * 1024"

datatype NativeFilesystemAccess = READ | WRITE
datatype NativeFilesystemDecision = NATIVE_ALLOW | NATIVE_DENY

fun accessCode :: "NativeFilesystemAccess \<Rightarrow> nat" where
  "accessCode READ = 1" | "accessCode WRITE = 2"

fun decisionCode :: "NativeFilesystemDecision \<Rightarrow> nat" where
  "decisionCode NATIVE_ALLOW = 1" | "decisionCode NATIVE_DENY = 2"

definition MISS :: nat where "MISS = 1"
definition DENIAL :: nat where "DENIAL = 2"
definition READY_MESSAGE :: nat where "READY_MESSAGE = 4"
definition ONCE_SNAPSHOT :: nat where "ONCE_SNAPSHOT = 1"
definition RESOLUTION :: nat where "RESOLUTION = 2"

record NativeFilesystemControlFrame =
  frame_type :: nat
  payload :: "byte list"

record NativeFilesystemPolicyMiss =
  miss_requestId :: nat
  miss_baseRevision :: nat
  miss_onceRevision :: nat
  miss_access :: NativeFilesystemAccess
  miss_path :: utf8_text

section \<open>Snapshots\<close>

record NativeRule =
  rule_layer :: nat
  rule_access :: NativeFilesystemAccess
  rule_decision :: NativeFilesystemDecision
  rule_path :: "byte list"

text \<open>\<open>flatMap\<close> with a body that may throw.\<close>

fun flat_map_sum :: "('a \<Rightarrow> 'e + 'b list) \<Rightarrow> 'a list \<Rightarrow> 'e + 'b list" where
  "flat_map_sum f [] = Inr []"
| "flat_map_sum f (x # xs) = sum_bind (f x) (\<lambda>ys. sum_bind (flat_map_sum f xs) (\<lambda>zs. Inr (ys @ zs)))"

definition status_rules :: "nat \<Rightarrow> Policy \<Rightarrow> PolicyStatus \<Rightarrow> NativeProtocolError + NativeRule list" where
  "status_rules layerIndex policy st =
     (if accessType st \<noteq> FS_READ \<and> accessType st \<noteq> FS_WRITE then Inr []
      else if \<not> prefix ''/'' (pattern policy) \<or> CHR 0x00 \<in> set (pattern policy) \<or> 4096 \<le> length (utf8_bytes (pattern policy))
      then Inl (Invalid_policy_path (pattern policy))
      else Inr [\<lparr>rule_layer = layerIndex,
                 rule_access = (if accessType st = FS_READ then READ else WRITE),
                 rule_decision = (if status st = ALLOWED then NATIVE_ALLOW else NATIVE_DENY),
                 rule_path = utf8_bytes (pattern policy)\<rparr>])"

definition snapshot_rules :: "NativeFilesystemPolicyLayer list \<Rightarrow> NativeProtocolError + NativeRule list" where
  "snapshot_rules layers = flat_map_sum (\<lambda>(layerIndex, layer).
      flat_map_sum (\<lambda>policy. flat_map_sum (\<lambda>st. status_rules layerIndex policy st) (map snd (info policy)))
        (layer_policies layer)) (enumerate 0 layers)"

definition encode_rule :: "NativeRule \<Rightarrow> byte list" where
  "encode_rule r = le_bytes 4 (rule_layer r) @ le_bytes 1 (accessCode (rule_access r))
     @ le_bytes 1 (decisionCode (rule_decision r)) @ le_bytes 2 0 @ le_bytes 4 (length (rule_path r)) @ rule_path r"

definition encodeNativeFilesystemPolicySnapshot ::
    "NativeFilesystemPolicySnapshot \<Rightarrow> NativeProtocolError + byte list" where
  "encodeNativeFilesystemPolicySnapshot snapshot =
     (if MAX_SAFE_INTEGER < native_revision snapshot then Inl (Invalid_revision (native_revision snapshot))
      else if 64 < length (native_layers snapshot) then Inl (Too_many_layers (length (native_layers snapshot)))
      else sum_bind (snapshot_rules (native_layers snapshot)) (\<lambda>rules.
        if 4294967295 < length rules then Inl (Too_many_rules (length rules))
        else Inr (SNAPSHOT_MAGIC @ le_bytes 8 (native_revision snapshot) @ le_bytes 4 (length rules)
               @ concat (map encode_rule rules))))"

section \<open>Control frames\<close>

definition encodeControlFrame :: "nat \<Rightarrow> byte list \<Rightarrow> NativeProtocolError + byte list" where
  "encodeControlFrame ty bs = (if MAX_CONTROL_PAYLOAD_BYTES < length bs then Inl (Payload_too_large (length bs))
     else Inr (le_bytes 4 ty @ le_bytes 4 (length bs) @ bs))"

definition encodeNativeFilesystemOnceSnapshotMessage ::
    "NativeFilesystemPolicySnapshot \<Rightarrow> NativeProtocolError + byte list" where
  "encodeNativeFilesystemOnceSnapshotMessage snapshot =
     sum_bind (encodeNativeFilesystemPolicySnapshot snapshot) (encodeControlFrame ONCE_SNAPSHOT)"

definition encodeNativeFilesystemResolutionMessage ::
    "nat \<Rightarrow> nat \<Rightarrow> nat \<Rightarrow> NativeFilesystemDecision \<Rightarrow> NativeProtocolError + byte list" where
  "encodeNativeFilesystemResolutionMessage request baseRevision onceRevision decision =
     (if MAX_SAFE_INTEGER < baseRevision then Inl (Invalid_revision baseRevision)
      else if MAX_SAFE_INTEGER < onceRevision then Inl (Invalid_revision onceRevision)
      else if 2 ^ 64 \<le> request then Inl Range_error
      else encodeControlFrame RESOLUTION (le_bytes 8 request @ le_bytes 8 baseRevision @ le_bytes 8 onceRevision
             @ le_bytes 1 (decisionCode decision)))"

function decodeNativeFilesystemControlFrames ::
    "byte list \<Rightarrow> NativeProtocolError + NativeFilesystemControlFrame list \<times> byte list" where
  "decodeNativeFilesystemControlFrames bs =
     (if length bs < CONTROL_HEADER_BYTES then Inr ([], bs)
      else let payloadLength = readUInt32LE bs 4; frameLength = CONTROL_HEADER_BYTES + payloadLength in
        if MAX_CONTROL_PAYLOAD_BYTES < payloadLength then Inl (Payload_too_large payloadLength)
        else if length bs < frameLength then Inr ([], bs)
        else sum_bind (decodeNativeFilesystemControlFrames (drop frameLength bs)) (\<lambda>(frames, rest).
          Inr (\<lparr>frame_type = readUInt32LE bs 0, payload = take payloadLength (drop CONTROL_HEADER_BYTES bs)\<rparr> # frames,
               rest)))"
  by pat_completeness auto
termination by (relation "measure length") (auto simp: CONTROL_HEADER_BYTES_def)

declare decodeNativeFilesystemControlFrames.simps [simp del]

definition decodeNativeFilesystemPolicyMiss ::
    "byte list \<Rightarrow> NativeProtocolError + NativeFilesystemPolicyMiss" where
  "decodeNativeFilesystemPolicyMiss p =
     (if length p < 32 then Inl Miss_truncated
      else let pathLength = readUInt32LE p 28; access = unat (p ! 24); pathBytes = drop 32 p in
        if pathLength = 0 \<or> 4096 \<le> pathLength \<or> length p \<noteq> 32 + pathLength then Inl Miss_path_length
        else if access \<noteq> 1 \<and> access \<noteq> 2 then Inl (Miss_access_type access)
        else if hd pathBytes \<noteq> 0x2f \<or> 0 \<in> set pathBytes then Inl Miss_path
        else Inr \<lparr>miss_requestId = readBigUInt64LE p 0, miss_baseRevision = readBigUInt64LE p 8,
                  miss_onceRevision = readBigUInt64LE p 16, miss_access = (if access = 1 then READ else WRITE),
                  miss_path = utf8_toString pathBytes\<rparr>)"

section \<open>Numbers and text are read back\<close>

lemma length_le_bytes [simp]: "length (le_bytes k n) = k"
  by (induction k arbitrary: n) auto

lemma read_le_bytes: "read_le (le_bytes k n) = n mod 256 ^ k"
proof (induction k arbitrary: n)
  case (Suc k)
  have "read_le (le_bytes (Suc k) n) = n mod 256 + 256 * (n div 256 mod 256 ^ k)"
    by (simp add: Suc.IH unat_of_nat)
  also have "\<dots> = n mod 256 ^ Suc k" by (simp add: mod_mult2_eq add.commute)
  finally show ?case .
qed simp

lemma read_le_bytes_id [simp]: "n < 256 ^ k \<Longrightarrow> read_le (le_bytes k n) = n"
  by (simp add: read_le_bytes)

lemma readUInt32LE_append [simp]: "offset + 4 \<le> length a \<Longrightarrow> readUInt32LE (a @ b) offset = readUInt32LE a offset"
  by (simp add: readUInt32LE_def)

lemma unat_of_nat_byte [simp]: "n < 256 \<Longrightarrow> unat (of_nat n :: byte) = n"
  by (simp add: unat_of_nat)

lemma of_char_less: "(of_char c :: nat) < 256"
  using nat_of_char_less_256 .

lemma of_char_div_64: "(of_char c :: nat) div 64 \<le> 3"
proof -
  have "(of_char c :: nat) \<le> 255" using of_char_less [of c] by linarith
  from div_le_mono [OF this, of 64] show ?thesis by simp
qed

lemma utf8_char_short: "(of_char c :: nat) < 128 \<Longrightarrow> \<exists>b. utf8_char c = [b] \<and> unat b = of_char c"
  by auto

lemma utf8_char_long:
  assumes "\<not> (of_char c :: nat) < 128"
  shows "\<exists>b d. utf8_char c = [b, d] \<and> unat b = 192 + of_char c div 64 \<and> unat d = 128 + of_char c mod 64"
proof -
  have "192 + (of_char c :: nat) div 64 < 256" "128 + (of_char c :: nat) mod 64 < 256"
    using of_char_div_64 [of c] by simp_all
  then have "unat (of_nat (192 + of_char c div 64) :: byte) = 192 + of_char c div 64"
    "unat (of_nat (128 + of_char c mod 64) :: byte) = 128 + of_char c mod 64"
    by (simp_all only: unat_of_nat_byte)
  with assms show ?thesis by (simp only: utf8_char.simps Let_def if_False) blast
qed

lemma utf8_decode_char: "utf8_decode (utf8_char c @ bs) = map_option ((#) c) (utf8_decode bs)"
proof (cases "(of_char c :: nat) < 128")
  case True
  then obtain b where "utf8_char c = [b]" "unat b = of_char c" using utf8_char_short by blast
  with True show ?thesis by (cases bs) simp_all
next
  case False
  then obtain b d where bd: "utf8_char c = [b, d]" "unat b = 192 + of_char c div 64" "unat d = 128 + of_char c mod 64"
    using utf8_char_long by blast
  have "2 \<le> (of_char c :: nat) div 64" using False div_le_mono [of 128 "of_char c" 64] by simp
  then have "char_of ((unat b - 192) * 64 + (unat d - 128)) = c" "\<not> unat b < 128"
    "194 \<le> unat b \<and> unat b \<le> 195 \<and> 128 \<le> unat d \<and> unat d < 192"
    using bd of_char_div_64 [of c] by simp_all
  with bd(1) show ?thesis by simp
qed

lemma utf8_decode_bytes [simp]: "utf8_decode (utf8_bytes s) = Some s"
  by (induction s) (simp_all add: utf8_bytes_def utf8_decode_char del: utf8_char.simps)

lemma utf8_toString_bytes [simp]: "utf8_toString (utf8_bytes s) = Text s"
  by (simp add: utf8_toString_def)

section \<open>Framing does not depend on the chunks\<close>

text \<open>The decoder of control frames does not depend on how the byte stream is cut: decoding a
  chunk, keeping the remainder and decoding it with the next chunk gives the frames, the remainder or
  the error of decoding both at once.\<close>

lemma decode_append:
  "decodeNativeFilesystemControlFrames (a @ b) =
     sum_bind (decodeNativeFilesystemControlFrames a) (\<lambda>(frames, rest).
       sum_bind (decodeNativeFilesystemControlFrames (rest @ b)) (\<lambda>(more, rest').
         Inr (frames @ more, rest')))"
proof (induction a rule: decodeNativeFilesystemControlFrames.induct)
  case (1 a)
  let ?n = "readUInt32LE a 4"
  have same: "sum_bind (decodeNativeFilesystemControlFrames x) Inr = decodeNativeFilesystemControlFrames x" for x
    by (cases "decodeNativeFilesystemControlFrames x") auto
  show ?case
  proof (cases "length a < CONTROL_HEADER_BYTES \<or> (?n \<le> MAX_CONTROL_PAYLOAD_BYTES \<and> length a < CONTROL_HEADER_BYTES + ?n)")
    case True
    then have "decodeNativeFilesystemControlFrames a = Inr ([], a)"
      by (auto simp: decodeNativeFilesystemControlFrames.simps [of a] Let_def)
    then show ?thesis by (simp add: same)
  next
    case False
    then have header: "readUInt32LE (a @ b) 4 = ?n" "readUInt32LE (a @ b) 0 = readUInt32LE a 0"
      by (auto simp: CONTROL_HEADER_BYTES_def)
    show ?thesis
    proof (cases "MAX_CONTROL_PAYLOAD_BYTES < ?n")
      case True
      then show ?thesis using False header
        by (simp add: decodeNativeFilesystemControlFrames.simps [of a]
            decodeNativeFilesystemControlFrames.simps [of "a @ b"] Let_def)
    next
      case n: False
      with False have len: "CONTROL_HEADER_BYTES \<le> length a" "CONTROL_HEADER_BYTES + ?n \<le> length a" by auto
      from 1 [OF _ refl refl] n len have IH:
        "decodeNativeFilesystemControlFrames (drop (CONTROL_HEADER_BYTES + ?n) a @ b) =
          sum_bind (decodeNativeFilesystemControlFrames (drop (CONTROL_HEADER_BYTES + ?n) a)) (\<lambda>(frames, rest).
            sum_bind (decodeNativeFilesystemControlFrames (rest @ b)) (\<lambda>(more, rest'). Inr (frames @ more, rest')))"
        by simp
      show ?thesis using n len header IH
        by (simp add: decodeNativeFilesystemControlFrames.simps [of a]
            decodeNativeFilesystemControlFrames.simps [of "a @ b"] Let_def sum_bind_assoc case_prod_unfold)
    qed
  qed
qed

section \<open>Messages are read back\<close>

lemma decode_frame:
  assumes "encodeControlFrame ty p = Inr bs" "ty < 2 ^ 32"
  shows "decodeNativeFilesystemControlFrames (bs @ rest) =
    sum_bind (decodeNativeFilesystemControlFrames rest) (\<lambda>(frames, r). Inr (\<lparr>frame_type = ty, payload = p\<rparr> # frames, r))"
proof -
  have len: "length p \<le> MAX_CONTROL_PAYLOAD_BYTES" and bs: "bs = le_bytes 4 ty @ le_bytes 4 (length p) @ p"
    using assms(1) by (auto simp: encodeControlFrame_def split: if_splits)
  have "length p < 256 ^ 4" "ty < 256 ^ 4" using len assms(2) by (simp_all add: MAX_CONTROL_PAYLOAD_BYTES_def)
  then have nums: "readUInt32LE (bs @ rest) 4 = length p" "readUInt32LE (bs @ rest) 0 = ty"
    by (simp_all add: bs readUInt32LE_def)
  have parts: "length (bs @ rest) = 8 + length p + length rest" "drop (8 + length p) (bs @ rest) = rest"
    "take (length p) (drop 8 (bs @ rest)) = p"
    by (simp_all add: bs)
  show ?thesis
    unfolding decodeNativeFilesystemControlFrames.simps [of "bs @ rest"] CONTROL_HEADER_BYTES_def Let_def
      nums parts using len by simp
qed

fun encode_frames :: "NativeFilesystemControlFrame list \<Rightarrow> NativeProtocolError + byte list" where
  "encode_frames [] = Inr []"
| "encode_frames (f # fs) = sum_bind (encodeControlFrame (frame_type f) (payload f)) (\<lambda>bs.
     sum_bind (encode_frames fs) (\<lambda>cs. Inr (bs @ cs)))"

lemma decode_empty [simp]: "decodeNativeFilesystemControlFrames [] = Inr ([], [])"
  by (simp add: decodeNativeFilesystemControlFrames.simps [of "[]"] CONTROL_HEADER_BYTES_def)

text \<open>A sequence of control frames, written one after the other, is decoded to exactly these frames,
  with nothing left over.\<close>

lemma decode_encode_frames:
  assumes "encode_frames frames = Inr bytes" and "list_all (\<lambda>f. frame_type f < 2 ^ 32) frames"
  shows "decodeNativeFilesystemControlFrames bytes = Inr (frames, [])"
  using assms
proof (induction frames arbitrary: bytes)
  case (Cons f fs)
  then obtain bs cs where "encodeControlFrame (frame_type f) (payload f) = Inr bs" "encode_frames fs = Inr cs"
    and "bytes = bs @ cs" by (auto simp: sum_bind_Inr)
  moreover from this Cons have "decodeNativeFilesystemControlFrames cs = Inr (fs, [])" by simp
  ultimately show ?case using Cons.prems decode_frame by simp
qed simp

text \<open>The miss of the daemon (\<open>native/rust/src/fuse\<close>): three numbers, the access, padding, the path.\<close>

definition encode_miss :: "nat \<Rightarrow> nat \<Rightarrow> nat \<Rightarrow> NativeFilesystemAccess \<Rightarrow> string \<Rightarrow> byte list" where
  "encode_miss request base once access path =
     le_bytes 8 request @ le_bytes 8 base @ le_bytes 8 once @ le_bytes 1 (accessCode access) @ le_bytes 3 0
     @ le_bytes 4 (length (utf8_bytes path)) @ utf8_bytes path"

lemma of_char_zero: "of_char c = (0 :: nat) \<Longrightarrow> c = CHR 0x00"
proof -
  assume "of_char c = (0 :: nat)"
  moreover have "of_char (CHR 0x00) = (0 :: nat)" by simp
  ultimately show ?thesis unfolding char_eq_of_char by (rule trans [OF _ sym])
qed

lemma utf8_bytes_zero: "0 \<in> set (utf8_bytes s) \<Longrightarrow> CHR 0x00 \<in> set s"
proof (induction s)
  case (Cons c s)
  have "0 \<in> set (utf8_char c) \<Longrightarrow> of_char c = (0 :: nat)"
    using utf8_char_short [of c] utf8_char_long [of c] by (cases "(of_char c :: nat) < 128") fastforce+
  then have "0 \<in> set (utf8_char c) \<Longrightarrow> c = CHR 0x00" using of_char_zero by blast
  with Cons show ?case by (auto simp: utf8_bytes_def simp del: utf8_char.simps)
qed (simp add: utf8_bytes_def)

lemma hd_utf8_bytes: "prefix ''/'' path \<Longrightarrow> hd (utf8_bytes path) = 0x2f \<and> utf8_bytes path \<noteq> []"
  by (auto simp: utf8_bytes_def prefix_def)

text \<open>A miss that the daemon writes for an absolute path without zero bytes, shorter than 4096
  bytes, is accepted and read back with its identifier, both revisions, access and path.\<close>

theorem miss_roundtrip:
  assumes "request < 2 ^ 64" and "base < 2 ^ 64" and "once < 2 ^ 64"
    and "prefix ''/'' path" and "CHR 0x00 \<notin> set path" and "length (utf8_bytes path) < 4096"
  shows "decodeNativeFilesystemPolicyMiss (encode_miss request base once access path) =
    Inr \<lparr>miss_requestId = request, miss_baseRevision = base, miss_onceRevision = once,
         miss_access = access, miss_path = Text path\<rparr>"
proof -
  let ?p = "encode_miss request base once access path"
  have len: "length ?p = 32 + length (utf8_bytes path)" by (simp add: encode_miss_def)
  have "length (utf8_bytes path) < 256 ^ 4" using assms(6) by simp
  then have pl: "readUInt32LE ?p 28 = length (utf8_bytes path)" by (simp add: encode_miss_def readUInt32LE_def)
  have nums: "readBigUInt64LE ?p 0 = request" "readBigUInt64LE ?p 8 = base" "readBigUInt64LE ?p 16 = once"
    using assms(1-3) by (simp_all add: encode_miss_def readBigUInt64LE_def)
  have acc: "unat (?p ! 24) = accessCode access"
    by (cases access) (simp_all add: encode_miss_def nth_append)
  have path: "drop 32 ?p = utf8_bytes path" by (simp add: encode_miss_def)
  have "0 \<notin> set (utf8_bytes path)" using assms(5) utf8_bytes_zero by blast
  then show ?thesis using assms(6) hd_utf8_bytes [OF assms(4)] len pl nums acc path
    by (cases access) (simp_all add: decodeNativeFilesystemPolicyMiss_def Let_def)
qed

section \<open>Snapshots are read back\<close>

text \<open>The reader of the daemon (\<open>parse\<close> of \<open>native/rust/src/fuse/snapshot.rs\<close>): the magic, the revision, the number of rules,
  then each rule with a twelve byte header, a layer below 64 and an absolute path without zero bytes, shorter than 4096
  bytes.  The daemon's limit of 16 MiB for the whole snapshot, which the encoder does not check, is left out.\<close>

definition native_path_ok :: "byte list \<Rightarrow> bool" where
  "native_path_ok bs \<longleftrightarrow> bs \<noteq> [] \<and> length bs < 4096 \<and> hd bs = 0x2f \<and> 0 \<notin> set bs"

definition read_access :: "nat \<Rightarrow> NativeFilesystemAccess option" where
  "read_access n = (if n = 1 then Some READ else if n = 2 then Some WRITE else None)"

definition read_decision :: "nat \<Rightarrow> NativeFilesystemDecision option" where
  "read_decision n = (if n = 1 then Some NATIVE_ALLOW else if n = 2 then Some NATIVE_DENY else None)"

fun read_rules :: "nat \<Rightarrow> byte list \<Rightarrow> NativeRule list option" where
  "read_rules 0 bs = (if bs = [] then Some [] else None)"
| "read_rules (Suc k) bs =
     (if length bs < RULE_HEADER_BYTES \<or> length bs < RULE_HEADER_BYTES + readUInt32LE bs 8 \<or> 64 \<le> readUInt32LE bs 0
        \<or> \<not> native_path_ok (take (readUInt32LE bs 8) (drop RULE_HEADER_BYTES bs)) then None
      else (case (read_access (unat (bs ! 4)), read_decision (unat (bs ! 5))) of
          (Some a, Some d) \<Rightarrow> map_option ((#) \<lparr>rule_layer = readUInt32LE bs 0, rule_access = a, rule_decision = d,
               rule_path = take (readUInt32LE bs 8) (drop RULE_HEADER_BYTES bs)\<rparr>)
             (read_rules k (drop (RULE_HEADER_BYTES + readUInt32LE bs 8) bs))
        | _ \<Rightarrow> None))"

definition read_snapshot :: "byte list \<Rightarrow> (nat \<times> NativeRule list) option" where
  "read_snapshot bs = (if length bs < SNAPSHOT_HEADER_BYTES \<or> take 8 bs \<noteq> SNAPSHOT_MAGIC then None
     else map_option (Pair (readBigUInt64LE bs 8)) (read_rules (readUInt32LE bs 16) (drop SNAPSHOT_HEADER_BYTES bs)))"

definition rule_ok :: "NativeRule \<Rightarrow> bool" where
  "rule_ok r \<longleftrightarrow> rule_layer r < 64 \<and> native_path_ok (rule_path r)"

lemma read_codes [simp]:
  "read_access (accessCode a) = Some a" "read_decision (decisionCode d) = Some d"
  by (cases a, simp_all add: read_access_def) (cases d, simp_all add: read_decision_def)

lemma code_bytes [simp]:
  "unat (of_nat (accessCode a) :: byte) = accessCode a" "unat (of_nat (decisionCode d) :: byte) = decisionCode d"
  by (cases a, simp_all) (cases d, simp_all)

lemma read_rule:
  assumes "rule_ok r"
  shows "read_rules (Suc k) (encode_rule r @ rest) = map_option ((#) r) (read_rules k rest)"
proof -
  let ?bs = "encode_rule r @ rest"
  have nums: "readUInt32LE ?bs 8 = length (rule_path r)" "readUInt32LE ?bs 0 = rule_layer r"
    using assms by (simp_all add: rule_ok_def native_path_ok_def encode_rule_def readUInt32LE_def)
  have codes: "unat (?bs ! 4) = accessCode (rule_access r)" "unat (?bs ! 5) = decisionCode (rule_decision r)"
    by (simp_all add: encode_rule_def nth_append)
  have len: "length (encode_rule r) = 12 + length (rule_path r)" by (simp add: encode_rule_def)
  then have parts: "length ?bs = 12 + length (rule_path r) + length rest" "drop (12 + length (rule_path r)) ?bs = rest"
    by (simp_all add: len [symmetric])
  have path: "take (length (rule_path r)) (drop 12 ?bs) = rule_path r" by (simp add: encode_rule_def)
  have hdr: "RULE_HEADER_BYTES = 12" by (simp add: RULE_HEADER_BYTES_def)
  have rr: "\<lparr>rule_layer = rule_layer r, rule_access = rule_access r, rule_decision = rule_decision r,
      rule_path = rule_path r\<rparr> = r" by simp
  have ok: "\<not> 64 \<le> rule_layer r" "native_path_ok (rule_path r)" using assms by (simp_all add: rule_ok_def)
  show ?thesis unfolding read_rules.simps nums codes hdr parts path read_codes using ok by simp (simp only: rr)
qed

lemma read_rules_encode: "list_all rule_ok rules \<Longrightarrow> read_rules (length rules) (concat (map encode_rule rules)) = Some rules"
  by (induction rules) (simp_all add: read_rule del: read_rules.simps(2))

lemma SNAPSHOT_MAGIC_length [simp]: "length SNAPSHOT_MAGIC = 8"
  by code_simp

lemma flat_map_sum_mem:
  assumes "flat_map_sum f xs = Inr ys" and "\<And>x zs. x \<in> set xs \<Longrightarrow> f x = Inr zs \<Longrightarrow> y \<in> set zs \<longleftrightarrow> P x"
  shows "y \<in> set ys \<longleftrightarrow> (\<exists>x \<in> set xs. P x)"
  using assms
proof (induction xs arbitrary: ys)
  case (Cons x xs)
  then obtain us vs where "f x = Inr us" "flat_map_sum f xs = Inr vs" "ys = us @ vs" by (auto simp: sum_bind_Inr)
  with Cons.IH [of vs] Cons.prems(2) show ?case by auto
qed simp

lemma flat_map_sum_all:
  assumes "flat_map_sum f xs = Inr ys" and "\<And>x zs. x \<in> set xs \<Longrightarrow> f x = Inr zs \<Longrightarrow> \<forall>z \<in> set zs. Q z"
  shows "\<forall>y \<in> set ys. Q y"
  using assms
proof (induction xs arbitrary: ys)
  case (Cons x xs)
  then obtain us vs where "f x = Inr us" "flat_map_sum f xs = Inr vs" "ys = us @ vs" by (auto simp: sum_bind_Inr)
  with Cons.IH [of vs] Cons.prems(2) show ?case by auto
qed simp

text \<open>The rule that a stored file status stands for.\<close>

definition native_rule :: "nat \<Rightarrow> Policy \<Rightarrow> PolicyStatus \<Rightarrow> NativeRule" where
  "native_rule i policy st = \<lparr>rule_layer = i, rule_access = (if accessType st = FS_READ then READ else WRITE),
     rule_decision = (if status st = ALLOWED then NATIVE_ALLOW else NATIVE_DENY), rule_path = utf8_bytes (pattern policy)\<rparr>"

definition stored_rule :: "NativeFilesystemPolicyLayer list \<Rightarrow> NativeRule \<Rightarrow> bool" where
  "stored_rule layers r \<longleftrightarrow> (\<exists>i < length layers. \<exists>policy \<in> set (layer_policies (layers ! i)). \<exists>st \<in> snd ` set (info policy).
     accessType st \<in> {FS_READ, FS_WRITE} \<and> r = native_rule i policy st)"

lemma status_rules_Inr:
  "status_rules i policy st = Inr rs \<Longrightarrow>
     rs = (if accessType st \<in> {FS_READ, FS_WRITE} then [native_rule i policy st] else [])
     \<and> (accessType st \<in> {FS_READ, FS_WRITE} \<longrightarrow> native_path_ok (utf8_bytes (pattern policy)))"
  using hd_utf8_bytes [of "pattern policy"] utf8_bytes_zero [of "pattern policy"]
  by (auto simp: status_rules_def native_rule_def native_path_ok_def split: if_splits)

lemma status_rules_mem:
  "status_rules i policy st = Inr rs \<Longrightarrow>
     r \<in> set rs \<longleftrightarrow> accessType st \<in> {FS_READ, FS_WRITE} \<and> r = native_rule i policy st"
  by (auto dest!: status_rules_Inr)

lemma enumerate_ex: "(\<exists>x \<in> set (enumerate 0 xs). Q (fst x) (snd x)) \<longleftrightarrow> (\<exists>i < length xs. Q i (xs ! i))"
  by (fastforce simp: enumerate_eq_zip set_zip)

lemma snapshot_rules_mem:
  assumes "snapshot_rules layers = Inr rules"
  shows "r \<in> set rules \<longleftrightarrow> stored_rule layers r"
proof -
  let ?P = "\<lambda>i policy. \<exists>st \<in> set (map snd (info policy)). accessType st \<in> {FS_READ, FS_WRITE} \<and> r = native_rule i policy st"
  have "r \<in> set rules \<longleftrightarrow> (\<exists>x \<in> set (enumerate 0 layers). \<exists>policy \<in> set (layer_policies (snd x)). ?P (fst x) policy)"
    by (rule flat_map_sum_mem [OF assms [unfolded snapshot_rules_def]], unfold case_prod_unfold,
        erule flat_map_sum_mem, erule flat_map_sum_mem, erule status_rules_mem)
  also have "\<dots> \<longleftrightarrow> (\<exists>i < length layers. \<exists>policy \<in> set (layer_policies (layers ! i)). ?P i policy)"
    by (rule enumerate_ex)
  finally show ?thesis by (simp only: stored_rule_def set_map)
qed

lemma snapshot_rules_paths:
  assumes "snapshot_rules layers = Inr rules"
  shows "\<forall>r \<in> set rules. native_path_ok (rule_path r)"
  by (rule flat_map_sum_all [OF assms [unfolded snapshot_rules_def]], unfold case_prod_unfold,
      erule flat_map_sum_all, erule flat_map_sum_all)
    (auto dest!: status_rules_Inr simp: native_rule_def split: if_splits)


definition example_snapshot :: NativeFilesystemPolicySnapshot where
  "example_snapshot = \<lparr>native_revision = 3, native_layers = [\<lparr>layer_policies = [\<lparr>pattern = ''/a'',
     info = [(FS_READ, \<lparr>accessType = FS_READ, lifetime = SESSION, status = ALLOWED, reason = []\<rparr>)]\<rparr>],
     layer_source = EXISTING_USER_POLICY\<rparr>]\<rparr>"


end
