(* ===== verification/Native_Bridge.thy ===== *)
theory Native_Bridge
  imports Native_Protocol
begin

text \<open>
  The bridge between the file system daemon and a policy view:
  \<open>src/src/policy/path/native/NativeFilesystemPolicyBridge.ts\<close>.  The streams are the bytes received and the
  messages handed to the response stream; the view is an argument of each operation that reads it, with
  \<open>Inl\<close> for a view that is closed.  A resolution is split at the evaluation it awaits:
  \<open>resolveMiss_begin\<close> and \<open>resolveMiss_finish\<close>; the outcome of a write is an argument.  Callbacks are
  recorded, a callback that throws is not modelled.
\<close>

section \<open>State\<close>

datatype bridge_error =
    Protocol_error NativeProtocolError
  | Ready_payload
  | Ready_unsynchronized nat nat
  | Unexpected_message nat
  | Channel_closed
  | View_was_closed
  | Frame_timeout
  | Base_revision_ahead nat nat
  | Once_revision_ahead nat nat
  | Once_revision_backward int nat
  | Bridge_closed
  | Other_error string

datatype deny_message = Denied_message string | Native_denied utf8_text PolicyAccessType

datatype bridge_request = Resolve_miss NativeFilesystemPolicyMiss | Report_denial NativeFilesystemPolicyMiss

type_synonym bridge_view = "string + nat \<times> NativeFilesystemPolicySnapshot"

record NativeFilesystemPolicyEvaluation =
  evaluation_result :: PolicyResult
  evaluation_baseRevision :: nat
  evaluation_onceSnapshot :: NativeFilesystemPolicySnapshot

record NativeFilesystemPolicyBridge =
  remainder :: "byte list"
  lastPublishedOnceRevision :: int
  synchronizedOnceRevision :: "nat option"
  partialFrameTimer :: bool
  bridge_closed :: bool
  reportedError :: bool
  requestQueue :: "bridge_request list"
  written :: "byte list list"
  readyCalls :: "(nat \<times> nat) list"
  errorCalls :: "bridge_error list"
  denyCalls :: "deny_message list"
  destroyed :: bool

definition new_NativeFilesystemPolicyBridge :: NativeFilesystemPolicyBridge where
  "new_NativeFilesystemPolicyBridge = \<lparr>remainder = [], lastPublishedOnceRevision = -1, synchronizedOnceRevision = None,
     partialFrameTimer = False, bridge_closed = False, reportedError = False, requestQueue = [], written = [],
     readyCalls = [], errorCalls = [], denyCalls = [], destroyed = False\<rparr>"

section \<open>Errors and closing\<close>

definition notifyError :: "bridge_error \<Rightarrow> NativeFilesystemPolicyBridge \<Rightarrow> NativeFilesystemPolicyBridge" where
  "notifyError e b = b\<lparr>errorCalls := errorCalls b @ [e]\<rparr>"

definition notifyDeny :: "deny_message \<Rightarrow> NativeFilesystemPolicyBridge \<Rightarrow> NativeFilesystemPolicyBridge" where
  "notifyDeny m b = b\<lparr>denyCalls := denyCalls b @ [m]\<rparr>"

definition clearPartialFrameTimeout :: "NativeFilesystemPolicyBridge \<Rightarrow> NativeFilesystemPolicyBridge" where
  "clearPartialFrameTimeout b = b\<lparr>partialFrameTimer := False\<rparr>"

definition armPartialFrameTimeout :: "NativeFilesystemPolicyBridge \<Rightarrow> NativeFilesystemPolicyBridge" where
  "armPartialFrameTimeout b = b\<lparr>partialFrameTimer := True\<rparr>"

definition reportError :: "bridge_error \<Rightarrow> NativeFilesystemPolicyBridge \<Rightarrow> NativeFilesystemPolicyBridge" where
  "reportError e b = (if reportedError b \<or> bridge_closed b then b
     else (notifyError e (clearPartialFrameTimeout (b\<lparr>reportedError := True\<rparr>)))\<lparr>destroyed := True\<rparr>)"

definition partialFrameTimeout :: "NativeFilesystemPolicyBridge \<Rightarrow> NativeFilesystemPolicyBridge" where
  "partialFrameTimeout b = (if partialFrameTimer b then reportError Frame_timeout (clearPartialFrameTimeout b) else b)"

definition bridge_close :: "NativeFilesystemPolicyBridge \<Rightarrow> NativeFilesystemPolicyBridge" where
  "bridge_close b = (if bridge_closed b then b else clearPartialFrameTimeout (b\<lparr>bridge_closed := True\<rparr>))"

definition handleStreamError :: "string \<Rightarrow> NativeFilesystemPolicyBridge \<Rightarrow> NativeFilesystemPolicyBridge" where
  "handleStreamError e b = (if bridge_closed b then b else reportError (Other_error e) b)"

definition handleStreamClose :: "NativeFilesystemPolicyBridge \<Rightarrow> NativeFilesystemPolicyBridge" where
  "handleStreamClose b = (if bridge_closed b then b else reportError Channel_closed b)"

definition viewClosed :: "NativeFilesystemPolicyBridge \<Rightarrow> NativeFilesystemPolicyBridge" where
  "viewClosed b = (if bridge_closed b then b else reportError View_was_closed b)"

section \<open>Writing\<close>

text \<open>\<open>enqueueWrite\<close>: the bytes go to the response stream; \<open>ending\<close> is the failure or timeout of the write.\<close>

definition enqueueWrite ::
    "byte list \<Rightarrow> bridge_error option \<Rightarrow> NativeFilesystemPolicyBridge \<Rightarrow> NativeFilesystemPolicyBridge \<times> bridge_error option" where
  "enqueueWrite bytes ending b = (if bridge_closed b then (b, Some Bridge_closed)
     else (b\<lparr>written := written b @ [bytes]\<rparr>, ending))"

definition publishOnceSnapshot ::
    "NativeFilesystemPolicySnapshot \<Rightarrow> bridge_error option \<Rightarrow> NativeFilesystemPolicyBridge
      \<Rightarrow> NativeFilesystemPolicyBridge \<times> bridge_error option" where
  "publishOnceSnapshot snapshot ending b =
     (if int (native_revision snapshot) < lastPublishedOnceRevision b
      then (b, Some (Once_revision_backward (lastPublishedOnceRevision b) (native_revision snapshot)))
      else if int (native_revision snapshot) = lastPublishedOnceRevision b then (b, None)
      else (case encodeNativeFilesystemOnceSnapshotMessage snapshot of
          Inl e \<Rightarrow> (b, Some (Protocol_error e))
        | Inr bytes \<Rightarrow> (case enqueueWrite bytes ending b of
            (b', None) \<Rightarrow> (b'\<lparr>lastPublishedOnceRevision := int (native_revision snapshot)\<rparr>, None)
          | (b', Some e) \<Rightarrow> (b', Some e))))"

text \<open>The subscription of the constructor: a failed publication is reported.\<close>

definition onceSnapshotChanged ::
    "NativeFilesystemPolicySnapshot \<Rightarrow> bridge_error option \<Rightarrow> NativeFilesystemPolicyBridge \<Rightarrow> NativeFilesystemPolicyBridge" where
  "onceSnapshotChanged snapshot ending b = (case publishOnceSnapshot snapshot ending b of
       (b', None) \<Rightarrow> b' | (b', Some e) \<Rightarrow> reportError e b')"

definition synchronizeSnapshot ::
    "bridge_view \<Rightarrow> bridge_error option \<Rightarrow> NativeFilesystemPolicyBridge \<Rightarrow> NativeFilesystemPolicyBridge \<times> bridge_error option" where
  "synchronizeSnapshot view ending b = (case view of
       Inl e \<Rightarrow> (b, Some (Other_error e))
     | Inr (_, snapshot) \<Rightarrow> publishOnceSnapshot snapshot ending
         (b\<lparr>synchronizedOnceRevision := (case synchronizedOnceRevision b of
              None \<Rightarrow> Some (native_revision snapshot) | Some r \<Rightarrow> Some r)\<rparr>))"

section \<open>Receiving\<close>

definition handle_frame ::
    "bridge_view \<Rightarrow> NativeFilesystemControlFrame \<Rightarrow> NativeFilesystemPolicyBridge
      \<Rightarrow> bridge_error + NativeFilesystemPolicyBridge" where
  "handle_frame view frame b =
     (if frame_type frame = READY_MESSAGE then
        (if length (payload frame) \<noteq> 16 then Inl Ready_payload
         else let baseRevision = readBigUInt64LE (payload frame) 0; onceRevision = readBigUInt64LE (payload frame) 8 in
           (case view of
              Inl e \<Rightarrow> Inl (Other_error e)
            | Inr (viewBase, _) \<Rightarrow>
                if viewBase < baseRevision \<or> synchronizedOnceRevision b \<noteq> Some onceRevision
                then Inl (Ready_unsynchronized baseRevision onceRevision)
                else Inr (b\<lparr>readyCalls := readyCalls b @ [(baseRevision, onceRevision)]\<rparr>)))
      else (case decodeNativeFilesystemPolicyMiss (payload frame) of
          Inl e \<Rightarrow> Inl (Protocol_error e)
        | Inr event \<Rightarrow>
            if frame_type frame = MISS then Inr (b\<lparr>requestQueue := requestQueue b @ [Resolve_miss event]\<rparr>)
            else if frame_type frame = DENIAL then Inr (b\<lparr>requestQueue := requestQueue b @ [Report_denial event]\<rparr>)
            else Inl (Unexpected_message (frame_type frame))))"

fun handle_frames ::
    "bridge_view \<Rightarrow> NativeFilesystemControlFrame list \<Rightarrow> NativeFilesystemPolicyBridge \<Rightarrow> NativeFilesystemPolicyBridge" where
  "handle_frames view [] b = b"
| "handle_frames view (f # fs) b = (case handle_frame view f b of
      Inl e \<Rightarrow> reportError e b | Inr b' \<Rightarrow> handle_frames view fs b')"

definition handleData :: "bridge_view \<Rightarrow> byte list \<Rightarrow> NativeFilesystemPolicyBridge \<Rightarrow> NativeFilesystemPolicyBridge" where
  "handleData view chunk b = (if bridge_closed b then b
     else (case decodeNativeFilesystemControlFrames (remainder b @ chunk) of
         Inl e \<Rightarrow> reportError (Protocol_error e) b
       | Inr (frames, rest) \<Rightarrow> handle_frames view frames
           ((if rest \<noteq> [] then armPartialFrameTimeout else clearPartialFrameTimeout) (b\<lparr>remainder := rest\<rparr>))))"

section \<open>Answering\<close>

definition miss_accessType :: "NativeFilesystemPolicyMiss \<Rightarrow> PolicyAccessType" where
  "miss_accessType miss = (if miss_access miss = READ then FS_READ else FS_WRITE)"

text \<open>The checks before the evaluation: a daemon that is ahead of the view is answered with a denial.\<close>

definition resolveMiss_begin :: "bridge_view \<Rightarrow> NativeFilesystemPolicyMiss \<Rightarrow> bridge_error + unit" where
  "resolveMiss_begin view miss = (case view of
       Inl e \<Rightarrow> Inl (Other_error e)
     | Inr (base, once) \<Rightarrow>
         if base < miss_baseRevision miss then Inl (Base_revision_ahead (miss_baseRevision miss) base)
         else if native_revision once < miss_onceRevision miss
         then Inl (Once_revision_ahead (miss_onceRevision miss) (native_revision once))
         else Inr ())"

text \<open>The rest, with the outcome of the evaluation: an error, nothing when it was aborted, or a result;
  \<open>view\<close> is the view at that time, \<open>published\<close> and \<open>resolved\<close> the outcomes of the two writes.\<close>

definition evaluation_decision :: "NativeFilesystemPolicyEvaluation option \<Rightarrow> NativeFilesystemDecision" where
  "evaluation_decision ev = (case ev of
       Some e \<Rightarrow> if matchedStatus (evaluation_result e) = ALLOWED then NATIVE_ALLOW else NATIVE_DENY
     | None \<Rightarrow> NATIVE_DENY)"

definition evaluation_notices ::
    "bridge_error + NativeFilesystemPolicyEvaluation option \<Rightarrow> NativeFilesystemPolicyBridge \<Rightarrow> NativeFilesystemPolicyBridge" where
  "evaluation_notices ending b = (case ending of
       Inl e \<Rightarrow> notifyError e b
     | Inr None \<Rightarrow> b
     | Inr (Some ev) \<Rightarrow> if evaluation_decision (Some ev) = NATIVE_DENY
         then notifyDeny (Denied_message (toDenyMessage (evaluation_result ev))) b else b)"

definition resolution_state ::
    "bridge_error + NativeFilesystemPolicyEvaluation option \<Rightarrow> bridge_view \<Rightarrow> string + nat \<times> NativeFilesystemPolicySnapshot" where
  "resolution_state ending view = (case ending of
       Inr (Some ev) \<Rightarrow> Inr (evaluation_baseRevision ev, evaluation_onceSnapshot ev)
     | _ \<Rightarrow> view)"

definition outcome_decision :: "bridge_error + NativeFilesystemPolicyEvaluation option \<Rightarrow> NativeFilesystemDecision" where
  "outcome_decision ending = (case ending of Inl e \<Rightarrow> NATIVE_DENY | Inr ev \<Rightarrow> evaluation_decision ev)"

definition resolveMiss_finish ::
    "bridge_error + NativeFilesystemPolicyEvaluation option \<Rightarrow> bridge_view \<Rightarrow> bridge_error option \<Rightarrow> bridge_error option
      \<Rightarrow> NativeFilesystemPolicyMiss \<Rightarrow> NativeFilesystemPolicyBridge \<Rightarrow> NativeFilesystemPolicyBridge" where
  "resolveMiss_finish ending view published resolved miss b0 = (let b = evaluation_notices ending b0 in
     case resolution_state ending view of
       Inl e \<Rightarrow> reportError (Other_error e) b
     | Inr (baseRevision, onceSnapshot) \<Rightarrow>
         (case publishOnceSnapshot onceSnapshot published b of
            (b', Some e) \<Rightarrow> reportError e b'
          | (b', None) \<Rightarrow>
              (case encodeNativeFilesystemResolutionMessage (miss_requestId miss) baseRevision
                      (native_revision onceSnapshot) (outcome_decision ending) of
                 Inl e \<Rightarrow> reportError (Protocol_error e) b'
               | Inr bytes \<Rightarrow> (case enqueueWrite bytes resolved b' of
                   (b'', None) \<Rightarrow> b'' | (b'', Some e) \<Rightarrow> reportError e b''))))"

text \<open>A denial the daemon decided by itself; \<open>current\<close> is what the view answers for the path.\<close>

definition reportKnownDenial ::
    "bridge_view \<Rightarrow> PolicyResult option \<Rightarrow> NativeFilesystemPolicyMiss \<Rightarrow> NativeFilesystemPolicyBridge \<Rightarrow> NativeFilesystemPolicyBridge" where
  "reportKnownDenial view current event b = (case view of
       Inl e \<Rightarrow> reportError (Other_error e) b
     | Inr (base, once) \<Rightarrow>
         let known = (if miss_baseRevision event = base \<and> miss_onceRevision event = native_revision once
                      then current else None) in
         (case known of
            Some r \<Rightarrow> if matchedStatus r = DENIED then notifyDeny (Denied_message (toDenyMessage r)) b
                       else notifyDeny (Native_denied (miss_path event) (miss_accessType event)) b
          | None \<Rightarrow> notifyDeny (Native_denied (miss_path event) (miss_accessType event)) b))"

section \<open>The stream may be cut anywhere\<close>

lemma reportError_closed [simp]: "bridge_closed (reportError e b) = bridge_closed b"
  by (simp add: reportError_def notifyError_def clearPartialFrameTimeout_def)

lemma reportError_reported: "\<not> bridge_closed b \<Longrightarrow> reportedError (reportError e b)"
  by (simp add: reportError_def notifyError_def clearPartialFrameTimeout_def)

lemma handle_frame_frame:
  "handle_frame view f b = Inr b' \<Longrightarrow> bridge_closed b' = bridge_closed b \<and> reportedError b' = reportedError b
     \<and> remainder b' = remainder b \<and> synchronizedOnceRevision b' = synchronizedOnceRevision b"
  by (auto simp: handle_frame_def Let_def split: sum.splits prod.splits if_splits)

text \<open>Frames only look at the synchronized revision and only append to the queues, so they commute with
  an update of the remainder and of the timer.\<close>

definition with_rest :: "byte list \<Rightarrow> NativeFilesystemPolicyBridge \<Rightarrow> NativeFilesystemPolicyBridge" where
  "with_rest rest b = b\<lparr>remainder := rest, partialFrameTimer := (rest \<noteq> [])\<rparr>"

lemma handle_frame_with_rest:
  "handle_frame view f (with_rest rest b) = map_sum id (with_rest rest) (handle_frame view f b)"
  by (auto simp: handle_frame_def with_rest_def Let_def split: sum.splits prod.splits)

lemma handle_frames_closed: "bridge_closed (handle_frames view fs b) = bridge_closed b"
  by (induction fs arbitrary: b) (auto simp: handle_frame_frame split: sum.splits)

lemma handle_frames_reported: "reportedError b \<Longrightarrow> reportedError (handle_frames view fs b)"
  by (induction fs arbitrary: b) (auto simp: handle_frame_frame reportError_def split: sum.splits)

lemma handle_frames_append:
  "\<not> bridge_closed b \<Longrightarrow> \<not> reportedError (handle_frames view (fs @ gs) b) \<Longrightarrow>
     handle_frames view (fs @ gs) b = handle_frames view gs (handle_frames view fs b)
     \<and> \<not> reportedError (handle_frames view fs b)"
proof (induction fs arbitrary: b)
  case Nil
  then show ?case using handle_frames_reported [of b] by auto
next
  case (Cons f fs)
  then show ?case
    by (auto simp: handle_frame_frame reportError_reported split: sum.splits)
qed

lemma handle_frames_with_rest:
  "\<not> bridge_closed b \<Longrightarrow> \<not> reportedError (handle_frames view fs (with_rest rest b)) \<Longrightarrow>
     handle_frames view fs (with_rest rest b) = with_rest rest (handle_frames view fs b)
     \<and> remainder (handle_frames view fs b) = remainder b \<and> \<not> reportedError (handle_frames view fs b)"
proof (induction fs arbitrary: b)
  case Nil
  then show ?case by (simp add: with_rest_def)
next
  case (Cons f fs)
  show ?case
  proof (cases "handle_frame view f b")
    case (Inl e)
    then show ?thesis using Cons.prems reportError_reported [of "with_rest rest b" e]
      by (simp add: handle_frame_with_rest) (simp add: with_rest_def)
  next
    case (Inr b')
    then show ?thesis using Cons handle_frame_frame [OF Inr] by (simp add: handle_frame_with_rest)
  qed
qed

lemma handle_frames_reported_with_rest:
  "reportedError (handle_frames view fs (with_rest rest b)) = reportedError (handle_frames view fs b)"
proof (induction fs arbitrary: b)
  case (Cons f fs)
  then show ?case
    by (cases "handle_frame view f b")
      (simp_all add: handle_frame_with_rest, simp add: reportError_def with_rest_def notifyError_def clearPartialFrameTimeout_def)
qed (simp add: with_rest_def)

lemma with_rest_twice [simp]: "with_rest r (with_rest q b) = with_rest r b"
  by (simp add: with_rest_def)

lemma handleData_Inr:
  assumes "\<not> bridge_closed b" "decodeNativeFilesystemControlFrames (remainder b @ chunk) = Inr (frames, rest)"
  shows "handleData view chunk b = handle_frames view frames (with_rest rest b)"
  using assms by (simp add: handleData_def with_rest_def armPartialFrameTimeout_def clearPartialFrameTimeout_def)

text \<open>C21: the bridge does not depend on how the daemon's bytes arrive: if receiving two chunks at once
  reports no error, receiving them one after the other ends in the same state, with the same requests
  queued in the same order.\<close>

theorem bridge_independent_of_chunks:
  assumes "\<not> bridge_closed b" and "\<not> reportedError (handleData view (a @ c) b)"
  shows "handleData view c (handleData view a b) = handleData view (a @ c) b"
proof -
  obtain fs rest where all: "decodeNativeFilesystemControlFrames (remainder b @ a @ c) = Inr (fs, rest)"
    using assms reportError_reported [OF assms(1)]
    by (cases "decodeNativeFilesystemControlFrames (remainder b @ a @ c)") (auto simp: handleData_def)
  then obtain fs1 r fs2 where first: "decodeNativeFilesystemControlFrames (remainder b @ a) = Inr (fs1, r)"
    and second: "decodeNativeFilesystemControlFrames (r @ c) = Inr (fs2, rest)" and fs: "fs = fs1 @ fs2"
    using decode_append [of "remainder b @ a" c] by (auto simp: sum_bind_Inr dest!: sym [of "Inr (fs, rest)"])
  let ?b1 = "handle_frames view fs1 b"
  have joint: "handleData view (a @ c) b = handle_frames view (fs1 @ fs2) (with_rest rest b)"
    using handleData_Inr [OF assms(1) all] fs by simp
  note ok = assms(2) [unfolded joint]
  have opened: "\<not> bridge_closed (with_rest rest b)" using assms(1) by (simp add: with_rest_def)
  note app = handle_frames_append [OF opened ok]
  have ok1: "\<not> reportedError (handle_frames view fs1 (with_rest rest b))" using app by simp
  note one = handle_frames_with_rest [OF assms(1) ok1]
  have "handleData view a b = handle_frames view fs1 (with_rest r b)" by (rule handleData_Inr [OF assms(1) first])
  moreover have "\<not> reportedError (handle_frames view fs1 (with_rest r b))"
    using one by (simp add: handle_frames_reported_with_rest)
  ultimately have step: "handleData view a b = with_rest r ?b1"
    using handle_frames_with_rest [OF assms(1)] by simp
  have "handleData view c (with_rest r ?b1) = handle_frames view fs2 (with_rest rest ?b1)"
  proof -
    have "\<not> bridge_closed (with_rest r ?b1)" using assms(1) handle_frames_closed by (simp add: with_rest_def)
    from handleData_Inr [OF this, of c fs2 rest] second show ?thesis by (simp add: with_rest_def)
  qed
  then show ?thesis using joint step app one by simp
qed

definition synchronized_bridge :: NativeFilesystemPolicyBridge where
  "synchronized_bridge = new_NativeFilesystemPolicyBridge\<lparr>synchronizedOnceRevision := Some 0\<rparr>"

definition example_view :: bridge_view where
  "example_view = Inr (3, \<lparr>native_revision = 0, native_layers = []\<rparr>)"

definition ready_bytes :: "byte list" where
  "ready_bytes = le_bytes 4 4 @ le_bytes 4 16 @ le_bytes 8 3 @ le_bytes 8 0"

theorem bridge_independent_of_chunks_witness:
  "readyCalls (handleData example_view (drop 5 ready_bytes) (handleData example_view (take 5 ready_bytes) synchronized_bridge))
     = [(3, 0)]"
proof -
  have "\<not> bridge_closed synchronized_bridge"
    and "\<not> reportedError (handleData example_view (take 5 ready_bytes @ drop 5 ready_bytes) synchronized_bridge)"
    and "readyCalls (handleData example_view (take 5 ready_bytes @ drop 5 ready_bytes) synchronized_bridge) = [(3, 0)]"
    by code_simp+
  then show ?thesis using bridge_independent_of_chunks by metis
qed

section \<open>An access is granted only by an evaluation\<close>

lemma le_bytes_4: "le_bytes 4 n = of_nat n # le_bytes 3 (n div 256)"
  using le_bytes.simps(2) [of 3 n] by (simp only: Suc_numeral Num.add_num_simps)

lemma encodeControlFrame_first:
  "encodeControlFrame ty p = Inr bytes \<Longrightarrow> hd bytes = of_nat ty \<and> bytes \<noteq> []"
  by (auto simp: encodeControlFrame_def le_bytes_4 split: if_splits)

lemma resolution_first:
  "encodeNativeFilesystemResolutionMessage r x y d = Inr bytes \<Longrightarrow> hd bytes = 2"
  using encodeControlFrame_first
  by (fastforce simp: encodeNativeFilesystemResolutionMessage_def RESOLUTION_def split: if_splits)

lemma once_first:
  "encodeNativeFilesystemOnceSnapshotMessage snapshot = Inr bytes \<Longrightarrow> hd bytes = 1"
  using encodeControlFrame_first
  by (fastforce simp: encodeNativeFilesystemOnceSnapshotMessage_def ONCE_SNAPSHOT_def sum_bind_Inr)

lemma le_bytes_inject: "m < 256 ^ k \<Longrightarrow> n < 256 ^ k \<Longrightarrow> le_bytes k m = le_bytes k n \<longleftrightarrow> m = n"
  by (metis read_le_bytes_id)

lemma resolution_inject:
  assumes "encodeNativeFilesystemResolutionMessage r x y d = Inr bytes"
    "encodeNativeFilesystemResolutionMessage r' x' y' d' = Inr bytes"
  shows "r = r' \<and> x = x' \<and> y = y' \<and> d = d'"
proof -
  have small: "q < 256 ^ 8" "z < 256 ^ 8" "w < 256 ^ 8"
    if "encodeNativeFilesystemResolutionMessage q z w e = Inr bytes" for q z w e
    using that by (auto simp: encodeNativeFilesystemResolutionMessage_def MAX_SAFE_INTEGER_def split: if_splits)
  have bytes: "bytes = le_bytes 4 RESOLUTION @ le_bytes 4 25 @ le_bytes 8 q @ le_bytes 8 z @ le_bytes 8 w @ le_bytes 1 (decisionCode e)"
    if "encodeNativeFilesystemResolutionMessage q z w e = Inr bytes" for q z w e
    using that by (auto simp: encodeNativeFilesystemResolutionMessage_def encodeControlFrame_def split: if_splits)
  have "le_bytes 8 r = le_bytes 8 r' \<and> le_bytes 8 x = le_bytes 8 x' \<and> le_bytes 8 y = le_bytes 8 y'
      \<and> le_bytes 1 (decisionCode d) = le_bytes 1 (decisionCode d')"
    using bytes [OF assms(1)] bytes [OF assms(2)] by simp
  then show ?thesis using small [OF assms(1)] small [OF assms(2)]
    by (cases d; cases d') (auto simp: le_bytes_inject)
qed

lemma publish_written:
  assumes "publishOnceSnapshot snapshot e b = (b', r)"
  shows "written b' = written b \<or> (\<exists>bytes. written b' = written b @ [bytes] \<and> hd bytes = 1)"
    and "r = None \<Longrightarrow> lastPublishedOnceRevision b' = int (native_revision snapshot)"
  using assms once_first
  by (fastforce simp: publishOnceSnapshot_def enqueueWrite_def split: if_splits sum.splits prod.splits option.splits)+

lemma reportError_written [simp]:
  "written (reportError e b) = written b" "lastPublishedOnceRevision (reportError e b) = lastPublishedOnceRevision b"
  by (simp_all add: reportError_def notifyError_def clearPartialFrameTimeout_def)

lemma evaluation_notices_written [simp]:
  "written (evaluation_notices ending b) = written b"
  by (simp add: evaluation_notices_def notifyError_def notifyDeny_def split: sum.splits option.splits)

text \<open>C20: an answer to the daemon that allows an access is sent only when the evaluation of that very
  request ended with a result that allows it; it carries the revisions of that evaluation, and the once
  rules of that revision have been sent before it.  An aborted or failed evaluation never allows.\<close>

theorem native_allow_needs_evaluation:
  assumes "resolveMiss_finish ending view published resolved miss b = b'"
    and "written b' = written b @ sent" and "message \<in> set sent"
    and "encodeNativeFilesystemResolutionMessage request baseRevision onceRevision NATIVE_ALLOW = Inr message"
  shows "request = miss_requestId miss
    \<and> (\<exists>ev. ending = Inr (Some ev) \<and> matchedStatus (evaluation_result ev) = ALLOWED
         \<and> baseRevision = evaluation_baseRevision ev \<and> onceRevision = native_revision (evaluation_onceSnapshot ev))
    \<and> lastPublishedOnceRevision b' = int onceRevision"
proof -
  let ?n = "evaluation_notices ending b"
  have two: "hd message = 2" using resolution_first [OF assms(4)] .
  obtain base once where st: "resolution_state ending view = Inr (base, once)"
    using assms(1-3) by (cases "resolution_state ending view") (auto simp: resolveMiss_finish_def Let_def)
  obtain p r where pub: "publishOnceSnapshot once published ?n = (p, r)" by fastforce
  note p = publish_written [OF pub]
  have r: "r = None"
    using assms(1-3) two p(1) by (cases r) (auto simp: resolveMiss_finish_def Let_def st pub)
  obtain bytes where enc: "encodeNativeFilesystemResolutionMessage (miss_requestId miss) base (native_revision once)
      (outcome_decision ending) = Inr bytes"
    using assms(1-3) two p(1) r
    by (cases "encodeNativeFilesystemResolutionMessage (miss_requestId miss) base (native_revision once)
      (outcome_decision ending)") (auto simp: resolveMiss_finish_def Let_def st pub)
  have b': "b' = (case enqueueWrite bytes resolved p of (q, None) \<Rightarrow> q | (q, Some e) \<Rightarrow> reportError e q)"
    using assms(1) by (simp add: resolveMiss_finish_def Let_def st pub r enc)
  then have "message = bytes" and last: "lastPublishedOnceRevision b' = lastPublishedOnceRevision p"
    using assms(2,3) two p(1) by (auto simp: enqueueWrite_def split: option.splits if_splits)
  with enc assms(4) have eq: "request = miss_requestId miss" "baseRevision = base" "onceRevision = native_revision once"
    "outcome_decision ending = NATIVE_ALLOW"
    using resolution_inject by blast+
  from eq(4) obtain ev where ev: "ending = Inr (Some ev)" "matchedStatus (evaluation_result ev) = ALLOWED"
    by (auto simp: outcome_decision_def evaluation_decision_def split: sum.splits option.splits if_splits)
  with eq st last p(2) r show ?thesis by (auto simp: resolution_state_def)
qed

definition example_miss :: NativeFilesystemPolicyMiss where
  "example_miss = \<lparr>miss_requestId = 7, miss_baseRevision = 3, miss_onceRevision = 0, miss_access = READ,
     miss_path = Text ''/a''\<rparr>"

definition example_evaluation :: NativeFilesystemPolicyEvaluation where
  "example_evaluation = \<lparr>evaluation_result = \<lparr>evaluatedUri = ''/a'', evaluatedAccessType = FS_READ, matchedPattern = ''/a'',
       matchedLifetime = ONCE, matchedStatus = ALLOWED, matchedReason = [], resolutionSource = NEW_USER_DECISION\<rparr>,
     evaluation_baseRevision = 3, evaluation_onceSnapshot = \<lparr>native_revision = 1, native_layers = []\<rparr>\<rparr>"

definition example_resolution :: "byte list" where
  "example_resolution = projr (encodeNativeFilesystemResolutionMessage 7 3 1 NATIVE_ALLOW)"

theorem native_allow_needs_evaluation_witness:
  "example_resolution \<in> set (written (resolveMiss_finish (Inr (Some example_evaluation)) example_view None None
       example_miss new_NativeFilesystemPolicyBridge))
   \<and> lastPublishedOnceRevision (resolveMiss_finish (Inr (Some example_evaluation)) example_view None None
       example_miss new_NativeFilesystemPolicyBridge) = 1"
proof -
  let ?b = "resolveMiss_finish (Inr (Some example_evaluation)) example_view None None
       example_miss new_NativeFilesystemPolicyBridge"
  have sent: "written ?b = written new_NativeFilesystemPolicyBridge @ written ?b"
    and mem: "example_resolution \<in> set (written ?b)"
    and enc: "encodeNativeFilesystemResolutionMessage 7 3 1 NATIVE_ALLOW = Inr example_resolution"
    by code_simp+
  show ?thesis using mem native_allow_needs_evaluation [OF refl sent mem enc] by simp
qed

end
