(* ===== verification/Pausable_Timeout.thy ===== *)
theory Pausable_Timeout
  imports Prelude
begin

text \<open>
  The budget timer of the runtime: \<open>src/src/runtime/PausableTimeout.ts\<close>.  Times are integers of any fixed
  resolution; the clock reading of an operation is its argument.  The timer of the event loop is the time
  at which it is due; \<open>timer_fires\<close> is its callback, which may run at any later time or slightly early.  A release
  function is the number of its pause.  The theory shows that exactly the unpaused time is counted.
\<close>

record PausableTimeout =
  remaining :: int
  startedAt :: "int option"
  timer :: "int option"
  pauses :: "nat list"
  next_pause :: nat
  disposed :: bool
  didExpire :: bool
  has_callback :: bool
  callback_calls :: nat

text \<open>The largest delay of the event loop.\<close>

definition MAX_DELAY :: int where "MAX_DELAY = 2147483647"

definition arm :: "int \<Rightarrow> PausableTimeout \<Rightarrow> PausableTimeout" where
  "arm now t = t\<lparr>startedAt := Some now, timer := Some (now + min (remaining t) MAX_DELAY)\<rparr>"

definition expire :: "PausableTimeout \<Rightarrow> PausableTimeout" where
  "expire t = t\<lparr>didExpire := True, has_callback := False,
     callback_calls := callback_calls t + (if has_callback t then 1 else 0)\<rparr>"

definition consumeElapsed :: "int \<Rightarrow> PausableTimeout \<Rightarrow> PausableTimeout" where
  "consumeElapsed now t = (case startedAt t of
       None \<Rightarrow> t
     | Some s \<Rightarrow> t\<lparr>remaining := max 0 (remaining t - max 0 (now - s)), startedAt := None\<rparr>)"

definition cancelTimer :: "PausableTimeout \<Rightarrow> PausableTimeout" where
  "cancelTimer t = t\<lparr>timer := None\<rparr>"

definition new_PausableTimeout :: "int \<Rightarrow> int \<Rightarrow> string + PausableTimeout" where
  "new_PausableTimeout milliseconds now =
     (if milliseconds < 0 then Inl ''Pausable timeout must be a non-negative finite number''
      else Inr (arm now \<lparr>remaining = milliseconds, startedAt = None, timer = None, pauses = [], next_pause = 0,
        disposed = False, didExpire = False, has_callback = True, callback_calls = 0\<rparr>))"

text \<open>\<open>pause\<close>: the second result is the release function, \<open>None\<close> for the one that does nothing.\<close>

definition pause :: "int \<Rightarrow> PausableTimeout \<Rightarrow> PausableTimeout \<times> nat option" where
  "pause now t = (if disposed t \<or> didExpire t then (t, None)
     else let t1 = (if pauses t = [] then cancelTimer (consumeElapsed now t) else t) in
       if pauses t = [] \<and> remaining t1 \<le> 0 then (expire t1, None)
       else (t1\<lparr>pauses := next_pause t1 # pauses t1, next_pause := Suc (next_pause t1)\<rparr>, Some (next_pause t1)))"

definition release_pause :: "int \<Rightarrow> nat \<Rightarrow> PausableTimeout \<Rightarrow> PausableTimeout" where
  "release_pause now k t = (if k \<notin> set (pauses t) then t
     else let t1 = t\<lparr>pauses := remove1 k (pauses t)\<rparr> in
       if pauses t1 = [] \<and> \<not> disposed t1 \<and> \<not> didExpire t1 then arm now t1 else t1)"

definition dispose_timeout :: "PausableTimeout \<Rightarrow> PausableTimeout" where
  "dispose_timeout t = (if disposed t then t
     else (cancelTimer (t\<lparr>disposed := True, has_callback := False\<rparr>))\<lparr>startedAt := None\<rparr>)"

text \<open>The callback of the event loop's timer, which runs only while the timer is set.\<close>

definition timer_fires :: "int \<Rightarrow> PausableTimeout \<Rightarrow> PausableTimeout" where
  "timer_fires now t = (if timer t = None then t
     else let t1 = cancelTimer (consumeElapsed now t) in if remaining t1 \<le> 0 then expire t1 else arm now t1)"

section \<open>Runs\<close>

text \<open>A run from the construction with a budget: the clock moves on, and operations happen at its
  readings.  \<open>active\<close> is the time that passed while the timer was set, that is, without pauses.\<close>

inductive timeout_run :: "int \<Rightarrow> PausableTimeout \<Rightarrow> int \<Rightarrow> int \<Rightarrow> bool" for budget :: int where
  start: "new_PausableTimeout budget now = Inr t \<Longrightarrow> timeout_run budget t now 0"
| tick: "timeout_run budget t now active \<Longrightarrow> now \<le> later \<Longrightarrow>
    timeout_run budget t later (if timer t \<noteq> None then active + (later - now) else active)"
| paused: "timeout_run budget t now active \<Longrightarrow> timeout_run budget (fst (pause now t)) now active"
| released: "timeout_run budget t now active \<Longrightarrow> timeout_run budget (release_pause now k t) now active"
| fired: "timeout_run budget t now active \<Longrightarrow> timeout_run budget (timer_fires now t) now active"
| gone: "timeout_run budget t now active \<Longrightarrow> timeout_run budget (dispose_timeout t) now active"

definition elapsed :: "PausableTimeout \<Rightarrow> int \<Rightarrow> int" where
  "elapsed t now = (case startedAt t of None \<Rightarrow> 0 | Some s \<Rightarrow> now - s)"

definition timeout_ok :: "int \<Rightarrow> PausableTimeout \<Rightarrow> int \<Rightarrow> int \<Rightarrow> bool" where
  "timeout_ok budget t now active \<longleftrightarrow>
     (timer t \<noteq> None \<longleftrightarrow> startedAt t \<noteq> None)
   \<and> (timer t \<noteq> None \<longleftrightarrow> pauses t = [] \<and> \<not> disposed t \<and> \<not> didExpire t)
   \<and> (case startedAt t of Some s \<Rightarrow> s \<le> now | None \<Rightarrow> True)
   \<and> callback_calls t = (if didExpire t then 1 else 0)
   \<and> (has_callback t \<longleftrightarrow> \<not> didExpire t \<and> \<not> disposed t)
   \<and> (didExpire t \<longrightarrow> budget \<le> active)
   \<and> (\<not> didExpire t \<and> \<not> disposed t \<longrightarrow> remaining t - elapsed t now = budget - active \<and> 0 \<le> remaining t)
   \<and> (pauses t \<noteq> [] \<and> \<not> didExpire t \<and> \<not> disposed t \<longrightarrow> 0 < remaining t)"

lemmas timeout_defs = timeout_ok_def arm_def expire_def consumeElapsed_def cancelTimer_def elapsed_def

lemma start_ok: "new_PausableTimeout budget now = Inr t \<Longrightarrow> timeout_ok budget t now 0"
  by (auto simp: new_PausableTimeout_def timeout_defs split: if_splits)

lemma tick_ok:
  "timeout_ok budget t now active \<Longrightarrow> now \<le> later \<Longrightarrow>
    timeout_ok budget t later (if timer t \<noteq> None then active + (later - now) else active)"
  by (auto simp: timeout_ok_def elapsed_def split: option.splits)

text \<open>What consuming the elapsed time leaves of an armed timeout.\<close>

lemma consume_armed:
  assumes "timeout_ok budget t now active" "timer t \<noteq> None"
  shows "remaining (consumeElapsed now t) = max 0 (budget - active)" "startedAt (consumeElapsed now t) = None"
    "pauses t = []" "\<not> disposed t" "\<not> didExpire t" "has_callback t" "callback_calls t = 0"
  using assms by (cases "startedAt t"; force simp: timeout_ok_def consumeElapsed_def elapsed_def)+

lemma consume_frame [simp]:
  "pauses (consumeElapsed now t) = pauses t" "disposed (consumeElapsed now t) = disposed t"
  "didExpire (consumeElapsed now t) = didExpire t" "has_callback (consumeElapsed now t) = has_callback t"
  "callback_calls (consumeElapsed now t) = callback_calls t" "next_pause (consumeElapsed now t) = next_pause t"
  by (simp_all add: consumeElapsed_def split: option.splits)

lemma pause_ok: "timeout_ok budget t now active \<Longrightarrow> timeout_ok budget (fst (pause now t)) now active"
proof (cases "timer t = None")
  case True
  assume "timeout_ok budget t now active"
  with True show ?thesis by (auto simp: pause_def Let_def timeout_ok_def elapsed_def split: option.splits)
next
  case False
  assume ok: "timeout_ok budget t now active"
  show ?thesis using consume_armed [OF ok False]
    by (simp add: pause_def Let_def timeout_ok_def cancelTimer_def expire_def elapsed_def max_def)
qed

lemma release_ok: "timeout_ok budget t now active \<Longrightarrow> timeout_ok budget (release_pause now k t) now active"
proof (cases "k \<in> set (pauses t)")
  case True
  assume ok: "timeout_ok budget t now active"
  have paused: "pauses t \<noteq> []" using True by auto
  then have off: "timer t = None" "startedAt t = None" using ok unfolding timeout_ok_def by blast+
  show ?thesis
  proof (cases "remove1 k (pauses t) = [] \<and> \<not> disposed t \<and> \<not> didExpire t")
    case True
    then show ?thesis using ok off paused \<open>k \<in> set (pauses t)\<close>
      by (simp add: release_pause_def arm_def Let_def timeout_ok_def elapsed_def)
  next
    case False
    with \<open>k \<in> set (pauses t)\<close> have "release_pause now k t = t\<lparr>pauses := remove1 k (pauses t)\<rparr>"
      by (auto simp: release_pause_def Let_def)
    then show ?thesis using ok off paused False by (auto simp: timeout_ok_def elapsed_def)
  qed
qed (simp add: release_pause_def)

lemma fires_ok: "timeout_ok budget t now active \<Longrightarrow> timeout_ok budget (timer_fires now t) now active"
proof (cases "timer t = None")
  case False
  assume ok: "timeout_ok budget t now active"
  show ?thesis using consume_armed [OF ok False] False
    by (simp add: timer_fires_def Let_def timeout_ok_def cancelTimer_def expire_def arm_def elapsed_def max_def)
qed (simp add: timer_fires_def)

lemma dispose_ok: "timeout_ok budget t now active \<Longrightarrow> timeout_ok budget (dispose_timeout t) now active"
  by (auto simp: dispose_timeout_def cancelTimer_def timeout_ok_def elapsed_def)

lemma timeout_run_ok: "timeout_run budget t now active \<Longrightarrow> timeout_ok budget t now active"
  by (induction rule: timeout_run.induct) (simp_all only: start_ok tick_ok pause_ok release_ok fires_ok dispose_ok)

text \<open>C24: the timeout counts exactly the time without pauses: its callback runs at most once and never
  before the budget has passed without pauses; until then the unpaused time left is the budget less the
  unpaused time so far, the timer is set exactly when no pause is open, and a timer that runs when the
  budget has passed expires.\<close>

theorem timeout_counts_unpaused_time:
  assumes "timeout_run budget t now active"
  shows "callback_calls t \<le> 1 \<and> (callback_calls t = 1 \<longrightarrow> budget \<le> active)
    \<and> (\<not> didExpire t \<and> \<not> disposed t \<longrightarrow>
         remaining t - elapsed t now = budget - active \<and> (timer t \<noteq> None \<longleftrightarrow> pauses t = []))
    \<and> (timer t \<noteq> None \<and> budget \<le> active \<longrightarrow> didExpire (timer_fires now t) \<and> callback_calls (timer_fires now t) = 1)"
proof -
  note ok = timeout_run_ok [OF assms]
  have "timer t \<noteq> None \<Longrightarrow> budget \<le> active \<Longrightarrow> didExpire (timer_fires now t) \<and> callback_calls (timer_fires now t) = 1"
    using consume_armed [OF ok] by (simp add: timer_fires_def Let_def cancelTimer_def expire_def)
  with ok show ?thesis by (auto simp: timeout_ok_def split: if_splits)
qed

text \<open>A budget of 10: 4 pass, a pause of 100, 6 more pass, the timer runs.\<close>

definition example_timeout :: PausableTimeout where
  "example_timeout = release_pause 104 0 (fst (pause 4 (projr (new_PausableTimeout 10 0))))"

lemma example_timeout_run: "timeout_run 10 example_timeout 110 10"
proof -
  have "timeout_run 10 (projr (new_PausableTimeout 10 0)) 0 0" by (rule timeout_run.start) (simp add: new_PausableTimeout_def)
  from timeout_run.paused [OF timeout_run.tick [OF this, of 4]]
  have "timeout_run 10 (fst (pause 4 (projr (new_PausableTimeout 10 0)))) 4 4"
    by (simp add: new_PausableTimeout_def arm_def)
  from timeout_run.tick [OF this, of 104]
  have "timeout_run 10 (fst (pause 4 (projr (new_PausableTimeout 10 0)))) 104 4"
    by (simp add: new_PausableTimeout_def arm_def pause_def consumeElapsed_def cancelTimer_def)
  from timeout_run.tick [OF timeout_run.released [OF this, of 0], of 110] show ?thesis
    by (simp add: example_timeout_def new_PausableTimeout_def arm_def pause_def consumeElapsed_def cancelTimer_def
        release_pause_def Let_def)
qed

theorem timeout_counts_unpaused_time_witness:
  "callback_calls (timer_fires 110 example_timeout) = 1"
proof -
  have "timer example_timeout \<noteq> None" by code_simp
  then show ?thesis using timeout_counts_unpaused_time [OF example_timeout_run] by simp
qed

end
