(* ===== verification/Decision_Flow.thy ===== *)
theory Decision_Flow
  imports Runtime_State
begin

text \<open>
  The approval dialogue: \<open>src/src/policy/PolicyDecisionFlow.ts\<close> on top of the decision flows of
  \<open>src/src/tui/UiDecisionFlowManager.ts\<close>.  What the user does is a list of replies, one per question; a list that
  ends stands for a dismissed dialogue.  Titles, summaries and drawing are left out.  The theory shows
  which choices a dialogue can produce: an access is allowed only by explicit acts of the user.
\<close>

section \<open>Flows of questions\<close>

datatype UiFlowShortcut = ALLOW_ALL_ONCE | DENY_ALL_ONCE

datatype ui_reply = Dismissed | Shortcut UiFlowShortcut | Chosen string | Typed string

record ('k, 's, 'v) UiSelectDecisionOption =
  option_title :: string
  option_value :: 'v
  option_next :: "'s \<Rightarrow> 'k option"

datatype ('k, 's, 'v) UiDecision =
    Select 'k "('k, 's, 'v) UiSelectDecisionOption list"
  | Input 'k "string \<Rightarrow> 'v" "'s \<Rightarrow> 'k option"

fun decision_key :: "('k, 's, 'v) UiDecision \<Rightarrow> 'k" where
  "decision_key (Select k os) = k"
| "decision_key (Input k v n) = k"

text \<open>\<open>Object.fromEntries\<close>: of options with the same title the last one is found.\<close>

definition resolveSelectDecision ::
    "('k, 's, 'v) UiSelectDecisionOption list \<Rightarrow> ui_reply \<Rightarrow> (UiFlowShortcut + 'v \<times> ('s \<Rightarrow> 'k option)) option" where
  "resolveSelectDecision options reply = (case reply of
       Shortcut s \<Rightarrow> Some (Inl s)
     | Chosen c \<Rightarrow> if c = [] then None
         else map_option (\<lambda>opt. Inr (option_value opt, option_next opt)) (map_of (rev (map (\<lambda>opt. (option_title opt, opt)) options)) c)
     | _ \<Rightarrow> None)"

definition resolveInputDecision ::
    "bool \<Rightarrow> (string \<Rightarrow> 'v) \<Rightarrow> ('s \<Rightarrow> 'k option) \<Rightarrow> ui_reply \<Rightarrow> (UiFlowShortcut + 'v \<times> ('s \<Rightarrow> 'k option)) option" where
  "resolveInputDecision hasInput value next reply = (case reply of
       Typed v \<Rightarrow> if hasInput then Some (Inr (value v, next)) else None
     | _ \<Rightarrow> None)"

fun resolveDecision ::
    "bool \<Rightarrow> ('k, 's, 'v) UiDecision \<Rightarrow> ui_reply \<Rightarrow> (UiFlowShortcut + 'v \<times> ('s \<Rightarrow> 'k option)) option" where
  "resolveDecision hasInput (Select k options) reply = resolveSelectDecision options reply"
| "resolveDecision hasInput (Input k value next) reply = resolveInputDecision hasInput value next reply"

datatype 's flow_end = Finished 's | Cancelled 's | By_shortcut UiFlowShortcut | Undefined_decision

text \<open>The loop over the questions: \<open>assign\<close> stores an answer in the state, \<open>all\<close> are the questions by key.\<close>

fun run_questions ::
    "bool \<Rightarrow> ('k \<Rightarrow> 'v \<Rightarrow> 's \<Rightarrow> 's) \<Rightarrow> ('k \<Rightarrow> ('k, 's, 'v) UiDecision option) \<Rightarrow> ui_reply list
      \<Rightarrow> ('k, 's, 'v) UiDecision \<Rightarrow> 's \<Rightarrow> 's flow_end" where
  "run_questions hasInput assign all [] current state = Cancelled state"
| "run_questions hasInput assign all (reply # replies) current state =
     (case resolveDecision hasInput current reply of
        None \<Rightarrow> Cancelled state
      | Some (Inl s) \<Rightarrow> By_shortcut s
      | Some (Inr (v, next)) \<Rightarrow> (let state' = assign (decision_key current) v state in
          case next state' of
            None \<Rightarrow> Finished state'
          | Some k \<Rightarrow> (case all k of
              None \<Rightarrow> Undefined_decision
            | Some decision \<Rightarrow> run_questions hasInput assign all replies decision state')))"

definition runActiveFlow ::
    "bool \<Rightarrow> bool \<Rightarrow> ('k \<Rightarrow> 'v \<Rightarrow> 's \<Rightarrow> 's) \<Rightarrow> ('k \<Rightarrow> ('k, 's, 'v) UiDecision option) \<Rightarrow> ui_reply list
      \<Rightarrow> ('k, 's, 'v) UiDecision \<Rightarrow> 's \<Rightarrow> 's flow_end" where
  "runActiveFlow hasUi hasInput assign all replies initial state =
     (if \<not> hasUi then Cancelled state else run_questions hasInput assign all replies initial state)"

text \<open>A queued flow that is aborted before its turn is cancelled; an answer of the recheck replaces the
  questions.\<close>

definition runQueuedFlow :: "bool \<Rightarrow> 's option \<Rightarrow> 's flow_end \<Rightarrow> 's \<Rightarrow> 's flow_end" where
  "runQueuedFlow aborted beforeStart active state = (if aborted then Cancelled state
     else (case beforeStart of Some r \<Rightarrow> Finished r | None \<Rightarrow> active))"

section \<open>The approval dialogue\<close>

datatype approval_key = Scope_key | Status_key | Lifetime_key | Reason_key

datatype approval_value = V_scope string | V_status PolicyResponse | V_lifetime PolicyLifetime | V_reason string

text \<open>A partial approval.\<close>

record PolicyApproval =
  approval_scope :: "string option"
  approval_status :: "PolicyResponse option"
  approval_lifetime :: "PolicyLifetime option"
  approval_reason :: "string option"

definition empty_approval :: PolicyApproval where
  "empty_approval = \<lparr>approval_scope = None, approval_status = None, approval_lifetime = None, approval_reason = None\<rparr>"

fun assign_approval :: "approval_key \<Rightarrow> approval_value \<Rightarrow> PolicyApproval \<Rightarrow> PolicyApproval" where
  "assign_approval Scope_key (V_scope s) a = a\<lparr>approval_scope := Some s\<rparr>"
| "assign_approval Status_key (V_status s) a = a\<lparr>approval_status := Some s\<rparr>"
| "assign_approval Lifetime_key (V_lifetime l) a = a\<lparr>approval_lifetime := Some l\<rparr>"
| "assign_approval Reason_key (V_reason r) a = a\<lparr>approval_reason := Some r\<rparr>"
| "assign_approval k v a = a"

definition reasonDecisionAfterDenial :: "PolicyApproval \<Rightarrow> approval_key option" where
  "reasonDecisionAfterDenial state = (if approval_status state = Some DENIED then Some Reason_key else None)"

definition lifetime_option :: "string \<Rightarrow> PolicyLifetime \<Rightarrow> (approval_key, PolicyApproval, approval_value) UiSelectDecisionOption" where
  "lifetime_option title l = \<lparr>option_title = title, option_value = V_lifetime l, option_next = reasonDecisionAfterDenial\<rparr>"

definition lifeTimeOptions :: "PolicyAccessType \<Rightarrow> (approval_key, PolicyApproval, approval_value) UiSelectDecisionOption list" where
  "lifeTimeOptions at =
     (if at = FS_READ \<or> at = FS_WRITE
      then [lifetime_option ''Once'' ONCE, lifetime_option ''This session'' SESSION,
            lifetime_option ''Always on this computer'' LOCAL]
      else [lifetime_option ''Once'' ONCE, lifetime_option ''This session'' SESSION,
            lifetime_option ''Always on this computer'' LOCAL, lifetime_option ''Always synchronized'' GLOBAL])"

fun policyDecisions :: "PolicyAccessType \<Rightarrow> string list \<Rightarrow> approval_key \<Rightarrow> (approval_key, PolicyApproval, approval_value) UiDecision" where
  "policyDecisions at scopes Scope_key = Select Scope_key
     (map (\<lambda>scope. \<lparr>option_title = scope, option_value = V_scope scope, option_next = (\<lambda>_. Some Status_key)\<rparr>) scopes)"
| "policyDecisions at scopes Status_key = Select Status_key
     [\<lparr>option_title = ''Allow'', option_value = V_status ALLOWED, option_next = (\<lambda>_. Some Lifetime_key)\<rparr>,
      \<lparr>option_title = ''Deny'', option_value = V_status DENIED, option_next = (\<lambda>_. Some Lifetime_key)\<rparr>]"
| "policyDecisions at scopes Lifetime_key = Select Lifetime_key (lifeTimeOptions at)"
| "policyDecisions at scopes Reason_key = Input Reason_key V_reason (\<lambda>_. None)"

definition defaultReason :: "PolicyResponse \<Rightarrow> PolicyAccessType \<Rightarrow> string" where
  "defaultReason st at = ''User selected '' @ responseValue st @ '' for '' @ accessTypeValue at @ ''.''"

text \<open>\<open>JSON.stringify\<close> of a string.\<close>

definition hex_digit :: "nat \<Rightarrow> char" where
  "hex_digit n = (if n < 10 then char_of (48 + n) else char_of (87 + n))"

definition json_char :: "char \<Rightarrow> string" where
  "json_char c = (let n = (of_char c :: nat) in
     if n = 34 then [CHR 0x5C, CHR 0x22] else if n = 92 then [CHR 0x5C, CHR 0x5C]
     else if n = 8 then [CHR 0x5C, CHR ''b''] else if n = 9 then [CHR 0x5C, CHR ''t'']
     else if n = 10 then [CHR 0x5C, CHR ''n''] else if n = 12 then [CHR 0x5C, CHR ''f'']
     else if n = 13 then [CHR 0x5C, CHR ''r'']
     else if n < 32 then [CHR 0x5C] @ ''u00'' @ [hex_digit (n div 16), hex_digit (n mod 16)]
     else [c])"

definition json_string :: "string \<Rightarrow> string" where
  "json_string s = [CHR 0x22] @ concat (map json_char s) @ [CHR 0x22]"

text \<open>An empty scope counts as missing in the message, as an empty string is falsy.\<close>

definition flowCancelReason :: "PolicyApproval \<Rightarrow> string \<Rightarrow> string" where
  "flowCancelReason state evaluatedPath =
     (if approval_scope state = None \<or> approval_scope state = Some []
      then ''No uri policy scope selected for '' @ json_string evaluatedPath @ ''.''
      else if approval_status state = None then ''No uri policy decision selected.''
      else if approval_lifetime state = None then ''No uri policy lifetime selected.''
      else ''No uri policy denial reason was completed.'')"

definition cancelledApproval :: "PolicyApproval \<Rightarrow> string \<Rightarrow> PolicyApproval" where
  "cancelledApproval state evaluatedPath = \<lparr>
     approval_scope = Some (case approval_scope state of Some s \<Rightarrow> s | None \<Rightarrow> evaluatedPath),
     approval_status = Some DENIED, approval_lifetime = Some ONCE,
     approval_reason = Some (''Access denied: '' @ flowCancelReason state evaluatedPath)\<rparr>"

definition approvalFromResult :: "PolicyResult \<Rightarrow> PolicyApproval" where
  "approvalFromResult r = \<lparr>approval_scope = Some (matchedPattern r), approval_status = Some (matchedStatus r),
     approval_lifetime = Some (matchedLifetime r), approval_reason = Some (matchedReason r)\<rparr>"

definition resolveShortcut :: "UiFlowShortcut \<Rightarrow> string \<Rightarrow> PolicyAccessType \<Rightarrow> PolicyApproval" where
  "resolveShortcut s evaluatedPath at = (let st = (if s = ALLOW_ALL_ONCE then ALLOWED else DENIED) in
     \<lparr>approval_scope = Some evaluatedPath, approval_status = Some st, approval_lifetime = Some ONCE,
      approval_reason = Some (defaultReason st at)\<rparr>)"

text \<open>The choice of an approval; a field that was never answered is \<open>undefined\<close> in the code, and no flow
  ends with one.\<close>

definition policyChoice :: "PolicyApproval \<Rightarrow> PolicyAccessType \<Rightarrow> PolicyChoice option" where
  "policyChoice a at = (case (approval_scope a, approval_status a, approval_lifetime a) of
       (Some scope, Some st, Some l) \<Rightarrow> Some \<lparr>choice_uri = scope, choice_accessType = at, choice_lifetime = l,
          choice_status = st, choice_reason = (case approval_reason a of
             Some r \<Rightarrow> if r = [] then defaultReason st at else r | None \<Rightarrow> defaultReason st at)\<rparr>
     | _ \<Rightarrow> None)"

definition flow_approval :: "PolicyApproval flow_end \<Rightarrow> string \<Rightarrow> PolicyAccessType \<Rightarrow> PolicyApproval option" where
  "flow_approval ending uri at = (case ending of
       Finished a \<Rightarrow> Some a
     | Cancelled a \<Rightarrow> Some (cancelledApproval a uri)
     | By_shortcut s \<Rightarrow> Some (resolveShortcut s uri at)
     | Undefined_decision \<Rightarrow> None)"

text \<open>\<open>resolveQueuedPolicy\<close>: a flow that is aborted before it starts is cancelled; a recheck that finds an
  answer skips the dialogue and the completion; otherwise the resolution is completed, once, with the choice.\<close>

datatype queued_end = Rechecked PolicyResult | Completed_with "PolicyChoice option"

definition resolveQueuedPolicy ::
    "fs_env \<Rightarrow> string \<Rightarrow> PolicyAccessType \<Rightarrow> bool \<Rightarrow> bool \<Rightarrow> bool \<Rightarrow> PolicyResult option \<Rightarrow> ui_reply list \<Rightarrow> queued_end" where
  "resolveQueuedPolicy env inputUri at hasUi hasInput aborted recheck replies = (let
     uri = resolveUri env at inputUri;
     scopes = policyScopeHierarchy env uri at MAX_SAFE_INTEGER;
     decisions = policyDecisions at scopes;
     completed = (\<lambda>ending. Completed_with (Option.bind (flow_approval ending uri at) (\<lambda>a. policyChoice a at)));
     resolvedBeforePrompt = (if aborted then None else recheck);
     ending = runQueuedFlow aborted (map_option approvalFromResult resolvedBeforePrompt)
       (runActiveFlow hasUi hasInput assign_approval (\<lambda>k. Some (decisions k)) replies (decisions Scope_key) empty_approval)
       empty_approval
     in (case resolvedBeforePrompt of Some r \<Rightarrow> Rechecked r | None \<Rightarrow> completed ending))"

section \<open>What a dialogue can end with\<close>

abbreviation questions ::
    "bool \<Rightarrow> PolicyAccessType \<Rightarrow> string list \<Rightarrow> ui_reply list \<Rightarrow> approval_key \<Rightarrow> PolicyApproval \<Rightarrow> PolicyApproval flow_end" where
  "questions hasInput at scopes replies k a \<equiv>
     run_questions hasInput assign_approval (\<lambda>k. Some (policyDecisions at scopes k)) replies (policyDecisions at scopes k) a"

lemma scope_lookup:
  "map_of (rev (map (\<lambda>opt. (option_title opt, opt)) (map (\<lambda>scope. \<lparr>option_title = scope, option_value = V_scope scope,
      option_next = next\<rparr>) scopes))) c =
    (if c \<in> set scopes then Some \<lparr>option_title = c, option_value = V_scope c, option_next = next\<rparr> else None)"
proof -
  let ?mk = "\<lambda>scope. \<lparr>option_title = scope, option_value = V_scope scope, option_next = next\<rparr>"
  have "map (\<lambda>opt. (option_title opt, opt)) (map ?mk scopes) = map (\<lambda>s. (s, ?mk s)) scopes" by simp
  then have "rev (map (\<lambda>opt. (option_title opt, opt)) (map ?mk scopes)) = map (\<lambda>s. (s, ?mk s)) (rev scopes)"
    by (simp only: rev_map)
  then show ?thesis by (simp only: map_of_map_restrict) (simp add: restrict_map_def)
qed

lemma lifetime_lookup:
  "map_of (rev (map (\<lambda>opt. (option_title opt, opt)) (lifeTimeOptions at))) c = Some opt \<Longrightarrow>
     \<exists>l. opt = lifetime_option c l \<and> (isFilesystemAccess at \<longrightarrow> l \<noteq> GLOBAL)"
  by (auto simp: lifeTimeOptions_def lifetime_option_def isFilesystemAccess_def split: if_splits)

text \<open>How a flow can end: cancelled, by a shortcut after some answers, or with an answer to every
  question, where an allowed access needs the scope, the option Allow and a lifetime.\<close>

definition good_lifetime :: "PolicyAccessType \<Rightarrow> PolicyLifetime \<Rightarrow> bool" where
  "good_lifetime at l \<longleftrightarrow> (isFilesystemAccess at \<longrightarrow> l \<noteq> GLOBAL)"

lemma reason_stage:
  "questions hasInput at scopes replies Reason_key a = Cancelled a
   \<or> (\<exists>v rest. replies = Typed v # rest \<and> questions hasInput at scopes replies Reason_key a = Finished (a\<lparr>approval_reason := Some v\<rparr>))"
  by (cases replies; cases "hd replies") (auto simp: resolveInputDecision_def)

lemma lifetime_stage:
  assumes "questions hasInput at scopes replies Lifetime_key a = e"
  shows "(\<exists>a'. e = Cancelled a' \<and> approval_scope a' = approval_scope a)
    \<or> (\<exists>s rest. replies = Shortcut s # rest \<and> e = By_shortcut s)
    \<or> (\<exists>title rest l a'. replies = Chosen title # rest \<and> good_lifetime at l \<and> e = Finished a'
         \<and> approval_scope a' = approval_scope a \<and> approval_status a' = approval_status a \<and> approval_lifetime a' = Some l)"
proof (cases "\<exists>title rest opt. replies = Chosen title # rest \<and> title \<noteq> []
    \<and> map_of (rev (map (\<lambda>opt. (option_title opt, opt)) (lifeTimeOptions at))) title = Some opt")
  case True
  then obtain title rest opt where c: "replies = Chosen title # rest" "title \<noteq> []"
    and opt: "map_of (rev (map (\<lambda>opt. (option_title opt, opt)) (lifeTimeOptions at))) title = Some opt" by blast
  obtain l where l: "opt = lifetime_option title l" "good_lifetime at l"
    using lifetime_lookup [OF opt] unfolding good_lifetime_def by blast
  let ?a = "a\<lparr>approval_lifetime := Some l\<rparr>"
  have e: "e = (if approval_status a = Some DENIED then questions hasInput at scopes rest Reason_key ?a else Finished ?a)"
    using assms c opt l
    by (auto simp: resolveSelectDecision_def lifetime_option_def Let_def reasonDecisionAfterDenial_def split: if_splits)
  show ?thesis
  proof (cases "e = Finished ?a")
    case True
    then show ?thesis using c l by auto
  next
    case False
    then have "e = questions hasInput at scopes rest Reason_key ?a" using e by (simp split: if_splits)
    with reason_stage [of hasInput at scopes rest ?a] obtain v where "e = Cancelled ?a \<or> e = Finished (?a\<lparr>approval_reason := Some v\<rparr>)"
      by metis
    then show ?thesis using c l by auto
  qed
next
  case False
  then show ?thesis using assms
    by (cases replies; cases "hd replies") (auto simp: resolveSelectDecision_def split: if_splits)
qed

lemma status_stage:
  assumes "questions hasInput at scopes replies Status_key a = e"
  shows "(\<exists>a'. e = Cancelled a' \<and> approval_scope a' = approval_scope a)
    \<or> (\<exists>pre s rest. replies = pre @ Shortcut s # rest \<and> e = By_shortcut s)
    \<or> (\<exists>c title rest st l a'. replies = Chosen c # Chosen title # rest \<and> good_lifetime at l
         \<and> (st = ALLOWED \<longrightarrow> c = ''Allow'') \<and> e = Finished a'
         \<and> approval_scope a' = approval_scope a \<and> approval_status a' = Some st \<and> approval_lifetime a' = Some l)"
proof (cases "\<exists>c rest st. replies = Chosen c # rest \<and> (c = ''Allow'' \<and> st = ALLOWED \<or> c = ''Deny'' \<and> st = DENIED)")
  case True
  then obtain c rest st where c: "replies = Chosen c # rest" "st = ALLOWED \<longrightarrow> c = ''Allow''"
    "c = ''Allow'' \<and> st = ALLOWED \<or> c = ''Deny'' \<and> st = DENIED" by auto
  let ?a = "a\<lparr>approval_status := Some st\<rparr>"
  have e: "questions hasInput at scopes rest Lifetime_key ?a = e"
    using assms c(1,3) by (elim disjE) (simp_all add: resolveSelectDecision_def Let_def)
  from lifetime_stage [OF e] consider a' where "e = Cancelled a'" "approval_scope a' = approval_scope a"
    | s rest' where "rest = Shortcut s # rest'" "e = By_shortcut s"
    | title rest' l a' where "rest = Chosen title # rest'" "good_lifetime at l" "e = Finished a'"
        "approval_scope a' = approval_scope a" "approval_status a' = Some st" "approval_lifetime a' = Some l"
    by auto
  then show ?thesis
  proof cases
    case 2
    then have "replies = [Chosen c] @ Shortcut s # rest'" using c(1) by simp
    with 2 show ?thesis by blast
  next
    case 3
    with c(1,2) show ?thesis by blast
  qed blast
next
  case False
  show ?thesis
  proof (cases "\<exists>s rest. replies = Shortcut s # rest")
    case True
    then obtain s rest where "replies = [] @ Shortcut s # rest" "e = By_shortcut s"
      using assms by (auto simp: resolveSelectDecision_def)
    then show ?thesis by blast
  next
    case other: False
    then show ?thesis using assms False
      by (cases replies; cases "hd replies") (auto simp: resolveSelectDecision_def split: if_splits)
  qed
qed

lemma scope_stage:
  assumes "questions hasInput at scopes replies Scope_key empty_approval = e"
  shows "(\<exists>a. e = Cancelled a \<and> (case approval_scope a of None \<Rightarrow> True | Some s \<Rightarrow> s \<in> set scopes))
    \<or> (\<exists>pre s rest. replies = pre @ Shortcut s # rest \<and> e = By_shortcut s)
    \<or> (\<exists>scope c title rest st l a. replies = Chosen scope # Chosen c # Chosen title # rest \<and> scope \<in> set scopes
         \<and> good_lifetime at l \<and> (st = ALLOWED \<longrightarrow> c = ''Allow'') \<and> e = Finished a
         \<and> approval_scope a = Some scope \<and> approval_status a = Some st \<and> approval_lifetime a = Some l)"
proof (cases "\<exists>scope rest. replies = Chosen scope # rest \<and> scope \<noteq> [] \<and> scope \<in> set scopes")
  case True
  then obtain scope rest where c: "replies = Chosen scope # rest" "scope \<noteq> []" "scope \<in> set scopes" by auto
  have e: "questions hasInput at scopes rest Status_key (empty_approval\<lparr>approval_scope := Some scope\<rparr>) = e"
    using assms c by (simp add: resolveSelectDecision_def Let_def scope_lookup del: map_map)
  from status_stage [OF e] consider a' where "e = Cancelled a'" "approval_scope a' = Some scope"
    | pre s rest' where "rest = pre @ Shortcut s # rest'" "e = By_shortcut s"
    | d title rest' st l a' where "rest = Chosen d # Chosen title # rest'" "good_lifetime at l" "st = ALLOWED \<longrightarrow> d = ''Allow''"
        "e = Finished a'" "approval_scope a' = Some scope" "approval_status a' = Some st" "approval_lifetime a' = Some l"
    by (simp, blast)
  then show ?thesis
  proof cases
    case 1
    then show ?thesis using c(3) by auto
  next
    case 2
    then have "replies = (Chosen scope # pre) @ Shortcut s # rest'" using c(1) by simp
    with 2 show ?thesis by blast
  next
    case 3
    with c(1,3) show ?thesis by blast
  qed
next
  case False
  show ?thesis
  proof (cases "\<exists>s rest. replies = Shortcut s # rest")
    case True
    then obtain s rest where "replies = [] @ Shortcut s # rest" "e = By_shortcut s"
      using assms by (auto simp: resolveSelectDecision_def)
    then show ?thesis by blast
  next
    case other: False
    then have "e = Cancelled empty_approval" using assms False
      by (cases replies; cases "hd replies")
        (auto simp: resolveSelectDecision_def scope_lookup simp del: map_map split: if_splits)
    then show ?thesis by (simp add: empty_approval_def)
  qed
qed

lemma fs_hierarchy_nonempty:
  assumes "fs_wf env" "isFilesystemAccess at"
  shows "policyScopeHierarchy env uri at MAX_SAFE_INTEGER \<noteq> []"
proof -
  obtain segs where "good_segments segs" "resolveUri env at uri = abs_path segs"
    using resolveUri_fs_form [OF assms] by blast
  then show ?thesis using assms(2) fs_scope_loop_spec [of segs "[]" MAX_SAFE_INTEGER]
    by (simp add: policyScopeHierarchy_def Let_def MAX_SAFE_INTEGER_def)
qed

lemma offered_scopes_cover:
  fixes env at inputUri
  defines "uri \<equiv> resolveUri env at inputUri"
  assumes "fs_wf env" "isFilesystemAccess at"
  shows "\<forall>scope \<in> insert uri (set (policyScopeHierarchy env uri at MAX_SAFE_INTEGER)). policyScopeCovers env at scope uri"
proof -
  have again: "resolveUri env at uri = uri"
    using assms by (auto simp: isFilesystemAccess_def resolveUri_def resolvePhysicalPath_idem)
  have two: "2 \<le> MAX_SAFE_INTEGER" by (simp add: MAX_SAFE_INTEGER_def)
  note facts = fs_hierarchy_facts [OF assms(2,3) two, of uri, unfolded again]
  have "policyScopeHierarchy env uri at MAX_SAFE_INTEGER \<noteq> []"
    using facts fs_hierarchy_nonempty [OF assms(2,3), of uri] by simp
  then have "uri \<in> set (policyScopeHierarchy env uri at MAX_SAFE_INTEGER)" using facts hd_in_set by metis
  with facts show ?thesis by blast
qed

text \<open>C23: the dialogue always completes with a choice for the requested access (or the recheck answers);
  the choice is for one of the offered scopes or the target itself, which for a file covers the target;
  file rules are never synchronized; and an access is allowed only if the user pressed the allow shortcut,
  or picked that scope, the option Allow and a lifetime: dismissing, aborting or a missing user
  interface deny.\<close>

theorem prompt_allows_only_explicitly:
  fixes env inputUri at
  defines "uri \<equiv> resolveUri env at inputUri"
  defines "scopes \<equiv> policyScopeHierarchy env uri at MAX_SAFE_INTEGER"
  assumes "aborted \<or> recheck = None"
  shows "\<exists>choice. resolveQueuedPolicy env inputUri at hasUi hasInput aborted recheck replies = Completed_with (Some choice)
    \<and> choice_accessType choice = at
    \<and> choice_uri choice \<in> insert uri (set scopes)
    \<and> (isFilesystemAccess at \<longrightarrow> choice_lifetime choice \<noteq> GLOBAL)
    \<and> (fs_wf env \<and> isFilesystemAccess at \<longrightarrow> policyScopeCovers env at (choice_uri choice) uri)
    \<and> (choice_status choice = ALLOWED \<longrightarrow> \<not> aborted \<and> hasUi
         \<and> ((\<exists>pre rest. replies = pre @ Shortcut ALLOW_ALL_ONCE # rest)
           \<or> (\<exists>title rest. replies = Chosen (choice_uri choice) # Chosen ''Allow'' # Chosen title # rest)))"
proof -
  define e where "e = (if aborted then Cancelled empty_approval
     else runActiveFlow hasUi hasInput assign_approval (\<lambda>k. Some (policyDecisions at scopes k)) replies
       (policyDecisions at scopes Scope_key) empty_approval)"
  have covers: "policyScopeCovers env at scope uri"
    if "fs_wf env" "isFilesystemAccess at" "scope \<in> insert uri (set scopes)" for scope
    using offered_scopes_cover [OF that(1,2)] that(3) unfolding uri_def scopes_def by blast
  have res: "resolveQueuedPolicy env inputUri at hasUi hasInput aborted recheck replies =
      Completed_with (Option.bind (flow_approval e uri at) (\<lambda>a. policyChoice a at))"
    using assms(3) by (auto simp: resolveQueuedPolicy_def runQueuedFlow_def Let_def e_def uri_def scopes_def)
  have "(\<exists>a. e = Cancelled a \<and> (case approval_scope a of None \<Rightarrow> True | Some s \<Rightarrow> s \<in> set scopes))
    \<or> \<not> aborted \<and> hasUi \<and> e = questions hasInput at scopes replies Scope_key empty_approval"
    by (auto simp: e_def runActiveFlow_def empty_approval_def)
  then consider a where "e = Cancelled a" "case approval_scope a of None \<Rightarrow> True | Some s \<Rightarrow> s \<in> set scopes"
    | pre s rest where "\<not> aborted" "hasUi" "replies = pre @ Shortcut s # rest" "e = By_shortcut s"
    | scope c title rest st l a where "\<not> aborted" "hasUi" "replies = Chosen scope # Chosen c # Chosen title # rest"
        "scope \<in> set scopes" "good_lifetime at l" "st = ALLOWED \<longrightarrow> c = ''Allow''" "e = Finished a"
        "approval_scope a = Some scope" "approval_status a = Some st" "approval_lifetime a = Some l"
    using scope_stage [of hasInput at scopes replies e] by (elim disjE exE conjE) metis+
  then show ?thesis
  proof cases
    case 1
    then show ?thesis unfolding res using covers
      by (auto simp: flow_approval_def cancelledApproval_def policyChoice_def split: option.splits)
  next
    case 2
    then show ?thesis unfolding res using covers
      by (cases s) (auto simp: flow_approval_def resolveShortcut_def policyChoice_def)
  next
    case 3
    then show ?thesis unfolding res using covers
      by (auto simp: flow_approval_def policyChoice_def good_lifetime_def)
  qed
qed

theorem prompt_allows_only_explicitly_witness:
  "\<exists>choice. resolveQueuedPolicy link_env ''/l/x'' FS_READ True True False None
       [Chosen ''/d'', Chosen ''Allow'', Chosen ''This session''] = Completed_with (Some choice)
     \<and> choice_uri choice \<in> insert (resolveUri link_env FS_READ ''/l/x'')
          (set (policyScopeHierarchy link_env (resolveUri link_env FS_READ ''/l/x'') FS_READ MAX_SAFE_INTEGER))"
  using prompt_allows_only_explicitly [of False None link_env "''/l/x''" FS_READ True True
      "[Chosen ''/d'', Chosen ''Allow'', Chosen ''This session'']"] by blast

end
