(* ===== verification/Subagent_Job.thy ===== *)
theory Subagent_Job
  imports Policy_Runtime
begin

text \<open>
  Subagent jobs: \<open>src/src/subagents/AgentCapability.ts\<close>, the types of \<open>src/src/subagents/types.ts\<close> and the data,
  request validation and text helpers of \<open>src/src/subagents/SubagentCoordinator.ts\<close>.  Numbers of seconds and
  milliseconds are integers.
\<close>

section \<open>Capabilities\<close>

datatype AgentMechanismCapability = mcp | delegate

datatype AgentCapability = Area PolicyArea | Mechanism AgentMechanismCapability

fun areaValue :: "PolicyArea \<Rightarrow> string" where
  "areaValue fs_read = ''fs_read''"
| "areaValue fs_write = ''fs_write''"
| "areaValue web_read = ''web_read''"
| "areaValue web_write = ''web_write''"
| "areaValue web_tcp = ''web_tcp''"
| "areaValue web_dns = ''web_dns''"
| "areaValue web_udp = ''web_udp''"
| "areaValue web_ssh = ''web_ssh''"
| "areaValue web_websocket = ''web_websocket''"
| "areaValue web_grpc = ''web_grpc''"
| "areaValue web_smtp = ''web_smtp''"

fun mechanismValue :: "AgentMechanismCapability \<Rightarrow> string" where
  "mechanismValue mcp = ''mcp''"
| "mechanismValue delegate = ''delegate''"

fun capabilityValue :: "AgentCapability \<Rightarrow> string" where
  "capabilityValue (Area a) = areaValue a"
| "capabilityValue (Mechanism m) = mechanismValue m"

definition AGENT_CAPABILITIES :: "AgentCapability list" where
  "AGENT_CAPABILITIES = map Area POLICY_AREAS @ map Mechanism [mcp, delegate]"

text \<open>\<open>[...new Set (xs)]\<close>: the first occurrence of each element.\<close>

definition js_unique :: "'a list \<Rightarrow> 'a list" where
  "js_unique xs = rev (remdups (rev xs))"

definition capability_of :: "string \<Rightarrow> AgentCapability option" where
  "capability_of s = find (\<lambda>c. capabilityValue c = s) AGENT_CAPABILITIES"

fun known_capabilities :: "string list \<Rightarrow> AgentCapability list res" where
  "known_capabilities [] = Inr []"
| "known_capabilities (s # ss) = (case capability_of s of
      None \<Rightarrow> Inl (''Unknown agent capability: '' @ s)
    | Some c \<Rightarrow> res_bind (known_capabilities ss) (\<lambda>cs. Inr (c # cs)))"

definition new_AgentCapabilitySet :: "string list \<Rightarrow> AgentCapability list res" where
  "new_AgentCapabilitySet capabilities = known_capabilities (js_unique capabilities)"

fun isPolicyArea :: "AgentCapability \<Rightarrow> bool" where
  "isPolicyArea (Area a) = True"
| "isPolicyArea (Mechanism m) = False"

fun isMechanismCapability :: "AgentCapability \<Rightarrow> bool" where
  "isMechanismCapability (Area a) = False"
| "isMechanismCapability (Mechanism m) = True"

definition policyAreas :: "AgentCapability list \<Rightarrow> PolicyArea list" where
  "policyAreas cs = concat (map (\<lambda>c. case c of Area a \<Rightarrow> [a] | Mechanism m \<Rightarrow> []) cs)"

definition mechanisms :: "AgentCapability list \<Rightarrow> AgentMechanismCapability list" where
  "mechanisms cs = concat (map (\<lambda>c. case c of Mechanism m \<Rightarrow> [m] | Area a \<Rightarrow> []) cs)"

definition hasMechanism :: "AgentCapability list \<Rightarrow> AgentMechanismCapability \<Rightarrow> bool" where
  "hasMechanism cs m \<longleftrightarrow> Mechanism m \<in> set cs"

section \<open>Requests\<close>

record SubagentRequest =
  req_parentAgentIdentifier :: string
  req_task :: string
  req_role :: string
  req_capabilities :: "string list"
  req_cwd :: string
  req_timeoutSeconds :: int
  req_reasoningSkill :: string
  req_reasoningAmount :: string
  req_modelPreference :: string
  req_systemPrompt :: "string option"
  req_contextPaths :: "string list option"

definition SubagentReasoningSkill :: "string list" where
  "SubagentReasoningSkill = [''min'', ''low'', ''mid'', ''high'', ''max'']"

definition SubagentReasoningAmount :: "string list" where
  "SubagentReasoningAmount = [''low'', ''mid'', ''high'']"

definition requiredText :: "string \<Rightarrow> string \<Rightarrow> nat \<Rightarrow> string res" where
  "requiredText value name maxLength =
     (if js_trim value = [] then Inl (''Subagent '' @ name @ '' is required'')
      else if maxLength < length value then Inl (''Subagent '' @ name @ '' exceeds '' @ show_nat maxLength @ '' characters'')
      else Inr value)"

definition optionalText :: "string option \<Rightarrow> string \<Rightarrow> nat \<Rightarrow> string option res" where
  "optionalText value name maxLength = (case value of
       None \<Rightarrow> Inr None
     | Some v \<Rightarrow> res_bind (requiredText v name maxLength) (\<lambda>t. Inr (Some t)))"

definition modelPreference :: "string \<Rightarrow> string res" where
  "modelPreference value = res_bind (requiredText value ''model preference'' 500) (\<lambda>p.
     if p \<noteq> ''auto'' \<and> CHR ''/'' \<notin> set p
     then Inl ''Subagent model preference must be auto or a canonical provider/model'' else Inr p)"

definition enumValue :: "string \<Rightarrow> string list \<Rightarrow> string \<Rightarrow> string res" where
  "enumValue value values name = (if value \<in> set values then Inr value
     else Inl (''Unsupported subagent '' @ name @ '': '' @ value))"

definition boundedNumber :: "int \<Rightarrow> string \<Rightarrow> int \<Rightarrow> int \<Rightarrow> int res" where
  "boundedNumber value name minimum maximum = (if value < minimum \<or> maximum < value
     then Inl (''Subagent '' @ name @ '' must be between '' @ show_nat (nat minimum) @ '' and '' @ show_nat (nat maximum))
     else Inr value)"

fun map_res :: "('a \<Rightarrow> 'b res) \<Rightarrow> 'a list \<Rightarrow> 'b list res" where
  "map_res f [] = Inr []"
| "map_res f (x # xs) = res_bind (f x) (\<lambda>y. res_bind (map_res f xs) (\<lambda>ys. Inr (y # ys)))"

definition validateRequest :: "SubagentRequest \<Rightarrow> SubagentRequest res" where
  "validateRequest request =
     res_bind (new_AgentCapabilitySet (req_capabilities request)) (\<lambda>capabilities.
     res_bind (requiredText (req_parentAgentIdentifier request) ''parent agent identifier'' 500) (\<lambda>parent.
     res_bind (requiredText (req_task request) ''task'' 100000) (\<lambda>tk.
     res_bind (requiredText (req_role request) ''role'' 120) (\<lambda>rl.
     res_bind (requiredText (req_cwd request) ''cwd'' 10000) (\<lambda>cwd.
     res_bind (boundedNumber (req_timeoutSeconds request) ''timeoutSeconds'' 1 3600) (\<lambda>timeout.
     res_bind (enumValue (req_reasoningSkill request) SubagentReasoningSkill ''reasoning skill'') (\<lambda>skill.
     res_bind (enumValue (req_reasoningAmount request) SubagentReasoningAmount ''reasoning amount'') (\<lambda>amount.
     res_bind (modelPreference (req_modelPreference request)) (\<lambda>model.
     res_bind (optionalText (req_systemPrompt request) ''systemPrompt'' 100000) (\<lambda>prompt.
     res_bind (case req_contextPaths request of None \<Rightarrow> Inr None
         | Some ps \<Rightarrow> res_bind (map_res (\<lambda>p. requiredText p ''context path'' 10000) ps) (\<lambda>qs. Inr (Some qs))) (\<lambda>paths.
       Inr \<lparr>req_parentAgentIdentifier = parent, req_task = tk, req_role = rl,
            req_capabilities = map capabilityValue capabilities, req_cwd = cwd, req_timeoutSeconds = timeout,
            req_reasoningSkill = skill, req_reasoningAmount = amount, req_modelPreference = model,
            req_systemPrompt = prompt, req_contextPaths = paths\<rparr>)))))))))))"

section \<open>Jobs\<close>

datatype SubagentJobStatus = QUEUED | RUNNING | IDLE | FAILED | CANCELLED | TIMED_OUT

fun statusValue :: "SubagentJobStatus \<Rightarrow> string" where
  "statusValue QUEUED = ''queued''"
| "statusValue RUNNING = ''running''"
| "statusValue IDLE = ''idle''"
| "statusValue FAILED = ''failed''"
| "statusValue CANCELLED = ''cancelled''"
| "statusValue TIMED_OUT = ''timed_out''"

text \<open>The session, the abort promise and the approval wait scope of a job are present or not; the
  controller is present with its aborted flag; the run promise is the number of its turn.\<close>

record SubagentJob =
  job_id :: string
  job_agentIdentifier :: string
  job_parentId :: "string option"
  job_depth :: nat
  job_request :: SubagentRequest
  job_capabilities :: "AgentCapability list"
  job_status :: SubagentJobStatus
  job_createdAt :: int
  job_startedAt :: "int option"
  job_finishedAt :: "int option"
  job_latestLine :: "string option"
  job_output :: "string option"
  job_error :: "string option"
  job_turns :: nat
  job_queuedTasks :: "string list"
  job_pendingSteering :: "string list"
  job_session :: bool
  job_resolvedModel :: "string option"
  job_resolvedThinkingLevel :: "string option"
  job_modelSelectionSource :: "string option"
  job_controller :: "bool option"
  job_approvalWaitScope :: bool
  job_runPromise :: "nat option"
  job_abortPromise :: bool
  job_stopRequested :: bool
  job_timedOut :: bool
  job_principalReleased :: bool

record SubagentJobSnapshot =
  snap_id :: string
  snap_parentId :: "string option"
  snap_depth :: nat
  snap_createdAt :: int
  snap_status :: SubagentJobStatus
  snap_role :: string
  snap_task :: string
  snap_capabilities :: "AgentCapability list"
  snap_cwd :: string
  snap_reasoningSkill :: string
  snap_reasoningAmount :: string
  snap_resolvedModel :: "string option"
  snap_resolvedThinkingLevel :: "string option"
  snap_modelSelectionSource :: "string option"
  snap_startedAt :: "int option"
  snap_finishedAt :: "int option"
  snap_latestLine :: "string option"
  snap_output :: "string option"
  snap_error :: "string option"
  snap_turns :: nat

definition snapshot :: "SubagentJob \<Rightarrow> SubagentJobSnapshot" where
  "snapshot job = \<lparr>snap_id = job_id job, snap_parentId = job_parentId job, snap_depth = job_depth job,
     snap_createdAt = job_createdAt job, snap_status = job_status job, snap_role = req_role (job_request job),
     snap_task = req_task (job_request job), snap_capabilities = job_capabilities job,
     snap_cwd = req_cwd (job_request job), snap_reasoningSkill = req_reasoningSkill (job_request job),
     snap_reasoningAmount = req_reasoningAmount (job_request job), snap_resolvedModel = job_resolvedModel job,
     snap_resolvedThinkingLevel = job_resolvedThinkingLevel job, snap_modelSelectionSource = job_modelSelectionSource job,
     snap_startedAt = job_startedAt job, snap_finishedAt = job_finishedAt job, snap_latestLine = job_latestLine job,
     snap_output = job_output job, snap_error = job_error job, snap_turns = job_turns job\<rparr>"

datatype SubagentJobChange = Upsert SubagentJobSnapshot | Remove string

definition isActive :: "SubagentJobStatus \<Rightarrow> bool" where
  "isActive st \<longleftrightarrow> st = QUEUED \<or> st = RUNNING"

definition isTerminal :: "SubagentJobStatus \<Rightarrow> bool" where
  "isTerminal st \<longleftrightarrow> st = FAILED \<or> st = CANCELLED \<or> st = TIMED_OUT"

section \<open>Texts\<close>

definition MAX_JOB_OUTPUT_CHARS :: nat where "MAX_JOB_OUTPUT_CHARS = 50000"

definition boundedOutput :: "string \<Rightarrow> string" where
  "boundedOutput text = (if length text \<le> MAX_JOB_OUTPUT_CHARS then text
     else let half = (MAX_JOB_OUTPUT_CHARS - 40) div 2 in
       take half text @ newline @ ''[Subagent output truncated]'' @ newline @ drop (length text - half) text)"

text \<open>Splitting at \<open>\r?\n\<close> and trimming is splitting at the line feed and trimming.\<close>

definition lastMeaningfulLine :: "string \<Rightarrow> string" where
  "lastMeaningfulLine text = (let
     lines = filter (\<lambda>l. l \<noteq> []) (map js_trim (split_on (CHR 0x0A) text));
     line = (if lines = [] then ''Completed'' else last lines)
     in if length line \<le> 300 then line else take 299 line @ [ellipsis])"

definition lifecycleFailure :: "SubagentJob \<Rightarrow> string \<Rightarrow> string \<Rightarrow> string" where
  "lifecycleFailure job phase e = ''Subagent job '' @ job_id job @ '' (session '' @ job_agentIdentifier job @ '') '' @ phase @ '' failed: '' @ e"

definition abort_message :: string where "abort_message = ''Subagent operation was aborted''"

text \<open>\<open>String.prototype.includes\<close>.\<close>

definition js_includes :: "string \<Rightarrow> string \<Rightarrow> bool" where
  "js_includes text part \<longleftrightarrow> sublist part text"

definition appendJobError :: "string \<Rightarrow> SubagentJob \<Rightarrow> SubagentJob" where
  "appendJobError message job = (let
     known = (case job_error job of None \<Rightarrow> False | Some e \<Rightarrow> js_includes e message);
     e' = (if known then job_error job else Some (case job_error job of
        Some e \<Rightarrow> if e = [] then message else e @ ''; '' @ message | None \<Rightarrow> message))
     in job\<lparr>job_error := e', job_latestLine := Some message\<rparr>)"

section \<open>Bounds\<close>

lemma boundedOutput_length: "length (boundedOutput text) \<le> MAX_JOB_OUTPUT_CHARS"
  by (simp add: boundedOutput_def MAX_JOB_OUTPUT_CHARS_def Let_def newline_def)

lemma requiredText_Inr: "requiredText v name n = Inr t \<Longrightarrow> t = v \<and> js_trim v \<noteq> [] \<and> length v \<le> n"
  by (auto simp: requiredText_def split: if_splits)

lemma res_bind_Inr: "res_bind x f = Inr y \<longleftrightarrow> (\<exists>a. x = Inr a \<and> f a = Inr y)"
  by (cases x) auto

lemma mechanisms_iff: "m \<in> set (mechanisms cs) \<longleftrightarrow> Mechanism m \<in> set cs"
  by (induction cs) (auto simp: mechanisms_def split: AgentCapability.splits)

end
