(* ===== verification/Subagent_Coordinator.thy ===== *)
theory Subagent_Coordinator
  imports Subagent_Job
begin

text \<open>
  The coordinator of subagent jobs: \<open>src/src/subagents/SubagentCoordinator.ts\<close>.  Its dependencies are arguments:
  the registry of policy principals is a record of operations on a registry state; what a child session
  does arrives as events (a session was created, it reported progress, it accepted steering, its turn ended,
  it could not be disposed of).  A turn is split at its awaits: \<open>begin_turn\<close>, the events, \<open>turn_finish\<close> with the
  rest of \<open>executeTurn\<close>, and \<open>turn_settle\<close>, the \<open>finally\<close> of \<open>pump\<close>.  A message to a running session is split at its
  \<open>steer\<close>.  Waiting for a status is left out.  Listeners are observers and only logged.
\<close>

section \<open>State\<close>

text \<open>The part of the policy runtime that the coordinator uses; the update changes the task only.\<close>

record 'p PolicyPrincipalRegistry =
  reg_register :: "string \<Rightarrow> string \<Rightarrow> PolicyArea list \<Rightarrow> PolicyPrincipalContext \<Rightarrow> 'p \<Rightarrow> 'p res"
  reg_updateTask :: "string \<Rightarrow> string \<Rightarrow> 'p \<Rightarrow> 'p res"
  reg_remove :: "string \<Rightarrow> 'p \<Rightarrow> 'p res"
  reg_setWaitScope :: "string \<Rightarrow> nat option \<Rightarrow> 'p \<Rightarrow> 'p res"

record DelegationContext =
  ctx_jobId :: string
  ctx_agentIdentifier :: string
  ctx_depth :: nat
  ctx_mechanisms :: "AgentMechanismCapability list"

text \<open>\<open>settling\<close> are the turns that have ended but whose slot is not yet given back.\<close>

record 'p SubagentCoordinator =
  jobs :: "(string \<times> SubagentJob) list"
  queue :: "string list"
  listening :: bool
  published :: "SubagentJobChange list"
  maxConcurrency :: nat
  maxDepth :: nat
  maxJobs :: nat
  activeCount :: nat
  coord_closed :: bool
  next_turn :: nat
  settling :: "(string \<times> nat) list"
  registry :: 'p

definition positiveInteger :: "int option \<Rightarrow> nat \<Rightarrow> nat" where
  "positiveInteger value fallback = (case value of None \<Rightarrow> fallback | Some v \<Rightarrow> nat (max 1 v))"

definition nonNegativeInteger :: "int option \<Rightarrow> nat \<Rightarrow> nat" where
  "nonNegativeInteger value fallback = (case value of None \<Rightarrow> fallback | Some v \<Rightarrow> nat (max 0 v))"

definition DEFAULT_MAX_CONCURRENCY :: nat where "DEFAULT_MAX_CONCURRENCY = 1000"
definition DEFAULT_MAX_DEPTH :: nat where "DEFAULT_MAX_DEPTH = 100"
definition DEFAULT_MAX_JOBS :: nat where "DEFAULT_MAX_JOBS = 100000"

definition new_SubagentCoordinator :: "int option \<Rightarrow> int option \<Rightarrow> int option \<Rightarrow> 'p \<Rightarrow> 'p SubagentCoordinator" where
  "new_SubagentCoordinator concurrency depth limit p = \<lparr>jobs = [], queue = [], listening = True, published = [],
     maxConcurrency = positiveInteger concurrency DEFAULT_MAX_CONCURRENCY,
     maxDepth = nonNegativeInteger depth DEFAULT_MAX_DEPTH,
     maxJobs = positiveInteger limit DEFAULT_MAX_JOBS,
     activeCount = 0, coord_closed = False, next_turn = 0, settling = [], registry = p\<rparr>"

definition modify_job :: "string \<Rightarrow> (SubagentJob \<Rightarrow> SubagentJob) \<Rightarrow> 'p SubagentCoordinator \<Rightarrow> 'p SubagentCoordinator" where
  "modify_job i f c = (case map_of (jobs c) i of None \<Rightarrow> c | Some j \<Rightarrow> c\<lparr>jobs := od_set i (f j) (jobs c)\<rparr>)"

definition publish :: "SubagentJobChange \<Rightarrow> 'p SubagentCoordinator \<Rightarrow> 'p SubagentCoordinator" where
  "publish change c = (if listening c then c\<lparr>published := published c @ [change]\<rparr> else c)"

definition notify :: "string \<Rightarrow> 'p SubagentCoordinator \<Rightarrow> 'p SubagentCoordinator" where
  "notify i c = (case map_of (jobs c) i of None \<Rightarrow> c | Some j \<Rightarrow> publish (Upsert (snapshot j)) c)"

definition status_of :: "string \<Rightarrow> 'p SubagentCoordinator \<Rightarrow> SubagentJobStatus option" where
  "status_of i c = map_option job_status (map_of (jobs c) i)"

section \<open>Selecting jobs\<close>

text \<open>The walk to an ancestor; a parent lies one level higher, so the depth bounds its length.\<close>

fun descends :: "(string \<times> SubagentJob) list \<Rightarrow> nat \<Rightarrow> string option \<Rightarrow> string \<Rightarrow> bool" where
  "descends js n None ancestorId = False"
| "descends js 0 (Some p) ancestorId = (p = ancestorId)"
| "descends js (Suc n) (Some p) ancestorId = (p = ancestorId \<or>
     descends js n (case map_of js p of None \<Rightarrow> None | Some j \<Rightarrow> job_parentId j) ancestorId)"

definition isDescendant :: "SubagentJob \<Rightarrow> string \<Rightarrow> (string \<times> SubagentJob) list \<Rightarrow> bool" where
  "isDescendant job ancestorId js = descends js (job_depth job) (job_parentId job) ancestorId"

definition requireJob :: "string \<Rightarrow> 'p SubagentCoordinator \<Rightarrow> SubagentJob res" where
  "requireJob i c = (case map_of (jobs c) i of None \<Rightarrow> Inl (''Unknown subagent job: '' @ i) | Some j \<Rightarrow> Inr j)"

definition requireManageableJob :: "DelegationContext option \<Rightarrow> string \<Rightarrow> 'p SubagentCoordinator \<Rightarrow> SubagentJob res" where
  "requireManageableJob caller i c = res_bind (requireJob i c) (\<lambda>job. case caller of
       None \<Rightarrow> Inr job
     | Some ctx \<Rightarrow> if isDescendant job (ctx_jobId ctx) (jobs c) then Inr job
         else Inl (''Subagent job is outside the invoking agent's descendants: '' @ i))"

definition selectJobs :: "DelegationContext option \<Rightarrow> string list \<Rightarrow> 'p SubagentCoordinator \<Rightarrow> SubagentJob list res" where
  "selectJobs caller ids c = (if ids = [] then
       Inr (sort_key (\<lambda>j. - job_createdAt j) (filter (\<lambda>j. case caller of None \<Rightarrow> True
         | Some ctx \<Rightarrow> isDescendant j (ctx_jobId ctx) (jobs c)) (map snd (jobs c))))
     else map_res (\<lambda>i. requireManageableJob caller i c) (js_unique ids))"

definition list_jobs :: "DelegationContext option \<Rightarrow> string list \<Rightarrow> 'p SubagentCoordinator \<Rightarrow> SubagentJobSnapshot list res" where
  "list_jobs caller ids c = res_bind (selectJobs caller ids c) (\<lambda>js. Inr (map snapshot js))"

section \<open>Releasing principals and evicting jobs\<close>

definition has_retained_children :: "string \<Rightarrow> 'p SubagentCoordinator \<Rightarrow> bool" where
  "has_retained_children i c \<longleftrightarrow> (\<exists>j \<in> set (map snd (jobs c)). job_parentId j = Some i \<and> \<not> job_principalReleased j)"

text \<open>One pass over the candidates: the third component tells whether a principal was released.\<close>

fun release_pass :: "'p PolicyPrincipalRegistry \<Rightarrow> string list \<Rightarrow> string list \<Rightarrow> bool \<Rightarrow> 'p SubagentCoordinator
      \<Rightarrow> string list \<times> bool \<times> 'p SubagentCoordinator" where
  "release_pass reg [] attempted released c = (attempted, released, c)"
| "release_pass reg (i # is) attempted released c =
     (if has_retained_children i c then release_pass reg is attempted released c
      else (case reg_remove reg i (registry c) of
          Inr p \<Rightarrow> release_pass reg is (i # attempted) True
            (modify_job i (\<lambda>j. j\<lparr>job_principalReleased := True\<rparr>) (c\<lparr>registry := p\<rparr>))
        | Inl e \<Rightarrow> release_pass reg is (i # attempted) released
            (notify i (modify_job i (\<lambda>j. appendJobError (lifecycleFailure j ''policy-principal release'' e) j) c))))"

definition release_candidates :: "string list \<Rightarrow> 'p SubagentCoordinator \<Rightarrow> string list" where
  "release_candidates attempted c = map job_id (sort_key (\<lambda>j. - int (job_depth j))
     (filter (\<lambda>j. isTerminal (job_status j) \<and> \<not> job_principalReleased j \<and> job_id j \<notin> set attempted) (map snd (jobs c))))"

text \<open>The loop repeats while a pass released something; each repetition has attempted one more job, so the
  number of jobs bounds it.\<close>

fun release_loop :: "nat \<Rightarrow> 'p PolicyPrincipalRegistry \<Rightarrow> string list \<Rightarrow> 'p SubagentCoordinator \<Rightarrow> 'p SubagentCoordinator" where
  "release_loop 0 reg attempted c = c"
| "release_loop (Suc n) reg attempted c =
     (case release_pass reg (release_candidates attempted c) attempted False c of
        (attempted', released, c') \<Rightarrow> if released then release_loop n reg attempted' c' else c')"

definition releaseTerminalPrincipals :: "'p PolicyPrincipalRegistry \<Rightarrow> 'p SubagentCoordinator \<Rightarrow> 'p SubagentCoordinator" where
  "releaseTerminalPrincipals reg c = release_loop (Suc (length (jobs c))) reg [] c"

definition evictable :: "'p SubagentCoordinator \<Rightarrow> string list" where
  "evictable c = map job_id (sort_key (\<lambda>j. case job_finishedAt j of Some t \<Rightarrow> t | None \<Rightarrow> job_createdAt j)
     (filter (\<lambda>j. isTerminal (job_status j) \<and> job_principalReleased j
        \<and> \<not> (\<exists>k \<in> set (map snd (jobs c)). isDescendant k (job_id j) (jobs c))) (map snd (jobs c))))"

fun evict_loop :: "string list \<Rightarrow> 'p SubagentCoordinator \<Rightarrow> 'p SubagentCoordinator" where
  "evict_loop [] c = c"
| "evict_loop (i # is) c = (if maxJobs c \<le> length (jobs c)
     then evict_loop is (publish (Remove i) (c\<lparr>jobs := od_delete i (jobs c)\<rparr>)) else c)"

definition evictTerminalJobs :: "'p SubagentCoordinator \<Rightarrow> 'p SubagentCoordinator \<times> string option" where
  "evictTerminalJobs c = (if length (jobs c) < maxJobs c then (c, None)
     else let c' = evict_loop (evictable c) c in
       (c', if maxJobs c' \<le> length (jobs c') then Some (''Subagent job limit reached ('' @ show_nat (maxJobs c') @ '')'') else None))"

section \<open>Turns\<close>

definition disposeSession :: "string option \<Rightarrow> SubagentJob \<Rightarrow> SubagentJob" where
  "disposeSession failure job = (if \<not> job_session job then job
     else (case failure of None \<Rightarrow> job\<lparr>job_session := False\<rparr>
       | Some e \<Rightarrow> appendJobError (lifecycleFailure job ''session dispose'' e) (job\<lparr>job_session := False\<rparr>)))"

definition requestAbort :: "SubagentJob \<Rightarrow> SubagentJob" where
  "requestAbort job = job\<lparr>job_controller := map_option (\<lambda>_. True) (job_controller job),
     job_abortPromise := job_abortPromise job \<or> job_session job\<rparr>"

text \<open>The synchronous part of \<open>executeTurn\<close>, and the bookkeeping of \<open>pump\<close> around it.  When the registry
  refuses the wait scope the turn fails later.\<close>

definition start_job :: "int \<Rightarrow> nat \<Rightarrow> SubagentJob \<Rightarrow> SubagentJob" where
  "start_job now turn j = j\<lparr>job_status := RUNNING,
     job_startedAt := (case job_startedAt j of None \<Rightarrow> Some now | Some t \<Rightarrow> Some t),
     job_latestLine := Some ''Starting'', job_stopRequested := False, job_timedOut := False, job_abortPromise := False,
     job_controller := Some False, job_approvalWaitScope := True, job_runPromise := Some turn\<rparr>"

definition begin_turn :: "'p PolicyPrincipalRegistry \<Rightarrow> int \<Rightarrow> string \<Rightarrow> 'p SubagentCoordinator \<Rightarrow> 'p SubagentCoordinator" where
  "begin_turn reg now i c = (let
     c1 = notify i (modify_job i (start_job now (next_turn c))
            (c\<lparr>activeCount := Suc (activeCount c), next_turn := Suc (next_turn c)\<rparr>))
     in case reg_setWaitScope reg i (Some (next_turn c)) (registry c1) of
          Inl e \<Rightarrow> c1 | Inr p \<Rightarrow> c1\<lparr>registry := p\<rparr>)"

fun pump_queue :: "'p PolicyPrincipalRegistry \<Rightarrow> int \<Rightarrow> string list \<Rightarrow> 'p SubagentCoordinator \<Rightarrow> 'p SubagentCoordinator" where
  "pump_queue reg now [] c = c\<lparr>queue := []\<rparr>"
| "pump_queue reg now (i # is) c =
     (if coord_closed c \<or> maxConcurrency c \<le> activeCount c then c\<lparr>queue := i # is\<rparr>
      else if status_of i c \<noteq> Some QUEUED then pump_queue reg now is c
      else pump_queue reg now is (begin_turn reg now i c))"

definition pump :: "'p PolicyPrincipalRegistry \<Rightarrow> int \<Rightarrow> 'p SubagentCoordinator \<Rightarrow> 'p SubagentCoordinator" where
  "pump reg now c = pump_queue reg now (queue c) c"

text \<open>\<open>promoteFollowUp\<close>: the second component is the exception of the registry.\<close>

definition promoteFollowUp ::
    "'p PolicyPrincipalRegistry \<Rightarrow> string \<Rightarrow> string \<Rightarrow> 'p SubagentCoordinator \<Rightarrow> 'p SubagentCoordinator \<times> string option" where
  "promoteFollowUp reg i tk c = (let
     c1 = modify_job i (\<lambda>j. j\<lparr>job_request := (job_request j)\<lparr>req_task := tk\<rparr>\<rparr>) c
     in case reg_updateTask reg i tk (registry c1) of
          Inl e \<Rightarrow> (c1, Some e)
        | Inr p \<Rightarrow> (let c2 = modify_job i (\<lambda>j. j\<lparr>job_output := None, job_status := QUEUED,
               job_latestLine := Some ''Queued follow-up'', job_error := None, job_stopRequested := False,
               job_timedOut := False\<rparr>) (c1\<lparr>registry := p\<rparr>)
             in (c2\<lparr>queue := queue c2 @ [i]\<rparr>, None)))"

text \<open>The context in which the session of a job runs: what it calls on the coordinator is called with it.\<close>

definition delegation_context :: "SubagentJob \<Rightarrow> DelegationContext" where
  "delegation_context job = \<lparr>ctx_jobId = job_id job, ctx_agentIdentifier = job_agentIdentifier job,
     ctx_depth = job_depth job, ctx_mechanisms = mechanisms (job_capabilities job)\<rparr>"

text \<open>Events of a running turn.\<close>

definition session_created :: "string \<Rightarrow> (string \<times> string \<times> string) option \<Rightarrow> 'p SubagentCoordinator \<Rightarrow> 'p SubagentCoordinator" where
  "session_created i selection c = (if status_of i c = Some RUNNING
     then notify i (modify_job i (\<lambda>j. j\<lparr>job_session := True,
       job_resolvedModel := map_option fst selection, job_resolvedThinkingLevel := map_option (fst \<circ> snd) selection,
       job_modelSelectionSource := map_option (snd \<circ> snd) selection,
       job_abortPromise := job_abortPromise j \<or> job_controller j = Some True\<rparr>) c) else c)"

definition turn_update :: "string \<Rightarrow> string \<Rightarrow> string option \<Rightarrow> 'p SubagentCoordinator \<Rightarrow> 'p SubagentCoordinator" where
  "turn_update i line output c = notify i (modify_job i (\<lambda>j. j\<lparr>job_latestLine := Some line,
     job_output := (case output of None \<Rightarrow> job_output j | Some t \<Rightarrow> Some (boundedOutput t))\<rparr>) c)"

definition steering_sent :: "string \<Rightarrow> bool list \<Rightarrow> 'p SubagentCoordinator \<Rightarrow> 'p SubagentCoordinator" where
  "steering_sent i accepted c = modify_job i (\<lambda>j. j\<lparr>job_pendingSteering := [],
     job_queuedTasks := job_queuedTasks j @ map fst (filter (\<lambda>(t, a). \<not> a) (zip (job_pendingSteering j) accepted))\<rparr>) c"

definition turn_timeout :: "string \<Rightarrow> 'p SubagentCoordinator \<Rightarrow> 'p SubagentCoordinator" where
  "turn_timeout i c = (case map_of (jobs c) i of
       Some j \<Rightarrow> if job_approvalWaitScope j
         then notify i (modify_job i (\<lambda>j. requestAbort (j\<lparr>job_timedOut := True, job_latestLine := Some ''Timed out; stopping''\<rparr>)) c)
         else c
     | None \<Rightarrow> c)"

text \<open>The end of a turn.  The failure branch and the \<open>finally\<close> branch of \<open>executeTurn\<close>.\<close>

definition fail_turn :: "int \<Rightarrow> string \<Rightarrow> string option \<Rightarrow> SubagentJob \<Rightarrow> SubagentJob" where
  "fail_turn now e abortFailure j = (let
     j1 = j\<lparr>job_pendingSteering := [], job_queuedTasks := [], job_error := Some e\<rparr>;
     j2 = (case abortFailure of Some f \<Rightarrow> if job_abortPromise j
              then appendJobError (lifecycleFailure j ''session abort'' f) j1 else j1 | None \<Rightarrow> j1)
     in j2\<lparr>job_finishedAt := Some now,
           job_status := (if job_timedOut j2 then TIMED_OUT
              else if job_stopRequested j2 \<or> job_controller j2 = Some True then CANCELLED else FAILED),
           job_latestLine := job_error j2\<rparr>)"

definition unexpected_failure :: "int \<Rightarrow> string \<Rightarrow> string option \<Rightarrow> SubagentJob \<Rightarrow> SubagentJob" where
  "unexpected_failure now e failure j = disposeSession failure (appendJobError (lifecycleFailure j ''turn finalization'' e)
     (if isActive (job_status j) then j\<lparr>job_status := FAILED, job_finishedAt := Some now\<rparr> else j))"

definition finalize_job :: "string option \<Rightarrow> SubagentJob \<Rightarrow> SubagentJob" where
  "finalize_job failure j = (let j1 = j\<lparr>job_controller := None\<rparr> in
     if job_status j1 = IDLE \<or> job_status j1 = QUEUED then j1 else disposeSession failure j1)"

definition turn_finally ::
    "'p PolicyPrincipalRegistry \<Rightarrow> int \<Rightarrow> string \<Rightarrow> string option \<Rightarrow> 'p SubagentCoordinator \<Rightarrow> 'p SubagentCoordinator" where
  "turn_finally reg now i failure c = (let c1 = modify_job i (\<lambda>j. j\<lparr>job_approvalWaitScope := False\<rparr>) c in
     releaseTerminalPrincipals reg (notify i (case reg_setWaitScope reg i None (registry c1) of
       Inl e \<Rightarrow> modify_job i (unexpected_failure now e failure) c1
     | Inr p \<Rightarrow> modify_job i (finalize_job failure) (c1\<lparr>registry := p\<rparr>))))"

definition turn_result ::
    "'p PolicyPrincipalRegistry \<Rightarrow> int \<Rightarrow> string \<Rightarrow> string + string \<Rightarrow> string option \<Rightarrow> SubagentJob \<Rightarrow> 'p SubagentCoordinator
      \<Rightarrow> 'p SubagentCoordinator" where
  "turn_result reg now i ending abortFailure j c = (case ending of
       Inl e \<Rightarrow> modify_job i (fail_turn now e abortFailure) c
     | Inr output \<Rightarrow>
         if job_controller j = Some True then modify_job i (fail_turn now abort_message abortFailure) c
         else let c1 = modify_job i (\<lambda>j. j\<lparr>job_output := Some (boundedOutput output),
                 job_latestLine := Some (lastMeaningfulLine output), job_turns := Suc (job_turns j)\<rparr>) c in
           (case job_queuedTasks j of
              [] \<Rightarrow> modify_job i (\<lambda>j. j\<lparr>job_status := IDLE\<rparr>) c1
            | tk # tks \<Rightarrow> (case promoteFollowUp reg i tk (modify_job i (\<lambda>j. j\<lparr>job_queuedTasks := tks\<rparr>) c1) of
                (c2, None) \<Rightarrow> c2
              | (c2, Some e) \<Rightarrow> modify_job i (fail_turn now e abortFailure) c2)))"

text \<open>The whole end of \<open>executeTurn\<close>: \<open>ending\<close> is the exception or the output, then the failures of
  aborting and of disposing of the session.  A turn that is not running any more has ended before: the source reaches this
  point once per turn, which the test of the status expresses for arbitrary sequences of steps.\<close>

definition turn_finish ::
    "'p PolicyPrincipalRegistry \<Rightarrow> int \<Rightarrow> string \<Rightarrow> string + string \<Rightarrow> string option \<Rightarrow> string option \<Rightarrow> 'p SubagentCoordinator
      \<Rightarrow> 'p SubagentCoordinator" where
  "turn_finish reg now i ending abortFailure failure c = (case map_of (jobs c) i of
       None \<Rightarrow> c
     | Some j \<Rightarrow> (case job_runPromise j of
           None \<Rightarrow> c
         | Some turn \<Rightarrow> if job_status j \<noteq> RUNNING then c
             else (turn_finally reg now i failure (turn_result reg now i ending abortFailure j c))
                    \<lparr>settling := settling c @ [(i, turn)]\<rparr>))"

definition turn_settle :: "'p PolicyPrincipalRegistry \<Rightarrow> int \<Rightarrow> string \<Rightarrow> nat \<Rightarrow> 'p SubagentCoordinator \<Rightarrow> 'p SubagentCoordinator" where
  "turn_settle reg now i turn c = (if (i, turn) \<notin> set (settling c) then c
     else pump reg now (modify_job i (\<lambda>j. if job_runPromise j = Some turn then j\<lparr>job_runPromise := None\<rparr> else j)
            (c\<lparr>activeCount := activeCount c - 1, settling := remove1 (i, turn) (settling c)\<rparr>)))"

section \<open>Spawning\<close>

definition validateNestedSpawn :: "DelegationContext \<Rightarrow> SubagentRequest \<Rightarrow> AgentCapability list \<Rightarrow> unit res" where
  "validateNestedSpawn parent request capabilities =
     (if req_parentAgentIdentifier request \<noteq> ctx_agentIdentifier parent
      then Inl ''Nested subagent parent policy principal does not match the invoking agent''
      else if delegate \<notin> set (ctx_mechanisms parent) then Inl ''This subagent was not granted the delegate capability''
      else (case find (\<lambda>m. m \<notin> set (ctx_mechanisms parent)) (mechanisms capabilities) of
          Some m \<Rightarrow> Inl (''Nested subagent mechanism exceeds the parent capabilities: '' @ mechanismValue m)
        | None \<Rightarrow> Inr ()))"

definition new_job :: "string \<Rightarrow> DelegationContext option \<Rightarrow> SubagentRequest \<Rightarrow> AgentCapability list \<Rightarrow> int \<Rightarrow> SubagentJob" where
  "new_job i caller request capabilities now = \<lparr>job_id = i, job_agentIdentifier = i,
     job_parentId = map_option ctx_jobId caller,
     job_depth = (case caller of None \<Rightarrow> 0 | Some p \<Rightarrow> Suc (ctx_depth p)),
     job_request = request, job_capabilities = capabilities, job_status = QUEUED, job_createdAt = now,
     job_startedAt = None, job_finishedAt = None, job_latestLine = None, job_output = None, job_error = None, job_turns = 0,
     job_queuedTasks = [], job_pendingSteering = [], job_session = False,
     job_resolvedModel = None, job_resolvedThinkingLevel = None, job_modelSelectionSource = None, job_controller = None,
     job_approvalWaitScope = False, job_runPromise = None, job_abortPromise = False, job_stopRequested = False,
     job_timedOut = False, job_principalReleased = False\<rparr>"

definition spawn ::
    "'p PolicyPrincipalRegistry \<Rightarrow> DelegationContext option \<Rightarrow> bool \<Rightarrow> SubagentRequest \<Rightarrow> string \<Rightarrow> int \<Rightarrow> 'p SubagentCoordinator
      \<Rightarrow> 'p SubagentCoordinator \<times> string res" where
  "spawn reg caller aborted request uuid now c =
     (if coord_closed c then (c, Inl ''Subagent coordinator is closed'')
      else if aborted then (c, Inl abort_message)
      else (case res_bind (validateRequest request) (\<lambda>normalized.
               res_bind (new_AgentCapabilitySet (req_capabilities normalized)) (\<lambda>capabilities.
               let depth = (case caller of None \<Rightarrow> 0 | Some p \<Rightarrow> Suc (ctx_depth p)) in
               if maxDepth c < depth
               then Inl (''Subagent delegation depth '' @ show_nat depth @ '' exceeds the maximum '' @ show_nat (maxDepth c))
               else res_bind (case caller of None \<Rightarrow> Inr () | Some p \<Rightarrow> validateNestedSpawn p normalized capabilities)
                 (\<lambda>_. Inr (normalized, capabilities)))) of
           Inl e \<Rightarrow> (c, Inl e)
         | Inr (normalized, capabilities) \<Rightarrow>
             (case evictTerminalJobs c of
                (c1, Some e) \<Rightarrow> (c1, Inl e)
              | (c1, None) \<Rightarrow> (let i = ''subagent-'' @ uuid in
                  case reg_register reg i (req_parentAgentIdentifier normalized) (policyAreas capabilities)
                         \<lparr>role = req_role normalized, task = req_task normalized\<rparr> (registry c1) of
                    Inl e \<Rightarrow> (c1, Inl e)
                  | Inr p \<Rightarrow>
                      (pump reg now (notify i (c1\<lparr>registry := p, jobs := od_set i (new_job i caller normalized capabilities now) (jobs c1),
                         queue := queue c1 @ [i]\<rparr>)), Inr i)))))"

section \<open>Messages and stopping\<close>

definition updateSteeringPolicyContext ::
    "'p PolicyPrincipalRegistry \<Rightarrow> SubagentJob \<Rightarrow> string \<Rightarrow> 'p SubagentCoordinator \<Rightarrow> 'p SubagentCoordinator \<times> string option" where
  "updateSteeringPolicyContext reg job steering c =
     (case reg_updateTask reg (job_agentIdentifier job)
             (req_task (job_request job) @ newline @ ''Current steering: '' @ steering) (registry c) of
        Inl e \<Rightarrow> (c, Some e) | Inr p \<Rightarrow> (c\<lparr>registry := p\<rparr>, None))"

datatype message_end = Message_done | Message_failed string | Awaiting_steer

definition steering_queued :: "string \<Rightarrow> 'p SubagentCoordinator \<Rightarrow> 'p SubagentCoordinator" where
  "steering_queued i c = notify i (modify_job i (\<lambda>j. j\<lparr>job_latestLine := Some ''Steering message queued''\<rparr>) c)"

definition message_fallback ::
    "'p PolicyPrincipalRegistry \<Rightarrow> int \<Rightarrow> string \<Rightarrow> string \<Rightarrow> 'p SubagentCoordinator \<Rightarrow> 'p SubagentCoordinator \<times> message_end" where
  "message_fallback reg now i tk c = (case status_of i c of
       Some IDLE \<Rightarrow> (case promoteFollowUp reg i tk c of
           (c1, Some e) \<Rightarrow> (c1, Message_failed e)
         | (c1, None) \<Rightarrow> (pump reg now (notify i (modify_job i (\<lambda>j. j\<lparr>job_finishedAt := None\<rparr>) c1)), Message_done))
     | Some st \<Rightarrow> if isActive st then (notify i (modify_job i (\<lambda>j. j\<lparr>job_queuedTasks := job_queuedTasks j @ [tk],
           job_latestLine := Some ''Queued follow-up''\<rparr>) c), Message_done)
         else (c, Message_failed (''Subagent conversation cannot receive a message: '' @ i @ '' ('' @ statusValue st @ '')''))
     | None \<Rightarrow> (c, Message_failed (''Subagent conversation cannot receive a message: '' @ i)))"

definition message ::
    "'p PolicyPrincipalRegistry \<Rightarrow> DelegationContext option \<Rightarrow> int \<Rightarrow> string \<Rightarrow> string \<Rightarrow> 'p SubagentCoordinator
      \<Rightarrow> 'p SubagentCoordinator \<times> message_end" where
  "message reg caller now i tk c =
     (if coord_closed c then (c, Message_failed ''Subagent coordinator is closed'')
      else (case res_bind (requireManageableJob caller i c) (\<lambda>job. res_bind (requiredText tk ''task'' 100000) (\<lambda>t. Inr (job, t))) of
          Inl e \<Rightarrow> (c, Message_failed e)
        | Inr (job, t) \<Rightarrow>
            if job_status job = RUNNING then
              (if \<not> job_session job then
                 (case updateSteeringPolicyContext reg job t
                         (modify_job i (\<lambda>j. j\<lparr>job_pendingSteering := job_pendingSteering j @ [t]\<rparr>) c) of
                    (c1, Some e) \<Rightarrow> (c1, Message_failed e)
                  | (c1, None) \<Rightarrow> (steering_queued i c1, Message_done))
               else (case updateSteeringPolicyContext reg job t c of
                    (c1, Some e) \<Rightarrow> (c1, Message_failed e)
                  | (c1, None) \<Rightarrow> (c1, Awaiting_steer)))
            else message_fallback reg now i t c))"

text \<open>The rest of a message whose session answered the steering.  A job that ended and was evicted meanwhile
  refuses the message; its last status, which the code still has, is not in the table any more.\<close>

definition message_steered ::
    "'p PolicyPrincipalRegistry \<Rightarrow> int \<Rightarrow> bool \<Rightarrow> string \<Rightarrow> string \<Rightarrow> 'p SubagentCoordinator \<Rightarrow> 'p SubagentCoordinator \<times> message_end" where
  "message_steered reg now accepted i tk c =
     (if accepted then (steering_queued i c, Message_done) else message_fallback reg now i tk c)"

definition cancel_job :: "int \<Rightarrow> string \<Rightarrow> string option \<Rightarrow> SubagentJob \<Rightarrow> SubagentJob" where
  "cancel_job now line failure j = disposeSession failure (j\<lparr>job_stopRequested := True, job_pendingSteering := [],
     job_queuedTasks := [], job_status := CANCELLED, job_finishedAt := Some now, job_latestLine := Some line\<rparr>)"

text \<open>\<open>stopOne\<close> up to its awaits; the turn of a running job then ends by itself.\<close>

definition stopOne ::
    "'p PolicyPrincipalRegistry \<Rightarrow> int \<Rightarrow> string option \<Rightarrow> string \<Rightarrow> 'p SubagentCoordinator \<Rightarrow> 'p SubagentCoordinator" where
  "stopOne reg now failure i c = (case status_of i c of
       Some QUEUED \<Rightarrow> releaseTerminalPrincipals reg (notify i
         (modify_job i (cancel_job now ''Cancelled before starting'' failure) (c\<lparr>queue := remove1 i (queue c)\<rparr>)))
     | Some RUNNING \<Rightarrow> modify_job i (\<lambda>j. requestAbort (j\<lparr>job_stopRequested := True, job_latestLine := Some ''Stopping''\<rparr>)) c
     | Some IDLE \<Rightarrow> releaseTerminalPrincipals reg (notify i (modify_job i (cancel_job now ''Stopped'' failure) c))
     | _ \<Rightarrow> c)"

text \<open>The jobs that \<open>stop\<close> stops, in its order: the descendants from the deepest up, then the job.\<close>

definition stop_order :: "string \<Rightarrow> 'p SubagentCoordinator \<Rightarrow> string list" where
  "stop_order i c = map job_id (sort_key (\<lambda>j. - int (job_depth j))
     (filter (\<lambda>j. isDescendant j i (jobs c)) (map snd (jobs c)))) @ [i]"

text \<open>\<open>stop\<close>: the jobs to stop, one after the other (\<open>stopOne\<close>), then \<open>end_stop\<close>.\<close>

definition begin_stop :: "DelegationContext option \<Rightarrow> string \<Rightarrow> 'p SubagentCoordinator \<Rightarrow> string list res" where
  "begin_stop caller i c = res_bind (requireManageableJob caller i c) (\<lambda>root. Inr (stop_order (job_id root) c))"

definition end_stop :: "'p PolicyPrincipalRegistry \<Rightarrow> 'p SubagentCoordinator \<Rightarrow> 'p SubagentCoordinator" where
  "end_stop reg c = releaseTerminalPrincipals reg c"

text \<open>\<open>close\<close>: stops every job from the deepest up; afterwards \<open>end_close\<close>.\<close>

definition close_order :: "'p SubagentCoordinator \<Rightarrow> string list" where
  "close_order c = map job_id (sort_key (\<lambda>j. - int (job_depth j)) (map snd (jobs c)))"

definition begin_close :: "'p SubagentCoordinator \<Rightarrow> 'p SubagentCoordinator" where
  "begin_close c = c\<lparr>coord_closed := True\<rparr>"

definition end_close :: "'p PolicyPrincipalRegistry \<Rightarrow> 'p SubagentCoordinator \<Rightarrow> 'p SubagentCoordinator" where
  "end_close reg c = (releaseTerminalPrincipals reg c)\<lparr>queue := [], listening := False\<rparr>"

end
