(* ===== verification/Subagent_Frame.thy ===== *)
theory Subagent_Frame
  imports Subagent_Coordinator
begin

text \<open>
  What the operations of the coordinator observe of each other: the keys of its table, the part of a job that never
  changes (its core), its status and whether its principal was released.  Every operation is described by its effect
  on these observations; the invariants of the coordinator are stated over them.
\<close>

section \<open>Observations\<close>

type_synonym job_core = "string \<times> string \<times> string option \<times> nat \<times> AgentCapability list \<times> string"

definition job_core :: "SubagentJob \<Rightarrow> job_core" where
  "job_core j = (job_id j, job_agentIdentifier j, job_parentId j, job_depth j, job_capabilities j,
     req_parentAgentIdentifier (job_request j))"

definition keys :: "'p SubagentCoordinator \<Rightarrow> string list" where
  "keys c = map fst (jobs c)"

definition core_of :: "'p SubagentCoordinator \<Rightarrow> string \<Rightarrow> job_core option" where
  "core_of c i = map_option job_core (map_of (jobs c) i)"

definition released_of :: "'p SubagentCoordinator \<Rightarrow> string \<Rightarrow> bool option" where
  "released_of c i = map_option job_principalReleased (map_of (jobs c) i)"

abbreviation statuses :: "'p SubagentCoordinator \<Rightarrow> string \<Rightarrow> SubagentJobStatus option" where
  "statuses c \<equiv> \<lambda>i. status_of i c"

definition running :: "'p SubagentCoordinator \<Rightarrow> string set" where
  "running c = {i. status_of i c = Some RUNNING}"

named_theorems coord_simps \<open>the effect of an operation on what is observed\<close>

lemma keys_od_set_old: "k \<in> set (map fst d) \<Longrightarrow> map fst (od_set k v d) = map fst d"
  by (induction k v d rule: od_set.induct) auto

lemma keys_od_set_new: "k \<notin> set (map fst d) \<Longrightarrow> od_set k v d = d @ [(k, v)]"
  by (induction k v d rule: od_set.induct) auto

lemma in_keys: "i \<in> set (keys c) \<longleftrightarrow> map_of (jobs c) i \<noteq> None"
  by (auto simp: keys_def map_of_eq_None_iff)

lemma finite_running [simp]: "finite (running c)"
proof (rule finite_subset)
  show "running c \<subseteq> dom (map_of (jobs c))" by (auto simp: running_def status_of_def)
qed (simp add: finite_dom_map_of)

lemma status_of_key: "status_of i c = Some s \<Longrightarrow> \<exists>j. map_of (jobs c) i = Some j \<and> job_status j = s"
  by (auto simp: status_of_def)

section \<open>Changing a job\<close>

lemma map_of_modify_job [coord_simps]:
  "map_of (jobs (modify_job i f c)) k = (if k = i then map_option f (map_of (jobs c) i) else map_of (jobs c) k)"
  by (auto simp: modify_job_def split: option.splits)

lemma modify_job_frame [coord_simps]:
  "queue (modify_job i f c) = queue c" "listening (modify_job i f c) = listening c"
  "published (modify_job i f c) = published c" "maxConcurrency (modify_job i f c) = maxConcurrency c"
  "maxDepth (modify_job i f c) = maxDepth c" "maxJobs (modify_job i f c) = maxJobs c"
  "activeCount (modify_job i f c) = activeCount c" "coord_closed (modify_job i f c) = coord_closed c"
  "next_turn (modify_job i f c) = next_turn c" "settling (modify_job i f c) = settling c"
  "registry (modify_job i f c) = registry c"
  by (simp_all add: modify_job_def split: option.splits)

lemma keys_modify_job [coord_simps]: "keys (modify_job i f c) = keys c"
proof (cases "map_of (jobs c) i")
  case (Some j)
  then have "i \<in> set (map fst (jobs c))" by (metis map_of_eq_None_iff option.distinct(1) set_map)
  with Some show ?thesis by (simp add: modify_job_def keys_def keys_od_set_old)
qed (simp add: modify_job_def)

lemma core_of_modify_job [coord_simps]:
  "(\<And>j. job_core (f j) = job_core j) \<Longrightarrow> core_of (modify_job i f c) = core_of c"
  by (rule ext) (auto simp: core_of_def map_of_modify_job option.map_comp o_def)

lemma status_of_modify_job:
  "status_of k (modify_job i f c) = (if k = i then map_option (\<lambda>j. job_status (f j)) (map_of (jobs c) i) else status_of k c)"
  by (auto simp: status_of_def map_of_modify_job option.map_comp o_def)

lemma status_of_modify_job_same [coord_simps]:
  "(\<And>j. job_status (f j) = job_status j) \<Longrightarrow> status_of k (modify_job i f c) = status_of k c"
  by (auto simp: status_of_def map_of_modify_job option.map_comp o_def)

lemma status_of_modify_job_const:
  "(\<And>j. job_status (f j) = s) \<Longrightarrow> map_of (jobs c) i \<noteq> None \<Longrightarrow> status_of k (modify_job i f c) = (if k = i then Some s else status_of k c)"
  by (auto simp: status_of_def map_of_modify_job option.map_comp o_def)

lemma released_of_modify_job [coord_simps]:
  "(\<And>j. job_principalReleased (f j) = job_principalReleased j) \<Longrightarrow> released_of (modify_job i f c) = released_of c"
  by (rule ext) (auto simp: released_of_def map_of_modify_job option.map_comp o_def)

section \<open>Notifications and updates of the other fields\<close>

lemma notify_frame_coord [coord_simps]:
  "jobs (notify i c) = jobs c" "queue (notify i c) = queue c" "listening (notify i c) = listening c"
  "maxConcurrency (notify i c) = maxConcurrency c" "maxDepth (notify i c) = maxDepth c" "maxJobs (notify i c) = maxJobs c"
  "activeCount (notify i c) = activeCount c" "coord_closed (notify i c) = coord_closed c"
  "next_turn (notify i c) = next_turn c" "settling (notify i c) = settling c" "registry (notify i c) = registry c"
  by (simp_all add: notify_def publish_def split: option.splits)

lemma publish_frame [coord_simps]:
  "jobs (publish x c) = jobs c" "queue (publish x c) = queue c" "listening (publish x c) = listening c"
  "maxConcurrency (publish x c) = maxConcurrency c" "maxDepth (publish x c) = maxDepth c" "maxJobs (publish x c) = maxJobs c"
  "activeCount (publish x c) = activeCount c" "coord_closed (publish x c) = coord_closed c"
  "next_turn (publish x c) = next_turn c" "settling (publish x c) = settling c" "registry (publish x c) = registry c"
  by (simp_all add: publish_def)

lemma observe_cong:
  assumes "jobs c' = jobs c"
  shows "keys c' = keys c" "core_of c' = core_of c" "status_of i c' = status_of i c" "released_of c' = released_of c"
    "running c' = running c"
  using assms by (auto simp: keys_def core_of_def status_of_def released_of_def running_def fun_eq_iff)

lemmas observe_notify [coord_simps] = observe_cong [OF notify_frame_coord(1)]
lemmas observe_publish [coord_simps] = observe_cong [OF publish_frame(1)]

lemma observe_update [coord_simps]:
  "keys (c\<lparr>queue := q\<rparr>) = keys c" "keys (c\<lparr>registry := p\<rparr>) = keys c" "keys (c\<lparr>activeCount := n\<rparr>) = keys c"
  "keys (c\<lparr>settling := s\<rparr>) = keys c" "keys (c\<lparr>next_turn := t\<rparr>) = keys c" "keys (c\<lparr>coord_closed := b\<rparr>) = keys c"
  "keys (c\<lparr>listening := b\<rparr>) = keys c"
  "core_of (c\<lparr>queue := q\<rparr>) = core_of c" "core_of (c\<lparr>registry := p\<rparr>) = core_of c" "core_of (c\<lparr>activeCount := n\<rparr>) = core_of c"
  "core_of (c\<lparr>settling := s\<rparr>) = core_of c" "core_of (c\<lparr>next_turn := t\<rparr>) = core_of c"
  "core_of (c\<lparr>coord_closed := b\<rparr>) = core_of c" "core_of (c\<lparr>listening := b\<rparr>) = core_of c"
  "status_of i (c\<lparr>queue := q\<rparr>) = status_of i c" "status_of i (c\<lparr>registry := p\<rparr>) = status_of i c"
  "status_of i (c\<lparr>activeCount := n\<rparr>) = status_of i c" "status_of i (c\<lparr>settling := s\<rparr>) = status_of i c"
  "status_of i (c\<lparr>next_turn := t\<rparr>) = status_of i c" "status_of i (c\<lparr>coord_closed := b\<rparr>) = status_of i c"
  "status_of i (c\<lparr>listening := b\<rparr>) = status_of i c"
  "released_of (c\<lparr>queue := q\<rparr>) = released_of c" "released_of (c\<lparr>registry := p\<rparr>) = released_of c"
  "released_of (c\<lparr>activeCount := n\<rparr>) = released_of c" "released_of (c\<lparr>settling := s\<rparr>) = released_of c"
  "released_of (c\<lparr>next_turn := t\<rparr>) = released_of c" "released_of (c\<lparr>coord_closed := b\<rparr>) = released_of c"
  "released_of (c\<lparr>listening := b\<rparr>) = released_of c"
  by (simp_all add: keys_def core_of_def status_of_def released_of_def fun_eq_iff)

section \<open>Functions on jobs that change neither the core nor the release\<close>

lemma job_core_update [simp]:
  "job_core (j\<lparr>job_status := s\<rparr>) = job_core j" "job_core (j\<lparr>job_output := out\<rparr>) = job_core j"
  "job_core (j\<lparr>job_latestLine := l\<rparr>) = job_core j" "job_core (j\<lparr>job_turns := n\<rparr>) = job_core j"
  "job_core (j\<lparr>job_queuedTasks := q\<rparr>) = job_core j" "job_core (j\<lparr>job_pendingSteering := q\<rparr>) = job_core j"
  "job_core (j\<lparr>job_error := e\<rparr>) = job_core j" "job_core (j\<lparr>job_stopRequested := b\<rparr>) = job_core j"
  "job_core (j\<lparr>job_timedOut := b\<rparr>) = job_core j" "job_core (j\<lparr>job_finishedAt := t\<rparr>) = job_core j"
  "job_core (j\<lparr>job_session := b\<rparr>) = job_core j" "job_core (j\<lparr>job_abortPromise := b\<rparr>) = job_core j"
  "job_core (j\<lparr>job_approvalWaitScope := b\<rparr>) = job_core j" "job_core (j\<lparr>job_runPromise := r\<rparr>) = job_core j"
  "job_core (j\<lparr>job_startedAt := t\<rparr>) = job_core j" "job_core (j\<lparr>job_controller := ct\<rparr>) = job_core j"
  "job_core (j\<lparr>job_principalReleased := b\<rparr>) = job_core j" "job_core (j\<lparr>job_resolvedModel := m\<rparr>) = job_core j"
  "job_core (j\<lparr>job_resolvedThinkingLevel := m\<rparr>) = job_core j" "job_core (j\<lparr>job_modelSelectionSource := m\<rparr>) = job_core j"
  "job_core (j\<lparr>job_request := (job_request j)\<lparr>req_task := tk\<rparr>\<rparr>) = job_core j"
  by (simp_all add: job_core_def)

lemma appendJobError_same [simp]:
  "job_core (appendJobError m j) = job_core j" "job_status (appendJobError m j) = job_status j"
  "job_principalReleased (appendJobError m j) = job_principalReleased j" "job_id (appendJobError m j) = job_id j"
  by (simp_all add: appendJobError_def Let_def job_core_def)

lemma disposeSession_same [simp]:
  "job_core (disposeSession e j) = job_core j" "job_status (disposeSession e j) = job_status j"
  "job_principalReleased (disposeSession e j) = job_principalReleased j"
  by (auto simp: disposeSession_def job_core_def appendJobError_def Let_def split: option.splits)

lemma requestAbort_same [simp]:
  "job_core (requestAbort j) = job_core j" "job_status (requestAbort j) = job_status j"
  "job_principalReleased (requestAbort j) = job_principalReleased j"
  by (simp_all add: requestAbort_def job_core_def)

lemma start_job_same [simp]:
  "job_core (start_job now t j) = job_core j" "job_status (start_job now t j) = RUNNING"
  "job_principalReleased (start_job now t j) = job_principalReleased j"
  by (simp_all add: start_job_def)

lemma cancel_job_same [simp]:
  "job_core (cancel_job now l e j) = job_core j" "job_status (cancel_job now l e j) = CANCELLED"
  "job_principalReleased (cancel_job now l e j) = job_principalReleased j"
  by (simp_all add: cancel_job_def)

lemma fail_turn_same [simp]:
  "job_core (fail_turn now e a j) = job_core j" "isTerminal (job_status (fail_turn now e a j))"
  "job_principalReleased (fail_turn now e a j) = job_principalReleased j"
  by (auto simp: fail_turn_def Let_def isTerminal_def split: option.splits)

lemma unexpected_failure_same [simp]:
  "job_core (unexpected_failure now e a j) = job_core j"
  "job_status (unexpected_failure now e a j) = (if isActive (job_status j) then FAILED else job_status j)"
  "job_principalReleased (unexpected_failure now e a j) = job_principalReleased j"
  by (simp_all add: unexpected_failure_def)

lemma finalize_job_same [simp]:
  "job_core (finalize_job e j) = job_core j" "job_status (finalize_job e j) = job_status j"
  "job_principalReleased (finalize_job e j) = job_principalReleased j"
  by (simp_all add: finalize_job_def Let_def)

end
