(* ===== verification/Subagent_Invariant.thy ===== *)
theory Subagent_Invariant
  imports Subagent_Frame
begin

text \<open>
  The invariants of the coordinator of subagents: the slots for turns, the queue, the tree of jobs and their policy
  principals.  The registry of principals is an interface (\<open>principal_registry\<close>), the invariants are proved once for
  every registry that keeps its laws.
\<close>

section \<open>Slots and the queue\<close>

text \<open>Every running turn and every turn that has ended but not settled holds one slot; a queued job is in the
  queue; and no job waits while a slot is free, unless a turn is settling (it looks at the queue next).\<close>

definition slots_wf :: "'p SubagentCoordinator \<Rightarrow> bool" where
  "slots_wf c \<longleftrightarrow> card (running c) + length (settling c) = activeCount c \<and> activeCount c \<le> maxConcurrency c"

definition queue_wf :: "'p SubagentCoordinator \<Rightarrow> bool" where
  "queue_wf c \<longleftrightarrow> (\<not> coord_closed c \<longrightarrow> (\<forall>i. status_of i c = Some QUEUED \<longrightarrow> i \<in> set (queue c)))"

definition busy :: "'p SubagentCoordinator \<Rightarrow> bool" where
  "busy c \<longleftrightarrow> (coord_closed c \<or> queue c = [] \<or> activeCount c = maxConcurrency c)"

definition sched_wf :: "'p SubagentCoordinator \<Rightarrow> bool" where
  "sched_wf c \<longleftrightarrow> slots_wf c \<and> queue_wf c \<and> (settling c = [] \<longrightarrow> busy c)"

lemma running_cong: "statuses c' = statuses c \<Longrightarrow> running c' = running c"
  by (simp add: running_def fun_eq_iff)

lemma running_start: "statuses c' = (statuses c)(i \<mapsto> RUNNING) \<Longrightarrow> running c' = insert i (running c)"
  by (auto simp: running_def fun_eq_iff)

lemma running_other: "statuses c' = (statuses c)(i \<mapsto> s) \<Longrightarrow> s \<noteq> RUNNING \<Longrightarrow> running c' = running c - {i}"
  by (auto simp: running_def fun_eq_iff)

text \<open>The observations of the scheduler.\<close>

definition same_sched :: "'p SubagentCoordinator \<Rightarrow> 'p SubagentCoordinator \<Rightarrow> bool" where
  "same_sched c c' \<longleftrightarrow> statuses c' = statuses c \<and> queue c' = queue c \<and> activeCount c' = activeCount c
     \<and> settling c' = settling c \<and> coord_closed c' = coord_closed c \<and> maxConcurrency c' = maxConcurrency c"

definition same_cores :: "'p SubagentCoordinator \<Rightarrow> 'p SubagentCoordinator \<Rightarrow> bool" where
  "same_cores c c' \<longleftrightarrow> keys c' = keys c \<and> core_of c' = core_of c \<and> maxJobs c' = maxJobs c \<and> maxDepth c' = maxDepth c
     \<and> maxConcurrency c' = maxConcurrency c"

lemma same_sched_refl [simp]: "same_sched c c" and same_cores_refl [simp]: "same_cores c c"
  by (simp_all add: same_sched_def same_cores_def)

lemma same_sched_trans: "same_sched a b \<Longrightarrow> same_sched b c \<Longrightarrow> same_sched a c"
  by (simp add: same_sched_def)

lemma same_cores_trans: "same_cores a b \<Longrightarrow> same_cores b c \<Longrightarrow> same_cores a c"
  by (simp add: same_cores_def)

lemma same_sched_wf: "same_sched c c' \<Longrightarrow> sched_wf c \<Longrightarrow> sched_wf c'"
  using running_cong [of c' c]
  by (simp add: same_sched_def sched_wf_def slots_wf_def queue_wf_def busy_def fun_eq_iff)

text \<open>No job is added or removed, and a job that has ended keeps its status.\<close>

definition steady :: "'p SubagentCoordinator \<Rightarrow> 'p SubagentCoordinator \<Rightarrow> bool" where
  "steady c c' \<longleftrightarrow> same_cores c c' \<and> (\<forall>k s. status_of k c = Some s \<longrightarrow> isTerminal s \<longrightarrow> status_of k c' = Some s)"

lemma steady_same: "same_cores c c' \<Longrightarrow> same_sched c c' \<Longrightarrow> steady c c'"
  by (simp add: steady_def same_sched_def fun_eq_iff)

lemma steady_trans: "steady a b \<Longrightarrow> steady b c \<Longrightarrow> steady a c"
  by (auto simp: steady_def intro: same_cores_trans)

lemma steady_refl [simp]: "steady c c"
  by (simp add: steady_def)

section \<open>Releasing principals\<close>

lemma release_pass_frame:
  "release_pass reg is att r c = (att', r', c') \<Longrightarrow> same_sched c c' \<and> same_cores c c'"
proof (induction reg "is" att r c rule: release_pass.induct)
  case (2 reg i "is" att r c)
  show ?case
  proof (cases "has_retained_children i c")
    case True
    with 2 show ?thesis by simp
  next
    case False
    show ?thesis
    proof (cases "reg_remove reg i (registry c)")
      case (Inl e)
      from 2(2) [OF False Inl] 2(4) False Inl show ?thesis
        by (simp add: same_sched_def same_cores_def coord_simps)
    next
      case (Inr p)
      from 2(3) [OF False Inr] 2(4) False Inr show ?thesis
        by (simp add: same_sched_def same_cores_def coord_simps)
    qed
  qed
qed simp

lemma release_loop_frame: "same_sched c (release_loop n reg att c) \<and> same_cores c (release_loop n reg att c)"
proof (induction n reg att c rule: release_loop.induct)
  case (2 n reg att c)
  obtain att' r c' where p: "release_pass reg (release_candidates att c) att False c = (att', r, c')"
    by (metis prod_cases3)
  show ?case
    using release_pass_frame [OF p] 2 [OF p [symmetric] refl] p
    by (auto intro: same_sched_trans same_cores_trans)
qed simp

lemma releaseTerminalPrincipals_frame [simp]:
  "same_sched c (releaseTerminalPrincipals reg c)" "same_cores c (releaseTerminalPrincipals reg c)"
  unfolding releaseTerminalPrincipals_def using release_loop_frame by blast+

section \<open>Starting turns\<close>

lemma begin_turn_frame:
  "same_cores c (begin_turn reg now i c)" "queue (begin_turn reg now i c) = queue c"
  "settling (begin_turn reg now i c) = settling c" "coord_closed (begin_turn reg now i c) = coord_closed c"
  "activeCount (begin_turn reg now i c) = Suc (activeCount c)" "maxConcurrency (begin_turn reg now i c) = maxConcurrency c"
  by (simp_all add: begin_turn_def Let_def same_cores_def coord_simps split: sum.splits)

lemma begin_turn_status:
  "map_of (jobs c) i \<noteq> None \<Longrightarrow> statuses (begin_turn reg now i c) = (statuses c)(i \<mapsto> RUNNING)"
  by (rule ext) (simp add: begin_turn_def Let_def coord_simps status_of_modify_job_const split: sum.splits)

lemma pump_queue_frame: "same_cores c (pump_queue reg now is c)" "settling (pump_queue reg now is c) = settling c"
    "coord_closed (pump_queue reg now is c) = coord_closed c"
  by (induction reg now "is" c rule: pump_queue.induct)
    (auto simp: coord_simps begin_turn_frame intro: same_cores_trans [OF begin_turn_frame(1)],
      simp_all add: same_cores_def coord_simps)

lemma pump_queue_status:
  "status_of k (pump_queue reg now is c) = status_of k c \<or>
   status_of k c = Some QUEUED \<and> status_of k (pump_queue reg now is c) = Some RUNNING"
proof (induction reg now "is" c rule: pump_queue.induct)
  case (2 reg now i "is" c)
  have "status_of i c = Some QUEUED \<Longrightarrow> statuses (begin_turn reg now i c) = (statuses c)(i \<mapsto> RUNNING)"
    using status_of_key [of i c] by (intro begin_turn_status) auto
  then have "status_of i c = Some QUEUED \<Longrightarrow>
      status_of k (begin_turn reg now i c) = (if k = i then Some RUNNING else status_of k c)"
    by (metis fun_upd_apply)
  with 2 show ?case by (auto simp: coord_simps split: if_splits)
qed (simp add: coord_simps)

lemma pump_queue_sched:
  assumes "slots_wf c" "\<not> coord_closed c \<longrightarrow> (\<forall>i. status_of i c = Some QUEUED \<longrightarrow> i \<in> set is)"
  shows "slots_wf (pump_queue reg now is c) \<and> queue_wf (pump_queue reg now is c) \<and> busy (pump_queue reg now is c)"
  using assms
proof (induction reg now "is" c rule: pump_queue.induct)
  case (1 reg now c)
  then show ?case by (auto simp: slots_wf_def queue_wf_def busy_def running_def coord_simps)
next
  case (2 reg now i "is" c)
  let ?b = "begin_turn reg now i c"
  consider (stop) "coord_closed c \<or> maxConcurrency c \<le> activeCount c"
    | (skip) "\<not> (coord_closed c \<or> maxConcurrency c \<le> activeCount c)" "status_of i c \<noteq> Some QUEUED"
    | (start) "\<not> (coord_closed c \<or> maxConcurrency c \<le> activeCount c)" "status_of i c = Some QUEUED" by blast
  then show ?case
  proof cases
    case stop
    then show ?thesis using 2(3,4)
      by (auto simp: slots_wf_def queue_wf_def busy_def running_def coord_simps)
  next
    case skip
    then have "\<not> coord_closed c \<longrightarrow> (\<forall>k. status_of k c = Some QUEUED \<longrightarrow> k \<in> set is)" using 2(4) by auto
    with skip 2(1) [OF skip 2(3)] show ?thesis by simp
  next
    case start
    then have st: "statuses ?b = (statuses c)(i \<mapsto> RUNNING)" using begin_turn_status status_of_key by blast
    have "i \<notin> running c" using start by (simp add: running_def)
    then have "slots_wf ?b" using 2(3) start running_start [OF st]
      by (simp add: slots_wf_def begin_turn_frame)
    moreover have "\<not> coord_closed ?b \<longrightarrow> (\<forall>k. status_of k ?b = Some QUEUED \<longrightarrow> k \<in> set is)"
      using 2(4) fun_cong [OF st] by (auto simp: begin_turn_frame split: if_splits)
    ultimately show ?thesis using start 2(2) by simp
  qed
qed

lemma pump_frame: "same_cores c (pump reg now c)" "settling (pump reg now c) = settling c"
    "coord_closed (pump reg now c) = coord_closed c"
  by (simp_all add: pump_def pump_queue_frame)

lemma pump_steady: "steady c (pump reg now c)"
proof -
  have "status_of k (pump reg now c) = Some s" if "status_of k c = Some s" "isTerminal s" for k s
    using pump_queue_status [of k reg now "queue c" c] that by (auto simp: pump_def isTerminal_def)
  then show ?thesis using pump_frame by (simp add: steady_def)
qed

lemma pump_sched: "slots_wf c \<Longrightarrow> queue_wf c \<Longrightarrow> sched_wf (pump reg now c)"
  using pump_queue_sched [of c "queue c" reg now] by (simp add: pump_def sched_wf_def queue_wf_def)

section \<open>Follow-ups and the end of a turn\<close>

text \<open>A change of one job's status that may put the job in the queue.\<close>

definition status_change :: "string \<Rightarrow> SubagentJobStatus \<Rightarrow> 'p SubagentCoordinator \<Rightarrow> 'p SubagentCoordinator \<Rightarrow> bool" where
  "status_change i s c c' \<longleftrightarrow> same_cores c c' \<and> statuses c' = (statuses c)(i \<mapsto> s) \<and> activeCount c' = activeCount c
     \<and> settling c' = settling c \<and> coord_closed c' = coord_closed c
     \<and> (queue c' = queue c \<and> s \<noteq> QUEUED \<or> queue c' = queue c @ [i])"

lemma status_change_same:
  "status_change i s c c' \<Longrightarrow> same_cores c' d \<Longrightarrow> same_sched c' d \<Longrightarrow> status_change i s c d"
  by (auto simp: status_change_def same_sched_def intro: same_cores_trans)

lemma status_change_again:
  "status_change i s c c' \<Longrightarrow> status_change i s' c' d \<Longrightarrow> s' \<noteq> QUEUED \<Longrightarrow> queue d = queue c' \<Longrightarrow> status_change i s' c d"
  by (auto simp: status_change_def intro: same_cores_trans)

lemma status_change_steady:
  "status_change i s c c' \<Longrightarrow> (\<And>s0. status_of i c = Some s0 \<Longrightarrow> \<not> isTerminal s0) \<Longrightarrow> steady c c'"
  by (auto simp: status_change_def steady_def fun_eq_iff)

lemma modify_same:
  assumes "\<And>j. job_core (f j) = job_core j" "\<And>j. job_status (f j) = job_status j"
  shows "same_cores c (modify_job i f c)" "same_sched c (modify_job i f c)"
  using assms by (simp_all add: same_cores_def same_sched_def coord_simps)

lemma modify_status:
  assumes "\<And>j. job_core (f j) = job_core j" "map_of (jobs c) i = Some j" "job_status (f j) \<noteq> QUEUED"
  shows "status_change i (job_status (f j)) c (modify_job i f c)"
  using assms by (simp add: status_change_def same_cores_def coord_simps fun_eq_iff status_of_modify_job)

lemma promoteFollowUp_effect:
  assumes "map_of (jobs c) i = Some j" "promoteFollowUp reg i tk c = (c', x)"
  shows "case x of None \<Rightarrow> status_change i QUEUED c c' | Some e \<Rightarrow> same_cores c c' \<and> same_sched c c'"
  using assms by (auto simp: promoteFollowUp_def Let_def status_change_def same_cores_def same_sched_def coord_simps
      fun_eq_iff status_of_def map_of_modify_job split: sum.splits)

lemma same_jobs_key: "same_cores c c' \<Longrightarrow> map_of (jobs c) i \<noteq> None \<Longrightarrow> map_of (jobs c') i \<noteq> None"
  by (metis in_keys same_cores_def)

lemma fail_turn_change:
  assumes "map_of (jobs c) i \<noteq> None"
  obtains s where "isTerminal s" "status_change i s c (modify_job i (fail_turn now e a) c)"
proof -
  from assms obtain j where j: "map_of (jobs c) i = Some j" by auto
  have t: "isTerminal (job_status (fail_turn now e a j))" by simp
  then have "job_status (fail_turn now e a j) \<noteq> QUEUED" by (auto simp: isTerminal_def)
  with t j show thesis by (intro that [OF t] modify_status) auto
qed

lemma same_then_change:
  "same_cores c c' \<Longrightarrow> same_sched c c' \<Longrightarrow> status_change i s c' d \<Longrightarrow> status_change i s c d"
  by (auto simp: status_change_def same_sched_def intro: same_cores_trans)

lemma turn_result_change:
  assumes j: "map_of (jobs c) i = Some j"
  shows "\<exists>s. s \<noteq> RUNNING \<and> status_change i s c (turn_result reg now i ending a j c)"
proof -
  have fail: ?thesis if "same_cores c c'" "same_sched c c'" "turn_result reg now i ending a j c = modify_job i (fail_turn now e a) c'" for c' e
  proof -
    have "map_of (jobs c') i \<noteq> None" using same_jobs_key [OF that(1)] j by simp
    then obtain s where "isTerminal s" "status_change i s c' (modify_job i (fail_turn now e a) c')" by (rule fail_turn_change)
    with that have "status_change i s c (turn_result reg now i ending a j c)" by (simp add: same_then_change)
    moreover have "s \<noteq> RUNNING" using \<open>isTerminal s\<close> by (auto simp: isTerminal_def)
    ultimately show ?thesis by blast
  qed
  show ?thesis
  proof (cases ending)
    case (Inl e)
    show ?thesis by (rule fail [of c e]) (simp_all add: turn_result_def Inl)
  next
    case (Inr out)
    define c1 where "c1 = modify_job i (\<lambda>j. j\<lparr>job_output := Some (boundedOutput out),
      job_latestLine := Some (lastMeaningfulLine out), job_turns := Suc (job_turns j)\<rparr>) c"
    have c1: "same_cores c c1" "same_sched c c1" unfolding c1_def by (rule modify_same; simp)+
    obtain j1 where j1: "map_of (jobs c1) i = Some j1" using same_jobs_key [OF c1(1), of i] j by auto
    consider (aborted) "job_controller j = Some True" | (idle) "job_controller j \<noteq> Some True" "job_queuedTasks j = []"
      | (more) tk tks where "job_controller j \<noteq> Some True" "job_queuedTasks j = tk # tks" by (cases "job_queuedTasks j") auto
    then show ?thesis
    proof cases
      case aborted
      show ?thesis by (rule fail [of c abort_message]) (simp_all add: turn_result_def Inr aborted)
    next
      case idle
      have "status_change i IDLE c1 (modify_job i (\<lambda>j. j\<lparr>job_status := IDLE\<rparr>) c1)"
        using modify_status [of "\<lambda>j. j\<lparr>job_status := IDLE\<rparr>", OF _ j1] by simp
      then show ?thesis using same_then_change [OF c1] idle Inr
        by (intro exI [of _ IDLE]) (simp add: turn_result_def c1_def [symmetric])
    next
      case more
      define c2 where "c2 = modify_job i (\<lambda>j. j\<lparr>job_queuedTasks := tks\<rparr>) c1"
      have c2: "same_cores c1 c2" "same_sched c1 c2" unfolding c2_def by (rule modify_same; simp)+
      note cc = same_cores_trans [OF c1(1) c2(1)] same_sched_trans [OF c1(2) c2(2)]
      obtain j2 where j2: "map_of (jobs c2) i = Some j2" using same_jobs_key [OF cc(1), of i] j by auto
      obtain c3 x where p: "promoteFollowUp reg i tk c2 = (c3, x)" by (cases "promoteFollowUp reg i tk c2")
      have t: "turn_result reg now i ending a j c = (case x of None \<Rightarrow> c3 | Some e \<Rightarrow> modify_job i (fail_turn now e a) c3)"
        using p more Inr by (simp add: turn_result_def c1_def [symmetric] c2_def [symmetric] split: option.splits)
      show ?thesis
      proof (cases x)
        case None
        then show ?thesis using promoteFollowUp_effect [OF j2 p] same_then_change [OF cc] t
          by (intro exI [of _ QUEUED]) simp
      next
        case (Some e)
        then show ?thesis using promoteFollowUp_effect [OF j2 p] t cc
          by (intro fail [of c3 e]) (auto intro: same_cores_trans same_sched_trans)
      qed
    qed
  qed
qed

lemma same_status_trans: "same_cores a b \<and> same_sched a b \<Longrightarrow> same_cores b c \<and> same_sched b c \<Longrightarrow> same_cores a c \<and> same_sched a c"
  by (blast intro: same_cores_trans same_sched_trans)

lemma notify_same [simp]: "same_cores c (notify i c)" "same_sched c (notify i c)"
  by (simp_all add: same_cores_def same_sched_def coord_simps)

lemma registry_same [simp]: "same_cores c (c\<lparr>registry := p\<rparr>)" "same_sched c (c\<lparr>registry := p\<rparr>)"
  by (simp_all add: same_cores_def same_sched_def coord_simps)

text \<open>The end of a turn keeps the status, or fails a job that is active, when the registry refuses.\<close>

lemma turn_finally_effect:
  assumes j: "map_of (jobs c) i = Some j"
  shows "same_cores c (turn_finally reg now i failure c) \<and> same_sched c (turn_finally reg now i failure c)
    \<or> status_change i FAILED c (turn_finally reg now i failure c) \<and> queue (turn_finally reg now i failure c) = queue c"
proof -
  let ?c1 = "modify_job i (\<lambda>j. j\<lparr>job_approvalWaitScope := False\<rparr>) c"
  have c1: "same_cores c ?c1" "same_sched c ?c1" by (rule modify_same; simp)+
  have tail: "same_cores d (releaseTerminalPrincipals reg (notify i d)) \<and> same_sched d (releaseTerminalPrincipals reg (notify i d))" for d
    by (rule same_status_trans [of _ "notify i d"]) simp_all
  show ?thesis
  proof (cases "reg_setWaitScope reg i None (registry ?c1)")
    case (Inr p)
    let ?c2 = "modify_job i (finalize_job failure) (?c1\<lparr>registry := p\<rparr>)"
    have "same_cores (?c1\<lparr>registry := p\<rparr>) ?c2 \<and> same_sched (?c1\<lparr>registry := p\<rparr>) ?c2" by (intro conjI modify_same) simp_all
    then have "same_cores c ?c2 \<and> same_sched c ?c2" using c1 registry_same [of ?c1 p] same_status_trans by blast
    then have "same_cores c (releaseTerminalPrincipals reg (notify i ?c2)) \<and> same_sched c (releaseTerminalPrincipals reg (notify i ?c2))"
      using tail [of ?c2] by (rule same_status_trans)
    then show ?thesis using Inr by (simp add: turn_finally_def Let_def)
  next
    case (Inl e)
    let ?f = "unexpected_failure now e failure" and ?j = "j\<lparr>job_approvalWaitScope := False\<rparr>"
    have j1: "map_of (jobs ?c1) i = Some ?j" using j by (simp add: coord_simps)
    have eq: "turn_finally reg now i failure c = releaseTerminalPrincipals reg (notify i (modify_job i ?f ?c1))"
      using Inl by (simp add: turn_finally_def Let_def)
    show ?thesis
    proof (cases "isActive (job_status j)")
      case True
      then have "status_change i FAILED ?c1 (modify_job i ?f ?c1)" using modify_status [of ?f ?c1 i ?j] j1 by simp
      moreover have "queue (modify_job i ?f ?c1) = queue c" by (simp add: coord_simps)
      ultimately show ?thesis using eq tail [of "modify_job i ?f ?c1"] same_then_change [OF c1] status_change_same
        by (metis same_sched_def)
    next
      case False
      then have "status_of k (modify_job i ?f ?c1) = status_of k ?c1" for k
        using j by (simp add: status_of_def map_of_modify_job)
      then have "same_cores ?c1 (modify_job i ?f ?c1) \<and> same_sched ?c1 (modify_job i ?f ?c1)"
        by (simp add: same_cores_def same_sched_def coord_simps)
      then show ?thesis using eq tail [of "modify_job i ?f ?c1"] c1 same_status_trans by metis
    qed
  qed
qed

lemma turn_finish_effect:
  assumes "turn_finish reg now i ending a failure c \<noteq> c"
  obtains s turn d where "status_of i c = Some RUNNING" "s \<noteq> RUNNING" "status_change i s c d"
    "turn_finish reg now i ending a failure c = d\<lparr>settling := settling c @ [(i, turn)]\<rparr>"
proof -
  from assms obtain j turn where j: "map_of (jobs c) i = Some j" "job_runPromise j = Some turn" "job_status j = RUNNING"
    by (auto simp: turn_finish_def split: option.splits if_splits)
  let ?r = "turn_result reg now i ending a j c"
  let ?d = "turn_finally reg now i failure ?r"
  have eq: "turn_finish reg now i ending a failure c = ?d\<lparr>settling := settling c @ [(i, turn)]\<rparr>"
    using j by (simp add: turn_finish_def)
  obtain s where s: "s \<noteq> RUNNING" "status_change i s c ?r" using turn_result_change [OF j(1)] by blast
  then have "map_of (jobs ?r) i \<noteq> None" using same_jobs_key [of c ?r i] j by (auto simp: status_change_def)
  then obtain j' where "map_of (jobs ?r) i = Some j'" by auto
  then consider "same_cores ?r ?d \<and> same_sched ?r ?d" | "status_change i FAILED ?r ?d" "queue ?d = queue ?r"
    using turn_finally_effect by blast
  then have "\<exists>s'. s' \<noteq> RUNNING \<and> status_change i s' c ?d"
  proof cases
    case 1
    then show ?thesis using s status_change_same by blast
  next
    case 2
    then show ?thesis using status_change_again [OF s(2) 2(1)] by blast
  qed
  then show thesis using that eq j by (auto simp: status_of_def)
qed

section \<open>The scheduler under every operation\<close>

lemma status_change_sched:
  assumes wf: "sched_wf c" and ch: "status_change i s c c'" and s: "s \<noteq> RUNNING" and r: "status_of i c \<noteq> Some RUNNING"
  shows "slots_wf c'" "queue_wf c'"
proof -
  have st: "statuses c' = (statuses c)(i \<mapsto> s)" and fr: "activeCount c' = activeCount c" "settling c' = settling c"
      "coord_closed c' = coord_closed c" "maxConcurrency c' = maxConcurrency c"
    using ch by (auto simp: status_change_def same_cores_def)
  have "running c' = running c" using running_other [OF st s] r by (simp add: running_def)
  then show "slots_wf c'" using wf fr by (simp add: sched_wf_def slots_wf_def)
  show "queue_wf c'" using wf ch fun_cong [OF st] fr
    by (auto simp: sched_wf_def queue_wf_def status_change_def split: if_splits)
qed

lemma turn_finish_sched:
  assumes wf: "sched_wf c"
  shows "sched_wf (turn_finish reg now i ending a failure c)"
proof (cases "turn_finish reg now i ending a failure c = c")
  case False
  then obtain s turn d where d: "status_of i c = Some RUNNING" "s \<noteq> RUNNING" "status_change i s c d"
    "turn_finish reg now i ending a failure c = d\<lparr>settling := settling c @ [(i, turn)]\<rparr>" by (rule turn_finish_effect)
  let ?d = "d\<lparr>settling := settling c @ [(i, turn)]\<rparr>"
  have st: "statuses d = (statuses c)(i \<mapsto> s)" and fr: "activeCount d = activeCount c" "coord_closed d = coord_closed c"
      "maxConcurrency d = maxConcurrency c"
    using d(3) by (auto simp: status_change_def same_cores_def)
  have "i \<in> running c" using d by (simp add: running_def)
  then have "Suc (card (running d)) = card (running c)"
    using running_other [OF st d(2)] by (metis card_Suc_Diff1 finite_running)
  moreover have "running ?d = running d" by (rule running_cong) (simp add: coord_simps)
  ultimately have "slots_wf ?d" using wf fr by (simp add: sched_wf_def slots_wf_def)
  moreover have "queue_wf ?d" using wf d(3) fun_cong [OF st] fr
    by (auto simp: sched_wf_def queue_wf_def status_change_def coord_simps split: if_splits)
  ultimately show ?thesis using d(4) by (simp add: sched_wf_def)
qed (simp add: wf)

lemma turn_finish_steady: "steady c (turn_finish reg now i ending a failure c)"
proof (cases "turn_finish reg now i ending a failure c = c")
  case False
  then obtain s turn d where d: "status_of i c = Some RUNNING" "status_change i s c d"
    "turn_finish reg now i ending a failure c = d\<lparr>settling := settling c @ [(i, turn)]\<rparr>" by (rule turn_finish_effect)
  then have "steady c d" using status_change_steady by (fastforce simp: isTerminal_def)
  then show ?thesis using d(3) by (simp add: steady_def same_cores_def coord_simps)
qed simp

lemma turn_settle_sched:
  assumes wf: "sched_wf c"
  shows "sched_wf (turn_settle reg now i turn c)"
proof (cases "(i, turn) \<in> set (settling c)")
  case True
  let ?c1 = "c\<lparr>activeCount := activeCount c - 1, settling := remove1 (i, turn) (settling c)\<rparr>"
  let ?c2 = "modify_job i (\<lambda>j. if job_runPromise j = Some turn then j\<lparr>job_runPromise := None\<rparr> else j) ?c1"
  have st: "status_of k ?c2 = status_of k c" for k by (simp add: coord_simps)
  then have "running ?c2 = running c" by (simp add: running_def)
  moreover obtain n where "length (settling c) = Suc n" using True by (cases "settling c") auto
  ultimately have "slots_wf ?c2" using wf True
    by (auto simp: sched_wf_def slots_wf_def coord_simps length_remove1)
  moreover have "queue_wf ?c2" using wf st by (simp add: sched_wf_def queue_wf_def coord_simps)
  ultimately show ?thesis using pump_sched [of ?c2 reg now] True by (simp add: turn_settle_def)
qed (simp add: turn_settle_def wf)

lemma turn_settle_steady: "steady c (turn_settle reg now i turn c)"
proof -
  let ?c1 = "c\<lparr>activeCount := activeCount c - 1, settling := remove1 (i, turn) (settling c)\<rparr>"
  let ?c2 = "modify_job i (\<lambda>j. if job_runPromise j = Some turn then j\<lparr>job_runPromise := None\<rparr> else j) ?c1"
  have "steady c ?c2" by (simp add: steady_def same_cores_def coord_simps)
  then have "steady c (pump reg now ?c2)" using pump_steady steady_trans by blast
  then show ?thesis by (simp add: turn_settle_def)
qed

text \<open>Cancelling a job that is queued or idle.\<close>

lemma stopOne_effect:
  assumes wf: "sched_wf c"
  shows "sched_wf (stopOne reg now failure i c) \<and> steady c (stopOne reg now failure i c)"
proof -
  have cancel: "sched_wf (releaseTerminalPrincipals reg (notify i (modify_job i (cancel_job now l failure) c1)))
      \<and> steady c (releaseTerminalPrincipals reg (notify i (modify_job i (cancel_job now l failure) c1)))"
    if q: "c1 = c\<lparr>queue := q\<rparr>" "set (queue c) - {i} \<subseteq> set q" "queue c = [] \<longrightarrow> q = []" and
      r: "map_of (jobs c) i \<noteq> None" "status_of i c = Some QUEUED \<or> status_of i c = Some IDLE" for c1 q l
  proof -
    let ?m = "modify_job i (cancel_job now l failure) c1"
    have st: "status_of k ?m = (if k = i then Some CANCELLED else status_of k c)" for k
      using r(1) q(1) by (simp add: status_of_modify_job_const coord_simps)
    have "running ?m = running c" using r(2) by (auto simp: running_def st)
    then have "slots_wf ?m" using wf q(1) by (simp add: sched_wf_def slots_wf_def coord_simps)
    moreover have "queue ?m = q" "coord_closed ?m = coord_closed c" using q(1) by (simp_all add: coord_simps)
    then have "queue_wf ?m" using wf q(2) unfolding sched_wf_def queue_wf_def st by auto
    moreover have "settling ?m = [] \<longrightarrow> busy ?m" using wf q by (auto simp: sched_wf_def busy_def coord_simps)
    ultimately have "sched_wf ?m" by (simp add: sched_wf_def)
    moreover have "same_cores c ?m" using q(1) by (simp add: same_cores_def coord_simps)
    then have "steady c ?m" using r(2) by (auto simp: steady_def st isTerminal_def)
    moreover have "same_cores ?m (releaseTerminalPrincipals reg (notify i ?m)) \<and> same_sched ?m (releaseTerminalPrincipals reg (notify i ?m))"
      by (rule same_status_trans [of _ "notify i ?m"]) simp_all
    ultimately show ?thesis by (blast intro: same_sched_wf steady_trans steady_same)
  qed
  have abort: "same_cores c (modify_job i (\<lambda>j. requestAbort (j\<lparr>job_stopRequested := True, job_latestLine := Some ''Stopping''\<rparr>)) c)"
    "same_sched c (modify_job i (\<lambda>j. requestAbort (j\<lparr>job_stopRequested := True, job_latestLine := Some ''Stopping''\<rparr>)) c)"
    by (rule modify_same; simp)+
  show ?thesis
  proof (cases "status_of i c")
    case (Some s)
    then have key: "map_of (jobs c) i \<noteq> None" using status_of_key [OF Some] by auto
    have rm: "set (queue c) - {i} \<subseteq> set (remove1 i (queue c))" using in_set_remove1 by fastforce
    show ?thesis
      using rm cancel [of "c\<lparr>queue := remove1 i (queue c)\<rparr>" "remove1 i (queue c)"] cancel [of c "queue c"] steady_same [OF abort] same_sched_wf [OF abort(2) wf] wf Some key
      by (cases s) (simp_all add: stopOne_def)
  qed (simp add: stopOne_def wf)
qed

text \<open>Messages.\<close>

lemma message_fallback_effect:
  assumes wf: "sched_wf c"
  shows "sched_wf (fst (message_fallback reg now i tk c)) \<and> steady c (fst (message_fallback reg now i tk c))"
proof -
  have more: "same_cores c (modify_job i (\<lambda>j. j\<lparr>job_queuedTasks := job_queuedTasks j @ [tk], job_latestLine := Some ''Queued follow-up''\<rparr>) c)
    \<and> same_sched c (modify_job i (\<lambda>j. j\<lparr>job_queuedTasks := job_queuedTasks j @ [tk], job_latestLine := Some ''Queued follow-up''\<rparr>) c)"
    by (intro conjI modify_same) simp_all
  have idle: ?thesis if idle: "status_of i c = Some IDLE"
  proof -
    obtain j where j: "map_of (jobs c) i = Some j" using status_of_key [OF idle] by auto
    obtain c1 x where p: "promoteFollowUp reg i tk c = (c1, x)" by (cases "promoteFollowUp reg i tk c")
    let ?m = "notify i (modify_job i (\<lambda>j. j\<lparr>job_finishedAt := None\<rparr>) c1)"
    have m: "same_cores c1 ?m \<and> same_sched c1 ?m"
      by (rule same_status_trans [of _ "modify_job i (\<lambda>j. j\<lparr>job_finishedAt := None\<rparr>) c1"]) (auto intro: modify_same)
    show ?thesis
    proof (cases x)
      case None
      then have "status_change i QUEUED c ?m" using promoteFollowUp_effect [OF j p] m by (auto intro: status_change_same)
      then have "slots_wf ?m" "queue_wf ?m" "steady c ?m"
        using status_change_sched [OF wf] status_change_steady [of i QUEUED c ?m] idle by (auto simp: isTerminal_def)
      then have "sched_wf (pump reg now ?m)" "steady c (pump reg now ?m)"
        using pump_sched pump_steady steady_trans by blast+
      then show ?thesis using idle p None by (simp add: message_fallback_def)
    next
      case (Some e)
      then show ?thesis using promoteFollowUp_effect [OF j p] wf idle p
        by (auto simp: message_fallback_def intro: same_sched_wf steady_same)
    qed
  qed
  show ?thesis
  proof (cases "status_of i c")
    case (Some s)
    have act: ?thesis if "isActive s"
    proof -
      let ?m = "notify i (modify_job i (\<lambda>j. j\<lparr>job_queuedTasks := job_queuedTasks j @ [tk], job_latestLine := Some ''Queued follow-up''\<rparr>) c)"
      have "same_cores c ?m \<and> same_sched c ?m" by (rule same_status_trans [OF more]) simp
      then have "sched_wf ?m \<and> steady c ?m" using wf same_sched_wf steady_same by blast
      then show ?thesis using that Some by (cases s) (auto simp: message_fallback_def isActive_def)
    qed
    show ?thesis
    proof (cases "s = IDLE \<or> isActive s")
      case True
      with act idle Some show ?thesis by auto
    next
      case False
      then have "fst (message_fallback reg now i tk c) = c" using Some
        by (cases s) (auto simp: message_fallback_def isActive_def)
      then show ?thesis using wf by simp
    qed
  qed (simp add: message_fallback_def wf)
qed

lemma steering_queued_same: "same_cores c (steering_queued i c) \<and> same_sched c (steering_queued i c)"
  unfolding steering_queued_def
  by (rule same_status_trans [of _ "modify_job i (\<lambda>j. j\<lparr>job_latestLine := Some ''Steering message queued''\<rparr>) c"])
    (auto intro: modify_same)

lemma updateSteering_same:
  "updateSteeringPolicyContext reg j t c = (c', x) \<Longrightarrow> same_cores c c' \<and> same_sched c c'"
  by (auto simp: updateSteeringPolicyContext_def split: sum.splits)

lemma message_effect:
  assumes wf: "sched_wf c"
  shows "sched_wf (fst (message reg caller now i tk c)) \<and> steady c (fst (message reg caller now i tk c))"
proof -
  let ?push = "modify_job i (\<lambda>j. j\<lparr>job_pendingSteering := job_pendingSteering j @ [tk]\<rparr>) c"
  have push: "same_cores c ?push \<and> same_sched c ?push" by (intro conjI modify_same) simp_all
  have quiet: "sched_wf d \<and> steady c d" if "same_cores c d \<and> same_sched c d" for d
    using that wf same_sched_wf steady_same by blast
  show ?thesis
  proof (cases "coord_closed c")
    case False
    show ?thesis
    proof (cases "res_bind (requireManageableJob caller i c) (\<lambda>job. res_bind (requiredText tk ''task'' 100000) (\<lambda>t. Inr (job, t)))")
      case (Inr jt)
      then obtain job where jt: "jt = (job, tk)" by (auto simp: res_bind_Inr dest: requiredText_Inr)
      show ?thesis
      proof (cases "job_status job = RUNNING")
        case True
        obtain c1 x where u: "updateSteeringPolicyContext reg job tk (if job_session job then c else ?push) = (c1, x)"
          using surj_pair by fastforce
        have c1: "same_cores c c1 \<and> same_sched c c1"
          using updateSteering_same [OF u] same_status_trans [OF push] by (cases "job_session job") auto
        then have "same_cores c (steering_queued i c1) \<and> same_sched c (steering_queued i c1)"
          using steering_queued_same same_status_trans by blast
        moreover have "fst (message reg caller now i tk c) \<in> {c1, steering_queued i c1}"
          using u unfolding message_def Inr jt by (cases "job_session job"; cases x) (simp_all add: True False)
        ultimately show ?thesis using quiet [OF c1] quiet [of "steering_queued i c1"] by auto
      next
        case nr: False
        then have "message reg caller now i tk c = message_fallback reg now i tk c"
          unfolding message_def Inr jt by (simp add: False)
        then show ?thesis using message_fallback_effect [OF wf] by simp
      qed
    qed (simp add: message_def False wf)
  qed (simp add: message_def wf)
qed

section \<open>The tree of jobs\<close>

fun core_depth :: "job_core \<Rightarrow> nat" where
  "core_depth (jid, agent, parent, depth, caps, rp) = depth"

fun core_capabilities :: "job_core \<Rightarrow> AgentCapability list" where
  "core_capabilities (jid, agent, parent, depth, caps, rp) = caps"

fun core_parent :: "job_core \<Rightarrow> string option" where
  "core_parent (jid, agent, parent, depth, caps, rp) = parent"

fun core_principal_parent :: "job_core \<Rightarrow> string" where
  "core_principal_parent (jid, agent, parent, depth, caps, rp) = rp"

text \<open>A nested job lies one level below its parent, which is in the table, may delegate, and has every mechanism
  that the job has.\<close>

fun core_wf :: "(string \<Rightarrow> job_core option) \<Rightarrow> nat \<Rightarrow> string \<Rightarrow> job_core \<Rightarrow> bool" where
  "core_wf m limit i (jid, agent, parent, depth, caps, rp) \<longleftrightarrow> jid = i \<and> agent = i \<and> depth \<le> limit \<and>
     (case parent of None \<Rightarrow> depth = 0
      | Some p \<Rightarrow> rp = p \<and> (\<exists>x. m p = Some x \<and> depth = Suc (core_depth x) \<and> delegate \<in> set (mechanisms (core_capabilities x))
          \<and> set (mechanisms caps) \<subseteq> set (mechanisms (core_capabilities x))))"

definition cores_wf :: "'p SubagentCoordinator \<Rightarrow> bool" where
  "cores_wf c \<longleftrightarrow> distinct (keys c) \<and> length (keys c) \<le> maxJobs c
     \<and> (\<forall>i x. core_of c i = Some x \<longrightarrow> core_wf (core_of c) (maxDepth c) i x)"

lemma same_cores_wf: "same_cores c c' \<Longrightarrow> cores_wf c \<Longrightarrow> cores_wf c'"
  by (simp add: same_cores_def cores_wf_def)

lemma core_wfD:
  assumes "cores_wf c" "map_of (jobs c) i = Some j"
  shows "job_id j = i" "job_agentIdentifier j = i" "job_depth j \<le> maxDepth c"
    "job_parentId j = None \<Longrightarrow> job_depth j = 0"
    "job_parentId j = Some p \<Longrightarrow> \<exists>q. map_of (jobs c) p = Some q \<and> job_depth j = Suc (job_depth q)
       \<and> delegate \<in> set (mechanisms (job_capabilities q)) \<and> set (mechanisms (job_capabilities j)) \<subseteq> set (mechanisms (job_capabilities q))"
proof -
  have "core_of c i = Some (job_core j)" using assms(2) by (simp add: core_of_def)
  then have w: "core_wf (core_of c) (maxDepth c) i (job_core j)" using assms(1) unfolding cores_wf_def by blast
  then show "job_id j = i" "job_agentIdentifier j = i" "job_depth j \<le> maxDepth c" "job_parentId j = None \<Longrightarrow> job_depth j = 0"
    by (simp_all add: job_core_def)
  show "job_parentId j = Some p \<Longrightarrow> \<exists>q. map_of (jobs c) p = Some q \<and> job_depth j = Suc (job_depth q)
      \<and> delegate \<in> set (mechanisms (job_capabilities q)) \<and> set (mechanisms (job_capabilities j)) \<subseteq> set (mechanisms (job_capabilities q))"
    using w by (auto simp: job_core_def core_of_def)
qed

lemma job_in_table: "cores_wf c \<Longrightarrow> j \<in> set (map snd (jobs c)) \<Longrightarrow> map_of (jobs c) (job_id j) = Some j"
proof -
  assume wf: "cores_wf c" and "j \<in> set (map snd (jobs c))"
  then obtain i where "(i, j) \<in> set (jobs c)" by auto
  then have "map_of (jobs c) i = Some j" using wf by (simp add: cores_wf_def keys_def)
  then show ?thesis using core_wfD(1) [OF wf] by simp
qed

section \<open>Evicting jobs that have ended\<close>

lemma evict_loop_jobs:
  "\<exists>E \<subseteq> set is. jobs (evict_loop is c) = filter (\<lambda>(k, j). k \<notin> E) (jobs c)"
proof (induction "is" c rule: evict_loop.induct)
  case (2 i "is" c)
  show ?case
  proof (cases "maxJobs c \<le> length (jobs c)")
    case True
    then obtain E where "E \<subseteq> set is" "jobs (evict_loop (i # is) c) = filter (\<lambda>(k, j). k \<notin> E) (od_delete i (jobs c))"
      using 2 by (auto simp: publish_frame)
    moreover have "filter (\<lambda>(k, j). k \<notin> E) (od_delete i (jobs c)) = filter (\<lambda>(k, j). k \<notin> insert i E) (jobs c)"
      unfolding od_delete_def filter_filter by (rule filter_cong) auto
    ultimately show ?thesis by (intro exI [of _ "insert i E"]) auto
  next
    case False
    then show ?thesis by (intro exI [of _ "{}"]) (simp add: case_prod_unfold)
  qed
qed (simp add: case_prod_unfold)

lemma evict_loop_frame:
  "queue (evict_loop is c) = queue c" "maxConcurrency (evict_loop is c) = maxConcurrency c" "maxDepth (evict_loop is c) = maxDepth c"
  "maxJobs (evict_loop is c) = maxJobs c" "activeCount (evict_loop is c) = activeCount c"
  "coord_closed (evict_loop is c) = coord_closed c" "settling (evict_loop is c) = settling c" "registry (evict_loop is c) = registry c"
  by (induction "is" c rule: evict_loop.induct) (simp_all add: publish_frame)

definition evicts :: "string set \<Rightarrow> 'p SubagentCoordinator \<Rightarrow> 'p SubagentCoordinator \<Rightarrow> bool" where
  "evicts E c c' \<longleftrightarrow> E \<subseteq> set (evictable c) \<and> jobs c' = filter (\<lambda>(k, j). k \<notin> E) (jobs c) \<and> queue c' = queue c
     \<and> maxConcurrency c' = maxConcurrency c \<and> maxDepth c' = maxDepth c \<and> maxJobs c' = maxJobs c
     \<and> activeCount c' = activeCount c \<and> coord_closed c' = coord_closed c \<and> settling c' = settling c \<and> registry c' = registry c"

lemma evictTerminalJobs_evicts:
  assumes "evictTerminalJobs c = (c', x)"
  shows "\<exists>E. evicts E c c'" "x = None \<Longrightarrow> length (jobs c') < maxJobs c'"
proof -
  have "evicts {} c c" by (simp add: evicts_def)
  moreover obtain E where "E \<subseteq> set (evictable c)" "jobs (evict_loop (evictable c) c) = filter (\<lambda>(k, j). k \<notin> E) (jobs c)"
    using evict_loop_jobs by blast
  then have "evicts E c (evict_loop (evictable c) c)" by (simp add: evicts_def evict_loop_frame)
  ultimately show "\<exists>E. evicts E c c'" using assms by (auto simp: evictTerminalJobs_def Let_def split: if_splits)
  show "x = None \<Longrightarrow> length (jobs c') < maxJobs c'" using assms
    by (auto simp: evictTerminalJobs_def Let_def split: if_splits)
qed

lemma evicts_lookup: "evicts E c c' \<Longrightarrow> map_of (jobs c') k = (if k \<in> E then None else map_of (jobs c) k)"
  using map_of_filter_key [of "\<lambda>k. k \<notin> E" "jobs c" k] by (simp add: evicts_def)

lemma evicted_job:
  assumes "cores_wf c" "evicts E c c'" "i \<in> E"
  obtains j where "map_of (jobs c) i = Some j" "isTerminal (job_status j)" "job_principalReleased j"
    "\<And>k j'. map_of (jobs c) k = Some j' \<Longrightarrow> job_parentId j' \<noteq> Some i"
proof -
  have "i \<in> set (evictable c)" using assms by (auto simp: evicts_def)
  then obtain j where j: "j \<in> set (map snd (jobs c))" "job_id j = i" "isTerminal (job_status j)" "job_principalReleased j"
    and leaf: "\<And>k. k \<in> set (map snd (jobs c)) \<Longrightarrow> \<not> isDescendant k i (jobs c)"
    by (auto simp: evictable_def)
  have "job_parentId j' \<noteq> Some i" if "map_of (jobs c) k = Some j'" for k j'
  proof -
    have "j' \<in> set (map snd (jobs c))" using map_of_SomeD [OF that] by force
    from leaf [OF this] show ?thesis by (cases "job_depth j'") (auto simp: isDescendant_def)
  qed
  then show thesis using that [of j] job_in_table [OF assms(1) j(1)] j by simp
qed

lemma evicts_status:
  assumes "cores_wf c" "evicts E c c'"
  shows "status_of k c' = (if k \<in> E then None else status_of k c)" "running c' = running c"
    "status_of k c' = Some QUEUED \<Longrightarrow> status_of k c = Some QUEUED"
proof -
  show st: "status_of k c' = (if k \<in> E then None else status_of k c)" for k
    using evicts_lookup [OF assms(2)] by (simp add: status_of_def)
  have "status_of k c \<noteq> Some RUNNING" if "k \<in> E" for k
    by (rule evicted_job [OF assms that]) (auto simp: status_of_def isTerminal_def)
  then show "running c' = running c" by (auto simp: running_def st)
  show "status_of k c' = Some QUEUED \<Longrightarrow> status_of k c = Some QUEUED" by (simp add: st split: if_splits)
qed

lemma evicts_sched: "cores_wf c \<Longrightarrow> evicts E c c' \<Longrightarrow> sched_wf c \<Longrightarrow> sched_wf c'"
  using evicts_status [of c E c'] by (simp add: sched_wf_def slots_wf_def queue_wf_def busy_def evicts_def)

lemma evicts_cores:
  assumes wf: "cores_wf c" and ev: "evicts E c c'"
  shows "cores_wf c'"
proof -
  have core: "core_of c' k = (if k \<in> E then None else core_of c k)" for k
    using evicts_lookup [OF ev] by (simp add: core_of_def)
  have "core_wf (core_of c') (maxDepth c') i x" if "core_of c' i = Some x" for i x
  proof -
    from that core have x: "core_of c i = Some x" by (simp split: if_splits)
    then have w: "core_wf (core_of c) (maxDepth c) i x" using wf unfolding cores_wf_def by blast
    have "p \<notin> E" if "core_parent x = Some p" for p
    proof
      assume "p \<in> E"
      obtain j where j: "map_of (jobs c) i = Some j" "x = job_core j" using x by (auto simp: core_of_def)
      with evicted_job [OF wf ev \<open>p \<in> E\<close>] have "job_parentId j \<noteq> Some p" by metis
      with j that show False by (simp add: job_core_def)
    qed
    with w show ?thesis using ev by (cases x) (auto simp: core evicts_def split: option.splits)
  qed
  moreover have "keys c' = filter (\<lambda>k. k \<notin> E) (keys c)"
    using ev by (simp add: keys_def evicts_def filter_map o_def case_prod_unfold)
  moreover have "length (filter (\<lambda>k. k \<notin> E) (keys c)) \<le> maxJobs c'"
    using wf ev le_trans [OF length_filter_le] unfolding cores_wf_def evicts_def by metis
  ultimately show ?thesis using wf by (simp add: cores_wf_def)
qed

section \<open>Spawning\<close>

text \<open>The table, the queue and the registry after a job was accepted, before the queue is pumped.\<close>

definition admit :: "string \<Rightarrow> DelegationContext option \<Rightarrow> SubagentRequest \<Rightarrow> AgentCapability list \<Rightarrow> int \<Rightarrow> 'p
      \<Rightarrow> 'p SubagentCoordinator \<Rightarrow> 'p SubagentCoordinator" where
  "admit i caller request caps now p c = notify i (c\<lparr>registry := p,
     jobs := od_set i (new_job i caller request caps now) (jobs c), queue := queue c @ [i]\<rparr>)"

lemma validateRequest_facts:
  "validateRequest r = Inr r' \<Longrightarrow> req_parentAgentIdentifier r' = req_parentAgentIdentifier r"
  by (auto simp: validateRequest_def res_bind_Inr dest: requiredText_Inr)

lemma validateNestedSpawn_facts:
  assumes "validateNestedSpawn p r caps = Inr u"
  shows "req_parentAgentIdentifier r = ctx_agentIdentifier p" "delegate \<in> set (ctx_mechanisms p)"
    "set (mechanisms caps) \<subseteq> set (ctx_mechanisms p)"
  using assms by (auto simp: validateNestedSpawn_def find_None_iff split: if_splits option.splits)

lemma spawn_effect:
  fixes reg :: "'p PolicyPrincipalRegistry"
  assumes "spawn reg caller aborted request uuid now c = (c', x)"
  obtains (refused) e where "c' = c" "x = Inl e"
    | (evicted) e y where "evictTerminalJobs c = (c', y)" "x = Inl e"
    | (accepted) c1 req caps p where "evictTerminalJobs c = (c1, None)" "x = Inr (''subagent-'' @ uuid)" "\<not> coord_closed c"
      "reg_register reg (''subagent-'' @ uuid) (req_parentAgentIdentifier req) (policyAreas caps)
         \<lparr>role = req_role req, task = req_task req\<rparr> (registry c1) = Inr p"
      "c' = pump reg now (admit (''subagent-'' @ uuid) caller req caps now p c1)"
      "(case caller of None \<Rightarrow> 0 | Some ctx \<Rightarrow> Suc (ctx_depth ctx)) \<le> maxDepth c"
      "\<And>ctx. caller = Some ctx \<Longrightarrow> req_parentAgentIdentifier req = ctx_agentIdentifier ctx
         \<and> delegate \<in> set (ctx_mechanisms ctx) \<and> set (mechanisms caps) \<subseteq> set (ctx_mechanisms ctx)"
proof (cases "coord_closed c \<or> aborted")
  case True
  then show thesis using assms refused by (auto simp: spawn_def split: if_splits)
next
  case False
  define v where "v = res_bind (validateRequest request) (\<lambda>normalized.
     res_bind (new_AgentCapabilitySet (req_capabilities normalized)) (\<lambda>capabilities.
     let depth = (case caller of None \<Rightarrow> 0 | Some p \<Rightarrow> Suc (ctx_depth p)) in
     if maxDepth c < depth
     then Inl (''Subagent delegation depth '' @ show_nat depth @ '' exceeds the maximum '' @ show_nat (maxDepth c))
     else res_bind (case caller of None \<Rightarrow> Inr () | Some p \<Rightarrow> validateNestedSpawn p normalized capabilities)
       (\<lambda>_. Inr (normalized, capabilities))))"
  note sp = assms [unfolded spawn_def v_def [symmetric]]
  show thesis
  proof (cases v)
    case (Inl e)
    with sp False refused show thesis by auto
  next
    case (Inr rc)
    obtain req caps where rc: "rc = (req, caps)" by (cases rc)
    have d: "(case caller of None \<Rightarrow> 0 | Some ctx \<Rightarrow> Suc (ctx_depth ctx)) \<le> maxDepth c"
      and n: "\<And>ctx. caller = Some ctx \<Longrightarrow> \<exists>u. validateNestedSpawn ctx req caps = Inr u"
      using Inr rc by (auto simp: v_def res_bind_Inr Let_def split: if_splits)
    obtain c1 y where ev: "evictTerminalJobs c = (c1, y)" by (cases "evictTerminalJobs c")
    show thesis
    proof (cases y)
      case (Some e)
      with sp Inr rc ev False evicted show thesis by auto
    next
      case None
      show thesis
      proof (cases "reg_register reg (''subagent-'' @ uuid) (req_parentAgentIdentifier req) (policyAreas caps)
            \<lparr>role = req_role req, task = req_task req\<rparr> (registry c1)")
        case (Inl e)
        with sp Inr rc ev False None evicted show thesis by (auto simp: Let_def)
      next
        case reg: (Inr p)
        have c': "c' = pump reg now (admit (''subagent-'' @ uuid) caller req caps now p c1)" "x = Inr (''subagent-'' @ uuid)"
          using sp Inr rc ev False None reg by (auto simp: Let_def admit_def)
        show thesis
        proof (rule accepted [OF _ c'(2) _ reg c'(1) d])
          show "evictTerminalJobs c = (c1, None)" "\<not> coord_closed c" using ev None False by simp_all
          show "req_parentAgentIdentifier req = ctx_agentIdentifier ctx \<and> delegate \<in> set (ctx_mechanisms ctx)
              \<and> set (mechanisms caps) \<subseteq> set (ctx_mechanisms ctx)" if "caller = Some ctx" for ctx
            using n [OF that] validateNestedSpawn_facts by blast
        qed
      qed
    qed
  qed
qed

end
