(* ===== verification/Subagent_Principals.thy ===== *)
theory Subagent_Principals
  imports Subagent_Invariant
begin

text \<open>
  The coordinator over time: its step relation, the interface it needs of the registry of policy principals, and the
  invariant that every step keeps for every registry with these laws.
\<close>

section \<open>Steps\<close>

text \<open>A caller is the session of a job of the table, or the root session.\<close>

definition caller_wf :: "DelegationContext option \<Rightarrow> 'p SubagentCoordinator \<Rightarrow> bool" where
  "caller_wf caller c \<longleftrightarrow> (case caller of None \<Rightarrow> True
     | Some ctx \<Rightarrow> (\<exists>j. map_of (jobs c) (ctx_jobId ctx) = Some j \<and> ctx = delegation_context j))"

text \<open>Identifiers are random and taken to be fresh; \<open>others\<close> is what the rest of the program does to the registry.\<close>

inductive coordinator_step :: "'p PolicyPrincipalRegistry \<Rightarrow> ('p \<Rightarrow> 'p \<Rightarrow> bool) \<Rightarrow> 'p SubagentCoordinator \<Rightarrow> 'p SubagentCoordinator \<Rightarrow> bool"
  for reg others where
  step_spawn: "caller_wf caller c \<Longrightarrow> ''subagent-'' @ uuid \<notin> set (keys c) \<Longrightarrow>
     coordinator_step reg others c (fst (spawn reg caller aborted request uuid now c))"
| step_message: "coordinator_step reg others c (fst (message reg caller now i tk c))"
| step_steered: "coordinator_step reg others c (fst (message_steered reg now accepted i tk c))"
| step_session: "coordinator_step reg others c (session_created i selection c)"
| step_update: "coordinator_step reg others c (turn_update i line output c)"
| step_steering: "coordinator_step reg others c (steering_sent i answers c)"
| step_timeout: "coordinator_step reg others c (turn_timeout i c)"
| step_finish: "coordinator_step reg others c (turn_finish reg now i ending abortFailure failure c)"
| step_settle: "coordinator_step reg others c (turn_settle reg now i turn c)"
| step_stopOne: "coordinator_step reg others c (stopOne reg now failure i c)"
| step_end_stop: "coordinator_step reg others c (end_stop reg c)"
| step_begin_close: "coordinator_step reg others c (begin_close c)"
| step_end_close: "coord_closed c \<Longrightarrow> coordinator_step reg others c (end_close reg c)"
| step_others: "others (registry c) p \<Longrightarrow> coordinator_step reg others c (c\<lparr>registry := p\<rparr>)"

section \<open>The scheduler and the table under a step\<close>

lemma fresh_key: "i \<notin> set (keys c) \<longleftrightarrow> map_of (jobs c) i = None"
  using in_keys by blast

lemma admit_effect:
  assumes "i \<notin> set (keys c)"
  shows "keys (admit i caller req caps now p c) = keys c @ [i]"
    "map_of (jobs (admit i caller req caps now p c)) = (map_of (jobs c))(i \<mapsto> new_job i caller req caps now)"
    "queue (admit i caller req caps now p c) = queue c @ [i]" "registry (admit i caller req caps now p c) = p"
    "settling (admit i caller req caps now p c) = settling c" "activeCount (admit i caller req caps now p c) = activeCount c"
    "coord_closed (admit i caller req caps now p c) = coord_closed c" "maxJobs (admit i caller req caps now p c) = maxJobs c"
    "maxDepth (admit i caller req caps now p c) = maxDepth c" "maxConcurrency (admit i caller req caps now p c) = maxConcurrency c"
  using assms by (simp_all add: admit_def coord_simps) (simp add: keys_def keys_od_set_new)

lemma admit_status:
  assumes "i \<notin> set (keys c)"
  shows "status_of k (admit i caller req caps now p c) = (if k = i then Some QUEUED else status_of k c)"
  using admit_effect(2) [OF assms] by (simp add: status_of_def new_job_def)

lemma admit_sched:
  assumes new: "i \<notin> set (keys c)" and wf: "sched_wf c"
  shows "slots_wf (admit i caller req caps now p c)" "queue_wf (admit i caller req caps now p c)"
proof -
  let ?a = "admit i caller req caps now p c"
  have "status_of i c = None" using new by (simp add: fresh_key status_of_def)
  then have "running ?a = running c" by (auto simp: running_def admit_status [OF new])
  then show "slots_wf ?a" using wf by (simp add: sched_wf_def slots_wf_def admit_effect [OF new])
  show "queue_wf ?a" using wf by (auto simp: sched_wf_def queue_wf_def admit_effect [OF new] admit_status [OF new] split: if_splits)
qed

lemma admit_core:
  assumes "i \<notin> set (keys c)"
  shows "core_of (admit i caller req caps now p c) = (core_of c)(i \<mapsto> job_core (new_job i caller req caps now))"
  using admit_effect(2) [OF assms] by (simp add: core_of_def fun_eq_iff)

lemma core_wf_mono: "core_wf m d i x \<Longrightarrow> m i' = None \<Longrightarrow> core_wf (m(i' \<mapsto> y)) d i x"
  by (cases x) (fastforce split: option.splits)

lemma admit_cores:
  assumes wf: "cores_wf c" and new: "i \<notin> set (keys c)" and room: "length (keys c) < maxJobs c"
    and depth: "(case caller of None \<Rightarrow> 0 | Some ctx \<Rightarrow> Suc (ctx_depth ctx)) \<le> maxDepth c"
    and parent: "\<And>ctx. caller = Some ctx \<Longrightarrow> req_parentAgentIdentifier req = ctx_agentIdentifier ctx
         \<and> delegate \<in> set (ctx_mechanisms ctx) \<and> set (mechanisms caps) \<subseteq> set (ctx_mechanisms ctx)"
    and caller: "caller_wf caller c"
  shows "cores_wf (admit i caller req caps now p c)"
proof -
  let ?a = "admit i caller req caps now p c"
  have none: "core_of c i = None" using new by (simp add: fresh_key core_of_def)
  have old: "core_wf (core_of ?a) (maxDepth ?a) k x" if "core_of c k = Some x" for k x
  proof -
    have "core_wf (core_of c) (maxDepth c) k x" using wf that unfolding cores_wf_def by blast
    then show ?thesis using core_wf_mono none by (simp only: admit_core [OF new] admit_effect(9) [OF new])
  qed
  have "core_wf (core_of ?a) (maxDepth ?a) i (job_core (new_job i caller req caps now))"
  proof (cases caller)
    case None
    then show ?thesis using depth by (simp add: job_core_def new_job_def)
  next
    case (Some ctx)
    then obtain j where j: "map_of (jobs c) (job_id j) = Some j" "ctx = delegation_context j"
      using caller by (auto simp: caller_wf_def delegation_context_def)
    then have "job_id j \<noteq> i" "job_agentIdentifier j = job_id j"
      using none core_wfD [OF wf j(1)] by (auto simp: core_of_def)
    moreover have "core_of ?a (job_id j) = Some (job_core j)"
      using j(1) calculation(1) by (simp add: admit_core [OF new]) (simp add: core_of_def)
    ultimately show ?thesis using depth parent [OF Some] unfolding Some j(2)
      by (simp add: job_core_def [of "new_job _ _ _ _ _"] new_job_def admit_effect(9) [OF new] delegation_context_def)
        (simp add: job_core_def)
  qed
  then have "core_wf (core_of ?a) (maxDepth ?a) k x" if "core_of ?a k = Some x" for k x
    using that old [of k x] admit_core [OF new, of caller req caps now p] by (cases "k = i") simp_all
  then show ?thesis using wf new room unfolding cores_wf_def by (simp add: admit_effect [OF new])
qed

section \<open>The interface of the registry\<close>

text \<open>\<open>tree\<close> gives the parent of every registered principal.\<close>

locale principal_registry =
  fixes reg :: "'p PolicyPrincipalRegistry" and tree :: "'p \<Rightarrow> string \<Rightarrow> string option option" and ok :: "'p \<Rightarrow> bool"
  assumes register_law: "ok p \<Longrightarrow> i \<noteq> [] \<Longrightarrow> reg_register reg i q areas ctx p = Inr p' \<Longrightarrow>
      ok p' \<and> tree p i = None \<and> tree p q \<noteq> None \<and> tree p' = (tree p)(i \<mapsto> Some q)"
    and remove_law: "ok p \<Longrightarrow> reg_remove reg i p = Inr p' \<Longrightarrow> ok p' \<and> tree p' = (tree p)(i := None)"
    and update_law: "ok p \<Longrightarrow> reg_updateTask reg i tk p = Inr p' \<Longrightarrow> ok p' \<and> tree p' = tree p"
    and scope_law: "ok p \<Longrightarrow> reg_setWaitScope reg i scope p = Inr p' \<Longrightarrow> ok p' \<and> tree p' = tree p"

text \<open>The principal of a job is registered, under the parent its request names, until it is released; only a job
  that has ended is released.\<close>

definition principal_ok :: "('p \<Rightarrow> string \<Rightarrow> string option option) \<Rightarrow> 'p \<Rightarrow> string \<Rightarrow> SubagentJob \<Rightarrow> bool" where
  "principal_ok tree p i j \<longleftrightarrow>
     tree p i = (if job_principalReleased j then None else Some (Some (req_parentAgentIdentifier (job_request j))))
     \<and> (job_principalReleased j \<longrightarrow> isTerminal (job_status j))"

definition principals_wf :: "('p \<Rightarrow> string \<Rightarrow> string option option) \<Rightarrow> ('p \<Rightarrow> bool) \<Rightarrow> 'p SubagentCoordinator \<Rightarrow> bool" where
  "principals_wf tree ok c \<longleftrightarrow> ok (registry c) \<and> (\<forall>i j. map_of (jobs c) i = Some j \<longrightarrow> principal_ok tree (registry c) i j)"

definition unreleased :: "string \<Rightarrow> 'p SubagentCoordinator \<Rightarrow> bool" where
  "unreleased i c \<longleftrightarrow> (\<forall>j. map_of (jobs c) i = Some j \<longrightarrow> \<not> job_principalReleased j)"

lemma principals_cong:
  "jobs c' = jobs c \<Longrightarrow> registry c' = registry c \<Longrightarrow> principals_wf tree ok c' = principals_wf tree ok c"
  "jobs c' = jobs c \<Longrightarrow> unreleased i c' = unreleased i c"
  by (simp_all add: principals_wf_def unreleased_def)

lemma principals_frame [simp]:
  "principals_wf tree ok (notify i c) = principals_wf tree ok c" "principals_wf tree ok (publish x c) = principals_wf tree ok c"
  "principals_wf tree ok (c\<lparr>queue := q\<rparr>) = principals_wf tree ok c"
  "principals_wf tree ok (c\<lparr>settling := s\<rparr>) = principals_wf tree ok c"
  "principals_wf tree ok (c\<lparr>activeCount := n\<rparr>) = principals_wf tree ok c"
  "principals_wf tree ok (c\<lparr>next_turn := n\<rparr>) = principals_wf tree ok c"
  "principals_wf tree ok (c\<lparr>listening := b\<rparr>) = principals_wf tree ok c"
  "principals_wf tree ok (c\<lparr>coord_closed := b\<rparr>) = principals_wf tree ok c"
  "unreleased k (notify i c) = unreleased k c" "unreleased k (c\<lparr>queue := q\<rparr>) = unreleased k c"
  "unreleased k (c\<lparr>settling := s\<rparr>) = unreleased k c" "unreleased k (c\<lparr>activeCount := n\<rparr>) = unreleased k c"
  "unreleased k (c\<lparr>next_turn := n\<rparr>) = unreleased k c" "unreleased k (c\<lparr>registry := p\<rparr>) = unreleased k c"
  by (simp_all add: principals_wf_def unreleased_def coord_simps)

lemma core_principal: "job_core j' = job_core j \<Longrightarrow> req_parentAgentIdentifier (job_request j') = req_parentAgentIdentifier (job_request j)"
  by (simp add: job_core_def)

lemma principals_modify:
  assumes "principals_wf tree ok c" "\<And>j. job_core (f j) = job_core j" "\<And>j. job_principalReleased (f j) = job_principalReleased j"
    "unreleased i c \<or> (\<forall>j. job_status (f j) = job_status j)"
  shows "principals_wf tree ok (modify_job i f c)"
proof -
  have "principal_ok tree (registry c) i (f j)" if "map_of (jobs c) i = Some j" for j
  proof -
    have "principal_ok tree (registry c) i j" using assms(1) that by (simp add: principals_wf_def)
    then show ?thesis using assms(3,4) that core_principal [OF assms(2)] by (auto simp: principal_ok_def unreleased_def)
  qed
  then show ?thesis using assms(1) by (auto simp: principals_wf_def coord_simps split: if_splits)
qed

lemma principals_inert [simp]:
  assumes "\<And>j. job_core (f j) = job_core j" "\<And>j. job_principalReleased (f j) = job_principalReleased j"
    "\<And>j. job_status (f j) = job_status j" "principals_wf tree ok c"
  shows "principals_wf tree ok (modify_job i f c)"
  using assms by (intro principals_modify) simp_all

lemma unreleased_modify [simp]:
  assumes "\<And>j. job_principalReleased (f j) = job_principalReleased j" "unreleased k c"
  shows "unreleased k (modify_job i f c)"
  using assms by (auto simp: unreleased_def coord_simps split: if_splits)

lemma principals_registry:
  assumes "principals_wf tree ok c" "ok p \<and> tree p = tree (registry c)"
  shows "principals_wf tree ok (c\<lparr>registry := p\<rparr>)"
  using assms by (simp add: principals_wf_def principal_ok_def)

lemma principals_ok: "principals_wf tree ok c \<Longrightarrow> ok (registry c)"
  by (simp add: principals_wf_def)

lemma active_unreleased: "principals_wf tree ok c \<Longrightarrow> status_of i c = Some s \<Longrightarrow> \<not> isTerminal s \<Longrightarrow> unreleased i c"
  by (auto simp: principals_wf_def principal_ok_def unreleased_def status_of_def)

definition coordinator_wf :: "('p \<Rightarrow> string \<Rightarrow> string option option) \<Rightarrow> ('p \<Rightarrow> bool) \<Rightarrow> 'p SubagentCoordinator \<Rightarrow> bool" where
  "coordinator_wf tree ok c \<longleftrightarrow> sched_wf c \<and> cores_wf c \<and> principals_wf tree ok c"

lemma evicts_principals: "evicts E c c' \<Longrightarrow> principals_wf tree ok c \<Longrightarrow> principals_wf tree ok c'"
  using evicts_lookup [of E c c'] by (simp add: principals_wf_def evicts_def split: if_splits)

lemma evicts_wf: "evicts E c c' \<Longrightarrow> coordinator_wf tree ok c \<Longrightarrow> coordinator_wf tree ok c'"
  using evicts_sched evicts_cores evicts_principals unfolding coordinator_wf_def by blast

context principal_registry
begin

abbreviation pw :: "'p SubagentCoordinator \<Rightarrow> bool" where
  "pw \<equiv> principals_wf tree ok"

lemma registry_scope: "pw c \<Longrightarrow> reg_setWaitScope reg i scope (registry c) = Inr p \<Longrightarrow> pw (c\<lparr>registry := p\<rparr>)"
  using scope_law principals_ok principals_registry by metis

lemma registry_update: "pw c \<Longrightarrow> reg_updateTask reg i tk (registry c) = Inr p \<Longrightarrow> pw (c\<lparr>registry := p\<rparr>)"
  using update_law principals_ok principals_registry by metis

lemma release_pass_principals:
  assumes "release_pass reg is att r c = (att', r', c')" "pw c" "\<forall>i \<in> set is. \<exists>s. status_of i c = Some s \<and> isTerminal s"
  shows "pw c'"
  using assms
proof (induction "is" arbitrary: att r c)
  case (Cons i "is")
  let ?fail = "\<lambda>e. notify i (modify_job i (\<lambda>j. appendJobError (lifecycleFailure j ''policy-principal release'' e) j) c)"
  let ?rel = "\<lambda>p. modify_job i (\<lambda>j. j\<lparr>job_principalReleased := True\<rparr>) (c\<lparr>registry := p\<rparr>)"
  have st: "status_of k (?fail e) = status_of k c" "status_of k (?rel p) = status_of k c" for e p k
    by (simp_all add: coord_simps)
  have t: "\<forall>i \<in> set is. \<exists>s. status_of i c = Some s \<and> isTerminal s" using Cons.prems(3) by simp
  consider "has_retained_children i c" | e where "\<not> has_retained_children i c" "reg_remove reg i (registry c) = Inl e"
    | p where "\<not> has_retained_children i c" "reg_remove reg i (registry c) = Inr p" by (cases "reg_remove reg i (registry c)") auto
  then show ?case
  proof cases
    case 1
    then show ?thesis using Cons t by simp
  next
    case 2
    have "pw (?fail e)" using Cons.prems(2) by simp
    then show ?thesis using Cons.IH [of "i # att" r "?fail e"] Cons.prems 2 t by (simp add: st)
  next
    case 3
    have p: "ok p \<and> tree p = (tree (registry c))(i := None)" using remove_law principals_ok [OF Cons.prems(2)] 3 by blast
    have "isTerminal (job_status j)" if "map_of (jobs c) i = Some j" for j
      using that Cons.prems(3) by (auto simp: status_of_def)
    then have "pw (?rel p)" using Cons.prems(2) p by (auto simp: principals_wf_def principal_ok_def coord_simps split: if_splits)
    then show ?thesis using Cons.IH [of "i # att" True "?rel p"] Cons.prems 3 t by (simp add: st)
  qed
qed simp

lemma release_loop_principals:
  assumes "cores_wf c" "pw c"
  shows "pw (release_loop n reg att c)"
  using assms
proof (induction n arbitrary: att c)
  case (Suc n)
  obtain att' r c' where p: "release_pass reg (release_candidates att c) att False c = (att', r, c')" by (metis prod_cases3)
  have "\<forall>i \<in> set (release_candidates att c). \<exists>s. status_of i c = Some s \<and> isTerminal s"
    using job_in_table [OF Suc.prems(1)] by (auto simp: release_candidates_def status_of_def)
  then have "pw c'" using release_pass_principals [OF p Suc.prems(2)] by blast
  moreover have "cores_wf c'" using release_pass_frame [OF p] Suc.prems(1) same_cores_wf by blast
  ultimately show ?case using Suc.IH p by simp
qed simp

lemma releaseTerminalPrincipals_principals: "cores_wf c \<Longrightarrow> pw c \<Longrightarrow> pw (releaseTerminalPrincipals reg c)"
  unfolding releaseTerminalPrincipals_def by (rule release_loop_principals)

lemma begin_turn_principals:
  assumes "pw c" "unreleased i c"
  shows "pw (begin_turn reg now i c)"
proof -
  let ?c1 = "notify i (modify_job i (start_job now (next_turn c)) (c\<lparr>activeCount := Suc (activeCount c), next_turn := Suc (next_turn c)\<rparr>))"
  have "pw ?c1" using assms by (simp add: principals_modify)
  then show ?thesis using registry_scope [of ?c1] by (simp add: begin_turn_def Let_def split: sum.splits)
qed

lemma pump_principals: "pw c \<Longrightarrow> pw (pump reg now c)"
proof -
  have "pw c \<Longrightarrow> pw (pump_queue reg now is c)" for "is"
  proof (induction "is" arbitrary: c)
    case (Cons i "is")
    have "status_of i c = Some QUEUED \<Longrightarrow> unreleased i c"
      using active_unreleased [OF Cons.prems] by (simp add: isTerminal_def)
    with Cons begin_turn_principals show ?case by simp
  qed simp
  then show "pw c \<Longrightarrow> pw (pump reg now c)" by (simp add: pump_def)
qed

lemma promoteFollowUp_principals:
  assumes "pw c" "unreleased i c" "promoteFollowUp reg i tk c = (c', x)"
  shows "pw c' \<and> unreleased i c'"
proof -
  let ?c1 = "modify_job i (\<lambda>j. j\<lparr>job_request := (job_request j)\<lparr>req_task := tk\<rparr>\<rparr>) c"
  have c1: "pw ?c1" "unreleased i ?c1" using assms by simp_all
  show ?thesis
  proof (cases "reg_updateTask reg i tk (registry ?c1)")
    case (Inr p)
    have "pw (?c1\<lparr>registry := p\<rparr>)" using registry_update [OF c1(1) Inr] .
    then show ?thesis using assms(3) Inr c1 by (auto simp: promoteFollowUp_def Let_def intro!: principals_modify)
  qed (use assms(3) c1 in \<open>auto simp: promoteFollowUp_def Let_def\<close>)
qed

lemma fail_turn_principals: "pw c \<Longrightarrow> unreleased i c \<Longrightarrow> pw (modify_job i (fail_turn now e a) c) \<and> unreleased i (modify_job i (fail_turn now e a) c)"
  by (simp add: principals_modify)

lemma turn_result_principals:
  assumes "pw c" "unreleased i c"
  shows "pw (turn_result reg now i ending a j c) \<and> unreleased i (turn_result reg now i ending a j c)"
proof (cases ending)
  case (Inl e)
  then show ?thesis using fail_turn_principals [OF assms] by (simp add: turn_result_def)
next
  case (Inr out)
  define c1 where "c1 = modify_job i (\<lambda>j. j\<lparr>job_output := Some (boundedOutput out),
      job_latestLine := Some (lastMeaningfulLine out), job_turns := Suc (job_turns j)\<rparr>) c"
  have c1: "pw c1" "unreleased i c1" unfolding c1_def using assms by simp_all
  consider (aborted) "job_controller j = Some True" | (idle) "job_controller j \<noteq> Some True" "job_queuedTasks j = []"
    | (more) tk tks where "job_controller j \<noteq> Some True" "job_queuedTasks j = tk # tks" by (cases "job_queuedTasks j") auto
  then show ?thesis
  proof cases
    case aborted
    then show ?thesis using fail_turn_principals [OF assms] by (simp add: turn_result_def Inr)
  next
    case idle
    then show ?thesis using c1 by (simp add: turn_result_def Inr c1_def [symmetric] principals_modify)
  next
    case more
    let ?c2 = "modify_job i (\<lambda>j. j\<lparr>job_queuedTasks := tks\<rparr>) c1"
    obtain c3 x where p: "promoteFollowUp reg i tk ?c2 = (c3, x)" by (cases "promoteFollowUp reg i tk ?c2")
    have "pw c3 \<and> unreleased i c3" using c1 by (intro promoteFollowUp_principals [OF _ _ p]) simp_all
    then show ?thesis using fail_turn_principals [of c3 i] more p
      by (cases x) (simp_all add: turn_result_def Inr c1_def [symmetric])
  qed
qed

lemma turn_finally_principals:
  assumes "pw c" "unreleased i c" "cores_wf c"
  shows "pw (turn_finally reg now i failure c)"
proof -
  let ?c1 = "modify_job i (\<lambda>j. j\<lparr>job_approvalWaitScope := False\<rparr>) c"
  define d where "d = (case reg_setWaitScope reg i None (registry ?c1) of
       Inl e \<Rightarrow> modify_job i (unexpected_failure now e failure) ?c1
     | Inr p \<Rightarrow> modify_job i (finalize_job failure) (?c1\<lparr>registry := p\<rparr>))"
  have c1: "pw ?c1" "unreleased i ?c1" using assms by simp_all
  then have "pw d" using registry_scope [OF c1(1)]
    by (auto simp: d_def split: sum.splits intro!: principals_modify)
  moreover have "same_cores c d" unfolding d_def by (simp add: same_cores_def coord_simps split: sum.splits)
  then have "cores_wf (notify i d)" using assms(3) same_cores_wf [OF same_cores_trans [OF _ notify_same(1)]] by blast
  ultimately show ?thesis
    using releaseTerminalPrincipals_principals [of "notify i d"] by (simp add: turn_finally_def Let_def d_def)
qed

lemma turn_finish_principals:
  assumes "pw c" "cores_wf c"
  shows "pw (turn_finish reg now i ending a failure c)"
proof (cases "\<exists>j turn. map_of (jobs c) i = Some j \<and> job_runPromise j = Some turn \<and> job_status j = RUNNING")
  case True
  then obtain j turn where j: "map_of (jobs c) i = Some j" "job_runPromise j = Some turn" "job_status j = RUNNING" by blast
  let ?r = "turn_result reg now i ending a j c"
  have "unreleased i c" using active_unreleased [OF assms(1), of i RUNNING] j by (simp add: status_of_def isTerminal_def)
  then have "pw ?r" "unreleased i ?r" using turn_result_principals [OF assms(1)] by blast+
  moreover have "cores_wf ?r" using turn_result_change [OF j(1)] assms(2) same_cores_wf unfolding status_change_def by blast
  ultimately show ?thesis using turn_finally_principals j by (simp add: turn_finish_def)
next
  case False
  then have "turn_finish reg now i ending a failure c = c" by (auto simp: turn_finish_def split: option.splits)
  then show ?thesis using assms by simp
qed

lemma turn_settle_principals: "pw c \<Longrightarrow> pw (turn_settle reg now i turn c)"
  by (simp add: turn_settle_def pump_principals)

lemma cancel_principals:
  assumes "pw c" "cores_wf c" "unreleased i c"
  shows "pw (releaseTerminalPrincipals reg (notify i (modify_job i (cancel_job now l failure) c)))"
proof -
  have "cores_wf (notify i (modify_job i (cancel_job now l failure) c))"
    using assms(2) by (rule same_cores_wf [rotated]) (simp add: same_cores_def coord_simps)
  then show ?thesis using assms by (intro releaseTerminalPrincipals_principals) (simp_all add: principals_modify)
qed

lemma stopOne_principals:
  assumes "pw c" "cores_wf c"
  shows "pw (stopOne reg now failure i c)"
proof (cases "status_of i c")
  case (Some s)
  have "cores_wf (c\<lparr>queue := q\<rparr>)" for q using assms(2) by (rule same_cores_wf [rotated]) (simp add: same_cores_def coord_simps)
  moreover have "s = QUEUED \<or> s = IDLE \<Longrightarrow> unreleased i c"
    using active_unreleased [OF assms(1) Some] by (auto simp: isTerminal_def)
  ultimately show ?thesis
    using cancel_principals [of "c\<lparr>queue := remove1 i (queue c)\<rparr>" i] cancel_principals [OF assms, of i] assms(1) Some
    by (cases s) (simp_all add: stopOne_def)
qed (simp add: stopOne_def assms)

lemma message_fallback_principals:
  assumes "pw c"
  shows "pw (fst (message_fallback reg now i tk c))"
proof (cases "status_of i c")
  case (Some s)
  have "pw (fst (case promoteFollowUp reg i tk c of
           (c1, Some e) \<Rightarrow> (c1, Message_failed e)
         | (c1, None) \<Rightarrow> (pump reg now (notify i (modify_job i (\<lambda>j. j\<lparr>job_finishedAt := None\<rparr>) c1)), Message_done)))" if "s = IDLE"
  proof -
    have u: "unreleased i c" using active_unreleased [OF assms Some] that by (simp add: isTerminal_def)
    obtain c1 x where p: "promoteFollowUp reg i tk c = (c1, x)" by (cases "promoteFollowUp reg i tk c")
    then have "pw c1" using promoteFollowUp_principals [OF assms u] by blast
    with p show ?thesis by (cases x) (simp_all add: pump_principals)
  qed
  then show ?thesis using assms Some by (cases s) (simp_all add: message_fallback_def isActive_def)
qed (simp add: message_fallback_def assms)

lemma updateSteering_principals:
  "pw c \<Longrightarrow> updateSteeringPolicyContext reg job t c = (c', x) \<Longrightarrow> pw c'"
  using registry_update [of c] by (auto simp: updateSteeringPolicyContext_def split: sum.splits)

lemma message_principals:
  assumes "pw c"
  shows "pw (fst (message reg caller now i tk c))"
proof (cases "res_bind (requireManageableJob caller i c) (\<lambda>job. res_bind (requiredText tk ''task'' 100000) (\<lambda>t. Inr (job, t)))")
  case (Inr jt)
  obtain job t where jt: "jt = (job, t)" by (cases jt)
  let ?c0 = "if job_session job then c else modify_job i (\<lambda>j. j\<lparr>job_pendingSteering := job_pendingSteering j @ [t]\<rparr>) c"
  obtain c1 x where u: "updateSteeringPolicyContext reg job t ?c0 = (c1, x)" using surj_pair by fastforce
  have "pw ?c0" using assms by simp
  then have "pw c1" using updateSteering_principals u by blast
  then show ?thesis using assms u message_fallback_principals [OF assms, of now i t] unfolding message_def Inr jt
    by (cases "job_session job"; cases x) (auto simp: steering_queued_def)
qed (simp add: message_def assms)

text \<open>A caller whose job was evicted to make room is not registered any more, so its request is refused.\<close>

lemma caller_not_evicted:
  assumes wf: "coordinator_wf tree ok c" and ev: "evicts E c c1" and caller: "caller_wf caller c"
    and parent: "\<And>ctx. caller = Some ctx \<Longrightarrow> tree (registry c1) (ctx_agentIdentifier ctx) \<noteq> None"
  shows "caller_wf caller c1"
proof (cases caller)
  case (Some ctx)
  then obtain j where j: "map_of (jobs c) (job_id j) = Some j" "ctx = delegation_context j"
    using caller by (auto simp: caller_wf_def delegation_context_def)
  have cw: "cores_wf c" and pr: "principals_wf tree ok c" using wf by (simp_all add: coordinator_wf_def)
  have "job_agentIdentifier j = job_id j" using core_wfD(2) [OF cw j(1)] .
  then have "tree (registry c) (job_id j) \<noteq> None" using parent [OF Some] ev by (simp add: evicts_def j(2) delegation_context_def)
  then have held: "\<not> job_principalReleased j" using pr j(1) by (auto simp: principals_wf_def principal_ok_def)
  have "job_id j \<notin> E"
  proof
    assume "job_id j \<in> E"
    then show False by (rule evicted_job [OF cw ev]) (use j(1) held in simp)
  qed
  then show ?thesis using Some j evicts_lookup [OF ev] by (auto simp: caller_wf_def delegation_context_def)
qed (simp add: caller_wf_def)

lemma spawn_wf:
  assumes wf: "coordinator_wf tree ok c" and caller: "caller_wf caller c" and new: "''subagent-'' @ uuid \<notin> set (keys c)"
    and run: "spawn reg caller aborted request uuid now c = (c', x)"
  shows "coordinator_wf tree ok c'"
  using run
proof (cases rule: spawn_effect)
  case refused
  then show ?thesis using wf by simp
next
  case evicted
  then show ?thesis using evictTerminalJobs_evicts(1) evicts_wf wf by blast
next
  case (accepted c1 req caps p)
  define i where "i = ''subagent-'' @ uuid"
  have i: "i \<noteq> []" "i \<notin> set (keys c)" using new by (simp_all add: i_def)
  note acc = accepted [folded i_def]
  obtain E where ev: "evicts E c c1" using evictTerminalJobs_evicts(1) [OF accepted(1)] by blast
  have wf1: "sched_wf c1" "cores_wf c1" "principals_wf tree ok c1" using evicts_wf [OF ev wf] by (simp_all add: coordinator_wf_def)
  have new1: "i \<notin> set (keys c1)" using i(2) evicts_lookup [OF ev] by (simp add: fresh_key)
  have law: "ok p \<and> tree (registry c1) (req_parentAgentIdentifier req) \<noteq> None
      \<and> tree p = (tree (registry c1))(i \<mapsto> Some (req_parentAgentIdentifier req))"
    using register_law [OF principals_ok [OF wf1(3)] i(1) acc(4)] by blast
  let ?a = "admit i caller req caps now p c1"
  have "caller_wf caller c1" using caller_not_evicted [OF wf ev caller] law accepted(7) by metis
  moreover have "maxDepth c1 = maxDepth c" using ev by (simp add: evicts_def)
  ultimately have "cores_wf ?a"
    using accepted(6,7) evictTerminalJobs_evicts(2) [OF accepted(1)] by (intro admit_cores [OF wf1(2) new1]) (simp_all add: keys_def)
  then have "cores_wf (pump reg now ?a)" using pump_frame(1) same_cores_wf by blast
  moreover have "sched_wf (pump reg now ?a)" using pump_sched admit_sched [OF new1 wf1(1)] by blast
  moreover have "principals_wf tree ok ?a"
    using wf1(3) law unfolding principals_wf_def admit_effect(2,4) [OF new1]
    by (auto simp: principal_ok_def new_job_def)
  then have "principals_wf tree ok (pump reg now ?a)" by (rule pump_principals)
  ultimately show ?thesis using acc(5) by (simp add: coordinator_wf_def)
qed

lemma quiet_wf:
  assumes "coordinator_wf tree ok c" "same_cores c c'" "same_sched c c'" "pw c'"
  shows "coordinator_wf tree ok c'"
  using assms same_sched_wf same_cores_wf by (auto simp: coordinator_wf_def)

lemma steady_wf: "coordinator_wf tree ok c \<Longrightarrow> steady c c' \<Longrightarrow> sched_wf c' \<Longrightarrow> pw c' \<Longrightarrow> coordinator_wf tree ok c'"
  using same_cores_wf by (auto simp: coordinator_wf_def steady_def)

lemma inert_wf:
  assumes "coordinator_wf tree ok c" "\<And>j. job_core (f j) = job_core j" "\<And>j. job_principalReleased (f j) = job_principalReleased j"
    "\<And>j. job_status (f j) = job_status j"
  shows "coordinator_wf tree ok (modify_job i f c)"
  using assms by (intro quiet_wf [OF assms(1) modify_same]) (simp_all add: coordinator_wf_def)

lemma notify_wf: "coordinator_wf tree ok c \<Longrightarrow> coordinator_wf tree ok (notify i c)"
  by (rule quiet_wf [OF _ notify_same]) (simp_all add: coordinator_wf_def)

lemma subagent_step_wf:
  assumes "coordinator_step reg others c c'" "coordinator_wf tree ok c"
    and others: "\<And>p p'. others p p' \<Longrightarrow> ok p \<Longrightarrow> ok p' \<and> tree p' = tree p"
  shows "coordinator_wf tree ok c'"
proof -
  have parts: "sched_wf c" "cores_wf c" "pw c" using assms(2) by (simp_all add: coordinator_wf_def)
  note keep = steady_wf [OF assms(2)]
  let ?r = "releaseTerminalPrincipals reg c"
  have r: "coordinator_wf tree ok ?r"
    by (rule quiet_wf [OF assms(2) releaseTerminalPrincipals_frame(2,1) releaseTerminalPrincipals_principals [OF parts(2,3)]])
  show ?thesis using assms(1)
  proof cases
    case (step_spawn caller uuid aborted request now)
    obtain d x where "spawn reg caller aborted request uuid now c = (d, x)" by (cases "spawn reg caller aborted request uuid now c")
    then show ?thesis using spawn_wf [OF assms(2) step_spawn(2,3)] step_spawn(1) by simp
  next
    case (step_others p)
    have pc: "pw c" using assms(2) by (simp add: coordinator_wf_def)
    have "pw (c\<lparr>registry := p\<rparr>)" by (rule principals_registry [OF pc others [OF step_others(2) principals_ok [OF pc]]])
    then show ?thesis using quiet_wf [OF assms(2) registry_same] step_others(1) by simp
  next
    case (step_message caller now i tk)
    then show ?thesis using message_effect [OF parts(1)] message_principals [OF parts(3)] keep by simp
  next
    case (step_steered now accepted i tk)
    have "coordinator_wf tree ok (steering_queued i c)"
      using assms(2) by (auto simp: steering_queued_def intro!: notify_wf inert_wf)
    moreover have "coordinator_wf tree ok (fst (message_fallback reg now i tk c))"
      using message_fallback_effect [OF parts(1)] message_fallback_principals [OF parts(3)] keep by simp
    ultimately show ?thesis using step_steered by (simp add: message_steered_def split: if_splits)
  next
    case (step_finish now i ending a failure)
    then show ?thesis using keep [OF turn_finish_steady turn_finish_sched [OF parts(1)] turn_finish_principals [OF parts(3,2)]] by simp
  next
    case (step_settle now i turn)
    then show ?thesis using keep [OF turn_settle_steady turn_settle_sched [OF parts(1)] turn_settle_principals [OF parts(3)]] by simp
  next
    case (step_stopOne now failure i)
    then show ?thesis using stopOne_effect [OF parts(1)] stopOne_principals [OF parts(3,2)] keep by simp
  next
    case step_end_stop
    then show ?thesis using r by (simp add: end_stop_def)
  next
    case step_begin_close
    then show ?thesis using assms(2)
      by (auto simp: coordinator_wf_def sched_wf_def slots_wf_def queue_wf_def busy_def begin_close_def cores_wf_def running_def coord_simps)
  next
    case step_end_close
    have "coord_closed ?r" using step_end_close releaseTerminalPrincipals_frame(1) [of c reg] by (simp add: same_sched_def)
    then show ?thesis using r step_end_close
      by (auto simp: coordinator_wf_def sched_wf_def slots_wf_def queue_wf_def busy_def end_close_def cores_wf_def running_def coord_simps)
  next
    case (step_session i selection)
    then show ?thesis using assms(2) by (auto simp: session_created_def intro!: notify_wf inert_wf split: option.splits)
  next
    case (step_update i line out)
    then show ?thesis using assms(2) by (auto simp: turn_update_def intro!: notify_wf inert_wf split: option.splits)
  next
    case (step_steering i answers)
    then show ?thesis using assms(2) by (auto simp: steering_sent_def intro!: notify_wf inert_wf split: option.splits)
  next
    case (step_timeout i)
    then show ?thesis using assms(2) by (auto simp: turn_timeout_def intro!: notify_wf inert_wf split: option.splits)
  qed
qed

end

end
