(* ===== verification/Subagent_Release.thy ===== *)
theory Subagent_Release
  imports Subagent_Invariant
begin

text \<open>
  The release of the principals of jobs that have ended: the loop ends within its bound, and leaves behind only
  principals that are still needed or whose release the registry refused and the job reports.
\<close>

definition release_reported :: "SubagentJob \<Rightarrow> bool" where
  "release_reported j \<longleftrightarrow> (\<exists>cause e. job_error j = Some e \<and> js_includes e (lifecycleFailure j ''policy-principal release'' cause))"

definition attempts_settled :: "string list \<Rightarrow> 'p SubagentCoordinator \<Rightarrow> bool" where
  "attempts_settled att c \<longleftrightarrow> (\<forall>i \<in> set att. \<forall>j. map_of (jobs c) i = Some j \<longrightarrow> job_principalReleased j \<or> release_reported j)"

lemma appendJobError_includes: "\<exists>e. job_error (appendJobError m j) = Some e \<and> js_includes e m"
proof (cases "job_error j")
  case (Some e)
  have "sublist m (e @ ''; '' @ m)" by (auto simp: sublist_def intro: exI [of _ "e @ ''; ''"] exI [of _ "[]"])
  then show ?thesis using Some by (auto simp: appendJobError_def js_includes_def Let_def)
qed (simp add: appendJobError_def js_includes_def Let_def)

lemma lifecycleFailure_core: "job_core j' = job_core j \<Longrightarrow> lifecycleFailure j' p e = lifecycleFailure j p e"
  by (simp add: lifecycleFailure_def job_core_def)

lemma append_reported: "release_reported (appendJobError (lifecycleFailure j ''policy-principal release'' e) j)"
  unfolding release_reported_def using appendJobError_includes [of "lifecycleFailure j ''policy-principal release'' e" j]
    lifecycleFailure_core [OF appendJobError_same(1)] by metis

text \<open>What one pass does: the two ways of attempting a job.\<close>

abbreviation release_fails :: "string \<Rightarrow> string \<Rightarrow> 'p SubagentCoordinator \<Rightarrow> 'p SubagentCoordinator" where
  "release_fails i e c \<equiv> notify i (modify_job i (\<lambda>j. appendJobError (lifecycleFailure j ''policy-principal release'' e) j) c)"

abbreviation release_done :: "string \<Rightarrow> 'p \<Rightarrow> 'p SubagentCoordinator \<Rightarrow> 'p SubagentCoordinator" where
  "release_done i p c \<equiv> modify_job i (\<lambda>j. j\<lparr>job_principalReleased := True\<rparr>) (c\<lparr>registry := p\<rparr>)"

lemma attempt_settled:
  assumes "attempts_settled att c"
  shows "attempts_settled (i # att) (release_fails i e c)" "attempts_settled (i # att) (release_done i p c)"
  using assms append_reported by (auto simp: attempts_settled_def coord_simps split: if_splits)

definition retained :: "'p SubagentCoordinator \<Rightarrow> string \<Rightarrow> bool" where
  "retained c i \<longleftrightarrow> (\<exists>k j. map_of (jobs c) k = Some j \<and> job_parentId j = Some i \<and> \<not> job_principalReleased j)"

lemma has_retained_children_iff: "distinct (keys c) \<Longrightarrow> has_retained_children i c = retained c i"
  by (force simp: has_retained_children_def retained_def keys_def dest: map_of_SomeD)

lemma retained_obs: "retained c i \<longleftrightarrow> (\<exists>k x. core_of c k = Some x \<and> core_parent x = Some i \<and> released_of c k = Some False)"
  by (fastforce simp: retained_def core_of_def released_of_def job_core_def)

lemma retained_fails: "retained (release_fails i e c) = retained c"
  by (rule ext) (simp add: retained_obs coord_simps)

lemma release_pass_effect:
  assumes "release_pass reg is att r c = (att', r', c')" "attempts_settled att c" "distinct (keys c)"
  shows "attempts_settled att' c' \<and> set att \<subseteq> set att' \<and> (r \<longrightarrow> r')
    \<and> (r' \<and> \<not> r \<longrightarrow> set is \<inter> set att' \<noteq> {})
    \<and> (\<not> r' \<longrightarrow> retained c' = retained c \<and> released_of c' = released_of c \<and> (\<forall>i \<in> set is. i \<in> set att' \<or> retained c i))"
  using assms
proof (induction "is" arbitrary: att r c)
  case (Cons i "is")
  consider (keep) "has_retained_children i c" | (fail) e where "\<not> has_retained_children i c" "reg_remove reg i (registry c) = Inl e"
    | (removed) p where "\<not> has_retained_children i c" "reg_remove reg i (registry c) = Inr p" by (cases "reg_remove reg i (registry c)") auto
  then show ?case
  proof cases
    case keep
    then show ?thesis using Cons.IH [of att r c] Cons.prems has_retained_children_iff [of c i] by auto
  next
    case fail
    have "distinct (keys (release_fails i e c))" using Cons.prems(3) by (simp add: coord_simps)
    then have "attempts_settled att' c' \<and> set (i # att) \<subseteq> set att' \<and> (r \<longrightarrow> r') \<and> (r' \<and> \<not> r \<longrightarrow> set is \<inter> set att' \<noteq> {})
      \<and> (\<not> r' \<longrightarrow> retained c' = retained (release_fails i e c) \<and> released_of c' = released_of (release_fails i e c)
        \<and> (\<forall>k \<in> set is. k \<in> set att' \<or> retained (release_fails i e c) k))"
      using Cons.IH [of "i # att" r "release_fails i e c"] Cons.prems(1) attempt_settled(1) [OF Cons.prems(2)] fail by simp
    then show ?thesis unfolding retained_fails by (auto simp: coord_simps)
  next
    case removed
    have "distinct (keys (release_done i p c))" using Cons.prems(3) by (simp add: coord_simps)
    then have "attempts_settled att' c' \<and> set (i # att) \<subseteq> set att' \<and> r'"
      using Cons.IH [of "i # att" True "release_done i p c"] Cons.prems(1) attempt_settled(2) [OF Cons.prems(2)] removed by simp
    then show ?thesis by auto
  qed
qed auto

lemma candidates_keys: "cores_wf c \<Longrightarrow> i \<in> set (release_candidates att c) \<Longrightarrow> i \<in> set (keys c) - set att"
  by (auto simp: release_candidates_def in_keys dest!: job_in_table)

lemma release_loop_complete:
  assumes "card (set (keys c) - set att) < n" "attempts_settled att c" "cores_wf c"
    "map_of (jobs (release_loop n reg att c)) i = Some j" "isTerminal (job_status j)" "\<not> job_principalReleased j"
  shows "retained (release_loop n reg att c) i \<or> release_reported j"
  using assms
proof (induction n arbitrary: att c)
  case (Suc n)
  obtain att' r c' where p: "release_pass reg (release_candidates att c) att False c = (att', r, c')" by (metis prod_cases3)
  have fr: "same_sched c c'" "same_cores c c'" using release_pass_frame [OF p] by auto
  have wf': "cores_wf c'" using same_cores_wf [OF fr(2) Suc.prems(3)] .
  have eff: "attempts_settled att' c'" "set att \<subseteq> set att'" "r \<Longrightarrow> set (release_candidates att c) \<inter> set att' \<noteq> {}"
    "\<not> r \<Longrightarrow> retained c' = retained c \<and> released_of c' = released_of c \<and> (\<forall>i \<in> set (release_candidates att c). i \<in> set att' \<or> retained c i)"
    using release_pass_effect [OF p Suc.prems(2)] Suc.prems(3) by (auto simp: cores_wf_def)
  show ?case
  proof (cases r)
    case True
    then obtain k where k: "k \<in> set (keys c) - set att" "k \<in> set att'"
      using eff(3) candidates_keys [OF Suc.prems(3)] by blast
    have "set (keys c') - set att' \<subset> set (keys c) - set att" using k eff(2) fr(2) by (auto simp: same_cores_def)
    then have "card (set (keys c') - set att') < card (set (keys c) - set att)" by (intro psubset_card_mono) auto
    then show ?thesis using Suc.IH [of c' att'] Suc.prems(1,4-6) eff(1) wf' p True by simp
  next
    case False
    have j: "map_of (jobs c') i = Some j" using Suc.prems(4) p False by simp
    have key: "map_of (jobs c) i \<noteq> None" using j fr(2) in_keys unfolding same_cores_def by (metis option.distinct(1))
    then obtain j0 where j0: "map_of (jobs c) i = Some j0" by auto
    have "job_status j0 = job_status j" using fr(1) j j0 by (auto simp: same_sched_def status_of_def fun_eq_iff dest!: spec [of _ i])
    moreover have "released_of c' i = released_of c i" using eff(4) False by simp
    then have "\<not> job_principalReleased j0" using j j0 Suc.prems(6) by (simp add: released_of_def)
    moreover have "job_id j0 = i" using core_wfD(1) [OF Suc.prems(3) j0] .
    moreover have "j0 \<in> set (map snd (jobs c))" using map_of_SomeD [OF j0] by force
    ultimately have "i \<in> set att \<or> i \<in> set (release_candidates att c)" using Suc.prems(5) by (auto simp: release_candidates_def)
    then have "i \<in> set att' \<or> retained c' i" using eff(2,4) False by auto
    then show ?thesis using eff(1) j Suc.prems(6) p False by (auto simp: attempts_settled_def)
  qed
qed simp

lemma release_complete:
  assumes "cores_wf c" "map_of (jobs (releaseTerminalPrincipals reg c)) i = Some j" "isTerminal (job_status j)" "\<not> job_principalReleased j"
  shows "has_retained_children i (releaseTerminalPrincipals reg c) \<or> release_reported j"
proof -
  have "card (set (keys c) - set []) \<le> length (keys c)" by (simp add: card_length)
  then have "card (set (keys c) - set []) < Suc (length (jobs c))" by (simp add: keys_def)
  then have "retained (releaseTerminalPrincipals reg c) i \<or> release_reported j"
    using release_loop_complete [of c "[]" "Suc (length (jobs c))"] assms
    unfolding releaseTerminalPrincipals_def by (simp add: attempts_settled_def)
  moreover have "cores_wf (releaseTerminalPrincipals reg c)" using same_cores_wf assms(1) releaseTerminalPrincipals_frame(2) by blast
  ultimately show ?thesis using has_retained_children_iff [of "releaseTerminalPrincipals reg c" i] by (simp add: cores_wf_def)
qed

end
