(* ===== verification/Subagent_Policy.thy ===== *)
theory Subagent_Policy
  imports Subagent_Principals Subagent_Release Runtime_Safety
begin

text \<open>
  The coordinator of subagents on the policy runtime: the runtime is a registry of principals, so the invariant of the
  coordinator holds in every state that the two reach together.  The properties of the coordinator.
\<close>

section \<open>The policy runtime as the registry\<close>

definition runtime_registry :: "fs_env \<Rightarrow> PolicyRuntime PolicyPrincipalRegistry" where
  "runtime_registry env = \<lparr>reg_register = registerPolicyPrincipal env,
     reg_updateTask = (\<lambda>i tk. updatePolicyPrincipalContext i None (Some tk)),
     reg_remove = removePolicyPrincipal, reg_setWaitScope = setPolicyApprovalWaitScope\<rparr>"

definition principal_tree :: "PolicyRuntime \<Rightarrow> string \<Rightarrow> string option option" where
  "principal_tree rt i = map_option (\<lambda>r. parentAgentIdentifier (prin rt r)) (map_of (principals rt) i)"

lemma principal_tree_node:
  "rt_wf rt \<Longrightarrow> principal_tree rt i = map_option (\<lambda>r. fst (snd (map tree_node (heap rt) ! r))) (map_of (principals rt) i)"
  using tree_wf_live [of rt i]
  by (cases "map_of (principals rt) i") (auto simp: principal_tree_def rt_wf_def tree_node_def prin_def)

lemma principal_tree_same:
  assumes "rt_wf rt" "rt_wf rt'" "principals rt' = principals rt" "map tree_node (heap rt') = map tree_node (heap rt)"
  shows "principal_tree rt' = principal_tree rt"
  by (rule ext) (simp add: principal_tree_node assms)

lemma register_principal_tree:
  assumes wf: "rt_wf rt" and ne: "i \<noteq> []" and reg: "registerPolicyPrincipal env i q areas ctx rt = Inr rt'"
  shows "principal_tree rt i = None \<and> principal_tree rt q \<noteq> None \<and> principal_tree rt' = (principal_tree rt)(i \<mapsto> Some q)"
proof -
  from reg obtain r where new: "map_of (principals rt) i = None" and r: "map_of (principals rt) q = Some r"
    by (auto simp: registerPolicyPrincipal_def requirePrincipal_def split: if_splits option.splits)
  have tw: "tree_wf rt" using wf by (simp add: rt_wf_def)
  have rl: "r < length (heap rt)" using tree_wf_live [OF tw r] by simp
  have rt': "principals rt' = od_set i (length (heap rt)) (principals rt)"
    "map tree_node (heap rt') = (map tree_node (heap rt) @ [(i, Some q, [])])
      [r := (agentIdentifier (prin rt r), parentAgentIdentifier (prin rt r), List.insert i (children (prin rt r)))]"
    using reg new r rl
    by (auto simp: registerPolicyPrincipal_def requirePrincipal_def createNativeFilesystemPolicyBase_def Let_def
        map_update tree_node_def prin_def nth_append)
  have "principal_tree rt' k = ((principal_tree rt)(i \<mapsto> Some q)) k" for k
  proof (cases "map_of (principals rt) k")
    case (Some s)
    then have "s < length (heap rt)" "k \<noteq> i" using tree_wf_live [OF tw Some] new by auto
    then show ?thesis using Some rl
      by (simp add: principal_tree_node wf registerPolicyPrincipal_wf [OF wf ne reg] rt' nth_append nth_list_update tree_node_def prin_def)
  next
    case None
    then show ?thesis using rl
      by (simp add: principal_tree_node wf registerPolicyPrincipal_wf [OF wf ne reg] rt' nth_append nth_list_update)
  qed
  then show ?thesis using new r by (auto simp: principal_tree_def)
qed

lemma remove_principal_tree:
  assumes wf: "rt_wf rt" and rem: "removePolicyPrincipal i rt = Inr rt'"
  shows "principal_tree rt' = (principal_tree rt)(i := None)"
proof -
  have tw: "tree_wf rt" using wf by (simp add: rt_wf_def)
  obtain q where q: "q < length (heap rt)" "principals rt' = od_delete i (principals rt)"
    "heap rt' = (heap rt)[q := (prin rt q)\<lparr>children := filter (\<lambda>c. c \<noteq> i) (children (prin rt q))\<rparr>]"
    using removePolicyPrincipal_shape [OF tw rem] by metis
  have "principal_tree rt' k = ((principal_tree rt)(i := None)) k" for k
    using q(1) by (cases "map_of (principals rt) k") (auto simp: principal_tree_def q(2,3) prin_def nth_list_update)
  then show ?thesis by auto
qed

lemma update_principal_tree:
  assumes "rt_wf rt" "runtime_step rt rt'" "principals rt' = principals rt" "map tree_node (heap rt') = map tree_node (heap rt)"
  shows "rt_wf rt' \<and> principal_tree rt' = principal_tree rt"
  using assms principal_tree_same runtime_step_wf by blast

interpretation runtime_principals: principal_registry "runtime_registry env" principal_tree rt_wf
proof
  fix p p' :: PolicyRuntime and i q tk :: string and areas ctx scope
  assume ok: "rt_wf p"
  show "reg_register (runtime_registry env) i q areas ctx p = Inr p' \<Longrightarrow> i \<noteq> [] \<Longrightarrow> rt_wf p' \<and> principal_tree p i = None \<and>
      principal_tree p q \<noteq> None \<and> principal_tree p' = (principal_tree p)(i \<mapsto> Some q)"
    using register_principal_tree [OF ok] registerPolicyPrincipal_wf [OF ok] by (simp add: runtime_registry_def)
  show "reg_remove (runtime_registry env) i p = Inr p' \<Longrightarrow> rt_wf p' \<and> principal_tree p' = (principal_tree p)(i := None)"
    using remove_principal_tree [OF ok] removePolicyPrincipal_wf [OF ok] by (simp add: runtime_registry_def)
  show "reg_updateTask (runtime_registry env) i tk p = Inr p' \<Longrightarrow> rt_wf p' \<and> principal_tree p' = principal_tree p"
  proof -
    assume "reg_updateTask (runtime_registry env) i tk p = Inr p'"
    then have u: "updatePolicyPrincipalContext i None (Some tk) p = Inr p'" by (simp add: runtime_registry_def)
    then obtain r where "requirePrincipal p i = Inr r" by (cases "requirePrincipal p i") (auto simp: updatePolicyPrincipalContext_def)
    with u show ?thesis
      by (intro update_principal_tree [OF ok step_context [OF u]])
        (auto simp: updatePolicyPrincipalContext_def Let_def tree_node_update tree_node_def prin_def)
  qed
  show "reg_setWaitScope (runtime_registry env) i scope p = Inr p' \<Longrightarrow> rt_wf p' \<and> principal_tree p' = principal_tree p"
  proof -
    assume "reg_setWaitScope (runtime_registry env) i scope p = Inr p'"
    then have u: "setPolicyApprovalWaitScope i scope p = Inr p'" by (simp add: runtime_registry_def)
    then obtain r where "requirePrincipal p i = Inr r" by (cases "requirePrincipal p i") (auto simp: setPolicyApprovalWaitScope_def)
    with u show ?thesis
      by (intro update_principal_tree [OF ok step_scope [OF u]])
        (auto simp: setPolicyApprovalWaitScope_def tree_node_update tree_node_def prin_def)
  qed
qed

section \<open>Reachable states\<close>

text \<open>Between the steps of the coordinator the runtime takes any other step; only the coordinator registers and
  removes principals.\<close>

definition other_runtime_step :: "PolicyRuntime \<Rightarrow> PolicyRuntime \<Rightarrow> bool" where
  "other_runtime_step rt rt' \<longleftrightarrow> runtime_step rt rt' \<and> principal_tree rt' = principal_tree rt"

definition coordinator_reachable :: "fs_env \<Rightarrow> PolicyRuntime SubagentCoordinator \<Rightarrow> bool" where
  "coordinator_reachable env c \<longleftrightarrow> (\<exists>concurrency depth limit rt. rt_wf rt \<and>
     (coordinator_step (runtime_registry env) other_runtime_step)\<^sup>*\<^sup>* (new_SubagentCoordinator concurrency depth limit rt) c)"

lemma new_coordinator_wf: "rt_wf rt \<Longrightarrow> coordinator_wf principal_tree rt_wf (new_SubagentCoordinator a b l rt)"
  by (simp add: coordinator_wf_def sched_wf_def slots_wf_def queue_wf_def busy_def running_def cores_wf_def keys_def core_of_def
      principals_wf_def status_of_def new_SubagentCoordinator_def)

lemma reachable_coordinator_wf: "coordinator_reachable env c \<Longrightarrow> coordinator_wf principal_tree rt_wf c"
proof -
  assume "coordinator_reachable env c"
  then obtain a b l rt where "rt_wf rt"
    "(coordinator_step (runtime_registry env) other_runtime_step)\<^sup>*\<^sup>* (new_SubagentCoordinator a b l rt) c"
    by (auto simp: coordinator_reachable_def)
  from this(2) show ?thesis
  proof (induction rule: rtranclp_induct)
    case base
    then show ?case using new_coordinator_wf \<open>rt_wf rt\<close> by blast
  next
    case (step c c')
    then show ?case using runtime_principals.subagent_step_wf runtime_step_wf unfolding other_runtime_step_def by blast
  qed
qed

lemma reachable_parts:
  assumes "coordinator_reachable env c"
  shows "sched_wf c" "cores_wf c" "principals_wf principal_tree rt_wf c"
  using reachable_coordinator_wf [OF assms] by (simp_all add: coordinator_wf_def)

section \<open>Descendants\<close>

text \<open>One job is the parent of another.\<close>

definition child_of :: "(string \<times> SubagentJob) list \<Rightarrow> string \<Rightarrow> string \<Rightarrow> bool" where
  "child_of js p i \<longleftrightarrow> (\<exists>j. map_of js i = Some j \<and> job_parentId j = Some p)"

lemma descends_tranclp:
  assumes "descends js n (Some p) a" "child_of js p i"
  shows "(child_of js)\<^sup>+\<^sup>+ a i"
  using assms
proof (induction n arbitrary: p i)
  case (Suc n)
  show ?case
  proof (cases "p = a")
    case False
    then obtain j q where "map_of js p = Some j" "job_parentId j = Some q" "descends js n (Some q) a"
      using Suc.prems(1) by (cases "map_of js p"; cases "job_parentId (the (map_of js p))") auto
    moreover have "child_of js q p" using calculation by (simp add: child_of_def)
    ultimately have "(child_of js)\<^sup>+\<^sup>+ a p" using Suc.IH [of q p] by blast
    then show ?thesis using Suc.prems(2) by (rule tranclp.trancl_into_trancl)
  qed (use Suc in auto)
qed auto

lemma tranclp_descends:
  assumes wf: "cores_wf c" and "(child_of (jobs c))\<^sup>+\<^sup>+ a i" and "map_of (jobs c) i = Some j" "job_depth j \<le> n"
  shows "descends (jobs c) n (job_parentId j) a"
  using assms(2-)
proof (induction arbitrary: j n rule: tranclp_induct)
  case (base i)
  then have "job_parentId j = Some a" by (simp add: child_of_def)
  then show ?case by (cases n) auto
next
  case (step p i)
  then have pj: "job_parentId j = Some p" by (simp add: child_of_def)
  then obtain q where q: "map_of (jobs c) p = Some q" "job_depth j = Suc (job_depth q)"
    using core_wfD(5) [OF wf step.prems(1)] by blast
  then obtain m where "n = Suc m" "job_depth q \<le> m" using step.prems(2) by (cases n) auto
  then show ?case using step.IH [OF q(1)] q(1) pj by simp
qed

lemma isDescendant_iff:
  assumes "cores_wf c" "map_of (jobs c) i = Some j"
  shows "isDescendant j a (jobs c) \<longleftrightarrow> (child_of (jobs c))\<^sup>+\<^sup>+ a i"
proof
  assume d: "isDescendant j a (jobs c)"
  then obtain p where p: "job_parentId j = Some p" by (cases "job_parentId j") (auto simp: isDescendant_def)
  then show "(child_of (jobs c))\<^sup>+\<^sup>+ a i"
    using d assms(2) by (intro descends_tranclp) (auto simp: isDescendant_def child_of_def)
next
  assume "(child_of (jobs c))\<^sup>+\<^sup>+ a i"
  then show "isDescendant j a (jobs c)" using tranclp_descends [OF assms(1) _ assms(2)] by (simp add: isDescendant_def)
qed

lemma child_attenuates:
  assumes "cores_wf c" "child_of (jobs c) p i" "map_of (jobs c) i = Some j"
  obtains q where "map_of (jobs c) p = Some q" "delegate \<in> set (mechanisms (job_capabilities q))"
    "set (mechanisms (job_capabilities j)) \<subseteq> set (mechanisms (job_capabilities q))" "job_depth q < job_depth j"
  using core_wfD(5) [OF assms(1,3), of p] assms(2,3) by (auto simp: child_of_def)

lemma descendant_attenuates:
  assumes wf: "cores_wf c" and "(child_of (jobs c))\<^sup>+\<^sup>+ a i" and "map_of (jobs c) i = Some j"
  shows "\<exists>q. map_of (jobs c) a = Some q \<and> delegate \<in> set (mechanisms (job_capabilities q))
    \<and> set (mechanisms (job_capabilities j)) \<subseteq> set (mechanisms (job_capabilities q)) \<and> job_depth q < job_depth j"
  using assms(2-)
proof (induction arbitrary: j rule: tranclp_induct)
  case (base i)
  show ?case using child_attenuates [OF wf base] by blast
next
  case (step p i)
  obtain q where "map_of (jobs c) p = Some q" "set (mechanisms (job_capabilities j)) \<subseteq> set (mechanisms (job_capabilities q))"
    "job_depth q < job_depth j" using child_attenuates [OF wf step(2,4)] by blast
  then show ?case using step.IH [of q] by fastforce
qed

section \<open>A sample\<close>

definition sample_request :: "string \<Rightarrow> string list \<Rightarrow> SubagentRequest" where
  "sample_request parent caps = \<lparr>req_parentAgentIdentifier = parent, req_task = ''t'', req_role = ''b'', req_capabilities = caps,
     req_cwd = ''/w'', req_timeoutSeconds = 60, req_reasoningSkill = ''low'', req_reasoningAmount = ''low'', req_modelPreference = ''auto'',
     req_systemPrompt = None, req_contextPaths = None\<rparr>"

lemma requiredText_ok: "js_trim v = v \<Longrightarrow> v \<noteq> [] \<Longrightarrow> length v \<le> n \<Longrightarrow> requiredText v name n = Inr v"
  by (simp add: requiredText_def)

lemma sample_texts: "js_trim ''t'' = ''t''" "js_trim ''b'' = ''b''" "js_trim ''/w'' = ''/w''" "js_trim ''auto'' = ''auto''" "js_trim ''r'' = ''r''" "js_trim ''subagent-1'' = ''subagent-1''"
  by code_simp+

lemma sample_capabilities: "new_AgentCapabilitySet [''delegate'', ''fs_read''] = Inr [Mechanism delegate, Area fs_read]"
  "new_AgentCapabilitySet [] = Inr []"
  by code_simp+

lemma sample_enums: "enumValue ''low'' SubagentReasoningSkill n = Inr ''low''" "enumValue ''low'' SubagentReasoningAmount n = Inr ''low''"
  by (simp_all add: enumValue_def SubagentReasoningSkill_def SubagentReasoningAmount_def)

lemma sample_request_valid: assumes "js_trim p = p" "p \<noteq> []" "length p \<le> 500" "new_AgentCapabilitySet caps = Inr cs" "map capabilityValue cs = caps"
  shows "validateRequest (sample_request p caps) = Inr (sample_request p caps)"
  using assms by (simp add: validateRequest_def sample_request_def requiredText_ok sample_texts sample_enums modelPreference_def optionalText_def boundedNumber_def)


lemma spawn_accepts:
  assumes "\<not> coord_closed c" "validateRequest req = Inr req" "new_AgentCapabilitySet (req_capabilities req) = Inr caps"
    "(case caller of None \<Rightarrow> 0 | Some ctx \<Rightarrow> Suc (ctx_depth ctx)) \<le> maxDepth c"
    "\<And>ctx. caller = Some ctx \<Longrightarrow> validateNestedSpawn ctx req caps = Inr ()" "length (jobs c) < maxJobs c"
    "reg_register reg (''subagent-'' @ uuid) (req_parentAgentIdentifier req) (policyAreas caps) \<lparr>role = req_role req, task = req_task req\<rparr> (registry c) = Inr p"
  shows "spawn reg caller False req uuid now c = (pump reg now (admit (''subagent-'' @ uuid) caller req caps now p c), Inr (''subagent-'' @ uuid))"
  using assms by (simp add: spawn_def evictTerminalJobs_def admit_def Let_def split: option.splits)

lemma register_succeeds:
  assumes "principal_tree rt i = None" "principal_tree rt q \<noteq> None"
  shows "\<exists>rt'. registerPolicyPrincipal env i q areas ctx rt = Inr rt'"
  using assms by (auto simp: principal_tree_def registerPolicyPrincipal_def requirePrincipal_def Let_def)

text \<open>A coordinator with one slot: a job that may delegate runs, and its nested job waits.\<close>

lemma sample_coordinator:
  obtains c j1 j2 where "coordinator_reachable link_env c" "maxConcurrency c = 1" "\<not> coord_closed c" "settling c = []"
    "map_of (jobs c) ''subagent-1'' = Some j1" "job_status j1 = RUNNING" "job_depth j1 = 0"
    "map_of (jobs c) ''subagent-2'' = Some j2" "job_status j2 = QUEUED" "job_parentId j2 = Some ''subagent-1''"
proof -
  let ?reg = "runtime_registry link_env" and ?step = "coordinator_step (runtime_registry link_env) other_runtime_step"
  define c0 where "c0 = new_SubagentCoordinator (Some 1) (Some 2) (Some 3) sample_runtime"
  let ?req1 = "sample_request ''r'' [''delegate'', ''fs_read'']" and ?cs1 = "[Mechanism delegate, Area fs_read]"
  have c0: "jobs c0 = []" "queue c0 = []" "activeCount c0 = 0" "\<not> coord_closed c0" "registry c0 = sample_runtime"
    "maxConcurrency c0 = 1" "maxDepth c0 = 2" "maxJobs c0 = 3" "settling c0 = []" "next_turn c0 = 0"
    by (simp_all add: c0_def new_SubagentCoordinator_def positiveInteger_def nonNegativeInteger_def)
  have tree0: "principal_tree sample_runtime ''subagent-1'' = None" "principal_tree sample_runtime ''subagent-2'' = None"
    "principal_tree sample_runtime ''r'' \<noteq> None"
    by (simp_all add: principal_tree_def sample_runtime_def)
  obtain p1 where p1: "registerPolicyPrincipal link_env ''subagent-1'' ''r'' [fs_read] \<lparr>role = ''b'', task = ''t''\<rparr> sample_runtime = Inr p1"
    using register_succeeds tree0 by blast
  define a1 where "a1 = admit ''subagent-1'' None ?req1 ?cs1 0 p1 c0"
  define c1 where "c1 = pump ?reg 0 a1"
  have "spawn ?reg None False ?req1 ''1'' 0 c0 = (c1, Inr ''subagent-1'')"
    using spawn_accepts [of c0 ?req1 ?cs1 None ?reg "''1''" p1 0] c0 p1 sample_capabilities sample_request_valid [OF sample_texts(5) _ _ sample_capabilities(1)]
    by (simp add: c1_def a1_def policyAreas_def runtime_registry_def sample_request_def)
  then have s1: "?step c0 c1"
    using step_spawn [of None c0 "''1''" ?reg other_runtime_step False ?req1 0] c0 by (simp add: caller_wf_def keys_def)
  let ?j1 = "new_job ''subagent-1'' None ?req1 ?cs1 0" and ?b = "begin_turn ?reg 0 ''subagent-1'' a1"
  have a1: "jobs a1 = [(''subagent-1'', ?j1)]" "queue a1 = [''subagent-1'']" "registry a1 = p1" "activeCount a1 = 0"
    "maxConcurrency a1 = 1" "\<not> coord_closed a1" "maxDepth a1 = 2" "maxJobs a1 = 3" "settling a1 = []" "next_turn a1 = 0"
    by (simp_all add: a1_def admit_def coord_simps c0)
  have "status_of ''subagent-1'' a1 = Some QUEUED" by (simp add: status_of_def a1 new_job_def)
  then have eq: "c1 = ?b\<lparr>queue := []\<rparr>" by (simp add: c1_def pump_def a1)
  have b: "jobs ?b = [(''subagent-1'', start_job 0 0 ?j1)]"
    by (simp add: begin_turn_def Let_def coord_simps modify_job_def a1 split: sum.splits)
  have c1: "jobs c1 = [(''subagent-1'', start_job 0 0 ?j1)]" "activeCount c1 = 1" "maxConcurrency c1 = 1" "queue c1 = []"
    "\<not> coord_closed c1" "maxDepth c1 = 2" "maxJobs c1 = 3" "settling c1 = []"
    using begin_turn_frame(1) [of a1 ?reg 0 "''subagent-1''"] b by (simp_all add: eq a1 begin_turn_frame same_cores_def)
  have ok1: "rt_wf p1" "principal_tree p1 = (principal_tree sample_runtime)(''subagent-1'' \<mapsto> Some ''r'')"
    using register_principal_tree [OF sample_runtime_wf _ p1] registerPolicyPrincipal_wf [OF sample_runtime_wf _ p1] by simp_all
  have "registry c1 = p1 \<or> reg_setWaitScope ?reg ''subagent-1'' (Some 0) p1 = Inr (registry c1)"
    by (simp add: eq begin_turn_def Let_def coord_simps a1 split: sum.splits)
  then have tree1: "principal_tree (registry c1) = principal_tree p1" using runtime_principals.scope_law [OF ok1(1)] by blast
  let ?req2 = "sample_request ''subagent-1'' []"
  define ctx1 where "ctx1 = delegation_context (start_job 0 0 ?j1)"
  have ctx: "ctx1 = \<lparr>ctx_jobId = ''subagent-1'', ctx_agentIdentifier = ''subagent-1'', ctx_depth = 0, ctx_mechanisms = [delegate]\<rparr>"
    by (simp add: ctx1_def delegation_context_def start_job_def new_job_def mechanisms_def)
  obtain p2 where p2: "registerPolicyPrincipal link_env ''subagent-2'' ''subagent-1'' [] \<lparr>role = ''b'', task = ''t''\<rparr> (registry c1) = Inr p2"
    using register_succeeds [of "registry c1" "''subagent-2''" "''subagent-1''" link_env "[]" "\<lparr>role = ''b'', task = ''t''\<rparr>"]
      tree1 ok1(2) tree0(2) by auto
  define a2 where "a2 = admit ''subagent-2'' (Some ctx1) ?req2 [] 5 p2 c1"
  define c2 where "c2 = pump ?reg 5 a2"
  have "validateNestedSpawn ctx1 ?req2 [] = Inr ()" by (simp add: ctx validateNestedSpawn_def mechanisms_def sample_request_def)
  then have "spawn ?reg (Some ctx1) False ?req2 ''2'' 5 c1 = (c2, Inr ''subagent-2'')"
    using spawn_accepts [of c1 ?req2 "[]" "Some ctx1" ?reg "''2''" p2 5] c1 p2 sample_capabilities sample_request_valid [OF sample_texts(6) _ _ sample_capabilities(2)]
    by (simp add: c2_def a2_def policyAreas_def runtime_registry_def sample_request_def ctx)
  moreover have "caller_wf (Some ctx1) c1" using c1(1) by (simp add: caller_wf_def ctx1_def [symmetric]) (simp add: ctx)
  ultimately have s2: "?step c1 c2"
    using step_spawn [of "Some ctx1" c1 "''2''" ?reg other_runtime_step False ?req2 5] c1 by (simp add: keys_def)
  let ?j2 = "new_job ''subagent-2'' (Some ctx1) ?req2 [] 5"
  have a2: "jobs a2 = [(''subagent-1'', start_job 0 0 ?j1), (''subagent-2'', ?j2)]" "queue a2 = [''subagent-2'']" "activeCount a2 = 1"
    "maxConcurrency a2 = 1" "\<not> coord_closed a2" "settling a2 = []"
    by (simp_all add: a2_def admit_def coord_simps c1)
  then have c2: "c2 = a2\<lparr>queue := [''subagent-2'']\<rparr>" by (simp add: c2_def pump_def)
  have "coordinator_reachable link_env c2" unfolding coordinator_reachable_def
    using sample_runtime_wf rtranclp.rtrancl_into_rtrancl [OF r_into_rtranclp [of ?step, OF s1] s2] unfolding c0_def by blast
  then show thesis using a2 by (intro that [of c2 "start_job 0 0 ?j1" ?j2]) (simp_all add: c2 new_job_def ctx start_job_def)
qed


text \<open>A job that failed while its nested job waits, and a registry that never refuses.\<close>

definition unit_registry :: "unit PolicyPrincipalRegistry" where
  "unit_registry = \<lparr>reg_register = (\<lambda>i q areas ctx p. Inr p), reg_updateTask = (\<lambda>i tk p. Inr p), reg_remove = (\<lambda>i p. Inr p),
     reg_setWaitScope = (\<lambda>i s p. Inr p)\<rparr>"

definition sample_ended :: "unit SubagentCoordinator" where
  "sample_ended = (new_SubagentCoordinator None None None ())\<lparr>jobs := [(''p'', (new_job ''p'' None (sample_request ''r'' []) [Mechanism delegate] 0)\<lparr>job_status := FAILED\<rparr>),
     (''q'', new_job ''q'' (Some \<lparr>ctx_jobId = ''p'', ctx_agentIdentifier = ''p'', ctx_depth = 0, ctx_mechanisms = [delegate]\<rparr>) (sample_request ''p'' []) [] 1)]\<rparr>"

lemma sample_ended_wf: "cores_wf sample_ended"
  by (auto simp: cores_wf_def sample_ended_def keys_def core_of_def job_core_def new_job_def new_SubagentCoordinator_def
      positiveInteger_def nonNegativeInteger_def DEFAULT_MAX_JOBS_def DEFAULT_MAX_DEPTH_def mechanisms_def sample_request_def split: if_splits)

lemma sample_ended_release:
  "\<exists>j. map_of (jobs (releaseTerminalPrincipals unit_registry sample_ended)) ''p'' = Some j \<and> job_status j = FAILED
    \<and> \<not> job_principalReleased j \<and> job_error j = None"
proof -
  have "release_candidates [] sample_ended = [''p'']" by (simp add: release_candidates_def sample_ended_def new_job_def isTerminal_def)
  moreover have "has_retained_children ''p'' sample_ended" by (simp add: has_retained_children_def sample_ended_def new_job_def)
  ultimately have "releaseTerminalPrincipals unit_registry sample_ended = sample_ended"
    by (simp add: releaseTerminalPrincipals_def)
  then show ?thesis by (simp add: sample_ended_def new_job_def)
qed

section \<open>Ended jobs stay ended\<close>

lemma quiet_steady: "same_cores c c' \<and> same_sched c c' \<Longrightarrow> steady c c'"
  using steady_same by blast

lemma inert_steady:
  "(\<And>j. job_core (f j) = job_core j) \<Longrightarrow> (\<And>j. job_status (f j) = job_status j) \<Longrightarrow> steady c (modify_job i f c)"
  by (intro steady_same modify_same) simp_all

lemma notify_steady: "steady c d \<Longrightarrow> steady c (notify i d)"
  using steady_same [OF notify_same] steady_trans by blast

lemma terminal_kept:
  assumes "coordinator_step reg others c c'" "sched_wf c" "cores_wf c" "status_of i c = Some s" "isTerminal s"
  shows "status_of i c' = Some s \<or> status_of i c' = None"
proof -
  have keep: "steady c d \<Longrightarrow> c' = d \<Longrightarrow> ?thesis" for d using assms(4,5) by (auto simp: steady_def)
  show ?thesis using assms(1)
  proof cases
    case (step_spawn caller uuid aborted request now)
    obtain d x where d: "spawn reg caller aborted request uuid now c = (d, x)" by (cases "spawn reg caller aborted request uuid now c")
    from d show ?thesis
    proof (cases rule: spawn_effect)
      case refused
      then show ?thesis using step_spawn d assms(4) by simp
    next
      case (evicted e y)
      then obtain E where "evicts E c d" using evictTerminalJobs_evicts(1) by blast
      then show ?thesis using evicts_status(1) [OF assms(3)] step_spawn d assms(4) by simp
    next
      case (accepted c1 req caps p)
      let ?a = "admit (''subagent-'' @ uuid) caller req caps now p c1"
      obtain E where ev: "evicts E c c1" using evictTerminalJobs_evicts(1) [OF accepted(1)] by blast
      have new: "''subagent-'' @ uuid \<notin> set (keys c1)" using step_spawn(3) evicts_lookup [OF ev] by (simp add: fresh_key)
      have "i \<noteq> ''subagent-'' @ uuid" using step_spawn(3) assms(4) by (auto simp: fresh_key status_of_def)
      then have a: "status_of i ?a = (if i \<in> E then None else Some s)"
        using admit_status [OF new] evicts_status(1) [OF assms(3) ev] assms(4) by simp
      have pu: "status_of i (pump reg now ?a) = status_of i ?a \<or> status_of i ?a = Some QUEUED"
        using pump_queue_status [of i reg now "queue ?a" ?a] by (auto simp: pump_def)
      have "c' = pump reg now ?a" using step_spawn(1) d accepted(5) by simp
      then show ?thesis using pu a assms(5) by (auto simp: isTerminal_def split: if_splits)
    qed
  next
    case (step_message caller now k tk)
    show ?thesis using keep [OF conjunct2 [OF message_effect [OF assms(2)]] step_message] .
  next
    case (step_steered now accepted k tk)
    show ?thesis
      using keep [OF quiet_steady [OF steering_queued_same]] keep [OF conjunct2 [OF message_fallback_effect [OF assms(2)]]] step_steered
      by (auto simp: message_steered_def split: if_splits)
  next
    case (step_finish now k ending a failure)
    show ?thesis using keep [OF turn_finish_steady step_finish] .
  next
    case (step_settle now k turn)
    show ?thesis using keep [OF turn_settle_steady step_settle] .
  next
    case (step_stopOne now failure k)
    show ?thesis using keep [OF conjunct2 [OF stopOne_effect [OF assms(2)]] step_stopOne] .
  next
    case step_end_stop
    show ?thesis by (rule keep [OF steady_same [OF releaseTerminalPrincipals_frame(2,1)]]) (simp add: step_end_stop end_stop_def)
  next
    case step_begin_close
    show ?thesis by (rule keep [OF _ step_begin_close]) (simp add: begin_close_def steady_def same_cores_def coord_simps)
  next
    case step_end_close
    let ?r = "releaseTerminalPrincipals reg c"
    have "steady ?r (end_close reg c)" by (simp add: end_close_def steady_def same_cores_def coord_simps)
    then show ?thesis by (rule keep [OF steady_trans [OF steady_same [OF releaseTerminalPrincipals_frame(2,1)]] step_end_close(1)])
  next
    case (step_others p)
    show ?thesis by (rule keep [OF steady_same [OF registry_same] step_others(1)])
  next
    case (step_session k selection)
    show ?thesis by (rule keep [OF _ step_session]) (auto simp: session_created_def intro!: notify_steady inert_steady)
  next
    case (step_update k line out)
    show ?thesis by (rule keep [OF _ step_update]) (auto simp: turn_update_def intro!: notify_steady inert_steady)
  next
    case (step_steering k answers)
    show ?thesis by (rule keep [OF _ step_steering]) (auto simp: steering_sent_def intro!: inert_steady)
  next
    case (step_timeout k)
    show ?thesis by (rule keep [OF _ step_timeout]) (auto simp: turn_timeout_def intro!: notify_steady inert_steady split: option.split)
  qed
qed

section \<open>Properties\<close>

text \<open>C27: in every state that the coordinator reaches on the policy runtime, whatever the sessions, the callers and the
  rest of the program do, the running turns and the turns that are settling hold exactly the active slots, at most
  the configured number; the table has at most the configured number of jobs and no job lies deeper than the
  configured depth.\<close>

theorem subagent_limits_hold:
  assumes "coordinator_reachable env c"
  shows "card {i. status_of i c = Some RUNNING} + length (settling c) = activeCount c \<and> activeCount c \<le> maxConcurrency c
    \<and> length (jobs c) \<le> maxJobs c \<and> (\<forall>i j. map_of (jobs c) i = Some j \<longrightarrow> job_depth j \<le> maxDepth c)"
proof -
  note parts = reachable_parts [OF assms]
  have "length (jobs c) \<le> maxJobs c" using parts(2) by (simp add: cores_wf_def keys_def)
  moreover have "\<forall>i j. map_of (jobs c) i = Some j \<longrightarrow> job_depth j \<le> maxDepth c" using core_wfD(3) [OF parts(2)] by blast
  ultimately show ?thesis using parts(1) by (simp add: sched_wf_def slots_wf_def running_def)
qed

theorem subagent_limits_hold_witness:
  "\<exists>c. coordinator_reachable link_env c \<and> maxConcurrency c = 1 \<and> status_of ''subagent-1'' c = Some RUNNING
    \<and> activeCount c \<le> maxConcurrency c \<and> length (jobs c) \<le> maxJobs c"
proof -
  obtain c j1 where c: "coordinator_reachable link_env c" "maxConcurrency c = 1" "map_of (jobs c) ''subagent-1'' = Some j1" "job_status j1 = RUNNING"
    by (rule sample_coordinator)
  then show ?thesis using subagent_limits_hold [OF c(1)] by (intro exI [of _ c]) (simp add: status_of_def)
qed

text \<open>no job waits for nothing: in a reachable state of a coordinator that is not closed, when a job is queued and no
  turn is settling, every slot is taken by a running turn.\<close>

theorem queued_jobs_wait_for_slots:
  assumes "coordinator_reachable env c" "\<not> coord_closed c" "settling c = []" "status_of i c = Some QUEUED"
  shows "card {k. status_of k c = Some RUNNING} = maxConcurrency c \<and> i \<in> set (queue c)"
proof -
  have wf: "sched_wf c" using reachable_parts [OF assms(1)] by blast
  then have "i \<in> set (queue c)" using assms by (simp add: sched_wf_def queue_wf_def)
  then have "queue c \<noteq> []" by auto
  then show ?thesis using wf assms \<open>i \<in> set (queue c)\<close> by (simp add: sched_wf_def slots_wf_def busy_def running_def)
qed

text \<open>C25: in every reachable state a job that has not ended has its principal registered in the policy runtime, under the
  principal that its request names, and under its parent job's principal when it is nested; so its accesses are
  judged with what was delegated to it.\<close>

theorem active_subagent_is_registered:
  assumes "coordinator_reachable env c" "map_of (jobs c) i = Some j" "\<not> isTerminal (job_status j)"
  shows "principal_tree (registry c) i = Some (Some (req_parentAgentIdentifier (job_request j)))
    \<and> (\<forall>p. job_parentId j = Some p \<longrightarrow> principal_tree (registry c) i = Some (Some p))"
proof -
  note parts = reachable_parts [OF assms(1)]
  have "principal_ok principal_tree (registry c) i j" using parts(3) assms(2) by (simp add: principals_wf_def)
  then have t: "principal_tree (registry c) i = Some (Some (req_parentAgentIdentifier (job_request j)))"
    using assms(3) by (auto simp: principal_ok_def)
  have "core_of c i = Some (job_core j)" using assms(2) by (simp add: core_of_def)
  then have "core_wf (core_of c) (maxDepth c) i (job_core j)" using parts(2) unfolding cores_wf_def by blast
  then have "job_parentId j = Some p \<Longrightarrow> req_parentAgentIdentifier (job_request j) = p" for p by (simp add: job_core_def)
  with t show ?thesis by auto
qed

theorem active_subagent_is_registered_witness:
  "\<exists>c. coordinator_reachable link_env c \<and> status_of ''subagent-2'' c = Some QUEUED
    \<and> principal_tree (registry c) ''subagent-2'' = Some (Some ''subagent-1'')"
proof -
  obtain c j2 where c: "coordinator_reachable link_env c"
    "map_of (jobs c) ''subagent-2'' = Some j2" "job_status j2 = QUEUED" "job_parentId j2 = Some ''subagent-1''" by (rule sample_coordinator)
  then have "\<not> isTerminal (job_status j2)" by (simp add: isTerminal_def)
  then show ?thesis using active_subagent_is_registered [OF c(1,2)] c by (auto simp: status_of_def)
qed

text \<open>The jobs below a job in the tree of parents.\<close>

definition below :: "'p SubagentCoordinator \<Rightarrow> string \<Rightarrow> string set" where
  "below c a = {i. (child_of (jobs c))\<^sup>+\<^sup>+ a i}"

lemma below_job: "i \<in> below c a \<Longrightarrow> \<exists>j. map_of (jobs c) i = Some j"
  unfolding below_def mem_Collect_eq by (erule tranclp.cases) (auto simp: child_of_def)

lemma below_trans: "i \<in> below c a \<Longrightarrow> below c i \<subseteq> below c a"
  by (auto simp: below_def intro: tranclp_trans)

lemma requireManageableJob_iff:
  assumes "cores_wf c"
  shows "requireManageableJob (Some ctx) i c = Inr j \<longleftrightarrow> map_of (jobs c) i = Some j \<and> i \<in> below c (ctx_jobId ctx)"
  using isDescendant_iff [OF assms]
  by (auto simp: requireManageableJob_def requireJob_def below_def split: option.splits)

lemma descendant_ids:
  assumes "cores_wf c"
  shows "job_id ` {j \<in> set (map snd (jobs c)). isDescendant j a (jobs c)} = below c a"
proof (intro set_eqI iffI)
  fix i
  assume "i \<in> job_id ` {j \<in> set (map snd (jobs c)). isDescendant j a (jobs c)}"
  then obtain k j where j: "(k, j) \<in> set (jobs c)" "isDescendant j a (jobs c)" "i = job_id j" by auto
  from assms j(1) have k: "map_of (jobs c) k = Some j" by (simp add: cores_wf_def keys_def)
  with j core_wfD(1) [OF assms k] isDescendant_iff [OF assms k] show "i \<in> below c a" by (simp add: below_def)
next
  fix i
  assume i: "i \<in> below c a"
  then obtain j where j: "map_of (jobs c) i = Some j" using below_job by blast
  then have "j \<in> set (map snd (jobs c))" by (force dest: map_of_SomeD)
  with i core_wfD(1) [OF assms j] isDescendant_iff [OF assms j]
  show "i \<in> job_id ` {j \<in> set (map snd (jobs c)). isDescendant j a (jobs c)}" by (force simp: below_def)
qed

lemma map_res_member: "map_res f xs = Inr ys \<Longrightarrow> y \<in> set ys \<Longrightarrow> \<exists>x \<in> set xs. f x = Inr y"
  by (induction xs arbitrary: ys) (auto simp: res_bind_Inr)

lemma selectJobs_all:
  assumes "cores_wf c"
  shows "\<exists>js. selectJobs (Some ctx) [] c = Inr js \<and> job_id ` set js = below c (ctx_jobId ctx)"
  using descendant_ids [OF assms, of "ctx_jobId ctx"] by (simp add: selectJobs_def)

lemma selectJobs_below:
  assumes "cores_wf c" "selectJobs (Some ctx) ids c = Inr js" "j \<in> set js"
  shows "job_id j \<in> below c (ctx_jobId ctx)"
proof (cases "ids = []")
  case True
  with selectJobs_all [OF assms(1), of ctx] assms(2,3) show ?thesis by auto
next
  case False
  with assms(2,3) obtain i where "requireManageableJob (Some ctx) i c = Inr j"
    by (auto simp: selectJobs_def dest!: map_res_member)
  then show ?thesis using core_wfD(1) [OF assms(1)] by (auto simp: requireManageableJob_iff [OF assms(1)])
qed

lemma begin_stop_below:
  assumes "cores_wf c" "begin_stop (Some ctx) i c = Inr is"
  shows "i \<in> below c (ctx_jobId ctx)" "set is = insert i (below c i)"
proof -
  from assms obtain j where j: "map_of (jobs c) i = Some j" "i \<in> below c (ctx_jobId ctx)" "is = stop_order (job_id j) c"
    by (auto simp: begin_stop_def res_bind_Inr requireManageableJob_iff)
  then show "i \<in> below c (ctx_jobId ctx)" by simp
  show "set is = insert i (below c i)"
    using j core_wfD(1) [OF assms(1) j(1)] descendant_ids [OF assms(1), of i] by (simp add: stop_order_def)
qed

lemma message_outside_refused:
  assumes "cores_wf c" "i \<notin> below c (ctx_jobId ctx)"
  shows "\<exists>e. message reg (Some ctx) now i tk c = (c, Message_failed e)"
proof (cases "requireManageableJob (Some ctx) i c")
  case (Inl e)
  then show ?thesis by (simp add: message_def)
qed (use assms in \<open>simp add: requireManageableJob_iff\<close>)

text \<open>C26: a subagent manages exactly the jobs below it, and capabilities only shrink on the way down.  In a reachable state,
  called from within a subagent's job: a single job is found for listing, messages and stopping exactly when it is in the
  table and below the caller; the list of all jobs is that of the jobs below the caller, and the list of named ones holds
  only such jobs; a stop reaches the named job and all jobs below it, all of them below the caller; a message to any other
  job is refused and changes nothing.  Each job below another lies deeper and has only mechanisms that the other has,
  and the other was granted delegation.\<close>

theorem subagent_manages_below:
  assumes "coordinator_reachable env c"
  shows "(requireManageableJob (Some ctx) i c = Inr j \<longleftrightarrow> map_of (jobs c) i = Some j \<and> i \<in> below c (ctx_jobId ctx))
    \<and> (\<exists>js. selectJobs (Some ctx) [] c = Inr js \<and> job_id ` set js = below c (ctx_jobId ctx))
    \<and> (selectJobs (Some ctx) ids c = Inr js \<longrightarrow> job_id ` set js \<subseteq> below c (ctx_jobId ctx))
    \<and> (begin_stop (Some ctx) i c = Inr is \<longrightarrow> set is = insert i (below c i) \<and> set is \<subseteq> below c (ctx_jobId ctx))
    \<and> (i \<notin> below c (ctx_jobId ctx) \<longrightarrow> (\<exists>e. message reg (Some ctx) now i tk c = (c, Message_failed e)))
    \<and> (i \<in> below c a \<and> map_of (jobs c) i = Some j \<longrightarrow> (\<exists>q. map_of (jobs c) a = Some q \<and> Mechanism delegate \<in> set (job_capabilities q)
      \<and> (\<forall>m. Mechanism m \<in> set (job_capabilities j) \<longrightarrow> Mechanism m \<in> set (job_capabilities q)) \<and> job_depth q < job_depth j))"
proof -
  have wf: "cores_wf c" using reachable_parts [OF assms] by blast
  have "set is = insert i (below c i) \<and> set is \<subseteq> below c (ctx_jobId ctx)" if "begin_stop (Some ctx) i c = Inr is"
    using begin_stop_below [OF wf that] below_trans [of i c "ctx_jobId ctx"] by simp
  moreover have "\<exists>q. map_of (jobs c) a = Some q \<and> Mechanism delegate \<in> set (job_capabilities q)
      \<and> (\<forall>m. Mechanism m \<in> set (job_capabilities j) \<longrightarrow> Mechanism m \<in> set (job_capabilities q)) \<and> job_depth q < job_depth j"
    if i: "i \<in> below c a" and j: "map_of (jobs c) i = Some j"
  proof -
    obtain q where "map_of (jobs c) a = Some q" "delegate \<in> set (mechanisms (job_capabilities q))"
      "set (mechanisms (job_capabilities j)) \<subseteq> set (mechanisms (job_capabilities q))" "job_depth q < job_depth j"
      using descendant_attenuates [OF wf _ j] i unfolding below_def by blast
    then show ?thesis by (auto simp: mechanisms_iff subset_iff)
  qed
  moreover have "job_id ` set js \<subseteq> below c (ctx_jobId ctx)" if "selectJobs (Some ctx) ids c = Inr js"
    using selectJobs_below [OF wf that] by (rule image_subsetI)
  ultimately show ?thesis
    using requireManageableJob_iff [OF wf, of ctx i j] selectJobs_all [OF wf, of ctx] message_outside_refused [OF wf, of i ctx reg now tk]
    by argo
qed

theorem subagent_manages_below_witness:
  "\<exists>c j2 q. coordinator_reachable link_env c \<and> map_of (jobs c) ''subagent-1'' = Some q
    \<and> requireManageableJob (Some \<lparr>ctx_jobId = ''subagent-1'', ctx_agentIdentifier = ''subagent-1'', ctx_depth = 0, ctx_mechanisms = [delegate]\<rparr>)
        ''subagent-2'' c = Inr j2
    \<and> Mechanism delegate \<in> set (job_capabilities q) \<and> job_depth q < job_depth j2"
proof -
  let ?ctx = "\<lparr>ctx_jobId = ''subagent-1'', ctx_agentIdentifier = ''subagent-1'', ctx_depth = 0, ctx_mechanisms = [delegate]\<rparr>"
  obtain c j2 where c: "coordinator_reachable link_env c"
    "map_of (jobs c) ''subagent-2'' = Some j2" "job_parentId j2 = Some ''subagent-1''" by (rule sample_coordinator)
  then have b: "''subagent-2'' \<in> below c ''subagent-1''" by (auto simp: below_def child_of_def)
  note m = subagent_manages_below [OF c(1), where ctx = ?ctx and i = "''subagent-2''" and j = j2 and a = "''subagent-1''"]
  have r: "requireManageableJob (Some ?ctx) ''subagent-2'' c = Inr j2" using m [THEN conjunct1] b c(2) by simp
  from b c(2) obtain q where "map_of (jobs c) ''subagent-1'' = Some q" "Mechanism delegate \<in> set (job_capabilities q)" "job_depth q < job_depth j2"
    using m [THEN conjunct2, THEN conjunct2, THEN conjunct2, THEN conjunct2, THEN conjunct2] by blast
  with r c(1) show ?thesis by blast
qed

text \<open>C29: after the principals of ended jobs were released, an ended job still holds its principal only when one of its
  children does, or when the registry refused and the job's error says so.\<close>

theorem ended_principals_are_released:
  assumes "cores_wf c" "map_of (jobs (releaseTerminalPrincipals reg c)) i = Some j"
    and "isTerminal (job_status j)" "\<not> job_principalReleased j"
  shows "has_retained_children i (releaseTerminalPrincipals reg c)
    \<or> (\<exists>cause e. job_error j = Some e \<and> js_includes e (lifecycleFailure j ''policy-principal release'' cause))"
  using release_complete [OF assms] by (simp add: release_reported_def)

theorem ended_principals_are_released_witness:
  "cores_wf sample_ended \<and> status_of ''p'' (releaseTerminalPrincipals unit_registry sample_ended) = Some FAILED
    \<and> released_of (releaseTerminalPrincipals unit_registry sample_ended) ''p'' = Some False
    \<and> has_retained_children ''p'' (releaseTerminalPrincipals unit_registry sample_ended)"
proof -
  let ?c = "releaseTerminalPrincipals unit_registry sample_ended"
  obtain j where j: "map_of (jobs ?c) ''p'' = Some j" "job_status j = FAILED" "\<not> job_principalReleased j" "job_error j = None"
    using sample_ended_release by blast
  then have "has_retained_children ''p'' ?c"
    using ended_principals_are_released [OF sample_ended_wf j(1)] by (simp add: isTerminal_def)
  then show ?thesis using sample_ended_wf j by (simp add: status_of_def released_of_def)
qed

text \<open>C28: a job that has ended stays ended: no step of the coordinator, whatever the job's session still does, changes a
  status of failure, cancellation or timeout; at most the job is evicted from the table.\<close>

theorem ended_job_stays_ended:
  assumes "coordinator_reachable env c" "coordinator_step (runtime_registry env) other_runtime_step c c'"
    and "status_of i c = Some s" "isTerminal s"
  shows "status_of i c' = Some s \<or> status_of i c' = None"
  using terminal_kept [OF assms(2) reachable_parts(1,2) [OF assms(1)] assms(3,4)] .

theorem ended_job_stays_ended_witness:
  "\<exists>c. coordinator_reachable link_env c \<and> status_of ''subagent-2'' c = Some CANCELLED
    \<and> (status_of ''subagent-2'' (turn_finish (runtime_registry link_env) 9 ''subagent-2'' (Inr ''done'') None None c) = Some CANCELLED
      \<or> status_of ''subagent-2'' (turn_finish (runtime_registry link_env) 9 ''subagent-2'' (Inr ''done'') None None c) = None)"
proof -
  let ?reg = "runtime_registry link_env" and ?i = "''subagent-2''"
  obtain c j2 where c: "coordinator_reachable link_env c" "map_of (jobs c) ?i = Some j2" "job_status j2 = QUEUED" by (rule sample_coordinator)
  let ?m = "modify_job ?i (cancel_job 7 ''Cancelled before starting'' None) (c\<lparr>queue := remove1 ?i (queue c)\<rparr>)"
  let ?s = "stopOne ?reg 7 None ?i c"
  have eq: "?s = releaseTerminalPrincipals ?reg (notify ?i ?m)" using c by (simp add: stopOne_def status_of_def)
  have "status_of ?i ?m = Some CANCELLED" using c by (simp add: status_of_modify_job_const)
  then have st: "status_of ?i ?s = Some CANCELLED"
    using releaseTerminalPrincipals_frame(1) [of "notify ?i ?m" ?reg] unfolding eq by (simp add: same_sched_def fun_eq_iff coord_simps)
  have "coordinator_step ?reg other_runtime_step c ?s" by (rule step_stopOne)
  then have r: "coordinator_reachable link_env ?s"
    using c(1) rtranclp.rtrancl_into_rtrancl unfolding coordinator_reachable_def by meson
  show ?thesis using ended_job_stays_ended [OF r step_finish st, of 9 ?i "Inr ''done''" None None] r st
    by (intro exI [of _ ?s]) (simp add: isTerminal_def)
qed

end
