(* ===== verification/Dns_Message.thy ===== *)
theory Dns_Message
  imports Network_Protocol Native_Protocol
begin

text \<open>
  The DNS messages of the synthetic resolver, \<open>src/src/policy/network/SyntheticDnsProxy.ts\<close>: names with compression
  pointers, questions, responses, the names attributed to a question, addresses as text and as bytes, and the
  responses the proxy makes up.  Numbers read from a message are integers, offsets natural numbers; a thrown error
  is \<open>Inl\<close> of its message.
\<close>

unbundle bit_operations_syntax

section \<open>Numbers in a message\<close>

definition read_be :: "byte list \<Rightarrow> int" where
  "read_be bs = foldl (\<lambda>n b. n * 256 + uint b) 0 bs"

definition readUInt16BE :: "byte list \<Rightarrow> nat \<Rightarrow> int" where
  "readUInt16BE m offset = read_be (take 2 (drop offset m))"

definition readUInt32BE :: "byte list \<Rightarrow> nat \<Rightarrow> int" where
  "readUInt32BE m offset = read_be (take 4 (drop offset m))"

definition splice :: "byte list \<Rightarrow> nat \<Rightarrow> byte list \<Rightarrow> byte list" where
  "splice m offset bs = take offset m @ bs @ drop (offset + length bs) m"

definition writeUInt16BE :: "int \<Rightarrow> nat \<Rightarrow> byte list \<Rightarrow> byte list" where
  "writeUInt16BE n offset m = splice m offset [of_int (n div 256), of_int n]"

definition writeUInt32BE :: "int \<Rightarrow> nat \<Rightarrow> byte list \<Rightarrow> byte list" where
  "writeUInt32BE n offset m = splice m offset [of_int (n div 16777216), of_int (n div 65536), of_int (n div 256), of_int n]"

definition DNS_HEADER_LENGTH :: nat where "DNS_HEADER_LENGTH = 12"
definition DNS_CLASS_IN :: int where "DNS_CLASS_IN = 1"
definition DNS_TYPE_A :: int where "DNS_TYPE_A = 1"
definition DNS_TYPE_CNAME :: int where "DNS_TYPE_CNAME = 5"
definition DNS_TYPE_AAAA :: int where "DNS_TYPE_AAAA = 28"
definition MAX_DNS_MESSAGE_LENGTH :: nat where "MAX_DNS_MESSAGE_LENGTH = 65535"

section \<open>Names\<close>

lemma visited_decreases:
  "offset < (n::nat) \<Longrightarrow> offset \<notin> set visited \<Longrightarrow> card ({..<n} - insert offset (set visited)) < card ({..<n} - set visited)"
  using card_Diff1_less [of "{..<n} - set visited" offset] by (simp add: Diff_insert [symmetric] del: card_Diff_insert)

text \<open>The loop of \<open>readDnsName\<close>: every round visits an offset of the message that it had not visited, or stops.\<close>

function read_name :: "byte list \<Rightarrow> nat list \<Rightarrow> string list \<Rightarrow> nat \<Rightarrow> nat option \<Rightarrow> string + string \<times> nat" where
  "read_name m visited labels offset nextOffset =
     (if length m \<le> offset \<or> offset \<in> set visited then Inl ''DNS name is malformed''
      else let len = m ! offset in
        if len AND 0xc0 = 0xc0 then
          (if length m \<le> offset + 1 then Inl ''DNS compression pointer is truncated''
           else let pointer = unat (len AND 0x3f) * 256 + unat (m ! (offset + 1)) in
             if length m \<le> pointer then Inl ''DNS compression pointer is invalid''
             else read_name m (offset # visited) labels pointer (Some (the_default (offset + 2) nextOffset)))
        else if len AND 0xc0 \<noteq> 0 \<or> 63 < unat len then Inl ''DNS label is invalid''
        else if len = 0 then Inr (join_with ''.'' labels, the_default (offset + 1) nextOffset)
        else if length m < offset + 1 + unat len then Inl ''DNS label is truncated''
        else let labelBytes = take (unat len) (drop (offset + 1) m) in
          if list_ex (\<lambda>b. 0x7f < b) labelBytes then Inl ''DNS label is not ASCII''
          else let label = js_lower (map (\<lambda>b. char_of (unat b)) labelBytes) in
            if \<not> dns_label label then Inl ''DNS label contains unsupported characters''
            else if 253 < length (join_with ''.'' (labels @ [label])) then Inl ''DNS name is too long''
            else read_name m (offset # visited) (labels @ [label]) (offset + 1 + unat len) nextOffset)"
  by pat_completeness auto

termination
  by (relation "measure (\<lambda>(m, visited, labels, offset, nextOffset). card ({..<length m} - set visited))")
    (auto simp del: card_Diff_insert intro!: visited_decreases)

declare read_name.simps [simp del]

definition readDnsName :: "byte list \<Rightarrow> nat \<Rightarrow> string + string \<times> nat" where
  "readDnsName message startOffset = read_name message [] [] startOffset None"

definition validateDnsHostname :: "string \<Rightarrow> unit res" where
  "validateDnsHostname hostname = (if dns_name_ok hostname then Inr () else Inl ''DNS hostname is invalid'')"

section \<open>Questions and responses\<close>

record DnsQuestion =
  q_id :: int
  q_name :: string
  q_type :: int
  questionEnd :: nat

record DnsResourceRecord =
  rr_owner :: string
  rr_type :: int
  rr_class :: int
  rr_ttl :: int
  ttlOffset :: nat
  dataOffset :: nat
  dataLength :: nat
  rr_cname :: "string option"

definition parseDnsQuestion :: "byte list \<Rightarrow> bool \<Rightarrow> string + DnsQuestion" where
  "parseDnsQuestion message response =
     (if length message < DNS_HEADER_LENGTH then Inl ''DNS message is truncated''
      else let flags = readUInt16BE message 2; isResponse = (flags AND 0x8000 \<noteq> 0) in
        if isResponse \<noteq> response \<or> flags AND 0x7800 \<noteq> 0 \<or> readUInt16BE message 4 \<noteq> 1
        then Inl ''DNS message has unsupported header fields''
        else sum_bind (readDnsName message DNS_HEADER_LENGTH) (\<lambda>(name, nextOffset).
          if name = [] \<or> length message < nextOffset + 4 then Inl ''DNS question is truncated''
          else let type = readUInt16BE message nextOffset; dnsClass = readUInt16BE message (nextOffset + 2) in
            if type = 0 \<or> dnsClass \<noteq> DNS_CLASS_IN then Inl ''DNS question is unsupported''
            else Inr \<lparr>q_id = readUInt16BE message 0, q_name = name, q_type = type, questionEnd = nextOffset + 4\<rparr>))"

text \<open>One record and the offset behind it; then the records from an offset on, of which only the first \<open>answers\<close> of
  the \<open>n\<close> are kept.\<close>

definition parse_record :: "byte list \<Rightarrow> nat \<Rightarrow> string + DnsResourceRecord \<times> nat" where
  "parse_record message start = sum_bind (readDnsName message start) (\<lambda>(owner, offset).
     if length message < offset + 10 then Inl ''DNS resource record is truncated''
     else let type = readUInt16BE message offset; dnsClass = readUInt16BE message (offset + 2);
              ttl = readUInt32BE message (offset + 4); len = nat (readUInt16BE message (offset + 8));
              dataEnd = offset + 10 + len in
       if length message < dataEnd then Inl ''DNS resource data is truncated''
       else sum_bind (if type = DNS_TYPE_CNAME \<and> dnsClass = DNS_CLASS_IN
             then sum_bind (readDnsName message (offset + 10)) (\<lambda>(name, nextOffset).
               if name = [] \<or> nextOffset \<noteq> dataEnd then Inl ''DNS CNAME data is malformed'' else Inr (Some name))
             else Inr None) (\<lambda>cname.
         Inr (\<lparr>rr_owner = owner, rr_type = type, rr_class = dnsClass, rr_ttl = ttl,
                ttlOffset = offset + 4, dataOffset = offset + 10, dataLength = len, rr_cname = cname\<rparr>, dataEnd)))"

fun parse_records :: "byte list \<Rightarrow> nat \<Rightarrow> nat \<Rightarrow> nat \<Rightarrow> string + DnsResourceRecord list \<times> nat" where
  "parse_records message 0 answers offset = Inr ([], offset)"
| "parse_records message (Suc n) answers offset = sum_bind (parse_record message offset) (\<lambda>(r, dataEnd).
     sum_bind (parse_records message n (answers - 1) dataEnd) (\<lambda>(records, last).
       Inr (if 0 < answers then r # records else records, last)))"

definition parseDnsResponse :: "byte list \<Rightarrow> string + DnsQuestion \<times> DnsResourceRecord list" where
  "parseDnsResponse message = sum_bind (parseDnsQuestion message True) (\<lambda>question.
     let answerCount = readUInt16BE message 6; authorityCount = readUInt16BE message 8; additionalCount = readUInt16BE message 10
     in sum_bind (parse_records message (nat (answerCount + authorityCount + additionalCount)) (nat answerCount) (questionEnd question))
       (\<lambda>(answers, offset). if offset \<noteq> length message then Inl ''DNS response has trailing bytes''
          else Inr (question, answers)))"

section \<open>Names attributed to a question\<close>

text \<open>One round over the answers; the loop repeats while a round added a name, and every name it adds is the
  target of an answer, so the number of answers bounds the rounds.\<close>

definition attributes :: "string list \<Rightarrow> DnsResourceRecord \<Rightarrow> string option" where
  "attributes names answer = (if rr_type answer = DNS_TYPE_CNAME \<and> rr_class answer = DNS_CLASS_IN then
     (case rr_cname answer of Some c \<Rightarrow> if c \<noteq> [] \<and> rr_owner answer \<in> set names \<and> c \<notin> set names then Some c else None
      | None \<Rightarrow> None) else None)"

fun attributed_round :: "DnsResourceRecord list \<Rightarrow> string list \<Rightarrow> string list" where
  "attributed_round [] names = names"
| "attributed_round (a # as) names = (case attributes names a of
     Some c \<Rightarrow> attributed_round as (names @ [c]) | None \<Rightarrow> attributed_round as names)"

fun attributed_loop :: "nat \<Rightarrow> DnsResourceRecord list \<Rightarrow> string list \<Rightarrow> string list" where
  "attributed_loop 0 answers names = names"
| "attributed_loop (Suc n) answers names = (let names' = attributed_round answers names in
     if names' = names then names else attributed_loop n answers names')"

definition attributedAnswerNames :: "DnsResourceRecord list \<Rightarrow> string \<Rightarrow> string list" where
  "attributedAnswerNames answers requestedName = attributed_loop (Suc (length answers)) answers [requestedName]"

section \<open>Addresses\<close>

text \<open>\<open>Number\<close> of the text of a decimal number; the callers pass address texts only.\<close>

definition decimal_number :: "string \<Rightarrow> nat option" where
  "decimal_number s = (if list_all is_digit s then Some (read_nat s) else None)"

definition hex_val :: "char \<Rightarrow> nat" where
  "hex_val c = (let n = (of_char c :: nat) in if n \<le> 57 then n - 48 else n - 87)"

definition lower_hex :: "char \<Rightarrow> bool" where
  "lower_hex c \<longleftrightarrow> (let n = (of_char c :: nat) in (48 \<le> n \<and> n \<le> 57) \<or> (97 \<le> n \<and> n \<le> 102))"

definition read_hex :: "string \<Rightarrow> nat" where
  "read_hex s = foldl (\<lambda>n c. n * 16 + hex_val c) 0 s"

definition hex_char :: "nat \<Rightarrow> char" where
  "hex_char d = char_of (if d < 10 then 48 + d else 87 + d)"

fun show_hex :: "nat \<Rightarrow> string" where
  "show_hex n = (if n < 16 then [hex_char n] else show_hex (n div 16) @ [hex_char (n mod 16)])"

declare show_hex.simps [simp del]

text \<open>\<open>split ("::")\<close>\<close>

fun split_gaps :: "string \<Rightarrow> string list" where
  "split_gaps (a # b # s) = (if a = CHR '':'' \<and> b = CHR '':'' then [] # split_gaps s
     else (case split_gaps (b # s) of [] \<Rightarrow> [[a]] | h # t \<Rightarrow> (a # h) # t))"
| "split_gaps s = [s]"

definition group_fields :: "string \<Rightarrow> string list" where
  "group_fields s = (if s = [] then [] else split_on (CHR '':'') s)"

fun group_bytes :: "string list \<Rightarrow> string + byte list" where
  "group_bytes [] = Inr []"
| "group_bytes (g # gs) = (if g \<noteq> [] \<and> length g \<le> 4 \<and> list_all lower_hex g
     then sum_bind (group_bytes gs) (\<lambda>bs. Inr (of_nat (read_hex g div 256) # of_nat (read_hex g) # bs))
     else Inl ''invalid synthetic IPv6 address'')"

definition parseIpAddress :: "string \<Rightarrow> NetworkAddressFamily \<Rightarrow> string + byte list" where
  "parseIpAddress addr fam = (case fam of
     IPV4 \<Rightarrow> (let octets = map decimal_number (split_on (CHR ''.'') addr) in
       if length octets \<noteq> 4 \<or> list_ex (\<lambda>x. case x of None \<Rightarrow> True | Some n \<Rightarrow> 255 < n) octets
       then Inl ''invalid synthetic IPv4 address'' else Inr (map (\<lambda>x. of_nat (the x)) octets))
   | IPV6 \<Rightarrow> (let halves = split_gaps (js_lower addr);
         left = group_fields (hd halves);
         right = (if length halves = 2 then group_fields (halves ! 1) else []) in
       if 2 < length halves then Inl ''invalid synthetic IPv6 address''
       else if (length halves = 1 \<and> length left + length right \<noteq> 8) \<or> (length halves = 2 \<and> 8 \<le> length left + length right)
       then Inl ''invalid synthetic IPv6 address''
       else group_bytes (left @ replicate (8 - length left - length right) ''0'' @ right)))"

definition formatIpv4 :: "byte list \<Rightarrow> string res" where
  "formatIpv4 bs = (if length bs \<noteq> 4 then Inl ''invalid IPv4 DNS answer''
     else Inr (join_with ''.'' (map (\<lambda>b. show_nat (unat b)) bs)))"

text \<open>The longest run of at least two zero groups, the first of several: its start and length, length 0 for none.\<close>

function best_zero_run :: "nat list \<Rightarrow> nat \<Rightarrow> nat \<times> nat \<Rightarrow> nat \<times> nat" where
  "best_zero_run [] index best = best"
| "best_zero_run (g # gs) index best =
     (if g \<noteq> 0 then best_zero_run gs (Suc index) best
      else let run = length (takeWhile (\<lambda>x. x = 0) (g # gs)) in
        best_zero_run (drop run (g # gs)) (index + run) (if snd best < run \<and> 2 \<le> run then (index, run) else best))"
  by pat_completeness auto

termination
  by (relation "measure (\<lambda>(gs, index, best). length gs)") auto

fun word_groups :: "byte list \<Rightarrow> nat list" where
  "word_groups (a # b # bs) = (unat a * 256 + unat b) # word_groups bs"
| "word_groups bs = []"

definition formatIpv6 :: "byte list \<Rightarrow> string res" where
  "formatIpv6 bs = (if length bs \<noteq> 16 then Inl ''invalid IPv6 DNS answer''
     else let groups = word_groups bs; (bestStart, bestLength) = best_zero_run groups 0 (0, 0);
              text = (\<lambda>gs. join_with '':'' (map show_hex gs)) in
       Inr (if bestLength = 0 then text groups
            else text (take bestStart groups) @ ''::'' @ text (drop (bestStart + bestLength) groups)))"

definition isGlobalIpv6Bytes :: "byte list \<Rightarrow> bool" where
  "isGlobalIpv6Bytes bs \<longleftrightarrow> length bs = 16 \<and> hd bs AND 0xe0 = 0x20"

definition hasOnlyGlobalIpv6Answers :: "byte list \<Rightarrow> DnsResourceRecord list \<Rightarrow> string \<Rightarrow> bool" where
  "hasOnlyGlobalIpv6Answers response answers requestedName = (let
     attributedNames = attributedAnswerNames answers requestedName;
     addresses = filter (\<lambda>a. rr_class a = DNS_CLASS_IN \<and> rr_owner a \<in> set attributedNames
       \<and> (rr_type a = DNS_TYPE_A \<or> rr_type a = DNS_TYPE_AAAA)) answers
     in addresses \<noteq> [] \<and> list_all (\<lambda>a. rr_type a = DNS_TYPE_AAAA \<and> dataLength a = 16
       \<and> isGlobalIpv6Bytes (take (dataLength a) (drop (dataOffset a) response))) addresses)"

section \<open>Responses of the proxy itself\<close>

definition without_answers :: "int \<Rightarrow> byte list \<Rightarrow> byte list" where
  "without_answers flags m = writeUInt16BE 0 10 (writeUInt16BE 0 8 (writeUInt16BE 0 6 (writeUInt16BE flags 2 m)))"

definition createDnsNoDataResponse :: "byte list \<Rightarrow> string + byte list" where
  "createDnsNoDataResponse query = sum_bind (parseDnsQuestion query False) (\<lambda>question.
     Inr (without_answers (0x8080 OR (readUInt16BE query 2 AND 0x0110)) (take (questionEnd question) query)))"

definition createDnsFailureResponse :: "byte list \<Rightarrow> byte list option" where
  "createDnsFailureResponse query = (case parseDnsQuestion query False of
       Inl e \<Rightarrow> None
     | Inr question \<Rightarrow> Some (without_answers (0x8082 OR (readUInt16BE query 2 AND 0x0100)) (take (questionEnd question) query)))"

end
