(* ===== verification/Dns_Leases.thy ===== *)
theory Dns_Leases
  imports Dns_Message
begin

text \<open>
  The table of synthetic addresses and the rewriting of responses: \<open>SyntheticDnsLeaseTable\<close> and \<open>rewriteAddressAnswers\<close> of
  \<open>src/src/policy/network/SyntheticDnsProxy.ts\<close>.  A request for a lease is split at its await: \<open>lease_begin\<close> answers at
  once or leaves a pending creation, \<open>lease_settle\<close> ends it with the result of installing the lease.  The clock is an
  argument of each operation.
\<close>

section \<open>State\<close>

record SyntheticDnsLease =
  lease_hostname :: string
  lease_family :: NetworkAddressFamily
  syntheticAddress :: string
  realAddress :: string
  expiresAt :: int
  ttlSeconds :: int

text \<open>A pending creation is the error it will end with, or the lease that is being installed.\<close>

record SyntheticDnsLeaseTable =
  leasesBySyntheticAddress :: "(string \<times> SyntheticDnsLease) list"
  leasesByAnswer :: "(string \<times> SyntheticDnsLease) list"
  pendingByAnswer :: "(string \<times> (string + SyntheticDnsLease)) list"
  installedLeaseCount :: nat
  nextIpv4Lease :: nat
  nextIpv6Lease :: nat

definition MAX_DNS_LEASES :: nat where "MAX_DNS_LEASES = 4096"
definition MAX_DNS_TTL_SECONDS :: int where "MAX_DNS_TTL_SECONDS = 60"
definition MIN_DNS_TTL_SECONDS :: int where "MIN_DNS_TTL_SECONDS = 1"

definition new_SyntheticDnsLeaseTable :: SyntheticDnsLeaseTable where
  "new_SyntheticDnsLeaseTable = \<lparr>leasesBySyntheticAddress = [], leasesByAnswer = [], pendingByAnswer = [],
     installedLeaseCount = 0, nextIpv4Lease = 1, nextIpv6Lease = 1\<rparr>"

definition answer_key :: "string \<Rightarrow> NetworkAddressFamily \<Rightarrow> string \<Rightarrow> string" where
  "answer_key hostname fam real = hostname @ [CHR 0x00] @ familyValue fam @ [CHR 0x00] @ real"

definition answerKey :: "SyntheticDnsLease \<Rightarrow> string" where
  "answerKey lease = answer_key (lease_hostname lease) (lease_family lease) (realAddress lease)"

definition isSyntheticAddress :: "string \<Rightarrow> bool" where
  "isSyntheticAddress addr = (if isIP addr = 4 then
       (let octets = map read_nat (split_on (CHR ''.'') addr) in octets ! 0 = 198 \<and> (octets ! 1 = 18 \<or> octets ! 1 = 19))
     else if isIP addr \<noteq> 6 then False
     else (case parseIpAddress addr IPV6 of
         Inl e \<Rightarrow> False
       | Inr bs \<Rightarrow> bs ! 0 = 0x20 \<and> bs ! 1 = 0x01 \<and> bs ! 2 = 0x00 \<and> bs ! 3 = 0x02 \<and> bs ! 4 = 0x00 \<and> bs ! 5 = 0x00))"

definition validateAnswer :: "NetworkAddressFamily \<Rightarrow> string \<Rightarrow> unit res" where
  "validateAnswer fam addr = (if isIP addr \<noteq> ip_version fam then Inl ''DNS answer used an invalid address family''
     else if isSyntheticAddress addr then Inl ''DNS answer overlaps the synthetic lease range'' else Inr ())"

section \<open>Allocation\<close>

definition ipv4_text :: "nat \<Rightarrow> string" where
  "ipv4_text value = ''198.'' @ show_nat (18 + value div 65536) @ ''.'' @ show_nat (value div 256 mod 256) @ ''.'' @ show_nat (value mod 256)"

definition ipv6_text :: "nat \<Rightarrow> string" where
  "ipv6_text value = ''2001:2::'' @ show_hex value"

definition allocateIpv4Address :: "SyntheticDnsLeaseTable \<Rightarrow> string + string \<times> SyntheticDnsLeaseTable" where
  "allocateIpv4Address t = (if 131072 \<le> nextIpv4Lease t then Inl ''synthetic IPv4 lease range exhausted''
     else Inr (ipv4_text (nextIpv4Lease t), t\<lparr>nextIpv4Lease := Suc (nextIpv4Lease t)\<rparr>))"

definition allocateIpv6Address :: "SyntheticDnsLeaseTable \<Rightarrow> string + string \<times> SyntheticDnsLeaseTable" where
  "allocateIpv6Address t = (if 0xffffffff < nextIpv6Lease t then Inl ''synthetic IPv6 lease range exhausted''
     else Inr (ipv6_text (nextIpv6Lease t), t\<lparr>nextIpv6Lease := Suc (nextIpv6Lease t)\<rparr>))"

definition allocate :: "NetworkAddressFamily \<Rightarrow> SyntheticDnsLeaseTable \<Rightarrow> string + string \<times> SyntheticDnsLeaseTable" where
  "allocate fam t = (case fam of IPV4 \<Rightarrow> allocateIpv4Address t | IPV6 \<Rightarrow> allocateIpv6Address t)"

section \<open>Leases\<close>

definition prune_lease :: "int \<Rightarrow> string \<times> SyntheticDnsLease \<Rightarrow> SyntheticDnsLeaseTable \<Rightarrow> SyntheticDnsLeaseTable" where
  "prune_lease now e t = (if now < expiresAt (snd e) then t
     else t\<lparr>leasesBySyntheticAddress := od_delete (fst e) (leasesBySyntheticAddress t),
            leasesByAnswer := od_delete (answerKey (snd e)) (leasesByAnswer t)\<rparr>)"

definition pruneExpiredLeases :: "int \<Rightarrow> SyntheticDnsLeaseTable \<Rightarrow> SyntheticDnsLeaseTable" where
  "pruneExpiredLeases now t = fold (prune_lease now) (leasesBySyntheticAddress t) t"

text \<open>\<open>createLease\<close> up to the await: the lease to install, or the error.\<close>

definition create_lease :: "int \<Rightarrow> string \<Rightarrow> NetworkAddressFamily \<Rightarrow> string \<Rightarrow> int \<Rightarrow> SyntheticDnsLeaseTable
      \<Rightarrow> (string + SyntheticDnsLease) \<times> SyntheticDnsLeaseTable" where
  "create_lease now hostname fam real ttl t = (let t = pruneExpiredLeases now t in
     if MAX_DNS_LEASES \<le> installedLeaseCount t then (Inl ''synthetic DNS lease limit exceeded'', t)
     else let boundedTtl = max MIN_DNS_TTL_SECONDS (min MAX_DNS_TTL_SECONDS ttl) in
       case allocate fam t of
         Inl e \<Rightarrow> (Inl e, t)
       | Inr (addr, t') \<Rightarrow> (Inr \<lparr>lease_hostname = hostname, lease_family = fam, syntheticAddress = addr, realAddress = real,
             expiresAt = now + boundedTtl * 1000, ttlSeconds = boundedTtl\<rparr>,
           t'\<lparr>installedLeaseCount := Suc (installedLeaseCount t')\<rparr>))"

datatype lease_answer = Lease_error string | Lease_existing SyntheticDnsLease | Lease_pending string

definition lease_begin :: "int \<Rightarrow> string \<Rightarrow> NetworkAddressFamily \<Rightarrow> string \<Rightarrow> int \<Rightarrow> SyntheticDnsLeaseTable
      \<Rightarrow> SyntheticDnsLeaseTable \<times> lease_answer" where
  "lease_begin now hostname fam real ttl t =
     (case sum_bind (validateDnsHostname hostname) (\<lambda>_. sum_bind (validateAnswer fam real) (\<lambda>_.
         if ttl < 0 \<or> 0xffffffff < ttl then Inl ''DNS answer used an invalid TTL'' else Inr ())) of
       Inl e \<Rightarrow> (t, Lease_error e)
     | Inr _ \<Rightarrow> (let key = answer_key hostname fam real in
         case map_of (leasesByAnswer t) key of
           Some existing \<Rightarrow>
             if now < expiresAt existing then (t, Lease_existing existing)
             else let t1 = t\<lparr>leasesByAnswer := od_delete key (leasesByAnswer t),
                             leasesBySyntheticAddress := od_delete (syntheticAddress existing) (leasesBySyntheticAddress t)\<rparr> in
               if map_of (pendingByAnswer t1) key \<noteq> None then (t1, Lease_pending key)
               else (case create_lease now hostname fam real ttl t1 of (creation, t2) \<Rightarrow>
                 (t2\<lparr>pendingByAnswer := od_set key creation (pendingByAnswer t2)\<rparr>, Lease_pending key))
         | None \<Rightarrow>
             if map_of (pendingByAnswer t) key \<noteq> None then (t, Lease_pending key)
             else (case create_lease now hostname fam real ttl t of (creation, t2) \<Rightarrow>
               (t2\<lparr>pendingByAnswer := od_set key creation (pendingByAnswer t2)\<rparr>, Lease_pending key))))"

text \<open>The end of a pending creation; \<open>failure\<close> is what installing the lease threw.\<close>

definition lease_settle :: "string \<Rightarrow> string option \<Rightarrow> SyntheticDnsLeaseTable \<Rightarrow> SyntheticDnsLeaseTable \<times> (string + SyntheticDnsLease) option" where
  "lease_settle key failure t = (let t1 = t\<lparr>pendingByAnswer := od_delete key (pendingByAnswer t)\<rparr> in
     case map_of (pendingByAnswer t) key of
       None \<Rightarrow> (t, None)
     | Some (Inl e) \<Rightarrow> (t1, Some (Inl e))
     | Some (Inr lease) \<Rightarrow> (case failure of
           Some e \<Rightarrow> (t1\<lparr>installedLeaseCount := installedLeaseCount t1 - 1\<rparr>, Some (Inl e))
         | None \<Rightarrow> (t1\<lparr>leasesBySyntheticAddress := od_set (syntheticAddress lease) lease (leasesBySyntheticAddress t1),
                       leasesByAnswer := od_set key lease (leasesByAnswer t1)\<rparr>, Some (Inr lease))))"

definition remainingTtlSeconds :: "int \<Rightarrow> SyntheticDnsLease \<Rightarrow> int" where
  "remainingTtlSeconds now lease = max 1 ((expiresAt lease - now) div 1000)"

definition lookup :: "int \<Rightarrow> string \<Rightarrow> SyntheticDnsLeaseTable \<Rightarrow> SyntheticDnsLeaseTable \<times> SyntheticDnsLease option" where
  "lookup now addr t = (case map_of (leasesBySyntheticAddress t) addr of
       None \<Rightarrow> (t, None)
     | Some lease \<Rightarrow> if now < expiresAt lease then (t, Some lease)
         else (t\<lparr>leasesBySyntheticAddress := od_delete addr (leasesBySyntheticAddress t),
                 leasesByAnswer := od_delete (answerKey lease) (leasesByAnswer t)\<rparr>, None))"

section \<open>Rewriting a response\<close>

text \<open>The family of an address answer that is attributed to the question.\<close>

definition answer_family :: "string list \<Rightarrow> DnsResourceRecord \<Rightarrow> NetworkAddressFamily option" where
  "answer_family attributedNames answer = (if rr_class answer \<noteq> DNS_CLASS_IN \<or> rr_owner answer \<notin> set attributedNames then None
     else if rr_type answer = DNS_TYPE_A \<and> dataLength answer = 4 then Some IPV4
     else if rr_type answer = DNS_TYPE_AAAA \<and> dataLength answer = 16 then Some IPV6 else None)"

definition answer_text :: "NetworkAddressFamily \<Rightarrow> DnsResourceRecord \<Rightarrow> byte list \<Rightarrow> string res" where
  "answer_text fam answer response = (let bs = take (dataLength answer) (drop (dataOffset answer) response) in
     case fam of IPV4 \<Rightarrow> formatIpv4 bs | IPV6 \<Rightarrow> formatIpv6 bs)"

text \<open>\<open>grant\<close> is what the table answered when asked for a lease of the requested name for an address, with the remaining
  lifetime at that moment: the table may change between two answers, so it also depends on how many answers were leased
  before.\<close>

fun rewrite_answers :: "(nat \<Rightarrow> string \<Rightarrow> NetworkAddressFamily \<Rightarrow> string \<Rightarrow> int \<Rightarrow> string + SyntheticDnsLease \<times> int) \<Rightarrow> string \<Rightarrow> string list
      \<Rightarrow> DnsResourceRecord list \<Rightarrow> nat \<Rightarrow> byte list \<Rightarrow> string + byte list \<times> nat" where
  "rewrite_answers grant requestedName names [] k response = Inr (response, k)"
| "rewrite_answers grant requestedName names (answer # answers) k response = (case answer_family names answer of
       None \<Rightarrow> rewrite_answers grant requestedName names answers k response
     | Some fam \<Rightarrow> sum_bind (answer_text fam answer response) (\<lambda>real.
         sum_bind (grant k requestedName fam real (rr_ttl answer)) (\<lambda>(lease, remaining).
         sum_bind (parseIpAddress (syntheticAddress lease) fam) (\<lambda>syntheticBytes.
           rewrite_answers grant requestedName names answers (Suc k)
             (writeUInt32BE remaining (ttlOffset answer) (splice response (dataOffset answer) syntheticBytes))))))"

definition rewriteAddressAnswers :: "(nat \<Rightarrow> string \<Rightarrow> NetworkAddressFamily \<Rightarrow> string \<Rightarrow> int \<Rightarrow> string + SyntheticDnsLease \<times> int)
      \<Rightarrow> byte list \<Rightarrow> DnsResourceRecord list \<Rightarrow> string \<Rightarrow> string + byte list" where
  "rewriteAddressAnswers grant original answers requestedName =
     sum_bind (rewrite_answers grant requestedName (attributedAnswerNames answers requestedName) answers 0 original) (\<lambda>(response, leased).
       Inr (if 0 < leased then writeUInt16BE (readUInt16BE response 2 AND NOT 0x0020) 2 response else response))"

text \<open>\<open>answerQuery\<close>: \<open>upstream\<close> is the response of the resolver, or the error of asking it.\<close>

definition answerQuery :: "bool option \<Rightarrow> (nat \<Rightarrow> string \<Rightarrow> NetworkAddressFamily \<Rightarrow> string \<Rightarrow> int \<Rightarrow> string + SyntheticDnsLease \<times> int)
      \<Rightarrow> byte list \<Rightarrow> string + byte list \<Rightarrow> string + byte list" where
  "answerQuery globalIpv6Available grant query upstream =
     (if MAX_DNS_MESSAGE_LENGTH < length query then Inl ''DNS query exceeds the message limit''
      else sum_bind (parseDnsQuestion query False) (\<lambda>question. sum_bind upstream (\<lambda>response.
        sum_bind (parseDnsResponse response) (\<lambda>(rq, answers).
          if q_id rq \<noteq> q_id question \<or> q_name rq \<noteq> q_name question \<or> q_type rq \<noteq> q_type question
          then Inl ''upstream DNS response did not match its query''
          else if q_type question = DNS_TYPE_AAAA \<and> globalIpv6Available = Some False
            \<and> hasOnlyGlobalIpv6Answers response answers (q_name question)
          then createDnsNoDataResponse query
          else rewriteAddressAnswers grant response answers (q_name question)))))"

text \<open>\<open>handleQuery\<close> and \<open>processQuery\<close>: the datagrams the proxy tries to send back.  \<open>sendFails\<close> says whether sending the
  answer fails, \<open>stopped\<close> whether the proxy is being closed when the failure is to be sent.\<close>

definition failure_datagrams :: "bool \<Rightarrow> byte list \<Rightarrow> byte list list" where
  "failure_datagrams stopped query = (case createDnsFailureResponse query of
     None \<Rightarrow> [] | Some failure \<Rightarrow> if stopped then [] else [failure])"

definition processQuery :: "bool option \<Rightarrow> (nat \<Rightarrow> string \<Rightarrow> NetworkAddressFamily \<Rightarrow> string \<Rightarrow> int \<Rightarrow> string + SyntheticDnsLease \<times> int)
      \<Rightarrow> bool \<Rightarrow> bool \<Rightarrow> byte list \<Rightarrow> string + byte list \<Rightarrow> byte list list" where
  "processQuery globalIpv6Available grant sendFails stopped query upstream = (case answerQuery globalIpv6Available grant query upstream of
       Inr response \<Rightarrow> response # (if sendFails then failure_datagrams stopped query else [])
     | Inl e \<Rightarrow> failure_datagrams stopped query)"

definition handleQuery :: "bool \<Rightarrow> bool option \<Rightarrow> (nat \<Rightarrow> string \<Rightarrow> NetworkAddressFamily \<Rightarrow> string \<Rightarrow> int \<Rightarrow> string + SyntheticDnsLease \<times> int)
      \<Rightarrow> bool \<Rightarrow> bool \<Rightarrow> byte list \<Rightarrow> string + byte list \<Rightarrow> byte list list" where
  "handleQuery stopping globalIpv6Available grant sendFails stopped query upstream =
     (if stopping then [] else processQuery globalIpv6Available grant sendFails stopped query upstream)"

end
