(* ===== verification/Dns_Names.thy ===== *)
theory Dns_Names
  imports Dns_Message
begin

text \<open>
  What reading a DNS message guarantees: names are host names, reading ends and moves forward, written names are read
  back, records follow each other, and the names attributed to a question are those that aliases lead to.
\<close>

section \<open>Bits of a length byte\<close>

lemma length_byte: "n < 64 \<Longrightarrow> (of_nat n :: 8 word) AND 0xc0 = 0"
proof -
  have "list_all (\<lambda>n. (of_nat n :: 8 word) AND 0xc0 = 0) [0..<64]" by code_simp
  then show "n < 64 \<Longrightarrow> (of_nat n :: 8 word) AND 0xc0 = 0" by (simp add: list_all_iff)
qed

lemma length_byte_unat: "n < 64 \<Longrightarrow> unat (of_nat n :: 8 word) = n"
  by (simp add: unat_of_nat)

section \<open>Host names\<close>

lemma join_with_length_append:
  "xs \<noteq> [] \<Longrightarrow> length (join_with d (xs @ [y])) = length (join_with d xs) + length d + length y"
  by (induction d xs rule: join_with.induct) auto

lemma label_edge_not: "label_edge c \<Longrightarrow> c \<noteq> CHR ''.'' \<and> lower_char c = c"
  by (auto simp: label_edge_def Let_def lower_char_def)

lemma dns_label_chars: "dns_label l \<Longrightarrow> CHR ''.'' \<notin> set l \<and> js_lower l = l"
proof -
  assume "dns_label l"
  then have "\<forall>c \<in> set l. label_edge c \<or> c = CHR ''-''" by (auto simp: dns_label_def list_all_iff)
  moreover have "lower_char (CHR ''-'') = CHR ''-''" by code_simp
  ultimately have "\<forall>c \<in> set l. c \<noteq> CHR ''.'' \<and> lower_char c = c" using label_edge_not by fastforce
  then show ?thesis by (auto simp: js_lower_def intro!: map_idI)
qed

lemma js_lower_join: "\<forall>l \<in> set ls. js_lower l = l \<Longrightarrow> js_lower d = d \<Longrightarrow> js_lower (join_with d ls) = join_with d ls"
  by (induction d ls rule: join_with.induct) (auto simp: js_lower_def)

lemma join_labels_ok:
  assumes "ls \<noteq> []" "list_all dns_label ls" "length (join_with ''.'' ls) \<le> 253"
  shows "dns_name_ok (join_with ''.'' ls)"
proof -
  have chars: "\<forall>l \<in> set ls. CHR ''.'' \<notin> set l \<and> js_lower l = l" using assms(2) dns_label_chars by (auto simp: list_all_iff)
  then have s: "split_on (CHR ''.'') (join_with ''.'' ls) = ls" using assms(1) by (intro split_join) auto
  have "hd ls \<noteq> []" using assms(1,2) by (cases ls) (auto simp: dns_label_def)
  then have "join_with ''.'' ls \<noteq> []" using assms(1) by (cases ls; cases "tl ls") auto
  moreover have "js_lower ''.'' = ''.''" by code_simp
  ultimately show ?thesis using assms chars s js_lower_join [of ls "''.''"] by (simp add: dns_name_ok_def)
qed

section \<open>Reading a name\<close>

lemma read_name_ok:
  assumes "read_name m visited labels offset nextOffset = Inr (name, e)" "list_all dns_label labels"
    "length (join_with ''.'' labels) \<le> 253"
  shows "(\<exists>ls. name = join_with ''.'' ls \<and> list_all dns_label ls \<and> length name \<le> 253)
    \<and> (case nextOffset of Some n \<Rightarrow> e = n | None \<Rightarrow> offset < e \<and> e \<le> length m)"
  using assms
proof (induction m visited labels offset nextOffset rule: read_name.induct)
  case (1 m visited labels offset nextOffset)
  let ?len = "m ! offset"
  let ?label = "js_lower (map (\<lambda>b. char_of (unat b)) (take (unat ?len) (drop (offset + 1) m)))"
  have in_range: "\<not> (length m \<le> offset \<or> offset \<in> set visited)" using "1.prems"(1) by (subst (asm) read_name.simps) (auto split: if_splits)
  show ?case
  proof (cases "?len AND 0xc0 = 0xc0")
    case True
    let ?p = "unat (?len AND 0x3f) * 256 + unat (m ! (offset + 1))"
    have c: "\<not> length m \<le> offset + 1" "\<not> length m \<le> ?p"
      and r: "read_name m (offset # visited) labels ?p (Some (the_default (offset + 2) nextOffset)) = Inr (name, e)"
      using "1.prems"(1) in_range True by (subst (asm) read_name.simps; simp add: Let_def split: if_splits)+
    from "1.IH"(1) [OF in_range refl True c(1) refl c(2) r "1.prems"(2,3)] c show ?thesis by (cases nextOffset) auto
  next
    case ptr: False
    show ?thesis
    proof (cases "?len = 0")
      case True
      then show ?thesis using "1.prems" in_range ptr
        by (subst (asm) read_name.simps) (cases nextOffset, auto simp: Let_def split: if_splits)
    next
      case False
      have c: "\<not> (?len AND 0xc0 \<noteq> 0 \<or> 63 < unat ?len)" "\<not> length m < offset + 1 + unat ?len"
        "\<not> list_ex (\<lambda>b. 0x7f < b) (take (unat ?len) (drop (offset + 1) m))" "\<not> \<not> dns_label ?label"
        "\<not> 253 < length (join_with ''.'' (labels @ [?label]))"
        and r: "read_name m (offset # visited) (labels @ [?label]) (offset + 1 + unat ?len) nextOffset = Inr (name, e)"
        using "1.prems"(1) in_range ptr False by (subst (asm) read_name.simps; simp add: Let_def split: if_splits)+
      have "list_all dns_label (labels @ [?label])" using c(4) "1.prems"(2) by simp
      from "1.IH"(2) [OF in_range refl ptr c(1) False c(2) refl c(3) refl c(4,5) r this] c(5) show ?thesis
        by (cases nextOffset) auto
    qed
  qed
qed

lemma readDnsName_ok:
  assumes "readDnsName m offset = Inr (name, e)"
  shows "name = [] \<or> dns_name_ok name" "offset < e" "e \<le> length m"
proof -
  have r: "(\<exists>ls. name = join_with ''.'' ls \<and> list_all dns_label ls \<and> length name \<le> 253) \<and> offset < e \<and> e \<le> length m"
    using read_name_ok [OF assms [unfolded readDnsName_def]] by simp
  then obtain ls where ls: "name = join_with ''.'' ls" "list_all dns_label ls" "length name \<le> 253" by blast
  show "name = [] \<or> dns_name_ok name" using join_labels_ok [of ls] ls by (cases "ls = []") auto
  show "offset < e" "e \<le> length m" using r by auto
qed

section \<open>Writing a name\<close>

text \<open>The uncompressed form of a name: every label after its length, closed by an empty label.\<close>

definition label_bytes :: "string \<Rightarrow> byte list" where
  "label_bytes l = of_nat (length l) # map (\<lambda>c. of_nat (of_char c)) l"

definition encode_name :: "string \<Rightarrow> byte list" where
  "encode_name name = concat (map label_bytes (split_on (CHR ''.'') name)) @ [0]"

lemma label_edge_ascii: "label_edge c \<or> c = CHR ''-'' \<Longrightarrow> (of_char c :: nat) < 128"
  by (auto simp: label_edge_def Let_def)

lemma label_byte_char: "(of_char c :: nat) < 128 \<Longrightarrow> char_of (unat (of_nat (of_char c) :: byte)) = c \<and> \<not> 0x7f < (of_nat (of_char c) :: byte)"
proof -
  assume a: "(of_char c :: nat) < 128"
  then have "unat (of_nat (of_char c) :: byte) = of_char c" by (simp add: unat_of_nat)
  then show ?thesis using a by (simp add: word_less_nat_alt)
qed

lemma read_name_label:
  assumes l: "dns_label l" and pos: "length pre \<notin> set visited" and fits: "length (join_with ''.'' (labels @ [l])) \<le> 253"
  shows "read_name (pre @ label_bytes l @ post) visited labels (length pre) nextOffset
    = read_name (pre @ label_bytes l @ post) (length pre # visited) (labels @ [l]) (length pre + length (label_bytes l)) nextOffset"
proof -
  let ?m = "pre @ label_bytes l @ post"
  have len: "0 < length l" "length l < 64" and ascii: "\<forall>c \<in> set l. (of_char c :: nat) < 128"
    using l label_edge_ascii by (auto simp: dns_label_def list_all_iff)
  have b: "?m ! length pre = of_nat (length l)" by (simp add: label_bytes_def)
  have u: "unat (of_nat (length l) :: byte) = length l" "(of_nat (length l) :: byte) AND 0xc0 = 0"
    using len length_byte_unat length_byte by auto
  then have nz: "(of_nat (length l) :: byte) \<noteq> 0" using len by (metis neq0_conv unat_0)
  have t: "take (length l) (drop (length pre + 1) ?m) = map (\<lambda>c. of_nat (of_char c)) l" by (simp add: label_bytes_def)
  have lower: "js_lower (map ((\<lambda>b. char_of (unat b)) \<circ> (\<lambda>c. of_nat (of_char c) :: byte)) l) = l"
  proof -
    have "map ((\<lambda>b. char_of (unat b)) \<circ> (\<lambda>c. of_nat (of_char c) :: byte)) l = l" using ascii label_byte_char by (intro map_idI) auto
    then show ?thesis using dns_label_chars [OF l] by simp
  qed
  have "\<not> list_ex (\<lambda>b. 0x7f < b) (map (\<lambda>c. of_nat (of_char c) :: byte) l)"
    using ascii label_byte_char by (auto simp: list_ex_iff)
  then show ?thesis using pos len fits nz l
    by (subst read_name.simps) (simp add: b u t lower label_bytes_def [of l] Let_def)
qed

lemma read_name_labels:
  assumes "list_all dns_label ls" "length (join_with ''.'' (labels @ ls)) \<le> 253" "\<forall>v \<in> set visited. v < length pre"
  shows "read_name (pre @ concat (map label_bytes ls) @ [0] @ post) visited labels (length pre) None
    = Inr (join_with ''.'' (labels @ ls), length pre + length (concat (map label_bytes ls)) + 1)"
  using assms
proof (induction ls arbitrary: pre visited labels)
  case Nil
  have "length pre \<notin> set visited" using Nil.prems(3) by blast
  then show ?case by (subst read_name.simps) (simp add: Let_def)
next
  case (Cons l ls)
  have p: "length (join_with ''.'' (labels @ [l])) \<le> length (join_with ''.'' (labels @ l # ls))"
  proof -
    have "length (join_with d xs) \<le> length (join_with d (xs @ ys))" for d and xs ys :: "string list"
      by (induction d xs rule: join_with.induct) (auto, cases ys, auto)
    from this [of "''.''" "labels @ [l]" ls] show ?thesis by simp
  qed
  let ?pre = "pre @ label_bytes l"
  have "length pre < length ?pre" by (simp add: label_bytes_def)
  then have v: "\<forall>v \<in> set (length pre # visited). v < length ?pre" using Cons.prems(3) by auto
  have "read_name (pre @ label_bytes l @ (concat (map label_bytes ls) @ [0] @ post)) visited labels (length pre) None
      = read_name (pre @ label_bytes l @ (concat (map label_bytes ls) @ [0] @ post)) (length pre # visited) (labels @ [l]) (length ?pre) None"
    using Cons.prems p by (subst read_name_label) auto
  also have "\<dots> = Inr (join_with ''.'' ((labels @ [l]) @ ls), length ?pre + length (concat (map label_bytes ls)) + 1)"
    using Cons.IH [of "labels @ [l]" "length pre # visited" ?pre] Cons.prems v by simp
  finally show ?case by simp
qed

text \<open>Reading back a written name: the uncompressed form of a valid host name, anywhere in a message, is read as that name,
  and reading stops right behind it.\<close>

theorem readDnsName_encode:
  assumes "dns_name_ok name"
  shows "readDnsName (pre @ encode_name name @ post) (length pre) = Inr (name, length pre + length (encode_name name))"
  using read_name_labels [of "split_on (CHR ''.'') name" "[]" "[]" pre post] assms join_split [of "CHR ''.''" name]
  by (simp add: readDnsName_def encode_name_def dns_name_ok_def)

section \<open>Records follow each other\<close>

fun chained :: "nat \<Rightarrow> DnsResourceRecord list \<Rightarrow> nat \<Rightarrow> bool" where
  "chained lo [] hi = (lo \<le> hi)"
| "chained lo (a # as) hi = (lo \<le> ttlOffset a \<and> dataOffset a = ttlOffset a + 6 \<and> chained (dataOffset a + dataLength a) as hi)"

lemma chained_le: "chained lo as hi \<Longrightarrow> lo \<le> hi"
  by (induction as arbitrary: lo) fastforce+

lemma parse_record_ok:
  assumes "parse_record m start = Inr (r, e)"
  shows "start \<le> ttlOffset r" "dataOffset r = ttlOffset r + 6" "e = dataOffset r + dataLength r" "e \<le> length m"
proof -
  obtain owner o1 where o: "readDnsName m start = Inr (owner, o1)"
    using assms by (cases "readDnsName m start") (auto simp: parse_record_def)
  then have "start < o1" using readDnsName_ok(2) by blast
  then show "start \<le> ttlOffset r" "dataOffset r = ttlOffset r + 6" "e = dataOffset r + dataLength r" "e \<le> length m"
    using assms o by (auto simp: parse_record_def Let_def sum_bind_Inr split: if_splits)
qed

lemma parse_records_chained:
  "parse_records m n k offset = Inr (rs, e) \<Longrightarrow> offset \<le> length m \<Longrightarrow> chained offset rs e \<and> e \<le> length m"
proof (induction m n k offset arbitrary: rs e rule: parse_records.induct)
  case (2 m n k offset)
  from "2.prems"(1) obtain r e1 rs1 where r: "parse_record m offset = Inr (r, e1)" "parse_records m n (k - 1) e1 = Inr (rs1, e)"
    "rs = (if 0 < k then r # rs1 else rs1)"
    by (auto simp: sum_bind_Inr)
  note ok = parse_record_ok [OF r(1)]
  have IH: "chained e1 rs1 e \<and> e \<le> length m" using "2.IH" [OF r(2)] ok(4) by blast
  have "chained offset rs1 e" using IH ok by (cases rs1) auto
  then show ?case using IH ok r(3) by simp
qed simp

section \<open>Attributed names\<close>

text \<open>An answer that says that one name is an alias of another.\<close>

definition cname_edge :: "DnsResourceRecord list \<Rightarrow> string \<Rightarrow> string \<Rightarrow> bool" where
  "cname_edge answers n c \<longleftrightarrow> (\<exists>a \<in> set answers. rr_type a = DNS_TYPE_CNAME \<and> rr_class a = DNS_CLASS_IN
     \<and> rr_owner a = n \<and> rr_cname a = Some c \<and> c \<noteq> [])"

lemma attributes_Some:
  "attributes names a = Some c \<Longrightarrow> a \<in> set answers \<Longrightarrow> \<exists>n \<in> set names. cname_edge answers n c \<and> c \<notin> set names"
  by (auto simp: attributes_def cname_edge_def split: if_splits option.splits)

lemma attributed_round_extends: "\<exists>new. attributed_round as names = names @ new"
  by (induction as names rule: attributed_round.induct) (auto split: option.splits)

lemma attributed_round_sound:
  assumes "set as \<subseteq> set answers" "\<forall>n \<in> set names. (cname_edge answers)\<^sup>*\<^sup>* q n" "distinct names"
  shows "(\<forall>n \<in> set (attributed_round as names). (cname_edge answers)\<^sup>*\<^sup>* q n) \<and> distinct (attributed_round as names)"
  using assms
proof (induction as names rule: attributed_round.induct)
  case (2 a as names)
  show ?case
  proof (cases "attributes names a")
    case (Some c)
    obtain n where n: "n \<in> set names" "cname_edge answers n c" "c \<notin> set names"
      using attributes_Some [OF Some, of answers] 2(3) by auto
    then have "(cname_edge answers)\<^sup>*\<^sup>* q c" using 2(4) rtranclp.rtrancl_into_rtrancl by metis
    then show ?thesis using 2(2) [OF Some] 2(3-5) n Some by simp
  qed (use 2 in simp)
qed simp

lemma attributed_round_fixed:
  "attributed_round as names = names \<Longrightarrow> a \<in> set as \<Longrightarrow> attributes names a = None"
proof (induction as names rule: attributed_round.induct)
  case (2 b as names)
  obtain new where n: "attributed_round as names = names @ new" using attributed_round_extends by blast
  show ?case
  proof (cases "attributes names b")
    case (Some c)
    obtain new' where "attributed_round as (names @ [c]) = (names @ [c]) @ new'" using attributed_round_extends by blast
    then show ?thesis using 2(3) Some by simp
  qed (use 2 in auto)
qed simp

text \<open>Every name but the first is the target of an answer, so the list is at most one longer than the answers.\<close>

lemma attributed_length:
  assumes "distinct names" "\<forall>n \<in> set names. (cname_edge answers)\<^sup>*\<^sup>* q n"
  shows "length names \<le> Suc (length answers)"
proof -
  have "set names \<subseteq> insert q ((\<lambda>a. the (rr_cname a)) ` set answers)"
  proof
    fix n
    assume "n \<in> set names"
    then have "(cname_edge answers)\<^sup>*\<^sup>* q n" using assms(2) by blast
    then show "n \<in> insert q ((\<lambda>a. the (rr_cname a)) ` set answers)"
      by (cases rule: rtranclp.cases) (force simp: cname_edge_def image_iff)+
  qed
  then have "card (set names) \<le> card (insert q ((\<lambda>a. the (rr_cname a)) ` set answers))" by (intro card_mono) auto
  also have "\<dots> \<le> Suc (card ((\<lambda>a. the (rr_cname a)) ` set answers))" by (rule card_insert_le_m1) auto
  also have "\<dots> \<le> Suc (length answers)" using card_image_le [of "set answers"] card_length [of answers] le_trans by blast
  finally show ?thesis using assms(1) by (simp add: distinct_card)
qed

lemma attributed_loop_closed:
  assumes "Suc (length answers) < n + length names" "distinct names" "\<forall>k \<in> set names. (cname_edge answers)\<^sup>*\<^sup>* q k"
  shows "set names \<subseteq> set (attributed_loop n answers names) \<and> (\<forall>k \<in> set (attributed_loop n answers names). (cname_edge answers)\<^sup>*\<^sup>* q k)
    \<and> (\<forall>a \<in> set answers. attributes (attributed_loop n answers names) a = None)"
  using assms
proof (induction n arbitrary: names)
  case 0
  then show ?case using attributed_length [of names answers q] by simp
next
  case (Suc n)
  let ?r = "attributed_round answers names"
  obtain new where new: "?r = names @ new" using attributed_round_extends by blast
  have sound: "\<forall>k \<in> set ?r. (cname_edge answers)\<^sup>*\<^sup>* q k" "distinct ?r"
    using attributed_round_sound [OF order_refl Suc.prems(3,2)] by auto
  show ?case
  proof (cases "?r = names")
    case True
    then show ?thesis using Suc.prems attributed_round_fixed by (simp add: Let_def)
  next
    case False
    then have "Suc (length answers) < n + length ?r" using new Suc.prems(1) by (cases new) auto
    from Suc.IH [OF this sound(2,1)] show ?thesis using False new by (simp add: Let_def)
  qed
qed

lemma attributedAnswerNames_closure: "set (attributedAnswerNames answers q) = {n. (cname_edge answers)\<^sup>*\<^sup>* q n}"
proof -
  let ?names = "attributedAnswerNames answers q"
  have c: "q \<in> set ?names" "\<forall>k \<in> set ?names. (cname_edge answers)\<^sup>*\<^sup>* q k" "\<forall>a \<in> set answers. attributes ?names a = None"
    using attributed_loop_closed [of answers "Suc (length answers)" "[q]" q] by (auto simp: attributedAnswerNames_def)
  have "n \<in> set ?names" if "(cname_edge answers)\<^sup>*\<^sup>* q n" for n
    using that
  proof (induction rule: rtranclp_induct)
    case (step n k)
    then obtain a where "a \<in> set answers" "rr_type a = DNS_TYPE_CNAME" "rr_class a = DNS_CLASS_IN" "rr_owner a = n" "rr_cname a = Some k" "k \<noteq> []"
      by (auto simp: cname_edge_def)
    then show ?case using c(3) step.IH by (force simp: attributes_def split: if_splits)
  qed (rule c(1))
  then show ?thesis using c(2) by blast
qed

end
