(* ===== verification/Dns_Safety.thy ===== *)
theory Dns_Safety
  imports Dns_Leases Dns_Names
begin

text \<open>
  Safety of the synthetic resolver: a synthetic address stands for one lease for ever, and a rewritten response shows
  synthetic addresses only.
\<close>

section \<open>Hexadecimal numbers\<close>

lemma hex_char_val: "d < 16 \<Longrightarrow> hex_val (hex_char d) = d \<and> lower_hex (hex_char d)"
proof -
  have "list_all (\<lambda>d. hex_val (hex_char d) = d \<and> lower_hex (hex_char d)) [0..<16]" by code_simp
  then show "d < 16 \<Longrightarrow> hex_val (hex_char d) = d \<and> lower_hex (hex_char d)" by (simp add: list_all_iff)
qed

lemma read_hex_append: "read_hex (s @ [c]) = read_hex s * 16 + hex_val c"
  by (simp add: read_hex_def)

lemma read_show_hex [simp]: "read_hex (show_hex n) = n"
proof (induction n rule: show_hex.induct)
  case (1 n)
  show ?case
  proof (cases "n < 16")
    case True
    then show ?thesis by (simp add: show_hex.simps [of n] read_hex_def hex_char_val)
  next
    case False
    then show ?thesis using 1 by (simp add: show_hex.simps [of n] read_hex_append hex_char_val)
  qed
qed

lemma show_hex_chars: "list_all lower_hex (show_hex n) \<and> show_hex n \<noteq> []"
proof (induction n rule: show_hex.induct)
  case (1 n)
  then show ?case by (cases "n < 16") (simp_all add: show_hex.simps [of n] hex_char_val)
qed

lemma show_hex_length: "n < 16 ^ k \<Longrightarrow> 0 < k \<Longrightarrow> length (show_hex n) \<le> k"
proof (induction n arbitrary: k rule: show_hex.induct)
  case (1 n)
  show ?case
  proof (cases "n < 16")
    case True
    then show ?thesis using 1 by (simp add: show_hex.simps [of n])
  next
    case False
    then obtain j where j: "k = Suc j" "0 < j" using 1(2,3) by (cases k; cases "k - 1") auto
    then have "n div 16 < 16 ^ j" using 1(2) by (simp add: less_mult_imp_div_less mult.commute)
    then show ?thesis using 1(1) [OF False _ j(2)] False j by (simp add: show_hex.simps [of n])
  qed
qed

lemma show_hex_inject: "show_hex m = show_hex n \<Longrightarrow> m = n"
  by (metis read_show_hex)

section \<open>Synthetic addresses\<close>

lemma show_nat_no_dot: "CHR ''.'' \<notin> set (show_nat n)"
  using show_nat_digits [of n] by (auto simp: is_digit_def)

lemma ipv4_text_fields:
  "split_on (CHR ''.'') (ipv4_text v) = [''198'', show_nat (18 + v div 65536), show_nat (v div 256 mod 256), show_nat (v mod 256)]"
proof -
  let ?ws = "[''198'', show_nat (18 + v div 65536), show_nat (v div 256 mod 256), show_nat (v mod 256)]"
  have "ipv4_text v = join_with ''.'' ?ws" by (simp add: ipv4_text_def)
  moreover have "split_on (CHR ''.'') (join_with ''.'' ?ws) = ?ws" using show_nat_no_dot by (intro split_join) auto
  ultimately show ?thesis by simp
qed

lemma ipv4_text_inject: "ipv4_text v = ipv4_text w \<Longrightarrow> v = w"
proof -
  assume "ipv4_text v = ipv4_text w"
  then have "split_on (CHR ''.'') (ipv4_text v) = split_on (CHR ''.'') (ipv4_text w)" by simp
  then have "show_nat (18 + v div 65536) = show_nat (18 + w div 65536)" "show_nat (v div 256 mod 256) = show_nat (w div 256 mod 256)"
    "show_nat (v mod 256) = show_nat (w mod 256)" by (simp_all add: ipv4_text_fields)
  then have "v div 65536 = w div 65536" "v div 256 mod 256 = w div 256 mod 256" "v mod 256 = w mod 256"
    using show_nat_inject by auto
  then have "v div 65536 = w div 65536 \<and> v div 256 mod 256 = w div 256 mod 256 \<and> v mod 256 = w mod 256" by simp
  moreover have "x = (x div 65536 * 256 + x div 256 mod 256) * 256 + x mod 256" for x :: nat
    using div_mult_mod_eq [of "x div 256" 256] div_mult_mod_eq [of x 256] div_mult2_eq [of x 256 256] by simp
  ultimately show "v = w" by metis
qed

lemma ipv6_text_inject: "ipv6_text v = ipv6_text w \<Longrightarrow> v = w"
  by (simp add: ipv6_text_def show_hex_inject)

lemma text_families_differ: "ipv4_text v \<noteq> ipv6_text w"
  by (simp add: ipv4_text_def ipv6_text_def)

lemma decimal_number_show [simp]: "decimal_number (show_nat n) = Some n"
  using show_nat_digits [of n] by (simp add: decimal_number_def list_all_iff)

lemma parse_ipv4_text:
  assumes "v < 131072"
  shows "parseIpAddress (ipv4_text v) IPV4 = Inr [198, of_nat (18 + v div 65536), of_nat (v div 256 mod 256), of_nat (v mod 256)]"
proof -
  have "decimal_number ''198'' = Some 198" by code_simp
  moreover have "v div 65536 \<le> 1" using assms by simp
  moreover have "\<not> 255 < n mod 256" for n :: nat using mod_less_divisor [of 256 n] by linarith
  ultimately show ?thesis by (simp add: parseIpAddress_def ipv4_text_fields Let_def)
qed

lemma split_gaps_single: "CHR '':'' \<notin> set s \<Longrightarrow> split_gaps s = [s]"
  by (induction s rule: split_gaps.induct) auto

lemma js_lower_hex: "list_all lower_hex s \<Longrightarrow> js_lower s = s \<and> CHR '':'' \<notin> set s"
proof -
  have "lower_hex c \<Longrightarrow> lower_char c = c \<and> c \<noteq> CHR '':''" for c by (auto simp: lower_hex_def lower_char_def Let_def)
  then show "list_all lower_hex s \<Longrightarrow> js_lower s = s \<and> CHR '':'' \<notin> set s"
    by (auto simp: js_lower_def list_all_iff intro!: map_idI)
qed

lemma parse_ipv6_text:
  assumes "v < 65536"
  shows "parseIpAddress (ipv6_text v) IPV6 = Inr ([0x20, 1, 0, 2] @ replicate 10 0 @ [of_nat (v div 256), of_nat v])"
proof -
  let ?h = "show_hex v"
  have h: "list_all lower_hex ?h" "?h \<noteq> []" "length ?h \<le> 4" using show_hex_chars show_hex_length [of v 4] assms by auto
  have l: "js_lower (ipv6_text v) = ipv6_text v"
  proof -
    have "js_lower ''2001:2::'' = ''2001:2::''" by code_simp
    then show ?thesis using js_lower_hex [OF h(1)] by (simp add: ipv6_text_def js_lower_def)
  qed
  obtain c cs where hc: "?h = c # cs" using h(2) by (cases ?h) auto
  then have c: "c \<noteq> CHR '':''" using js_lower_hex [OF h(1)] by auto
  have "split_gaps (ipv6_text v) = [''2001:2'', ?h]"
    using split_gaps_single [of ?h] js_lower_hex [OF h(1)] c by (simp add: ipv6_text_def hc)
  moreover have "group_fields ''2001:2'' = [''2001'', ''2'']" by code_simp
  moreover have "group_fields ?h = [?h]" using js_lower_hex [OF h(1)] h(2) by (simp add: group_fields_def split_on_notin)
  moreover have "replicate 5 ''0'' = [''0'', ''0'', ''0'', ''0'', ''0'']" by code_simp
  moreover have "replicate 10 0 = [0, 0, 0, 0, 0, 0, 0, 0, 0, 0 :: byte]" by code_simp
  moreover have "group_bytes [''2001'', ''2'', ''0'', ''0'', ''0'', ''0'', ''0'', ?h]
      = sum_bind (group_bytes [?h]) (\<lambda>bs. Inr ([0x20, 1, 0, 2, 0, 0, 0, 0, 0, 0, 0, 0, 0, 0] @ bs))"
  proof -
    have g: "list_all lower_hex ''2001''" "list_all lower_hex ''2''" "list_all lower_hex ''0''" "read_hex ''2001'' = 8193"
      "read_hex ''2'' = 2" "read_hex ''0'' = 0" by code_simp+
    show ?thesis using g by (cases "group_bytes [?h]") simp_all
  qed
  ultimately show ?thesis using l h by (simp add: parseIpAddress_def Let_def)
qed

text \<open>The text of the address number \<open>v\<close> is an address exactly while \<open>v\<close> fits into one group, although numbers up to
  \<open>0xffffffff\<close> are handed out.\<close>

lemma show_hex_long: "16 ^ k \<le> n \<Longrightarrow> k < length (show_hex n)"
proof (induction k arbitrary: n)
  case 0
  then show ?case using show_hex_chars [of n] by simp
next
  case (Suc k)
  then have "16 ^ k \<le> n div 16" by (simp add: less_eq_div_iff_mult_less_eq mult.commute)
  moreover have "16 * 1 \<le> 16 * (16 :: nat) ^ k" by (intro mult_le_mono2 one_le_power) simp
  then have "\<not> n < 16" using Suc.prems unfolding power_Suc by linarith
  ultimately show ?case using Suc.IH [of "n div 16"] by (simp add: show_hex.simps [of n])
qed

lemma group_bytes_long: "g \<in> set gs \<Longrightarrow> 4 < length g \<Longrightarrow> group_bytes gs = Inl ''invalid synthetic IPv6 address''"
  by (induction gs) auto

lemma ipv6_text_parses_iff: "(\<exists>bs. parseIpAddress (ipv6_text v) IPV6 = Inr bs) \<longleftrightarrow> v < 65536"
proof (cases "v < 65536")
  case True
  then show ?thesis by (simp add: parse_ipv6_text)
next
  case False
  let ?h = "show_hex v"
  have l: "4 < length ?h" using show_hex_long [of 4 v] False by simp
  have "list_all lower_hex ?h" using show_hex_chars by blast
  then have h: "js_lower ?h = ?h" "CHR '':'' \<notin> set ?h" "?h \<noteq> []" using js_lower_hex show_hex_chars by auto
  have "js_lower ''2001:2::'' = ''2001:2::''" by code_simp
  then have lower: "js_lower (ipv6_text v) = ipv6_text v" using h(1) by (simp add: ipv6_text_def js_lower_def)
  obtain c cs where hc: "?h = c # cs" using h(3) by (cases ?h) auto
  then have "split_gaps (ipv6_text v) = [''2001:2'', ?h]" using split_gaps_single [of ?h] h(2) by (auto simp: ipv6_text_def hc)
  moreover have "group_fields ?h = [?h]" using h(2,3) by (simp add: group_fields_def split_on_notin)
  ultimately have "parseIpAddress (ipv6_text v) IPV6 = Inl ''invalid synthetic IPv6 address''"
    using group_bytes_long [OF _ l] by (simp add: parseIpAddress_def Let_def lower)
  then show ?thesis using False by simp
qed

section \<open>The table\<close>

text \<open>The installed leases, those being installed, and how their addresses were allocated.\<close>

definition installed :: "SyntheticDnsLeaseTable \<Rightarrow> SyntheticDnsLease list" where
  "installed t = map snd (leasesBySyntheticAddress t)"

fun creations :: "(string \<times> (string + SyntheticDnsLease)) list \<Rightarrow> SyntheticDnsLease list" where
  "creations [] = []"
| "creations ((k, Inl e) # p) = creations p"
| "creations ((k, Inr l) # p) = l # creations p"

lemma creations_append [simp]: "creations (p @ q) = creations p @ creations q"
  by (induction p rule: creations.induct) simp_all

definition pending_leases :: "SyntheticDnsLeaseTable \<Rightarrow> SyntheticDnsLease list" where
  "pending_leases t = creations (pendingByAnswer t)"

definition live_leases :: "SyntheticDnsLeaseTable \<Rightarrow> SyntheticDnsLease list" where
  "live_leases t = installed t @ pending_leases t"

definition address_number :: "SyntheticDnsLease \<Rightarrow> nat \<Rightarrow> bool" where
  "address_number l v \<longleftrightarrow> (case lease_family l of
     IPV4 \<Rightarrow> v < 131072 \<and> syntheticAddress l = ipv4_text v | IPV6 \<Rightarrow> v \<le> 0xffffffff \<and> syntheticAddress l = ipv6_text v)"

definition next_number :: "NetworkAddressFamily \<Rightarrow> SyntheticDnsLeaseTable \<Rightarrow> nat" where
  "next_number fam t = (case fam of IPV4 \<Rightarrow> nextIpv4Lease t | IPV6 \<Rightarrow> nextIpv6Lease t)"

text \<open>The lease is for a host name and a real address of its family, outside the synthetic range, and lives between a
  second and a minute.\<close>

definition lease_ok :: "SyntheticDnsLease \<Rightarrow> bool" where
  "lease_ok l \<longleftrightarrow> dns_name_ok (lease_hostname l) \<and> isIP (realAddress l) = ip_version (lease_family l)
     \<and> \<not> isSyntheticAddress (realAddress l) \<and> 1 \<le> ttlSeconds l \<and> ttlSeconds l \<le> 60"

text \<open>The two maps hold the same leases in the same order, each under its key.\<close>

definition tables_agree :: "SyntheticDnsLeaseTable \<Rightarrow> bool" where
  "tables_agree t \<longleftrightarrow> leasesBySyntheticAddress t = map (\<lambda>l. (syntheticAddress l, l)) (installed t)
     \<and> leasesByAnswer t = map (\<lambda>l. (answerKey l, l)) (installed t)"

definition keys_distinct :: "SyntheticDnsLeaseTable \<Rightarrow> bool" where
  "keys_distinct t \<longleftrightarrow> distinct (map syntheticAddress (live_leases t))
     \<and> distinct (map answerKey (installed t) @ map fst (pendingByAnswer t))
     \<and> (\<forall>k l. (k, Inr l) \<in> set (pendingByAnswer t) \<longrightarrow> k = answerKey l)"

definition leases_ok :: "SyntheticDnsLeaseTable \<Rightarrow> bool" where
  "leases_ok t \<longleftrightarrow> (\<forall>l \<in> set (live_leases t). lease_ok l \<and> (\<exists>v < next_number (lease_family l) t. address_number l v))
     \<and> length (live_leases t) \<le> installedLeaseCount t \<and> installedLeaseCount t \<le> MAX_DNS_LEASES"

definition leases_wf :: "SyntheticDnsLeaseTable \<Rightarrow> bool" where
  "leases_wf t \<longleftrightarrow> tables_agree t \<and> keys_distinct t \<and> leases_ok t"

lemma address_number_unique:
  "address_number l v \<Longrightarrow> address_number l' w \<Longrightarrow> syntheticAddress l = syntheticAddress l' \<Longrightarrow> lease_family l = lease_family l' \<and> v = w"
  using text_families_differ text_families_differ [symmetric] ipv4_text_inject ipv6_text_inject
  by (auto simp: address_number_def split: NetworkAddressFamily.splits)

lemma leases_wf_new: "leases_wf new_SyntheticDnsLeaseTable"
  by (simp add: leases_wf_def tables_agree_def keys_distinct_def leases_ok_def live_leases_def installed_def pending_leases_def
      new_SyntheticDnsLeaseTable_def)

subsection \<open>Forgetting leases\<close>

text \<open>Dropping installed leases from both maps, the common shape of expiry, lookup and pruning.\<close>

definition keep_leases :: "(SyntheticDnsLease \<Rightarrow> bool) \<Rightarrow> SyntheticDnsLeaseTable \<Rightarrow> SyntheticDnsLeaseTable" where
  "keep_leases P t = t\<lparr>leasesBySyntheticAddress := filter (\<lambda>e. P (snd e)) (leasesBySyntheticAddress t),
     leasesByAnswer := filter (\<lambda>e. P (snd e)) (leasesByAnswer t)\<rparr>"

lemma keep_leases_sel [simp]:
  "pendingByAnswer (keep_leases P t) = pendingByAnswer t" "installedLeaseCount (keep_leases P t) = installedLeaseCount t"
  "nextIpv4Lease (keep_leases P t) = nextIpv4Lease t" "nextIpv6Lease (keep_leases P t) = nextIpv6Lease t"
  "next_number fam (keep_leases P t) = next_number fam t" "pending_leases (keep_leases P t) = pending_leases t"
  by (simp_all add: keep_leases_def next_number_def pending_leases_def split: NetworkAddressFamily.split)

lemma installed_keep [simp]: "installed (keep_leases P t) = filter P (installed t)"
  by (simp add: installed_def keep_leases_def filter_map o_def)

lemma keep_leases_keep: "keep_leases P (keep_leases Q t) = keep_leases (\<lambda>l. Q l \<and> P l) t"
  by (simp add: keep_leases_def conj_commute)

lemma distinct_map_filter_append: "distinct (map f xs @ ys) \<Longrightarrow> distinct (map f (filter P xs) @ ys)"
  by (auto simp: distinct_map_filter)

lemma keep_leases_wf:
  assumes "leases_wf t"
  shows "leases_wf (keep_leases P t)"
proof -
  have a: "tables_agree (keep_leases P t)" using assms
    by (simp add: leases_wf_def tables_agree_def) (simp add: keep_leases_def filter_map o_def)
  have k: "keys_distinct (keep_leases P t)" using assms
    by (auto simp: leases_wf_def keys_distinct_def live_leases_def distinct_map_filter)
  have "length (filter P (installed t)) + n \<le> c" if "length (installed t) + n \<le> c" for n c
    using that length_filter_le [of P "installed t"] by linarith
  then have "leases_ok (keep_leases P t)" using assms by (auto simp: leases_wf_def leases_ok_def live_leases_def)
  then show ?thesis using a k by (simp add: leases_wf_def)
qed

text \<open>Deleting one installed lease under both its keys keeps all others.\<close>

lemma delete_lease:
  assumes "leases_wf t" "l \<in> set (installed t)"
  shows "t\<lparr>leasesBySyntheticAddress := od_delete (syntheticAddress l) (leasesBySyntheticAddress t),
     leasesByAnswer := od_delete (answerKey l) (leasesByAnswer t)\<rparr> = keep_leases (\<lambda>l'. l' \<noteq> l) t"
proof -
  have d: "distinct (map syntheticAddress (installed t))" "distinct (map answerKey (installed t))"
    using assms(1) by (simp_all add: leases_wf_def keys_distinct_def live_leases_def)
  have "syntheticAddress l' \<noteq> syntheticAddress l \<longleftrightarrow> l' \<noteq> l" "answerKey l' \<noteq> answerKey l \<longleftrightarrow> l' \<noteq> l" if "l' \<in> set (installed t)" for l'
    using d assms(2) that by (auto simp: distinct_map inj_on_def)
  moreover have "leasesBySyntheticAddress t = map (\<lambda>l. (syntheticAddress l, l)) (installed t)"
    "leasesByAnswer t = map (\<lambda>l. (answerKey l, l)) (installed t)"
    using assms(1) by (simp_all add: leases_wf_def tables_agree_def)
  ultimately have "od_delete (syntheticAddress l) (leasesBySyntheticAddress t) = filter (\<lambda>e. snd e \<noteq> l) (leasesBySyntheticAddress t)"
    "od_delete (answerKey l) (leasesByAnswer t) = filter (\<lambda>e. snd e \<noteq> l) (leasesByAnswer t)"
    by (auto simp: od_delete_def filter_map o_def intro!: filter_cong arg_cong [where f = "map _"])
  then show ?thesis by (simp add: keep_leases_def)
qed

lemma prune_fold:
  "leases_wf t \<Longrightarrow> set ls \<subseteq> set (installed t) \<Longrightarrow> distinct ls \<Longrightarrow>
   fold (prune_lease now) (map (\<lambda>l. (syntheticAddress l, l)) ls) t = keep_leases (\<lambda>l. l \<notin> set ls \<or> now < expiresAt l) t"
proof (induction ls arbitrary: t)
  case Nil
  then show ?case by (simp add: keep_leases_def)
next
  case (Cons l ls)
  have p: "prune_lease now (syntheticAddress l, l) t = keep_leases (\<lambda>l'. l' \<noteq> l \<or> now < expiresAt l) t"
    using delete_lease [OF Cons.prems(1), of l] Cons.prems(2) by (simp add: prune_lease_def) (simp add: keep_leases_def)
  have "fold (prune_lease now) (map (\<lambda>l. (syntheticAddress l, l)) ls) (keep_leases (\<lambda>l'. l' \<noteq> l \<or> now < expiresAt l) t)
      = keep_leases (\<lambda>l'. l' \<notin> set ls \<or> now < expiresAt l') (keep_leases (\<lambda>l'. l' \<noteq> l \<or> now < expiresAt l) t)"
    using Cons.prems by (intro Cons.IH keep_leases_wf) auto
  also have "\<dots> = keep_leases (\<lambda>l'. l' \<notin> set (l # ls) \<or> now < expiresAt l') t"
    unfolding keep_leases_keep using Cons.prems(3) by (intro arg_cong [where f = "\<lambda>P. keep_leases P t"]) auto
  finally show ?case by (simp add: p)
qed

lemma pruneExpiredLeases_keep:
  assumes "leases_wf t"
  shows "pruneExpiredLeases now t = keep_leases (\<lambda>l. now < expiresAt l) t"
proof -
  have a: "leasesBySyntheticAddress t = map (\<lambda>l. (syntheticAddress l, l)) (installed t)"
    "leasesByAnswer t = map (\<lambda>l. (answerKey l, l)) (installed t)" and "distinct (map syntheticAddress (installed t))"
    using assms by (simp_all add: leases_wf_def tables_agree_def keys_distinct_def live_leases_def)
  then have "pruneExpiredLeases now t = keep_leases (\<lambda>l. l \<notin> set (installed t) \<or> now < expiresAt l) t"
    using prune_fold [OF assms order_refl, of now] by (simp add: pruneExpiredLeases_def distinct_map)
  also have "\<dots> = keep_leases (\<lambda>l. now < expiresAt l) t"
  proof -
    have "filter (\<lambda>l. l \<notin> set (installed t) \<or> now < expiresAt l) (installed t) = filter (\<lambda>l. now < expiresAt l) (installed t)"
      by (rule filter_cong) auto
    then show ?thesis unfolding keep_leases_def a by (simp add: filter_map o_def del: set_map)
  qed
  finally show ?thesis .
qed

subsection \<open>Creating a lease\<close>

lemma od_set_fresh: "k \<notin> fst ` set d \<Longrightarrow> od_set k v d = d @ [(k, v)]"
  by (induction k v d rule: od_set.induct) auto

lemma allocate_ok:
  assumes "allocate fam t = Inr (addr, t')"
  shows "lease_family l = fam \<Longrightarrow> syntheticAddress l = addr \<Longrightarrow> address_number l (next_number fam t)"
    "next_number fam' t' = (if fam' = fam then Suc (next_number fam t) else next_number fam' t)"
    "leasesBySyntheticAddress t' = leasesBySyntheticAddress t" "leasesByAnswer t' = leasesByAnswer t"
    "pendingByAnswer t' = pendingByAnswer t" "installedLeaseCount t' = installedLeaseCount t"
  using assms by (auto simp: allocate_def allocateIpv4Address_def allocateIpv6Address_def address_number_def next_number_def
      split: if_splits NetworkAddressFamily.splits)

lemma count_frame [simp]:
  "installed (t\<lparr>installedLeaseCount := n\<rparr>) = installed t" "pending_leases (t\<lparr>installedLeaseCount := n\<rparr>) = pending_leases t"
  "next_number fam (t\<lparr>installedLeaseCount := n\<rparr>) = next_number fam t"
  by (simp_all add: installed_def pending_leases_def next_number_def split: NetworkAddressFamily.split)

text \<open>How a step may change the table: numbers only grow, and a lease that is new has a number that was not given out.\<close>

definition grows :: "SyntheticDnsLeaseTable \<Rightarrow> SyntheticDnsLeaseTable \<Rightarrow> bool" where
  "grows t t' \<longleftrightarrow> (\<forall>fam. next_number fam t \<le> next_number fam t')
     \<and> (\<forall>l \<in> set (live_leases t'). l \<in> set (live_leases t) \<or> (\<exists>v \<ge> next_number (lease_family l) t. address_number l v))"

lemma grows_refl [simp]: "grows t t"
  by (simp add: grows_def)

lemma grows_trans [trans]: "grows t t1 \<Longrightarrow> grows t1 t2 \<Longrightarrow> grows t t2"
  unfolding grows_def by (meson order_trans)

lemma keep_leases_grows [simp]: "grows t (keep_leases P t)"
  by (auto simp: grows_def live_leases_def)

text \<open>A pending creation is entered under a key that no lease has.\<close>

definition add_pending :: "string \<Rightarrow> string + SyntheticDnsLease \<Rightarrow> SyntheticDnsLeaseTable \<Rightarrow> SyntheticDnsLeaseTable" where
  "add_pending key c t = t\<lparr>pendingByAnswer := od_set key c (pendingByAnswer t)\<rparr>"

definition key_free :: "string \<Rightarrow> SyntheticDnsLeaseTable \<Rightarrow> bool" where
  "key_free key t \<longleftrightarrow> key \<notin> answerKey ` set (installed t) \<and> key \<notin> fst ` set (pendingByAnswer t)"

lemma add_pending_sel:
  assumes "key_free key t"
  shows "pendingByAnswer (add_pending key c t) = pendingByAnswer t @ [(key, c)]"
    "pending_leases (add_pending key c t) = pending_leases t @ creations [(key, c)]"
  using assms by (simp_all add: add_pending_def pending_leases_def key_free_def od_set_fresh)

lemma add_pending_frame [simp]:
  "installed (add_pending key c t) = installed t" "next_number fam (add_pending key c t) = next_number fam t"
  "leasesBySyntheticAddress (add_pending key c t) = leasesBySyntheticAddress t" "leasesByAnswer (add_pending key c t) = leasesByAnswer t"
  "installedLeaseCount (add_pending key c t) = installedLeaseCount t"
  by (simp_all add: add_pending_def installed_def next_number_def split: NetworkAddressFamily.split)

lemma add_error_wf:
  assumes "leases_wf t" "key_free key t"
  shows "leases_wf (add_pending key (Inl e) t)" "grows t (add_pending key (Inl e) t)"
  using assms add_pending_sel [OF assms(2), of "Inl e"]
  by (auto simp: leases_wf_def tables_agree_def keys_distinct_def leases_ok_def grows_def live_leases_def key_free_def)

lemma add_lease_wf:
  assumes wf: "leases_wf t" and free: "key_free (answerKey l) t" and ok: "lease_ok l" and room: "installedLeaseCount t < MAX_DNS_LEASES"
    and al: "allocate (lease_family l) t = Inr (syntheticAddress l, t')"
  shows "leases_wf (add_pending (answerKey l) (Inr l) (t'\<lparr>installedLeaseCount := Suc (installedLeaseCount t')\<rparr>))
    \<and> grows t (add_pending (answerKey l) (Inr l) (t'\<lparr>installedLeaseCount := Suc (installedLeaseCount t')\<rparr>))" (is "leases_wf ?t \<and> _")
proof -
  let ?t1 = "t'\<lparr>installedLeaseCount := Suc (installedLeaseCount t')\<rparr>"
  note a = allocate_ok [OF al]
  have n: "address_number l (next_number (lease_family l) t)" using a(1) by simp
  have frame: "installed t' = installed t" "pendingByAnswer t' = pendingByAnswer t" "pending_leases t' = pending_leases t"
    by (simp_all add: installed_def pending_leases_def a)
  then have free1: "key_free (answerKey l) ?t1" using free by (simp add: key_free_def)
  note sel = add_pending_sel [OF free1, of "Inr l"]
  have live: "live_leases ?t = live_leases t @ [l]" by (simp add: live_leases_def sel frame)
  have fresh: "syntheticAddress l' \<noteq> syntheticAddress l" if l': "l' \<in> set (live_leases t)" for l'
  proof
    assume eq: "syntheticAddress l' = syntheticAddress l"
    obtain v where "v < next_number (lease_family l') t" "address_number l' v" using wf l' by (auto simp: leases_wf_def leases_ok_def)
    then show False using address_number_unique [OF _ n eq] by auto
  qed
  have "tables_agree ?t" using wf by (simp add: leases_wf_def tables_agree_def frame a)
  moreover have "syntheticAddress l \<notin> syntheticAddress ` set (live_leases t)" using fresh by force
  then have "keys_distinct ?t" using wf free unfolding keys_distinct_def live
    by (auto simp: leases_wf_def keys_distinct_def frame sel key_free_def)
  moreover have "leases_ok ?t"
  proof -
    have mono: "next_number fam t \<le> next_number fam ?t" for fam by (simp add: frame a(2))
    have "\<exists>v < next_number (lease_family l') ?t. address_number l' v" if "l' \<in> set (live_leases t)" for l'
    proof -
      obtain v where "v < next_number (lease_family l') t" "address_number l' v"
        using wf \<open>l' \<in> set (live_leases t)\<close> by (auto simp: leases_wf_def leases_ok_def)
      then show ?thesis using mono [of "lease_family l'"] order_less_le_trans by blast
    qed
    moreover have "next_number (lease_family l) t < next_number (lease_family l) ?t" by (simp add: frame a(2))
    ultimately show ?thesis using wf ok n room unfolding leases_ok_def live by (auto simp: leases_wf_def leases_ok_def a)
  qed
  moreover have "grows t ?t" using n unfolding grows_def live by (auto simp: frame a(2))
  ultimately show ?thesis by (simp add: leases_wf_def)
qed

lemma create_lease_wf:
  assumes wf: "leases_wf t" and free: "key_free (answer_key h fam real) t" and h: "dns_name_ok h" "validateAnswer fam real = Inr ()"
    and cr: "create_lease now h fam real ttl t = (c, t2)"
  shows "leases_wf (add_pending (answer_key h fam real) c t2) \<and> grows t (add_pending (answer_key h fam real) c t2)"
proof -
  let ?k = "answer_key h fam real" and ?t = "pruneExpiredLeases now t"
  have wf1: "leases_wf ?t" and g: "grows t ?t" and free1: "key_free ?k ?t"
    using wf free keep_leases_wf by (auto simp: pruneExpiredLeases_keep key_free_def)
  have err: "leases_wf (add_pending ?k (Inl e) ?t) \<and> grows t (add_pending ?k (Inl e) ?t)" for e
    using add_error_wf [OF wf1 free1] grows_trans [OF g] by blast
  show ?thesis
  proof (cases "MAX_DNS_LEASES \<le> installedLeaseCount ?t")
    case True
    then show ?thesis using cr err by (auto simp: create_lease_def Let_def)
  next
    case room: False
    show ?thesis
    proof (cases "allocate fam ?t")
      case (Inl e)
      then show ?thesis using cr room err by (auto simp: create_lease_def Let_def)
    next
      case (Inr r)
      obtain addr t' where al: "allocate fam ?t = Inr (addr, t')" using Inr by (cases r) auto
      define l where "l = \<lparr>lease_hostname = h, lease_family = fam, syntheticAddress = addr, realAddress = real,
        expiresAt = now + max MIN_DNS_TTL_SECONDS (min MAX_DNS_TTL_SECONDS ttl) * 1000,
        ttlSeconds = max MIN_DNS_TTL_SECONDS (min MAX_DNS_TTL_SECONDS ttl)\<rparr>"
      have c: "c = Inr l" "t2 = t'\<lparr>installedLeaseCount := Suc (installedLeaseCount t')\<rparr>"
        using cr room al by (auto simp: create_lease_def Let_def l_def)
      have k: "answerKey l = ?k" by (simp add: answerKey_def l_def)
      have "lease_ok l" using h
        by (auto simp: lease_ok_def l_def validateAnswer_def MIN_DNS_TTL_SECONDS_def MAX_DNS_TTL_SECONDS_def split: if_splits)
      then have "leases_wf (add_pending ?k c t2) \<and> grows ?t (add_pending ?k c t2)"
        using add_lease_wf [OF wf1, of l t'] free1 room al unfolding k c by (simp add: l_def)
      then show ?thesis using grows_trans [OF g] by blast
    qed
  qed
qed

subsection \<open>Operations\<close>

lemma installed_lookup:
  assumes "leases_wf t"
  shows "map_of (leasesBySyntheticAddress t) a = Some l \<longleftrightarrow> l \<in> set (installed t) \<and> syntheticAddress l = a"
    "map_of (leasesByAnswer t) k = Some l \<longleftrightarrow> l \<in> set (installed t) \<and> answerKey l = k"
    "map_of (leasesByAnswer t) k = None \<longleftrightarrow> k \<notin> answerKey ` set (installed t)"
proof -
  have a: "leasesBySyntheticAddress t = map (\<lambda>l. (syntheticAddress l, l)) (installed t)"
    "leasesByAnswer t = map (\<lambda>l. (answerKey l, l)) (installed t)"
    and d: "distinct (map syntheticAddress (installed t))" "distinct (map answerKey (installed t))"
    using assms by (simp_all add: leases_wf_def tables_agree_def keys_distinct_def live_leases_def)
  have "distinct (map fst (leasesBySyntheticAddress t))" "distinct (map fst (leasesByAnswer t))" using d by (simp_all add: a o_def)
  then show "map_of (leasesBySyntheticAddress t) a = Some l \<longleftrightarrow> l \<in> set (installed t) \<and> syntheticAddress l = a"
    "map_of (leasesByAnswer t) k = Some l \<longleftrightarrow> l \<in> set (installed t) \<and> answerKey l = k"
    by (simp_all add: map_of_eq_Some_iff) (auto simp: a)
  show "map_of (leasesByAnswer t) k = None \<longleftrightarrow> k \<notin> answerKey ` set (installed t)"
    by (simp add: map_of_eq_None_iff a image_image)
qed

lemma delete_both: "t\<lparr>leasesByAnswer := a, leasesBySyntheticAddress := b\<rparr> = t\<lparr>leasesBySyntheticAddress := b, leasesByAnswer := a\<rparr>"
  by (cases t) simp

lemma lease_begin_wf:
  assumes wf: "leases_wf t" and b: "lease_begin now h fam real ttl t = (t', r)"
  shows "leases_wf t' \<and> grows t t'"
proof (cases "sum_bind (validateDnsHostname h) (\<lambda>_. sum_bind (validateAnswer fam real) (\<lambda>_.
         if ttl < 0 \<or> 0xffffffff < ttl then Inl ''DNS answer used an invalid TTL'' else Inr ()))")
  case (Inl e)
  then show ?thesis using b wf by (simp add: lease_begin_def)
next
  case (Inr u)
  let ?k = "answer_key h fam real"
  have h: "dns_name_ok h" "validateAnswer fam real = Inr ()"
    using Inr by (auto simp: sum_bind_Inr validateDnsHostname_def split: if_splits)
  have create: "leases_wf (add_pending ?k c t2) \<and> grows t (add_pending ?k c t2)"
    if "leases_wf t1" "grows t t1" "key_free ?k t1" "create_lease now h fam real ttl t1 = (c, t2)" for t1 c t2
    using create_lease_wf [OF that(1,3) h that(4)] grows_trans [OF that(2)] by blast
  show ?thesis
  proof (cases "map_of (leasesByAnswer t) ?k")
    case None
    then have "key_free ?k t" if "map_of (pendingByAnswer t) ?k = None"
      using that installed_lookup(3) [OF wf] by (simp add: key_free_def map_of_eq_None_iff)
    then show ?thesis using b Inr None create [OF wf grows_refl] wf
      by (auto simp: lease_begin_def Let_def add_pending_def split: if_splits prod.splits)
  next
    case (Some l)
    have l: "l \<in> set (installed t)" "answerKey l = ?k" using Some installed_lookup(2) [OF wf] by auto
    let ?t1 = "keep_leases (\<lambda>l'. l' \<noteq> l) t"
    have wf1: "leases_wf ?t1" using keep_leases_wf [OF wf] .
    have t1: "t\<lparr>leasesByAnswer := od_delete ?k (leasesByAnswer t),
        leasesBySyntheticAddress := od_delete (syntheticAddress l) (leasesBySyntheticAddress t)\<rparr> = ?t1"
      using delete_lease [OF wf l(1)] l(2) by (simp add: delete_both)
    have "inj_on answerKey (set (installed t))" using wf by (simp add: leases_wf_def keys_distinct_def distinct_map)
    then have "key_free ?k ?t1" if "map_of (pendingByAnswer t) ?k = None"
      using that l by (auto simp: key_free_def map_of_eq_None_iff inj_on_def)
    then show ?thesis using b Inr Some create [OF wf1 keep_leases_grows] wf wf1
      by (auto simp: lease_begin_def Let_def t1 add_pending_def split: if_splits prod.splits)
  qed
qed

lemma lookup_wf:
  assumes "leases_wf t" "lookup now a t = (t', r)"
  shows "leases_wf t' \<and> grows t t'"
proof (cases "map_of (leasesBySyntheticAddress t) a")
  case None
  then show ?thesis using assms by (simp add: lookup_def)
next
  case (Some l)
  then have l: "l \<in> set (installed t)" "syntheticAddress l = a" using installed_lookup(1) [OF assms(1)] by auto
  have "t' = t \<or> t' = keep_leases (\<lambda>l'. l' \<noteq> l) t"
    using assms(2) Some l(2) unfolding delete_lease [OF assms(1) l(1), symmetric] by (auto simp: lookup_def split: if_splits)
  then show ?thesis using assms(1) keep_leases_wf keep_leases_grows grows_refl by metis
qed

lemma pending_remove:
  assumes "leases_wf t" "(key, c) \<in> set (pendingByAnswer t)"
  shows "\<exists>p1 p2. pendingByAnswer t = p1 @ (key, c) # p2 \<and> od_delete key (pendingByAnswer t) = p1 @ p2"
proof -
  obtain p1 p2 where p: "pendingByAnswer t = p1 @ (key, c) # p2" using split_list [OF assms(2)] by blast
  have "distinct (map fst (pendingByAnswer t))" using assms(1) by (simp add: leases_wf_def keys_distinct_def)
  then have "key \<notin> fst ` set p1" "key \<notin> fst ` set p2" by (simp_all add: p)
  then have "filter (\<lambda>(k, _). k \<noteq> key) p1 = p1" "filter (\<lambda>(k, _). k \<noteq> key) p2 = p2"
    unfolding filter_id_conv by force+
  then show ?thesis using p by (auto simp: od_delete_def)
qed

lemma lease_settle_wf:
  assumes wf: "leases_wf t" and s: "lease_settle key failure t = (t', r)"
  shows "leases_wf t' \<and> grows t t'"
proof (cases "map_of (pendingByAnswer t) key")
  case None
  then show ?thesis using wf s by (simp add: lease_settle_def)
next
  case (Some c)
  then obtain p1 p2 where p: "pendingByAnswer t = p1 @ (key, c) # p2" "od_delete key (pendingByAnswer t) = p1 @ p2"
    using pending_remove [OF wf map_of_SomeD] by blast
  note wf_defs = leases_wf_def tables_agree_def keys_distinct_def leases_ok_def live_leases_def grows_def
  have nx: "next_number fam (t\<lparr>pendingByAnswer := q, leasesBySyntheticAddress := x, leasesByAnswer := y\<rparr>) = next_number fam t"
    "next_number fam (t\<lparr>pendingByAnswer := q\<rparr>) = next_number fam t"
    "next_number fam (t\<lparr>pendingByAnswer := q, installedLeaseCount := n\<rparr>) = next_number fam t" for fam q x y n
    by (simp_all add: next_number_def split: NetworkAddressFamily.split)
  show ?thesis
  proof (cases c)
    case (Inl e)
    then have t': "t' = t\<lparr>pendingByAnswer := p1 @ p2\<rparr>" using s Some p by (auto simp: lease_settle_def)
    have pl: "pending_leases t' = pending_leases t" "installed t' = installed t"
      using Inl by (simp_all add: t' pending_leases_def p(1) installed_def)
    show ?thesis using wf unfolding wf_defs pl by (auto simp: t' p(1) nx)
  next
    case (Inr l)
    have k: "key = answerKey l" using wf p(1) Inr by (auto simp: leases_wf_def keys_distinct_def)
    have pl: "pending_leases t = creations p1 @ l # creations p2" using Inr by (simp add: pending_leases_def p(1))
    show ?thesis
    proof (cases failure)
      case (Some e)
      have t': "t' = t\<lparr>pendingByAnswer := p1 @ p2, installedLeaseCount := installedLeaseCount t - 1\<rparr>"
        using s \<open>map_of (pendingByAnswer t) key = Some c\<close> p Inr Some by (auto simp: lease_settle_def)
      have pl': "pending_leases t' = creations p1 @ creations p2" "installed t' = installed t"
        by (simp_all add: t' pending_leases_def installed_def)
      show ?thesis using wf unfolding wf_defs pl pl' by (auto simp: t' p(1) nx)
    next
      case None
      have agree: "leasesBySyntheticAddress t = map (\<lambda>l. (syntheticAddress l, l)) (installed t)"
        "leasesByAnswer t = map (\<lambda>l. (answerKey l, l)) (installed t)"
        using wf by (simp_all add: leases_wf_def tables_agree_def)
      have "answerKey l \<notin> fst ` set (leasesByAnswer t)" "syntheticAddress l \<notin> fst ` set (leasesBySyntheticAddress t)"
        using wf p(1) k pl unfolding agree by (auto simp: leases_wf_def keys_distinct_def live_leases_def image_iff)
      then have t': "t' = t\<lparr>pendingByAnswer := p1 @ p2, leasesBySyntheticAddress := leasesBySyntheticAddress t @ [(syntheticAddress l, l)],
          leasesByAnswer := leasesByAnswer t @ [(answerKey l, l)]\<rparr>"
        using s \<open>map_of (pendingByAnswer t) key = Some c\<close> p Inr None k by (auto simp: lease_settle_def od_set_fresh)
      have pl': "pending_leases t' = creations p1 @ creations p2" "installed t' = installed t @ [l]"
        by (simp_all add: t' pending_leases_def installed_def)
      show ?thesis using wf unfolding wf_defs pl pl' by (auto simp: t' p(1) nx k)
    qed
  qed
qed

subsection \<open>Runs of the table\<close>

text \<open>Requests, ends of installations and lookups, in any order and at any times.\<close>

inductive lease_step :: "SyntheticDnsLeaseTable \<Rightarrow> SyntheticDnsLeaseTable \<Rightarrow> bool" where
  step_begin: "lease_begin now hostname fam real ttl t = (t', r) \<Longrightarrow> lease_step t t'"
| step_settle: "lease_settle key failure t = (t', r) \<Longrightarrow> lease_step t t'"
| step_lookup: "lookup now addr t = (t', r) \<Longrightarrow> lease_step t t'"

lemma lease_step_wf: "lease_step t t' \<Longrightarrow> leases_wf t \<Longrightarrow> leases_wf t' \<and> grows t t'"
  by (induction rule: lease_step.induct) (rule lease_begin_wf lease_settle_wf lookup_wf, assumption+)+

lemma lease_steps_wf: "lease_step\<^sup>*\<^sup>* t t' \<Longrightarrow> leases_wf t \<Longrightarrow> leases_wf t' \<and> grows t t'"
proof (induction rule: rtranclp_induct)
  case (step t1 t2)
  then show ?case using lease_step_wf grows_trans by blast
qed simp

lemmas reachable_wf = lease_steps_wf [OF _ leases_wf_new, THEN conjunct1]

lemma address_owner_fixed:
  assumes "leases_wf t" "leases_wf t'" "grows t t'" "l \<in> set (live_leases t)" "l' \<in> set (live_leases t')" "syntheticAddress l' = syntheticAddress l"
  shows "l' = l"
proof -
  obtain v where v: "v < next_number (lease_family l) t" "address_number l v"
    using assms(1,4) by (auto simp: leases_wf_def leases_ok_def)
  have "l' \<in> set (live_leases t)"
  proof (rule ccontr)
    assume "l' \<notin> set (live_leases t)"
    then obtain w where "next_number (lease_family l') t \<le> w" "address_number l' w" using assms(3,5) by (auto simp: grows_def)
    then show False using address_number_unique [OF _ v(2) assms(6)] v(1) by auto
  qed
  moreover have "inj_on syntheticAddress (set (live_leases t))" using assms(1) by (simp add: leases_wf_def keys_distinct_def distinct_map)
  ultimately show ?thesis using assms(4,6) by (auto simp: inj_on_def)
qed

lemma lookup_live: "leases_wf t \<Longrightarrow> lookup now a t = (t', Some l) \<Longrightarrow> l \<in> set (live_leases t) \<and> syntheticAddress l = a \<and> now < expiresAt l"
  using installed_lookup(1) by (auto simp: lookup_def live_leases_def split: option.splits if_splits)

lemma settle_live: "leases_wf t \<Longrightarrow> lease_settle key None t = (t', Some (Inr l)) \<Longrightarrow> l \<in> set (live_leases t) \<and> answerKey l = key"
proof -
  assume wf: "leases_wf t" and "lease_settle key None t = (t', Some (Inr l))"
  then have "(key, Inr l) \<in> set (pendingByAnswer t)"
    by (auto simp: lease_settle_def Let_def split: option.splits sum.splits dest: map_of_SomeD)
  moreover have "(k, Inr l) \<in> set p \<Longrightarrow> l \<in> set (creations p)" for k p by (induction p rule: creations.induct) auto
  ultimately show ?thesis using wf by (auto simp: live_leases_def pending_leases_def leases_wf_def keys_distinct_def)
qed

lemma settled_stays_live:
  assumes "leases_wf t" "lease_settle key None t = (t', Some (Inr l))"
  shows "l \<in> set (live_leases t')"
proof -
  have "map_of (leasesBySyntheticAddress t') (syntheticAddress l) = Some l"
    using assms(2) by (auto simp: lease_settle_def Let_def split: option.splits sum.splits)
  then show ?thesis using installed_lookup(1) lease_settle_wf [OF assms] by (auto simp: live_leases_def)
qed

text \<open>C30: A synthetic address stands for one lease for ever.  When installing a lease has succeeded, whatever requests,
  installations, failures and lookups follow, a lookup of its synthetic address gives back this very lease (same host
  name and real address) before it expires, or nothing; the address is never handed to another host.\<close>

theorem synthetic_address_never_reassigned:
  assumes "lease_step\<^sup>*\<^sup>* new_SyntheticDnsLeaseTable t" "lease_settle key None t = (t1, Some (Inr l))" "lease_step\<^sup>*\<^sup>* t1 t2"
    "lookup now (syntheticAddress l) t2 = (t3, Some l')"
  shows "l' = l \<and> now < expiresAt l \<and> answerKey l = key"
proof -
  have wf: "leases_wf t" using reachable_wf [OF assms(1)] .
  have wf1: "leases_wf t1" using lease_settle_wf [OF wf assms(2)] by blast
  have wf2: "leases_wf t2" "grows t1 t2" using lease_steps_wf [OF assms(3) wf1] by auto
  have l': "l' \<in> set (live_leases t2)" "syntheticAddress l' = syntheticAddress l" "now < expiresAt l'"
    using lookup_live [OF wf2(1) assms(4)] by auto
  have "l' = l" using address_owner_fixed [OF wf1 wf2 settled_stays_live [OF wf assms(2)] l'(1,2)] .
  then show ?thesis using l'(3) settle_live [OF wf assms(2)] by simp
qed

text \<open>Request a lease at time 1000, let the installation succeed, look the address up at time 2000.\<close>

theorem synthetic_address_never_reassigned_witness:
  "let t = fst (lease_begin 1000 ''a.example'' IPV4 ''203.0.113.8'' 120 new_SyntheticDnsLeaseTable);
       (t1, r) = lease_settle (answer_key ''a.example'' IPV4 ''203.0.113.8'') None t;
       l = projr (the r) in
     lookup 2000 (syntheticAddress l) t1 = (t1, Some l) \<and> syntheticAddress l = ''198.18.0.1'' \<and> 2000 < expiresAt l"
proof -
  let ?k = "answer_key ''a.example'' IPV4 ''203.0.113.8''"
  let ?b = "lease_begin 1000 ''a.example'' IPV4 ''203.0.113.8'' 120 new_SyntheticDnsLeaseTable"
  let ?s = "lease_settle ?k None (fst ?b)"
  have step: "lease_step\<^sup>*\<^sup>* new_SyntheticDnsLeaseTable (fst ?b)" by (rule r_into_rtranclp, rule step_begin [of _ _ _ _ _ _ _ "snd ?b"]) simp
  have "(case snd ?s of Some (Inr l) \<Rightarrow> syntheticAddress l = ''198.18.0.1'' | _ \<Rightarrow> False)" by code_simp
  then obtain l where l: "?s = (fst ?s, Some (Inr l))" "syntheticAddress l = ''198.18.0.1''"
    by (cases ?s) (auto split: option.splits sum.splits)
  have "(case lookup 2000 ''198.18.0.1'' (fst ?s) of (t3, r) \<Rightarrow> t3 = fst ?s \<and> r \<noteq> None)" by code_simp
  then obtain l' where l': "lookup 2000 (syntheticAddress l) (fst ?s) = (fst ?s, Some l')" using l(2) by auto
  from synthetic_address_never_reassigned [OF step l(1) rtranclp.rtrancl_refl l'] l l' show ?thesis
    by (cases ?s) (auto simp: Let_def)
qed

section \<open>Leases and requests\<close>

lemma dns_name_no_nul: "dns_name_ok h \<Longrightarrow> CHR 0x00 \<notin> set h"
proof -
  have "\<not> label_edge (CHR 0x00)" by code_simp
  then have "\<not> dns_label l" if "CHR 0x00 \<in> set l" for l using that by (auto simp: dns_label_def list_all_iff)
  then show "dns_name_ok h \<Longrightarrow> CHR 0x00 \<notin> set h" using set_split_on [of h "CHR ''.''"] by (auto simp: dns_name_ok_def list_all_iff)
qed

lemma answer_key_inject:
  assumes "dns_name_ok h" "dns_name_ok h'" "answer_key h fam real = answer_key h' fam' real'"
  shows "h = h' \<and> fam = fam' \<and> real = real'"
proof -
  have tw: "takeWhile (\<lambda>c. c \<noteq> CHR 0x00) (g @ CHR 0x00 # x) = g" if "dns_name_ok g" for g x
    using dns_name_no_nul [OF that] by (subst takeWhile_append2) auto
  have "h = h'" using tw [OF assms(1)] tw [OF assms(2)] assms(3) by (metis answer_key_def append_Cons append_Nil)
  then show ?thesis using assms(3) by (cases fam; cases fam') (auto simp: answer_key_def)
qed

lemma live_lease_ok: "leases_wf t \<Longrightarrow> l \<in> set (live_leases t) \<Longrightarrow> lease_ok l"
  by (simp add: leases_wf_def leases_ok_def)

lemma begin_answers:
  assumes "leases_wf t" "lease_begin now h fam real ttl t = (t', r)"
  shows "r = Lease_existing l \<Longrightarrow> l \<in> set (live_leases t) \<and> answerKey l = answer_key h fam real \<and> now < expiresAt l \<and> dns_name_ok h"
    "r = Lease_pending key \<Longrightarrow> key = answer_key h fam real \<and> dns_name_ok h"
proof -
  have v: "dns_name_ok h" if "r = Lease_existing l \<or> r = Lease_pending key"
    using assms(2) that by (auto simp: lease_begin_def validateDnsHostname_def split: if_splits)
  show "r = Lease_pending key \<Longrightarrow> key = answer_key h fam real \<and> dns_name_ok h" using assms(2) v
    by (auto simp: lease_begin_def Let_def split: sum.splits option.splits if_splits prod.splits)
  assume r: "r = Lease_existing l"
  then have "map_of (leasesByAnswer t) (answer_key h fam real) = Some l \<and> now < expiresAt l" using assms(2)
    by (auto simp: lease_begin_def Let_def split: sum.splits option.splits if_splits prod.splits)
  then show "l \<in> set (live_leases t) \<and> answerKey l = answer_key h fam real \<and> now < expiresAt l \<and> dns_name_ok h"
    using installed_lookup(2) [OF assms(1)] v r by (auto simp: live_leases_def)
qed

text \<open>The lease that answers a request, at once or when a pending installation ends, is a lease for the host name, the
  family and the real address that were asked for; the real address is of that family and not synthetic itself, and the
  lease lives between one second and one minute.\<close>

theorem granted_lease_matches_request:
  assumes "lease_step\<^sup>*\<^sup>* new_SyntheticDnsLeaseTable t" "lease_begin now hostname fam real ttl t = (t', r)"
    "r = Lease_existing l \<or> (\<exists>key t2 t3. r = Lease_pending key \<and> lease_step\<^sup>*\<^sup>* t' t2 \<and> lease_settle key None t2 = (t3, Some (Inr l)))"
  shows "lease_hostname l = hostname \<and> lease_family l = fam \<and> realAddress l = real
    \<and> isIP real = ip_version fam \<and> \<not> isSyntheticAddress real \<and> 1 \<le> ttlSeconds l \<and> ttlSeconds l \<le> 60"
proof -
  have wf: "leases_wf t" using reachable_wf [OF assms(1)] .
  have "\<exists>t0. leases_wf t0 \<and> l \<in> set (live_leases t0) \<and> answerKey l = answer_key hostname fam real \<and> dns_name_ok hostname"
    using assms(3)
  proof (elim disjE exE conjE)
    assume "r = Lease_existing l"
    then show ?thesis using begin_answers(1) [OF wf assms(2)] wf by blast
  next
    fix key t2 t3
    assume p: "r = Lease_pending key" "lease_step\<^sup>*\<^sup>* t' t2" "lease_settle key None t2 = (t3, Some (Inr l))"
    have "leases_wf t'" using lease_begin_wf [OF wf assms(2)] by blast
    then have "leases_wf t2" using lease_steps_wf [OF p(2)] by blast
    then show ?thesis using settle_live [OF _ p(3)] begin_answers(2) [OF wf assms(2) p(1)] by blast
  qed
  then have t0: "lease_ok l" "answer_key (lease_hostname l) (lease_family l) (realAddress l) = answer_key hostname fam real"
    "dns_name_ok hostname" using live_lease_ok by (auto simp: answerKey_def)
  then have "lease_hostname l = hostname \<and> lease_family l = fam \<and> realAddress l = real"
    using answer_key_inject [OF _ t0(3,2)] t0(1) by (simp add: lease_ok_def)
  then show ?thesis using t0(1) by (auto simp: lease_ok_def)
qed

end
