(* ===== verification/Dns_Rewrite.thy ===== *)
theory Dns_Rewrite
  imports Dns_Safety
begin

text \<open>
  What the client of the synthetic resolver sees: of an upstream response, the address answers that belong to its question
  are replaced by addresses of granted leases, in place, and nothing else changes.
\<close>

section \<open>Writing into a message\<close>

lemma splice_length: "offset + length bs \<le> length m \<Longrightarrow> length (splice m offset bs) = length m"
  by (simp add: splice_def)

lemma splice_drop: "offset + length bs \<le> e \<Longrightarrow> offset \<le> length m \<Longrightarrow> drop e (splice m offset bs) = drop e m"
  by (simp add: splice_def)

lemma splice_take: "e \<le> offset \<Longrightarrow> offset \<le> length m \<Longrightarrow> take e (splice m offset bs) = take e m"
  by (simp add: splice_def min_def)

lemma splice_at: "offset + length bs \<le> length m \<Longrightarrow> take (length bs) (drop offset (splice m offset bs)) = bs"
  by (simp add: splice_def)

lemma splice_nth:
  "offset + length bs \<le> length m \<Longrightarrow> i < length m \<Longrightarrow> \<not> (offset \<le> i \<and> i < offset + length bs) \<Longrightarrow> splice m offset bs ! i = m ! i"
  by (auto simp: splice_def nth_append)

definition word_bytes :: "int \<Rightarrow> byte list" where
  "word_bytes n = [of_int (n div 16777216), of_int (n div 65536), of_int (n div 256), of_int n]"

lemma writeUInt32BE_splice: "writeUInt32BE n offset m = splice m offset (word_bytes n)"
  by (simp add: writeUInt32BE_def word_bytes_def)

lemma word_bytes_length [simp]: "length (word_bytes n) = 4"
  by (simp add: word_bytes_def)

lemma read_word_bytes: "read_be (word_bytes n) = n mod 4294967296"
proof -
  have sum: "((a * 256 + b) * 256 + c) * 256 + d = x" if "x = 16777216 * a + y" "y = 65536 * b + z" "z = 256 * c + d" for a b c d x y z :: int
    using that by simp
  have "n mod (k * 256) = k * (n div k mod 256) + n mod k" for k using zmod_zmult2_eq [of 256 n k] by simp
  from this [of 16777216] this [of 65536] this [of 256]
  have "((n div 16777216 mod 256 * 256 + n div 65536 mod 256) * 256 + n div 256 mod 256) * 256 + n mod 256 = n mod 4294967296"
    by (intro sum) (simp_all only: mult_numeral_1 numeral_times_numeral semiring_norm)
  moreover have "uint (of_int k :: byte) = k mod 256" for k by (simp add: uint_word_of_int)
  ultimately show ?thesis by (simp only: read_be_def word_bytes_def foldl.simps mult_zero_left add_0)
qed

section \<open>Bytes of an address\<close>

lemma group_bytes_length: "group_bytes gs = Inr bs \<Longrightarrow> length bs = 2 * length gs"
  by (induction gs arbitrary: bs) (auto simp: sum_bind_Inr split: if_splits)

lemma split_gaps_nonempty: "split_gaps s \<noteq> []"
  by (induction s rule: split_gaps.induct) (auto split: list.splits)

definition family_length :: "NetworkAddressFamily \<Rightarrow> nat" where
  "family_length fam = (case fam of IPV4 \<Rightarrow> 4 | IPV6 \<Rightarrow> 16)"

lemma parseIpAddress_length: "parseIpAddress addr fam = Inr bs \<Longrightarrow> length bs = family_length fam"
proof (cases fam)
  case IPV6
  assume a: "parseIpAddress addr fam = Inr bs"
  define halves where "halves = split_gaps (js_lower addr)"
  define left where "left = group_fields (hd halves)"
  define right where "right = (if length halves = 2 then group_fields (halves ! 1) else [])"
  have "halves \<noteq> []" by (simp add: halves_def split_gaps_nonempty)
  then have "length halves = 1 \<or> length halves = 2 \<or> 2 < length halves" by (cases halves; cases "tl halves") auto
  moreover have p: "\<not> 2 < length halves" "\<not> (length halves = 1 \<and> length left + length right \<noteq> 8)"
    "\<not> (length halves = 2 \<and> 8 \<le> length left + length right)"
    "group_bytes (left @ replicate (8 - length left - length right) ''0'' @ right) = Inr bs"
    using a IPV6 by (auto simp: parseIpAddress_def Let_def halves_def [symmetric] left_def [symmetric] right_def [symmetric] split: if_splits)
  ultimately have "length (left @ replicate (8 - length left - length right) ''0'' @ right) = 8" by auto
  then show ?thesis using group_bytes_length [OF p(4)] IPV6 by (simp add: family_length_def)
qed (auto simp: parseIpAddress_def Let_def family_length_def split: if_splits)

lemma answer_family_length: "answer_family names a = Some fam \<Longrightarrow> dataLength a = family_length fam"
  by (auto simp: answer_family_def family_length_def split: if_splits)

section \<open>Rewriting the answers\<close>

text \<open>The bytes of an answer that rewriting may change, and what the rewritten answer shows.\<close>

definition rewritten_at :: "string list \<Rightarrow> DnsResourceRecord \<Rightarrow> nat \<Rightarrow> bool" where
  "rewritten_at names a i \<longleftrightarrow> answer_family names a \<noteq> None
     \<and> (ttlOffset a \<le> i \<and> i < ttlOffset a + 4 \<or> dataOffset a \<le> i \<and> i < dataOffset a + dataLength a)"

definition leased_answer :: "(nat \<Rightarrow> string \<Rightarrow> NetworkAddressFamily \<Rightarrow> string \<Rightarrow> int \<Rightarrow> string + SyntheticDnsLease \<times> int) \<Rightarrow> string \<Rightarrow> byte list \<Rightarrow> byte list
      \<Rightarrow> NetworkAddressFamily \<Rightarrow> DnsResourceRecord \<Rightarrow> bool" where
  "leased_answer grant name original out fam a \<longleftrightarrow> (\<exists>k real lease remaining.
     answer_text fam a original = Inr real \<and> grant k name fam real (rr_ttl a) = Inr (lease, remaining)
     \<and> parseIpAddress (syntheticAddress lease) fam = Inr (take (dataLength a) (drop (dataOffset a) out))
     \<and> readUInt32BE out (ttlOffset a) = remaining mod 4294967296)"

lemma region_cong: "take e xs = take e ys \<Longrightarrow> offset + n \<le> e \<Longrightarrow> take n (drop offset xs) = take n (drop offset ys)"
  by (metis add.commute min.absorb1 take_drop take_take)

lemma region_drop_cong:
  assumes "drop e xs = drop e ys" "e \<le> offset"
  shows "take n (drop offset xs) = take n (drop offset ys)"
proof -
  have "drop offset xs = drop (offset - e) (drop e xs)" "drop offset ys = drop (offset - e) (drop e ys)"
    using assms(2) by simp_all
  then show ?thesis using assms(1) by simp
qed

lemma leased_answer_original:
  "drop e m = drop e m' \<Longrightarrow> e \<le> dataOffset a \<Longrightarrow> leased_answer grant name m out fam a \<longleftrightarrow> leased_answer grant name m' out fam a"
  using region_drop_cong [of e m m' "dataOffset a" "dataLength a"] by (simp add: leased_answer_def answer_text_def)

lemma leased_answer_out:
  "drop e out = drop e out' \<Longrightarrow> e \<le> ttlOffset a \<Longrightarrow> e \<le> dataOffset a \<Longrightarrow> leased_answer grant name m out fam a \<longleftrightarrow> leased_answer grant name m out' fam a"
  using region_drop_cong [of e out out' "dataOffset a" "dataLength a"] region_drop_cong [of e out out' "ttlOffset a" 4]
  by (simp add: leased_answer_def readUInt32BE_def)

lemma chained_member: "chained lo as hi \<Longrightarrow> a \<in> set as \<Longrightarrow> lo \<le> ttlOffset a \<and> dataOffset a = ttlOffset a + 6 \<and> dataOffset a + dataLength a \<le> hi"
proof (induction as arbitrary: lo)
  case (Cons b as)
  have "dataOffset b + dataLength b \<le> hi" using Cons.prems(1) chained_le by auto
  then show ?case using Cons by fastforce
qed simp

text \<open>The bytes of one rewritten answer.\<close>

lemma write_answer:
  fixes remaining :: int
  assumes "dataOffset a = ttlOffset a + 6" "dataOffset a + dataLength a \<le> length m" "length bs = dataLength a"
    "m' = writeUInt32BE remaining (ttlOffset a) (splice m (dataOffset a) bs)"
  shows "length m' = length m" "take (ttlOffset a) m' = take (ttlOffset a) m" "drop (dataOffset a + dataLength a) m' = drop (dataOffset a + dataLength a) m"
    "take (dataLength a) (drop (dataOffset a) m') = bs" "readUInt32BE m' (ttlOffset a) = remaining mod 4294967296"
    "i < length m \<Longrightarrow> \<not> (ttlOffset a \<le> i \<and> i < ttlOffset a + 4) \<Longrightarrow> \<not> (dataOffset a \<le> i \<and> i < dataOffset a + dataLength a) \<Longrightarrow> m' ! i = m ! i"
proof -
  let ?d = "splice m (dataOffset a) bs"
  have d: "length ?d = length m" using assms splice_length by metis
  have m': "m' = splice ?d (ttlOffset a) (word_bytes remaining)" by (simp add: assms(4) writeUInt32BE_splice)
  show "length m' = length m" unfolding m' using d assms by (subst splice_length) auto
  show "take (ttlOffset a) m' = take (ttlOffset a) m" unfolding m' using d assms by (simp add: splice_take)
  show "drop (dataOffset a + dataLength a) m' = drop (dataOffset a + dataLength a) m" unfolding m' using d assms by (simp add: splice_drop)
  have "drop (dataOffset a) m' = drop (dataOffset a) ?d" unfolding m' using d assms by (simp add: splice_drop)
  then show "take (dataLength a) (drop (dataOffset a) m') = bs" using splice_at [of "dataOffset a" bs m] assms by simp
  show "readUInt32BE m' (ttlOffset a) = remaining mod 4294967296"
    unfolding m' readUInt32BE_def using splice_at [of "ttlOffset a" "word_bytes remaining" ?d] d assms by (simp add: read_word_bytes)
  show "m' ! i = m ! i" if "i < length m" "\<not> (ttlOffset a \<le> i \<and> i < ttlOffset a + 4)" "\<not> (dataOffset a \<le> i \<and> i < dataOffset a + dataLength a)"
    unfolding m' using that d assms splice_nth [of "ttlOffset a" "word_bytes remaining" ?d i] splice_nth [of "dataOffset a" bs m i] by simp
qed

definition rewrite_ok :: "(nat \<Rightarrow> string \<Rightarrow> NetworkAddressFamily \<Rightarrow> string \<Rightarrow> int \<Rightarrow> string + SyntheticDnsLease \<times> int) \<Rightarrow> string \<Rightarrow> string list
      \<Rightarrow> DnsResourceRecord list \<Rightarrow> byte list \<Rightarrow> byte list \<Rightarrow> bool" where
  "rewrite_ok grant name names as m out \<longleftrightarrow> length out = length m
     \<and> (\<forall>a \<in> set as. \<forall>fam. answer_family names a = Some fam \<longrightarrow> leased_answer grant name m out fam a)
     \<and> (\<forall>i < length m. (\<forall>a \<in> set as. \<not> rewritten_at names a i) \<longrightarrow> out ! i = m ! i)"

lemma rewrite_answers_ok:
  assumes "rewrite_answers grant name names as k m = Inr (out, k')" "chained lo as hi" "hi \<le> length m"
  shows "rewrite_ok grant name names as m out \<and> take lo out = take lo m"
  using assms
proof (induction grant name names as k m arbitrary: lo rule: rewrite_answers.induct)
  case (1 grant name names k m)
  then show ?case by (simp add: rewrite_ok_def)
next
  case (2 grant name names a as k m)
  let ?e = "dataOffset a + dataLength a"
  have a: "lo \<le> ttlOffset a" "dataOffset a = ttlOffset a + 6" "?e \<le> length m" and ch: "chained ?e as hi"
    using "2.prems" chained_member [OF "2.prems"(2), of a] by auto
  show ?case
  proof (cases "answer_family names a")
    case None
    have IH: "rewrite_ok grant name names as m out \<and> take ?e out = take ?e m"
      using "2.IH"(1) [OF None _ ch "2.prems"(3)] "2.prems"(1) None by simp
    have "take lo out = take lo m" using region_cong [of ?e out m 0 lo] IH a by simp
    then show ?thesis using IH None by (auto simp: rewrite_ok_def rewritten_at_def)
  next
    case (Some fam)
    obtain real lease remaining bs where r: "answer_text fam a m = Inr real" "grant k name fam real (rr_ttl a) = Inr (lease, remaining)"
      "parseIpAddress (syntheticAddress lease) fam = Inr bs"
      and rest: "rewrite_answers grant name names as (Suc k) (writeUInt32BE remaining (ttlOffset a) (splice m (dataOffset a) bs)) = Inr (out, k')"
      using "2.prems"(1) Some by (auto simp: sum_bind_Inr)
    let ?m = "writeUInt32BE remaining (ttlOffset a) (splice m (dataOffset a) bs)"
    have "length bs = dataLength a" using parseIpAddress_length [OF r(3)] answer_family_length [OF Some] by simp
    note w = write_answer [OF a(2,3) this refl, where remaining = remaining]
    have IH: "rewrite_ok grant name names as ?m out \<and> take ?e out = take ?e ?m"
      using "2.IH"(2) [OF Some rest ch] "2.prems"(3) w(1) by simp
    have out: "take (dataLength a) (drop (dataOffset a) out) = bs" "readUInt32BE out (ttlOffset a) = remaining mod 4294967296"
      using IH w(4,5) region_cong [of ?e out ?m "dataOffset a" "dataLength a"] region_cong [of ?e out ?m "ttlOffset a" 4] a(2)
      by (simp_all add: readUInt32BE_def)
    then have head: "leased_answer grant name m out fam a" using r by (auto simp: leased_answer_def)
    have tail: "leased_answer grant name m out f b" if "b \<in> set as" "answer_family names b = Some f" for b f
      using IH that leased_answer_original [OF w(3)] chained_member [OF ch that(1)] by (auto simp: rewrite_ok_def)
    have "out ! i = m ! i" if "i < length m" "\<forall>b \<in> set (a # as). \<not> rewritten_at names b i" for i
      using IH that w(1) w(6) [of i] Some by (auto simp: rewrite_ok_def rewritten_at_def)
    moreover have "take lo out = take lo m"
      using region_cong [of ?e out ?m 0 lo] IH region_cong [OF w(2), of 0 lo] a by simp
    ultimately show ?thesis using IH head tail Some w(1) by (auto simp: rewrite_ok_def)
  qed
qed

lemma parseDnsQuestion_end:
  assumes "parseDnsQuestion m response = Inr q"
  shows "12 \<le> questionEnd q \<and> questionEnd q \<le> length m"
proof -
  obtain name e where r: "readDnsName m DNS_HEADER_LENGTH = Inr (name, e)" "questionEnd q = e + 4" "e + 4 \<le> length m"
    using assms by (auto simp: parseDnsQuestion_def Let_def sum_bind_Inr split: if_splits)
  then show ?thesis using readDnsName_ok(2) [OF r(1)] by (simp add: DNS_HEADER_LENGTH_def)
qed

lemma parseDnsResponse_chained:
  assumes "parseDnsResponse m = Inr (q, answers)"
  shows "12 \<le> questionEnd q \<and> chained (questionEnd q) answers (length m)"
proof -
  have q: "parseDnsQuestion m True = Inr q" using assms by (auto simp: parseDnsResponse_def Let_def sum_bind_Inr split: if_splits)
  have "\<exists>n k. parse_records m n k (questionEnd q) = Inr (answers, length m)"
    using assms q by (auto simp: parseDnsResponse_def Let_def sum_bind_Inr split: if_splits)
  then show ?thesis using parse_records_chained parseDnsQuestion_end [OF q] by blast
qed

lemma rewriteAddressAnswers_ok:
  assumes r: "rewriteAddressAnswers grant m answers name = Inr out" and p: "12 \<le> lo" "chained lo answers (length m)"
  defines "names \<equiv> attributedAnswerNames answers name"
  shows "length out = length m"
    "a \<in> set answers \<Longrightarrow> answer_family names a = Some fam \<Longrightarrow> leased_answer grant name m out fam a"
    "i < length m \<Longrightarrow> i \<noteq> 2 \<Longrightarrow> i \<noteq> 3 \<Longrightarrow> \<forall>a \<in> set answers. \<not> rewritten_at names a i \<Longrightarrow> out ! i = m ! i"
proof -
  obtain out1 k where o1: "rewrite_answers grant name names answers 0 m = Inr (out1, k)"
    and o: "out = (if 0 < k then writeUInt16BE (readUInt16BE out1 2 AND NOT 0x0020) 2 out1 else out1)"
    using r by (auto simp: rewriteAddressAnswers_def sum_bind_Inr names_def)
  have ok: "rewrite_ok grant name names answers m out1" using rewrite_answers_ok [OF o1 p(2) order_refl] by blast
  have len: "4 \<le> length m" using chained_le [OF p(2)] p(1) by simp
  have l1: "length out1 = length m" using ok by (simp add: rewrite_ok_def)
  have flags: "length out = length out1" "drop 4 out = drop 4 out1"
    using len l1 unfolding o writeUInt16BE_def by (auto simp: splice_length splice_drop)
  show "length out = length m" using flags l1 by simp
  show "leased_answer grant name m out fam a" if "a \<in> set answers" "answer_family names a = Some fam"
  proof -
    have "4 \<le> ttlOffset a" "4 \<le> dataOffset a" using chained_member [OF p(2) that(1)] p(1) by auto
    then show ?thesis using leased_answer_out [OF flags(2)] ok that by (auto simp: rewrite_ok_def)
  qed
  show "out ! i = m ! i" if "i < length m" "i \<noteq> 2" "i \<noteq> 3" "\<forall>a \<in> set answers. \<not> rewritten_at names a i"
  proof -
    have "out ! i = out1 ! i" using len l1 that(1-3) unfolding o writeUInt16BE_def by (auto intro!: splice_nth)
    then show ?thesis using ok that by (simp add: rewrite_ok_def)
  qed
qed

text \<open>The internet address answers of the names that aliases of the response lead to from a name, and whether there are some
  and all of them are global IPv6 addresses.\<close>

definition address_answer :: "DnsResourceRecord list \<Rightarrow> string \<Rightarrow> DnsResourceRecord \<Rightarrow> bool" where
  "address_answer answers name a \<longleftrightarrow> rr_class a = DNS_CLASS_IN \<and> (cname_edge answers)\<^sup>*\<^sup>* name (rr_owner a)
     \<and> (rr_type a = DNS_TYPE_A \<or> rr_type a = DNS_TYPE_AAAA)"

definition only_global_ipv6 :: "byte list \<Rightarrow> DnsResourceRecord list \<Rightarrow> string \<Rightarrow> bool" where
  "only_global_ipv6 response answers name \<longleftrightarrow> (\<exists>a \<in> set answers. address_answer answers name a)
     \<and> (\<forall>a \<in> set answers. address_answer answers name a \<longrightarrow> rr_type a = DNS_TYPE_AAAA \<and> dataLength a = 16
         \<and> isGlobalIpv6Bytes (take 16 (drop (dataOffset a) response)))"

lemma hasOnlyGlobalIpv6Answers_iff: "hasOnlyGlobalIpv6Answers response answers name \<longleftrightarrow> only_global_ipv6 response answers name"
  unfolding hasOnlyGlobalIpv6Answers_def only_global_ipv6_def address_answer_def Let_def attributedAnswerNames_closure
  by (auto simp: list_all_iff filter_empty_conv)

text \<open>The counts of answers, authorities and additional records are zero.\<close>

lemma write_zero_behind: "length hs = n \<Longrightarrow> writeUInt16BE 0 n (hs @ r) = (hs @ [0, 0]) @ drop 2 r"
  by (simp add: writeUInt16BE_def splice_def)

lemma without_answers_counts:
  assumes "12 \<le> length m"
  shows "take 6 (drop 6 (without_answers flags m)) = [0, 0, 0, 0, 0, 0]"
proof -
  define m1 where "m1 = writeUInt16BE flags 2 m"
  define hs where "hs = take 6 m1"
  have "12 \<le> length m1" using assms by (simp add: m1_def writeUInt16BE_def splice_length)
  then have l: "length hs = 6" by (simp add: hs_def)
  have "writeUInt16BE 0 6 m1 = (hs @ [0, 0]) @ drop 2 (drop 6 m1)"
    using write_zero_behind [OF l, of "drop 6 m1"] by (simp add: hs_def)
  then have "without_answers flags m = (((hs @ [0, 0]) @ [0, 0]) @ [0, 0]) @ drop 2 (drop 2 (drop 2 (drop 6 m1)))"
    unfolding without_answers_def m1_def [symmetric]
    using l write_zero_behind [of "hs @ [0, 0]" 8] write_zero_behind [of "(hs @ [0, 0]) @ [0, 0]" 10] by (simp only:) simp
  then have "without_answers flags m = hs @ [0, 0, 0, 0, 0, 0] @ drop 2 (drop 2 (drop 2 (drop 6 m1)))" by simp
  then show ?thesis using l by simp
qed

lemma answerQuery_cases:
  assumes "answerQuery globalIpv6Available grant query (Inr response) = Inr out" "parseDnsResponse response = Inr (q, answers)"
  obtains question where "parseDnsQuestion query False = Inr question" "q_id question = q_id q" "q_name question = q_name q" "q_type question = q_type q"
    "(if q_type q = DNS_TYPE_AAAA \<and> globalIpv6Available = Some False \<and> only_global_ipv6 response answers (q_name q)
      then createDnsNoDataResponse query else rewriteAddressAnswers grant response answers (q_name q)) = Inr out"
  using assms by (auto simp: answerQuery_def sum_bind_Inr hasOnlyGlobalIpv6Answers_iff split: if_splits)

text \<open>C31: What a client is told.  An answer that the resolver gives from an upstream response is for the question of the query.
  If the question is for IPv6 addresses, the host has no global IPv6 (\<open>globalIpv6Available\<close> is false) and the address
  answers of the names that aliases of the response lead to from the question are global IPv6 addresses only, at least one,
  then the whole answer is replaced by the response without data for the query, whose record counts are zero.
  In every other case each internet address answer (A with four bytes, AAAA with sixteen) of such a name carries the address
  and the remaining lifetime of a lease that was granted for the name in question and the address upstream had given;
  outside these fields and the two flag bytes the response is the one of upstream, of the same length.\<close>

theorem answered_addresses_are_leased:
  assumes "answerQuery globalIpv6Available grant query (Inr response) = Inr out" "parseDnsResponse response = Inr (q, answers)"
  shows "(\<exists>question. parseDnsQuestion query False = Inr question \<and> q_id question = q_id q \<and> q_name question = q_name q \<and> q_type question = q_type q)
    \<and> (if q_type q = DNS_TYPE_AAAA \<and> globalIpv6Available = Some False \<and> only_global_ipv6 response answers (q_name q)
       then createDnsNoDataResponse query = Inr out \<and> take 6 (drop 6 out) = [0, 0, 0, 0, 0, 0]
       else length out = length response
    \<and> (\<forall>a \<in> set answers. \<forall>fam. rr_class a = DNS_CLASS_IN \<and> (cname_edge answers)\<^sup>*\<^sup>* (q_name q) (rr_owner a)
         \<and> (fam = IPV4 \<and> rr_type a = DNS_TYPE_A \<and> dataLength a = 4 \<or> fam = IPV6 \<and> rr_type a = DNS_TYPE_AAAA \<and> dataLength a = 16)
         \<longrightarrow> leased_answer grant (q_name q) response out fam a)
    \<and> (\<forall>i < length response. i \<noteq> 2 \<and> i \<noteq> 3 \<and> (\<forall>a \<in> set answers. \<not> rewritten_at (attributedAnswerNames answers (q_name q)) a i)
         \<longrightarrow> out ! i = response ! i))"
    (is "?question \<and> (if ?no_data then ?empty else ?leased)")
proof -
  from answerQuery_cases [OF assms] obtain question where question: "parseDnsQuestion query False = Inr question" "q_id question = q_id q"
      "q_name question = q_name q" "q_type question = q_type q"
    and out: "(if ?no_data then createDnsNoDataResponse query else rewriteAddressAnswers grant response answers (q_name q)) = Inr out" .
  have ?empty if ?no_data
  proof -
    from that out have n: "createDnsNoDataResponse query = Inr out" by simp
    then obtain flags where "out = without_answers flags (take (questionEnd question) query)"
      using question(1) by (auto simp: createDnsNoDataResponse_def sum_bind_Inr)
    then show ?thesis using n parseDnsQuestion_end [OF question(1)] by (simp add: without_answers_counts)
  qed
  moreover have ?leased if "\<not> ?no_data"
  proof -
    from that out have r: "rewriteAddressAnswers grant response answers (q_name q) = Inr out" by argo
    note p = parseDnsResponse_chained [OF assms(2)]
    note ok = rewriteAddressAnswers_ok [OF r p [THEN conjunct1] p [THEN conjunct2]]
    have fam: "answer_family (attributedAnswerNames answers (q_name q)) a = Some fam"
      if "rr_class a = DNS_CLASS_IN" "(cname_edge answers)\<^sup>*\<^sup>* (q_name q) (rr_owner a)"
        "fam = IPV4 \<and> rr_type a = DNS_TYPE_A \<and> dataLength a = 4 \<or> fam = IPV6 \<and> rr_type a = DNS_TYPE_AAAA \<and> dataLength a = 16" for a fam
      using that by (auto simp: answer_family_def attributedAnswerNames_closure DNS_TYPE_A_def DNS_TYPE_AAAA_def)
    show ?thesis using ok fam by blast
  qed
  ultimately show ?thesis using question by auto
qed

text \<open>A query for \<open>a.io\<close>, answered upstream with one address; every address is leased as the first synthetic one.\<close>

definition sample_query :: "byte list" where
  "sample_query = [0, 1, 1, 0, 0, 1, 0, 0, 0, 0, 0, 0] @ encode_name ''a.io'' @ [0, 1, 0, 1]"

definition sample_response :: "byte list" where
  "sample_response = [0, 1, 0x81, 0x80, 0, 1, 0, 1, 0, 0, 0, 0] @ encode_name ''a.io'' @ [0, 1, 0, 1]
     @ [0xc0, 12, 0, 1, 0, 1, 0, 0, 1, 44, 0, 4, 203, 0, 113, 8]"

definition sample_grant :: "nat \<Rightarrow> string \<Rightarrow> NetworkAddressFamily \<Rightarrow> string \<Rightarrow> int \<Rightarrow> string + SyntheticDnsLease \<times> int" where
  "sample_grant k name fam real ttl = Inr (\<lparr>lease_hostname = name, lease_family = fam, syntheticAddress = ipv4_text 1,
     realAddress = real, expiresAt = 60000, ttlSeconds = 60\<rparr>, 60)"

definition sample_answer :: DnsResourceRecord where
  "sample_answer = \<lparr>rr_owner = ''a.io'', rr_type = 1, rr_class = 1, rr_ttl = 300, ttlOffset = 28, dataOffset = 34,
     dataLength = 4, rr_cname = None\<rparr>"

theorem answered_addresses_are_leased_witness:
  "\<exists>out. answerQuery (Some False) sample_grant sample_query (Inr sample_response) = Inr out
     \<and> leased_answer sample_grant ''a.io'' sample_response out IPV4 sample_answer"
proof -
  have "\<not> isl (answerQuery (Some False) sample_grant sample_query (Inr sample_response))" by code_simp
  then obtain out where out: "answerQuery (Some False) sample_grant sample_query (Inr sample_response) = Inr out"
    by (cases "answerQuery (Some False) sample_grant sample_query (Inr sample_response)") simp_all
  have p: "parseDnsResponse sample_response = Inr (\<lparr>q_id = 1, q_name = ''a.io'', q_type = 1, questionEnd = 22\<rparr>, [sample_answer])"
    by code_simp
  from answered_addresses_are_leased [OF out p] out show ?thesis
    by (auto simp: sample_answer_def DNS_CLASS_IN_def DNS_TYPE_A_def DNS_TYPE_AAAA_def)
qed

end
