(* ===== verification/Archive_Json.thy ===== *)
theory Archive_Json
  imports Prelude
begin

text \<open>
  The recogniser of unfinished JSON values, \<open>src/src/server/ArchiveSourceJson.ts\<close>, which decides whether the last line of
  a session file may still be completed.  The offset into the text is the rest of the text, the byte stack a list with
  its top in front (1 an object, 2 an array).  The abort signal is polled only and left out.
\<close>

section \<open>The recogniser\<close>

datatype Expect = ExpectValue | ArrayValueOrEnd | ObjectKeyOrEnd | ObjectKey | Colon | CommaOrEnd | Done

definition json_ws :: "char \<Rightarrow> bool" where
  "json_ws c \<longleftrightarrow> c = CHR '' '' \<or> c = CHR 0x09 \<or> c = CHR 0x0D \<or> c = CHR 0x0A"

definition hex_digit :: "char \<Rightarrow> bool" where
  "hex_digit c \<longleftrightarrow> (let n = (of_char c :: nat) in (0x30 \<le> n \<and> n \<le> 0x39) \<or> (0x41 \<le> n \<and> n \<le> 0x46) \<or> (0x61 \<le> n \<and> n \<le> 0x66))"

text \<open>A token ends the function with a result, or leaves a rest of the text.\<close>

datatype scan = Stop bool | Rest string

fun scan_hex :: "nat \<Rightarrow> string \<Rightarrow> scan" where
  "scan_hex 0 s = Rest s"
| "scan_hex (Suc n) [] = Stop True"
| "scan_hex (Suc n) (c # s) = (if hex_digit c then scan_hex n s else Stop False)"

lemma scan_hex_code [code]:
  "scan_hex n s = (if n = 0 then Rest s else case s of [] \<Rightarrow> Stop True | c # s' \<Rightarrow> if hex_digit c then scan_hex (n - 1) s' else Stop False)"
  by (cases n; cases s) simp_all

lemma scan_hex_rest: "scan_hex n s = Rest r \<Longrightarrow> length r \<le> length s"
  by (induction n s rule: scan_hex.induct) (auto split: if_splits)

text \<open>The text behind an opening quote.\<close>

function scan_string :: "string \<Rightarrow> scan" where
  "scan_string [] = Stop True"
| "scan_string (c # s) =
     (if c = CHR 0x22 then Rest s
      else if (of_char c :: nat) < 0x20 then Stop False
      else if c \<noteq> CHR 0x5C then scan_string s
      else case s of
          [] \<Rightarrow> Stop True
        | e # s' \<Rightarrow>
            if e = CHR ''u'' then (case scan_hex 4 s' of Stop b \<Rightarrow> Stop b | Rest r \<Rightarrow> scan_string r)
            else if e \<in> set [CHR 0x22, CHR 0x5C, CHR ''/'', CHR ''b'', CHR ''f'', CHR ''n'', CHR ''r'', CHR ''t''] then scan_string s'
            else Stop False)"
  by pat_completeness auto

termination
  by (relation "measure length") (auto dest: scan_hex_rest)

fun scan_literal :: "string \<Rightarrow> string \<Rightarrow> scan" where
  "scan_literal [] s = Rest s"
| "scan_literal (x # xs) [] = Stop True"
| "scan_literal (x # xs) (c # s) = (if c = x then scan_literal xs s else Stop False)"

definition digits_behind :: "string \<Rightarrow> scan" where
  "digits_behind s = (if s = [] then Stop True else if \<not> is_digit (hd s) then Stop False else Rest (dropWhile is_digit s))"

definition starts_with :: "char list \<Rightarrow> string \<Rightarrow> bool" where
  "starts_with cs s \<longleftrightarrow> s \<noteq> [] \<and> hd s \<in> set cs"

definition after_sign :: "string \<Rightarrow> string" where
  "after_sign s = (if starts_with [CHR ''+'', CHR ''-''] s then tl s else s)"

definition scan_exponent :: "string \<Rightarrow> scan" where
  "scan_exponent s = (if starts_with [CHR ''e'', CHR ''E''] s then digits_behind (after_sign (tl s)) else Rest s)"

definition scan_fraction :: "string \<Rightarrow> scan" where
  "scan_fraction s = (if starts_with [CHR ''.''] s
     then (case digits_behind (tl s) of Stop b \<Rightarrow> Stop b | Rest r \<Rightarrow> scan_exponent r) else scan_exponent s)"

definition scan_integer :: "string \<Rightarrow> scan" where
  "scan_integer s = (if starts_with [CHR ''0''] s then scan_fraction (tl s)
     else if s \<noteq> [] \<and> is_digit (hd s) then scan_fraction (dropWhile is_digit s) else Stop False)"

definition scan_number :: "string \<Rightarrow> scan" where
  "scan_number s = (if starts_with [CHR ''-''] s then (if tl s = [] then Stop True else scan_integer (tl s)) else scan_integer s)"

definition literal_of :: "char \<Rightarrow> string" where
  "literal_of c = (if c = CHR ''t'' then ''true'' else if c = CHR ''f'' then ''false'' else ''null'')"

text \<open>The token that starts with \<open>c\<close>: a string, a literal or a number.\<close>

definition scan_token :: "char \<Rightarrow> string \<Rightarrow> scan" where
  "scan_token c s = (if c = CHR 0x22 then scan_string s
     else if c \<in> set ''tfn'' then scan_literal (literal_of c) (c # s)
     else if c = CHR ''-'' \<or> is_digit c then scan_number (c # s) else Stop False)"

definition completeValue :: "nat list \<Rightarrow> Expect" where
  "completeValue stack = (if stack = [] then Done else CommaOrEnd)"

definition top_object :: "nat list \<Rightarrow> bool" where
  "top_object stack \<longleftrightarrow> stack \<noteq> [] \<and> hd stack = 1"

subsection \<open>Every token makes the text shorter\<close>

lemma scan_string_rest: "scan_string s = Rest r \<Longrightarrow> length r < length s"
proof (induction s rule: scan_string.induct)
  case (2 c s)
  consider "c = CHR 0x22" | "c \<noteq> CHR 0x22" "c \<noteq> CHR 0x5C" | "c = CHR 0x5C" by blast
  then show ?case
  proof cases
    case 3
    then obtain e s' where s: "s = e # s'" using "2.prems" by (cases s) simp_all
    show ?thesis
    proof (cases "e = CHR ''u''")
      case True
      obtain h where h: "scan_hex 4 s' = Rest h" "scan_string h = Rest r" using "2.prems" 3 s True by (simp split: scan.splits)
      have "length r < length h" using "2.IH"(2) [OF _ _ _ s True h(1,2)] 3 by simp
      then show ?thesis using scan_hex_rest [OF h(1)] s by simp
    next
      case False
      then have m: "e \<in> set [CHR 0x22, CHR 0x5C, CHR ''/'', CHR ''b'', CHR ''f'', CHR ''n'', CHR ''r'', CHR ''t'']" "scan_string s' = Rest r"
        using "2.prems" 3 s by (simp_all split: if_splits)
      show ?thesis using "2.IH"(3) [OF _ _ _ s False m] 3 s by simp
    qed
  qed (use 2 in \<open>auto split: if_splits\<close>)
qed simp

lemma digits_behind_rest: "digits_behind s = Rest r \<Longrightarrow> length r < length s"
  using length_dropWhile_le [of is_digit "tl s"] by (cases s) (auto simp: digits_behind_def split: if_splits)

lemma scan_literal_rest: "scan_literal l s = Rest r \<Longrightarrow> length r + length l = length s"
  by (induction l s rule: scan_literal.induct) (auto split: if_splits)

lemma scan_exponent_rest: "scan_exponent s = Rest r \<Longrightarrow> length r \<le> length s"
  by (auto simp: scan_exponent_def after_sign_def split: if_splits dest!: digits_behind_rest)

lemma scan_fraction_rest: "scan_fraction s = Rest r \<Longrightarrow> length r \<le> length s"
  by (auto simp: scan_fraction_def split: if_splits scan.splits dest!: digits_behind_rest scan_exponent_rest)

lemma scan_integer_rest: "scan_integer s = Rest r \<Longrightarrow> length r < length s"
  using length_dropWhile_le [of is_digit "tl s"]
  by (cases s) (auto simp: scan_integer_def starts_with_def split: if_splits dest!: scan_fraction_rest)

lemma scan_token_rest: "scan_token c s = Rest r \<Longrightarrow> length r < Suc (length s)"
  by (auto simp: scan_token_def scan_number_def literal_of_def split: if_splits dest!: scan_string_rest scan_literal_rest scan_integer_rest)

text \<open>The loop.\<close>

function json_scan :: "Expect \<Rightarrow> nat list \<Rightarrow> string \<Rightarrow> bool" where
  "json_scan expect stack [] = (expect \<noteq> Done)"
| "json_scan expect stack (c # s) =
     (if json_ws c then json_scan expect stack s
      else if expect = Done then False
      else if expect = Colon then (if c \<noteq> CHR '':'' then False else json_scan ExpectValue stack s)
      else if expect = CommaOrEnd then
        (if c = (if top_object stack then CHR ''}'' else CHR '']'') then json_scan (completeValue (tl stack)) (tl stack) s
         else if c = CHR '','' then json_scan (if top_object stack then ObjectKey else ExpectValue) stack s
         else False)
      else if (expect = ObjectKeyOrEnd \<and> c = CHR ''}'') \<or> (expect = ArrayValueOrEnd \<and> c = CHR '']'')
        then json_scan (completeValue (tl stack)) (tl stack) s
      else let key = (expect = ObjectKey \<or> expect = ObjectKeyOrEnd) in
        if key \<and> c \<noteq> CHR 0x22 then False
        else if c = CHR ''{'' then json_scan ObjectKeyOrEnd (1 # stack) s
        else if c = CHR ''['' then json_scan ArrayValueOrEnd (2 # stack) s
        else case scan_token c s of Stop b \<Rightarrow> b | Rest r \<Rightarrow> json_scan (if key then Colon else completeValue stack) stack r)"
  by pat_completeness auto

termination
  by (relation "measure (\<lambda>(expect, stack, s). length s)") (simp_all add: scan_token_rest)

declare json_scan.simps(2) [simp del]

definition isIncompleteArchiveJsonPrefix :: "string \<Rightarrow> bool" where
  "isIncompleteArchiveJsonPrefix text = json_scan ExpectValue [] text"

end
