(* ===== verification/Archive_Json_Laws.thy ===== *)
theory Archive_Json_Laws
  imports Archive_Json
begin

text \<open>
  The grammar of JSON and what the recogniser of unfinished values decides: a text is unfinished exactly when it is not a
  JSON text but can be continued to one.
\<close>

section \<open>The grammar\<close>

definition blank :: "string \<Rightarrow> bool" where
  "blank w \<longleftrightarrow> list_all json_ws w"

inductive json_chars :: "string \<Rightarrow> bool" where
  chars_nil: "json_chars []"
| chars_plain: "c \<noteq> CHR 0x22 \<Longrightarrow> c \<noteq> CHR 0x5C \<Longrightarrow> (0x20 :: nat) \<le> of_char c \<Longrightarrow> json_chars s \<Longrightarrow> json_chars (c # s)"
| chars_escape: "e \<in> set [CHR 0x22, CHR 0x5C, CHR ''/'', CHR ''b'', CHR ''f'', CHR ''n'', CHR ''r'', CHR ''t''] \<Longrightarrow> json_chars s
    \<Longrightarrow> json_chars (CHR 0x5C # e # s)"
| chars_unicode: "length h = 4 \<Longrightarrow> list_all hex_digit h \<Longrightarrow> json_chars s \<Longrightarrow> json_chars (CHR 0x5C # CHR ''u'' # h @ s)"

definition json_string :: "string \<Rightarrow> bool" where
  "json_string v \<longleftrightarrow> (\<exists>b. json_chars b \<and> v = CHR 0x22 # b @ [CHR 0x22])"

definition digits :: "string \<Rightarrow> bool" where
  "digits d \<longleftrightarrow> d \<noteq> [] \<and> list_all is_digit d"

definition json_exponent :: "string \<Rightarrow> bool" where
  "json_exponent x \<longleftrightarrow> x = [] \<or> (\<exists>e s d. x = e # s @ d \<and> e \<in> {CHR ''e'', CHR ''E''} \<and> s \<in> {[], ''+'', ''-''} \<and> digits d)"

definition json_fraction :: "string \<Rightarrow> bool" where
  "json_fraction x \<longleftrightarrow> (\<exists>e. json_exponent e \<and> (x = e \<or> (\<exists>d. digits d \<and> x = CHR ''.'' # d @ e)))"

definition json_integer :: "string \<Rightarrow> bool" where
  "json_integer x \<longleftrightarrow> (\<exists>f. json_fraction f \<and> (x = CHR ''0'' # f \<or> (\<exists>d. digits d \<and> hd d \<noteq> CHR ''0'' \<and> x = d @ f)))"

definition json_number :: "string \<Rightarrow> bool" where
  "json_number x \<longleftrightarrow> json_integer x \<or> (\<exists>i. json_integer i \<and> x = CHR ''-'' # i)"

text \<open>Values, and the inner parts of arrays and objects up to the closing bracket.\<close>

inductive json_value :: "string \<Rightarrow> bool" and json_elements :: "string \<Rightarrow> bool" and json_members :: "string \<Rightarrow> bool" where
  value_string: "json_string v \<Longrightarrow> json_value v"
| value_number: "json_number v \<Longrightarrow> json_value v"
| value_literal: "v \<in> {''true'', ''false'', ''null''} \<Longrightarrow> json_value v"
| value_empty_array: "blank w \<Longrightarrow> json_value (CHR ''['' # w @ [CHR '']''])"
| value_array: "json_elements es \<Longrightarrow> json_value (CHR ''['' # es @ [CHR '']''])"
| value_empty_object: "blank w \<Longrightarrow> json_value (CHR ''{'' # w @ [CHR ''}''])"
| value_object: "json_members ms \<Longrightarrow> json_value (CHR ''{'' # ms @ [CHR ''}''])"
| elements_one: "blank w \<Longrightarrow> json_value v \<Longrightarrow> blank w' \<Longrightarrow> json_elements (w @ v @ w')"
| elements_more: "blank w \<Longrightarrow> json_value v \<Longrightarrow> blank w' \<Longrightarrow> json_elements es \<Longrightarrow> json_elements (w @ v @ w' @ CHR '','' # es)"
| members_one: "blank w \<Longrightarrow> json_string k \<Longrightarrow> blank w1 \<Longrightarrow> blank w2 \<Longrightarrow> json_value v \<Longrightarrow> blank w'
    \<Longrightarrow> json_members (w @ k @ w1 @ CHR '':'' # w2 @ v @ w')"
| members_more: "blank w \<Longrightarrow> json_string k \<Longrightarrow> blank w1 \<Longrightarrow> blank w2 \<Longrightarrow> json_value v \<Longrightarrow> blank w' \<Longrightarrow> json_members ms
    \<Longrightarrow> json_members (w @ k @ w1 @ CHR '':'' # w2 @ v @ w' @ CHR '','' # ms)"

definition json_text :: "string \<Rightarrow> bool" where
  "json_text t \<longleftrightarrow> (\<exists>w v w'. blank w \<and> json_value v \<and> blank w' \<and> t = w @ v @ w')"

section \<open>What may follow\<close>

text \<open>The texts that complete a document when a value has ended inside the brackets of a stack, when a value is expected
  there, and when a key is expected.\<close>

fun closer :: "nat \<Rightarrow> char" where
  "closer k = (if k = 1 then CHR ''}'' else CHR '']'')"

inductive after :: "nat list \<Rightarrow> string \<Rightarrow> bool" and at_value :: "nat list \<Rightarrow> string \<Rightarrow> bool" and at_key :: "nat list \<Rightarrow> string \<Rightarrow> bool" where
  after_done: "blank w \<Longrightarrow> after [] w"
| after_close: "blank w \<Longrightarrow> after st u \<Longrightarrow> after (k # st) (w @ closer k # u)"
| after_element: "blank w \<Longrightarrow> at_value (2 # st) u \<Longrightarrow> after (2 # st) (w @ CHR '','' # u)"
| after_member: "blank w \<Longrightarrow> at_key (1 # st) u \<Longrightarrow> after (1 # st) (w @ CHR '','' # u)"
| at_valueI: "blank w \<Longrightarrow> json_value v \<Longrightarrow> after st u \<Longrightarrow> at_value st (w @ v @ u)"
| at_keyI: "blank w \<Longrightarrow> json_string k \<Longrightarrow> blank w1 \<Longrightarrow> at_value st u \<Longrightarrow> at_key st (w @ k @ w1 @ CHR '':'' # u)"

fun follows :: "Expect \<Rightarrow> nat list \<Rightarrow> string \<Rightarrow> bool" where
  "follows ExpectValue st u = at_value st u"
| "follows ArrayValueOrEnd st u = (at_value st u \<or> (\<exists>w u'. u = w @ CHR '']'' # u' \<and> blank w \<and> after (tl st) u'))"
| "follows ObjectKeyOrEnd st u = (at_key st u \<or> (\<exists>w u'. u = w @ CHR ''}'' # u' \<and> blank w \<and> after (tl st) u'))"
| "follows ObjectKey st u = at_key st u"
| "follows Colon st u = (\<exists>w u'. u = w @ CHR '':'' # u' \<and> blank w \<and> at_value st u')"
| "follows CommaOrEnd st u = after st u"
| "follows Done st u = after st u"

definition state_ok :: "Expect \<Rightarrow> nat list \<Rightarrow> bool" where
  "state_ok e st \<longleftrightarrow> set st \<subseteq> {1, 2} \<and> (case e of
       ExpectValue \<Rightarrow> True | ArrayValueOrEnd \<Rightarrow> st \<noteq> [] \<and> hd st = 2
     | CommaOrEnd \<Rightarrow> st \<noteq> [] | Done \<Rightarrow> st = [] | _ \<Rightarrow> st \<noteq> [] \<and> hd st = 1)"

section \<open>Strings\<close>

lemma scan_hex_iff: "scan_hex n s = Rest r \<longleftrightarrow> (\<exists>h. length h = n \<and> list_all hex_digit h \<and> s = h @ r)"
proof (induction n s rule: scan_hex.induct)
  case (3 n c s)
  then show ?case by (auto simp: length_Suc_conv)
qed (auto simp: length_Suc_conv)

lemma scan_hex_append: "scan_hex n s = Rest r \<Longrightarrow> scan_hex n (s @ t) = Rest (r @ t)"
  by (induction n s rule: scan_hex.induct) (auto split: if_splits)

lemma scan_hex_stop: "scan_hex n s = Stop False \<Longrightarrow> scan_hex n (s @ t) = Stop False"
  by (induction n s rule: scan_hex.induct) (auto split: if_splits)

lemma scan_hex_more: "scan_hex n s = Stop True \<Longrightarrow> \<exists>x. scan_hex n (s @ x) = Rest []"
proof (induction n s rule: scan_hex.induct)
  case (2 n)
  have "hex_digit (CHR ''0'')" by code_simp
  then have "scan_hex (Suc n) (replicate (Suc n) (CHR ''0'')) = Rest []"
    unfolding scan_hex_iff by (intro exI [of _ "replicate (Suc n) (CHR ''0'')"]) (auto simp: list_all_iff)
  then show ?case by (intro exI [of _ "replicate (Suc n) (CHR ''0'')"]) simp
qed (auto split: if_splits)

text \<open>Case analysis on the first character behind a quote.\<close>

lemma scan_string_step:
  "c = CHR 0x22 \<Longrightarrow> scan_string (c # s) = Rest s"
  "c \<noteq> CHR 0x22 \<Longrightarrow> (of_char c :: nat) < 0x20 \<Longrightarrow> scan_string (c # s) = Stop False"
  "c \<noteq> CHR 0x22 \<Longrightarrow> c \<noteq> CHR 0x5C \<Longrightarrow> (0x20 :: nat) \<le> of_char c \<Longrightarrow> scan_string (c # s) = scan_string s"
  "scan_string [CHR 0x5C] = Stop True"
  "scan_string (CHR 0x5C # CHR ''u'' # s) = (case scan_hex 4 s of Stop b \<Rightarrow> Stop b | Rest r \<Rightarrow> scan_string r)"
  "e \<in> set [CHR 0x22, CHR 0x5C, CHR ''/'', CHR ''b'', CHR ''f'', CHR ''n'', CHR ''r'', CHR ''t''] \<Longrightarrow> scan_string (CHR 0x5C # e # s) = scan_string s"
  "e \<noteq> CHR ''u'' \<Longrightarrow> e \<notin> set [CHR 0x22, CHR 0x5C, CHR ''/'', CHR ''b'', CHR ''f'', CHR ''n'', CHR ''r'', CHR ''t'']
    \<Longrightarrow> scan_string (CHR 0x5C # e # s) = Stop False"
  by auto

lemma scan_string_exhaust [case_names nil quote control plain lone unicode escape bad]:
  obtains "s = []" | s' where "s = CHR 0x22 # s'"
  | c s' where "s = c # s'" "c \<noteq> CHR 0x22" "(of_char c :: nat) < 0x20"
  | c s' where "s = c # s'" "c \<noteq> CHR 0x22" "c \<noteq> CHR 0x5C" "(0x20 :: nat) \<le> of_char c"
  | "s = [CHR 0x5C]" | s' where "s = CHR 0x5C # CHR ''u'' # s'"
  | e s' where "s = CHR 0x5C # e # s'" "e \<in> set [CHR 0x22, CHR 0x5C, CHR ''/'', CHR ''b'', CHR ''f'', CHR ''n'', CHR ''r'', CHR ''t'']"
  | e s' where "s = CHR 0x5C # e # s'" "e \<noteq> CHR ''u''" "e \<notin> set [CHR 0x22, CHR 0x5C, CHR ''/'', CHR ''b'', CHR ''f'', CHR ''n'', CHR ''r'', CHR ''t'']"
proof (cases s)
  case (Cons c s')
  consider "c = CHR 0x22" | "c \<noteq> CHR 0x22" "(of_char c :: nat) < 0x20" | "c \<noteq> CHR 0x22" "c \<noteq> CHR 0x5C" "(0x20 :: nat) \<le> of_char c" | "c = CHR 0x5C"
    by linarith
  then show thesis
  proof cases
    case 4
    then show thesis using Cons that(5-8) by (cases s') metis+
  qed (use Cons that(1-4) in blast)+
qed (use that in blast)

lemma scan_string_iff: "scan_string s = Rest r \<longleftrightarrow> (\<exists>b. json_chars b \<and> s = b @ CHR 0x22 # r)"
proof
  show "scan_string s = Rest r \<Longrightarrow> \<exists>b. json_chars b \<and> s = b @ CHR 0x22 # r"
  proof (induction s rule: length_induct)
    case (1 s)
    then have IH: "scan_string x = Rest r \<Longrightarrow> length x < length s \<Longrightarrow> \<exists>b. json_chars b \<and> x = b @ CHR 0x22 # r" for x by blast
    show ?case
    proof (cases s rule: scan_string_exhaust)
      case (quote s')
      then show ?thesis using 1(2) by (intro exI [of _ "[]"]) (simp add: chars_nil)
    next
      case (plain c s')
      then obtain b where "json_chars b" "s' = b @ CHR 0x22 # r" using 1(2) IH [of s'] by (auto simp: scan_string_step(3))
      then show ?thesis using plain chars_plain by (intro exI [of _ "c # b"]) simp
    next
      case (unicode s')
      then obtain x where x: "scan_hex 4 s' = Rest x" "scan_string x = Rest r" using 1(2) by (auto simp: scan_string_step(5) split: scan.splits)
      then obtain h where h: "length h = 4" "list_all hex_digit h" "s' = h @ x" unfolding scan_hex_iff by blast
      then obtain b where "json_chars b" "x = b @ CHR 0x22 # r" using IH [OF x(2)] unicode by auto
      then show ?thesis using unicode h chars_unicode [OF h(1,2)] by (intro exI [of _ "CHR 0x5C # CHR ''u'' # h @ b"]) simp
    next
      case (escape e s')
      then obtain b where "json_chars b" "s' = b @ CHR 0x22 # r" using 1(2) IH [of s'] unfolding escape(1) scan_string_step(6) [OF escape(2)] by auto
      then show ?thesis using escape chars_escape by (intro exI [of _ "CHR 0x5C # e # b"]) simp
    qed (use 1(2) in \<open>auto simp: scan_string_step\<close>)
  qed
  have "json_chars b \<Longrightarrow> scan_string (b @ CHR 0x22 # r) = Rest r" for b
  proof (induction rule: json_chars.induct)
    case (chars_unicode h s)
    then have "scan_hex 4 (h @ s @ CHR 0x22 # r) = Rest (s @ CHR 0x22 # r)" unfolding scan_hex_iff by blast
    then show ?case using chars_unicode by (simp only: append_Cons append_assoc scan_string_step(5)) simp
  qed (auto simp: scan_string_step)
  then show "\<exists>b. json_chars b \<and> s = b @ CHR 0x22 # r \<Longrightarrow> scan_string s = Rest r" by blast
qed

lemma scan_string_append: "scan_string s = Rest r \<Longrightarrow> scan_string (s @ t) = Rest (r @ t)"
  unfolding scan_string_iff by auto

lemma scan_string_stop: "scan_string s = Stop False \<Longrightarrow> scan_string (s @ t) = Stop False"
proof (induction s rule: length_induct)
  case (1 s)
  then have IH: "scan_string x = Stop False \<Longrightarrow> length x < length s \<Longrightarrow> scan_string (x @ t) = Stop False" for x by blast
  show ?case
  proof (cases s rule: scan_string_exhaust)
    case (unicode s')
    show ?thesis
    proof (cases "scan_hex 4 s'")
      case (Stop b)
      then show ?thesis using 1(2) unicode scan_hex_stop [of 4 s' t] by (auto simp: scan_string_step(5))
    next
      case (Rest x)
      then show ?thesis using 1(2) unicode scan_hex_append [OF Rest, of t] scan_hex_rest [OF Rest] IH [of x] by (auto simp: scan_string_step(5))
    qed
  next
    case (escape e s')
    then show ?thesis using 1(2) IH [of s'] unfolding escape(1) append_Cons scan_string_step(6) [OF escape(2)] by simp
  next
    case (plain c s')
    then show ?thesis using 1(2) IH [of s'] by (simp add: scan_string_step(3))
  qed (use 1(2) in \<open>auto simp: scan_string_step\<close>)
qed

lemma scan_string_more: "scan_string s = Stop True \<Longrightarrow> \<exists>x. scan_string (s @ x) = Rest []"
proof (induction s rule: length_induct)
  case (1 s)
  then have IH: "scan_string y = Stop True \<Longrightarrow> length y < length s \<Longrightarrow> \<exists>x. scan_string (y @ x) = Rest []" for y by blast
  show ?case
  proof (cases s rule: scan_string_exhaust)
    case nil
    then show ?thesis by (intro exI [of _ "[CHR 0x22]"]) simp
  next
    case lone
    then show ?thesis by (intro exI [of _ "[CHR ''n'', CHR 0x22]"]) simp
  next
    case (unicode s')
    show ?thesis
    proof (cases "scan_hex 4 s'")
      case (Stop b)
      then obtain x where "scan_hex 4 (s' @ x) = Rest []" using 1(2) unicode scan_hex_more [of 4 s'] by (auto simp: scan_string_step(5))
      then have "scan_hex 4 (s' @ x @ [CHR 0x22]) = Rest [CHR 0x22]" using scan_hex_append [of 4 "s' @ x" "[]" "[CHR 0x22]"] by simp
      then show ?thesis using unicode by (intro exI [of _ "x @ [CHR 0x22]"]) (simp add: scan_string_step(5))
    next
      case (Rest y)
      then obtain x where "scan_string (y @ x) = Rest []" using 1(2) unicode IH [of y] scan_hex_rest [OF Rest] by (auto simp: scan_string_step(5))
      then show ?thesis using unicode scan_hex_append [OF Rest, of x] by (intro exI [of _ x]) (simp add: scan_string_step(5))
    qed
  next
    case (escape e s')
    then show ?thesis using 1(2) IH [of s'] unfolding escape(1) append_Cons scan_string_step(6) [OF escape(2)] by simp
  next
    case (plain c s')
    then show ?thesis using 1(2) IH [of s'] by (simp add: scan_string_step(3))
  qed (use 1(2) in \<open>auto simp: scan_string_step\<close>)
qed

section \<open>Literals and numbers\<close>

lemma scan_literal_iff: "scan_literal l s = Rest r \<longleftrightarrow> s = l @ r"
  by (induction l s rule: scan_literal.induct) auto

lemma scan_literal_stop: "scan_literal l s = Stop False \<Longrightarrow> scan_literal l (s @ t) = Stop False"
  by (induction l s rule: scan_literal.induct) (auto split: if_splits)

lemma scan_literal_more: "scan_literal l s = Stop True \<Longrightarrow> \<exists>x. scan_literal l (s @ x) = Rest []"
proof (induction l s rule: scan_literal.induct)
  case (2 x xs)
  then show ?case by (intro exI [of _ "x # xs"]) (simp add: scan_literal_iff)
qed (auto split: if_splits)

text \<open>Behind a number stands the end of the text or a character that no number has.\<close>

definition number_end :: "string \<Rightarrow> bool" where
  "number_end r \<longleftrightarrow> r = [] \<or> (\<not> is_digit (hd r) \<and> hd r \<notin> set ''.eE+-'')"

lemma starts_with_append [simp]: "s \<noteq> [] \<Longrightarrow> starts_with cs (s @ t) = starts_with cs s"
  by (simp add: starts_with_def)

lemma starts_with_Nil [simp]: "\<not> starts_with cs []"
  by (simp add: starts_with_def)

lemma starts_with_Cons [simp]: "starts_with cs (c # s) \<longleftrightarrow> c \<in> set cs"
  by (simp add: starts_with_def)

lemma takeWhile_digits: "list_all is_digit (takeWhile is_digit s)"
  by (induction s) auto

lemma digits_behind_sound: "digits_behind s = Rest r \<Longrightarrow> \<exists>d. digits d \<and> s = d @ r"
proof -
  assume a: "digits_behind s = Rest r"
  then have "s \<noteq> []" "is_digit (hd s)" "r = dropWhile is_digit s" by (auto simp: digits_behind_def split: if_splits)
  then have "s = takeWhile is_digit s @ r" "digits (takeWhile is_digit s)"
    using takeWhile_digits [of s] by (simp, cases s, auto simp: digits_def)
  then show ?thesis by blast
qed

lemma dropWhile_digits: "list_all is_digit d \<Longrightarrow> r = [] \<or> \<not> is_digit (hd r) \<Longrightarrow> dropWhile is_digit (d @ r) = r"
  by (induction d) (cases r; auto)+

lemma digits_behind_complete: "digits d \<Longrightarrow> r = [] \<or> \<not> is_digit (hd r) \<Longrightarrow> digits_behind (d @ r) = Rest r"
  using dropWhile_digits [of d r] by (cases d) (auto simp: digits_behind_def digits_def)

lemma digits_behind_append: "digits_behind s = Rest r \<Longrightarrow> r \<noteq> [] \<Longrightarrow> digits_behind (s @ t) = Rest (r @ t)"
proof -
  have "dropWhile is_digit s \<noteq> [] \<Longrightarrow> dropWhile is_digit (s @ t) = dropWhile is_digit s @ t" by (induction s) auto
  then show "digits_behind s = Rest r \<Longrightarrow> r \<noteq> [] \<Longrightarrow> digits_behind (s @ t) = Rest (r @ t)"
    by (auto simp: digits_behind_def split: if_splits)
qed

lemma digits_behind_stop: "digits_behind s = Stop False \<Longrightarrow> digits_behind (s @ t) = Stop False"
  by (auto simp: digits_behind_def split: if_splits)

lemma is_digit_0 [simp]: "is_digit (CHR ''0'')"
  by code_simp

lemma digits_behind_more: "digits_behind s = Stop True \<Longrightarrow> digits_behind (s @ ''0'') = Rest []"
  by (auto simp: digits_behind_def split: if_splits)

lemma sign_tail: "\<exists>x \<in> {[], ''+'', ''-''}. s = x @ after_sign s"
  by (cases s) (auto simp: after_sign_def)

lemma scan_exponent_sound:
  assumes "scan_exponent s = Rest r"
  shows "\<exists>x. json_exponent x \<and> s = x @ r"
proof (cases "starts_with [CHR ''e'', CHR ''E''] s")
  case True
  then obtain e s' where s: "s = e # s'" "e \<in> {CHR ''e'', CHR ''E''}" by (cases s) auto
  obtain x where x: "x \<in> {[], ''+'', ''-''}" "s' = x @ after_sign s'" using sign_tail by blast
  obtain d where "digits d" "after_sign s' = d @ r"
    using assms s digits_behind_sound by (auto simp: scan_exponent_def)
  then show ?thesis using s x by (intro exI [of _ "e # x @ d"]) (auto simp: json_exponent_def)
next
  case False
  then show ?thesis using assms by (intro exI [of _ "[]"]) (simp add: scan_exponent_def json_exponent_def)
qed

lemma digit_not_sign: "is_digit c \<Longrightarrow> c \<notin> set ''.eE+-''"
  by (auto simp: is_digit_def)

lemma scan_exponent_complete:
  assumes "json_exponent x" "number_end r"
  shows "scan_exponent (x @ r) = Rest r"
proof (cases "x = []")
  case True
  then show ?thesis using assms(2) by (cases r) (auto simp: scan_exponent_def number_end_def)
next
  case False
  then obtain e s d where x: "x = e # s @ d" "e \<in> {CHR ''e'', CHR ''E''}" "s \<in> {[], ''+'', ''-''}" "digits d"
    using assms(1) by (auto simp: json_exponent_def)
  have d: "digits_behind (d @ r) = Rest r" using digits_behind_complete [OF x(4)] assms(2) by (auto simp: number_end_def)
  obtain c d' where c: "d = c # d'" "is_digit c" using x(4) by (cases d) (auto simp: digits_def)
  then have "after_sign (s @ d @ r) = d @ r" using x(3) digit_not_sign [OF c(2)] by (auto simp: after_sign_def)
  then show ?thesis using x(1,2) d by (auto simp: scan_exponent_def)
qed

lemma scan_fraction_sound:
  assumes "scan_fraction s = Rest r"
  shows "\<exists>x. json_fraction x \<and> s = x @ r"
proof (cases "starts_with [CHR ''.''] s")
  case True
  then obtain s' where s: "s = CHR ''.'' # s'" by (cases s) auto
  obtain y where y: "digits_behind s' = Rest y" "scan_exponent y = Rest r" using assms s by (auto simp: scan_fraction_def split: scan.splits)
  obtain d x where "digits d" "s' = d @ y" "json_exponent x" "y = x @ r"
    using digits_behind_sound [OF y(1)] scan_exponent_sound [OF y(2)] by blast
  then show ?thesis using s by (intro exI [of _ "CHR ''.'' # d @ x"]) (auto simp: json_fraction_def)
next
  case False
  then obtain x where "json_exponent x" "s = x @ r" using assms scan_exponent_sound by (auto simp: scan_fraction_def)
  then show ?thesis by (intro exI [of _ x]) (auto simp: json_fraction_def)
qed

lemma exponent_not_digit: "json_exponent x \<Longrightarrow> number_end r \<Longrightarrow> x @ r = [] \<or> \<not> is_digit (hd (x @ r))"
  by (cases x) (auto simp: json_exponent_def number_end_def is_digit_def)

lemma exponent_no_dot: "json_exponent x \<Longrightarrow> number_end r \<Longrightarrow> \<not> starts_with [CHR ''.''] (x @ r)"
  by (cases x; cases r) (auto simp: json_exponent_def number_end_def)

lemma scan_fraction_complete:
  assumes "json_fraction x" "number_end r"
  shows "scan_fraction (x @ r) = Rest r"
proof -
  obtain e where e: "json_exponent e" "x = e \<or> (\<exists>d. digits d \<and> x = CHR ''.'' # d @ e)" using assms(1) by (auto simp: json_fraction_def)
  show ?thesis using e(2)
  proof (elim disjE exE conjE)
    fix d
    assume "digits d" "x = CHR ''.'' # d @ e"
    then show ?thesis using digits_behind_complete [of d "e @ r"] exponent_not_digit [OF e(1) assms(2)] scan_exponent_complete [OF e(1) assms(2)]
      by (simp add: scan_fraction_def)
  qed (use exponent_no_dot [OF e(1) assms(2)] scan_exponent_complete [OF e(1) assms(2)] in \<open>simp add: scan_fraction_def\<close>)
qed

lemma fraction_not_digit: "json_fraction x \<Longrightarrow> number_end r \<Longrightarrow> x @ r = [] \<or> \<not> is_digit (hd (x @ r))"
  using exponent_not_digit by (fastforce simp: json_fraction_def is_digit_def)

lemma scan_integer_sound:
  assumes "scan_integer s = Rest r"
  shows "\<exists>x. json_integer x \<and> s = x @ r"
proof (cases "starts_with [CHR ''0''] s")
  case True
  then obtain s' where s: "s = CHR ''0'' # s'" by (cases s) auto
  then obtain x where "json_fraction x" "s' = x @ r" using assms scan_fraction_sound by (auto simp: scan_integer_def)
  then show ?thesis using s by (intro exI [of _ "CHR ''0'' # x"]) (auto simp: json_integer_def)
next
  case False
  then have s: "s \<noteq> []" "is_digit (hd s)" "hd s \<noteq> CHR ''0''" and f: "scan_fraction (dropWhile is_digit s) = Rest r"
    using assms by (auto simp: scan_integer_def starts_with_def split: if_splits)
  obtain x where x: "json_fraction x" "dropWhile is_digit s = x @ r" using scan_fraction_sound [OF f] by blast
  have "digits (takeWhile is_digit s)" "hd (takeWhile is_digit s) \<noteq> CHR ''0''"
    using s takeWhile_digits [of s] by (cases s; simp add: digits_def)+
  moreover have "s = takeWhile is_digit s @ x @ r" using x(2) takeWhile_dropWhile_id [of is_digit s] by simp
  ultimately show ?thesis using x(1) by (intro exI [of _ "takeWhile is_digit s @ x"]) (auto simp: json_integer_def)
qed

lemma scan_integer_complete:
  assumes "json_integer x" "number_end r"
  shows "scan_integer (x @ r) = Rest r"
proof -
  obtain f where f: "json_fraction f" "x = CHR ''0'' # f \<or> (\<exists>d. digits d \<and> hd d \<noteq> CHR ''0'' \<and> x = d @ f)"
    using assms(1) by (auto simp: json_integer_def)
  show ?thesis using f(2)
  proof (elim disjE exE conjE)
    fix d
    assume d: "digits d" "hd d \<noteq> CHR ''0''" "x = d @ f"
    then have "dropWhile is_digit (x @ r) = f @ r" using dropWhile_digits [of d "f @ r"] fraction_not_digit [OF f(1) assms(2)] by (simp add: digits_def)
    then show ?thesis using d scan_fraction_complete [OF f(1) assms(2)] by (cases d) (auto simp: scan_integer_def digits_def)
  qed (use scan_fraction_complete [OF f(1) assms(2)] in \<open>simp add: scan_integer_def\<close>)
qed

lemma scan_number_sound:
  assumes "scan_number s = Rest r"
  shows "\<exists>x. json_number x \<and> s = x @ r"
proof (cases "starts_with [CHR ''-''] s")
  case True
  then obtain s' where s: "s = CHR ''-'' # s'" by (cases s) auto
  then obtain x where "json_integer x" "s' = x @ r" using assms scan_integer_sound by (auto simp: scan_number_def split: if_splits)
  then show ?thesis using s by (intro exI [of _ "CHR ''-'' # x"]) (auto simp: json_number_def)
next
  case False
  then obtain x where "json_integer x" "s = x @ r" using assms scan_integer_sound by (auto simp: scan_number_def)
  then show ?thesis by (intro exI [of _ x]) (simp add: json_number_def)
qed

lemma json_integer_hd: "json_integer x \<Longrightarrow> x \<noteq> [] \<and> is_digit (hd x)"
  by (auto simp: json_integer_def digits_def) (metis hd_append2 list.pred_inject(2) list.exhaust_sel)+

lemma scan_number_complete:
  assumes "json_number x" "number_end r"
  shows "scan_number (x @ r) = Rest r"
  using assms(1) unfolding json_number_def
proof (elim disjE exE conjE)
  assume i: "json_integer x"
  then have "\<not> starts_with [CHR ''-''] (x @ r)" using json_integer_hd [OF i] by (auto simp: starts_with_def is_digit_def)
  then show ?thesis using scan_integer_complete [OF i assms(2)] by (simp add: scan_number_def)
next
  fix i
  assume "json_integer i" "x = CHR ''-'' # i"
  then show ?thesis using scan_integer_complete [OF _ assms(2)] json_integer_hd [of i] by (simp add: scan_number_def)
qed

subsection \<open>A longer text\<close>

lemma after_sign_append: "s \<noteq> [] \<Longrightarrow> after_sign (s @ t) = after_sign s @ t"
  by (simp add: after_sign_def)

lemma scan_exponent_longer:
  "scan_exponent s = Rest r \<Longrightarrow> r \<noteq> [] \<Longrightarrow> scan_exponent (s @ t) = Rest (r @ t)"
  "scan_exponent s = Stop False \<Longrightarrow> scan_exponent (s @ t) = Stop False"
  "scan_exponent s = Stop True \<Longrightarrow> scan_exponent (s @ ''0'') = Rest []"
proof -
  have e: "scan_exponent (c # s') = digits_behind (after_sign s')" if "c \<in> {CHR ''e'', CHR ''E''}" for c s'
    using that by (auto simp: scan_exponent_def)
  have n: "scan_exponent (c # s') = Rest (c # s')" if "c \<notin> {CHR ''e'', CHR ''E''}" for c s' using that by (simp add: scan_exponent_def)
  have z: "scan_exponent [] = Rest []" by (simp add: scan_exponent_def)
  have d: "digits_behind (after_sign []) = Stop True" by (simp add: digits_behind_def after_sign_def)
  show "scan_exponent (s @ t) = Rest (r @ t)" if a: "scan_exponent s = Rest r" "r \<noteq> []"
  proof (cases s)
    case (Cons c s')
    show ?thesis
    proof (cases "c \<in> {CHR ''e'', CHR ''E''}")
      case True
      have "s' \<noteq> []" using a Cons e [OF True, of "[]"] d by auto
      then show ?thesis using a Cons e [OF True] by (simp add: after_sign_append digits_behind_append)
    next
      case False
      show ?thesis using a n [OF False, of s'] n [OF False, of "s' @ t"] unfolding Cons by auto
    qed
  qed (use a z in simp)
  show "scan_exponent (s @ t) = Stop False" if a: "scan_exponent s = Stop False"
  proof (cases s)
    case (Cons c s')
    show ?thesis
    proof (cases "c \<in> {CHR ''e'', CHR ''E''}")
      case True
      have "s' \<noteq> []" using a Cons e [OF True, of "[]"] d by auto
      then show ?thesis using a Cons e [OF True] by (simp add: after_sign_append digits_behind_stop)
    next
      case False
      show ?thesis using a n [OF False, of s'] n [OF False, of "s' @ t"] unfolding Cons by auto
    qed
  qed (use a z in simp)
  show "scan_exponent (s @ ''0'') = Rest []" if a: "scan_exponent s = Stop True"
  proof (cases s)
    case (Cons c s')
    show ?thesis
    proof (cases "c \<in> {CHR ''e'', CHR ''E''}")
      case True
      have "digits_behind (after_sign (s' @ ''0'')) = Rest []"
      proof (cases "s' = []")
        case False
        then show ?thesis using digits_behind_more a Cons e [OF True] by (simp add: after_sign_append)
      qed (simp add: digits_behind_def after_sign_def)
      then show ?thesis using Cons e [OF True] by simp
    next
      case False
      show ?thesis using a n [OF False, of s'] n [OF False, of "s' @ t"] unfolding Cons by auto
    qed
  qed (use a z in simp)
qed

lemma scan_fraction_longer:
  "scan_fraction s = Rest r \<Longrightarrow> r \<noteq> [] \<Longrightarrow> scan_fraction (s @ t) = Rest (r @ t)"
  "scan_fraction s = Stop False \<Longrightarrow> scan_fraction (s @ t) = Stop False"
  "scan_fraction s = Stop True \<Longrightarrow> scan_fraction (s @ ''0'') = Rest []"
proof -
  let ?k = "\<lambda>x. case x of Stop b \<Rightarrow> Stop b | Rest r \<Rightarrow> scan_exponent r"
  have d: "scan_fraction (CHR ''.'' # s') = ?k (digits_behind s')" for s' by (simp add: scan_fraction_def)
  have z: "scan_exponent [] = Rest []" by (simp add: scan_exponent_def)
  have n: "scan_fraction x = scan_exponent x" if "\<not> starts_with [CHR ''.''] x" for x using that by (simp add: scan_fraction_def)
  show "scan_fraction (s @ t) = Rest (r @ t)" if a: "scan_fraction s = Rest r" "r \<noteq> []"
  proof (cases "starts_with [CHR ''.''] s")
    case True
    then obtain s' where s: "s = CHR ''.'' # s'" by (cases s) auto
    obtain y where y: "digits_behind s' = Rest y" "scan_exponent y = Rest r" using a s d by (auto split: scan.splits)
    then have "y \<noteq> []" using a z by auto
    then show ?thesis using digits_behind_append [OF y(1)] scan_exponent_longer(1) [OF y(2) a(2)] d s by simp
  next
    case False
    then have "s \<noteq> []" using a z n by auto
    then show ?thesis using False a scan_exponent_longer(1) n by simp
  qed
  show "scan_fraction (s @ t) = Stop False" if a: "scan_fraction s = Stop False"
  proof (cases "starts_with [CHR ''.''] s")
    case True
    then obtain s' where s: "s = CHR ''.'' # s'" by (cases s) auto
    show ?thesis
    proof (cases "digits_behind s'")
      case (Rest y)
      then have y: "scan_exponent y = Stop False" using a s d by simp
      then have "y \<noteq> []" using z by auto
      then show ?thesis using digits_behind_append [OF Rest] scan_exponent_longer(2) [OF y] d s by simp
    next
      case (Stop b)
      then show ?thesis using a s d digits_behind_stop [of s' t] by simp
    qed
  next
    case False
    then have "s \<noteq> []" using a z n by auto
    then show ?thesis using False a scan_exponent_longer(2) n by simp
  qed
  show "scan_fraction (s @ ''0'') = Rest []" if a: "scan_fraction s = Stop True"
  proof (cases "starts_with [CHR ''.''] s")
    case True
    then obtain s' where s: "s = CHR ''.'' # s'" by (cases s) auto
    show ?thesis
    proof (cases "digits_behind s'")
      case (Rest y)
      then have y: "scan_exponent y = Stop True" using a s d by simp
      then have "y \<noteq> []" using z by auto
      then show ?thesis using digits_behind_append [OF Rest] scan_exponent_longer(3) [OF y] d s by simp
    next
      case (Stop b)
      then show ?thesis using a s d z digits_behind_more [of s'] by simp
    qed
  next
    case False
    then have "s \<noteq> []" using a z n by auto
    then show ?thesis using False a scan_exponent_longer(3) n by simp
  qed
qed

lemma dropWhile_longer: "dropWhile P s \<noteq> [] \<Longrightarrow> dropWhile P (s @ t) = dropWhile P s @ t"
  by (induction s) auto

lemma scan_integer_longer:
  "scan_integer s = Rest r \<Longrightarrow> r \<noteq> [] \<Longrightarrow> scan_integer (s @ t) = Rest (r @ t)"
  "s \<noteq> [] \<Longrightarrow> scan_integer s = Stop False \<Longrightarrow> scan_integer (s @ t) = Stop False"
  "scan_integer s = Stop True \<Longrightarrow> scan_integer (s @ ''0'') = Rest []"
proof -
  have z: "scan_fraction [] = Rest []" by (simp add: scan_fraction_def scan_exponent_def)
  have 0: "scan_integer (CHR ''0'' # s') = scan_fraction s'" for s' by (simp add: scan_integer_def)
  have d: "scan_integer (c # s') = scan_fraction (dropWhile is_digit (c # s'))" if "c \<noteq> CHR ''0''" "is_digit c" for c s'
    using that by (simp add: scan_integer_def)
  have b: "scan_integer (c # s') = Stop False" if "\<not> is_digit c" for c s'
    using that by (auto simp: scan_integer_def)
  have n: "scan_integer [] = Stop False" by (simp add: scan_integer_def)
  have split: "\<exists>c s'. s = c # s' \<and> (c = CHR ''0'' \<or> c \<noteq> CHR ''0'' \<and> is_digit c \<or> \<not> is_digit c)" if "s \<noteq> []" using that by (cases s) auto
  show "scan_integer (s @ t) = Rest (r @ t)" if a: "scan_integer s = Rest r" "r \<noteq> []"
  proof -
    have nonempty: "s \<noteq> []" using a n by auto
    obtain c s' where s: "s = c # s'" "c = CHR ''0'' \<or> c \<noteq> CHR ''0'' \<and> is_digit c \<or> \<not> is_digit c" using split [OF nonempty] by blast
    show ?thesis using s(2)
    proof (elim disjE conjE)
      assume c: "c \<noteq> CHR ''0''" "is_digit c"
      have f: "scan_fraction (dropWhile is_digit s) = Rest r" using a s(1) d [OF c] by simp
      then have "dropWhile is_digit s \<noteq> []" using z a by (auto simp del: dropWhile_eq_Nil_conv)
      then show ?thesis using scan_fraction_longer(1) [OF f a(2)] dropWhile_longer d [OF c] s(1) by (metis append_Cons)
    qed (use a s 0 b scan_fraction_longer(1) in auto)
  qed
  show "scan_integer (s @ t) = Stop False" if "s \<noteq> []" and a: "scan_integer s = Stop False"
  proof -
    obtain c s' where s: "s = c # s'" "c = CHR ''0'' \<or> c \<noteq> CHR ''0'' \<and> is_digit c \<or> \<not> is_digit c" using split [OF \<open>s \<noteq> []\<close>] by blast
    show ?thesis using s(2)
    proof (elim disjE conjE)
      assume c: "c \<noteq> CHR ''0''" "is_digit c"
      have f: "scan_fraction (dropWhile is_digit s) = Stop False" using a s(1) d [OF c] by simp
      then have "dropWhile is_digit s \<noteq> []" using z by (auto simp del: dropWhile_eq_Nil_conv)
      then show ?thesis using scan_fraction_longer(2) [OF f] dropWhile_longer d [OF c] s(1) by (metis append_Cons)
    qed (use a s 0 b scan_fraction_longer(2) in auto)
  qed
  show "scan_integer (s @ ''0'') = Rest []" if a: "scan_integer s = Stop True"
  proof -
    have nonempty: "s \<noteq> []" using a n by auto
    obtain c s' where s: "s = c # s'" "c = CHR ''0'' \<or> c \<noteq> CHR ''0'' \<and> is_digit c \<or> \<not> is_digit c" using split [OF nonempty] by blast
    show ?thesis using s(2)
    proof (elim disjE conjE)
      assume c: "c \<noteq> CHR ''0''" "is_digit c"
      have f: "scan_fraction (dropWhile is_digit s) = Stop True" using a s(1) d [OF c] by simp
      then have "dropWhile is_digit s \<noteq> []" using z by (auto simp del: dropWhile_eq_Nil_conv)
      then show ?thesis using scan_fraction_longer(3) [OF f] dropWhile_longer d [OF c] s(1) by (metis append_Cons)
    qed (use a s 0 b scan_fraction_longer(3) in auto)
  qed
qed

lemma scan_number_longer:
  "scan_number s = Rest r \<Longrightarrow> r \<noteq> [] \<Longrightarrow> scan_number (s @ t) = Rest (r @ t)"
  "s \<noteq> [] \<Longrightarrow> scan_number s = Stop False \<Longrightarrow> scan_number (s @ t) = Stop False"
  "scan_number s = Stop True \<Longrightarrow> scan_number (s @ ''0'') = Rest []"
proof -
  have m: "scan_number (CHR ''-'' # s') = (if s' = [] then Stop True else scan_integer s')" for s' by (simp add: scan_number_def)
  have i: "scan_number x = scan_integer x" if "\<not> starts_with [CHR ''-''] x" for x using that by (simp add: scan_number_def)
  have n: "scan_integer [] = Stop False" by (simp add: scan_integer_def)
  have split: "s = [] \<or> (\<exists>s'. s = CHR ''-'' # s') \<or> s \<noteq> [] \<and> \<not> starts_with [CHR ''-''] s" by (cases s) auto
  have one: "scan_integer ''0'' = Rest []" by (simp add: scan_integer_def scan_fraction_def scan_exponent_def)
  show "scan_number (s @ t) = Rest (r @ t)" if a: "scan_number s = Rest r" "r \<noteq> []"
    using split a i n m scan_integer_longer(1) by (auto split: if_splits)
  show "scan_number (s @ t) = Stop False" if "s \<noteq> []" "scan_number s = Stop False"
    using split that i m scan_integer_longer(2) by (auto split: if_splits)
  show "scan_number (s @ ''0'') = Rest []" if a: "scan_number s = Stop True"
    using split a i n m one scan_integer_longer(3) by (auto split: if_splits)
qed

section \<open>The first character of a value\<close>

lemma blank_simps [simp]: "blank []" "blank (c # w) \<longleftrightarrow> json_ws c \<and> blank w" "blank (v @ w) \<longleftrightarrow> blank v \<and> blank w"
  by (auto simp: blank_def)

lemma not_ws [simp]:
  "\<not> json_ws (CHR 0x22)" "\<not> json_ws (CHR ''['')" "\<not> json_ws (CHR ''{'')" "\<not> json_ws (CHR '']'')" "\<not> json_ws (CHR ''}'')"
  "\<not> json_ws (CHR '','')" "\<not> json_ws (CHR '':'')"
  by code_simp+

text \<open>White space in front of a text whose first character is none.\<close>

lemma blank_head: "blank w \<Longrightarrow> \<not> json_ws c \<Longrightarrow> c # s = w @ x \<Longrightarrow> w = [] \<and> x = c # s"
  by (cases w) auto

lemma blank_mark: "blank w \<Longrightarrow> \<not> json_ws c \<Longrightarrow> c # s = w @ d # x \<longleftrightarrow> w = [] \<and> d = c \<and> x = s"
  by (cases w) auto

lemma number_head: "json_number v \<Longrightarrow> v \<noteq> [] \<and> (hd v = CHR ''-'' \<or> is_digit (hd v))"
  using json_integer_hd by (auto simp: json_number_def)

lemma digit_heads: "is_digit c \<or> c = CHR ''-'' \<Longrightarrow> c \<noteq> CHR 0x22 \<and> c \<notin> set ''tfn'' \<and> c \<noteq> CHR ''['' \<and> c \<noteq> CHR ''{'' \<and> \<not> json_ws c"
  by (auto simp: is_digit_def json_ws_def)

lemma literal_of_simps [simp]:
  "literal_of (CHR ''t'') = ''true''" "literal_of (CHR ''f'') = ''false''" "literal_of (CHR ''n'') = ''null''"
  by (simp_all add: literal_of_def)

lemma value_kinds:
  assumes "json_value (c # v)"
  shows "c = CHR 0x22 \<and> json_string (c # v) \<or> c \<in> set ''tfn'' \<and> c # v = literal_of c \<or> (c = CHR ''-'' \<or> is_digit c) \<and> json_number (c # v)
    \<or> c = CHR ''['' \<and> (\<exists>x. v = x @ [CHR '']''] \<and> (blank x \<or> json_elements x))
    \<or> c = CHR ''{'' \<and> (\<exists>x. v = x @ [CHR ''}''] \<and> (blank x \<or> json_members x))"
  using assms
proof (cases rule: json_value.cases)
  case value_string
  then show ?thesis by (auto simp: json_string_def)
next
  case value_number
  then show ?thesis using number_head [of "c # v"] by simp
next
  case value_literal
  then show ?thesis by (elim insertE) simp_all
next
  case (value_empty_array w)
  then have "c = CHR ''['' \<and> v = w @ [CHR '']''] \<and> blank w" by simp
  then show ?thesis by blast
next
  case (value_array es)
  then have "c = CHR ''['' \<and> v = es @ [CHR '']''] \<and> json_elements es" by simp
  then show ?thesis by blast
next
  case (value_empty_object w)
  then have "c = CHR ''{'' \<and> v = w @ [CHR ''}''] \<and> blank w" by simp
  then show ?thesis by blast
next
  case (value_object ms)
  then have "c = CHR ''{'' \<and> v = ms @ [CHR ''}''] \<and> json_members ms" by simp
  then show ?thesis by blast
qed

lemma literal_hd: "c \<in> set ''tfn'' \<Longrightarrow> \<exists>x. literal_of c = c # x \<and> json_value (literal_of c)"
  by (auto intro: value_literal)

lemma special_chars [simp]:
  "\<not> is_digit (CHR 0x22)" "\<not> is_digit (CHR ''['')" "\<not> is_digit (CHR ''{'')" "\<not> is_digit (CHR ''t'')" "\<not> is_digit (CHR ''f'')" "\<not> is_digit (CHR ''n'')"
  "\<not> json_ws (CHR ''t'')" "\<not> json_ws (CHR ''f'')" "\<not> json_ws (CHR ''n'')" "\<not> json_ws (CHR ''-'')"
  by code_simp+

lemma value_starting:
  assumes "json_value (c # v)"
  shows "\<not> json_ws c"
    "c = CHR 0x22 \<Longrightarrow> json_string (c # v)" "c \<in> set ''tfn'' \<Longrightarrow> c # v = literal_of c" "c = CHR ''-'' \<or> is_digit c \<Longrightarrow> json_number (c # v)"
    "c = CHR ''['' \<Longrightarrow> \<exists>x. v = x @ [CHR '']''] \<and> (blank x \<or> json_elements x)"
    "c = CHR ''{'' \<Longrightarrow> \<exists>x. v = x @ [CHR ''}''] \<and> (blank x \<or> json_members x)"
    "c \<in> {CHR 0x22, CHR ''['', CHR ''{''} \<or> c \<in> set ''tfn'' \<or> c = CHR ''-'' \<or> is_digit c"
  using value_kinds [OF assms] by (elim disjE conjE; use digit_heads [of c] in simp; auto)+

section \<open>Brackets\<close>

lemma value_nonempty: "json_value v \<Longrightarrow> v \<noteq> []"
  and elements_close: "json_elements es \<Longrightarrow> after st u \<Longrightarrow> at_value (2 # st) (es @ CHR '']'' # u)"
  and members_close: "json_members ms \<Longrightarrow> after st u \<Longrightarrow> at_key (1 # st) (ms @ CHR ''}'' # u)"
proof (induction rule: json_value_json_elements_json_members.inducts)
  case (elements_one w v w')
  then have "after (2 # st) (w' @ CHR '']'' # u)" using after_close [of w' st u 2] by simp
  then show ?case using at_valueI [OF elements_one(1,2)] by simp
next
  case (elements_more w v w' es)
  then have "after (2 # st) (w' @ CHR '','' # es @ CHR '']'' # u)" using after_element by blast
  then show ?case using at_valueI [OF elements_more(1,2)] by simp
next
  case (members_one w k w1 w2 v w')
  then have "after (1 # st) (w' @ CHR ''}'' # u)" using after_close [of w' st u 1] by simp
  then have "at_value (1 # st) (w2 @ v @ w' @ CHR ''}'' # u)" using at_valueI members_one by blast
  then show ?case using at_keyI [OF members_one(1-3)] by simp
next
  case (members_more w k w1 w2 v w' ms)
  then have "after (1 # st) (w' @ CHR '','' # ms @ CHR ''}'' # u)" using after_member by blast
  then have "at_value (1 # st) (w2 @ v @ w' @ CHR '','' # ms @ CHR ''}'' # u)" using at_valueI members_more by blast
  then show ?case using at_keyI [OF members_more(1-3)] by simp
qed (auto simp: json_string_def dest: number_head)

text \<open>Inside an array or an object, what follows contains its closing bracket.\<close>

definition array_rest :: "nat list \<Rightarrow> string \<Rightarrow> bool" where
  "array_rest st u \<longleftrightarrow> (\<exists>w x u'. blank w \<and> u = w @ x @ CHR '']'' # u' \<and> after st u' \<and> (x = [] \<or> (\<exists>es. json_elements es \<and> x = CHR '','' # es)))"

definition object_rest :: "nat list \<Rightarrow> string \<Rightarrow> bool" where
  "object_rest st u \<longleftrightarrow> (\<exists>w x u'. blank w \<and> u = w @ x @ CHR ''}'' # u' \<and> after st u' \<and> (x = [] \<or> (\<exists>ms. json_members ms \<and> x = CHR '','' # ms)))"

definition elements_then :: "nat list \<Rightarrow> string \<Rightarrow> bool" where
  "elements_then st u \<longleftrightarrow> (\<exists>es u'. json_elements es \<and> u = es @ CHR '']'' # u' \<and> after st u')"

definition members_then :: "nat list \<Rightarrow> string \<Rightarrow> bool" where
  "members_then st u \<longleftrightarrow> (\<exists>ms u'. json_members ms \<and> u = ms @ CHR ''}'' # u' \<and> after st u')"

lemma array_rest_intros:
  "blank w \<Longrightarrow> after st u \<Longrightarrow> array_rest st (w @ CHR '']'' # u)"
  "blank w \<Longrightarrow> elements_then st u \<Longrightarrow> array_rest st (w @ CHR '','' # u)"
proof -
  show "blank w \<Longrightarrow> after st u \<Longrightarrow> array_rest st (w @ CHR '']'' # u)"
    unfolding array_rest_def by (intro exI [of _ w] exI [of _ "[]"] exI [of _ u]) simp
  assume w: "blank w" and "elements_then st u"
  then obtain es u' where "json_elements es" "u = es @ CHR '']'' # u'" "after st u'" by (auto simp: elements_then_def)
  then show "array_rest st (w @ CHR '','' # u)"
    unfolding array_rest_def using w by (intro exI [of _ w] exI [of _ "CHR '','' # es"] exI [of _ u']) simp
qed

lemma object_rest_intros:
  "blank w \<Longrightarrow> after st u \<Longrightarrow> object_rest st (w @ CHR ''}'' # u)"
  "blank w \<Longrightarrow> members_then st u \<Longrightarrow> object_rest st (w @ CHR '','' # u)"
proof -
  show "blank w \<Longrightarrow> after st u \<Longrightarrow> object_rest st (w @ CHR ''}'' # u)"
    unfolding object_rest_def by (intro exI [of _ w] exI [of _ "[]"] exI [of _ u]) simp
  assume w: "blank w" and "members_then st u"
  then obtain ms u' where "json_members ms" "u = ms @ CHR ''}'' # u'" "after st u'" by (auto simp: members_then_def)
  then show "object_rest st (w @ CHR '','' # u)"
    unfolding object_rest_def using w by (intro exI [of _ w] exI [of _ "CHR '','' # ms"] exI [of _ u']) simp
qed

lemma array_rest_value: "blank w \<Longrightarrow> json_value v \<Longrightarrow> array_rest st u \<Longrightarrow> elements_then st (w @ v @ u)"
  unfolding array_rest_def elements_then_def
proof (elim exE conjE disjE)
  fix w' x u'
  assume a: "blank w" "json_value v" "blank w'" "u = w' @ x @ CHR '']'' # u'" "after st u'"
  show "\<exists>es u'. json_elements es \<and> w @ v @ u = es @ CHR '']'' # u' \<and> after st u'" if "x = []"
    using a that elements_one [OF a(1,2,3)] by (intro exI [of _ "w @ v @ w'"] exI [of _ u']) simp
  show "\<exists>es u'. json_elements es \<and> w @ v @ u = es @ CHR '']'' # u' \<and> after st u'" if "json_elements es" "x = CHR '','' # es" for es
    using a that elements_more [OF a(1,2,3) that(1)] by (intro exI [of _ "w @ v @ w' @ CHR '','' # es"] exI [of _ u']) simp
qed

lemma object_rest_member:
  "blank w \<Longrightarrow> json_string k \<Longrightarrow> blank w1 \<Longrightarrow> blank w2 \<Longrightarrow> json_value v \<Longrightarrow> object_rest st u
    \<Longrightarrow> members_then st (w @ k @ w1 @ CHR '':'' # w2 @ v @ u)"
  unfolding object_rest_def members_then_def
proof (elim exE conjE disjE)
  fix w' x u'
  assume a: "blank w" "json_string k" "blank w1" "blank w2" "json_value v" "blank w'" "u = w' @ x @ CHR ''}'' # u'" "after st u'"
  show "\<exists>ms u'. json_members ms \<and> w @ k @ w1 @ CHR '':'' # w2 @ v @ u = ms @ CHR ''}'' # u' \<and> after st u'" if "x = []"
    using a that members_one [OF a(1-6)] by (intro exI [of _ "w @ k @ w1 @ CHR '':'' # w2 @ v @ w'"] exI [of _ u']) simp
  show "\<exists>ms u'. json_members ms \<and> w @ k @ w1 @ CHR '':'' # w2 @ v @ u = ms @ CHR ''}'' # u' \<and> after st u'" if "json_members ms" "x = CHR '','' # ms" for ms
    using a that members_more [OF a(1-6) that(1)] by (intro exI [of _ "w @ k @ w1 @ CHR '':'' # w2 @ v @ w' @ CHR '','' # ms"] exI [of _ u']) simp
qed

lemma after_inside: "after st0 u \<Longrightarrow> (st0 = 2 # st \<longrightarrow> array_rest st u) \<and> (st0 = 1 # st \<longrightarrow> object_rest st u)"
  and at_value_inside: "at_value st0 u \<Longrightarrow> (st0 = 2 # st \<longrightarrow> elements_then st u)
    \<and> (st0 = 1 # st \<longrightarrow> (\<forall>w k w1. blank w \<and> json_string k \<and> blank w1 \<longrightarrow> members_then st (w @ k @ w1 @ CHR '':'' # u)))"
  and at_key_inside: "at_key st0 u \<Longrightarrow> st0 = 1 # st \<longrightarrow> members_then st u"
proof (induction rule: after_at_value_at_key.inducts)
  case (after_close w st' u k)
  then show ?case using array_rest_intros(1) [of w st u] object_rest_intros(1) [of w st u] by auto
next
  case (after_element w st' u)
  then show ?case using array_rest_intros(2) by simp
next
  case (after_member w st' u)
  then show ?case using object_rest_intros(2) by simp
next
  case (at_valueI w v st' u)
  then show ?case using array_rest_value [OF at_valueI(1,2)] object_rest_member [OF _ _ _ at_valueI(1,2)] by blast
next
  case (at_keyI w k w1 st' u)
  then show ?case by blast
qed simp

section \<open>One step\<close>

inductive_simps at_value_iff: "at_value st x"
inductive_simps at_key_iff: "at_key st x"
inductive_simps after_Nil_iff: "after [] x"
inductive_simps after_Cons_iff: "after (k # st) x"

lemma mark_ws: "json_ws c \<Longrightarrow> \<not> json_ws d \<Longrightarrow> (\<exists>w u. c # s = w @ d # u \<and> blank w \<and> P u) \<longleftrightarrow> (\<exists>w u. s = w @ d # u \<and> blank w \<and> P u)"
proof
  assume a: "json_ws c" "\<not> json_ws d" "\<exists>w u. c # s = w @ d # u \<and> blank w \<and> P u"
  then obtain w u where "c # s = w @ d # u" "blank w" "P u" by blast
  then show "\<exists>w u. s = w @ d # u \<and> blank w \<and> P u" using a by (cases w) auto
next
  assume "json_ws c" "\<exists>w u. s = w @ d # u \<and> blank w \<and> P u"
  then obtain w u where "s = w @ d # u" "blank w" "P u" by blast
  then show "\<exists>w u. c # s = w @ d # u \<and> blank w \<and> P u" using \<open>json_ws c\<close> by (intro exI [of _ "c # w"] exI [of _ u]) auto
qed

lemma mark_head: "\<not> json_ws c \<Longrightarrow> (\<exists>w u. c # s = w @ d # u \<and> blank w \<and> P u) \<longleftrightarrow> c = d \<and> P s"
  by (intro iffI; elim exE conjE) (simp_all add: blank_mark, auto intro: exI [of _ "[]"])

text \<open>A token behind white space.\<close>

lemma token_ws:
  assumes "json_ws c" "\<And>x. Q x \<Longrightarrow> x \<noteq> [] \<and> \<not> json_ws (hd x)"
  shows "(\<exists>w x. c # s = w @ x \<and> blank w \<and> Q x) \<longleftrightarrow> (\<exists>w x. s = w @ x \<and> blank w \<and> Q x)"
proof
  assume "\<exists>w x. c # s = w @ x \<and> blank w \<and> Q x"
  then obtain w x where a: "c # s = w @ x" "blank w" "Q x" by blast
  have "w \<noteq> []" using a assms(2) [OF a(3)] assms(1) by (cases x) auto
  then obtain w' where "w = c # w'" "s = w' @ x" using a(1) by (cases w) auto
  then show "\<exists>w x. s = w @ x \<and> blank w \<and> Q x" using a by auto
next
  assume "\<exists>w x. s = w @ x \<and> blank w \<and> Q x"
  then obtain w x where "s = w @ x" "blank w" "Q x" by blast
  then show "\<exists>w x. c # s = w @ x \<and> blank w \<and> Q x" using assms(1) by (intro exI [of _ "c # w"] exI [of _ x]) auto
qed

lemma token_head:
  assumes "\<not> json_ws c"
  shows "(\<exists>w x. c # s = w @ x \<and> blank w \<and> Q x) \<longleftrightarrow> Q (c # s)"
proof
  assume "\<exists>w x. c # s = w @ x \<and> blank w \<and> Q x"
  then obtain w x where a: "c # s = w @ x" "blank w" "Q x" by blast
  then show "Q (c # s)" using blank_head [OF a(2) assms a(1)] by simp
qed (intro exI [of _ "[]"] exI [of _ "c # s"], simp)

definition value_then :: "nat list \<Rightarrow> string \<Rightarrow> bool" where
  "value_then st x \<longleftrightarrow> (\<exists>v u. json_value v \<and> after st u \<and> x = v @ u)"

definition key_then :: "nat list \<Rightarrow> string \<Rightarrow> bool" where
  "key_then st x \<longleftrightarrow> (\<exists>b u. json_chars b \<and> x = CHR 0x22 # b @ CHR 0x22 # u \<and> follows Colon st u)"

lemma at_value_then: "at_value st y \<longleftrightarrow> (\<exists>w x. y = w @ x \<and> blank w \<and> value_then st x)"
  unfolding at_value_iff value_then_def by blast

lemma at_key_then: "at_key st y \<longleftrightarrow> (\<exists>w x. y = w @ x \<and> blank w \<and> key_then st x)"
proof
  assume "at_key st y"
  then obtain w b w1 u where "y = w @ (CHR 0x22 # b @ [CHR 0x22]) @ w1 @ CHR '':'' # u" "blank w" "json_chars b" "blank w1" "at_value st u"
    unfolding at_key_iff json_string_def by blast
  then show "\<exists>w x. y = w @ x \<and> blank w \<and> key_then st x" unfolding key_then_def
    by (intro exI [of _ w] exI [of _ "CHR 0x22 # b @ CHR 0x22 # w1 @ CHR '':'' # u"]) auto
next
  assume "\<exists>w x. y = w @ x \<and> blank w \<and> key_then st x"
  then obtain w b w1 u where "y = w @ CHR 0x22 # b @ CHR 0x22 # w1 @ CHR '':'' # u" "blank w" "json_chars b" "blank w1" "at_value st u"
    unfolding key_then_def by auto
  then show "at_key st y" using at_keyI [of w "CHR 0x22 # b @ [CHR 0x22]" w1 st u] by (auto simp: json_string_def)
qed

lemma value_then_hd: "value_then st x \<Longrightarrow> x \<noteq> [] \<and> \<not> json_ws (hd x)"
proof -
  assume "value_then st x"
  then obtain v u where v: "json_value v" "x = v @ u" unfolding value_then_def by blast
  then obtain c v' where "v = c # v'" using value_nonempty [OF v(1)] by (auto simp: neq_Nil_conv)
  then show ?thesis using v value_starting(1) by simp
qed

lemma key_then_hd: "key_then st x \<Longrightarrow> x \<noteq> [] \<and> \<not> json_ws (hd x)"
  by (auto simp: key_then_def)

lemma after_Cons_split:
  "after (k # st) x \<longleftrightarrow> (\<exists>w u. x = w @ closer k # u \<and> blank w \<and> after st u)
     \<or> (\<exists>w u. x = w @ CHR '','' # u \<and> blank w \<and> (k = 2 \<and> at_value (k # st) u \<or> k = 1 \<and> at_key (k # st) u))"
  unfolding after_Cons_iff closer.simps One_nat_def by blast

lemma after_ws: "json_ws c \<Longrightarrow> after st (c # s) \<longleftrightarrow> after st s"
proof (cases st)
  case Nil
  then show "json_ws c \<Longrightarrow> after st (c # s) \<longleftrightarrow> after st s" by (simp add: after_Nil_iff)
next
  case (Cons k st')
  assume c: "json_ws c"
  have cl: "\<not> json_ws (closer k)" by simp
  show ?thesis unfolding Cons after_Cons_split mark_ws [OF c cl] mark_ws [OF c not_ws(6)] ..
qed

lemma follows_ws: "json_ws c \<Longrightarrow> follows e st (c # s) \<longleftrightarrow> follows e st s"
  by (cases e) (simp_all add: at_value_then at_key_then after_ws mark_ws token_ws [OF _ value_then_hd] token_ws [OF _ key_then_hd])

lemma after_head:
  "\<not> json_ws c \<Longrightarrow> after (k # st) (c # s) \<longleftrightarrow> c = closer k \<and> after st s \<or> c = CHR '','' \<and> (k = 2 \<and> at_value (k # st) s \<or> k = 1 \<and> at_key (k # st) s)"
  unfolding after_Cons_split by (subst mark_head, assumption)+ (rule refl)

lemma at_value_head: "\<not> json_ws c \<Longrightarrow> at_value st (c # s) \<longleftrightarrow> (\<exists>v u. json_value (c # v) \<and> after st u \<and> s = v @ u)"
proof -
  assume c: "\<not> json_ws c"
  have "value_then st (c # s) \<longleftrightarrow> (\<exists>v u. json_value (c # v) \<and> after st u \<and> s = v @ u)"
  proof
    assume "value_then st (c # s)"
    then obtain v u where v: "json_value v" "after st u" "c # s = v @ u" unfolding value_then_def by blast
    obtain d v' where "v = d # v'" using value_nonempty [OF v(1)] by (auto simp: neq_Nil_conv)
    then show "\<exists>v u. json_value (c # v) \<and> after st u \<and> s = v @ u" using v by auto
  next
    assume "\<exists>v u. json_value (c # v) \<and> after st u \<and> s = v @ u"
    then obtain v u where "json_value (c # v)" "after st u" "s = v @ u" by blast
    then show "value_then st (c # s)" unfolding value_then_def by (intro exI [of _ "c # v"] exI [of _ u]) simp
  qed
  then show ?thesis using token_head [OF c, of s "value_then st"] by (simp add: at_value_then)
qed

lemma at_key_head: "\<not> json_ws c \<Longrightarrow> at_key st (c # s) \<longleftrightarrow> c = CHR 0x22 \<and> (case scan_string s of Rest r \<Rightarrow> follows Colon st r | Stop b \<Rightarrow> False)"
proof -
  assume c: "\<not> json_ws c"
  have "key_then st (c # s) \<longleftrightarrow> c = CHR 0x22 \<and> (\<exists>r. scan_string s = Rest r \<and> follows Colon st r)"
    unfolding key_then_def scan_string_iff by blast
  then show ?thesis using token_head [OF c, of s "key_then st"] by (auto simp: at_key_then split: scan.splits)
qed

lemma at_value_array: "at_value st (CHR ''['' # s) \<longleftrightarrow> follows ArrayValueOrEnd (2 # st) s"
proof
  assume "at_value st (CHR ''['' # s)"
  then obtain v u where v: "json_value (CHR ''['' # v)" "after st u" "s = v @ u" using at_value_head [OF not_ws(2)] by blast
  obtain x where x: "v = x @ [CHR '']'']" "blank x \<or> json_elements x" using value_starting(5) [OF v(1)] by blast
  from x(2) show "follows ArrayValueOrEnd (2 # st) s"
  proof
    assume "json_elements x"
    then show ?thesis using elements_close v x by simp
  qed (use v x in auto)
next
  assume "follows ArrayValueOrEnd (2 # st) s"
  then have "\<exists>x u. s = x @ CHR '']'' # u \<and> after st u \<and> json_value (CHR ''['' # x @ [CHR '']''])"
    using at_value_inside [of "2 # st" s st] value_array value_empty_array by (auto simp: elements_then_def)
  then obtain x u where "s = x @ CHR '']'' # u" "after st u" "json_value (CHR ''['' # x @ [CHR '']''])" by blast
  then show "at_value st (CHR ''['' # s)" unfolding at_value_head [OF not_ws(2)] by (intro exI [of _ "x @ [CHR '']'']"] exI [of _ u]) simp
qed

lemma at_value_object: "at_value st (CHR ''{'' # s) \<longleftrightarrow> follows ObjectKeyOrEnd (1 # st) s"
proof
  assume "at_value st (CHR ''{'' # s)"
  then obtain v u where v: "json_value (CHR ''{'' # v)" "after st u" "s = v @ u" using at_value_head [OF not_ws(3)] by blast
  obtain x where x: "v = x @ [CHR ''}'']" "blank x \<or> json_members x" using value_starting(6) [OF v(1)] by blast
  from x(2) show "follows ObjectKeyOrEnd (1 # st) s"
  proof
    assume "json_members x"
    then show ?thesis using members_close v x by simp
  qed (use v x in auto)
next
  assume "follows ObjectKeyOrEnd (1 # st) s"
  then have "\<exists>x u. s = x @ CHR ''}'' # u \<and> after st u \<and> json_value (CHR ''{'' # x @ [CHR ''}''])"
    using at_key_inside [of "1 # st" s st] value_object value_empty_object by (auto simp: members_then_def)
  then obtain x u where "s = x @ CHR ''}'' # u" "after st u" "json_value (CHR ''{'' # x @ [CHR ''}''])" by blast
  then show "at_value st (CHR ''{'' # s)" unfolding at_value_head [OF not_ws(3)] by (intro exI [of _ "x @ [CHR ''}'']"] exI [of _ u]) simp
qed

section \<open>Tokens\<close>

lemma after_number_end:
  assumes "after st u"
  shows "number_end u"
proof -
  have w: "number_end (c # s)" if "json_ws c \<or> c \<in> set '',]}''" for c s using that by (auto simp: number_end_def json_ws_def is_digit_def)
  have m: "number_end (w @ d # x)" if "blank w" "d \<in> set '',]}''" for w d x using that w by (cases w) auto
  show ?thesis
  proof (cases st)
    case Nil
    then show ?thesis using assms w by (cases u) (auto simp: after_Nil_iff number_end_def)
  next
    case (Cons k st')
    then show ?thesis using assms m unfolding after_Cons_split Cons by auto
  qed
qed

text \<open>A token that was read is a value, and every value that is not an array or an object is read as a token.\<close>

lemma scan_token_value: "scan_token c s = Rest r \<Longrightarrow> \<exists>v. json_value (c # v) \<and> s = v @ r"
proof -
  assume a: "scan_token c s = Rest r"
  consider "c = CHR 0x22" | "c \<in> set ''tfn''" | "c = CHR ''-'' \<or> is_digit c" "c \<noteq> CHR 0x22" "c \<notin> set ''tfn''"
    using a by (auto simp: scan_token_def split: if_splits)
  then show ?thesis
  proof cases
    case 1
    then obtain b where "json_chars b" "s = b @ CHR 0x22 # r" using a by (auto simp: scan_token_def scan_string_iff)
    then show ?thesis using 1 value_string [of "CHR 0x22 # b @ [CHR 0x22]"] by (intro exI [of _ "b @ [CHR 0x22]"]) (simp add: json_string_def)
  next
    case 2
    then have "c \<noteq> CHR 0x22" by auto
    then have "c # s = literal_of c @ r" using a 2 by (simp add: scan_token_def scan_literal_iff split: if_splits)
    then show ?thesis using 2 literal_hd [of c] by (cases "literal_of c") auto
  next
    case 3
    then have "scan_number (c # s) = Rest r" using a by (auto simp: scan_token_def split: if_splits)
    then obtain x where x: "json_number x" "c # s = x @ r" using scan_number_sound by blast
    obtain d x' where "x = d # x'" using number_head [OF x(1)] by (auto simp: neq_Nil_conv)
    then show ?thesis using x value_number by (intro exI [of _ x']) auto
  qed
qed

lemma value_token:
  assumes "json_value (c # v)" "c \<noteq> CHR ''[''" "c \<noteq> CHR ''{''" "after st u"
  shows "scan_token c (v @ u) = Rest u"
proof -
  consider "c = CHR 0x22" | "c \<in> set ''tfn''" "c \<noteq> CHR 0x22" | "c = CHR ''-'' \<or> is_digit c" "c \<noteq> CHR 0x22" "c \<notin> set ''tfn''"
    using value_starting(7) [OF assms(1)] assms(2,3) digit_heads [of c] by auto
  then show ?thesis
  proof cases
    case 1
    then obtain b where "json_chars b" "v = b @ [CHR 0x22]" using value_starting(2) [OF assms(1)] by (auto simp: json_string_def)
    then show ?thesis using 1 by (auto simp: scan_token_def scan_string_iff)
  next
    case 2
    then show ?thesis using value_starting(3) [OF assms(1) 2(1)] by (simp add: scan_token_def scan_literal_iff flip: append_Cons)
  next
    case 3
    then show ?thesis using scan_number_complete [OF value_starting(4) [OF assms(1) 3(1)] after_number_end [OF assms(4)]]
      by (simp add: scan_token_def)
  qed
qed

lemma at_value_token:
  assumes "\<not> json_ws c" "c \<noteq> CHR ''[''" "c \<noteq> CHR ''{''"
  shows "at_value st (c # s) \<longleftrightarrow> (case scan_token c s of Rest r \<Rightarrow> after st r | Stop b \<Rightarrow> False)"
proof
  assume "at_value st (c # s)"
  then obtain v u where "json_value (c # v)" "after st u" "s = v @ u" using at_value_head [OF assms(1)] by blast
  then show "case scan_token c s of Rest r \<Rightarrow> after st r | Stop b \<Rightarrow> False" using value_token assms(2,3) by simp
next
  assume "case scan_token c s of Rest r \<Rightarrow> after st r | Stop b \<Rightarrow> False"
  then obtain r where "scan_token c s = Rest r" "after st r" by (auto split: scan.splits)
  then show "at_value st (c # s)" using at_value_head [OF assms(1)] scan_token_value by blast
qed

lemma scan_token_string: "scan_token (CHR 0x22) s = scan_string s"
  by (simp add: scan_token_def)

lemma scan_token_literal: "c \<in> set ''tfn'' \<Longrightarrow> scan_token c s = scan_literal (literal_of c) (c # s)"
  by (auto simp: scan_token_def)

lemma scan_token_number: "c = CHR ''-'' \<or> is_digit c \<Longrightarrow> scan_token c s = scan_number (c # s)"
  using digit_heads [of c] by (auto simp: scan_token_def)

lemma scan_token_other: "c \<noteq> CHR 0x22 \<Longrightarrow> c \<notin> set ''tfn'' \<Longrightarrow> \<not> (c = CHR ''-'' \<or> is_digit c) \<Longrightarrow> scan_token c s = Stop False"
  by (simp add: scan_token_def)

lemma token_kinds [case_names string literal number other]:
  obtains "c = CHR 0x22" | "c \<in> set ''tfn''" | "c = CHR ''-'' \<or> is_digit c" | "c \<noteq> CHR 0x22" "c \<notin> set ''tfn''" "\<not> (c = CHR ''-'' \<or> is_digit c)"
  by blast

lemma scan_token_append:
  assumes "scan_token c s = Rest r" "r \<noteq> [] \<or> \<not> (c = CHR ''-'' \<or> is_digit c)"
  shows "scan_token c (s @ t) = Rest (r @ t)"
proof (cases c rule: token_kinds)
  case string
  then show ?thesis using assms(1) scan_string_append unfolding string scan_token_string by blast
next
  case literal
  then have "c # s = literal_of c @ r" using assms(1) unfolding scan_token_literal [OF literal] scan_literal_iff by blast
  then show ?thesis unfolding scan_token_literal [OF literal] scan_literal_iff by (metis append_Cons append_assoc)
next
  case number
  then show ?thesis using assms scan_number_longer(1) [of "c # s" r t] unfolding scan_token_number [OF number] by simp
next
  case other
  then show ?thesis using assms(1) unfolding scan_token_other [OF other] by simp
qed

lemma scan_token_stop:
  assumes "scan_token c s = Stop False"
  shows "scan_token c (s @ t) = Stop False"
proof (cases c rule: token_kinds)
  case string
  then show ?thesis using assms scan_string_stop unfolding string scan_token_string by blast
next
  case literal
  then show ?thesis using assms scan_literal_stop [of _ "c # s" t] unfolding scan_token_literal [OF literal] by simp
next
  case number
  then show ?thesis using assms scan_number_longer(2) [of "c # s" t] unfolding scan_token_number [OF number] by simp
next
  case other
  then show ?thesis unfolding scan_token_other [OF other] by simp
qed

lemma scan_token_more:
  assumes "scan_token c s = Stop True"
  shows "\<exists>x. scan_token c (s @ x) = Rest []"
proof (cases c rule: token_kinds)
  case string
  then show ?thesis using assms scan_string_more unfolding string scan_token_string by blast
next
  case literal
  then show ?thesis using assms scan_literal_more [of _ "c # s"] unfolding scan_token_literal [OF literal] by simp
next
  case number
  then show ?thesis using assms scan_number_longer(3) [of "c # s"] unfolding scan_token_number [OF number] by auto
next
  case other
  then show ?thesis using assms unfolding scan_token_other [OF other] by simp
qed

section \<open>What the recogniser decides\<close>

lemma after_closing: "after st (map closer st)"
  using after_at_value_at_key.after_close [of "[]"] after_done [of "[]"] by (induction st) simp_all

lemma at_value_some: "at_value st (''0'' @ map closer st)"
proof -
  have "scan_number ''0'' = Rest []" by code_simp
  then have "json_number ''0''" using scan_number_sound by fastforce
  then show ?thesis using at_valueI [of "[]" "''0''" st] value_number after_closing by simp
qed

lemma at_key_some: "\<exists>t. at_key st t"
proof -
  have "json_string [CHR 0x22, CHR 0x22]" using chars_nil by (auto simp: json_string_def)
  then show ?thesis using at_keyI [of "[]" _ "[]" st] at_value_some by (metis blank_simps(1))
qed

lemma follows_some: "state_ok e st \<Longrightarrow> \<exists>t. follows e st t"
  using at_key_some [of st] at_value_some [of st] after_closing [of st]
  by (cases e) (auto intro: exI [of _ "CHR '':'' # ''0'' @ map closer st"] exI [of _ "[]"])

lemma follows_Nil: "state_ok e st \<Longrightarrow> follows e st [] \<longleftrightarrow> e = Done"
proof -
  have "\<not> at_value st []" "\<not> at_key st []" using value_then_hd key_then_hd by (auto simp: at_value_then at_key_then)
  moreover have "after st [] \<longleftrightarrow> st = []" by (cases st) (auto simp: after_Nil_iff after_Cons_split)
  ultimately show "state_ok e st \<Longrightarrow> follows e st [] \<longleftrightarrow> e = Done" by (cases e) (auto simp: state_ok_def)
qed

lemma follows_complete: "follows (completeValue st) st u \<longleftrightarrow> after st u"
  by (simp add: completeValue_def)

lemma state_complete: "set st \<subseteq> {1, 2} \<Longrightarrow> state_ok (completeValue st) st"
  by (simp add: state_ok_def completeValue_def)

text \<open>\<open>decides b P\<close>: \<open>b\<close> says that the text read so far is no document but the start of one, where \<open>P t\<close> says that \<open>t\<close>
  completes it.\<close>

definition decides :: "bool \<Rightarrow> (string \<Rightarrow> bool) \<Rightarrow> bool" where
  "decides b P \<longleftrightarrow> (b \<longleftrightarrow> \<not> P [] \<and> (\<exists>t. P t))"

lemma decides_cong: "decides b Q \<Longrightarrow> (\<And>t. P t \<longleftrightarrow> Q t) \<Longrightarrow> decides b P"
  by (simp add: decides_def)

lemma decides_False: "(\<And>t. \<not> P t) \<Longrightarrow> decides False P"
  by (simp add: decides_def)

text \<open>Reading a token where \<open>F\<close> says what may follow it.\<close>

lemma decides_token:
  assumes P: "\<And>t. P t \<longleftrightarrow> (case scan_token c (s @ t) of Rest r \<Rightarrow> after st r | Stop b \<Rightarrow> False)"
    and rest: "\<And>r. scan_token c s = Rest r \<Longrightarrow> decides (json_scan (completeValue st) st r) (\<lambda>t. after st (r @ t))"
    and plain: "\<not> json_ws c" "c \<noteq> CHR ''[''" "c \<noteq> CHR ''{''"
  shows "decides (case scan_token c s of Stop b \<Rightarrow> b | Rest r \<Rightarrow> json_scan (completeValue st) st r) P"
proof (cases "scan_token c s")
  case (Stop b)
  show ?thesis
  proof (cases b)
    case True
    then obtain x where x: "scan_token c (s @ x) = Rest []" using scan_token_more [of c s] Stop by auto
    obtain v where v: "json_value (c # v)" "s @ x = v" using scan_token_value [OF x] by auto
    have "scan_token c ((s @ x) @ map closer st) = Rest (map closer st)" using value_token [OF v(1) plain(2,3) after_closing] v(2) by simp
    then have "P (x @ map closer st)" using P after_closing by simp
    then show ?thesis using P [of "[]"] Stop True by (auto simp: decides_def)
  next
    case False
    then show ?thesis using P Stop scan_token_stop by (simp add: decides_False)
  qed
next
  case (Rest r)
  show ?thesis
  proof (cases "r \<noteq> [] \<or> \<not> (c = CHR ''-'' \<or> is_digit c)")
    case True
    then have "P t \<longleftrightarrow> after st (r @ t)" for t using P scan_token_append [OF Rest] by simp
    then show ?thesis using rest [OF Rest] Rest by (simp add: decides_def)
  next
    case False
    then have r: "r = []" by simp
    obtain v where v: "json_value (c # v)" "s = v" using scan_token_value [OF Rest] r by auto
    have "P t" if "after st t" for t using P value_token [OF v(1) plain(2,3) that] that v(2) by simp
    moreover have "P [] \<longleftrightarrow> after st []" using P [of "[]"] Rest r by simp
    moreover have "after st [] \<longleftrightarrow> st = []" using follows_Nil [of "completeValue st" st]
      by (cases st) (auto simp: after_Nil_iff after_Cons_split)
    ultimately show ?thesis using after_closing [of st] Rest r by (auto simp: decides_def completeValue_def)
  qed
qed

lemma decides_key:
  assumes P: "\<And>t. P t \<longleftrightarrow> (case scan_string (s @ t) of Rest r \<Rightarrow> follows Colon st r | Stop b \<Rightarrow> False)"
    and rest: "\<And>r. scan_string s = Rest r \<Longrightarrow> decides (json_scan Colon st r) (\<lambda>t. follows Colon st (r @ t))"
    and st: "state_ok Colon st"
  shows "decides (case scan_string s of Stop b \<Rightarrow> b | Rest r \<Rightarrow> json_scan Colon st r) P"
proof (cases "scan_string s")
  case (Stop b)
  show ?thesis
  proof (cases b)
    case True
    then obtain x where x: "scan_string (s @ x) = Rest []" using scan_string_more [of s] Stop by auto
    obtain u where "follows Colon st u" using follows_some [OF st] by blast
    then have "P (x @ u)" using P scan_string_append [OF x, of u] by simp
    then show ?thesis using P [of "[]"] Stop True by (auto simp: decides_def)
  next
    case False
    then show ?thesis using P Stop scan_string_stop by (simp add: decides_False)
  qed
next
  case (Rest r)
  then have "P t \<longleftrightarrow> follows Colon st (r @ t)" for t using P scan_string_append [OF Rest] by simp
  then show ?thesis using rest [OF Rest] Rest by (simp add: decides_def)
qed

text \<open>One character that is not white space, for each state.\<close>

lemma step_comma_or_end:
  assumes "\<not> json_ws c" "set (k # st) \<subseteq> {1, 2}"
    and "\<And>e st' . state_ok e st' \<Longrightarrow> decides (json_scan e st' s) (\<lambda>t. follows e st' (s @ t))"
  shows "decides (json_scan CommaOrEnd (k # st) (c # s)) (\<lambda>t. follows CommaOrEnd (k # st) (c # s @ t))"
proof -
  have k: "k = 1 \<or> k = 2" using assms(2) by simp
  have step: "follows CommaOrEnd (k # st) (c # x) \<longleftrightarrow> c = closer k \<and> after st x
      \<or> c = CHR '','' \<and> follows (if k = 1 then ObjectKey else ExpectValue) (k # st) x" for x
    using after_head [OF assms(1)] k by auto
  consider "c = closer k" | "c = CHR '',''" "c \<noteq> closer k" | "c \<noteq> closer k" "c \<noteq> CHR '',''" by blast
  then show ?thesis
  proof cases
    case 1
    then have "c \<noteq> CHR '',''" by auto
    then have "follows CommaOrEnd (k # st) (c # x) \<longleftrightarrow> follows (completeValue st) st x" for x using step 1 by (simp add: follows_complete)
    moreover have "json_scan CommaOrEnd (k # st) (c # s) = json_scan (completeValue st) st s"
      using 1 k assms(1) by (subst json_scan.simps) (auto simp: top_object_def)
    ultimately show ?thesis using assms(3) [OF state_complete, of st] assms(2) by (simp add: decides_def)
  next
    case 2
    let ?e = "if k = 1 then ObjectKey else ExpectValue"
    have "follows CommaOrEnd (k # st) (c # x) \<longleftrightarrow> follows ?e (k # st) x" for x using step 2 by simp
    moreover have "json_scan CommaOrEnd (k # st) (c # s) = json_scan ?e (k # st) s"
      using 2 k by (subst json_scan.simps) (auto simp: top_object_def)
    moreover have "state_ok ?e (k # st)" using assms(2) by (auto simp: state_ok_def)
    ultimately show ?thesis using assms(3) [of ?e "k # st"] by (simp add: decides_def)
  next
    case 3
    then have "json_scan CommaOrEnd (k # st) (c # s) = False"
      using k assms(1) by (subst json_scan.simps) (auto simp: top_object_def)
    then show ?thesis using step 3 by (simp add: decides_def)
  qed
qed

lemma step_value:
  assumes "\<not> json_ws c" "set st \<subseteq> {1, 2}" "e = ExpectValue \<or> e = ArrayValueOrEnd \<and> c \<noteq> CHR '']''"
    and "\<And>e st' r. state_ok e st' \<Longrightarrow> length r \<le> length s \<Longrightarrow> decides (json_scan e st' r) (\<lambda>t. follows e st' (r @ t))"
  shows "decides (json_scan e st (c # s)) (\<lambda>t. at_value st (c # s @ t))"
proof -
  consider "c = CHR ''{''" | "c = CHR ''[''" | "c \<noteq> CHR ''{''" "c \<noteq> CHR ''[''" by blast
  then show ?thesis
  proof cases
    case 1
    then have "json_scan e st (c # s) = json_scan ObjectKeyOrEnd (1 # st) s" using assms(3) by (subst json_scan.simps) auto
    moreover have "state_ok ObjectKeyOrEnd (1 # st)" using assms(2) by (simp add: state_ok_def)
    ultimately show ?thesis using assms(4) [of ObjectKeyOrEnd "1 # st" s] at_value_object 1 by (simp add: decides_def del: follows.simps)
  next
    case 2
    then have "json_scan e st (c # s) = json_scan ArrayValueOrEnd (2 # st) s" using assms(3) by (subst json_scan.simps) auto
    moreover have "state_ok ArrayValueOrEnd (2 # st)" using assms(2) by (simp add: state_ok_def)
    ultimately show ?thesis using assms(4) [of ArrayValueOrEnd "2 # st" s] at_value_array 2 by (simp add: decides_def del: follows.simps)
  next
    case 3
    have r: "decides (json_scan (completeValue st) st r) (\<lambda>t. after st (r @ t))" if "scan_token c s = Rest r" for r
      using assms(4) [OF state_complete [OF assms(2)], of r] scan_token_rest [OF that] by (simp add: follows_complete)
    have "json_scan e st (c # s) = (case scan_token c s of Stop b \<Rightarrow> b | Rest r \<Rightarrow> json_scan (completeValue st) st r)"
      using assms(1,3) 3 by (subst json_scan.simps) auto
    then show ?thesis using decides_token [OF at_value_token [OF assms(1) 3(2,1)] r assms(1) 3(2,1)] by simp
  qed
qed

lemma step_key:
  assumes "\<not> json_ws c" "state_ok Colon st" "e = ObjectKey \<or> e = ObjectKeyOrEnd \<and> c \<noteq> CHR ''}''"
    and "\<And>r. length r \<le> length s \<Longrightarrow> decides (json_scan Colon st r) (\<lambda>t. follows Colon st (r @ t))"
  shows "decides (json_scan e st (c # s)) (\<lambda>t. at_key st (c # s @ t))"
proof (cases "c = CHR 0x22")
  case True
  have js: "json_scan e st (c # s) = (case scan_string s of Stop b \<Rightarrow> b | Rest r \<Rightarrow> json_scan Colon st r)"
    using assms(1,3) True by (subst json_scan.simps) (auto simp: scan_token_string)
  have rest: "decides (json_scan Colon st r) (\<lambda>t. follows Colon st (r @ t))" if "scan_string s = Rest r" for r
    using assms(4) [of r] scan_string_rest [OF that] by simp
  have key: "at_key st (c # s @ t) \<longleftrightarrow> (case scan_string (s @ t) of Rest r \<Rightarrow> follows Colon st r | Stop b \<Rightarrow> False)" for t
    using at_key_head [OF assms(1), of st "s @ t"] True by blast
  show ?thesis unfolding js by (rule decides_key [where P = "\<lambda>t. at_key st (c # s @ t)", OF key rest assms(2)])
next
  case False
  have "json_scan e st (c # s) = False" using assms(3) by (elim disjE conjE) (simp_all add: json_scan.simps(2) assms(1) False)
  moreover have "\<not> at_key st (c # x)" for x using False at_key_head [OF assms(1), of st x] by blast
  ultimately show ?thesis by (simp add: decides_def)
qed

lemma at_value_no_bracket: "\<not> at_value st (CHR '']'' # x)"
proof
  assume "at_value st (CHR '']'' # x)"
  then obtain v where v: "json_value (CHR '']'' # v)" using at_value_head [OF not_ws(4)] by blast
  show False using value_starting(7) [OF v] by (simp add: is_digit_def)
qed

lemma step_close:
  assumes "e = ObjectKeyOrEnd \<and> c = CHR ''}'' \<or> e = ArrayValueOrEnd \<and> c = CHR '']''" "state_ok e st"
    and "\<And>e st'. state_ok e st' \<Longrightarrow> decides (json_scan e st' s) (\<lambda>t. follows e st' (s @ t))"
  shows "decides (json_scan e st (c # s)) (\<lambda>t. follows e st (c # s @ t))"
proof -
  have ws: "\<not> json_ws c" using assms(1) by auto
  have js: "json_scan e st (c # s) = json_scan (completeValue (tl st)) (tl st) s" using assms(1) by (subst json_scan.simps) auto
  have key: "\<not> at_key st (CHR ''}'' # x)" for x using at_key_head [OF not_ws(5)] by simp
  have f: "follows e st (c # x) \<longleftrightarrow> follows (completeValue (tl st)) (tl st) x" for x
    using assms(1)
  proof
    assume "e = ObjectKeyOrEnd \<and> c = CHR ''}''"
    then show ?thesis using key mark_head [OF ws, of x] by (simp add: follows_complete)
  next
    assume "e = ArrayValueOrEnd \<and> c = CHR '']''"
    then show ?thesis using at_value_no_bracket mark_head [OF ws, of x] by (simp add: follows_complete)
  qed
  have "set (tl st) \<subseteq> {1, 2}" using assms(2) by (cases st) (auto simp: state_ok_def)
  then show ?thesis unfolding js f by (intro assms(3) state_complete)
qed

lemma json_scan_decides:
  "state_ok e st \<Longrightarrow> decides (json_scan e st r) (\<lambda>t. follows e st (r @ t))"
proof (induction "length r" arbitrary: e st r rule: less_induct)
  case less
  show ?case
  proof (cases r)
    case Nil
    then show ?thesis using follows_Nil [OF less.prems] follows_some [OF less.prems] by (simp add: decides_def)
  next
    case (Cons c s)
    have IH: "decides (json_scan e' st' x) (\<lambda>t. follows e' st' (x @ t))" if "state_ok e' st'" "length x \<le> length s" for e' st' x
      using less.hyps [OF _ that(1)] that(2) Cons by simp
    note IHs = IH [OF _ order_refl]
    have ok: "set st \<subseteq> {1, 2}" using less.prems by (simp add: state_ok_def)
    have "decides (json_scan e st (c # s)) (\<lambda>t. follows e st (c # s @ t))"
    proof (cases "json_ws c")
      case True
      then have "json_scan e st (c # s) = json_scan e st s" by (subst json_scan.simps) simp
      then show ?thesis using IHs [OF less.prems] follows_ws [OF True] by (simp add: decides_def)
    next
      case ws: False
      show ?thesis
      proof (cases "e = ObjectKeyOrEnd \<and> c = CHR ''}'' \<or> e = ArrayValueOrEnd \<and> c = CHR '']''")
        case True
        then show ?thesis using step_close [OF _ less.prems IHs] by blast
      next
        case open_bracket: False
        show ?thesis
        proof (cases e)
          case ExpectValue
          then show ?thesis using step_value [OF ws ok _ IH, of e] by simp
        next
          case ArrayValueOrEnd
          then have "follows e st (c # x) \<longleftrightarrow> at_value st (c # x)" for x using open_bracket mark_head [OF ws] by auto
          then show ?thesis using step_value [OF ws ok _ IH, of e] ArrayValueOrEnd open_bracket by (simp add: decides_def)
        next
          case ObjectKeyOrEnd
          then have "follows e st (c # x) \<longleftrightarrow> at_key st (c # x)" for x using open_bracket mark_head [OF ws] by auto
          moreover have "state_ok Colon st" using less.prems ObjectKeyOrEnd by (simp add: state_ok_def)
          ultimately show ?thesis using step_key [OF ws _ _ IH, of st e] ObjectKeyOrEnd open_bracket by (simp add: decides_def)
        next
          case ObjectKey
          then have "state_ok Colon st" using less.prems by (simp add: state_ok_def)
          then show ?thesis using step_key [OF ws _ _ IH, of st e] ObjectKey by simp
        next
          case Colon
          have "json_scan e st (c # s) = (c = CHR '':'' \<and> json_scan ExpectValue st s)" using ws Colon by (subst json_scan.simps) auto
          moreover have "follows e st (c # x) \<longleftrightarrow> c = CHR '':'' \<and> at_value st x" for x using Colon mark_head [OF ws] by simp
          ultimately show ?thesis using IHs [of ExpectValue st] ok by (auto simp: decides_def state_ok_def)
        next
          case CommaOrEnd
          then obtain k st' where "st = k # st'" using less.prems by (cases st) (auto simp: state_ok_def)
          then show ?thesis using step_comma_or_end [OF ws _ IHs, of k st'] ok CommaOrEnd by simp
        next
          case Done
          have "json_scan e st (c # s) = False" using ws Done by (subst json_scan.simps) auto
          moreover have "st = []" using less.prems Done by (simp add: state_ok_def)
          ultimately show ?thesis using ws Done by (simp add: decides_def after_Nil_iff)
        qed
      qed
    qed
    then show ?thesis using Cons by simp
  qed
qed

lemma json_text_follows: "json_text t \<longleftrightarrow> at_value [] t"
  unfolding json_text_def at_value_iff after_Nil_iff by blast

text \<open>C32: The recogniser says of a text that it is unfinished exactly when it is not a JSON text but can be continued to
  one.  In particular a complete value is not unfinished, even a number that more digits would continue, and a text that
  no continuation can repair is not unfinished.\<close>

theorem incomplete_json_prefix:
  "isIncompleteArchiveJsonPrefix s \<longleftrightarrow> \<not> json_text s \<and> (\<exists>more. json_text (s @ more))"
  using json_scan_decides [of ExpectValue "[]" s]
  by (simp add: isIncompleteArchiveJsonPrefix_def decides_def json_text_follows state_ok_def)

end
