(* ===== verification/Archive_Time.thy ===== *)
theory Archive_Time
  imports Prelude "HOL-Library.Monad_Syntax"
begin

text \<open>
  Time stamps of the archive protocol, \<open>timestamp\<close> of \<open>src/src/server/ArchiveProtocol.ts\<close>: an RFC 3339 text is checked,
  read as milliseconds since 1970 (\<open>Date.parse\<close>) and written in its canonical form (\<open>toISOString\<close>).  \<open>None\<close> is the
  thrown \<open>ArchiveProtocolError\<close>.
\<close>

section \<open>The calendar\<close>

definition leap :: "nat \<Rightarrow> bool" where
  "leap y \<longleftrightarrow> y mod 4 = 0 \<and> (y mod 100 \<noteq> 0 \<or> y mod 400 = 0)"

definition month_lengths :: "nat \<Rightarrow> nat list" where
  "month_lengths y = [31, if leap y then 29 else 28, 31, 30, 31, 30, 31, 31, 30, 31, 30, 31]"

definition year_length :: "nat \<Rightarrow> nat" where
  "year_length y = (if leap y then 366 else 365)"

text \<open>Days from the first of January 1970; dates before count negatively.\<close>

definition year_start :: "nat \<Rightarrow> int" where
  "year_start y = int (sum_list (map year_length [1970..<y])) - int (sum_list (map year_length [y..<1970]))"

definition days_from_civil :: "nat \<Rightarrow> nat \<Rightarrow> nat \<Rightarrow> int" where
  "days_from_civil y m d = year_start y + int (sum_list (take (m - 1) (month_lengths y))) + int d - 1"

function civil_year :: "nat \<Rightarrow> nat \<Rightarrow> nat \<times> nat" where
  "civil_year y d = (if d < year_length y then (y, d) else civil_year (Suc y) (d - year_length y))"
  by pat_completeness auto

termination
  by (relation "measure (\<lambda>(y, d). d)") (auto simp: year_length_def split: if_splits)

fun civil_month :: "nat \<Rightarrow> nat list \<Rightarrow> nat \<Rightarrow> nat \<times> nat" where
  "civil_month m [] d = (m, d)"
| "civil_month m (l # ls) d = (if d < l then (m, d) else civil_month (Suc m) ls (d - l))"

declare civil_year.simps [simp del]

section \<open>Reading a time stamp\<close>

definition digits_at :: "string \<Rightarrow> nat \<Rightarrow> nat \<Rightarrow> nat option" where
  "digits_at s i n = (let t = take n (drop i s) in if length t = n \<and> list_all is_digit t then Some (read_nat t) else None)"

definition guard :: "bool \<Rightarrow> unit option" where
  "guard b = (if b then Some () else None)"

text \<open>Up to three digits of a second, as milliseconds, and what stands behind them.\<close>

definition parse_fraction :: "string \<Rightarrow> (nat \<times> string) option" where
  "parse_fraction r = (if r \<noteq> [] \<and> hd r = CHR ''.'' then
     (let ds = takeWhile is_digit (tl r) in
       if 1 \<le> length ds \<and> length ds \<le> 3 then Some (read_nat (ds @ replicate (3 - length ds) (CHR ''0'')), dropWhile is_digit (tl r)) else None)
     else Some (0, r))"

definition parse_zone :: "string \<Rightarrow> int option" where
  "parse_zone z = (if z = ''Z'' \<or> z = ''z'' then Some 0
     else do {
       guard (length z = 6 \<and> (hd z = CHR ''+'' \<or> hd z = CHR ''-'') \<and> z ! 3 = CHR '':'');
       h \<leftarrow> digits_at z 1 2;
       m \<leftarrow> digits_at z 4 2;
       guard (h \<le> 23 \<and> m \<le> 59);
       Some ((if hd z = CHR ''-'' then - 1 else 1) * int (h * 60 + m))
     })"

definition parse_millis :: "string \<Rightarrow> int option" where
  "parse_millis s = do {
     year \<leftarrow> digits_at s 0 4;
     month \<leftarrow> digits_at s 5 2;
     day \<leftarrow> digits_at s 8 2;
     hour \<leftarrow> digits_at s 11 2;
     minute \<leftarrow> digits_at s 14 2;
     second \<leftarrow> digits_at s 17 2;
     guard (s ! 4 = CHR ''-'' \<and> s ! 7 = CHR ''-'' \<and> (s ! 10 = CHR ''T'' \<or> s ! 10 = CHR ''t'') \<and> s ! 13 = CHR '':'' \<and> s ! 16 = CHR '':'');
     (millis, zone) \<leftarrow> parse_fraction (drop 19 s);
     offset \<leftarrow> parse_zone zone;
     guard (1 \<le> month \<and> month \<le> 12 \<and> 1 \<le> day \<and> day \<le> month_lengths year ! (month - 1) \<and> hour \<le> 23 \<and> minute \<le> 59 \<and> second \<le> 59);
     Some ((((days_from_civil year month day * 24 + int hour) * 60 + int minute - offset) * 60 + int second) * 1000 + int millis)
   }"

section \<open>Writing a time stamp\<close>

definition pad2 :: "nat \<Rightarrow> string" where
  "pad2 n = [digit_char (n div 10 mod 10), digit_char (n mod 10)]"

definition pad3 :: "nat \<Rightarrow> string" where
  "pad3 n = digit_char (n div 100 mod 10) # pad2 n"

definition pad4 :: "nat \<Rightarrow> string" where
  "pad4 n = digit_char (n div 1000 mod 10) # pad3 n"

definition iso_text :: "nat \<Rightarrow> nat \<Rightarrow> nat \<Rightarrow> nat \<Rightarrow> nat \<Rightarrow> nat \<Rightarrow> nat \<Rightarrow> string" where
  "iso_text year month day hour minute second millis = pad4 year @ ''-'' @ pad2 month @ ''-'' @ pad2 day @ ''T'' @ pad2 hour @ '':''
     @ pad2 minute @ '':'' @ pad2 second @ ''.'' @ pad3 millis @ ''Z''"

definition toISOString :: "nat \<Rightarrow> string" where
  "toISOString t = (let
     seconds = t div 1000; (year, day) = civil_year 1970 (seconds div 86400); (month, day') = civil_month 1 (month_lengths year) day
     in iso_text year month (Suc day') (seconds div 3600 mod 24) (seconds div 60 mod 60) (seconds mod 60) (t mod 1000))"

definition timestamp :: "string \<Rightarrow> string option" where
  "timestamp s = do {
     millis \<leftarrow> parse_millis s;
     guard (0 \<le> millis \<and> millis \<le> 253402300799999);
     Some (toISOString (nat millis))
   }"

section \<open>The canonical form is kept\<close>

lemma guard_Some [simp]: "guard b = Some u \<longleftrightarrow> b"
  by (simp add: guard_def)

lemma month_lengths_sum: "sum_list (month_lengths y) = year_length y"
  by (simp add: month_lengths_def year_length_def)

lemma civil_year_spec:
  "civil_year y d = (y', d') \<Longrightarrow> d' < year_length y' \<and> y \<le> y' \<and> d = sum_list (map year_length [y..<y']) + d'"
proof (induction y d rule: civil_year.induct)
  case (1 y d)
  show ?case
  proof (cases "d < year_length y")
    case True
    then show ?thesis using "1.prems" by (simp add: civil_year.simps [of y d])
  next
    case False
    then have r: "civil_year (Suc y) (d - year_length y) = (y', d')" using "1.prems" by (simp add: civil_year.simps [of y d])
    have IH: "d' < year_length y' \<and> Suc y \<le> y' \<and> d - year_length y = sum_list (map year_length [Suc y..<y']) + d'" using "1.IH" [OF False r] .
    then have "[y..<y'] = y # [Suc y..<y']" by (simp add: upt_conv_Cons)
    then have "sum_list (map year_length [y..<y']) = year_length y + sum_list (map year_length [Suc y..<y'])" by simp
    then show ?thesis using IH False by linarith
  qed
qed

lemma civil_month_spec:
  "civil_month m ls d = (m', d') \<Longrightarrow> d < sum_list ls \<Longrightarrow> m \<le> m' \<and> m' < m + length ls \<and> d' < ls ! (m' - m) \<and> d = sum_list (take (m' - m) ls) + d'"
proof (induction m ls d rule: civil_month.induct)
  case (2 m l ls d)
  show ?case
  proof (cases "d < l")
    case True
    then show ?thesis using 2 by auto
  next
    case False
    then have "Suc m \<le> m' \<and> m' < Suc m + length ls \<and> d' < ls ! (m' - Suc m) \<and> d - l = sum_list (take (m' - Suc m) ls) + d'" using 2 by simp
    moreover from this have "m' - m = Suc (m' - Suc m)" by linarith
    ultimately show ?thesis using False by auto
  qed
qed simp

text \<open>The number of days before a year, to bound the year of a time stamp.\<close>

lemma div_step: "0 < k \<Longrightarrow> (y + k) div k = (y + (k - 1)) div k + (if y mod k = 0 then 1 else (0 :: nat))"
proof -
  assume k: "0 < k"
  define q r where "q = y div k" and "r = y mod k"
  have y: "y = q * k + r" "r < k" using k by (simp_all add: q_def r_def)
  have "(y + k) div k = Suc q" using k div_add_self2 [of k y] by (simp add: q_def)
  moreover have "y + (k - 1) = r + (k - 1) + q * k" using y(1) by linarith
  then have "(y + (k - 1)) div k = q + (r + (k - 1)) div k" using k div_mult_self1 [of k "r + (k - 1)" q] by simp
  moreover have "(r + (k - 1)) div k = (if r = 0 then 0 else 1)"
  proof (cases "r = 0")
    case False
    then have "r + (k - 1) = (r - 1) + 1 * k" using k by simp
    moreover have "((r - 1) + 1 * k) div k = 1 + (r - 1) div k" using k by (intro div_mult_self1) simp
    moreover have "(r - 1) div k = 0" using y(2) by simp
    ultimately show ?thesis using False by simp
  qed (use k in simp)
  ultimately show ?thesis by (simp add: r_def)
qed

definition days_before :: "nat \<Rightarrow> nat" where
  "days_before y = 365 * y + (y + 3) div 4 + (y + 399) div 400 - (y + 99) div 100"

lemma sub_step: "c \<le> 365 * y \<Longrightarrow> 365 + i + j = l + k \<Longrightarrow> 365 * Suc y + (a + i) + (b + j) - (c + k) = 365 * y + a + b - c + (l :: nat)"
  by simp

lemma days_before_Suc: "days_before (Suc y) = days_before y + year_length y"
proof -
  have "(4 :: nat) dvd 100" "(100 :: nat) dvd 400" by simp_all
  then have a: "y mod 100 = 0 \<Longrightarrow> y mod 4 = 0" "y mod 400 = 0 \<Longrightarrow> y mod 100 = 0"
    using dvd_trans by (auto simp: mod_eq_0_iff_dvd)
  have le: "(x + 99) div 100 \<le> 365 * x" for x :: nat by simp
  have s: "(Suc y + 3) div 4 = (y + 3) div 4 + (if y mod 4 = 0 then 1 else 0)"
    "(Suc y + 99) div 100 = (y + 99) div 100 + (if y mod 100 = 0 then 1 else 0)"
    "(Suc y + 399) div 400 = (y + 399) div 400 + (if y mod 400 = 0 then 1 else 0)"
    using div_step [of 4 y] div_step [of 100 y] div_step [of 400 y] by (simp_all add: ac_simps)
  have "365 + (if y mod 4 = 0 then 1 else 0) + (if y mod 400 = 0 then 1 else 0) = year_length y + (if y mod 100 = 0 then 1 else (0 :: nat))"
    using a by (auto simp: year_length_def leap_def)
  then show ?thesis unfolding days_before_def s using le [of y] by (intro sub_step)
qed

lemma year_sum: "y \<le> y' \<Longrightarrow> sum_list (map year_length [y..<y']) + days_before y = days_before y'"
proof (induction y')
  case (Suc n)
  then show ?case by (cases "y = Suc n") (simp_all add: days_before_Suc)
qed simp

lemma civil_year_bound:
  assumes "civil_year 1970 d = (y, d')" "d \<le> 2932896"
  shows "1970 \<le> y \<and> y \<le> 9999"
proof -
  have c: "1970 \<le> y" "d = sum_list (map year_length [1970..<y]) + d'" using civil_year_spec [OF assms(1)] by auto
  have "days_before 10000 \<le> days_before y" if "10000 \<le> y" using year_sum [OF that] by linarith
  moreover have "days_before 10000 = 3652425" "days_before 1970 = 719528" by (simp_all add: days_before_def)
  ultimately have "\<not> 10000 \<le> y" using c(2) year_sum [OF c(1)] assms(2) by linarith
  then show ?thesis using c by simp
qed

lemma digits_pad:
  "read_nat [digit_char (n div 10 mod 10), digit_char (n mod 10)] = n mod 100"
  "read_nat [digit_char (n div 100 mod 10), digit_char (n div 10 mod 10), digit_char (n mod 10)] = n mod 1000"
  "read_nat [digit_char (n div 1000 mod 10), digit_char (n div 100 mod 10), digit_char (n div 10 mod 10), digit_char (n mod 10)] = n mod 10000"
proof -
  have s: "n mod 100 = 10 * (n div 10 mod 10) + n mod 10" "n mod 1000 = 100 * (n div 100 mod 10) + n mod 100"
    "n mod 10000 = 1000 * (n div 1000 mod 10) + n mod 1000"
    using mod_mult2_eq [of n 10 10] mod_mult2_eq [of n 100 10] mod_mult2_eq [of n 1000 10] by simp_all
  show "read_nat [digit_char (n div 10 mod 10), digit_char (n mod 10)] = n mod 100" by (simp add: read_nat_def s)
  show "read_nat [digit_char (n div 100 mod 10), digit_char (n div 10 mod 10), digit_char (n mod 10)] = n mod 1000" by (simp add: read_nat_def s)
  show "read_nat [digit_char (n div 1000 mod 10), digit_char (n div 100 mod 10), digit_char (n div 10 mod 10), digit_char (n mod 10)] = n mod 10000"
    by (simp add: read_nat_def s)
qed

lemma iso_text_fields:
  assumes "s = iso_text y mo d h mi se ms"
  shows "digits_at s 0 4 = Some (y mod 10000)" "digits_at s 5 2 = Some (mo mod 100)" "digits_at s 8 2 = Some (d mod 100)"
    "digits_at s 11 2 = Some (h mod 100)" "digits_at s 14 2 = Some (mi mod 100)" "digits_at s 17 2 = Some (se mod 100)"
    "drop 19 s = ''.'' @ pad3 ms @ ''Z''"
    "s ! 4 = CHR ''-''" "s ! 7 = CHR ''-''" "s ! 10 = CHR ''T''" "s ! 13 = CHR '':''" "s ! 16 = CHR '':''"
  by (simp_all add: assms iso_text_def digits_at_def pad2_def pad3_def pad4_def digits_pad Let_def)

lemma parse_fraction_pad: "parse_fraction (''.'' @ pad3 ms @ ''Z'') = Some (ms mod 1000, ''Z'')"
proof -
  have "\<not> is_digit (CHR ''Z'')" by code_simp
  then show ?thesis by (simp add: parse_fraction_def pad3_def pad2_def Let_def digits_pad)
qed

lemma parse_iso_text:
  assumes "y \<le> 9999" "1 \<le> mo" "mo \<le> 12" "1 \<le> d" "d \<le> month_lengths y ! (mo - 1)" "h \<le> 23" "mi \<le> 59" "se \<le> 59" "ms < 1000"
  shows "parse_millis (iso_text y mo d h mi se ms)
    = Some ((((days_from_civil y mo d * 24 + int h) * 60 + int mi) * 60 + int se) * 1000 + int ms)"
proof -
  have "\<forall>l \<in> set (month_lengths y). l \<le> 31" by (simp add: month_lengths_def)
  moreover have "month_lengths y ! (mo - 1) \<in> set (month_lengths y)" using assms(2,3) by (intro nth_mem) (simp add: month_lengths_def)
  ultimately have "d \<le> 31" using assms(5) by (meson order_trans)
  then have b: "y mod 10000 = y" "mo mod 100 = mo" "d mod 100 = d" "h mod 100 = h" "mi mod 100 = mi" "se mod 100 = se" "ms mod 1000 = ms"
    using assms by simp_all
  show ?thesis unfolding parse_millis_def iso_text_fields [OF refl] parse_fraction_pad b using assms
    by (simp add: parse_zone_def guard_def)
qed

lemma days_from_civil_year:
  assumes "civil_year 1970 n = (y, k)" "civil_month 1 (month_lengths y) k = (mo, d)"
  shows "days_from_civil y mo (Suc d) = int n" "1 \<le> mo" "mo \<le> 12" "Suc d \<le> month_lengths y ! (mo - 1)"
proof -
  have y: "k < year_length y" "1970 \<le> y" "n = sum_list (map year_length [1970..<y]) + k" using civil_year_spec [OF assms(1)] by auto
  have m: "1 \<le> mo" "mo < 1 + length (month_lengths y)" "d < month_lengths y ! (mo - 1)" "k = sum_list (take (mo - 1) (month_lengths y)) + d"
    using civil_month_spec [OF assms(2)] y(1) by (auto simp: month_lengths_sum)
  have "[y..<1970] = []" using y(2) by simp
  then show "days_from_civil y mo (Suc d) = int n" using y(3) m(4) by (simp add: days_from_civil_def year_start_def)
  show "1 \<le> mo" "mo \<le> 12" "Suc d \<le> month_lengths y ! (mo - 1)" using m by (simp_all add: month_lengths_def Suc_le_eq)
qed

lemma parse_toISOString:
  assumes "t \<le> 253402300799999"
  shows "parse_millis (toISOString t) = Some (int t)"
proof -
  define n where "n = t div 1000"
  obtain y k where y: "civil_year 1970 (n div 86400) = (y, k)" by fastforce
  obtain mo d where m: "civil_month 1 (month_lengths y) k = (mo, d)" by fastforce
  note c = days_from_civil_year [OF y m]
  have "n div 86400 \<le> 2932896" using assms unfolding n_def by (simp add: div_le_mono [of t 253402300799999 86400000, simplified] flip: div_mult2_eq)
  then have "y \<le> 9999" using civil_year_bound [OF y] by simp
  then have p: "parse_millis (toISOString t)
      = Some ((((int (n div 86400) * 24 + int (n div 3600 mod 24)) * 60 + int (n div 60 mod 60)) * 60 + int (n mod 60)) * 1000 + int (t mod 1000))"
    using c y m by (simp add: toISOString_def Let_def n_def [symmetric] parse_iso_text)
  have "n div 86400 * 24 + n div 3600 mod 24 = n div 3600" using div_mult2_eq [of n 3600 24] by simp
  moreover have "n div 3600 * 60 + n div 60 mod 60 = n div 60" using div_mult2_eq [of n 60 60] by simp
  ultimately have "((n div 86400 * 24 + n div 3600 mod 24) * 60 + n div 60 mod 60) * 60 + n mod 60 = n" by simp
  then have "(((n div 86400 * 24 + n div 3600 mod 24) * 60 + n div 60 mod 60) * 60 + n mod 60) * 1000 + t mod 1000 = t"
    unfolding n_def by simp
  then show ?thesis unfolding p by (metis (no_types, lifting) of_nat_add of_nat_mult of_nat_numeral)
qed

lemma timestamp_canonical:
  assumes "timestamp s = Some c"
  shows "timestamp c = Some c"
proof -
  obtain m where m: "0 \<le> m" "m \<le> 253402300799999" "c = toISOString (nat m)"
    using assms by (auto simp: timestamp_def bind_eq_Some_conv)
  then have "parse_millis c = Some m" using parse_toISOString [of "nat m"] by simp
  then show ?thesis using m by (simp add: timestamp_def guard_def)
qed

end
