(* ===== verification/Archive_Protocol.thy ===== *)
theory Archive_Protocol
  imports Archive_Time
begin

text \<open>
  The wire types of the session archive, \<open>src/src/server/ArchiveProtocol.ts\<close>.  A value of unknown type is a \<open>js_value\<close>;
  decoding gives \<open>None\<close> where the program throws \<open>ArchiveProtocolError\<close>.  An optional property is an option, and a
  property that may also be \<open>null\<close> an option of an option.
\<close>

section \<open>Values of unknown type\<close>

text \<open>\<open>JFraction\<close> is a number that is not an integer, with its text.\<close>

datatype js_value = JUndefined | JNull | JBool bool | JInt int | JFraction string | JStr string | JArr "js_value list" | JObj "(string \<times> js_value) list"

definition prop_of :: "(string \<times> js_value) list \<Rightarrow> string \<Rightarrow> js_value" where
  "prop_of row k = (case map_of row k of None \<Rightarrow> JUndefined | Some v \<Rightarrow> v)"

definition object :: "js_value \<Rightarrow> string list \<Rightarrow> bool \<Rightarrow> (string \<times> js_value) list option" where
  "object v keys strict = (case v of
     JObj row \<Rightarrow> if strict \<and> \<not> list_all (\<lambda>(k, _). k \<in> set keys) row then None else Some row | _ \<Rightarrow> None)"

definition present :: "js_value \<Rightarrow> bool" where
  "present v \<longleftrightarrow> v \<noteq> JUndefined \<and> v \<noteq> JNull"

definition opt_prop :: "(js_value \<Rightarrow> 'a option) \<Rightarrow> js_value \<Rightarrow> 'a option option" where
  "opt_prop decode v = (if present v then map_option Some (decode v) else Some None)"

text \<open>\<open>JSON.stringify\<close>: properties that are undefined are left out.\<close>

definition hex_pair :: "nat \<Rightarrow> string" where
  "hex_pair n = (let h = (\<lambda>d. if d < 10 then char_of (48 + d) else char_of (87 + d)) in [h (n div 16), h (n mod 16)])"

definition quote_char :: "char \<Rightarrow> string" where
  "quote_char c = (if c = CHR 0x22 then [CHR 0x5C, CHR 0x22] else if c = CHR 0x5C then [CHR 0x5C, CHR 0x5C]
     else if c = CHR 0x08 then [CHR 0x5C, CHR ''b''] else if c = CHR 0x0C then [CHR 0x5C, CHR ''f'']
     else if c = CHR 0x0A then [CHR 0x5C, CHR ''n''] else if c = CHR 0x0D then [CHR 0x5C, CHR ''r'']
     else if c = CHR 0x09 then [CHR 0x5C, CHR ''t'']
     else if (of_char c :: nat) < 0x20 then CHR 0x5C # ''u00'' @ hex_pair (of_char c) else [c])"

definition quote :: "string \<Rightarrow> string" where
  "quote s = CHR 0x22 # concat (map quote_char s) @ [CHR 0x22]"

fun stringify :: "js_value \<Rightarrow> string" and stringify_items :: "js_value list \<Rightarrow> string list" and stringify_props :: "(string \<times> js_value) list \<Rightarrow> string list" where
  "stringify JUndefined = ''null''"
| "stringify JNull = ''null''"
| "stringify (JBool b) = (if b then ''true'' else ''false'')"
| "stringify (JInt i) = (if i < 0 then ''-'' @ show_nat (nat (- i)) else show_nat (nat i))"
| "stringify (JFraction s) = s"
| "stringify (JStr s) = quote s"
| "stringify (JArr vs) = ''['' @ join_with '','' (stringify_items vs) @ '']''"
| "stringify (JObj row) = ''{'' @ join_with '','' (stringify_props row) @ ''}''"
| "stringify_items [] = []"
| "stringify_items (v # vs) = stringify v # stringify_items vs"
| "stringify_props [] = []"
| "stringify_props ((k, v) # row) = (if v = JUndefined then stringify_props row else (quote k @ '':'' @ stringify v) # stringify_props row)"

text \<open>\<open>Buffer.byteLength\<close>\<close>

definition byte_length :: "string \<Rightarrow> nat" where
  "byte_length s = sum_list (map (\<lambda>c. if (of_char c :: nat) < 128 then 1 else 2) s)"

section \<open>Scalars\<close>

definition control_char :: "char \<Rightarrow> bool" where
  "control_char c \<longleftrightarrow> (let n = (of_char c :: nat) in n \<le> 0x1f \<or> (0x7f \<le> n \<and> n \<le> 0x9f))"

definition archive_text :: "nat \<Rightarrow> bool \<Rightarrow> bool \<Rightarrow> js_value \<Rightarrow> string option" where
  "archive_text maxBytes controlFree nonblank v = (case v of
     JStr s \<Rightarrow> if 0 < length s \<and> byte_length s \<le> maxBytes \<and> (\<not> controlFree \<or> \<not> list_ex control_char s) \<and> (\<not> nonblank \<or> 0 < length (js_trim s))
       then Some s else None
   | _ \<Rightarrow> None)"

definition decodeArchiveId :: "js_value \<Rightarrow> string option" where
  "decodeArchiveId v = archive_text 512 True False v"

definition archive_cursor :: "js_value \<Rightarrow> string option" where
  "archive_cursor v = archive_text 4096 True False v"

definition archive_integer :: "int \<Rightarrow> js_value \<Rightarrow> int option" where
  "archive_integer maximum v = (case v of JInt i \<Rightarrow> if 0 \<le> i \<and> i \<le> int MAX_SAFE_INTEGER \<and> i \<le> maximum then Some i else None | _ \<Rightarrow> None)"

definition hex_text :: "string \<Rightarrow> bool" where
  "hex_text s \<longleftrightarrow> list_all (\<lambda>c. is_digit c \<or> c \<in> set ''abcdef'') s"

definition digest :: "js_value \<Rightarrow> string option" where
  "digest v = (case v of JStr s \<Rightarrow> if length s = 64 \<and> hex_text s then Some s else None | _ \<Rightarrow> None)"

definition operationId :: "js_value \<Rightarrow> string option" where
  "operationId v = (case v of JStr s \<Rightarrow>
     if map length (split_on (CHR ''-'') s) = [8, 4, 4, 4, 12] \<and> list_all hex_text (split_on (CHR ''-'') s) then Some s else None | _ \<Rightarrow> None)"

definition MAX_SEQ :: nat where "MAX_SEQ = 9223372036854775807"

definition decodeArchiveSequence :: "js_value \<Rightarrow> string option" where
  "decodeArchiveSequence v = (case v of JStr s \<Rightarrow>
     if (s = ''0'' \<or> (1 \<le> length s \<and> length s \<le> 19 \<and> hd s \<noteq> CHR ''0'' \<and> list_all is_digit s)) \<and> read_nat s \<le> MAX_SEQ then Some s else None
   | _ \<Rightarrow> None)"

definition timestamp_value :: "js_value \<Rightarrow> string option" where
  "timestamp_value v = (case v of JStr s \<Rightarrow> timestamp s | _ \<Rightarrow> None)"

definition time_ordered :: "string option \<Rightarrow> string option \<Rightarrow> bool" where
  "time_ordered a b = (case (a, b) of (Some x, Some y) \<Rightarrow> the (parse_millis x) \<le> the (parse_millis y) | _ \<Rightarrow> True)"

datatype SessionKind = Main | Subagent | PolicyApprover

fun sessionKindValue :: "SessionKind \<Rightarrow> string" where
  "sessionKindValue Main = ''main''"
| "sessionKindValue Subagent = ''subagent''"
| "sessionKindValue PolicyApprover = ''policy_approver''"

definition session_kind :: "js_value \<Rightarrow> SessionKind option" where
  "session_kind v = (if v = JStr ''main'' then Some Main else if v = JStr ''subagent'' then Some Subagent
     else if v = JStr ''policy_approver'' then Some PolicyApprover else None)"

section \<open>Bindings, revisions and metadata\<close>

record Binding =
  server_id :: string
  namespace_id :: string
  history_generation :: string

record Revision =
  rev_binding :: Binding
  seq :: string

datatype Condition = Absent | Exact_base_revision Revision

record SessionCounts =
  user_messages :: int
  assistant_messages :: int
  tool_calls :: int

record ArchiveMetadata =
  meta_kind :: "SessionKind option"
  root_session_id :: "string option"
  meta_title :: "string option"
  started_at :: "string option"
  last_activity_at :: "string option"
  meta_counts :: "SessionCounts option"
  meta_summary :: "string option"

definition MAX_ARCHIVE_BYTES :: int where "MAX_ARCHIVE_BYTES = 67108864"

definition decodeArchiveBinding :: "js_value \<Rightarrow> bool \<Rightarrow> Binding option" where
  "decodeArchiveBinding v strict = do {
     row \<leftarrow> object v [''server_id'', ''namespace_id'', ''history_generation''] strict;
     s \<leftarrow> decodeArchiveId (prop_of row ''server_id'');
     n \<leftarrow> decodeArchiveId (prop_of row ''namespace_id'');
     h \<leftarrow> decodeArchiveId (prop_of row ''history_generation'');
     Some \<lparr>server_id = s, namespace_id = n, history_generation = h\<rparr>
   }"

definition decodeArchiveRevision :: "js_value \<Rightarrow> bool \<Rightarrow> Revision option" where
  "decodeArchiveRevision v strict = do {
     row \<leftarrow> object v [''binding'', ''seq''] strict;
     s \<leftarrow> decodeArchiveSequence (prop_of row ''seq'');
     guard (s \<noteq> ''0'');
     b \<leftarrow> decodeArchiveBinding (prop_of row ''binding'') strict;
     Some \<lparr>rev_binding = b, seq = s\<rparr>
   }"

definition decodeCounts :: "bool \<Rightarrow> js_value \<Rightarrow> SessionCounts option" where
  "decodeCounts strict v = do {
     row \<leftarrow> object v [''user_messages'', ''assistant_messages'', ''tool_calls''] strict;
     u \<leftarrow> archive_integer (int MAX_SAFE_INTEGER) (prop_of row ''user_messages'');
     a \<leftarrow> archive_integer (int MAX_SAFE_INTEGER) (prop_of row ''assistant_messages'');
     t \<leftarrow> archive_integer (int MAX_SAFE_INTEGER) (prop_of row ''tool_calls'');
     Some \<lparr>user_messages = u, assistant_messages = a, tool_calls = t\<rparr>
   }"

text \<open>A typed value seen as a value of unknown type; properties that are absent are left out.\<close>

fun obj_of :: "(string \<times> js_value option) list \<Rightarrow> (string \<times> js_value) list" where
  "obj_of [] = []"
| "obj_of ((k, None) # ps) = obj_of ps"
| "obj_of ((k, Some v) # ps) = (k, v) # obj_of ps"

definition binding_value :: "Binding \<Rightarrow> js_value" where
  "binding_value b = JObj [(''server_id'', JStr (server_id b)), (''namespace_id'', JStr (namespace_id b)), (''history_generation'', JStr (history_generation b))]"

definition revision_value :: "Revision \<Rightarrow> js_value" where
  "revision_value r = JObj [(''binding'', binding_value (rev_binding r)), (''seq'', JStr (seq r))]"

definition counts_value :: "SessionCounts \<Rightarrow> js_value" where
  "counts_value c = JObj [(''user_messages'', JInt (user_messages c)), (''assistant_messages'', JInt (assistant_messages c)), (''tool_calls'', JInt (tool_calls c))]"

definition metadata_value :: "ArchiveMetadata \<Rightarrow> js_value" where
  "metadata_value m = JObj (obj_of [
     (''kind'', map_option (\<lambda>k. JStr (sessionKindValue k)) (meta_kind m)), (''root_session_id'', map_option JStr (root_session_id m)),
     (''title'', map_option JStr (meta_title m)), (''started_at'', map_option JStr (started_at m)),
     (''last_activity_at'', map_option JStr (last_activity_at m)), (''counts'', map_option counts_value (meta_counts m)),
     (''summary'', map_option JStr (meta_summary m))])"

definition nullable_metadata_value :: "ArchiveMetadata option \<Rightarrow> js_value" where
  "nullable_metadata_value m = (case m of None \<Rightarrow> JNull | Some x \<Rightarrow> metadata_value x)"

definition decodeArchiveMetadata :: "js_value \<Rightarrow> string \<Rightarrow> bool \<Rightarrow> ArchiveMetadata option" where
  "decodeArchiveMetadata v sessionId strict = do {
     row \<leftarrow> object v [''kind'', ''root_session_id'', ''title'', ''started_at'', ''last_activity_at'', ''counts'', ''summary''] strict;
     k \<leftarrow> opt_prop session_kind (prop_of row ''kind'');
     r \<leftarrow> opt_prop decodeArchiveId (prop_of row ''root_session_id'');
     t \<leftarrow> opt_prop (archive_text 256 True True) (prop_of row ''title'');
     s \<leftarrow> opt_prop timestamp_value (prop_of row ''started_at'');
     l \<leftarrow> opt_prop timestamp_value (prop_of row ''last_activity_at'');
     c \<leftarrow> opt_prop (decodeCounts strict) (prop_of row ''counts'');
     y \<leftarrow> opt_prop (archive_text 1024 False True) (prop_of row ''summary'');
     guard (k \<noteq> Some Main \<or> r = Some sessionId);
     guard (k \<noteq> Some Subagent \<and> k \<noteq> Some PolicyApprover \<or> (r \<noteq> None \<and> r \<noteq> Some sessionId));
     guard (time_ordered s l);
     let m = \<lparr>meta_kind = k, root_session_id = r, meta_title = t, started_at = s, last_activity_at = l, meta_counts = c, meta_summary = y\<rparr> in
     do { guard (byte_length (stringify (metadata_value m)) \<le> 2048); Some m }
   }"

definition sameArchiveBinding :: "Binding \<Rightarrow> Binding \<Rightarrow> bool" where
  "sameArchiveBinding l r \<longleftrightarrow> server_id l = server_id r \<and> namespace_id l = namespace_id r \<and> history_generation l = history_generation r"

section \<open>Publications\<close>

record Publication =
  pub_binding :: Binding
  pub_session_id :: string
  pub_operation_id :: string
  pub_condition :: Condition
  pub_byte_length :: int
  pub_sha256 :: string
  pub_metadata :: "ArchiveMetadata option"

definition decodeCondition :: "js_value \<Rightarrow> Binding \<Rightarrow> bool \<Rightarrow> Condition option" where
  "decodeCondition v binding strict = do {
     row \<leftarrow> object v [''kind'', ''revision''] False;
     if prop_of row ''kind'' = JStr ''absent'' then do { _ \<leftarrow> object v [''kind''] strict; Some Absent }
     else do {
       guard (prop_of row ''kind'' = JStr ''exact_base_revision'');
       _ \<leftarrow> object v [''kind'', ''revision''] strict;
       revision \<leftarrow> decodeArchiveRevision (prop_of row ''revision'') strict;
       guard (sameArchiveBinding binding (rev_binding revision));
       Some (Exact_base_revision revision)
     }
   }"

definition decodeArchivePublication :: "js_value \<Rightarrow> bool \<Rightarrow> Publication option" where
  "decodeArchivePublication v strict = do {
     row \<leftarrow> object v [''binding'', ''session_id'', ''operation_id'', ''condition'', ''byte_length'', ''sha256'', ''metadata''] strict;
     b \<leftarrow> decodeArchiveBinding (prop_of row ''binding'') strict;
     sid \<leftarrow> decodeArchiveId (prop_of row ''session_id'');
     oid \<leftarrow> operationId (prop_of row ''operation_id'');
     c \<leftarrow> decodeCondition (prop_of row ''condition'') b strict;
     len \<leftarrow> archive_integer MAX_ARCHIVE_BYTES (prop_of row ''byte_length'');
     sha \<leftarrow> digest (prop_of row ''sha256'');
     m \<leftarrow> opt_prop (\<lambda>x. decodeArchiveMetadata x sid strict) (prop_of row ''metadata'');
     Some \<lparr>pub_binding = b, pub_session_id = sid, pub_operation_id = oid, pub_condition = c, pub_byte_length = len, pub_sha256 = sha, pub_metadata = m\<rparr>
   }"

record Receipt =
  receipt_request :: Publication
  receipt_revision :: Revision

definition decodeArchiveReceipt :: "js_value \<Rightarrow> bool \<Rightarrow> Receipt option" where
  "decodeArchiveReceipt v strict = do {
     row \<leftarrow> object v [''request'', ''revision''] strict;
     request \<leftarrow> decodeArchivePublication (prop_of row ''request'') strict;
     revision \<leftarrow> decodeArchiveRevision (prop_of row ''revision'') strict;
     guard (sameArchiveBinding (pub_binding request) (rev_binding revision));
     guard (case pub_condition request of Absent \<Rightarrow> True | Exact_base_revision base \<Rightarrow> read_nat (seq base) < read_nat (seq revision));
     Some \<lparr>receipt_request = request, receipt_revision = revision\<rparr>
   }"

datatype 'r outcome = Accepted 'r | Unknown

definition decode_outcome :: "(js_value \<Rightarrow> 'r option) \<Rightarrow> js_value \<Rightarrow> 'r outcome option" where
  "decode_outcome decode v = do {
     row \<leftarrow> object v [] False;
     if prop_of row ''status'' = JStr ''unknown'' then Some Unknown
     else do { guard (prop_of row ''status'' = JStr ''accepted''); map_option Accepted (decode (prop_of row ''receipt'')) }
   }"

definition decodeArchiveReceiptOutcome :: "js_value \<Rightarrow> Receipt outcome option" where
  "decodeArchiveReceiptOutcome v = decode_outcome (\<lambda>x. decodeArchiveReceipt x False) v"

fun condition_value :: "Condition \<Rightarrow> js_value" where
  "condition_value Absent = JObj [(''kind'', JStr ''absent'')]"
| "condition_value (Exact_base_revision r) = JObj [(''kind'', JStr ''exact_base_revision''), (''revision'', revision_value r)]"

definition publication_value :: "Publication \<Rightarrow> js_value" where
  "publication_value p = JObj (obj_of [
     (''binding'', Some (binding_value (pub_binding p))), (''session_id'', Some (JStr (pub_session_id p))),
     (''operation_id'', Some (JStr (pub_operation_id p))), (''condition'', Some (condition_value (pub_condition p))),
     (''byte_length'', Some (JInt (pub_byte_length p))), (''sha256'', Some (JStr (pub_sha256 p))),
     (''metadata'', map_option metadata_value (pub_metadata p))])"

definition sameArchivePublication :: "Publication \<Rightarrow> Publication \<Rightarrow> bool option" where
  "sameArchivePublication l r = do {
     x \<leftarrow> decodeArchivePublication (publication_value l) True;
     y \<leftarrow> decodeArchivePublication (publication_value r) True;
     Some (stringify (publication_value x) = stringify (publication_value y))
   }"

section \<open>Sessions\<close>

text \<open>The metadata and the time of upload are absent, \<open>null\<close> (\<open>Some None\<close>) or given.\<close>

record SessionMetadata =
  session_id :: string
  session_revision :: Revision
  session_byte_length :: int
  session_sha256 :: string
  variant_id :: "string option"
  session_metadata :: "ArchiveMetadata option option"
  uploaded_at :: "string option option"

definition nullable :: "(js_value \<Rightarrow> 'a option) \<Rightarrow> js_value \<Rightarrow> 'a option option" where
  "nullable decode v = (if v = JNull then Some None else map_option Some (decode v))"

definition decodeArchiveSessionMetadata :: "js_value \<Rightarrow> bool \<Rightarrow> SessionMetadata option" where
  "decodeArchiveSessionMetadata v strict = do {
     row \<leftarrow> object v [''session_id'', ''revision'', ''byte_length'', ''sha256'', ''variant_id'', ''metadata'', ''uploaded_at''] strict;
     sid \<leftarrow> decodeArchiveId (prop_of row ''session_id'');
     rev \<leftarrow> decodeArchiveRevision (prop_of row ''revision'') strict;
     len \<leftarrow> archive_integer MAX_ARCHIVE_BYTES (prop_of row ''byte_length'');
     sha \<leftarrow> digest (prop_of row ''sha256'');
     var \<leftarrow> (if prop_of row ''variant_id'' = JUndefined then Some None else map_option Some (decodeArchiveId (prop_of row ''variant_id'')));
     guard ((prop_of row ''metadata'' \<noteq> JUndefined) = (prop_of row ''uploaded_at'' \<noteq> JUndefined));
     (m, u) \<leftarrow> (if prop_of row ''metadata'' = JUndefined then Some (None, None) else do {
       m \<leftarrow> nullable (\<lambda>x. decodeArchiveMetadata x sid strict) (prop_of row ''metadata'');
       u \<leftarrow> nullable timestamp_value (prop_of row ''uploaded_at'');
       Some (Some m, Some u) });
     Some \<lparr>session_id = sid, session_revision = rev, session_byte_length = len, session_sha256 = sha, variant_id = var,
       session_metadata = m, uploaded_at = u\<rparr>
   }"

definition decodeArchiveSession :: "js_value \<Rightarrow> bool \<Rightarrow> SessionMetadata option" where
  "decodeArchiveSession v strict = do {
     s \<leftarrow> decodeArchiveSessionMetadata v strict;
     Some (s\<lparr>session_metadata := Some (case session_metadata s of Some (Some m) \<Rightarrow> Some m | _ \<Rightarrow> None),
             uploaded_at := Some (case uploaded_at s of Some (Some u) \<Rightarrow> Some u | _ \<Rightarrow> None)\<rparr>)
   }"

section \<open>Preservation\<close>

record Uploaded_preservation =
  up_binding :: Binding
  up_session_id :: string
  up_operation_id :: string
  up_byte_length :: int
  up_sha256 :: string
  up_metadata :: "ArchiveMetadata option"

record Current_preservation =
  cur_binding :: Binding
  cur_session_id :: string
  cur_operation_id :: string
  cur_revision :: Revision

datatype Preservation = Uploaded Uploaded_preservation | Current Current_preservation

definition decodeArchivePreservation :: "js_value \<Rightarrow> bool \<Rightarrow> Preservation option" where
  "decodeArchivePreservation v strict = do {
     row \<leftarrow> object v [] False;
     if prop_of row ''mode'' = JStr ''uploaded'' then do {
       _ \<leftarrow> object v [''mode'', ''binding'', ''session_id'', ''operation_id'', ''byte_length'', ''sha256'', ''metadata''] strict;
       p \<leftarrow> decodeArchivePublication (JObj [(''binding'', prop_of row ''binding''), (''session_id'', prop_of row ''session_id''),
         (''operation_id'', prop_of row ''operation_id''), (''condition'', JObj [(''kind'', JStr ''absent'')]),
         (''byte_length'', prop_of row ''byte_length''), (''sha256'', prop_of row ''sha256''), (''metadata'', prop_of row ''metadata'')]) strict;
       Some (Uploaded \<lparr>up_binding = pub_binding p, up_session_id = pub_session_id p, up_operation_id = pub_operation_id p,
         up_byte_length = pub_byte_length p, up_sha256 = pub_sha256 p, up_metadata = pub_metadata p\<rparr>)
     } else do {
       guard (prop_of row ''mode'' = JStr ''current'');
       _ \<leftarrow> object v [''mode'', ''binding'', ''session_id'', ''operation_id'', ''revision''] strict;
       b \<leftarrow> decodeArchiveBinding (prop_of row ''binding'') strict;
       rev \<leftarrow> decodeArchiveRevision (prop_of row ''revision'') strict;
       guard (sameArchiveBinding b (rev_binding rev));
       sid \<leftarrow> decodeArchiveId (prop_of row ''session_id'');
       oid \<leftarrow> operationId (prop_of row ''operation_id'');
       Some (Current \<lparr>cur_binding = b, cur_session_id = sid, cur_operation_id = oid, cur_revision = rev\<rparr>)
     }
   }"

fun preservation_session :: "Preservation \<Rightarrow> string" where
  "preservation_session (Uploaded p) = up_session_id p"
| "preservation_session (Current p) = cur_session_id p"

fun preservation_binding :: "Preservation \<Rightarrow> Binding" where
  "preservation_binding (Uploaded p) = up_binding p"
| "preservation_binding (Current p) = cur_binding p"

fun preservation_value :: "Preservation \<Rightarrow> js_value" where
  "preservation_value (Uploaded p) = JObj (obj_of [(''mode'', Some (JStr ''uploaded'')),
     (''binding'', Some (binding_value (up_binding p))), (''session_id'', Some (JStr (up_session_id p))),
     (''operation_id'', Some (JStr (up_operation_id p))), (''byte_length'', Some (JInt (up_byte_length p))),
     (''sha256'', Some (JStr (up_sha256 p))), (''metadata'', map_option metadata_value (up_metadata p))])"
| "preservation_value (Current p) = JObj (obj_of [(''mode'', Some (JStr ''current'')),
     (''binding'', Some (binding_value (cur_binding p))), (''session_id'', Some (JStr (cur_session_id p))),
     (''operation_id'', Some (JStr (cur_operation_id p))), (''revision'', Some (revision_value (cur_revision p)))])"

definition sameArchivePreservation :: "Preservation \<Rightarrow> Preservation \<Rightarrow> bool option" where
  "sameArchivePreservation l r = do {
     x \<leftarrow> decodeArchivePreservation (preservation_value l) True;
     y \<leftarrow> decodeArchivePreservation (preservation_value r) True;
     Some (stringify (preservation_value x) = stringify (preservation_value y))
   }"

record PreservationReceipt =
  preserved_request :: Preservation
  preserved_variant :: SessionMetadata
  source_revision :: "Revision option"
  source_uploaded_at :: "string option option"

definition decodeArchivePreservationReceipt :: "js_value \<Rightarrow> bool \<Rightarrow> PreservationReceipt option" where
  "decodeArchivePreservationReceipt v strict = do {
     row \<leftarrow> object v [''request'', ''variant'', ''source_revision'', ''source_uploaded_at''] strict;
     request \<leftarrow> decodeArchivePreservation (prop_of row ''request'') strict;
     variantRow \<leftarrow> object (prop_of row ''variant'') [] False;
     guard (prop_of variantRow ''metadata'' \<noteq> JUndefined \<and> prop_of variantRow ''uploaded_at'' \<noteq> JUndefined);
     session \<leftarrow> decodeArchiveSession (prop_of row ''variant'') strict;
     guard (variant_id session \<noteq> None);
     guard (session_id session = preservation_session request \<and> sameArchiveBinding (rev_binding (session_revision session)) (preservation_binding request)
       \<and> uploaded_at session \<noteq> Some None);
     (case request of
        Current p \<Rightarrow> do {
          source \<leftarrow> decodeArchiveRevision (prop_of row ''source_revision'') strict;
          guard (sameArchiveBinding (rev_binding source) (cur_binding p) \<and> seq source = seq (cur_revision p));
          u \<leftarrow> nullable timestamp_value (prop_of row ''source_uploaded_at'');
          Some \<lparr>preserved_request = request, preserved_variant = session, source_revision = Some source, source_uploaded_at = Some u\<rparr>
        }
      | Uploaded p \<Rightarrow> do {
          guard (prop_of row ''source_revision'' = JUndefined \<and> prop_of row ''source_uploaded_at'' = JUndefined
            \<and> session_byte_length session = up_byte_length p \<and> session_sha256 session = up_sha256 p
            \<and> stringify (nullable_metadata_value (case session_metadata session of Some m \<Rightarrow> m | None \<Rightarrow> None))
              = stringify (nullable_metadata_value (up_metadata p)));
          Some \<lparr>preserved_request = request, preserved_variant = session, source_revision = None, source_uploaded_at = None\<rparr>
        })
   }"

definition decodeArchivePreservationReceiptOutcome :: "js_value \<Rightarrow> PreservationReceipt outcome option" where
  "decodeArchivePreservationReceiptOutcome v = decode_outcome (\<lambda>x. decodeArchivePreservationReceipt x False) v"

section \<open>Lists and bindings\<close>

record ListFilters =
  filter_session_id :: "string option"
  filter_kind :: "SessionKind option"
  filter_root_session_id :: "string option"
  started_from :: "string option"
  started_to :: "string option"
  activity_from :: "string option"
  activity_to :: "string option"

definition decodeArchiveListFilters :: "js_value \<Rightarrow> bool \<Rightarrow> ListFilters option" where
  "decodeArchiveListFilters v strict = do {
     row \<leftarrow> object v [''session_id'', ''kind'', ''root_session_id'', ''started_from'', ''started_to'', ''activity_from'', ''activity_to''] strict;
     sid \<leftarrow> opt_prop decodeArchiveId (prop_of row ''session_id'');
     k \<leftarrow> opt_prop session_kind (prop_of row ''kind'');
     r \<leftarrow> opt_prop decodeArchiveId (prop_of row ''root_session_id'');
     sf \<leftarrow> opt_prop timestamp_value (prop_of row ''started_from'');
     st \<leftarrow> opt_prop timestamp_value (prop_of row ''started_to'');
     af \<leftarrow> opt_prop timestamp_value (prop_of row ''activity_from'');
     at \<leftarrow> opt_prop timestamp_value (prop_of row ''activity_to'');
     guard (time_ordered sf st);
     guard (time_ordered af at);
     Some \<lparr>filter_session_id = sid, filter_kind = k, filter_root_session_id = r, started_from = sf, started_to = st, activity_from = af, activity_to = at\<rparr>
   }"

record ListParameters =
  list_filters :: "ListFilters option"
  list_cursor :: "string option option"
  list_limit :: int
  include_preserved :: bool

definition decodeArchiveListParameters :: "js_value \<Rightarrow> ListParameters option" where
  "decodeArchiveListParameters v = do {
     row \<leftarrow> object v [''filters'', ''cursor'', ''limit'', ''include_preserved''] True;
     n \<leftarrow> archive_integer 4294967295 (prop_of row ''limit'');
     guard (0 < n);
     f \<leftarrow> (if prop_of row ''filters'' = JUndefined then Some None else map_option Some (decodeArchiveListFilters (prop_of row ''filters'') True));
     c \<leftarrow> (if prop_of row ''cursor'' = JUndefined then Some None else map_option Some (nullable archive_cursor (prop_of row ''cursor'')));
     i \<leftarrow> (case prop_of row ''include_preserved'' of JUndefined \<Rightarrow> Some False | JBool b \<Rightarrow> Some b | _ \<Rightarrow> None);
     Some \<lparr>list_filters = f, list_cursor = c, list_limit = n, include_preserved = i\<rparr>
   }"

definition decodeArchiveListRequest :: "js_value \<Rightarrow> (Binding \<times> ListParameters) option" where
  "decodeArchiveListRequest v = do {
     row \<leftarrow> object v [''binding'', ''filters'', ''cursor'', ''limit'', ''include_preserved''] True;
     b \<leftarrow> decodeArchiveBinding (prop_of row ''binding'') True;
     p \<leftarrow> decodeArchiveListParameters (JObj [(''filters'', prop_of row ''filters''), (''cursor'', prop_of row ''cursor''),
       (''limit'', prop_of row ''limit''), (''include_preserved'', prop_of row ''include_preserved'')]);
     Some (b, p)
   }"

fun decode_all :: "(js_value \<Rightarrow> 'a option) \<Rightarrow> js_value list \<Rightarrow> 'a list option" where
  "decode_all decode [] = Some []"
| "decode_all decode (v # vs) = do { x \<leftarrow> decode v; xs \<leftarrow> decode_all decode vs; Some (x # xs) }"

fun check_sessions :: "Binding \<Rightarrow> bool \<Rightarrow> (string \<times> string option) list \<Rightarrow> SessionMetadata list \<Rightarrow> bool" where
  "check_sessions binding includePreserved ids [] = True"
| "check_sessions binding includePreserved ids (s # ss) = (sameArchiveBinding binding (rev_binding (session_revision s))
     \<and> (session_id s, variant_id s) \<notin> set ids \<and> (includePreserved \<or> variant_id s = None)
     \<and> check_sessions binding includePreserved ((session_id s, variant_id s) # ids) ss)"

record ListPage =
  page_binding :: Binding
  page_sessions :: "SessionMetadata list"
  next_cursor :: "string option"

definition decodeArchiveListPage :: "js_value \<Rightarrow> bool \<Rightarrow> ListPage option" where
  "decodeArchiveListPage v includePreserved = do {
     row \<leftarrow> object v [] False;
     b \<leftarrow> decodeArchiveBinding (prop_of row ''binding'') False;
     ss \<leftarrow> (case prop_of row ''sessions'' of JArr vs \<Rightarrow> decode_all (\<lambda>x. decodeArchiveSession x False) vs | _ \<Rightarrow> None);
     guard (check_sessions b includePreserved [] ss);
     c \<leftarrow> nullable archive_cursor (prop_of row ''next_cursor'');
     Some \<lparr>page_binding = b, page_sessions = ss, next_cursor = c\<rparr>
   }"

record BindingResponse =
  response_binding :: Binding
  response_head :: string
  capabilities :: "string list option"

definition decodeArchiveBindingResponse :: "js_value \<Rightarrow> BindingResponse option" where
  "decodeArchiveBindingResponse v = do {
     row \<leftarrow> object v [] False;
     b \<leftarrow> decodeArchiveBinding (prop_of row ''binding'') False;
     h \<leftarrow> decodeArchiveSequence (prop_of row ''head'');
     c \<leftarrow> (case prop_of row ''capabilities'' of JUndefined \<Rightarrow> Some None | JArr vs \<Rightarrow> map_option Some (decode_all (archive_text 512 True False) vs) | _ \<Rightarrow> None);
     Some \<lparr>response_binding = b, response_head = h, capabilities = c\<rparr>
   }"

end
