(* ===== verification/Archive_Protocol_Laws.thy ===== *)
theory Archive_Protocol_Laws
  imports Archive_Protocol
begin

text \<open>
  What decoding of the archive's wire types gives: a decoded value is decoded again from its own value, comparing JSON
  texts of decoded values is comparing the values, and receipts describe the request they answer.
\<close>

section \<open>JSON texts determine values\<close>

text \<open>A value without \<open>undefined\<close> and without fractions, as every decoded value is.\<close>

fun plain :: "js_value \<Rightarrow> bool" and plain_items :: "js_value list \<Rightarrow> bool" and plain_props :: "(string \<times> js_value) list \<Rightarrow> bool" where
  "plain JUndefined = False"
| "plain JNull = True"
| "plain (JBool b) = True"
| "plain (JInt i) = True"
| "plain (JFraction s) = False"
| "plain (JStr s) = True"
| "plain (JArr vs) = plain_items vs"
| "plain (JObj row) = plain_props row"
| "plain_items [] = True"
| "plain_items (v # vs) = (plain v \<and> plain_items vs)"
| "plain_props [] = True"
| "plain_props ((k, v) # row) = (plain v \<and> plain_props row)"

text \<open>What may stand behind a value.\<close>

definition closes :: "string \<Rightarrow> bool" where
  "closes r \<longleftrightarrow> r = [] \<or> hd r \<in> {CHR '','', CHR '']'', CHR ''}''}"

lemma closes_simps [simp]: "closes []" "closes (CHR '','' # r)" "closes (CHR '']'' # r)" "closes (CHR ''}'' # r)"
  by (auto simp: closes_def)

lemma hex_digit_inject:
  "m < 16 \<Longrightarrow> n < 16 \<Longrightarrow> (if m < 10 then char_of (48 + m) else char_of (87 + m) :: char) = (if n < 10 then char_of (48 + n) else char_of (87 + n)) \<longleftrightarrow> m = (n :: nat)"
  by (auto simp: char_of_eq_iff take_bit_eq_mod)

lemma hex_pair_inject:
  assumes "m < 256" "n < 256" "hex_pair m = hex_pair n"
  shows "m = n"
proof -
  have "m div 16 = n div 16" "m mod 16 = n mod 16"
    using assms hex_digit_inject [of "m div 16" "n div 16"] hex_digit_inject [of "m mod 16" "n mod 16"]
    by (simp_all add: hex_pair_def Let_def)
  then show ?thesis by (metis div_mult_mod_eq)
qed

lemma hex_pair_length: "\<exists>a b. hex_pair n = [a, b]"
  by (simp add: hex_pair_def Let_def)

lemma quote_char_prefix_free:
  assumes "quote_char c @ r = quote_char d @ u"
  shows "c = d \<and> r = u"
proof (cases "quote_char c = [c] \<or> quote_char d = [d]")
  case True
  with assms show ?thesis by (auto simp: quote_char_def split: if_splits)
next
  case False
  obtain a b a' b' where "hex_pair (of_char c) = [a, b]" "hex_pair (of_char d) = [a', b']"
    using hex_pair_length by metis
  moreover have "hex_pair (of_char c) = hex_pair (of_char d) \<Longrightarrow> c = d"
    using hex_pair_inject [of "of_char c" "of_char d"] by simp
  ultimately show ?thesis using False assms by (auto simp: quote_char_def split: if_splits)
qed

lemma quote_char_head: "\<exists>x xs. quote_char c = x # xs \<and> x \<noteq> CHR 0x22"
  by (simp add: quote_char_def)

lemma quoted_prefix_free:
  "concat (map quote_char s) @ CHR 0x22 # r = concat (map quote_char t) @ CHR 0x22 # u \<Longrightarrow> s = t \<and> r = u"
proof (induction s arbitrary: t)
  case Nil
  with quote_char_head show ?case by (cases t) (auto, metis append_Cons list.inject)
next
  case (Cons c s)
  obtain x xs where x: "quote_char c = x # xs" "x \<noteq> CHR 0x22" using quote_char_head by metis
  then obtain d t' where t: "t = d # t'" using Cons.prems by (cases t) auto
  then have "quote_char c @ concat (map quote_char s) @ CHR 0x22 # r = quote_char d @ concat (map quote_char t') @ CHR 0x22 # u"
    using Cons.prems by simp
  from quote_char_prefix_free [OF this] Cons.IH [of t'] t show ?case by simp
qed

lemma quote_prefix_free: "quote s @ r = quote t @ u \<Longrightarrow> s = t \<and> r = u"
  using quoted_prefix_free [of s r t u] by (simp add: quote_def)

lemma digits_prefix_free:
  "\<forall>c \<in> set s. is_digit c \<Longrightarrow> \<forall>c \<in> set t. is_digit c \<Longrightarrow> closes r \<Longrightarrow> closes u \<Longrightarrow> s @ r = t @ u \<Longrightarrow> s = t \<and> r = u"
proof (induction s arbitrary: t)
  case Nil
  then show ?case by (cases t) (auto simp: closes_def is_digit_def)
next
  case (Cons c s)
  then show ?case by (cases t) (auto simp: closes_def is_digit_def)
qed


text \<open>The list of items or properties with a comma in front of each.\<close>

definition commas :: "string list \<Rightarrow> string" where
  "commas xs = concat (map ((#) (CHR '','')) xs)"

lemma commas_simps [simp]: "commas [] = []" "commas (x # xs) = CHR '','' # x @ commas xs"
  by (simp_all add: commas_def)

lemma commas_join: "xs \<noteq> [] \<Longrightarrow> CHR '','' # join_with '','' xs = commas xs"
proof (induction "'',''" xs rule: join_with.induct)
  case (3 w v ws)
  then show ?case by (metis append_Cons append_assoc commas_simps(2) eq_Nil_appendI join_with.simps(3) list.distinct(1))
qed simp_all

lemma closes_commas [simp]: "closes (commas xs @ CHR '']'' # r)" "closes (commas xs @ CHR ''}'' # r)"
  by (cases xs; simp)+

lemma show_nat_head: "\<exists>c cs. show_nat n = c # cs \<and> is_digit c"
  using show_nat_nonempty show_nat_digits by (metis list.exhaust list.set_intros(1))

lemma stringify_head:
  "plain v \<Longrightarrow> \<exists>c cs. stringify v = c # cs \<and> c \<notin> {CHR '','', CHR '']'', CHR ''}''}"
  using show_nat_head [of "nat (case v of JInt i \<Rightarrow> i | _ \<Rightarrow> 0)"]
  by (cases v) (auto simp: quote_def is_digit_def)

lemma stringify_items_empty [simp]: "stringify_items vs = [] \<longleftrightarrow> vs = []"
  by (cases vs) auto

lemma plain_items_join: "plain_items (v # vs) \<Longrightarrow> \<exists>c cs. join_with '','' (stringify_items (v # vs)) = c # cs \<and> c \<noteq> CHR '']''"
  using stringify_head [of v] by (cases vs) auto

lemma plain_props_cons [simp]:
  "plain v \<Longrightarrow> stringify_props ((k, v) # row) = (quote k @ CHR '':'' # stringify v) # stringify_props row"
  by (cases v) auto

lemma plain_props_join: "plain_props (p # row) \<Longrightarrow> \<exists>cs. join_with '','' (stringify_props (p # row)) = CHR 0x22 # cs"
  by (cases p; cases "stringify_props row") (auto simp: quote_def)

lemma show_nat_prefix_free:
  "closes r \<Longrightarrow> closes u \<Longrightarrow> show_nat m @ r = show_nat n @ u \<Longrightarrow> m = n \<and> r = u"
  using digits_prefix_free [of "show_nat m" "show_nat n" r u] show_nat_digits by simp

lemma show_nat_no_minus: "show_nat m @ r \<noteq> CHR ''-'' # u"
proof -
  obtain c cs where c: "show_nat m = c # cs" "is_digit c" using show_nat_head by metis
  from c(2) have "c \<noteq> CHR ''-''" by (auto simp: is_digit_def)
  with c(1) show ?thesis by simp
qed

lemma int_text_prefix_free:
  assumes "closes r" "closes u" "stringify (JInt i) @ r = stringify (JInt j) @ u"
  shows "i = j \<and> r = u"
proof (cases "i < 0"; cases "j < 0")
  assume "i < 0" "j < 0"
  with assms show ?thesis using show_nat_prefix_free [of r u "nat (- i)" "nat (- j)"] by auto
next
  assume "i < 0" "\<not> j < 0"
  with assms show ?thesis using show_nat_no_minus [of "nat j" u "show_nat (nat (- i)) @ r"] by simp
next
  assume "\<not> i < 0" "j < 0"
  with assms show ?thesis using show_nat_no_minus [of "nat i" r "show_nat (nat (- j)) @ u"] by simp
next
  assume "\<not> i < 0" "\<not> j < 0"
  with assms show ?thesis using show_nat_prefix_free [of r u "nat i" "nat j"] by auto
qed

text \<open>The first character of the text tells the constructor.\<close>

definition shape_of_char :: "char \<Rightarrow> char" where
  "shape_of_char c = (if is_digit c \<or> c = CHR ''-'' then CHR ''0'' else if c = CHR ''f'' then CHR ''t'' else c)"

definition shape :: "js_value \<Rightarrow> char" where
  "shape v = (case v of JBool b \<Rightarrow> CHR ''t'' | JInt i \<Rightarrow> CHR ''0'' | JStr s \<Rightarrow> CHR 0x22 | JArr vs \<Rightarrow> CHR ''['' | JObj row \<Rightarrow> CHR ''{'' | _ \<Rightarrow> CHR ''n'')"

lemma stringify_shape: "plain v \<Longrightarrow> shape_of_char (hd (stringify v @ r)) = shape v"
  using show_nat_head [of "nat (case v of JInt i \<Rightarrow> i | _ \<Rightarrow> 0)"]
  by (cases v) (auto simp: quote_def is_digit_def shape_def shape_of_char_def)

lemma same_shape: "plain v \<Longrightarrow> plain w \<Longrightarrow> stringify v @ r = stringify w @ u \<Longrightarrow> shape v = shape w"
  by (metis stringify_shape)

lemma join_items_prefix_free:
  assumes "plain_items vs" "plain_items ws" "join_with '','' (stringify_items vs) @ CHR '']'' # r = join_with '','' (stringify_items ws) @ CHR '']'' # u"
  shows "commas (stringify_items vs) @ CHR '']'' # r = commas (stringify_items ws) @ CHR '']'' # u"
proof (cases vs; cases ws)
  fix v vs' w ws' assume "vs = v # vs'" "ws = w # ws'"
  then show ?thesis using assms(3) commas_join [of "stringify_items vs"] commas_join [of "stringify_items ws"]
    by (metis append_Cons list.distinct(1) stringify_items_empty)
next
  fix v vs' assume "vs = v # vs'" "ws = []"
  then show ?thesis using assms plain_items_join [of v vs'] by auto
next
  fix w ws' assume "vs = []" "ws = w # ws'"
  then show ?thesis using assms plain_items_join [of w ws'] by auto
next
  assume "vs = []" "ws = []"
  then show ?thesis using assms by simp
qed

lemma stringify_props_empty: "plain_props ps \<Longrightarrow> stringify_props ps = [] \<longleftrightarrow> ps = []"
  by (cases ps) (auto split: if_splits)

lemma join_props_prefix_free:
  assumes "plain_props ps" "plain_props qs" "join_with '','' (stringify_props ps) @ CHR ''}'' # r = join_with '','' (stringify_props qs) @ CHR ''}'' # u"
  shows "commas (stringify_props ps) @ CHR ''}'' # r = commas (stringify_props qs) @ CHR ''}'' # u"
proof (cases ps; cases qs)
  fix v vs' w ws' assume "ps = v # vs'" "qs = w # ws'"
  then show ?thesis using assms commas_join [of "stringify_props ps"] commas_join [of "stringify_props qs"]
      stringify_props_empty [of ps] stringify_props_empty [of qs] by (metis append_Cons list.distinct(1))
next
  fix v vs' assume "ps = v # vs'" "qs = []"
  then show ?thesis using assms plain_props_join [of v vs'] by auto
next
  fix w ws' assume "ps = []" "qs = w # ws'"
  then show ?thesis using assms plain_props_join [of w ws'] by auto
next
  assume "ps = []" "qs = []"
  then show ?thesis using assms by simp
qed

lemma stringify_prefix_free:
  "plain v \<Longrightarrow> plain w \<Longrightarrow> closes r \<Longrightarrow> closes u \<Longrightarrow> stringify v @ r = stringify w @ u \<Longrightarrow> v = w \<and> r = u"
  "plain_items vs \<Longrightarrow> plain_items ws \<Longrightarrow> commas (stringify_items vs) @ CHR '']'' # r = commas (stringify_items ws) @ CHR '']'' # u
     \<Longrightarrow> vs = ws \<and> r = u"
  "plain_props ps \<Longrightarrow> plain_props qs \<Longrightarrow> commas (stringify_props ps) @ CHR ''}'' # r = commas (stringify_props qs) @ CHR ''}'' # u
     \<Longrightarrow> ps = qs \<and> r = u"
proof (induction v and vs and ps arbitrary: w r u and ws r u and qs r u rule: plain_plain_items_plain_props.induct)
  case 2
  from same_shape [OF "2.prems"(1,2,5)] 2 show ?case by (cases w) (auto simp: shape_def)
next
  case (3 b)
  from same_shape [OF "3.prems"(1,2,5)] 3 show ?case by (cases w) (auto simp: shape_def split: if_splits)
next
  case (4 i)
  from same_shape [OF "4.prems"(1,2,5)] "4.prems"(2) obtain j where "w = JInt j" by (cases w) (auto simp: shape_def)
  with 4 int_text_prefix_free [of r u i j] show ?case by simp
next
  case (6 s)
  from same_shape [OF "6.prems"(1,2,5)] "6.prems"(2) obtain t where "w = JStr t" by (cases w) (auto simp: shape_def)
  with 6 quote_prefix_free [of s r t u] show ?case by simp
next
  case (7 vs)
  from same_shape [OF "7.prems"(1,2,5)] "7.prems"(2) obtain ws where w: "w = JArr ws" by (cases w) (auto simp: shape_def)
  with "7.prems" join_items_prefix_free [of vs ws r u] have "vs = ws \<and> r = u" by (intro "7.IH") simp_all
  with w show ?case by simp
next
  case (8 row)
  from same_shape [OF "8.prems"(1,2,5)] "8.prems"(2) obtain row' where w: "w = JObj row'" by (cases w) (auto simp: shape_def)
  with "8.prems" join_props_prefix_free [of row row' r u] have "row = row' \<and> r = u" by (intro "8.IH") simp_all
  with w show ?case by simp
next
  case 9
  then show ?case by (cases ws) auto
next
  case (10 v vs)
  then obtain w ws' where ws: "ws = w # ws'" by (cases ws) auto
  from "10.prems" show ?case
    using "10.IH"(1) [of w "commas (stringify_items vs) @ CHR '']'' # r" "commas (stringify_items ws') @ CHR '']'' # u"]
      "10.IH"(2) [of ws' r u] by (simp add: ws)
next
  case 11
  then show ?case by (cases qs) (auto split: if_splits)
next
  case (12 k v row)
  from "12.prems" obtain j w qs' where qs: "qs = (j, w) # qs'" by (cases qs) (auto split: if_splits)
  with "12.prems" have *: "quote k @ CHR '':'' # stringify v @ commas (stringify_props row) @ CHR ''}'' # r
      = quote j @ CHR '':'' # stringify w @ commas (stringify_props qs') @ CHR ''}'' # u" by (auto split: if_splits)
  from quote_prefix_free [OF *] "12.prems" qs show ?case
    using "12.IH"(1) [of w "commas (stringify_props row) @ CHR ''}'' # r" "commas (stringify_props qs') @ CHR ''}'' # u"]
      "12.IH"(2) [of qs' r u] by simp
qed simp_all

lemma stringify_inject: "plain v \<Longrightarrow> plain w \<Longrightarrow> stringify v = stringify w \<longleftrightarrow> v = w"
  using stringify_prefix_free(1) [of v w "[]" "[]"] by auto

section \<open>Decoding a typed value again\<close>

named_theorems decoded_again

lemma prop_of_obj_of:
  "distinct (map fst ps) \<Longrightarrow> prop_of (obj_of ps) k = (case map_of ps k of Some (Some v) \<Rightarrow> v | _ \<Rightarrow> JUndefined)"
proof (induction ps rule: obj_of.induct)
  case (2 j ps)
  have "map_of ps j = None" using 2 by (auto simp: map_of_eq_None_iff)
  with 2 show ?case by (cases "k = j") (auto simp: prop_of_def)
qed (simp_all add: prop_of_def)

lemma obj_of_keys: "(k, v) \<in> set (obj_of ps) \<Longrightarrow> k \<in> fst ` set ps"
  by (induction ps rule: obj_of.induct) auto

lemma object_obj_of [simp]: "fst ` set ps \<subseteq> set keys \<Longrightarrow> object (JObj (obj_of ps)) keys strict = Some (obj_of ps)"
  using obj_of_keys by (fastforce simp: object_def list_all_iff)

lemma object_JObj [simp]: "fst ` set row \<subseteq> set keys \<Longrightarrow> object (JObj row) keys strict = Some row"
  by (fastforce simp: object_def list_all_iff)

lemma object_lenient [simp]: "object (JObj row) keys False = Some row"
  by (simp add: object_def)

lemma opt_prop_again:
  assumes "opt_prop f v = Some x" "\<And>y. f v = Some y \<Longrightarrow> f' (g y) = Some y" "\<And>y. present (g y)"
  shows "opt_prop f' (case map_option g x of None \<Rightarrow> JUndefined | Some w \<Rightarrow> w) = Some x"
  using assms by (auto simp: opt_prop_def present_def split: if_splits)

lemma present_simps [simp]: "\<not> present JUndefined" "\<not> present JNull" "present (JStr s)" "present (JInt i)" "present (JObj row)"
  by (simp_all add: present_def)

lemma guard_True [simp]: "b \<Longrightarrow> guard b = Some ()"
  by (simp add: guard_def)

lemma guard_conv [simp]: "guard b = Some x \<longleftrightarrow> b"
  by (simp add: guard_def)

lemma present_counts [simp]: "present (counts_value c)"
  by (simp add: counts_value_def)

lemma archive_text_again [decoded_again]: "archive_text n c b v = Some s \<Longrightarrow> archive_text n c b (JStr s) = Some s"
  by (auto simp: archive_text_def split: js_value.splits if_splits)

lemma decodeArchiveId_again [decoded_again]: "decodeArchiveId v = Some s \<Longrightarrow> decodeArchiveId (JStr s) = Some s"
  by (simp add: decodeArchiveId_def archive_text_again)

lemma archive_cursor_again [decoded_again]: "archive_cursor v = Some s \<Longrightarrow> archive_cursor (JStr s) = Some s"
  by (simp add: archive_cursor_def archive_text_again)

lemma archive_integer_again [decoded_again]: "archive_integer n v = Some i \<Longrightarrow> archive_integer n (JInt i) = Some i"
  by (auto simp: archive_integer_def split: js_value.splits if_splits)

lemma digest_again [decoded_again]: "digest v = Some s \<Longrightarrow> digest (JStr s) = Some s"
  by (auto simp: digest_def split: js_value.splits if_splits)

lemma operationId_again [decoded_again]: "operationId v = Some s \<Longrightarrow> operationId (JStr s) = Some s"
  by (auto simp: operationId_def split: js_value.splits if_splits)

lemma decodeArchiveSequence_again [decoded_again]: "decodeArchiveSequence v = Some s \<Longrightarrow> decodeArchiveSequence (JStr s) = Some s"
  by (auto simp: decodeArchiveSequence_def split: js_value.splits if_splits)

lemma timestamp_value_again [decoded_again]: "timestamp_value v = Some s \<Longrightarrow> timestamp_value (JStr s) = Some s"
  using timestamp_canonical by (auto simp: timestamp_value_def split: js_value.splits)

lemma session_kind_again [decoded_again]: "session_kind (JStr (sessionKindValue k)) = Some k"
  by (cases k) (simp_all add: session_kind_def)

lemma decodeArchiveBinding_again [decoded_again]: "decodeArchiveBinding v strict = Some b \<Longrightarrow> decodeArchiveBinding (binding_value b) True = Some b"
  by (auto simp: decodeArchiveBinding_def binding_value_def prop_of_def bind_eq_Some_conv decoded_again)

lemma decodeArchiveRevision_again [decoded_again]: "decodeArchiveRevision v strict = Some r \<Longrightarrow> decodeArchiveRevision (revision_value r) True = Some r"
  by (auto simp: decodeArchiveRevision_def revision_value_def prop_of_def bind_eq_Some_conv decoded_again)

lemma decodeCounts_again [decoded_again]: "decodeCounts strict v = Some c \<Longrightarrow> decodeCounts True (counts_value c) = Some c"
  by (auto simp: decodeCounts_def counts_value_def prop_of_def bind_eq_Some_conv decoded_again)

lemma decodeArchiveMetadata_again [decoded_again]:
  assumes "decodeArchiveMetadata v sid strict = Some m"
  shows "decodeArchiveMetadata (metadata_value m) sid True = Some m"
proof -
  obtain row k r t s l c y where row:
    "opt_prop session_kind (prop_of row ''kind'') = Some k" "opt_prop decodeArchiveId (prop_of row ''root_session_id'') = Some r"
    "opt_prop (archive_text 256 True True) (prop_of row ''title'') = Some t" "opt_prop timestamp_value (prop_of row ''started_at'') = Some s"
    "opt_prop timestamp_value (prop_of row ''last_activity_at'') = Some l" "opt_prop (decodeCounts strict) (prop_of row ''counts'') = Some c"
    "opt_prop (archive_text 1024 False True) (prop_of row ''summary'') = Some y"
    and g: "k \<noteq> Some Main \<or> r = Some sid" "k \<noteq> Some Subagent \<and> k \<noteq> Some PolicyApprover \<or> (r \<noteq> None \<and> r \<noteq> Some sid)" "time_ordered s l"
    and m: "\<lparr>meta_kind = k, root_session_id = r, meta_title = t, started_at = s, last_activity_at = l, meta_counts = c, meta_summary = y\<rparr> = m"
    and b: "byte_length (stringify (metadata_value m)) \<le> 2048"
    using assms unfolding decodeArchiveMetadata_def bind_eq_Some_conv Let_def guard_conv
    by (elim exE conjE) (rule that; (assumption | simp))
  note again = row(1) [THEN opt_prop_again [where g = "\<lambda>k. JStr (sessionKindValue k)"], OF session_kind_again]
    row(2) [THEN opt_prop_again, OF decodeArchiveId_again] row(3) [THEN opt_prop_again, OF archive_text_again]
    row(4,5) [THEN opt_prop_again, OF timestamp_value_again] row(6) [THEN opt_prop_again, OF decodeCounts_again]
    row(7) [THEN opt_prop_again, OF archive_text_again]
  show ?thesis using g b unfolding m [symmetric]
    by (simp add: decodeArchiveMetadata_def metadata_value_def prop_of_obj_of again Let_def del: stringify.simps case_map_option)
qed


lemma sameArchiveBinding_iff [simp]: "sameArchiveBinding a b \<longleftrightarrow> a = b"
  by (auto simp: sameArchiveBinding_def)

lemma decodeCondition_again [decoded_again]:
  assumes "decodeCondition v b strict = Some c"
  shows "decodeCondition (condition_value c) b True = Some c"
proof (cases c)
  case Absent
  then show ?thesis by (simp add: decodeCondition_def prop_of_def)
next
  case (Exact_base_revision r)
  with assms obtain w where "decodeArchiveRevision w strict = Some r" "b = rev_binding r"
    by (auto simp: decodeCondition_def bind_eq_Some_conv split: if_splits)
  then show ?thesis by (simp add: Exact_base_revision decodeCondition_def prop_of_def decodeArchiveRevision_again)
qed

lemma present_metadata [simp]: "present (metadata_value m)"
  by (simp add: metadata_value_def)

text \<open>Every part of a decoded publication is decoded again from its value.\<close>

lemma publication_parts:
  assumes "decodeArchivePublication v strict = Some p"
  shows "decodeArchiveBinding (binding_value (pub_binding p)) True = Some (pub_binding p)"
    "decodeArchiveId (JStr (pub_session_id p)) = Some (pub_session_id p)"
    "operationId (JStr (pub_operation_id p)) = Some (pub_operation_id p)"
    "decodeCondition (condition_value (pub_condition p)) (pub_binding p) True = Some (pub_condition p)"
    "archive_integer MAX_ARCHIVE_BYTES (JInt (pub_byte_length p)) = Some (pub_byte_length p)"
    "digest (JStr (pub_sha256 p)) = Some (pub_sha256 p)"
    "opt_prop (\<lambda>x. decodeArchiveMetadata x (pub_session_id p) True) (case map_option metadata_value (pub_metadata p) of None \<Rightarrow> JUndefined | Some x \<Rightarrow> x)
       = Some (pub_metadata p)"
proof -
  obtain row b sid oid c len sha m where row:
    "decodeArchiveBinding (prop_of row ''binding'') strict = Some b" "decodeArchiveId (prop_of row ''session_id'') = Some sid"
    "operationId (prop_of row ''operation_id'') = Some oid" "decodeCondition (prop_of row ''condition'') b strict = Some c"
    "archive_integer MAX_ARCHIVE_BYTES (prop_of row ''byte_length'') = Some len" "digest (prop_of row ''sha256'') = Some sha"
    "opt_prop (\<lambda>x. decodeArchiveMetadata x sid strict) (prop_of row ''metadata'') = Some m"
    and p: "p = \<lparr>pub_binding = b, pub_session_id = sid, pub_operation_id = oid, pub_condition = c, pub_byte_length = len, pub_sha256 = sha, pub_metadata = m\<rparr>"
    using assms by (auto simp: decodeArchivePublication_def bind_eq_Some_conv)
  note again = row(1) [THEN decodeArchiveBinding_again] row(2) [THEN decodeArchiveId_again] row(3) [THEN operationId_again]
      row(4) [THEN decodeCondition_again] row(5) [THEN archive_integer_again] row(6) [THEN digest_again]
      row(7) [THEN opt_prop_again, OF decodeArchiveMetadata_again]
  show "decodeArchiveBinding (binding_value (pub_binding p)) True = Some (pub_binding p)"
    "decodeArchiveId (JStr (pub_session_id p)) = Some (pub_session_id p)"
    "operationId (JStr (pub_operation_id p)) = Some (pub_operation_id p)"
    "decodeCondition (condition_value (pub_condition p)) (pub_binding p) True = Some (pub_condition p)"
    "archive_integer MAX_ARCHIVE_BYTES (JInt (pub_byte_length p)) = Some (pub_byte_length p)"
    "digest (JStr (pub_sha256 p)) = Some (pub_sha256 p)"
    "opt_prop (\<lambda>x. decodeArchiveMetadata x (pub_session_id p) True) (case map_option metadata_value (pub_metadata p) of None \<Rightarrow> JUndefined | Some x \<Rightarrow> x)
       = Some (pub_metadata p)"
    by (simp_all add: p again del: case_map_option)
qed

lemma decodeArchivePublication_again [decoded_again]:
  assumes "decodeArchivePublication v strict = Some p"
  shows "decodeArchivePublication (publication_value p) True = Some p"
  using publication_parts [OF assms]
  by (simp add: decodeArchivePublication_def publication_value_def prop_of_obj_of del: case_map_option obj_of.simps)

lemma decodeArchivePreservation_again [decoded_again]:
  assumes "decodeArchivePreservation v strict = Some p"
  shows "decodeArchivePreservation (preservation_value p) True = Some p"
proof (cases p)
  case (Uploaded u)
  with assms obtain w q where q: "decodeArchivePublication w strict = Some q"
    and u: "u = \<lparr>up_binding = pub_binding q, up_session_id = pub_session_id q, up_operation_id = pub_operation_id q,
         up_byte_length = pub_byte_length q, up_sha256 = pub_sha256 q, up_metadata = pub_metadata q\<rparr>"
    by (auto simp: decodeArchivePreservation_def bind_eq_Some_conv split: if_splits)
  have "decodeCondition (JObj [(''kind'', JStr ''absent'')]) (pub_binding q) True = Some Absent"
    by (simp add: decodeCondition_def prop_of_def)
  then have "decodeArchivePublication (JObj [(''binding'', binding_value (pub_binding q)), (''session_id'', JStr (pub_session_id q)),
       (''operation_id'', JStr (pub_operation_id q)), (''condition'', JObj [(''kind'', JStr ''absent'')]),
       (''byte_length'', JInt (pub_byte_length q)), (''sha256'', JStr (pub_sha256 q)),
       (''metadata'', case map_option metadata_value (pub_metadata q) of None \<Rightarrow> JUndefined | Some x \<Rightarrow> x)]) True = Some (q\<lparr>pub_condition := Absent\<rparr>)"
    using publication_parts [OF q] by (simp add: decodeArchivePublication_def prop_of_def del: case_map_option)
  then show ?thesis
    by (simp add: Uploaded u decodeArchivePreservation_def prop_of_obj_of del: case_map_option obj_of.simps)
next
  case (Current c)
  with assms obtain row b rev sid oid where "decodeArchiveBinding (prop_of row ''binding'') strict = Some b"
    "decodeArchiveRevision (prop_of row ''revision'') strict = Some rev" "b = rev_binding rev"
    "decodeArchiveId (prop_of row ''session_id'') = Some sid" "operationId (prop_of row ''operation_id'') = Some oid"
    "c = \<lparr>cur_binding = b, cur_session_id = sid, cur_operation_id = oid, cur_revision = rev\<rparr>"
    by (auto simp: decodeArchivePreservation_def bind_eq_Some_conv split: if_splits)
  then show ?thesis
    by (simp add: Current decodeArchivePreservation_def prop_of_def decodeArchiveBinding_again decodeArchiveRevision_again
      decodeArchiveId_again operationId_again)
qed

lemma plain_obj_of: "list_all (\<lambda>(k, x). pred_option plain x) ps \<Longrightarrow> plain_props (obj_of ps)"
  by (induction ps rule: obj_of.induct) auto

lemma plain_binding [simp]: "plain (binding_value b)"
  by (simp add: binding_value_def)

lemma plain_revision [simp]: "plain (revision_value r)"
  by (simp add: revision_value_def)

lemma plain_counts [simp]: "plain (counts_value c)"
  by (simp add: counts_value_def)

lemma plain_metadata [simp]: "plain (metadata_value m)"
  by (simp add: metadata_value_def plain_obj_of option.pred_map comp_def option.pred_True del: obj_of.simps)

lemma plain_condition [simp]: "plain (condition_value c)"
  by (cases c) simp_all

lemma plain_publication [simp]: "plain (publication_value p)"
  by (simp add: publication_value_def plain_obj_of option.pred_map comp_def option.pred_True del: obj_of.simps)

lemma plain_preservation [simp]: "plain (preservation_value p)"
  by (cases p) (simp_all add: plain_obj_of option.pred_map comp_def option.pred_True del: obj_of.simps)

lemma plain_nullable_metadata [simp]: "plain (nullable_metadata_value m)"
  by (cases m) (simp_all add: nullable_metadata_value_def)

text \<open>C34: Comparing two decoded publications by their JSON texts never throws and is exactly equality of the requests:
  decoding again gives the same request (properties in a fixed order, canonical times), and no two requests share a text.\<close>

theorem sameArchivePublication_iff_equal:
  assumes "decodeArchivePublication v strict = Some p" "decodeArchivePublication w strict' = Some q"
  shows "sameArchivePublication p q = Some (p = q)"
proof -
  note p = decodeArchivePublication_again [OF assms(1)] and q = decodeArchivePublication_again [OF assms(2)]
  then have "publication_value p = publication_value q \<longleftrightarrow> p = q" by (metis option.inject)
  with p q show ?thesis by (simp add: sameArchivePublication_def stringify_inject)
qed

definition example_publication :: js_value where
  "example_publication = JObj [(''sha256'', JStr (replicate 64 (CHR ''a''))), (''session_id'', JStr ''s1''), (''condition'', JObj [(''kind'', JStr ''absent'')]),
     (''binding'', JObj [(''namespace_id'', JStr ''n''), (''server_id'', JStr ''s''), (''history_generation'', JStr ''g'')]),
     (''byte_length'', JInt 5), (''operation_id'', JStr ''01234567-89ab-cdef-0123-456789abcdef''),
     (''metadata'', JObj [(''started_at'', JStr ''2024-02-29t01:00:00+01:00''), (''title'', JNull)])]"

definition example_decoded :: Publication where
  "example_decoded = \<lparr>pub_binding = \<lparr>server_id = ''s'', namespace_id = ''n'', history_generation = ''g''\<rparr>, pub_session_id = ''s1'',
     pub_operation_id = ''01234567-89ab-cdef-0123-456789abcdef'', pub_condition = Absent, pub_byte_length = 5, pub_sha256 = replicate 64 (CHR ''a''),
     pub_metadata = Some \<lparr>meta_kind = None, root_session_id = None, meta_title = None, started_at = Some ''2024-02-29T00:00:00.000Z'',
       last_activity_at = None, meta_counts = None, meta_summary = None\<rparr>\<rparr>"

lemma example_decodes: "decodeArchivePublication example_publication False = Some example_decoded"
  by code_simp

theorem sameArchivePublication_iff_equal_witness: "sameArchivePublication example_decoded example_decoded = Some True"
  using sameArchivePublication_iff_equal [OF example_decodes example_decodes] by simp

lemma sameArchivePreservation_iff_equal:
  assumes "decodeArchivePreservation v strict = Some p" "decodeArchivePreservation w strict' = Some q"
  shows "sameArchivePreservation p q = Some (p = q)"
proof -
  note p = decodeArchivePreservation_again [OF assms(1)] and q = decodeArchivePreservation_again [OF assms(2)]
  then have "preservation_value p = preservation_value q \<longleftrightarrow> p = q" by (metis option.inject)
  with p q show ?thesis by (simp add: sameArchivePreservation_def stringify_inject)
qed

section \<open>Metadata compared by its text\<close>

definition canonical_metadata :: "string \<Rightarrow> ArchiveMetadata \<Rightarrow> bool" where
  "canonical_metadata sid m \<longleftrightarrow> decodeArchiveMetadata (metadata_value m) sid True = Some m"

lemma decodeArchiveMetadata_canonical: "decodeArchiveMetadata v sid strict = Some m \<Longrightarrow> canonical_metadata sid m"
  by (simp add: canonical_metadata_def decodeArchiveMetadata_again)

lemma canonical_metadata_inject: "canonical_metadata sid m \<Longrightarrow> canonical_metadata sid n \<Longrightarrow> metadata_value m = metadata_value n \<longleftrightarrow> m = n"
  by (metis canonical_metadata_def option.inject)

lemma nullable_metadata_inject:
  "nullable_metadata_value None = nullable_metadata_value (Some m) \<longleftrightarrow> False" "nullable_metadata_value (Some m) = nullable_metadata_value None \<longleftrightarrow> False"
  "nullable_metadata_value (Some m) = nullable_metadata_value (Some n) \<longleftrightarrow> metadata_value m = metadata_value n"
  by (simp_all add: nullable_metadata_value_def metadata_value_def)

lemma nullable_metadata_text:
  assumes "pred_option (canonical_metadata sid) m" "pred_option (canonical_metadata sid) n"
  shows "stringify (nullable_metadata_value m) = stringify (nullable_metadata_value n) \<longleftrightarrow> m = n"
  using assms canonical_metadata_inject
  by (cases m; cases n) (auto simp: nullable_metadata_inject stringify_inject)

section \<open>Receipts and pages\<close>

lemma opt_metadata_canonical:
  "opt_prop (\<lambda>x. decodeArchiveMetadata x sid strict) v = Some m \<Longrightarrow> pred_option (canonical_metadata sid) m"
  by (auto simp: opt_prop_def decodeArchiveMetadata_canonical split: if_splits)

lemma nullable_metadata_canonical:
  "nullable (\<lambda>x. decodeArchiveMetadata x sid strict) v = Some m \<Longrightarrow> pred_option (canonical_metadata sid) m"
  by (auto simp: nullable_def decodeArchiveMetadata_canonical split: if_splits)

lemma publication_metadata_canonical:
  assumes "decodeArchivePublication v strict = Some p"
  shows "pred_option (canonical_metadata (pub_session_id p)) (pub_metadata p)"
  using assms opt_metadata_canonical by (auto simp: decodeArchivePublication_def bind_eq_Some_conv)

lemma session_metadata_canonical:
  assumes "decodeArchiveSessionMetadata v strict = Some s" "session_metadata s = Some m"
  shows "pred_option (canonical_metadata (session_id s)) m"
proof -
  from assms obtain w where "nullable (\<lambda>x. decodeArchiveMetadata x (session_id s) strict) w = Some m"
    by (auto simp: decodeArchiveSessionMetadata_def bind_eq_Some_conv split: if_splits)
  then show ?thesis by (rule nullable_metadata_canonical)
qed

lemma uploaded_metadata_canonical:
  assumes "decodeArchivePreservation v strict = Some (Uploaded p)"
  shows "pred_option (canonical_metadata (up_session_id p)) (up_metadata p)"
proof -
  from assms obtain w q where q: "decodeArchivePublication w strict = Some q"
    and "up_session_id p = pub_session_id q" "up_metadata p = pub_metadata q"
    by (auto simp: decodeArchivePreservation_def bind_eq_Some_conv split: if_splits)
  with publication_metadata_canonical [OF q] show ?thesis by simp
qed

lemma decodeArchiveSession_conv:
  assumes "decodeArchiveSession v strict = Some s"
  shows "\<exists>m u. session_metadata s = Some m \<and> uploaded_at s = Some u \<and> pred_option (canonical_metadata (session_id s)) m"
proof -
  from assms obtain t where t: "decodeArchiveSessionMetadata v strict = Some t"
    and s: "s = t\<lparr>session_metadata := Some (case session_metadata t of Some (Some m) \<Rightarrow> Some m | _ \<Rightarrow> None),
             uploaded_at := Some (case uploaded_at t of Some (Some u) \<Rightarrow> Some u | _ \<Rightarrow> None)\<rparr>"
    by (auto simp: decodeArchiveSession_def bind_eq_Some_conv)
  from session_metadata_canonical [OF t] show ?thesis
    by (cases "session_metadata t") (auto simp: s split: option.splits)
qed

text \<open>What an accepted preservation says about the request it answers.\<close>

definition receipt_answers :: "PreservationReceipt \<Rightarrow> bool" where
  "receipt_answers r = (let s = preserved_variant r in
     session_id s = preservation_session (preserved_request r) \<and> rev_binding (session_revision s) = preservation_binding (preserved_request r)
     \<and> variant_id s \<noteq> None \<and> (case uploaded_at s of Some (Some _) \<Rightarrow> True | _ \<Rightarrow> False)
     \<and> (case preserved_request r of
          Uploaded p \<Rightarrow> session_byte_length s = up_byte_length p \<and> session_sha256 s = up_sha256 p \<and> session_metadata s = Some (up_metadata p) \<and> source_revision r = None
        | Current p \<Rightarrow> source_revision r = Some (cur_revision p)))"

lemma receipt_answers_request:
  assumes "decodeArchivePreservationReceipt v strict = Some r"
  shows "receipt_answers r"
proof -
  obtain row w session where request: "decodeArchivePreservation (prop_of row ''request'') strict = Some (preserved_request r)"
    and session: "decodeArchiveSession w strict = Some (preserved_variant r)"
    and var: "variant_id (preserved_variant r) \<noteq> None"
    and same: "session_id (preserved_variant r) = preservation_session (preserved_request r)"
      "rev_binding (session_revision (preserved_variant r)) = preservation_binding (preserved_request r)"
      "uploaded_at (preserved_variant r) \<noteq> Some None"
    and rest: "case preserved_request r of
        Current p \<Rightarrow> \<exists>source. source_revision r = Some source \<and> rev_binding source = cur_binding p \<and> seq source = seq (cur_revision p)
      | Uploaded p \<Rightarrow> source_revision r = None \<and> session_byte_length (preserved_variant r) = up_byte_length p \<and> session_sha256 (preserved_variant r) = up_sha256 p
            \<and> stringify (nullable_metadata_value (case session_metadata (preserved_variant r) of Some m \<Rightarrow> m | None \<Rightarrow> None))
              = stringify (nullable_metadata_value (up_metadata p))"
    using assms unfolding decodeArchivePreservationReceipt_def bind_eq_Some_conv
    apply (elim exE conjE)
    subgoal for row request by (cases request) (auto simp: bind_eq_Some_conv)
    done
  from decodeArchiveSession_conv [OF session] obtain m u where
    s: "session_metadata (preserved_variant r) = Some m" "uploaded_at (preserved_variant r) = Some u"
      "pred_option (canonical_metadata (session_id (preserved_variant r))) m" by blast
  show ?thesis
  proof (cases "preserved_request r")
    case (Uploaded p)
    with uploaded_metadata_canonical request have "pred_option (canonical_metadata (up_session_id p)) (up_metadata p)" by metis
    with nullable_metadata_text [of "up_session_id p" m "up_metadata p"] s Uploaded rest same have "m = up_metadata p" by simp
    with s var same rest Uploaded show ?thesis by (auto simp: receipt_answers_def Let_def split: option.splits)
  next
    case (Current p)
    with request have "cur_binding p = rev_binding (cur_revision p)"
      by (auto simp: decodeArchivePreservation_def bind_eq_Some_conv split: if_splits)
    with s var same rest Current show ?thesis by (auto simp: receipt_answers_def Let_def split: option.splits)
  qed
qed

text \<open>A page lists no session twice, only of the history it names, and preserved variants only where they were asked for.\<close>

definition fits_page :: "Binding \<Rightarrow> bool \<Rightarrow> SessionMetadata \<Rightarrow> bool" where
  "fits_page b preserved s \<longleftrightarrow> rev_binding (session_revision s) = b \<and> (preserved \<or> variant_id s = None)"

lemma check_sessions_conv:
  "check_sessions b preserved ids ss \<longleftrightarrow> distinct (map (\<lambda>s. (session_id s, variant_id s)) ss)
     \<and> set (map (\<lambda>s. (session_id s, variant_id s)) ss) \<inter> set ids = {} \<and> list_all (fits_page b preserved) ss"
proof (induction ss arbitrary: ids)
  case (Cons s ss)
  have "check_sessions b preserved ids (s # ss) \<longleftrightarrow> fits_page b preserved s \<and> (session_id s, variant_id s) \<notin> set ids
      \<and> check_sessions b preserved ((session_id s, variant_id s) # ids) ss"
    by (auto simp: fits_page_def)
  then show ?case unfolding Cons.IH by auto
qed simp

lemma list_page_sessions:
  assumes "decodeArchiveListPage v preserved = Some page"
  shows "distinct (map (\<lambda>s. (session_id s, variant_id s)) (page_sessions page)) \<and> list_all (fits_page (page_binding page) preserved) (page_sessions page)"
  using assms by (auto simp: decodeArchiveListPage_def bind_eq_Some_conv check_sessions_conv)

lemma receipt_advances:
  assumes "decodeArchiveReceipt v strict = Some r" "pub_condition (receipt_request r) = Exact_base_revision base"
  shows "rev_binding (receipt_revision r) = rev_binding base \<and> read_nat (seq base) < read_nat (seq (receipt_revision r))"
  using assms
  by (auto simp: decodeArchiveReceipt_def decodeArchivePublication_def decodeCondition_def bind_eq_Some_conv split: if_splits)

end
