(* ===== verification/Archive_Identity.thy ===== *)
theory Archive_Identity
  imports Archive_Protocol_Laws Policy_Scope
begin

text \<open>
  Who a session is: the identity its records establish, \<open>src/src/sessions/SessionIdentity.ts\<close>, and the identity and scope
  that are written into a departure descriptor, \<open>src/src/server/ArchiveSourceScope.ts\<close>.
\<close>

section \<open>Identity from records\<close>

definition isNativeSessionId :: "string \<Rightarrow> bool" where
  "isNativeSessionId s \<longleftrightarrow> 0 < length s \<and> byte_length s \<le> 512 \<and> \<not> list_ex control_char s"

definition native_id :: "js_value \<Rightarrow> string option" where
  "native_id v = (case v of JStr s \<Rightarrow> if isNativeSessionId s then Some s else None | _ \<Rightarrow> None)"

record BoundSessionIdentity =
  bound_kind :: SessionKind
  bound_root :: "string option"
  bound_parent :: "string option"

record SessionIdentity =
  identity_session :: string
  legacyKind :: "SessionKind option"
  legacyParent :: "string option"
  boundIdentity :: "BoundSessionIdentity option"
  conflict :: bool

definition new_SessionIdentity :: "string \<Rightarrow> SessionIdentity" where
  "new_SessionIdentity s = \<lparr>identity_session = s,
     legacyKind = (if prefix ''policy-approver-'' s then Some PolicyApprover else if prefix ''subagent-'' s then Some Subagent else None),
     legacyParent = None, boundIdentity = None, conflict = False\<rparr>"

definition si_childKind :: "SessionIdentity \<Rightarrow> SessionKind option" where
  "si_childKind i = (case boundIdentity i of Some b \<Rightarrow> if bound_kind b = Main then None else Some (bound_kind b) | None \<Rightarrow> legacyKind i)"

definition si_parent :: "SessionIdentity \<Rightarrow> string option" where
  "si_parent i = (case boundIdentity i of Some b \<Rightarrow> bound_parent b | None \<Rightarrow> legacyParent i)"

definition si_root :: "SessionIdentity \<Rightarrow> string option" where
  "si_root i = (case boundIdentity i of Some b \<Rightarrow> bound_root b | None \<Rightarrow> None)"

text \<open>The identity a record claims; \<open>None\<close> for one that is not well formed.\<close>

definition claimed_identity :: "string \<Rightarrow> string \<Rightarrow> (string \<times> js_value) list \<Rightarrow> BoundSessionIdentity option" where
  "claimed_identity sid customType data = (
     if prop_of data ''version'' = JInt 1 \<and> customType = ''pilot.archive'' \<and> prop_of data ''kind'' = JStr ''main'' \<and> prop_of data ''rootSessionId'' = JStr sid
     then Some \<lparr>bound_kind = Main, bound_root = Some sid, bound_parent = None\<rparr>
     else if prop_of data ''version'' = JInt 1 \<and> customType = ''pilot.subagent'' \<and> prop_of data ''kind'' \<in> {JStr ''subagent'', JStr ''policy_approver''}
       \<and> native_id (prop_of data ''parentAgentIdentifier'') \<notin> {None, Some sid}
       \<and> (prop_of data ''rootSessionId'' = JUndefined \<or> native_id (prop_of data ''rootSessionId'') \<notin> {None, Some sid})
     then Some \<lparr>bound_kind = (if prop_of data ''kind'' = JStr ''subagent'' then Subagent else PolicyApprover),
       bound_root = native_id (prop_of data ''rootSessionId''), bound_parent = native_id (prop_of data ''parentAgentIdentifier'')\<rparr>
     else None)"

definition applyRecord :: "SessionIdentity \<Rightarrow> string \<times> js_value \<Rightarrow> SessionIdentity" where
  "applyRecord i r = (case r of (customType, JObj data) \<Rightarrow>
     if customType \<noteq> ''pilot.subagent'' \<and> customType \<noteq> ''pilot.archive'' then i
     else if prop_of data ''sessionId'' = JUndefined then
       (case native_id (prop_of data ''parentAgentIdentifier'') of
          Some p \<Rightarrow> if customType = ''pilot.subagent'' \<and> si_childKind i \<noteq> None \<and> boundIdentity i = None
            then i\<lparr>legacyParent := Some p, conflict := (conflict i \<or> (si_parent i \<noteq> None \<and> si_parent i \<noteq> Some p))\<rparr> else i
        | None \<Rightarrow> i)
     else if prop_of data ''sessionId'' \<noteq> JStr (identity_session i) then i
     else (case claimed_identity (identity_session i) customType data of
         None \<Rightarrow> i\<lparr>conflict := True\<rparr>
       | Some b \<Rightarrow> i\<lparr>boundIdentity := Some b, conflict := (conflict i \<or> (boundIdentity i \<noteq> None \<and> boundIdentity i \<noteq> Some b))\<rparr>)
   | _ \<Rightarrow> i)"

text \<open>\<open>fromManager\<close> on the custom entries of a session.\<close>

definition fromManager :: "string \<Rightarrow> (string \<times> js_value) list \<Rightarrow> SessionIdentity" where
  "fromManager sid entries = foldl applyRecord (new_SessionIdentity sid) entries"

definition recordMainSessionIdentity :: "string \<Rightarrow> (string \<times> js_value) list \<Rightarrow> (string \<times> js_value) list" where
  "recordMainSessionIdentity sid entries = (let i = fromManager sid entries in
     if \<not> isNativeSessionId sid \<or> si_childKind i \<noteq> None \<or> boundIdentity i \<noteq> None \<or> conflict i then entries
     else entries @ [(''pilot.archive'', JObj [(''version'', JInt 1), (''sessionId'', JStr sid), (''kind'', JStr ''main''), (''rootSessionId'', JStr sid)])])"

definition recordChildSessionIdentity :: "string \<Rightarrow> string \<Rightarrow> string option \<Rightarrow> SessionKind option \<Rightarrow> (string \<times> js_value) list \<Rightarrow> (string \<times> js_value) list" where
  "recordChildSessionIdentity sid parent root kind entries = entries @ [(''pilot.subagent'', JObj [(''version'', JInt 1), (''sessionId'', JStr sid),
     (''parentAgentIdentifier'', JStr parent), (''rootSessionId'', case root of None \<Rightarrow> JUndefined | Some r \<Rightarrow> JStr r),
     (''kind'', JStr (sessionKindValue (case kind of None \<Rightarrow> Subagent | Some k \<Rightarrow> k)))])]"

definition getSessionRootId :: "string \<Rightarrow> (string \<times> js_value) list \<Rightarrow> string option" where
  "getSessionRootId sid entries = (let i = fromManager sid entries in
     if \<not> isNativeSessionId sid \<or> conflict i then None
     else case boundIdentity i of Some b \<Rightarrow> bound_root b | None \<Rightarrow> if si_childKind i \<noteq> None then None else Some sid)"

section \<open>Identity and scope of a source\<close>

record ArchiveSourceIdentity =
  sessionId :: string
  main :: bool
  childKind :: "SessionKind option"
  parentAgentIdentifier :: "string option"
  rootSessionId :: "string option"
  identityConflict :: bool

definition captureArchiveSourceIdentity :: "SessionIdentity \<Rightarrow> ArchiveSourceIdentity" where
  "captureArchiveSourceIdentity i = \<lparr>sessionId = identity_session i,
     main = (case boundIdentity i of Some b \<Rightarrow> bound_kind b = Main | None \<Rightarrow> False),
     childKind = si_childKind i, parentAgentIdentifier = si_parent i, rootSessionId = si_root i, identityConflict = conflict i\<rparr>"

definition defined :: "(js_value \<Rightarrow> 'a option) \<Rightarrow> js_value \<Rightarrow> 'a option option" where
  "defined decode v = (if v = JUndefined then Some None else map_option Some (decode v))"

definition child_kind :: "js_value \<Rightarrow> SessionKind option" where
  "child_kind v = (if v = JStr ''subagent'' then Some Subagent else if v = JStr ''policy_approver'' then Some PolicyApprover else None)"

definition js_bool :: "js_value \<Rightarrow> bool option" where
  "js_bool v = (case v of JBool b \<Rightarrow> Some b | _ \<Rightarrow> None)"

definition decodeArchiveSourceIdentity :: "js_value \<Rightarrow> ArchiveSourceIdentity option" where
  "decodeArchiveSourceIdentity v = do {
     row \<leftarrow> object v [] False;
     s \<leftarrow> native_id (prop_of row ''sessionId'');
     m \<leftarrow> js_bool (prop_of row ''main'');
     c \<leftarrow> js_bool (prop_of row ''identityConflict'');
     k \<leftarrow> defined child_kind (prop_of row ''childKind'');
     p \<leftarrow> defined native_id (prop_of row ''parentAgentIdentifier'');
     r \<leftarrow> defined native_id (prop_of row ''rootSessionId'');
     guard (\<not> (m \<and> (k \<noteq> None \<or> p \<noteq> None \<or> r \<noteq> Some s)));
     guard (\<not> (\<not> m \<and> k = None \<and> (r \<noteq> None \<or> p \<noteq> None)));
     guard (\<not> (k \<noteq> None \<and> r \<noteq> None \<and> (r = Some s \<or> p = None \<or> p = Some s)));
     Some \<lparr>sessionId = s, main = m, childKind = k, parentAgentIdentifier = p, rootSessionId = r, identityConflict = c\<rparr>
   }"

definition identity_value :: "ArchiveSourceIdentity \<Rightarrow> js_value" where
  "identity_value i = JObj (obj_of [(''sessionId'', Some (JStr (sessionId i))), (''main'', Some (JBool (main i))),
     (''identityConflict'', Some (JBool (identityConflict i))), (''childKind'', map_option (\<lambda>k. JStr (sessionKindValue k)) (childKind i)),
     (''parentAgentIdentifier'', map_option JStr (parentAgentIdentifier i)), (''rootSessionId'', map_option JStr (rootSessionId i))])"

definition knownRoot :: "ArchiveSourceIdentity \<Rightarrow> string option" where
  "knownRoot i = (if identityConflict i then None else case rootSessionId i of Some r \<Rightarrow> Some r
     | None \<Rightarrow> if childKind i \<noteq> None then None else Some (sessionId i))"

text \<open>\<open>path.resolve\<close> of an absolute path does not read the working directory.\<close>

definition resolved_path :: "string \<Rightarrow> bool" where
  "resolved_path s \<longleftrightarrow> CHR 0x00 \<notin> set s \<and> path_isAbsolute s \<and> abs_path (normalizeString s False) = s"

definition isAbsolutePath :: "js_value \<Rightarrow> string option" where
  "isAbsolutePath v = (case v of JStr s \<Rightarrow> if resolved_path s then Some s else None | _ \<Rightarrow> None)"

datatype ScopeKind = Scope_current | Scope_all

record ArchiveSourceScope =
  scope_kind :: ScopeKind
  activeSession :: ArchiveSourceIdentity
  sessionFile :: "string option"
  sessionDirectory :: string
  scope_root :: "string option"
  scope_parentSession :: "string option"
  defaultSessionRoots :: "string list"

definition js_text :: "js_value \<Rightarrow> string option" where
  "js_text v = (case v of JStr s \<Rightarrow> Some s | _ \<Rightarrow> None)"

definition decodeArchiveSourceScope :: "js_value \<Rightarrow> ArchiveSourceScope option" where
  "decodeArchiveSourceScope v = do {
     row \<leftarrow> object v [] False;
     guard (prop_of row ''version'' = JInt 1);
     guard (prop_of row ''scope'' = JStr ''current'' \<or> prop_of row ''scope'' = JStr ''all'');
     d \<leftarrow> isAbsolutePath (prop_of row ''sessionDirectory'');
     f \<leftarrow> defined isAbsolutePath (prop_of row ''sessionFile'');
     rs \<leftarrow> (case prop_of row ''defaultSessionRoots'' of JArr vs \<Rightarrow> decode_all isAbsolutePath vs | _ \<Rightarrow> None);
     guard (rs \<noteq> []);
     r \<leftarrow> defined native_id (prop_of row ''rootSessionId'');
     p \<leftarrow> defined js_text (prop_of row ''parentSession'');
     a \<leftarrow> decodeArchiveSourceIdentity (prop_of row ''activeSession'');
     guard (r = knownRoot a);
     Some \<lparr>scope_kind = (if prop_of row ''scope'' = JStr ''all'' then Scope_all else Scope_current), activeSession = a, sessionFile = f,
       sessionDirectory = d, scope_root = r, scope_parentSession = p, defaultSessionRoots = rs\<rparr>
   }"

section \<open>What records establish is what a descriptor carries\<close>

text \<open>What every sequence of records keeps: a child names a parent and possibly a root other than itself, the main session
  is its own root.\<close>

definition bound_wf :: "string \<Rightarrow> BoundSessionIdentity \<Rightarrow> bool" where
  "bound_wf sid b = (if bound_kind b = Main then bound_root b = Some sid \<and> bound_parent b = None
     else (case bound_parent b of None \<Rightarrow> False | Some p \<Rightarrow> isNativeSessionId p \<and> p \<noteq> sid)
       \<and> (case bound_root b of None \<Rightarrow> True | Some r \<Rightarrow> isNativeSessionId r \<and> r \<noteq> sid))"

definition identity_wf :: "SessionIdentity \<Rightarrow> bool" where
  "identity_wf i \<longleftrightarrow> legacyKind i \<noteq> Some Main \<and> (legacyKind i = None \<longrightarrow> legacyParent i = None) \<and> pred_option isNativeSessionId (legacyParent i)
     \<and> pred_option (bound_wf (identity_session i)) (boundIdentity i)"

lemma native_id_native: "native_id v = Some s \<Longrightarrow> isNativeSessionId s"
  by (auto simp: native_id_def split: js_value.splits if_splits)

lemma native_id_other: "native_id v \<notin> {None, Some sid} \<Longrightarrow> case native_id v of None \<Rightarrow> False | Some p \<Rightarrow> isNativeSessionId p \<and> p \<noteq> sid"
  using native_id_native by (cases "native_id v") auto

lemma if_if_Some: "(if A then Some x else if B then Some y else None) = Some b \<Longrightarrow> A \<and> b = x \<or> B \<and> b = y"
  by (simp split: if_splits)

lemma claimed_bound_wf:
  assumes "claimed_identity sid t data = Some b"
  shows "bound_wf sid b"
  using if_if_Some [OF assms [unfolded claimed_identity_def]]
proof (elim disjE conjE)
  assume "native_id (prop_of data ''parentAgentIdentifier'') \<notin> {None, Some sid}" "prop_of data ''rootSessionId'' = JUndefined"
    "b = \<lparr>bound_kind = (if prop_of data ''kind'' = JStr ''subagent'' then Subagent else PolicyApprover),
       bound_root = native_id (prop_of data ''rootSessionId''), bound_parent = native_id (prop_of data ''parentAgentIdentifier'')\<rparr>"
  with native_id_other [of "prop_of data ''parentAgentIdentifier''" sid] show ?thesis by (simp add: bound_wf_def native_id_def)
next
  assume "native_id (prop_of data ''parentAgentIdentifier'') \<notin> {None, Some sid}" "native_id (prop_of data ''rootSessionId'') \<notin> {None, Some sid}"
    "b = \<lparr>bound_kind = (if prop_of data ''kind'' = JStr ''subagent'' then Subagent else PolicyApprover),
       bound_root = native_id (prop_of data ''rootSessionId''), bound_parent = native_id (prop_of data ''parentAgentIdentifier'')\<rparr>"
  with native_id_other [of "prop_of data ''parentAgentIdentifier''" sid] native_id_other [of "prop_of data ''rootSessionId''" sid] show ?thesis
    by (cases "native_id (prop_of data ''rootSessionId'')") (simp_all add: bound_wf_def)
qed (simp add: bound_wf_def)

lemma legacy_record_wf:
  "identity_wf i \<Longrightarrow> si_childKind i \<noteq> None \<Longrightarrow> boundIdentity i = None \<Longrightarrow> isNativeSessionId p \<Longrightarrow> identity_wf (i\<lparr>legacyParent := Some p, conflict := c\<rparr>)"
  by (auto simp: identity_wf_def si_childKind_def)

lemma bound_record_wf: "identity_wf i \<Longrightarrow> bound_wf (identity_session i) b \<Longrightarrow> identity_wf (i\<lparr>boundIdentity := Some b, conflict := c\<rparr>)"
  by (simp add: identity_wf_def)

lemma conflict_wf: "identity_wf i \<Longrightarrow> identity_wf (i\<lparr>conflict := c\<rparr>)"
  by (simp add: identity_wf_def)

lemma applyRecord_object:
  "applyRecord i (t, JObj data) = (
     if t \<noteq> ''pilot.subagent'' \<and> t \<noteq> ''pilot.archive'' then i
     else if prop_of data ''sessionId'' = JUndefined then
       (case native_id (prop_of data ''parentAgentIdentifier'') of
          Some p \<Rightarrow> if t = ''pilot.subagent'' \<and> si_childKind i \<noteq> None \<and> boundIdentity i = None
            then i\<lparr>legacyParent := Some p, conflict := (conflict i \<or> (si_parent i \<noteq> None \<and> si_parent i \<noteq> Some p))\<rparr> else i
        | None \<Rightarrow> i)
     else if prop_of data ''sessionId'' \<noteq> JStr (identity_session i) then i
     else (case claimed_identity (identity_session i) t data of
         None \<Rightarrow> i\<lparr>conflict := True\<rparr>
       | Some b \<Rightarrow> i\<lparr>boundIdentity := Some b, conflict := (conflict i \<or> (boundIdentity i \<noteq> None \<and> boundIdentity i \<noteq> Some b))\<rparr>))"
  by (simp only: applyRecord_def prod.case js_value.case)

lemma applyRecord_wf:
  assumes "identity_wf i"
  shows "identity_wf (applyRecord i r)"
proof (cases "\<exists>t data. r = (t, JObj data)")
  case True
  then obtain t data where r: "r = (t, JObj data)" by blast
  have legacy: "identity_wf (case native_id (prop_of data ''parentAgentIdentifier'') of
          Some p \<Rightarrow> if t = ''pilot.subagent'' \<and> si_childKind i \<noteq> None \<and> boundIdentity i = None
            then i\<lparr>legacyParent := Some p, conflict := c p\<rparr> else i | None \<Rightarrow> i)" for c
    using assms legacy_record_wf [OF assms] native_id_native [of "prop_of data ''parentAgentIdentifier''"]
    by (cases "native_id (prop_of data ''parentAgentIdentifier'')") auto
  have bound: "identity_wf (case claimed_identity (identity_session i) t data of
         None \<Rightarrow> i\<lparr>conflict := True\<rparr> | Some b \<Rightarrow> i\<lparr>boundIdentity := Some b, conflict := c b\<rparr>)" for c
    using conflict_wf [OF assms] bound_record_wf [OF assms] claimed_bound_wf [of "identity_session i" t data]
    by (cases "claimed_identity (identity_session i) t data") auto
  show ?thesis unfolding r applyRecord_object using assms legacy bound by (simp only: split: if_split) blast
next
  case False
  then have "applyRecord i r = i" by (auto simp: applyRecord_def split: prod.split js_value.split)
  with assms show ?thesis by simp
qed

lemma fromManager_wf: "identity_wf (fromManager sid entries)"
proof -
  have "identity_wf i \<Longrightarrow> identity_wf (foldl applyRecord i entries)" for i
    by (induction entries arbitrary: i) (simp_all add: applyRecord_wf)
  moreover have "identity_wf (new_SessionIdentity sid)" by (simp add: identity_wf_def new_SessionIdentity_def)
  ultimately show ?thesis by (simp add: fromManager_def)
qed

lemma applyRecord_session [simp]: "identity_session (applyRecord i r) = identity_session i"
  by (simp add: applyRecord_def split: prod.split js_value.split option.split)

lemma fromManager_session [simp]: "identity_session (fromManager sid entries) = sid"
proof -
  have "identity_session (foldl applyRecord i entries) = identity_session i" for i
    by (induction entries arbitrary: i) simp_all
  then show ?thesis by (simp add: fromManager_def new_SessionIdentity_def)
qed

lemma native_id_JStr [simp]: "native_id (JStr s) = (if isNativeSessionId s then Some s else None)"
  by (simp add: native_id_def)

lemma child_kind_value: "k \<noteq> Main \<Longrightarrow> child_kind (JStr (sessionKindValue k)) = Some k"
  by (cases k) (simp_all add: child_kind_def)

text \<open>What a descriptor can carry.\<close>

definition source_identity_wf :: "ArchiveSourceIdentity \<Rightarrow> bool" where
  "source_identity_wf i \<longleftrightarrow> isNativeSessionId (sessionId i) \<and> childKind i \<noteq> Some Main
     \<and> pred_option isNativeSessionId (parentAgentIdentifier i) \<and> pred_option isNativeSessionId (rootSessionId i)
     \<and> (if main i then childKind i = None \<and> parentAgentIdentifier i = None \<and> rootSessionId i = Some (sessionId i)
        else childKind i = None \<longrightarrow> rootSessionId i = None \<and> parentAgentIdentifier i = None)
     \<and> (childKind i \<noteq> None \<and> rootSessionId i \<noteq> None \<longrightarrow> rootSessionId i \<noteq> Some (sessionId i) \<and> parentAgentIdentifier i \<noteq> None
        \<and> parentAgentIdentifier i \<noteq> Some (sessionId i))"

lemma defined_simps [simp]:
  "defined decode JUndefined = Some None" "v \<noteq> JUndefined \<Longrightarrow> defined decode v = map_option Some (decode v)"
  by (simp_all add: defined_def)

lemma decode_identity_value:
  assumes "source_identity_wf i"
  shows "decodeArchiveSourceIdentity (identity_value i) = Some i"
proof (cases "childKind i"; cases "parentAgentIdentifier i"; cases "rootSessionId i"; cases "main i")
qed (use assms in \<open>auto simp: decodeArchiveSourceIdentity_def identity_value_def prop_of_def js_bool_def source_identity_wf_def child_kind_value\<close>)

lemma captured_identity_wf:
  assumes "isNativeSessionId (identity_session i)" "identity_wf i"
  shows "source_identity_wf (captureArchiveSourceIdentity i)"
proof (cases "boundIdentity i")
  case None
  with assms show ?thesis
    by (auto simp: source_identity_wf_def captureArchiveSourceIdentity_def identity_wf_def si_childKind_def si_parent_def si_root_def)
next
  case (Some b)
  with assms have "bound_wf (identity_session i) b" by (simp add: identity_wf_def)
  with Some assms(1) show ?thesis
    by (auto simp: source_identity_wf_def captureArchiveSourceIdentity_def si_childKind_def si_parent_def si_root_def bound_wf_def
      split: if_splits option.splits)
qed

text \<open>C40: Whatever records a session has, the identity captured from them is accepted when a descriptor is read back, and is
  read back unchanged; the root it asserts is the root of the active session that the program reports.\<close>

theorem captured_identity_roundtrip:
  fixes entries :: "(string \<times> js_value) list"
  assumes "isNativeSessionId sid" and i: "i = captureArchiveSourceIdentity (fromManager sid entries)"
  shows "decodeArchiveSourceIdentity (identity_value i) = Some i \<and> knownRoot i = getSessionRootId sid entries"
proof
  show "decodeArchiveSourceIdentity (identity_value i) = Some i"
    using captured_identity_wf [OF _ fromManager_wf] assms(1) by (simp add: i decode_identity_value)
  show "knownRoot i = getSessionRootId sid entries"
    using assms(1) fromManager_wf [of sid entries]
    by (auto simp: i knownRoot_def getSessionRootId_def captureArchiveSourceIdentity_def si_root_def si_childKind_def Let_def
      identity_wf_def bound_wf_def split: option.splits if_splits)
qed

definition example_entries :: "(string \<times> js_value) list" where
  "example_entries = recordChildSessionIdentity ''subagent-1'' ''s1'' (Some ''s1'') None []"

theorem captured_identity_roundtrip_witness:
  "knownRoot (captureArchiveSourceIdentity (fromManager ''subagent-1'' example_entries)) = Some ''s1''"
proof -
  have "isNativeSessionId ''subagent-1''" "getSessionRootId ''subagent-1'' example_entries = Some ''s1''" by code_simp+
  with captured_identity_roundtrip [of "''subagent-1''" _ example_entries] show ?thesis by simp
qed

end
