(* ===== verification/Archive_Ancestry.thy ===== *)
theory Archive_Ancestry
  imports Archive_Identity
begin

text \<open>
  The family of a session, \<open>src/src/server/ArchiveSessions.ts\<close>, with the files that discovery owns,
  \<open>src/src/server/ArchiveDiscovery.ts\<close>.  The set of files and the set of session identifiers that an answer depends on
  are lists without repetition.  The theory shows that the walk to the root ends, and that an answer depends on
  nothing but the evidence of those files and sessions.
\<close>

section \<open>Evidence and ownership\<close>

record ArchiveSourceEvidence =
  evidence_file :: string
  evidence_parent :: "string option"
  evidence_session :: ArchiveSourceIdentity

definition decodeArchiveSourceEvidence :: "js_value \<Rightarrow> ArchiveSourceEvidence option" where
  "decodeArchiveSourceEvidence v = do {
     row \<leftarrow> object v [] False;
     f \<leftarrow> isAbsolutePath (prop_of row ''file'');
     p \<leftarrow> defined (\<lambda>x. case x of JStr s \<Rightarrow> if byte_length s \<le> 4096 then Some s else None | _ \<Rightarrow> None) (prop_of row ''parentSession'');
     i \<leftarrow> decodeArchiveSourceIdentity (prop_of row ''session'');
     Some \<lparr>evidence_file = f, evidence_parent = p, evidence_session = i\<rparr>
   }"

datatype FrameKind = Collection | Files

definition ownsDirectory :: "ArchiveSourceScope \<Rightarrow> string \<Rightarrow> FrameKind \<Rightarrow> bool" where
  "ownsDirectory source directory kind = (case kind of
     Collection \<Rightarrow> scope_kind source = Scope_all \<and> directory \<in> set (defaultSessionRoots source)
   | Files \<Rightarrow> (sessionFile source \<noteq> None \<and> directory = sessionDirectory source)
       \<or> (scope_kind source = Scope_all \<and> path_dirname directory \<in> set (defaultSessionRoots source)))"

definition ownsFile :: "ArchiveSourceScope \<Rightarrow> string \<Rightarrow> bool" where
  "ownsFile source file \<longleftrightarrow> resolved_path file
     \<and> (sessionFile source = Some file \<or> (suffix ''.jsonl'' file \<and> ownsDirectory source (path_dirname file) Files))"

section \<open>The walk to the root\<close>

record Dependencies =
  dep_files :: "string list"
  dep_sessions :: "string list"

definition add_file :: "string \<Rightarrow> Dependencies \<Rightarrow> Dependencies" where
  "add_file f d = (if f = [] then d else d\<lparr>dep_files := List.insert f (dep_files d)\<rparr>)"

definition add_session :: "string \<Rightarrow> Dependencies \<Rightarrow> Dependencies" where
  "add_session s d = d\<lparr>dep_sessions := List.insert s (dep_sessions d)\<rparr>"

record Family =
  family_kind :: SessionKind
  family_root :: string

type_synonym catalog = "(string \<times> ArchiveSourceEvidence) list"

definition byId :: "catalog \<Rightarrow> string \<Rightarrow> ArchiveSourceEvidence list" where
  "byId cat s = filter (\<lambda>e. sessionId (evidence_session e) = s) (map snd cat)"

text \<open>\<open>path.resolve (path.dirname (file), parent)\<close>\<close>

definition parent_path :: "string \<Rightarrow> ArchiveSourceEvidence \<Rightarrow> string option" where
  "parent_path wd e = (case evidence_parent e of None \<Rightarrow> None | Some p \<Rightarrow> if p = [] then None else
     Some (let base = path_dirname (evidence_file e) in
       abs_path (normalizeString (if path_isAbsolute p then p else if path_isAbsolute base then base @ ''/'' @ p else wd @ ''/'' @ base @ ''/'' @ p) False)))"

text \<open>One round of the loop: the family, or the entry the walk continues with, and what the round read.\<close>

datatype walk = Done "Family option" | Continue ArchiveSourceEvidence

definition header_step :: "ArchiveSourceScope \<Rightarrow> string \<Rightarrow> catalog \<Rightarrow> string option \<Rightarrow> SessionKind \<Rightarrow> ArchiveSourceEvidence \<Rightarrow> Dependencies \<Rightarrow> walk \<times> Dependencies" where
  "header_step source wd cat activeRoot kind cursor deps = (let
     parentId = parentAgentIdentifier (evidence_session cursor);
     parent = (case evidence_parent cursor of Some p \<Rightarrow> p | None \<Rightarrow> []);
     deps = (if isNativeSessionId parent then add_session parent deps else deps);
     headers = (if parent = [] then [] else byId cat parent) in
     if length headers = 1 \<and> (parentId = None \<or> parentId = Some (sessionId (evidence_session (hd headers)))) then (Continue (hd headers), deps)
     else let linksToActive = (parentId = Some (sessionId (activeSession source))
         \<or> (parent_path wd cursor = sessionFile source \<and> parentId = None)) in
       (case activeRoot of
          Some r \<Rightarrow> if linksToActive \<and> length headers \<le> 1 then (Done (Some \<lparr>family_kind = kind, family_root = r\<rparr>), deps) else (Done None, deps)
        | None \<Rightarrow> (Done None, deps)))"

definition id_step :: "ArchiveSourceScope \<Rightarrow> string \<Rightarrow> catalog \<Rightarrow> string option \<Rightarrow> SessionKind \<Rightarrow> ArchiveSourceEvidence \<Rightarrow> Dependencies \<Rightarrow> walk \<times> Dependencies" where
  "id_step source wd cat activeRoot kind cursor deps = (let
     parentId = parentAgentIdentifier (evidence_session cursor);
     deps = (case parentId of None \<Rightarrow> deps | Some p \<Rightarrow> add_session p deps);
     candidates = (case parentId of None \<Rightarrow> [] | Some p \<Rightarrow> byId cat p) in
     if length candidates = 1 then (Continue (hd candidates), deps)
     else if 1 < length candidates then (Done None, deps)
     else header_step source wd cat activeRoot kind cursor deps)"

definition path_step :: "ArchiveSourceScope \<Rightarrow> catalog \<Rightarrow> string option \<Rightarrow> SessionKind \<Rightarrow> ArchiveSourceEvidence \<Rightarrow> string \<Rightarrow> walk" where
  "path_step source cat activeRoot kind cursor path = (let parentId = parentAgentIdentifier (evidence_session cursor) in
     case map_of cat path of
       None \<Rightarrow> (case activeRoot of
           Some r \<Rightarrow> if sessionFile source = Some path \<and> (parentId = None \<or> parentId = Some (sessionId (activeSession source)))
             then Done (Some \<lparr>family_kind = kind, family_root = r\<rparr>) else Done None
         | None \<Rightarrow> Done None)
     | Some e \<Rightarrow> if parentId \<noteq> None \<and> parentId \<noteq> Some (sessionId (evidence_session e)) then Done None else Continue e)"

definition family_step :: "ArchiveSourceScope \<Rightarrow> string \<Rightarrow> catalog \<Rightarrow> string option \<Rightarrow> SessionKind \<Rightarrow> ArchiveSourceEvidence \<Rightarrow> Dependencies \<Rightarrow> walk \<times> Dependencies" where
  "family_step source wd cat activeRoot kind cursor deps = (let identity = evidence_session cursor in
     if main identity then (Done (Some \<lparr>family_kind = kind, family_root = sessionId identity\<rparr>), deps)
     else case (childKind identity, rootSessionId identity) of
       (Some _, Some r) \<Rightarrow> (Done (Some \<lparr>family_kind = kind, family_root = r\<rparr>), deps)
     | (None, _) \<Rightarrow> (Done (if sessionFile source = Some (evidence_file cursor) \<and> sessionId identity = sessionId (activeSession source)
           \<and> activeRoot = Some (sessionId identity) then Some \<lparr>family_kind = kind, family_root = sessionId identity\<rparr> else None), deps)
     | (Some _, None) \<Rightarrow> (case parent_path wd cursor of
         Some p \<Rightarrow> if ownsFile source p then (path_step source cat activeRoot kind cursor p, add_file p deps)
           else id_step source wd cat activeRoot kind cursor deps
       | None \<Rightarrow> id_step source wd cat activeRoot kind cursor deps))"

lemma path_step_continue: "path_step source cat activeRoot kind cursor p = Continue e \<Longrightarrow> map_of cat p = Some e"
  by (auto simp: path_step_def Let_def split: option.splits if_splits)

lemma byId_snd: "e \<in> set (byId cat s) \<Longrightarrow> e \<in> snd ` set cat"
  by (auto simp: byId_def)

lemma hd_byId: "length (byId cat s) = 1 \<Longrightarrow> hd (byId cat s) \<in> snd ` set cat"
  by (metis One_nat_def byId_snd hd_in_set length_greater_0_conv less_numeral_extra(1))

lemma header_step_continue: "fst (header_step source wd cat activeRoot kind cursor deps) = Continue e \<Longrightarrow> e \<in> snd ` set cat"
  using hd_byId by (auto simp: header_step_def Let_def split: if_splits option.splits)

lemma id_step_continue: "fst (id_step source wd cat activeRoot kind cursor deps) = Continue e \<Longrightarrow> e \<in> snd ` set cat"
  using hd_byId header_step_continue by (auto simp: id_step_def Let_def split: if_splits option.splits)

lemma path_step_member: "path_step source cat activeRoot kind cursor p = Continue e \<Longrightarrow> e \<in> snd ` set cat"
  by (metis image_eqI map_of_SomeD path_step_continue snd_conv)

lemma family_step_unfold:
  "childKind (evidence_session c) = Some k \<Longrightarrow> rootSessionId (evidence_session c) = None \<Longrightarrow> \<not> main (evidence_session c) \<Longrightarrow>
     family_step source wd cat activeRoot kind c deps = (case parent_path wd c of
         Some p \<Rightarrow> if ownsFile source p then (path_step source cat activeRoot kind c p, add_file p deps)
           else id_step source wd cat activeRoot kind c deps
       | None \<Rightarrow> id_step source wd cat activeRoot kind c deps)"
  by (simp add: family_step_def)

text \<open>The walk goes on only from a child that names no root.\<close>

lemma family_step_stops:
  "main (evidence_session c) \<or> childKind (evidence_session c) = None \<or> rootSessionId (evidence_session c) \<noteq> None \<Longrightarrow>
     \<exists>r. family_step source wd cat activeRoot kind c deps = (Done r, deps)"
  by (cases "childKind (evidence_session c)"; cases "rootSessionId (evidence_session c)"; cases "main (evidence_session c)")
    (simp_all add: family_step_def Let_def)

lemma family_step_continue:
  assumes "family_step source wd cat activeRoot kind cursor deps = (Continue e, deps')"
  shows "e \<in> snd ` set cat"
proof -
  have c: "\<exists>k. childKind (evidence_session cursor) = Some k" "rootSessionId (evidence_session cursor) = None" "\<not> main (evidence_session cursor)"
    using assms family_step_stops [of cursor source wd cat activeRoot kind deps]
    by (cases "childKind (evidence_session cursor)"; cases "rootSessionId (evidence_session cursor)"; auto)+
  then obtain k where "childKind (evidence_session cursor) = Some k" by blast
  note u = family_step_unfold [OF this c(2,3)]
  show ?thesis
    using assms path_step_member id_step_continue [of source wd cat activeRoot kind cursor deps e]
    by (cases "parent_path wd cursor") (auto simp: u split: if_splits)
qed

function family_walk :: "ArchiveSourceScope \<Rightarrow> string \<Rightarrow> catalog \<Rightarrow> string option \<Rightarrow> SessionKind \<Rightarrow> string list \<Rightarrow> ArchiveSourceEvidence \<Rightarrow> Dependencies
    \<Rightarrow> Family option \<times> Dependencies" where
  "family_walk source wd cat activeRoot kind seen cursor deps = (let deps = add_file (evidence_file cursor) deps in
     if evidence_file cursor \<in> set seen \<or> identityConflict (evidence_session cursor) then (None, deps)
     else case family_step source wd cat activeRoot kind cursor deps of
       (Done r, deps) \<Rightarrow> (r, deps)
     | (Continue e, deps) \<Rightarrow> family_walk source wd cat activeRoot kind (evidence_file cursor # seen) e deps)"
  by pat_completeness auto

termination
proof (relation "measure (\<lambda>(source, wd, cat, activeRoot, kind, seen, cursor, deps). let K = evidence_file ` snd ` set cat in
    2 * card (K - set seen) + (if evidence_file cursor \<in> K then 0 else 1))", goal_cases)
  case 1
  then show ?case by simp
next
  case (2 source wd cat activeRoot kind seen cursor deps d s s' e)
  let ?K = "evidence_file ` snd ` set cat"
  from 2 have e: "evidence_file e \<in> ?K" using family_step_continue by (metis image_eqI)
  show ?case
  proof (cases "evidence_file cursor \<in> ?K")
    case True
    with 2 have "card (?K - set (evidence_file cursor # seen)) < card (?K - set seen)"
      by (intro psubset_card_mono) auto
    with True e show ?thesis by (simp add: Let_def)
  next
    case False
    then have "?K - set (evidence_file cursor # seen) = ?K - set seen" by auto
    with False e show ?thesis by (simp add: Let_def)
  qed
qed

declare family_walk.simps [simp del]

definition resolveSourceFamily :: "ArchiveSourceScope \<Rightarrow> string \<Rightarrow> ArchiveSourceEvidence \<Rightarrow> catalog \<Rightarrow> Dependencies \<Rightarrow> string option \<Rightarrow> Family option \<times> Dependencies" where
  "resolveSourceFamily source wd entry cat deps activeRoot = family_walk source wd cat activeRoot
     (case childKind (evidence_session entry) of Some k \<Rightarrow> k | None \<Rightarrow> Main) [] entry deps"

section \<open>What a walk reads\<close>

definition reads_less :: "Dependencies \<Rightarrow> Dependencies \<Rightarrow> bool" where
  "reads_less d e \<longleftrightarrow> set (dep_files d) \<subseteq> set (dep_files e) \<and> set (dep_sessions d) \<subseteq> set (dep_sessions e)"

lemma reads_less_refl [simp]: "reads_less d d"
  by (simp add: reads_less_def)

lemma reads_less_trans [trans]: "reads_less a b \<Longrightarrow> reads_less b c \<Longrightarrow> reads_less a c"
  by (auto simp: reads_less_def)

lemma reads_less_add [simp]: "reads_less d (add_file f d)" "reads_less d (add_session s d)"
  by (auto simp: reads_less_def add_file_def add_session_def)

text \<open>Two catalogs that give the same answers about the files and sessions of \<open>d\<close>.\<close>

definition agree_on :: "Dependencies \<Rightarrow> catalog \<Rightarrow> catalog \<Rightarrow> bool" where
  "agree_on d cat cat' \<longleftrightarrow> (\<forall>p \<in> set (dep_files d). map_of cat p = map_of cat' p) \<and> (\<forall>s \<in> set (dep_sessions d). byId cat s = byId cat' s)"

definition native_catalog :: "catalog \<Rightarrow> bool" where
  "native_catalog cat \<longleftrightarrow> list_all (\<lambda>(_, e). isNativeSessionId (sessionId (evidence_session e))) cat"

lemma agree_on_less: "agree_on e cat cat' \<Longrightarrow> reads_less d e \<Longrightarrow> agree_on d cat cat'"
  by (auto simp: agree_on_def reads_less_def)

lemma agree_file: "agree_on (add_file p d) cat cat' \<Longrightarrow> p \<noteq> [] \<Longrightarrow> map_of cat p = map_of cat' p"
  by (simp add: agree_on_def add_file_def)

lemma agree_session: "agree_on (add_session s d) cat cat' \<Longrightarrow> byId cat s = byId cat' s"
  by (simp add: agree_on_def add_session_def)

lemma byId_not_native: "native_catalog cat \<Longrightarrow> \<not> isNativeSessionId s \<Longrightarrow> byId cat s = []"
  by (auto simp: byId_def native_catalog_def list_all_iff filter_empty_conv)

lemma header_step_reads:
  assumes "header_step source wd cat activeRoot kind c deps = (w, d)"
  shows "reads_less deps d"
proof -
  have "snd (header_step source wd cat activeRoot kind c deps)
      = (if isNativeSessionId (case evidence_parent c of Some p \<Rightarrow> p | None \<Rightarrow> []) then add_session (case evidence_parent c of Some p \<Rightarrow> p | None \<Rightarrow> []) deps else deps)"
    unfolding header_step_def Let_def by (auto split: option.split)
  with assms show ?thesis by (metis reads_less_add(2) reads_less_refl snd_conv)
qed

lemma header_step_agrees:
  assumes "header_step source wd cat activeRoot kind c deps = (w, d)" "agree_on d cat cat'" "native_catalog cat" "native_catalog cat'"
  shows "header_step source wd cat' activeRoot kind c deps = (w, d)"
proof -
  let ?p = "case evidence_parent c of Some p \<Rightarrow> p | None \<Rightarrow> []"
  have d: "d = (if isNativeSessionId ?p then add_session ?p deps else deps)"
    using assms(1) unfolding header_step_def Let_def by (auto split: option.split_asm if_split_asm)
  have eq: "byId cat ?p = byId cat' ?p"
  proof (cases "isNativeSessionId ?p")
    case True
    with assms(2) d show ?thesis by (auto intro: agree_session)
  next
    case False
    with assms(3,4) byId_not_native show ?thesis by metis
  qed
  from assms(1) show ?thesis unfolding header_step_def Let_def eq .
qed

lemma id_step_reads:
  assumes "id_step source wd cat activeRoot kind c deps = (w, d)"
  shows "reads_less deps d"
proof (cases "parentAgentIdentifier (evidence_session c)")
  case None
  with assms header_step_reads show ?thesis by (simp add: id_step_def)
next
  case (Some p)
  from assms have "d = add_session p deps \<or> header_step source wd cat activeRoot kind c (add_session p deps) = (w, d)"
    by (auto simp: id_step_def Some Let_def split: if_split_asm)
  with header_step_reads [of source wd cat activeRoot kind c "add_session p deps" w d] show ?thesis
    using reads_less_add(2) reads_less_trans by blast
qed

lemma id_step_agrees:
  assumes "id_step source wd cat activeRoot kind c deps = (w, d)" "agree_on d cat cat'" "native_catalog cat" "native_catalog cat'"
  shows "id_step source wd cat' activeRoot kind c deps = (w, d)"
proof (cases "parentAgentIdentifier (evidence_session c)")
  case None
  with assms(1) have "header_step source wd cat activeRoot kind c deps = (w, d)" by (simp add: id_step_def)
  from header_step_agrees [OF this assms(2-4)] None show ?thesis by (simp add: id_step_def)
next
  case (Some p)
  have "reads_less (add_session p deps) d"
    using assms(1) header_step_reads [of source wd cat activeRoot kind c "add_session p deps" w d]
    by (auto simp: id_step_def Some Let_def split: if_split_asm)
  with assms(2) have "agree_on (add_session p deps) cat cat'" by (rule agree_on_less)
  then have eq: "byId cat p = byId cat' p" by (rule agree_session)
  from assms header_step_agrees [of source wd cat activeRoot kind c "add_session p deps" w d cat'] show ?thesis
    by (simp add: id_step_def Some Let_def eq split: if_split_asm)
qed

lemma abs_path_nonempty: "parent_path wd c = Some p \<Longrightarrow> p \<noteq> []"
  by (auto simp: parent_path_def abs_path_def Let_def split: option.splits if_splits)

lemma family_step_cases:
  obtains r where "\<And>cat. family_step source wd cat activeRoot kind c deps = (Done r, deps)"
  | p where "parent_path wd c = Some p" "\<And>cat. family_step source wd cat activeRoot kind c deps = (path_step source cat activeRoot kind c p, add_file p deps)"
  | "\<And>cat. family_step source wd cat activeRoot kind c deps = id_step source wd cat activeRoot kind c deps"
proof (cases "main (evidence_session c) \<or> childKind (evidence_session c) = None \<or> rootSessionId (evidence_session c) \<noteq> None")
  case True
  then have "\<exists>r. \<forall>cat. family_step source wd cat activeRoot kind c deps = (Done r, deps)"
    by (cases "childKind (evidence_session c)"; cases "rootSessionId (evidence_session c)"; cases "main (evidence_session c)")
      (simp_all add: family_step_def Let_def)
  with that(1) show thesis by blast
next
  case False
  then obtain k where k: "childKind (evidence_session c) = Some k" by auto
  with False have u: "family_step source wd cat activeRoot kind c deps = (case parent_path wd c of
         Some p \<Rightarrow> if ownsFile source p then (path_step source cat activeRoot kind c p, add_file p deps)
           else id_step source wd cat activeRoot kind c deps
       | None \<Rightarrow> id_step source wd cat activeRoot kind c deps)" for cat by (intro family_step_unfold) auto
  show thesis
  proof (cases "\<exists>p. parent_path wd c = Some p \<and> ownsFile source p")
    case True
    then obtain p where "parent_path wd c = Some p" "ownsFile source p" by blast
    with u that(2) show thesis by simp
  next
    case False
    with u have "family_step source wd cat activeRoot kind c deps = id_step source wd cat activeRoot kind c deps" for cat
      by (cases "parent_path wd c") auto
    with that(3) show thesis by blast
  qed
qed

lemma family_step_reads:
  assumes "family_step source wd cat activeRoot kind c deps = (w, d)"
  shows "reads_less deps d"
proof (cases rule: family_step_cases [of source wd activeRoot kind c deps])
  case 3
  with assms id_step_reads show ?thesis by simp
qed (use assms in auto)

lemma family_step_agrees:
  assumes "family_step source wd cat activeRoot kind c deps = (w, d)" "agree_on d cat cat'" "native_catalog cat" "native_catalog cat'"
  shows "family_step source wd cat' activeRoot kind c deps = (w, d)"
proof (cases rule: family_step_cases [of source wd activeRoot kind c deps])
  case (1 r)
  with assms show ?thesis by simp
next
  case (2 p)
  with assms(1) have d: "d = add_file p deps" "w = path_step source cat activeRoot kind c p" by simp_all
  with assms(2) abs_path_nonempty [OF 2(1)] have "map_of cat p = map_of cat' p" by (blast intro: agree_file)
  with d 2(2) show ?thesis by (simp add: path_step_def)
next
  case 3
  with assms(1) have "id_step source wd cat activeRoot kind c deps = (w, d)" by simp
  from id_step_agrees [OF this assms(2-4)] 3 show ?thesis by simp
qed

lemma family_walk_reads:
  "family_walk source wd cat activeRoot kind seen c deps = (r, d) \<Longrightarrow> reads_less (add_file (evidence_file c) deps) d"
proof (induction source wd cat activeRoot kind seen c deps rule: family_walk.induct)
  case (1 source wd cat activeRoot kind seen c deps)
  show ?case
  proof (cases "evidence_file c \<in> set seen \<or> identityConflict (evidence_session c)")
    case True
    with "1.prems" show ?thesis by (auto simp: family_walk.simps [of source wd cat activeRoot kind seen c deps] Let_def)
  next
    case False
    obtain w e where s: "family_step source wd cat activeRoot kind c (add_file (evidence_file c) deps) = (w, e)" by fastforce
    from family_step_reads [OF s] have less: "reads_less (add_file (evidence_file c) deps) e" .
    show ?thesis
    proof (cases w)
      case (Done q)
      with "1.prems" s False less show ?thesis by (simp add: family_walk.simps [of source wd cat activeRoot kind seen c deps] Let_def)
    next
      case (Continue f)
      with "1.prems" s False have "family_walk source wd cat activeRoot kind (evidence_file c # seen) f e = (r, d)"
        by (simp add: family_walk.simps [of source wd cat activeRoot kind seen c deps] Let_def)
      with "1.IH" [OF refl False s [symmetric] Continue] have "reads_less (add_file (evidence_file f) e) d" by blast
      with less show ?thesis using reads_less_add(1) reads_less_trans by blast
    qed
  qed
qed


lemma family_walk_agrees:
  "family_walk source wd cat activeRoot kind seen c deps = (r, d) \<Longrightarrow> agree_on d cat cat' \<Longrightarrow> native_catalog cat \<Longrightarrow> native_catalog cat'
     \<Longrightarrow> family_walk source wd cat' activeRoot kind seen c deps = (r, d)"
proof (induction source wd cat activeRoot kind seen c deps rule: family_walk.induct)
  case (1 source wd cat activeRoot kind seen c deps)
  note walk = family_walk.simps [of source wd _ activeRoot kind seen c deps]
  show ?case
  proof (cases "evidence_file c \<in> set seen \<or> identityConflict (evidence_session c)")
    case True
    with "1.prems"(1) show ?thesis by (auto simp: walk Let_def)
  next
    case False
    obtain w e where s: "family_step source wd cat activeRoot kind c (add_file (evidence_file c) deps) = (w, e)" by fastforce
    show ?thesis
    proof (cases w)
      case (Done q)
      with "1.prems"(1) s False have "(r, d) = (q, e)" by (simp add: walk Let_def)
      with family_step_agrees [OF s] "1.prems"(2-4) False Done show ?thesis by (simp add: walk Let_def)
    next
      case (Continue f)
      with "1.prems"(1) s False have w: "family_walk source wd cat activeRoot kind (evidence_file c # seen) f e = (r, d)"
        by (simp add: walk Let_def)
      from family_walk_reads [OF w] have "reads_less e d" using reads_less_add(1) reads_less_trans by blast
      with "1.prems"(2) have "agree_on e cat cat'" by (rule agree_on_less)
      with family_step_agrees [OF s] "1.prems"(3,4) have "family_step source wd cat' activeRoot kind c (add_file (evidence_file c) deps) = (w, e)" by simp
      with "1.IH" [OF refl False s [symmetric] Continue w "1.prems"(2-4)] False Continue show ?thesis by (simp add: walk Let_def)
    qed
  qed
qed

section \<open>Capturing a source\<close>

datatype Membership = Included | Excluded | Unresolved

record SourceCapture =
  captured_family :: "Family option"
  membership :: Membership
  ancestryFiles :: "string list"
  ancestrySessions :: "string list"
  warned :: bool

definition catalog_of :: "ArchiveSourceEvidence list \<Rightarrow> catalog" where
  "catalog_of entries = foldl (\<lambda>m e. od_set (evidence_file e) e m) [] entries"

definition capture_entries :: "ArchiveSourceScope \<Rightarrow> ArchiveSourceEvidence \<Rightarrow> ArchiveSourceEvidence list \<Rightarrow> ArchiveSourceEvidence list" where
  "capture_entries source entry evidence = filter (\<lambda>e. ownsFile source (evidence_file e) \<and> evidence_file e \<noteq> evidence_file entry) evidence @ [entry]"

definition active_entry :: "ArchiveSourceScope \<Rightarrow> ArchiveSourceEvidence list \<Rightarrow> ArchiveSourceEvidence" where
  "active_entry source entries = (case find (\<lambda>e. sessionFile source = Some (evidence_file e) \<and> sessionId (evidence_session e) = sessionId (activeSession source)) entries of
     Some e \<Rightarrow> e
   | None \<Rightarrow> \<lparr>evidence_file = (case sessionFile source of Some f \<Rightarrow> f | None \<Rightarrow> []), evidence_parent = scope_parentSession source, evidence_session = activeSession source\<rparr>)"

definition active_root :: "ArchiveSourceScope \<Rightarrow> string \<Rightarrow> ArchiveSourceEvidence list \<Rightarrow> string option \<times> Dependencies" where
  "active_root source wd entries = (let none = \<lparr>dep_files = [], dep_sessions = []\<rparr> in case scope_root source of
     Some r \<Rightarrow> (Some r, none)
   | None \<Rightarrow> (case resolveSourceFamily source wd (active_entry source entries) (catalog_of entries) none None of (f, d) \<Rightarrow> (map_option family_root f, d)))"

definition unrelated_plain :: "ArchiveSourceScope \<Rightarrow> string option \<Rightarrow> ArchiveSourceEvidence \<Rightarrow> bool" where
  "unrelated_plain source root entry = (let i = evidence_session entry in
     sessionId i \<noteq> sessionId (activeSession source) \<and> root \<noteq> Some (sessionId i) \<and> \<not> main i \<and> childKind i = None \<and> \<not> identityConflict i
     \<and> rootSessionId i = None \<and> parentAgentIdentifier i = None \<and> evidence_parent entry \<in> {None, Some []})"

definition source_membership :: "ArchiveSourceScope \<Rightarrow> string option \<Rightarrow> Family option \<Rightarrow> ArchiveSourceEvidence \<Rightarrow> Membership" where
  "source_membership source root family entry = (if scope_kind source \<noteq> Scope_current then Included
     else if unrelated_plain source root entry then Excluded
     else case (root, family) of (Some r, Some f) \<Rightarrow> if r = family_root f then Included else Excluded | _ \<Rightarrow> Unresolved)"

definition captureSource :: "ArchiveSourceScope \<Rightarrow> string \<Rightarrow> ArchiveSourceEvidence \<Rightarrow> ArchiveSourceEvidence list \<Rightarrow> SourceCapture" where
  "captureSource source wd entry evidence = (let
     entries = capture_entries source entry evidence;
     (root, deps) = active_root source wd entries;
     (family, deps) = resolveSourceFamily source wd entry (catalog_of entries) deps root in
     \<lparr>captured_family = family, membership = source_membership source root family entry,
      ancestryFiles = sort_key (map of_char :: string \<Rightarrow> nat list) (dep_files deps), ancestrySessions = sort_key (map of_char :: string \<Rightarrow> nat list) (dep_sessions deps),
      warned = (family = None \<and> (childKind (evidence_session entry) \<noteq> None \<or> identityConflict (evidence_session entry)))\<rparr>)"

section \<open>An answer depends on its dependencies only\<close>

definition same_rows :: "Dependencies \<Rightarrow> ArchiveSourceEvidence list \<Rightarrow> ArchiveSourceEvidence list \<Rightarrow> bool" where
  "same_rows d es es' \<longleftrightarrow> (\<forall>p \<in> set (dep_files d). filter (\<lambda>e. evidence_file e = p) es = filter (\<lambda>e. evidence_file e = p) es')
     \<and> (\<forall>s \<in> set (dep_sessions d). filter (\<lambda>e. sessionId (evidence_session e) = s) es = filter (\<lambda>e. sessionId (evidence_session e) = s) es')"

lemma od_set_new: "k \<notin> fst ` set m \<Longrightarrow> od_set k v m = m @ [(k, v)]"
  by (induction k v m rule: od_set.induct) auto

lemma catalog_of_distinct: "distinct (map evidence_file es) \<Longrightarrow> catalog_of es = map (\<lambda>e. (evidence_file e, e)) es"
proof (induction es rule: rev_induct)
  case (snoc e es)
  then have "evidence_file e \<notin> fst ` set (map (\<lambda>e. (evidence_file e, e)) es)" by force
  with snoc show ?case by (simp add: catalog_of_def od_set_new)
qed (simp add: catalog_of_def)

lemma map_of_rows: "map_of (map (\<lambda>e. (evidence_file e, e)) es) p = (case filter (\<lambda>e. evidence_file e = p) es of [] \<Rightarrow> None | e # _ \<Rightarrow> Some e)"
  by (induction es) auto

lemma same_rows_agree:
  assumes "same_rows d es es'" "distinct (map evidence_file es)" "distinct (map evidence_file es')"
  shows "agree_on d (catalog_of es) (catalog_of es')"
  using assms(1) by (simp add: agree_on_def same_rows_def catalog_of_distinct [OF assms(2)] catalog_of_distinct [OF assms(3)] map_of_rows byId_def comp_def)

lemma native_catalog_of:
  "distinct (map evidence_file es) \<Longrightarrow> native_catalog (catalog_of es) \<longleftrightarrow> list_all (\<lambda>e. isNativeSessionId (sessionId (evidence_session e))) es"
  by (simp add: native_catalog_def catalog_of_distinct list_all_iff)

lemma find_filter: "find P es = (case filter P es of [] \<Rightarrow> None | e # _ \<Rightarrow> Some e)"
  by (induction es) auto

lemma active_entry_rows:
  assumes "\<And>f. sessionFile source = Some f \<Longrightarrow> filter (\<lambda>e. evidence_file e = f) es = filter (\<lambda>e. evidence_file e = f) es'"
  shows "active_entry source es = active_entry source es'"
proof (cases "sessionFile source")
  case None
  moreover have "find (\<lambda>e. False) xs = None" for xs :: "ArchiveSourceEvidence list" by (induction xs) auto
  ultimately show ?thesis by (simp add: active_entry_def)
next
  case (Some f)
  have *: "find (\<lambda>e. Some f = Some (evidence_file e) \<and> sessionId (evidence_session e) = a) xs = find (\<lambda>e. sessionId (evidence_session e) = a) (filter (\<lambda>e. evidence_file e = f) xs)" for a xs
    by (induction xs) auto
  show ?thesis unfolding active_entry_def Some * assms [OF Some] ..
qed

lemma active_entry_file: "sessionFile source = Some f \<Longrightarrow> evidence_file (active_entry source es) = f"
  by (auto simp: active_entry_def find_Some_iff split: option.split)

lemma active_root_same:
  assumes root: "active_root source wd es = (root, d)" and rows: "same_rows d es es'"
    and distinct: "distinct (map evidence_file es)" "distinct (map evidence_file es')"
    and native: "native_catalog (catalog_of es)" "native_catalog (catalog_of es')" and named: "sessionFile source \<noteq> Some []"
  shows "active_root source wd es' = (root, d)"
proof (cases "scope_root source")
  case (Some r)
  then have "active_root source wd xs = (Some r, \<lparr>dep_files = [], dep_sessions = []\<rparr>)" for xs by (simp add: active_root_def)
  with root show ?thesis by simp
next
  case None
  define a where "a = active_entry source es"
  obtain f where walk: "resolveSourceFamily source wd a (catalog_of es) \<lparr>dep_files = [], dep_sessions = []\<rparr> None = (f, d)"
    and r: "root = map_option family_root f"
    using root None by (auto simp: active_root_def a_def Let_def split: prod.splits)
  note reads = family_walk_reads [OF walk [unfolded resolveSourceFamily_def]]
  have "active_entry source es' = a" unfolding a_def
  proof (rule active_entry_rows [symmetric])
    fix g assume g: "sessionFile source = Some g"
    with named active_entry_file [OF g] reads have "g \<in> set (dep_files d)" by (auto simp: a_def add_file_def reads_less_def)
    with rows show "filter (\<lambda>e. evidence_file e = g) es = filter (\<lambda>e. evidence_file e = g) es'" by (simp add: same_rows_def)
  qed
  moreover have "resolveSourceFamily source wd a (catalog_of es') \<lparr>dep_files = [], dep_sessions = []\<rparr> None = (f, d)"
    using family_walk_agrees [OF walk [unfolded resolveSourceFamily_def] same_rows_agree [OF rows distinct] native]
    by (simp add: resolveSourceFamily_def)
  ultimately show ?thesis by (simp add: active_root_def None r)
qed

text \<open>The rows that a stored dependency key covers, for a capture of a file.\<close>

definition depends_on :: "SourceCapture \<Rightarrow> string \<Rightarrow> ArchiveSourceEvidence \<Rightarrow> bool" where
  "depends_on c own e \<longleftrightarrow> (evidence_file e \<in> set (ancestryFiles c) \<and> evidence_file e \<noteq> own) \<or> sessionId (evidence_session e) \<in> set (ancestrySessions c)"

lemma filter_covered: "(\<And>e. P e \<Longrightarrow> Q e) \<Longrightarrow> filter Q es = filter Q es' \<Longrightarrow> filter P es = filter P es'"
proof -
  assume "\<And>e. P e \<Longrightarrow> Q e" "filter Q es = filter Q es'"
  moreover from this(1) have *: "filter P xs = filter P (filter Q xs)" for xs by (induction xs) auto
  ultimately show ?thesis using * [of es] * [of es'] by simp
qed

lemma filter_capture_entries:
  assumes "filter (depends_on c (evidence_file entry)) ev = filter (depends_on c (evidence_file entry)) ev'"
    and "\<And>e. P e \<Longrightarrow> evidence_file e \<noteq> evidence_file entry \<Longrightarrow> depends_on c (evidence_file entry) e"
  shows "filter P (capture_entries source entry ev) = filter P (capture_entries source entry ev')"
proof -
  have "filter P (capture_entries source entry es)
      = filter (\<lambda>e. P e \<and> ownsFile source (evidence_file e) \<and> evidence_file e \<noteq> evidence_file entry) es @ filter P [entry]" for es
    by (simp add: capture_entries_def conj_commute)
  moreover have "filter (\<lambda>e. P e \<and> ownsFile source (evidence_file e) \<and> evidence_file e \<noteq> evidence_file entry) ev
      = filter (\<lambda>e. P e \<and> ownsFile source (evidence_file e) \<and> evidence_file e \<noteq> evidence_file entry) ev'"
    by (rule filter_covered [OF _ assms(1)]) (blast intro: assms(2))
  ultimately show ?thesis by simp
qed

lemma capture_entries_wf:
  assumes "distinct (map evidence_file ev)" "list_all (\<lambda>e. isNativeSessionId (sessionId (evidence_session e))) (entry # ev)"
  shows "distinct (map evidence_file (capture_entries source entry ev)) \<and> native_catalog (catalog_of (capture_entries source entry ev))"
proof -
  have d: "distinct (map evidence_file (capture_entries source entry ev))"
    using assms(1) by (auto simp: capture_entries_def distinct_map_filter)
  with assms(2) show ?thesis by (auto simp: native_catalog_of [OF d]) (auto simp: capture_entries_def list_all_iff)
qed

text \<open>C39: The ancestry recorded with a captured source is complete: any other catalog that has the same evidence for the recorded
  files (the source itself apart) and for the recorded session identifiers gives the same family, the same membership
  and the same record, so a candidate whose dependency key is unchanged need not be captured again.\<close>

theorem ancestry_dependencies_complete:
  assumes rows: "filter (depends_on (captureSource source wd entry ev) (evidence_file entry)) ev
      = filter (depends_on (captureSource source wd entry ev) (evidence_file entry)) ev'"
    and "distinct (map evidence_file ev)" "distinct (map evidence_file ev')"
    and "list_all (\<lambda>e. isNativeSessionId (sessionId (evidence_session e))) (entry # ev @ ev')" and "sessionFile source \<noteq> Some []"
  shows "captureSource source wd entry ev' = captureSource source wd entry ev"
proof -
  define c where "c = captureSource source wd entry ev"
  let ?es = "capture_entries source entry ev" and ?es' = "capture_entries source entry ev'"
  obtain root d1 where root: "active_root source wd ?es = (root, d1)" by fastforce
  obtain family d where walk: "resolveSourceFamily source wd entry (catalog_of ?es) d1 root = (family, d)" by fastforce
  have wf: "distinct (map evidence_file ?es)" "native_catalog (catalog_of ?es)" "distinct (map evidence_file ?es')" "native_catalog (catalog_of ?es')"
    using capture_entries_wf [of ev entry source] capture_entries_wf [of ev' entry source] assms(2-4) by auto
  have c: "ancestryFiles c = sort_key (map of_char :: string \<Rightarrow> nat list) (dep_files d)" "ancestrySessions c = sort_key (map of_char :: string \<Rightarrow> nat list) (dep_sessions d)"
    by (simp_all add: c_def captureSource_def root walk)
  have same: "same_rows d ?es ?es'"
    unfolding same_rows_def using rows
    by (intro conjI ballI filter_capture_entries [where c = c]) (auto simp: c_def [symmetric] depends_on_def c)
  have "reads_less d1 d"
    using family_walk_reads [OF walk [unfolded resolveSourceFamily_def]] reads_less_add(1) reads_less_trans by blast
  with same have "same_rows d1 ?es ?es'" by (auto simp: same_rows_def reads_less_def)
  from active_root_same [OF root this wf(1,3,2,4) assms(5)] have "active_root source wd ?es' = (root, d1)" .
  moreover have "resolveSourceFamily source wd entry (catalog_of ?es') d1 root = (family, d)"
    using family_walk_agrees [OF walk [unfolded resolveSourceFamily_def] same_rows_agree [OF same wf(1,3)] wf(2,4)]
    by (simp add: resolveSourceFamily_def)
  ultimately show ?thesis by (simp add: captureSource_def root walk)
qed

definition example_identity :: "string \<Rightarrow> bool \<Rightarrow> string option \<Rightarrow> ArchiveSourceIdentity" where
  "example_identity s m p = \<lparr>sessionId = s, main = m, childKind = (case p of None \<Rightarrow> None | Some _ \<Rightarrow> Some Subagent), parentAgentIdentifier = p,
     rootSessionId = (if m then Some s else None), identityConflict = False\<rparr>"

definition example_source :: ArchiveSourceScope where
  "example_source = \<lparr>scope_kind = Scope_current, activeSession = example_identity ''m'' True None, sessionFile = Some ''/r/m.jsonl'', sessionDirectory = ''/r'',
     scope_root = Some ''m'', scope_parentSession = None, defaultSessionRoots = [''/d'']\<rparr>"

definition example_row :: "string \<Rightarrow> ArchiveSourceIdentity \<Rightarrow> ArchiveSourceEvidence" where
  "example_row f i = \<lparr>evidence_file = f, evidence_parent = None, evidence_session = i\<rparr>"

definition example_child :: ArchiveSourceEvidence where
  "example_child = example_row ''/r/b.jsonl'' (example_identity ''b'' False (Some ''a''))"

definition example_catalog :: "ArchiveSourceEvidence list" where
  "example_catalog = [example_row ''/r/m.jsonl'' (example_identity ''m'' True None), example_row ''/r/a.jsonl'' (example_identity ''a'' False (Some ''m''))]"

definition example_other :: "ArchiveSourceEvidence list" where
  "example_other = example_row ''/r/x.jsonl'' (example_identity ''x'' False None) # example_catalog"

theorem ancestry_dependencies_complete_witness:
  "captureSource example_source ''/'' example_child example_other = captureSource example_source ''/'' example_child example_catalog
   \<and> membership (captureSource example_source ''/'' example_child example_catalog) = Included"
proof
  show "captureSource example_source ''/'' example_child example_other = captureSource example_source ''/'' example_child example_catalog"
  proof (rule ancestry_dependencies_complete)
    show "filter (depends_on (captureSource example_source ''/'' example_child example_catalog) (evidence_file example_child)) example_catalog
      = filter (depends_on (captureSource example_source ''/'' example_child example_catalog) (evidence_file example_child)) example_other" by code_simp
    show "distinct (map evidence_file example_catalog)" "distinct (map evidence_file example_other)" by code_simp+
    show "list_all (\<lambda>e. isNativeSessionId (sessionId (evidence_session e))) (example_child # example_catalog @ example_other)" by code_simp
    show "sessionFile example_source \<noteq> Some []" by code_simp
  qed
  show "membership (captureSource example_source ''/'' example_child example_catalog) = Included" by code_simp
qed

text \<open>A family's root is one that a main session is, a child asserts, or the active session has.\<close>

definition asserts_root :: "string \<Rightarrow> ArchiveSourceEvidence \<Rightarrow> bool" where
  "asserts_root r e \<longleftrightarrow> (main (evidence_session e) \<and> sessionId (evidence_session e) = r) \<or> rootSessionId (evidence_session e) = Some r"

lemma header_step_root: "header_step source wd cat activeRoot kind c deps = (Done (Some f), d) \<Longrightarrow> activeRoot = Some (family_root f) \<and> family_kind f = kind"
  by (auto simp: header_step_def Let_def split: if_split_asm option.split_asm)

lemma id_step_root: "id_step source wd cat activeRoot kind c deps = (Done (Some f), d) \<Longrightarrow> activeRoot = Some (family_root f) \<and> family_kind f = kind"
  by (auto simp: id_step_def Let_def dest: header_step_root split: if_split_asm)

lemma path_step_root: "path_step source cat activeRoot kind c p = Done (Some f) \<Longrightarrow> activeRoot = Some (family_root f) \<and> family_kind f = kind"
  by (auto simp: path_step_def Let_def split: if_split_asm option.split_asm)

lemma family_step_root:
  assumes "family_step source wd cat activeRoot kind c deps = (Done (Some f), d)"
  shows "family_kind f = kind \<and> (activeRoot = Some (family_root f) \<or> asserts_root (family_root f) c)"
proof (cases "main (evidence_session c) \<or> childKind (evidence_session c) = None \<or> rootSessionId (evidence_session c) \<noteq> None")
  case True
  with assms show ?thesis
    by (cases "childKind (evidence_session c)"; cases "rootSessionId (evidence_session c)"; cases "main (evidence_session c)")
      (auto simp: family_step_def Let_def asserts_root_def split: if_split_asm)
next
  case False
  then obtain k where "childKind (evidence_session c) = Some k" by auto
  from assms [unfolded family_step_unfold [OF this]] False id_step_root path_step_root show ?thesis
    by (cases "parent_path wd c") (auto simp: family_step_unfold [OF \<open>childKind (evidence_session c) = Some k\<close>] split: if_split_asm)
qed

lemma family_walk_root:
  "family_walk source wd cat activeRoot kind seen c deps = (Some f, d) \<Longrightarrow>
     family_kind f = kind \<and> (activeRoot = Some (family_root f) \<or> (\<exists>e \<in> insert c (snd ` set cat). asserts_root (family_root f) e))"
proof (induction source wd cat activeRoot kind seen c deps rule: family_walk.induct)
  case (1 source wd cat activeRoot kind seen c deps)
  note walk = family_walk.simps [of source wd cat activeRoot kind seen c deps]
  from "1.prems" have f: "\<not> (evidence_file c \<in> set seen \<or> identityConflict (evidence_session c))"
    by (auto simp: walk Let_def split: if_split_asm)
  obtain w e where s: "family_step source wd cat activeRoot kind c (add_file (evidence_file c) deps) = (w, e)" by fastforce
  show ?case
  proof (cases w)
    case (Done q)
    with "1.prems" s f have "q = Some f" by (simp add: walk Let_def)
    with family_step_root [of source wd cat activeRoot kind c] s Done show ?thesis by blast
  next
    case (Continue x)
    with "1.prems" s f have "family_walk source wd cat activeRoot kind (evidence_file c # seen) x e = (Some f, d)" by (simp add: walk Let_def)
    from "1.IH" [OF refl f s [symmetric] Continue this] family_step_continue [OF s [unfolded Continue]] show ?thesis by blast
  qed
qed

end
