(* ===== verification/Archive_Reconciler.thy ===== *)
theory Archive_Reconciler
  imports Archive_Protocol_Laws "HOL-Library.Word"
begin

text \<open>
  What to do with a local copy of a session, \<open>src/src/server/ArchiveReconciler.ts\<close>.  A body is its list of bytes; the
  hexadecimal text of a body's SHA-256 digest is the parameter \<open>sha256\<close>.  The result is \<open>None\<close> where decoding of the
  metadata throws.
\<close>

section \<open>Decisions\<close>

type_synonym body = "8 word list"

record ArchiveCandidate =
  candidate_session :: string
  candidate_body :: body
  candidate_metadata :: "ArchiveMetadata option"

text \<open>Metadata of a snapshot is unknown (\<open>None\<close>), absent (\<open>Some None\<close>) or given.\<close>

record ArchiveCanonicalSnapshot =
  snapshot_body :: body
  snapshot_revision :: Revision
  snapshot_metadata :: "ArchiveMetadata option option"

datatype ArchivePreservationReason = Metadata | Divergence

datatype ArchiveDeferReason = Unknown_remote_metadata | Preservation_unsupported

datatype ArchiveReconciliationDecision = Covered Revision | Publish Condition | Preserve_uploaded ArchivePreservationReason
  | Preserve_current_then_publish ArchivePreservationReason Condition | Defer ArchiveDeferReason

text \<open>\<open><\<close> on strings.\<close>

fun text_less :: "string \<Rightarrow> string \<Rightarrow> bool" where
  "text_less s [] = False"
| "text_less [] (c # t) = True"
| "text_less (b # s) (c # t) = ((of_char b :: nat) < of_char c \<or> (b = c \<and> text_less s t))"

definition properPrefix :: "body \<Rightarrow> body \<Rightarrow> bool" where
  "properPrefix shorter longer \<longleftrightarrow> length shorter < length longer \<and> shorter = take (length shorter) longer"

definition losesAssertion :: "ArchiveMetadata option \<Rightarrow> ArchiveMetadata option \<Rightarrow> bool" where
  "losesAssertion shorter longer \<longleftrightarrow>
     (let kind = Option.bind shorter meta_kind; root = Option.bind shorter root_session_id in
      (kind \<noteq> None \<and> kind \<noteq> Option.bind longer meta_kind) \<or> (root \<noteq> None \<and> root \<noteq> Option.bind longer root_session_id))"

definition preservation :: "ArchiveReconciliationDecision \<Rightarrow> bool \<Rightarrow> ArchiveReconciliationDecision" where
  "preservation decision supported = (if supported then decision else Defer Preservation_unsupported)"

definition decode_nullable_metadata :: "string \<Rightarrow> ArchiveMetadata option \<Rightarrow> ArchiveMetadata option option" where
  "decode_nullable_metadata sid m = (case m of None \<Rightarrow> Some None | Some x \<Rightarrow> map_option Some (decodeArchiveMetadata (metadata_value x) sid True))"

definition local_preferred :: "(body \<Rightarrow> string) \<Rightarrow> body \<Rightarrow> body \<Rightarrow> bool" where
  "local_preferred sha256 l r = (if length l \<noteq> length r then length r < length l else text_less (sha256 r) (sha256 l))"

definition reconcile_bodies :: "(body \<Rightarrow> string) \<Rightarrow> body \<Rightarrow> ArchiveMetadata option \<Rightarrow> body \<Rightarrow> ArchiveMetadata option \<Rightarrow> Revision \<Rightarrow> bool
    \<Rightarrow> ArchiveReconciliationDecision" where
  "reconcile_bodies sha256 l lm r rm revision supported = (
     if l = r then
       if stringify (nullable_metadata_value lm) = stringify (nullable_metadata_value rm) then Covered revision
       else preservation (Preserve_uploaded Metadata) supported
     else if properPrefix l r then
       if losesAssertion lm rm then preservation (Preserve_uploaded Metadata) supported else Covered revision
     else if properPrefix r l then
       if losesAssertion rm lm then preservation (Preserve_current_then_publish Metadata (Exact_base_revision revision)) supported
       else Publish (Exact_base_revision revision)
     else preservation (if local_preferred sha256 l r then Preserve_current_then_publish Divergence (Exact_base_revision revision)
       else Preserve_uploaded Divergence) supported)"

definition reconcileArchive :: "(body \<Rightarrow> string) \<Rightarrow> ArchiveCandidate \<Rightarrow> ArchiveCanonicalSnapshot option \<Rightarrow> bool \<Rightarrow> ArchiveReconciliationDecision option" where
  "reconcileArchive sha256 local remote supported = do {
     lm \<leftarrow> decode_nullable_metadata (candidate_session local) (candidate_metadata local);
     case remote of
       None \<Rightarrow> Some (Publish Absent)
     | Some snapshot \<Rightarrow> (case snapshot_metadata snapshot of
         None \<Rightarrow> Some (Defer Unknown_remote_metadata)
       | Some m \<Rightarrow> do {
           rm \<leftarrow> decode_nullable_metadata (candidate_session local) m;
           Some (reconcile_bodies sha256 (candidate_body local) lm (snapshot_body snapshot) rm (snapshot_revision snapshot) supported)
         })
   }"

section \<open>What a decision keeps\<close>

lemma properPrefix_iff: "properPrefix xs ys \<longleftrightarrow> strict_prefix xs ys"
proof
  assume *: "properPrefix xs ys"
  then have "prefix xs ys" by (metis properPrefix_def take_is_prefix)
  with * show "strict_prefix xs ys" by (auto simp: properPrefix_def strict_prefix_def)
next
  assume "strict_prefix xs ys"
  then show "properPrefix xs ys"
    by (auto simp: properPrefix_def strict_prefix_def prefix_def)
qed

lemma decode_nullable_metadata_again:
  "decode_nullable_metadata sid m = Some n \<Longrightarrow> pred_option (canonical_metadata sid) n"
  by (auto simp: decode_nullable_metadata_def decodeArchiveMetadata_canonical split: option.splits)

text \<open>Metadata asserts a kind and a root session where it is present and has these fields.\<close>

definition asserted_kind :: "ArchiveMetadata option \<Rightarrow> SessionKind option" where
  "asserted_kind m = (case m of None \<Rightarrow> None | Some x \<Rightarrow> meta_kind x)"

definition asserted_root :: "ArchiveMetadata option \<Rightarrow> string option" where
  "asserted_root m = (case m of None \<Rightarrow> None | Some x \<Rightarrow> root_session_id x)"

text \<open>The second copy holds the first: its body begins with the bytes of the other, it asserts the same kind and root
  wherever the other asserts one, and copies of one body have the same metadata.\<close>

definition holds_copy :: "body \<Rightarrow> ArchiveMetadata option \<Rightarrow> body \<Rightarrow> ArchiveMetadata option \<Rightarrow> bool" where
  "holds_copy s sm l lm \<longleftrightarrow> prefix s l
     \<and> (\<forall>k. asserted_kind sm = Some k \<longrightarrow> asserted_kind lm = Some k)
     \<and> (\<forall>i. asserted_root sm = Some i \<longrightarrow> asserted_root lm = Some i)
     \<and> (s = l \<longrightarrow> sm = lm)"

lemma losesAssertion_iff:
  "losesAssertion sm lm \<longleftrightarrow> \<not> ((\<forall>k. asserted_kind sm = Some k \<longrightarrow> asserted_kind lm = Some k)
     \<and> (\<forall>i. asserted_root sm = Some i \<longrightarrow> asserted_root lm = Some i))"
  by (auto simp: losesAssertion_def asserted_kind_def asserted_root_def Let_def split: option.splits)

lemma losesAssertion_refl [simp]: "\<not> losesAssertion m m"
  by (simp add: losesAssertion_iff)

lemma holds_copy_iff: "holds_copy s sm l lm \<longleftrightarrow> prefix s l \<and> \<not> losesAssertion sm lm \<and> (s = l \<longrightarrow> sm = lm)"
  by (auto simp: holds_copy_def losesAssertion_iff)

lemma reconcile_bodies_covered:
  assumes "pred_option (canonical_metadata sid) lm" "pred_option (canonical_metadata sid) rm"
  shows "reconcile_bodies sha256 l lm r rm revision supported = Covered revision' \<longleftrightarrow> revision' = revision \<and> holds_copy l lm r rm"
  using nullable_metadata_text [OF assms]
  by (auto simp: reconcile_bodies_def preservation_def holds_copy_iff properPrefix_iff strict_prefix_def)

lemma reconcile_bodies_publish:
  "reconcile_bodies sha256 l lm r rm revision supported = Publish c
     \<longleftrightarrow> c = Exact_base_revision revision \<and> r \<noteq> l \<and> holds_copy r rm l lm"
  by (auto simp: reconcile_bodies_def preservation_def holds_copy_iff properPrefix_iff strict_prefix_def)


definition example_main :: ArchiveMetadata where
  "example_main = \<lparr>meta_kind = Some Main, root_session_id = Some ''s1'', meta_title = None, started_at = None, last_activity_at = None,
     meta_counts = None, meta_summary = None\<rparr>"

definition example_revision :: Revision where
  "example_revision = \<lparr>rev_binding = \<lparr>server_id = ''s'', namespace_id = ''n'', history_generation = ''g''\<rparr>, seq = ''7''\<rparr>"

definition example_local :: ArchiveCandidate where
  "example_local = \<lparr>candidate_session = ''s1'', candidate_body = [1, 2, 3], candidate_metadata = None\<rparr>"

lemma example_main_decodes: "decode_nullable_metadata ''s1'' (Some example_main) = Some (Some example_main)"
  by code_simp

lemma example_lost: "asserted_kind (Some example_main) = Some Main" "asserted_kind None = None"
  by code_simp+


lemma text_less_total: "s \<noteq> t \<Longrightarrow> text_less s t \<or> text_less t s"
proof (induction s t rule: text_less.induct)
  case (1 s)
  then show ?case by (cases s) auto
qed auto

lemma text_less_asym: "text_less s t \<Longrightarrow> \<not> text_less t s"
  by (induction s t rule: text_less.induct) auto

lemma local_preferred_swap:
  "sha256 l \<noteq> sha256 r \<Longrightarrow> local_preferred sha256 l r \<longleftrightarrow> \<not> local_preferred sha256 r l"
  using text_less_total [of "sha256 l" "sha256 r"] text_less_asym [of "sha256 l" "sha256 r"]
  by (auto simp: local_preferred_def)

text \<open>When two bodies diverge, two machines that each see the other's copy as the canonical one agree on the winner: exactly
  one of them publishes its own body (after preserving the other) and the other one preserves its own, whenever the
  digests of the bodies differ and preservation is supported.\<close>

theorem divergence_has_one_winner:
  assumes "\<not> prefix l r" "\<not> prefix r l" "sha256 l \<noteq> sha256 r"
  shows "reconcile_bodies sha256 l lm r rm revision True = Preserve_uploaded Divergence
      \<and> reconcile_bodies sha256 r rm l lm revision' True = Preserve_current_then_publish Divergence (Exact_base_revision revision')
    \<or> reconcile_bodies sha256 l lm r rm revision True = Preserve_current_then_publish Divergence (Exact_base_revision revision)
      \<and> reconcile_bodies sha256 r rm l lm revision' True = Preserve_uploaded Divergence"
proof -
  from assms have d: "l \<noteq> r" "\<not> properPrefix l r" "\<not> properPrefix r l" by (auto simp: properPrefix_iff strict_prefix_def)
  with local_preferred_swap [OF assms(3)] show ?thesis by (auto simp: reconcile_bodies_def preservation_def)
qed

end
