(* ===== verification/Archive_State.thy ===== *)
theory Archive_State
  imports Archive_Ancestry Archive_Reconciler
begin

text \<open>
  The durable state of the archive worker, \<open>src/src/server/ArchiveWorkerState.ts\<close>: its tables as lists of rows in the order
  of insertion, and the checks that read them.  A column that holds JSON is the value of its text, and texts are equal
  when the values are.  SHA-256 is the parameter \<open>sha256\<close> on bytes.  A check is \<open>None\<close> where the program throws.
\<close>

section \<open>Tables\<close>

datatype op_state = Op_ready | Op_uncertain | Op_blocked | Op_accepted | Op_rejected | Op_fenced | Op_invalid
datatype candidate_state = Cand_ready | Cand_paused | Cand_covered | Cand_invalid
datatype scope_state = Scope_ready | Scope_scanned | Scope_complete | Scope_invalid
datatype source_state = Source_ready | Source_captured | Source_invalid | Source_lost | Source_excluded

record DestinationRow =
  dest_id :: string
  dest_origin :: string
  dest_generation :: string
  dest_binding :: "js_value option"

record ScopeRow =
  scp_id :: string
  scp_destination :: string
  scp_manifest :: js_value
  scp_source :: js_value
  scp_cursor :: "string option"
  scp_state :: scope_state
  scp_attempts :: int
  scp_due :: int
  scp_turn :: int
  scp_diagnostic :: "string option"
  scp_catalog_revision :: int
  scp_review_target :: "int option"
  scp_review_cursor :: int

record SourceRow =
  src_id :: int
  src_scope :: string
  src_file :: string
  src_directory :: bool
  src_retry_cursor :: "string option"
  src_evidence :: "js_value option"
  src_state :: source_state
  src_attempts :: int
  src_missing :: int
  src_due :: int
  src_turn :: int
  src_diagnostic :: "string option"
  src_dependencies :: "js_value option"
  src_dependency_key :: "string option"

record CandidateRow =
  cand_id :: string
  cand_destination :: string
  cand_session :: string
  cand_source :: string
  cand_byte_length :: int
  cand_sha256 :: string
  cand_metadata :: js_value
  cand_body :: "body option"
  cand_legacy_profile :: "js_value option"
  cand_legacy_capture :: "string option"
  cand_state :: candidate_state
  cand_attempts :: int
  cand_due :: int
  cand_turn :: int
  cand_diagnostic :: "string option"

record OperationRow =
  op_id :: string
  op_destination :: string
  op_candidate :: string
  op_kind :: string
  op_request :: js_value
  op_state :: op_state
  op_dispatched :: int
  op_replay_blocked :: int
  op_attempts :: int
  op_due :: int
  op_turn :: int
  op_dependency :: "string option"
  op_comparison :: "js_value option"
  op_receipt :: "js_value option"
  op_diagnostic :: "string option"

record CoverageRow =
  cov_candidate :: string
  cov_binding :: "js_value option"
  cov_evidence :: js_value

record LinkRow =
  link_candidate :: string
  link_source :: int
  link_dependencies :: js_value
  link_key :: string

record AuthorizationRow =
  auth_generation :: string
  auth_binding :: "js_value option"
  auth_capabilities :: "string list"
  auth_blocked :: bool
  auth_attempts :: int
  auth_due :: int

record ComparisonRow =
  cmp_candidate :: string
  cmp_snapshot :: js_value
  cmp_body :: "body option"
  cmp_cursor :: "string option"

text \<open>The tables of the earlier journal.\<close>

record UploadRow =
  upl_profile :: js_value
  upl_session :: string
  upl_source :: string
  upl_pending :: "js_value option"
  upl_body :: "body option"
  upl_accepted :: "js_value option"

record CaptureRow =
  cap_profile :: js_value
  cap_id :: string
  cap_session :: string
  cap_source :: string
  cap_byte_length :: int
  cap_sha256 :: string
  cap_metadata :: js_value
  cap_body :: body

record WorkerState =
  destinations :: "DestinationRow list"
  scopes :: "ScopeRow list"
  sources :: "SourceRow list"
  candidates :: "CandidateRow list"
  operations :: "OperationRow list"
  coverage :: "CoverageRow list"
  candidate_sources :: "LinkRow list"
  authorizations :: "AuthorizationRow list"
  comparisons :: "ComparisonRow list"
  uploads :: "UploadRow list"
  captures :: "CaptureRow list"
  working :: int

text \<open>\<open>UPDATE ... SET f WHERE p\<close>\<close>

definition update_rows :: "('r \<Rightarrow> bool) \<Rightarrow> ('r \<Rightarrow> 'r) \<Rightarrow> 'r list \<Rightarrow> 'r list" where
  "update_rows p f rows = map (\<lambda>r. if p r then f r else r) rows"

text \<open>\<open>ORDER BY turn, id LIMIT 1\<close>\<close>

fun least_row :: "('r \<Rightarrow> 'r \<Rightarrow> bool) \<Rightarrow> 'r list \<Rightarrow> 'r option" where
  "least_row lt [] = None"
| "least_row lt (r # rows) = (case least_row lt rows of None \<Rightarrow> Some r | Some s \<Rightarrow> if lt s r then Some s else Some r)"

definition safe_number :: "int \<Rightarrow> int option" where
  "safe_number i = (if 0 \<le> i \<and> i \<le> int MAX_SAFE_INTEGER then Some i else None)"

definition text_bytes :: "string \<Rightarrow> body" where
  "text_bytes s = concat (map (\<lambda>c. let n = (of_char c :: nat) in
     if n < 128 then [of_nat n] else [of_nat (192 + n div 64), of_nat (128 + n mod 64)]) s)"

definition value_hash :: "(body \<Rightarrow> string) \<Rightarrow> js_value \<Rightarrow> string" where
  "value_hash sha256 v = sha256 (text_bytes (stringify v))"

section \<open>Candidates\<close>

record WorkCandidate =
  wc_id :: string
  wc_destination :: string
  wc_session :: string
  wc_source :: string
  wc_byteLength :: int
  wc_sha256 :: string
  wc_metadata :: "ArchiveMetadata option"
  wc_attempts :: int

definition destinationId :: "(body \<Rightarrow> string) \<Rightarrow> string \<Rightarrow> string \<Rightarrow> string" where
  "destinationId sha256 origin generation = value_hash sha256 (JArr [JStr origin, JStr generation])"

definition candidateId :: "(body \<Rightarrow> string) \<Rightarrow> string \<Rightarrow> string \<Rightarrow> string \<Rightarrow> string \<Rightarrow> ArchiveMetadata \<Rightarrow> string" where
  "candidateId sha256 destination source sid sha metadata =
     value_hash sha256 (JArr [JStr destination, JStr source, JStr sid, JStr sha, metadata_value metadata])"

text \<open>The origin and the binding of a profile of the earlier journal.\<close>

definition profile_identity :: "js_value \<Rightarrow> (string \<times> js_value \<times> js_value \<times> js_value) option" where
  "profile_identity profile = (case profile of JArr [JStr origin, s, n, g] \<Rightarrow> Some (origin, s, n, g) | _ \<Rightarrow> None)"

definition profile_binding :: "js_value \<times> js_value \<times> js_value \<Rightarrow> Binding option" where
  "profile_binding b = (case b of (s, n, g) \<Rightarrow>
     decodeArchiveBinding (JObj [(''server_id'', s), (''namespace_id'', n), (''history_generation'', g)]) True)"

definition legacy_generation :: "js_value \<Rightarrow> string" where
  "legacy_generation profile = ''legacy:'' @ stringify profile"

definition checkLegacyCandidate :: "(body \<Rightarrow> string) \<Rightarrow> WorkerState \<Rightarrow> WorkCandidate \<Rightarrow> js_value \<Rightarrow> string option \<Rightarrow> unit option" where
  "checkLegacyCandidate sha256 st c profile captureId = do {
     (origin, b) \<leftarrow> profile_identity profile;
     guard (destinationId sha256 origin (legacy_generation profile) = wc_destination c);
     binding \<leftarrow> profile_binding b;
     case captureId of
       Some capture \<Rightarrow> do {
         m \<leftarrow> wc_metadata c;
         guard (capture = value_hash sha256 (JArr [JStr (wc_source c), JStr (wc_session c), JInt (wc_byteLength c), JStr (wc_sha256 c), metadata_value m]));
         guard (wc_id c = ''capture:'' @ value_hash sha256 profile @ '':'' @ capture) }
     | None \<Rightarrow> do {
         original \<leftarrow> find (\<lambda>x. op_id x = wc_id c \<and> op_candidate x = wc_id c \<and> op_kind x = ''publish'') (operations st);
         request \<leftarrow> decodeArchivePublication (op_request original) True;
         guard (wc_id c = ''legacy:'' @ wc_destination c @ '':'' @ pub_operation_id request);
         guard (sameArchiveBinding binding (pub_binding request) \<and> pub_session_id request = wc_session c \<and> pub_byte_length request = wc_byteLength c
           \<and> pub_sha256 request = wc_sha256 c \<and> pub_metadata request = wc_metadata c);
         u \<leftarrow> find (\<lambda>u. upl_profile u = profile \<and> upl_session u = pub_session_id request) (uploads st);
         guard (upl_source u = wc_source c) }
   }"

definition hex64 :: "string \<Rightarrow> bool" where
  "hex64 s \<longleftrightarrow> length s = 64 \<and> hex_text s"

definition decodeCandidate :: "(body \<Rightarrow> string) \<Rightarrow> WorkerState \<Rightarrow> CandidateRow \<Rightarrow> WorkCandidate option" where
  "decodeCandidate sha256 st r = do {
     sid \<leftarrow> decodeArchiveId (JStr (cand_session r));
     len \<leftarrow> safe_number (cand_byte_length r);
     m \<leftarrow> nullable (\<lambda>v. decodeArchiveMetadata v sid True) (cand_metadata r);
     attempts \<leftarrow> safe_number (cand_attempts r);
     guard (path_isAbsolute (cand_source r) \<and> CHR 0x00 \<notin> set (cand_source r) \<and> hex64 (cand_destination r) \<and> hex64 (cand_sha256 r) \<and> len \<le> MAX_ARCHIVE_BYTES);
     let c = \<lparr>wc_id = cand_id r, wc_destination = cand_destination r, wc_session = sid, wc_source = cand_source r, wc_byteLength = len,
       wc_sha256 = cand_sha256 r, wc_metadata = m, wc_attempts = attempts\<rparr> in
     (case cand_legacy_profile r of
        None \<Rightarrow> (case m of
            None \<Rightarrow> None
          | Some meta \<Rightarrow> if cand_legacy_capture r = None \<and> abs_path (normalizeString (cand_source r) False) = cand_source r
              \<and> cand_id r = candidateId sha256 (cand_destination r) (cand_source r) sid (cand_sha256 r) meta then Some c else None)
      | Some profile \<Rightarrow> do { checkLegacyCandidate sha256 st c profile (cand_legacy_capture r); Some c })
   }"

definition candidate_row :: "WorkerState \<Rightarrow> string \<Rightarrow> CandidateRow option" where
  "candidate_row st i = find (\<lambda>r. cand_id r = i) (candidates st)"

definition candidate :: "(body \<Rightarrow> string) \<Rightarrow> WorkerState \<Rightarrow> string \<Rightarrow> WorkCandidate option" where
  "candidate sha256 st i = do { r \<leftarrow> candidate_row st i; decodeCandidate sha256 st r }"

text \<open>The retained body of a candidate, in its own row or in the earlier journal.\<close>

definition retained_body :: "(body \<Rightarrow> string) \<Rightarrow> WorkerState \<Rightarrow> string \<Rightarrow> body option" where
  "retained_body sha256 st i = do {
     c \<leftarrow> candidate sha256 st i;
     owner \<leftarrow> candidate_row st i;
     b \<leftarrow> (case (cand_body owner, cand_legacy_profile owner, cand_legacy_capture owner) of
         (None, Some profile, None) \<Rightarrow> Option.bind (find (\<lambda>u. upl_profile u = profile \<and> upl_session u = wc_session c) (uploads st)) upl_body
       | (None, Some profile, Some capture) \<Rightarrow> map_option cap_body (find (\<lambda>u. cap_profile u = profile \<and> cap_id u = capture) (captures st))
       | (own, _, _) \<Rightarrow> own);
     guard (int (length b) = wc_byteLength c \<and> sha256 b = wc_sha256 c);
     Some b
   }"

section \<open>Ancestry\<close>

definition sort_text :: "string list \<Rightarrow> string list" where
  "sort_text xs = sort_key (map of_char :: string \<Rightarrow> nat list) (remdups xs)"

definition decodeDependencies :: "js_value \<Rightarrow> string \<Rightarrow> (string list \<times> string list) option" where
  "decodeDependencies v own = do {
     row \<leftarrow> object v [''files'', ''sessionIds''] True;
     fs \<leftarrow> (case prop_of row ''files'' of JArr vs \<Rightarrow> if length vs \<le> 10000 then decode_all isAbsolutePath vs else None | _ \<Rightarrow> None);
     ss \<leftarrow> (case prop_of row ''sessionIds'' of JArr vs \<Rightarrow> if length vs \<le> 10000 then decode_all decodeArchiveId vs else None | _ \<Rightarrow> None);
     Some (sort_text (filter (\<lambda>f. f \<noteq> own) fs), sort_text ss)
   }"

definition dependencies_value :: "string list \<times> string list \<Rightarrow> js_value" where
  "dependencies_value d = JObj [(''files'', JArr (map JStr (fst d))), (''sessionIds'', JArr (map JStr (snd d)))]"

definition evidence_value :: "ArchiveSourceEvidence \<Rightarrow> js_value" where
  "evidence_value e = JObj (obj_of [(''file'', Some (JStr (evidence_file e))), (''session'', Some (identity_value (evidence_session e))),
     (''parentSession'', map_option JStr (evidence_parent e))])"

definition evidence_session_id :: "js_value \<Rightarrow> string option" where
  "evidence_session_id v = (case v of JObj row \<Rightarrow> (case prop_of row ''session'' of JObj s \<Rightarrow> js_text (prop_of s ''sessionId'') | _ \<Rightarrow> None) | _ \<Rightarrow> None)"

definition dependency_rows :: "WorkerState \<Rightarrow> string \<Rightarrow> string list \<times> string list \<Rightarrow> js_value list" where
  "dependency_rows st scope d = List.map_filter src_evidence (sort_key (\<lambda>r. map of_char (src_file r) :: nat list) (filter (\<lambda>r. src_scope r = scope
     \<and> (src_file r \<in> set (fst d) \<or> (case Option.bind (src_evidence r) evidence_session_id of Some s \<Rightarrow> s \<in> set (snd d) | None \<Rightarrow> False))) (sources st)))"

definition dependencyKey :: "(body \<Rightarrow> string) \<Rightarrow> WorkerState \<Rightarrow> string \<Rightarrow> string list \<times> string list \<Rightarrow> string option" where
  "dependencyKey sha256 st scope d = do {
     es \<leftarrow> decode_all decodeArchiveSourceEvidence (dependency_rows st scope d);
     Some (value_hash sha256 (JArr [dependencies_value d, JArr (map evidence_value es)]))
   }"

text \<open>The observations of a candidate with the scope of their source.\<close>

definition candidate_observations :: "WorkerState \<Rightarrow> string \<Rightarrow> (LinkRow \<times> string) list" where
  "candidate_observations st i = List.map_filter (\<lambda>l. map_option (\<lambda>s. (l, src_scope s)) (find (\<lambda>s. src_id s = link_source l) (sources st)))
     (filter (\<lambda>l. link_candidate l = i) (candidate_sources st))"

fun some_current :: "(body \<Rightarrow> string) \<Rightarrow> WorkerState \<Rightarrow> string \<Rightarrow> (LinkRow \<times> string) list \<Rightarrow> bool option" where
  "some_current sha256 st file [] = Some False"
| "some_current sha256 st file ((l, scope) # rows) = do {
     d \<leftarrow> decodeDependencies (link_dependencies l) file;
     key \<leftarrow> dependencyKey sha256 st scope d;
     if key = link_key l then Some True else some_current sha256 st file rows
   }"

definition candidateAuthorized :: "(body \<Rightarrow> string) \<Rightarrow> WorkerState \<Rightarrow> string \<Rightarrow> bool option" where
  "candidateAuthorized sha256 st i = do {
     c \<leftarrow> candidate sha256 st i;
     if candidate_observations st i = [] then Some (prefix ''legacy:'' (wc_id c) \<or> prefix ''capture:'' (wc_id c))
     else some_current sha256 st (wc_source c) (candidate_observations st i)
   }"

section \<open>Operations\<close>

datatype request = Publish_request Publication | Preserve_request Preservation

fun req_session :: "request \<Rightarrow> string" where
  "req_session (Publish_request p) = pub_session_id p"
| "req_session (Preserve_request p) = preservation_session p"

fun req_binding :: "request \<Rightarrow> Binding" where
  "req_binding (Publish_request p) = pub_binding p"
| "req_binding (Preserve_request p) = preservation_binding p"

fun req_operation :: "request \<Rightarrow> string" where
  "req_operation (Publish_request p) = pub_operation_id p"
| "req_operation (Preserve_request (Uploaded p)) = up_operation_id p"
| "req_operation (Preserve_request (Current p)) = cur_operation_id p"

fun req_value :: "request \<Rightarrow> js_value" where
  "req_value (Publish_request p) = publication_value p"
| "req_value (Preserve_request p) = preservation_value p"

text \<open>The kind and the content that a request must share with its candidate.\<close>

fun req_matches :: "string \<Rightarrow> WorkCandidate \<Rightarrow> request \<Rightarrow> bool" where
  "req_matches kind c (Publish_request p) = (pub_byte_length p = wc_byteLength c \<and> pub_sha256 p = wc_sha256 c \<and> pub_metadata p = wc_metadata c)"
| "req_matches kind c (Preserve_request (Uploaded p)) = (kind = ''uploaded'' \<and> up_byte_length p = wc_byteLength c \<and> up_sha256 p = wc_sha256 c \<and> up_metadata p = wc_metadata c)"
| "req_matches kind c (Preserve_request (Current p)) = (kind = ''current'')"

definition operationRequest :: "string \<Rightarrow> js_value \<Rightarrow> WorkCandidate \<Rightarrow> request option" where
  "operationRequest kind v c = do {
     r \<leftarrow> (if kind = ''publish'' then map_option Publish_request (decodeArchivePublication v True)
           else map_option Preserve_request (decodeArchivePreservation v True));
     guard (req_session r = wc_session c \<and> req_matches kind c r);
     Some r
   }"

definition unresolved :: "OperationRow \<Rightarrow> bool" where
  "unresolved x \<longleftrightarrow> op_state x \<in> {Op_ready, Op_uncertain, Op_blocked}"

definition destination_binding :: "WorkerState \<Rightarrow> string \<Rightarrow> js_value option" where
  "destination_binding st i = Option.bind (find (\<lambda>d. dest_id d = i) (destinations st)) dest_binding"

definition binding_authorized :: "WorkerState \<Rightarrow> string \<Rightarrow> Binding \<Rightarrow> unit option" where
  "binding_authorized st destination b = do {
     v \<leftarrow> destination_binding st destination;
     d \<leftarrow> decodeArchiveBinding v True;
     guard (sameArchiveBinding d b)
   }"

definition checkCurrentReceipt :: "PreservationReceipt \<Rightarrow> js_value option \<Rightarrow> unit option" where
  "checkCurrentReceipt receipt comparison = do {
     guard (case preserved_request receipt of Current _ \<Rightarrow> True | Uploaded _ \<Rightarrow> False);
     v \<leftarrow> comparison;
     snapshot \<leftarrow> (case v of JObj row \<Rightarrow> decodeArchiveSessionMetadata (prop_of row ''snapshot'') True | _ \<Rightarrow> None);
     let variant = preserved_variant receipt in
     guard (source_revision receipt = Some (session_revision snapshot) \<and> session_id variant = session_id snapshot
       \<and> session_sha256 variant = session_sha256 snapshot \<and> session_byte_length variant = session_byte_length snapshot
       \<and> session_metadata variant = session_metadata snapshot \<and> source_uploaded_at receipt = uploaded_at snapshot)
   }"

text \<open>What holds of every stored operation, settled or not.\<close>

definition check_request :: "(body \<Rightarrow> string) \<Rightarrow> WorkerState \<Rightarrow> OperationRow \<Rightarrow> (WorkCandidate \<times> request) option" where
  "check_request sha256 st row = do {
     guard (op_kind row \<in> {''publish'', ''uploaded'', ''current''});
     guard (op_dispatched row \<in> {0, 1} \<and> op_replay_blocked row \<in> {0, 1} \<and> \<not> (op_replay_blocked row = 1 \<and> op_dispatched row \<noteq> 1));
     c \<leftarrow> candidate sha256 st (op_candidate row);
     r \<leftarrow> operationRequest (op_kind row) (op_request row) c;
     guard (op_destination row = wc_destination c \<and> (op_id row = req_operation r \<or> op_id row = ''legacy:'' @ wc_destination c @ '':'' @ req_operation r));
     Some (c, r)
   }"

definition checkPublicationDependency :: "(body \<Rightarrow> string) \<Rightarrow> WorkerState \<Rightarrow> WorkCandidate \<Rightarrow> request \<Rightarrow> string option \<Rightarrow> js_value option \<Rightarrow> unit option" where
  "checkPublicationDependency sha256 st c request dependency comparison = (case dependency of None \<Rightarrow> Some () | Some dep \<Rightarrow> do {
     accepted \<leftarrow> find (\<lambda>x. op_id x = dep \<and> op_state x = Op_accepted \<and> op_kind x = ''current'' \<and> op_candidate x = wc_id c) (operations st);
     guard (op_comparison accepted = comparison);
     revision \<leftarrow> (case request of Publish_request p \<Rightarrow> (case pub_condition p of Exact_base_revision r \<Rightarrow> Some r | Absent \<Rightarrow> None) | _ \<Rightarrow> None);
     (_, stored) \<leftarrow> check_request sha256 st accepted;
     copy \<leftarrow> (case stored of Preserve_request p \<Rightarrow> Some p | _ \<Rightarrow> None);
     v \<leftarrow> op_receipt accepted;
     receipt \<leftarrow> decodeArchivePreservationReceipt v True;
     guard (preserved_request receipt = copy);
     checkCurrentReceipt receipt comparison;
     (case copy of
        Current p \<Rightarrow> guard (cur_session_id p = req_session request \<and> sameArchiveBinding (cur_binding p) (req_binding request) \<and> cur_revision p = revision)
      | Uploaded _ \<Rightarrow> None)
   })"

definition checkStoredOperation :: "(body \<Rightarrow> string) \<Rightarrow> WorkerState \<Rightarrow> OperationRow \<Rightarrow> request option" where
  "checkStoredOperation sha256 st row = do {
     (c, r) \<leftarrow> check_request sha256 st row;
     if unresolved row then do {
       binding_authorized st (wc_destination c) (req_binding r);
       checkPublicationDependency sha256 st c r (op_dependency row) (op_comparison row);
       Some r
     } else Some r
   }"

text \<open>\<open>UNRESOLVED_OPERATION_MATCH\<close>: the operation may concern the history and session of the candidate.\<close>

definition text_at :: "js_value \<Rightarrow> string \<Rightarrow> string option" where
  "text_at v k = (case v of JObj row \<Rightarrow> js_text (prop_of row k) | _ \<Rightarrow> None)"

definition value_at :: "js_value \<Rightarrow> string \<Rightarrow> js_value" where
  "value_at v k = (case v of JObj row \<Rightarrow> prop_of row k | _ \<Rightarrow> JUndefined)"

definition same_text :: "string option \<Rightarrow> string option \<Rightarrow> bool" where
  "same_text a b \<longleftrightarrow> a \<noteq> None \<and> a = b"

definition unresolved_match :: "WorkerState \<Rightarrow> CandidateRow \<Rightarrow> OperationRow \<Rightarrow> bool" where
  "unresolved_match st c x \<longleftrightarrow> unresolved x \<and> (case destination_binding st (cand_destination c) of
     None \<Rightarrow> False
   | Some b \<Rightarrow> (destination_binding st (op_destination x) = Some b \<and> map_option cand_session (candidate_row st (op_candidate x)) = Some (cand_session c))
      \<or> (text_at (op_request x) ''session_id'' = Some (cand_session c)
         \<and> list_all (\<lambda>k. same_text (text_at (value_at (op_request x) ''binding'') k) (text_at b k)) [''server_id'', ''namespace_id'', ''history_generation'']))"

definition has_unresolved :: "WorkerState \<Rightarrow> CandidateRow \<Rightarrow> bool" where
  "has_unresolved st c \<longleftrightarrow> list_ex (unresolved_match st c) (operations st)"

end
