(* ===== verification/Archive_Worker.thy ===== *)
theory Archive_Worker
  imports Archive_State
begin

text \<open>
  The operations of the archive worker's state that schedule, send and settle requests,
  \<open>src/src/server/ArchiveWorkerState.ts\<close>.  An operation gives \<open>None\<close> where the program throws; its transaction is then
  rolled back.  The scheduling loops keep what they changed before they throw, so they return a state with every
  answer.  The clock and the random delay of a retry are arguments.
\<close>

section \<open>Candidates and comparisons\<close>

definition clearComparison :: "string \<Rightarrow> WorkerState \<Rightarrow> WorkerState" where
  "clearComparison c st = st\<lparr>comparisons := filter (\<lambda>r. cmp_candidate r \<noteq> c) (comparisons st)\<rparr>"

definition pauseCandidate :: "string \<Rightarrow> string \<Rightarrow> WorkerState \<Rightarrow> WorkerState" where
  "pauseCandidate c diagnostic st = clearComparison c (st\<lparr>candidates := update_rows (\<lambda>r. cand_id r = c)
     (\<lambda>r. r\<lparr>cand_state := Cand_paused, cand_diagnostic := Some diagnostic\<rparr>) (candidates st)\<rparr>)"

definition resumeCandidates :: "string \<Rightarrow> WorkerState \<Rightarrow> WorkerState" where
  "resumeCandidates d st = st\<lparr>candidates := update_rows (\<lambda>r. cand_destination r = d \<and> cand_state r = Cand_paused)
     (\<lambda>r. r\<lparr>cand_state := Cand_ready, cand_due := 0\<rparr>) (candidates st)\<rparr>"

definition defer_candidate :: "string \<Rightarrow> int \<Rightarrow> string \<Rightarrow> bool \<Rightarrow> int \<Rightarrow> WorkerState \<Rightarrow> WorkerState" where
  "defer_candidate c due diagnostic terminal now st = st\<lparr>candidates := update_rows (\<lambda>r. cand_id r = c)
     (\<lambda>r. r\<lparr>cand_due := due, cand_attempts := cand_attempts r + 1, cand_turn := now, cand_diagnostic := Some (take 160 diagnostic),
       cand_state := (if terminal then Cand_invalid else cand_state r)\<rparr>) (candidates st)\<rparr>"

definition defer_operation :: "string \<Rightarrow> int \<Rightarrow> string \<Rightarrow> int \<Rightarrow> WorkerState \<Rightarrow> WorkerState" where
  "defer_operation i due diagnostic now st = st\<lparr>operations := update_rows (\<lambda>r. op_id r = i)
     (\<lambda>r. r\<lparr>op_due := due, op_attempts := op_attempts r + 1, op_turn := now, op_diagnostic := Some (take 160 diagnostic)\<rparr>) (operations st)\<rparr>"

definition next_turn :: "WorkerState \<Rightarrow> int" where
  "next_turn st = fold max (map cand_turn (candidates st)) (case candidates st of [] \<Rightarrow> 0 | r # _ \<Rightarrow> cand_turn r) + 1"

definition last_in_turn :: "string \<Rightarrow> WorkerState \<Rightarrow> WorkerState" where
  "last_in_turn c st = st\<lparr>candidates := update_rows (\<lambda>r. cand_id r = c) (\<lambda>r. r\<lparr>cand_turn := next_turn st\<rparr>) (candidates st)\<rparr>"

definition comparisonCursor :: "string \<Rightarrow> string \<Rightarrow> WorkerState \<Rightarrow> WorkerState" where
  "comparisonCursor c cursor st = last_in_turn c (st\<lparr>comparisons := update_rows (\<lambda>r. cmp_candidate r = c) (\<lambda>r. r\<lparr>cmp_cursor := Some cursor\<rparr>) (comparisons st)\<rparr>)"

definition coherentComparison :: "string \<Rightarrow> js_value \<Rightarrow> WorkerState \<Rightarrow> WorkerState" where
  "coherentComparison c snapshot st = last_in_turn c (st\<lparr>comparisons := update_rows (\<lambda>r. cmp_candidate r = c)
     (\<lambda>r. r\<lparr>cmp_snapshot := snapshot, cmp_cursor := None\<rparr>) (comparisons st)\<rparr>)"

definition releaseComparisonBodies :: "string option \<Rightarrow> WorkerState \<Rightarrow> WorkerState" where
  "releaseComparisonBodies except st = st\<lparr>comparisons := update_rows (\<lambda>r. except \<noteq> Some (cmp_candidate r)) (\<lambda>r. r\<lparr>cmp_body := None\<rparr>) (comparisons st)\<rparr>"

definition pruneComparison :: "string list \<Rightarrow> WorkerState \<Rightarrow> WorkerState" where
  "pruneComparison ds st = st\<lparr>comparisons := filter (\<lambda>r. list_ex (\<lambda>c. cand_id c = cmp_candidate r \<and> cand_destination c \<in> set ds) (candidates st)) (comparisons st)\<rparr>"

definition saveComparison :: "string \<Rightarrow> js_value \<Rightarrow> body \<Rightarrow> WorkerState \<Rightarrow> WorkerState" where
  "saveComparison c snapshot b st = (let
     st = releaseComparisonBodies None st;
     new = \<lparr>cmp_candidate = c, cmp_snapshot = snapshot, cmp_body = Some b, cmp_cursor = None\<rparr> in
     last_in_turn c (st\<lparr>comparisons := (if list_ex (\<lambda>r. cmp_candidate r = c) (comparisons st) then update_rows (\<lambda>r. cmp_candidate r = c) (\<lambda>_. new) (comparisons st)
       else comparisons st @ [new])\<rparr>))"

definition ARCHIVE_WORKING_BYTES :: int where "ARCHIVE_WORKING_BYTES = 134217728"

definition staged_bytes :: "WorkerState \<Rightarrow> int" where
  "staged_bytes st = sum_list (map (\<lambda>r. case cmp_body r of None \<Rightarrow> 0 | Some b \<Rightarrow> int (length b)) (comparisons st))"

definition workingAvailable :: "WorkerState \<Rightarrow> int" where
  "workingAvailable st = ARCHIVE_WORKING_BYTES - staged_bytes st - working st"

definition reserve :: "int \<Rightarrow> WorkerState \<Rightarrow> WorkerState option" where
  "reserve bytes st = (if 0 \<le> bytes \<and> bytes \<le> int MAX_SAFE_INTEGER \<and> bytes \<le> workingAvailable st then Some (st\<lparr>working := working st + bytes\<rparr>) else None)"

text \<open>The first call of the function that \<open>reserve\<close> returned.\<close>

definition release :: "int \<Rightarrow> WorkerState \<Rightarrow> WorkerState" where
  "release bytes st = st\<lparr>working := working st - bytes\<rparr>"

section \<open>Coverage\<close>

definition cover_legacy :: "CandidateRow \<Rightarrow> WorkerState \<Rightarrow> WorkerState" where
  "cover_legacy r st = (case cand_legacy_profile r of None \<Rightarrow> st | Some profile \<Rightarrow> (case cand_legacy_capture r of
     Some capture \<Rightarrow> st\<lparr>captures := filter (\<lambda>x. \<not> (cap_profile x = profile \<and> cap_id x = capture)) (captures st)\<rparr>
   | None \<Rightarrow> st\<lparr>uploads := update_rows (\<lambda>u. upl_profile u = profile \<and> upl_session u = cand_session r \<and> (case upl_pending u of None \<Rightarrow> False
         | Some pending \<Rightarrow> list_ex (\<lambda>x. op_candidate x = cand_id r \<and> op_kind x = ''publish'' \<and> op_request x = pending) (operations st)))
       (\<lambda>u. u\<lparr>upl_pending := None, upl_body := None\<rparr>) (uploads st)\<rparr>))"

definition cover :: "(body \<Rightarrow> string) \<Rightarrow> string \<Rightarrow> js_value \<Rightarrow> WorkerState \<Rightarrow> WorkerState option" where
  "cover sha256 c evidence st = do {
     candidate sha256 st c;
     r \<leftarrow> candidate_row st c;
     d \<leftarrow> find (\<lambda>d. dest_id d = cand_destination r) (destinations st);
     let st = st\<lparr>coverage := filter (\<lambda>v. cov_candidate v \<noteq> c) (coverage st) @ [\<lparr>cov_candidate = c, cov_binding = dest_binding d, cov_evidence = evidence\<rparr>]\<rparr>;
       st = cover_legacy r st;
       st = st\<lparr>candidates := update_rows (\<lambda>r. cand_id r = c) (\<lambda>r. r\<lparr>cand_state := Cand_covered, cand_body := None\<rparr>) (candidates st)\<rparr> in
     Some (clearComparison c st)
   }"

section \<open>Operations\<close>

definition set_operation :: "(OperationRow \<Rightarrow> bool) \<Rightarrow> (OperationRow \<Rightarrow> OperationRow) \<Rightarrow> WorkerState \<Rightarrow> WorkerState" where
  "set_operation p f st = st\<lparr>operations := update_rows p f (operations st)\<rparr>"

definition prepare :: "(body \<Rightarrow> string) \<Rightarrow> string \<Rightarrow> string \<Rightarrow> js_value \<Rightarrow> string option \<Rightarrow> js_value option \<Rightarrow> int \<Rightarrow> WorkerState \<Rightarrow> WorkerState option" where
  "prepare sha256 i kind v dependency comparison now st = do {
     c \<leftarrow> candidate sha256 st i;
     r \<leftarrow> candidate_row st i;
     authorized \<leftarrow> candidateAuthorized sha256 st i;
     guard authorized;
     request \<leftarrow> operationRequest kind v c;
     binding_authorized st (wc_destination c) (req_binding request);
     guard (\<not> has_unresolved st r);
     checkPublicationDependency sha256 st c request dependency comparison;
     guard (\<not> list_ex (\<lambda>x. op_id x = req_operation request) (operations st));
     let row = \<lparr>op_id = req_operation request, op_destination = wc_destination c, op_candidate = wc_id c, op_kind = kind, op_request = req_value request,
         op_state = Op_ready, op_dispatched = 0, op_replay_blocked = 0, op_attempts = 0, op_due = 0, op_turn = 0, op_dependency = dependency,
         op_comparison = comparison, op_receipt = None, op_diagnostic = None\<rparr>;
       st = st\<lparr>operations := operations st @ [row],
         candidates := update_rows (\<lambda>r. cand_id r = i) (\<lambda>r. r\<lparr>cand_turn := now\<rparr>) (candidates st)\<rparr> in
     Some (clearComparison i st)
   }"

definition quarantineOperation :: "OperationRow \<Rightarrow> WorkerState \<Rightarrow> WorkerState" where
  "quarantineOperation x st = (let unsettled = (op_dispatched x \<noteq> 0 \<or> op_state x = Op_uncertain \<or> op_state x = Op_blocked) in
     pauseCandidate (op_candidate x) ''invalid-operation-evidence'' (set_operation (\<lambda>r. op_id r = op_id x \<and> unresolved r)
       (\<lambda>r. r\<lparr>op_state := (if unsettled then Op_blocked else Op_invalid), op_replay_blocked := (if unsettled then 1 else 0),
         op_diagnostic := Some ''invalid-operation-evidence''\<rparr>) st))"

record WorkOperation =
  wo_id :: string
  wo_destination :: string
  wo_candidate :: string
  wo_kind :: string
  wo_request :: js_value
  wo_uncertain :: bool
  wo_dispatched :: bool
  wo_replayBlocked :: bool
  wo_attempts :: int
  wo_dependency :: "string option"
  wo_comparison :: "js_value option"

definition work_operation :: "OperationRow \<Rightarrow> WorkOperation option" where
  "work_operation r = do {
     attempts \<leftarrow> safe_number (op_attempts r);
     Some \<lparr>wo_id = op_id r, wo_destination = op_destination r, wo_candidate = op_candidate r, wo_kind = op_kind r, wo_request = op_request r,
       wo_uncertain = (op_state r = Op_uncertain), wo_dispatched = (op_dispatched r = 1), wo_replayBlocked = (op_replay_blocked r = 1),
       wo_attempts = attempts, wo_dependency = op_dependency r, wo_comparison = op_comparison r\<rparr>
   }"

datatype 'a call = Threw | Returned 'a

definition of_option :: "'a option \<Rightarrow> 'a option call" where
  "of_option x = (case x of None \<Rightarrow> Threw | Some y \<Rightarrow> Returned (Some y))"

definition due_operation :: "string list \<Rightarrow> int \<Rightarrow> WorkerState \<Rightarrow> OperationRow option" where
  "due_operation ds now st = least_row (\<lambda>a b. op_turn a < op_turn b \<or> (op_turn a = op_turn b \<and> text_less (op_id a) (op_id b)))
     (filter (\<lambda>r. op_state r \<in> {Op_ready, Op_uncertain} \<and> op_due r \<le> now \<and> op_destination r \<in> set ds) (operations st))"

text \<open>May this ready operation be sent again?  \<open>None\<close> where the check throws.\<close>

definition may_send :: "(body \<Rightarrow> string) \<Rightarrow> OperationRow \<Rightarrow> WorkerState \<Rightarrow> bool option" where
  "may_send sha256 r st = (if op_replay_blocked r = 1 then Some False else candidateAuthorized sha256 st (op_candidate r))"

definition retire_ready :: "OperationRow \<Rightarrow> WorkerState \<Rightarrow> WorkerState" where
  "retire_ready r st = pauseCandidate (op_candidate r) ''ancestry-changed'' (set_operation (\<lambda>x. op_id x = op_id r \<and> op_state x = Op_ready)
     (\<lambda>x. x\<lparr>op_state := (if op_dispatched r = 1 then Op_uncertain else Op_fenced)\<rparr>) st)"

fun next_operation :: "nat \<Rightarrow> (body \<Rightarrow> string) \<Rightarrow> string list \<Rightarrow> int \<Rightarrow> WorkerState \<Rightarrow> WorkOperation option call \<times> WorkerState" where
  "next_operation 0 sha256 ds now st = (Returned None, st)"
| "next_operation (Suc n) sha256 ds now st = (case due_operation ds now st of
     None \<Rightarrow> (Returned None, st)
   | Some r \<Rightarrow> (case checkStoredOperation sha256 st r of
       None \<Rightarrow> next_operation n sha256 ds now (quarantineOperation r st)
     | Some _ \<Rightarrow> if op_state r = Op_ready then
         (case may_send sha256 r st of
            None \<Rightarrow> (Threw, st)
          | Some True \<Rightarrow> (of_option (work_operation r), st)
          | Some False \<Rightarrow> let st' = retire_ready r st in
              if op_dispatched r = 0 then next_operation n sha256 ds now st'
              else (of_option (work_operation (r\<lparr>op_state := Op_uncertain\<rparr>)), st'))
       else (of_option (work_operation r), st)))"

definition nextOperation :: "(body \<Rightarrow> string) \<Rightarrow> string list \<Rightarrow> int \<Rightarrow> WorkerState \<Rightarrow> WorkOperation option call \<times> WorkerState" where
  "nextOperation sha256 ds now st = (if ds = [] then (Returned None, st) else next_operation 64 sha256 ds now st)"

definition due_candidate :: "string list \<Rightarrow> int \<Rightarrow> WorkerState \<Rightarrow> CandidateRow option" where
  "due_candidate ds now st = least_row (\<lambda>a b. cand_turn a < cand_turn b \<or> (cand_turn a = cand_turn b \<and> text_less (cand_id a) (cand_id b)))
     (filter (\<lambda>r. cand_state r = Cand_ready \<and> cand_due r \<le> now \<and> cand_destination r \<in> set ds
       \<and> \<not> has_unresolved st r) (candidates st))"

fun next_candidate :: "nat \<Rightarrow> (body \<Rightarrow> string) \<Rightarrow> string list \<Rightarrow> int \<Rightarrow> WorkerState \<Rightarrow> WorkCandidate option call \<times> WorkerState" where
  "next_candidate 0 sha256 ds now st = (Returned None, st)"
| "next_candidate (Suc n) sha256 ds now st = (case due_candidate ds now st of
     None \<Rightarrow> (Returned None, st)
   | Some r \<Rightarrow> (case (decodeCandidate sha256 st r, candidateAuthorized sha256 st (cand_id r)) of
       (Some c, Some True) \<Rightarrow> (Returned (Some c), st)
     | (Some c, Some False) \<Rightarrow> next_candidate n sha256 ds now (pauseCandidate (wc_id c) ''ancestry-changed'' st)
     | _ \<Rightarrow> (Threw, st)))"

definition nextCandidate :: "(body \<Rightarrow> string) \<Rightarrow> string list \<Rightarrow> int \<Rightarrow> WorkerState \<Rightarrow> WorkCandidate option call \<times> WorkerState" where
  "nextCandidate sha256 ds now st = (if ds = [] then (Returned None, st) else next_candidate 64 sha256 ds now st)"

definition markUncertain :: "string \<Rightarrow> WorkerState \<Rightarrow> WorkerState" where
  "markUncertain i st = set_operation (\<lambda>r. op_id r = i \<and> op_state r = Op_ready) (\<lambda>r. r\<lparr>op_state := Op_uncertain, op_dispatched := 1\<rparr>) st"

definition replay :: "(body \<Rightarrow> string) \<Rightarrow> string \<Rightarrow> int \<Rightarrow> int \<Rightarrow> WorkerState \<Rightarrow> WorkerState option" where
  "replay sha256 i recoveryDue now st = (if recoveryDue < 0 \<or> int MAX_SAFE_INTEGER < recoveryDue then None
     else case find (\<lambda>r. op_id r = i \<and> op_state r = Op_uncertain) (operations st) of
       None \<Rightarrow> Some st
     | Some x \<Rightarrow> do {
         resend \<leftarrow> (if op_replay_blocked x = 0 then candidateAuthorized sha256 st (op_candidate x) else Some False);
         if resend then Some (set_operation (\<lambda>r. op_id r = i) (\<lambda>r. r\<lparr>op_state := Op_ready, op_dispatched := 1, op_turn := now, op_due := 0\<rparr>) st)
         else let st' = set_operation (\<lambda>r. op_id r = i) (\<lambda>r. r\<lparr>op_dispatched := 1, op_due := recoveryDue, op_attempts := op_attempts r + 1, op_turn := now,
             op_diagnostic := (if op_replay_blocked r = 1 then op_diagnostic r else Some ''ancestry-receipt-only'')\<rparr>) st in
           Some (if op_replay_blocked x = 0 then pauseCandidate (op_candidate x) ''ancestry-changed'' st' else st')
       })"

definition failOperation :: "string \<Rightarrow> int \<Rightarrow> string \<Rightarrow> int \<Rightarrow> WorkerState \<Rightarrow> WorkerState" where
  "failOperation i recoveryDue diagnostic now st = (case find (\<lambda>r. op_id r = i \<and> op_state r \<in> {Op_ready, Op_uncertain}) (operations st) of
     None \<Rightarrow> st
   | Some x \<Rightarrow> if op_dispatched x = 1 \<or> op_state x = Op_uncertain
       then set_operation (\<lambda>r. op_id r = i) (\<lambda>r. r\<lparr>op_state := Op_uncertain, op_dispatched := 1, op_replay_blocked := 1, op_due := recoveryDue,
         op_attempts := op_attempts r + 1, op_turn := now, op_diagnostic := Some (take 160 diagnostic)\<rparr>) st
       else quarantineOperation x st)"

text \<open>Receipts as they are written with the coverage.\<close>

definition receipt_value :: "Receipt \<Rightarrow> js_value" where
  "receipt_value r = JObj [(''request'', publication_value (receipt_request r)), (''revision'', revision_value (receipt_revision r))]"

definition nullable_value :: "('a \<Rightarrow> js_value) \<Rightarrow> 'a option \<Rightarrow> js_value" where
  "nullable_value f x = (case x of None \<Rightarrow> JNull | Some y \<Rightarrow> f y)"

definition session_value :: "SessionMetadata \<Rightarrow> js_value" where
  "session_value s = JObj (obj_of [(''session_id'', Some (JStr (session_id s))), (''revision'', Some (revision_value (session_revision s))),
     (''byte_length'', Some (JInt (session_byte_length s))), (''sha256'', Some (JStr (session_sha256 s))), (''variant_id'', map_option JStr (variant_id s)),
     (''metadata'', map_option (nullable_value metadata_value) (session_metadata s)), (''uploaded_at'', map_option (nullable_value JStr) (uploaded_at s))])"

definition preservation_receipt_value :: "PreservationReceipt \<Rightarrow> js_value" where
  "preservation_receipt_value r = JObj (obj_of [(''request'', Some (preservation_value (preserved_request r))), (''variant'', Some (session_value (preserved_variant r))),
     (''source_revision'', map_option revision_value (source_revision r)), (''source_uploaded_at'', map_option (nullable_value JStr) (source_uploaded_at r))])"

text \<open>The receipt of an operation, checked against the stored request.\<close>

definition matching_receipt :: "string \<Rightarrow> js_value \<Rightarrow> request \<Rightarrow> js_value option \<Rightarrow> js_value option" where
  "matching_receipt kind v request comparison = (if kind = ''publish'' then do {
       receipt \<leftarrow> decodeArchiveReceipt v True;
       guard (Publish_request (receipt_request receipt) = request);
       Some (receipt_value receipt)
     } else do {
       receipt \<leftarrow> decodeArchivePreservationReceipt v True;
       guard (Preserve_request (preserved_request receipt) = request);
       (if kind = ''current'' then checkCurrentReceipt receipt comparison else Some ());
       Some (preservation_receipt_value receipt)
     })"

definition accept :: "(body \<Rightarrow> string) \<Rightarrow> WorkOperation \<Rightarrow> js_value \<Rightarrow> bool \<Rightarrow> WorkerState \<Rightarrow> (bool \<times> WorkerState) option" where
  "accept sha256 x v completes st = (case find (\<lambda>r. op_id r = wo_id x \<and> op_request r = wo_request x \<and> unresolved r) (operations st) of
     None \<Rightarrow> Some (False, st)
   | Some stored \<Rightarrow> (case checkStoredOperation sha256 st stored of
       None \<Rightarrow> Some (False, quarantineOperation stored st)
     | Some request \<Rightarrow> do {
         receipt \<leftarrow> matching_receipt (op_kind stored) v request (wo_comparison x);
         guard (completes = (op_kind stored \<noteq> ''current''));
         let st' = set_operation (\<lambda>r. op_id r = wo_id x \<and> op_request r = wo_request x \<and> unresolved r)
           (\<lambda>r. r\<lparr>op_state := Op_accepted, op_receipt := Some v\<rparr>) st in
         if completes then map_option (Pair True) (cover sha256 (op_candidate stored)
           (JObj [(''kind'', JStr (op_kind stored)), (''operation'', JStr (wo_id x)), (''receipt'', receipt)]) st')
         else Some (True, st')
       }))"

definition reject :: "WorkOperation \<Rightarrow> int \<Rightarrow> int \<Rightarrow> WorkerState \<Rightarrow> WorkerState" where
  "reject x due now st = (let
     st = set_operation (\<lambda>r. op_id r = wo_id x \<and> op_state r \<in> {Op_ready, Op_uncertain}) (\<lambda>r. r\<lparr>op_state := Op_rejected\<rparr>) st;
     st = clearComparison (wo_candidate x) st;
     st = (case wo_dependency x of None \<Rightarrow> st | Some d \<Rightarrow> if d = [] then st else set_operation (\<lambda>r. op_id r = d) (\<lambda>r. r\<lparr>op_state := Op_fenced\<rparr>) st) in
     defer_candidate (wo_candidate x) due ''contention'' False now st)"

section \<open>Destinations\<close>

definition bind_destination :: "string \<Rightarrow> Binding option \<Rightarrow> Binding \<Rightarrow> WorkerState \<Rightarrow> WorkerState" where
  "bind_destination d known b st = (let
     changed = (case known of None \<Rightarrow> False | Some k \<Rightarrow> stringify (binding_value k) \<noteq> stringify (binding_value b));
     st = (if changed then let
         st = set_operation (\<lambda>r. op_destination r = d \<and> unresolved r) (\<lambda>r. r\<lparr>op_state := Op_fenced\<rparr>) st;
         st = st\<lparr>comparisons := filter (\<lambda>r. \<not> list_ex (\<lambda>c. cand_id c = cmp_candidate r \<and> cand_destination c = d) (candidates st)) (comparisons st)\<rparr> in
         st\<lparr>candidates := update_rows (\<lambda>r. cand_destination r = d \<and> cand_state r \<notin> {Cand_covered, Cand_invalid})
           (\<lambda>r. r\<lparr>cand_state := Cand_ready, cand_due := 0\<rparr>) (candidates st)\<rparr>
       else st) in
     st\<lparr>destinations := update_rows (\<lambda>r. dest_id r = d) (\<lambda>r. r\<lparr>dest_binding := Some (binding_value b)\<rparr>) (destinations st)\<rparr>)"

definition authorize :: "string \<Rightarrow> Binding \<Rightarrow> string list \<Rightarrow> WorkerState \<Rightarrow> WorkerState" where
  "authorize g b caps st = (let new = \<lparr>auth_generation = g, auth_binding = Some (binding_value b), auth_capabilities = caps, auth_blocked = False, auth_attempts = 0, auth_due = 0\<rparr> in
     st\<lparr>authorizations := (if list_ex (\<lambda>r. auth_generation r = g) (authorizations st) then update_rows (\<lambda>r. auth_generation r = g) (\<lambda>_. new) (authorizations st)
       else authorizations st @ [new])\<rparr>)"

definition authorizationFailure :: "string \<Rightarrow> bool \<Rightarrow> int \<Rightarrow> WorkerState \<Rightarrow> WorkerState" where
  "authorizationFailure g blocked due st = st\<lparr>authorizations := (if list_ex (\<lambda>r. auth_generation r = g) (authorizations st)
     then update_rows (\<lambda>r. auth_generation r = g) (\<lambda>r. r\<lparr>auth_blocked := blocked, auth_attempts := auth_attempts r + 1, auth_due := due, auth_binding := None\<rparr>) (authorizations st)
     else authorizations st @ [\<lparr>auth_generation = g, auth_binding = None, auth_capabilities = [], auth_blocked = blocked, auth_attempts = 1, auth_due = due\<rparr>])\<rparr>"

end
