(* ===== verification/Archive_Sources.thy ===== *)
theory Archive_Sources
  imports Archive_Worker
begin

text \<open>
  The operations of the archive worker's state that take in work: manifests, scopes, discovered sources and their
  captured bodies, \<open>src/src/server/ArchiveWorkerState.ts\<close>.  The origin of a URL is the parameter \<open>url_origin\<close>, which gives
  the origin and the protocol of a valid URL.
\<close>

section \<open>Scopes\<close>

definition scope_value :: "ArchiveSourceScope \<Rightarrow> js_value" where
  "scope_value s = JObj (obj_of [(''version'', Some (JInt 1)), (''scope'', Some (JStr (case scope_kind s of Scope_current \<Rightarrow> ''current'' | Scope_all \<Rightarrow> ''all''))),
     (''activeSession'', Some (identity_value (activeSession s))), (''sessionDirectory'', Some (JStr (sessionDirectory s))),
     (''defaultSessionRoots'', Some (JArr (map JStr (defaultSessionRoots s)))), (''sessionFile'', map_option JStr (sessionFile s)),
     (''rootSessionId'', map_option JStr (scope_root s)), (''parentSession'', map_option JStr (scope_parentSession s))])"

text \<open>The checked manifest: its identifier, origin, generation, source and the text that is stored.\<close>

definition decode_manifest :: "(string \<Rightarrow> (string \<times> string) option) \<Rightarrow> js_value \<Rightarrow> (string \<times> string \<times> string \<times> ArchiveSourceScope \<times> js_value) option" where
  "decode_manifest url_origin v = do {
     row \<leftarrow> object v [''version'', ''id'', ''origin'', ''generation'', ''source''] True;
     guard (prop_of row ''version'' = JInt 1);
     i \<leftarrow> operationId (prop_of row ''id'');
     g \<leftarrow> js_text (prop_of row ''generation'');
     guard (0 < length g \<and> length g \<le> 512);
     origin \<leftarrow> js_text (prop_of row ''origin'');
     (canonical, protocol) \<leftarrow> url_origin origin;
     guard (canonical = origin \<and> protocol \<in> {''http:'', ''https:''});
     source \<leftarrow> decodeArchiveSourceScope (prop_of row ''source'');
     let raw = JObj [(''version'', JInt 1), (''id'', JStr i), (''origin'', JStr origin), (''generation'', JStr g), (''source'', scope_value source)] in
     do { guard (byte_length (stringify raw) \<le> 16384); Some (i, origin, g, source, raw) }
   }"

definition import_manifest :: "(body \<Rightarrow> string) \<Rightarrow> (string \<Rightarrow> (string \<times> string) option) \<Rightarrow> js_value \<Rightarrow> WorkerState \<Rightarrow> (bool \<times> WorkerState) option" where
  "import_manifest sha256 url_origin v st = do {
     (i, origin, g, source, raw) \<leftarrow> decode_manifest url_origin v;
     case find (\<lambda>r. scp_id r = i) (scopes st) of
       Some existing \<Rightarrow> if scp_manifest existing = raw then Some (True, st) else None
     | None \<Rightarrow> if 1024 \<le> length (filter (\<lambda>r. scp_state r \<in> {Scope_ready, Scope_scanned}) (scopes st)) then Some (False, st)
         else let d = destinationId sha256 origin g;
             st = (if list_ex (\<lambda>r. dest_id r = d) (destinations st) then st
               else st\<lparr>destinations := destinations st @ [\<lparr>dest_id = d, dest_origin = origin, dest_generation = g, dest_binding = None\<rparr>]\<rparr>) in
           Some (True, st\<lparr>scopes := scopes st @ [\<lparr>scp_id = i, scp_destination = d, scp_manifest = raw, scp_source = scope_value source, scp_cursor = None,
             scp_state = Scope_ready, scp_attempts = 0, scp_due = 0, scp_turn = 0, scp_diagnostic = None, scp_catalog_revision = 0, scp_review_target = None, scp_review_cursor = 0\<rparr>]\<rparr>)
   }"

definition defer_scope :: "string \<Rightarrow> int \<Rightarrow> string \<Rightarrow> int \<Rightarrow> WorkerState \<Rightarrow> WorkerState" where
  "defer_scope i due diagnostic now st = st\<lparr>scopes := update_rows (\<lambda>r. scp_id r = i)
     (\<lambda>r. r\<lparr>scp_due := due, scp_attempts := scp_attempts r + 1, scp_turn := now, scp_diagnostic := Some (take 160 diagnostic)\<rparr>) (scopes st)\<rparr>"

definition defer_source :: "int \<Rightarrow> int \<Rightarrow> string \<Rightarrow> int \<Rightarrow> WorkerState \<Rightarrow> WorkerState" where
  "defer_source i due diagnostic now st = st\<lparr>sources := update_rows (\<lambda>r. src_id r = i)
     (\<lambda>r. r\<lparr>src_due := due, src_attempts := src_attempts r + 1, src_turn := now, src_diagnostic := Some (take 160 diagnostic),
       src_missing := (if diagnostic = ''source-missing'' then src_missing r + 1 else 0)\<rparr>) (sources st)\<rparr>"

definition ready_sources :: "WorkerState \<Rightarrow> nat" where
  "ready_sources st = length (filter (\<lambda>r. src_state r = Source_ready) (sources st))"

definition completeScopes :: "WorkerState \<Rightarrow> WorkerState" where
  "completeScopes st = st\<lparr>scopes := update_rows (\<lambda>r. scp_state r = Scope_scanned \<and> scp_review_target r = None
     \<and> \<not> list_ex (\<lambda>s. src_scope s = scp_id r \<and> src_state s = Source_ready) (sources st)) (\<lambda>r. r\<lparr>scp_state := Scope_complete\<rparr>) (scopes st)\<rparr>"

definition due_scope :: "int \<Rightarrow> string list option \<Rightarrow> WorkerState \<Rightarrow> ScopeRow option" where
  "due_scope now ds st = least_row (\<lambda>a b. scp_turn a < scp_turn b \<or> (scp_turn a = scp_turn b \<and> text_less (scp_id a) (scp_id b)))
     (filter (\<lambda>r. scp_state r = Scope_ready \<and> scp_due r \<le> now \<and> pred_option (\<lambda>xs. scp_destination r \<in> set xs) ds) (scopes st))"

section \<open>Sources\<close>

record DiscoveryIssue =
  issue_path :: string
  issue_cursor :: string
  issue_missing :: bool

definition new_source :: "int \<Rightarrow> string \<Rightarrow> string \<Rightarrow> SourceRow" where
  "new_source i scope f = \<lparr>src_id = i, src_scope = scope, src_file = f, src_directory = False, src_retry_cursor = None, src_evidence = None,
     src_state = Source_ready, src_attempts = 0, src_missing = 0, src_due = 0, src_turn = 0, src_diagnostic = None, src_dependencies = None, src_dependency_key = None\<rparr>"

text \<open>The identifier of an inserted row is one above the largest.\<close>

definition next_source_id :: "WorkerState \<Rightarrow> int" where
  "next_source_id st = fold max (map src_id (sources st)) 0 + 1"

definition insert_source :: "string \<Rightarrow> string \<Rightarrow> (SourceRow \<Rightarrow> SourceRow) \<Rightarrow> WorkerState \<Rightarrow> WorkerState" where
  "insert_source scope f extra st = st\<lparr>sources := sources st @ [extra (new_source (next_source_id st) scope f)]\<rparr>"

definition known_source :: "WorkerState \<Rightarrow> string \<Rightarrow> string \<Rightarrow> bool" where
  "known_source st scope f \<longleftrightarrow> list_ex (\<lambda>r. src_scope r = scope \<and> src_file r = f) (sources st)"

text \<open>\<open>[...new Set(files)]\<close> keeps the first occurrence, the map of issues the first position and the last issue.\<close>

definition new_files :: "WorkerState \<Rightarrow> string \<Rightarrow> string list \<Rightarrow> string list" where
  "new_files st scope files = filter (\<lambda>f. \<not> known_source st scope f) (rev (remdups (rev files)))"

definition new_issues :: "WorkerState \<Rightarrow> string \<Rightarrow> string list \<Rightarrow> DiscoveryIssue list \<Rightarrow> DiscoveryIssue list" where
  "new_issues st scope fs issues = filter (\<lambda>i. issue_path i \<notin> set fs \<and> \<not> known_source st scope (issue_path i))
     (map snd (foldl (\<lambda>m i. od_set (issue_path i) i m) [] issues))"

definition addSources :: "string \<Rightarrow> string list \<Rightarrow> string option \<Rightarrow> bool \<Rightarrow> DiscoveryIssue list \<Rightarrow> bool \<Rightarrow> int \<Rightarrow> WorkerState \<Rightarrow> bool \<times> WorkerState" where
  "addSources scope files cursor complete issues updateScope now st = (let
     fs = new_files st scope files;
     is = new_issues st scope fs issues in
     if 10000 < ready_sources st + length fs + length is then (False, defer_scope scope (now + 30000) ''source-capacity'' now st)
     else let
       st = foldl (\<lambda>s f. insert_source scope f id s) st fs;
       st = foldl (\<lambda>s i. insert_source scope (issue_path i) (\<lambda>r. r\<lparr>src_directory := True, src_retry_cursor := Some (issue_cursor i), src_due := now + 5000,
         src_missing := (if issue_missing i then 1 else 0)\<rparr>) s) st is;
       st = (if updateScope then st\<lparr>scopes := update_rows (\<lambda>r. scp_id r = scope)
         (\<lambda>r. r\<lparr>scp_cursor := cursor, scp_state := (if complete then Scope_scanned else Scope_ready), scp_turn := now, scp_attempts := 0\<rparr>) (scopes st)\<rparr> else st) in
       (True, completeScopes st))"

definition finishSource :: "int \<Rightarrow> source_state \<Rightarrow> WorkerState \<Rightarrow> WorkerState" where
  "finishSource i state st = completeScopes (st\<lparr>sources := update_rows (\<lambda>r. src_id r = i)
     (\<lambda>r. r\<lparr>src_state := state, src_diagnostic := Some (case state of Source_captured \<Rightarrow> ''captured'' | Source_invalid \<Rightarrow> ''invalid'' | Source_lost \<Rightarrow> ''source-lost''
        | Source_excluded \<Rightarrow> ''excluded'' | Source_ready \<Rightarrow> ''ready'')\<rparr>) (sources st)\<rparr>)"

definition directoryContinuation :: "int \<Rightarrow> string \<Rightarrow> int \<Rightarrow> WorkerState \<Rightarrow> WorkerState" where
  "directoryContinuation i cursor now st = st\<lparr>sources := update_rows (\<lambda>r. src_id r = i)
     (\<lambda>r. r\<lparr>src_retry_cursor := Some cursor, src_turn := now, src_due := 0, src_missing := 0\<rparr>) (sources st)\<rparr>"

definition observeSource :: "(body \<Rightarrow> string) \<Rightarrow> int \<Rightarrow> js_value \<Rightarrow> js_value \<Rightarrow> WorkerState \<Rightarrow> WorkerState option" where
  "observeSource sha256 i evidence ancestry st = do {
     e \<leftarrow> decodeArchiveSourceEvidence evidence;
     r \<leftarrow> find (\<lambda>r. src_id r = i) (sources st);
     guard (src_file r = evidence_file e);
     d \<leftarrow> decodeDependencies ancestry (evidence_file e);
     let st' = st\<lparr>sources := update_rows (\<lambda>r. src_id r = i)
       (\<lambda>r. r\<lparr>src_evidence := Some (evidence_value e), src_missing := 0, src_dependencies := Some (dependencies_value d)\<rparr>) (sources st)\<rparr> in
     do {
       key \<leftarrow> dependencyKey sha256 st' (src_scope r) d;
       let st'' = st'\<lparr>sources := update_rows (\<lambda>r. src_id r = i) (\<lambda>r. r\<lparr>src_dependency_key := Some key\<rparr>) (sources st')\<rparr> in
       Some (if src_evidence r = Some (evidence_value e) then st'' else st''\<lparr>scopes := update_rows (\<lambda>s. scp_id s = src_scope r)
         (\<lambda>s. s\<lparr>scp_catalog_revision := scp_catalog_revision s + 1,
           scp_review_target := Some (case scp_review_target s of Some t \<Rightarrow> t | None \<Rightarrow> scp_catalog_revision s + 1),
           scp_review_cursor := (if scp_review_target s = None then 0 else scp_review_cursor s),
           scp_state := (if scp_state s = Scope_complete then Scope_scanned else scp_state s), scp_due := 0\<rparr>) (scopes st'')\<rparr>)
     }
   }"

text \<open>The review of a batch: the sources whose dependencies changed are due again, up to the capacity.  The flag tells
  that the capacity ended the batch.\<close>

fun review_batch :: "(body \<Rightarrow> string) \<Rightarrow> string \<Rightarrow> int \<Rightarrow> SourceRow list \<Rightarrow> int \<Rightarrow> int \<Rightarrow> WorkerState \<Rightarrow> (bool \<times> int \<times> WorkerState) option" where
  "review_batch sha256 scope now [] cursor available st = Some (False, cursor, st)"
| "review_batch sha256 scope now (r # rows) cursor available st = do {
     v \<leftarrow> src_dependencies r;
     d \<leftarrow> decodeDependencies v (src_file r);
     key \<leftarrow> dependencyKey sha256 st scope d;
     if src_dependency_key r \<noteq> Some key \<and> src_state r \<noteq> Source_ready \<and> available = 0 then Some (True, cursor, st)
     else do {
       i \<leftarrow> safe_number (src_id r);
       if src_dependency_key r \<noteq> Some key then
         review_batch sha256 scope now rows i (if src_state r \<noteq> Source_ready then available - 1 else available)
           (st\<lparr>sources := update_rows (\<lambda>x. src_id x = i) (\<lambda>x. x\<lparr>src_state := Source_ready, src_due := 0, src_turn := now\<rparr>) (sources st)\<rparr>)
       else review_batch sha256 scope now rows i available st
     }
   }"

definition review_rows :: "string \<Rightarrow> int \<Rightarrow> WorkerState \<Rightarrow> SourceRow list" where
  "review_rows scope cursor st = take 64 (sort_key src_id (filter (\<lambda>r. src_scope r = scope \<and> cursor < src_id r \<and> src_dependencies r \<noteq> None
     \<and> (src_state r \<in> {Source_captured, Source_excluded} \<or> (src_state r = Source_ready \<and> src_diagnostic r = Some ''ancestry-unresolved''))) (sources st)))"

definition set_scope :: "string \<Rightarrow> (ScopeRow \<Rightarrow> ScopeRow) \<Rightarrow> WorkerState \<Rightarrow> WorkerState" where
  "set_scope i f st = st\<lparr>scopes := update_rows (\<lambda>r. scp_id r = i) f (scopes st)\<rparr>"

definition reviewSources :: "(body \<Rightarrow> string) \<Rightarrow> int \<Rightarrow> string list option \<Rightarrow> WorkerState \<Rightarrow> WorkerState option" where
  "reviewSources sha256 now ds st = (case least_row (\<lambda>a b. scp_turn a < scp_turn b \<or> (scp_turn a = scp_turn b \<and> text_less (scp_id a) (scp_id b)))
      (filter (\<lambda>r. scp_review_target r \<noteq> None \<and> scp_due r \<le> now \<and> pred_option (\<lambda>xs. scp_destination r \<in> set xs) ds) (scopes st)) of
     None \<Rightarrow> Some st
   | Some s \<Rightarrow> do {
       from \<leftarrow> safe_number (scp_review_cursor s);
       let rows = review_rows (scp_id s) from st in
       do {
         (full, cursor, st) \<leftarrow> review_batch sha256 (scp_id s) now rows from (10000 - int (ready_sources st)) st;
         if full then Some (set_scope (scp_id s) (\<lambda>r. r\<lparr>scp_review_cursor := cursor, scp_due := now + 5000\<rparr>) st)
         else if length rows = 64 then Some (set_scope (scp_id s) (\<lambda>r. r\<lparr>scp_review_cursor := cursor, scp_turn := now\<rparr>) st)
         else do {
           revision \<leftarrow> safe_number (scp_catalog_revision s);
           target \<leftarrow> Option.bind (scp_review_target s) safe_number;
           Some (if target < revision
             then set_scope (scp_id s) (\<lambda>r. r\<lparr>scp_review_target := Some (scp_catalog_revision r), scp_review_cursor := 0, scp_turn := now\<rparr>) st
             else completeScopes (set_scope (scp_id s) (\<lambda>r. r\<lparr>scp_review_target := None, scp_review_cursor := 0\<rparr>) st))
         }
       }
     })"

record WorkSource =
  ws_id :: int
  ws_scope :: string
  ws_file :: string
  ws_directory :: bool
  ws_retryCursor :: "string option"
  ws_attempts :: int
  ws_missingAttempts :: int

definition work_source :: "SourceRow \<Rightarrow> WorkSource option" where
  "work_source r = do {
     i \<leftarrow> safe_number (src_id r);
     attempts \<leftarrow> safe_number (src_attempts r);
     missing \<leftarrow> safe_number (src_missing r);
     Some \<lparr>ws_id = i, ws_scope = src_scope r, ws_file = src_file r, ws_directory = src_directory r, ws_retryCursor = src_retry_cursor r, ws_attempts = attempts,
       ws_missingAttempts = missing\<rparr>
   }"

definition due_source :: "int \<Rightarrow> string list option \<Rightarrow> WorkerState \<Rightarrow> SourceRow option" where
  "due_source now ds st = least_row (\<lambda>a b. src_turn a < src_turn b \<or> (src_turn a = src_turn b \<and> src_id a < src_id b))
     (filter (\<lambda>r. src_state r = Source_ready \<and> src_due r \<le> now
       \<and> pred_option (\<lambda>xs. list_ex (\<lambda>s. scp_id s = src_scope r \<and> scp_destination s \<in> set xs) (scopes st)) ds) (sources st))"

text \<open>The review stays done when the row that is found makes the call throw.\<close>

definition nextSource :: "(body \<Rightarrow> string) \<Rightarrow> int \<Rightarrow> string list option \<Rightarrow> WorkerState \<Rightarrow> WorkSource option call \<times> WorkerState" where
  "nextSource sha256 now ds st = (if ds = Some [] then (Returned None, st) else case reviewSources sha256 now ds st of
     None \<Rightarrow> (Threw, st)
   | Some st \<Rightarrow> (case due_source now ds st of None \<Rightarrow> (Returned None, st) | Some r \<Rightarrow> (of_option (work_source r), st)))"

section \<open>Capture\<close>

definition BACKLOG :: int where "BACKLOG = 536870912"

definition body_bytes :: "body option \<Rightarrow> int" where
  "body_bytes b = (case b of None \<Rightarrow> 0 | Some x \<Rightarrow> int (length x))"

definition backlogBytes :: "WorkerState \<Rightarrow> int" where
  "backlogBytes st = sum_list (map (body_bytes \<circ> upl_body) (uploads st)) + sum_list (map (int \<circ> length \<circ> cap_body) (captures st))
     + sum_list (map (body_bytes \<circ> cand_body) (candidates st))"

record UploadSnapshot =
  snap_file :: string
  snap_session :: string
  snap_body :: body
  snap_metadata :: js_value

text \<open>A candidate that is known keeps its row; one covered under another binding is captured again; a new one is
  stored.  The result is \<open>Some None\<close> when the backlog is full.\<close>

definition store_candidate :: "(body \<Rightarrow> string) \<Rightarrow> string \<Rightarrow> string \<Rightarrow> UploadSnapshot \<Rightarrow> ArchiveMetadata \<Rightarrow> WorkerState \<Rightarrow> WorkerState option option" where
  "store_candidate sha256 i destination snapshot m st = (let sha = sha256 (snap_body snapshot) in
     case candidate_row st i of
       None \<Rightarrow> if BACKLOG < backlogBytes st + int (length (snap_body snapshot)) then Some None
         else Some (Some (st\<lparr>candidates := candidates st @ [\<lparr>cand_id = i, cand_destination = destination, cand_session = snap_session snapshot, cand_source = snap_file snapshot,
           cand_byte_length = int (length (snap_body snapshot)), cand_sha256 = sha, cand_metadata = metadata_value m, cand_body = Some (snap_body snapshot),
           cand_legacy_profile = None, cand_legacy_capture = None, cand_state = Cand_ready, cand_attempts = 0, cand_due = 0, cand_turn = 0, cand_diagnostic = None\<rparr>]\<rparr>))
     | Some r \<Rightarrow> do {
         c \<leftarrow> candidate sha256 st i;
         guard (wc_byteLength c = int (length (snap_body snapshot)) \<and> wc_destination c = destination \<and> wc_source c = snap_file snapshot
           \<and> wc_session c = snap_session snapshot \<and> wc_sha256 c = sha \<and> wc_metadata c = Some m);
         recapture \<leftarrow> (if cand_state r = Cand_covered then do {
             d \<leftarrow> find (\<lambda>d. dest_id d = destination) (destinations st);
             Some (Option.bind (find (\<lambda>v. cov_candidate v = i) (coverage st)) cov_binding \<noteq> dest_binding d) } else Some False);
         if recapture then if BACKLOG < backlogBytes st + int (length (snap_body snapshot)) then Some None
           else Some (Some (st\<lparr>candidates := update_rows (\<lambda>x. cand_id x = i)
               (\<lambda>x. x\<lparr>cand_body := (if cand_legacy_profile r = None then Some (snap_body snapshot) else None), cand_state := Cand_ready, cand_due := 0, cand_attempts := 0\<rparr>) (candidates st),
             coverage := filter (\<lambda>v. cov_candidate v \<noteq> i) (coverage st)\<rparr>))
         else if cand_state r = Cand_covered then Some (Some st)
         else let st = (if workingAvailable st < wc_byteLength c then releaseComparisonBodies None st else st) in
           do { reserve (wc_byteLength c) st; retained_body sha256 st i; Some (Some st) }
       })"

definition capture :: "(body \<Rightarrow> string) \<Rightarrow> WorkSource \<Rightarrow> UploadSnapshot \<Rightarrow> WorkerState \<Rightarrow> (bool \<times> WorkerState) option" where
  "capture sha256 source snapshot st = do {
     guard (snap_file snapshot = ws_file source \<and> int (length (snap_body snapshot)) \<le> MAX_ARCHIVE_BYTES);
     decodeArchiveId (JStr (snap_session snapshot));
     scope \<leftarrow> find (\<lambda>s. scp_id s = ws_scope source) (scopes st);
     decodeArchiveSourceScope (scp_source scope);
     safe_number (scp_attempts scope);
     m \<leftarrow> decodeArchiveMetadata (snap_metadata snapshot) (snap_session snapshot) True;
     let i = candidateId sha256 (scp_destination scope) (snap_file snapshot) (snap_session snapshot) (sha256 (snap_body snapshot)) m in
     do {
       stored \<leftarrow> store_candidate sha256 i (scp_destination scope) snapshot m st;
       case stored of None \<Rightarrow> Some (False, st) | Some st \<Rightarrow> do {
         observation \<leftarrow> find (\<lambda>r. src_id r = ws_id source) (sources st);
         d \<leftarrow> (case src_dependencies observation of None \<Rightarrow> Some ([], []) | Some v \<Rightarrow> decodeDependencies v (snap_file snapshot));
         key \<leftarrow> dependencyKey sha256 st (scp_id scope) d;
         let link = \<lparr>link_candidate = i, link_source = ws_id source, link_dependencies = dependencies_value d, link_key = key\<rparr>;
           same = (\<lambda>l. link_candidate l = i \<and> link_source l = ws_id source);
           st = st\<lparr>candidate_sources := (if list_ex same (candidate_sources st) then update_rows same (\<lambda>_. link) (candidate_sources st) else candidate_sources st @ [link]),
             candidates := update_rows (\<lambda>r. cand_id r = i \<and> cand_state r = Cand_paused \<and> cand_diagnostic r = Some ''ancestry-changed'')
               (\<lambda>r. r\<lparr>cand_state := Cand_ready, cand_due := 0\<rparr>) (candidates st)\<rparr> in
         Some (True, finishSource (ws_id source) Source_captured st)
       }
     }
   }"

end
