(* ===== verification/Archive_Exclusion.thy ===== *)
theory Archive_Exclusion
  imports Archive_Sources
begin

text \<open>
  What the archive worker's state guarantees: one unresolved operation per history and session, no operation that may
  have been sent is given up without an answer, only checked operations are handed out for sending, and a
  completed candidate was archived with its own bytes.
\<close>

section \<open>The invariant\<close>

text \<open>The history and the session that a stored request names.\<close>

definition op_key :: "OperationRow \<Rightarrow> string option \<times> string option list" where
  "op_key x = (text_at (op_request x) ''session_id'', map (text_at (value_at (op_request x) ''binding'')) [''server_id'', ''namespace_id'', ''history_generation''])"

definition open_keys :: "OperationRow list \<Rightarrow> (string option \<times> string option list) list" where
  "open_keys ops = map op_key (filter unresolved ops)"

definition exclusive :: "WorkerState \<Rightarrow> bool" where
  "exclusive st \<longleftrightarrow> distinct (map op_id (operations st)) \<and> distinct (open_keys (operations st))"

text \<open>An update of operations that makes none unresolved again and changes no request.\<close>

definition settles :: "(OperationRow \<Rightarrow> bool) \<Rightarrow> (OperationRow \<Rightarrow> OperationRow) \<Rightarrow> OperationRow list \<Rightarrow> bool" where
  "settles p f ops \<longleftrightarrow> (\<forall>r \<in> set ops. p r \<longrightarrow> op_id (f r) = op_id r \<and> op_request (f r) = op_request r \<and> (unresolved (f r) \<longrightarrow> unresolved r))"

lemma update_rows_simps [simp]:
  "update_rows p f [] = []" "update_rows p f (r # rows) = (if p r then f r else r) # update_rows p f rows"
  by (simp_all add: update_rows_def)

lemma open_keys_simps [simp]: "open_keys [] = []" "open_keys (r # ops) = (if unresolved r then op_key r # open_keys ops else open_keys ops)"
  by (simp_all add: open_keys_def)

lemma settles_Cons: "settles p f (r # ops) \<longleftrightarrow> (p r \<longrightarrow> op_id (f r) = op_id r \<and> op_request (f r) = op_request r \<and> (unresolved (f r) \<longrightarrow> unresolved r)) \<and> settles p f ops"
  by (simp add: settles_def)

lemma settles_ids: "settles p f ops \<Longrightarrow> map op_id (update_rows p f ops) = map op_id ops"
  by (induction ops) (simp_all add: settles_Cons)

lemma settles_open_subset: "settles p f ops \<Longrightarrow> set (open_keys (update_rows p f ops)) \<subseteq> set (open_keys ops)"
proof (induction ops)
  case (Cons r ops)
  then have "op_key (if p r then f r else r) = op_key r" "unresolved (if p r then f r else r) \<Longrightarrow> unresolved r"
    by (auto simp: settles_Cons op_key_def split: if_splits)
  with Cons show ?case by (auto simp: settles_Cons)
qed simp

lemma settles_open_distinct: "settles p f ops \<Longrightarrow> distinct (open_keys ops) \<Longrightarrow> distinct (open_keys (update_rows p f ops))"
proof (induction ops)
  case (Cons r ops)
  then have s: "settles p f ops" by (simp add: settles_Cons)
  have r: "op_key (if p r then f r else r) = op_key r" "unresolved (if p r then f r else r) \<Longrightarrow> unresolved r"
    using Cons.prems(1) by (auto simp: settles_Cons op_key_def split: if_splits)
  show ?case
  proof (cases "unresolved (if p r then f r else r)")
    case True
    with r Cons.prems(2) settles_open_subset [OF s] Cons.IH [OF s] show ?thesis by auto
  next
    case False
    with Cons.IH [OF s] Cons.prems(2) show ?thesis by (auto split: if_splits)
  qed
qed simp

lemma set_operation_exclusive: "settles p f (operations st) \<Longrightarrow> exclusive st \<Longrightarrow> exclusive (set_operation p f st)"
  using settles_ids [of p f "operations st"] settles_open_distinct [of p f "operations st"]
  by (simp add: exclusive_def set_operation_def)

lemma exclusive_cong: "operations st' = operations st \<Longrightarrow> exclusive st' = exclusive st"
  by (simp add: exclusive_def)

text \<open>With distinct identifiers an update by identifier touches the row that was found.\<close>

lemma found_row:
  assumes "exclusive st" "find P (operations st) = Some x" "r \<in> set (operations st)" "op_id r = op_id x"
  shows "r = x"
proof -
  have "x \<in> set (operations st)" using assms(2) by (auto simp: find_Some_iff)
  with assms show ?thesis by (auto simp: exclusive_def distinct_map inj_on_def)
qed

section \<open>What operations leave alone\<close>

lemma operations_frame [simp]:
  "operations (clearComparison c st) = operations st"
  "operations (pauseCandidate c d st) = operations st"
  "operations (resumeCandidates c st) = operations st"
  "operations (defer_candidate c due d t now st) = operations st"
  "operations (last_in_turn c st) = operations st"
  "operations (comparisonCursor c cur st) = operations st"
  "operations (coherentComparison c v st) = operations st"
  "operations (releaseComparisonBodies e st) = operations st"
  "operations (pruneComparison ds st) = operations st"
  "operations (saveComparison c v b st) = operations st"
  "operations (release n st) = operations st"
  "operations (cover_legacy r st) = operations st"
  "operations (authorize g bd caps st) = operations st"
  "operations (authorizationFailure g bl due st) = operations st"
  "operations (defer_scope i due d now st) = operations st"
  "operations (defer_source j due d now st) = operations st"
  "operations (completeScopes st) = operations st"
  "operations (insert_source s f ext st) = operations st"
  "operations (finishSource j state st) = operations st"
  "operations (directoryContinuation j cur now st) = operations st"
  "operations (set_scope i g' st) = operations st"
  by (simp_all add: clearComparison_def pauseCandidate_def resumeCandidates_def defer_candidate_def last_in_turn_def comparisonCursor_def
    coherentComparison_def releaseComparisonBodies_def pruneComparison_def saveComparison_def release_def cover_legacy_def authorize_def
    authorizationFailure_def defer_scope_def defer_source_def completeScopes_def insert_source_def finishSource_def directoryContinuation_def set_scope_def
    Let_def split: option.split)

lemma cover_operations: "cover sha256 c e st = Some st' \<Longrightarrow> operations st' = operations st"
  by (auto simp: cover_def bind_eq_Some_conv Let_def)

lemma reserve_operations: "reserve n st = Some st' \<Longrightarrow> operations st' = operations st"
  by (auto simp: reserve_def split: if_splits)

lemma addSources_operations [simp]: "operations (snd (addSources scope files cursor complete issues upd now st)) = operations st"
proof -
  have "operations (foldl (\<lambda>s f. insert_source scope f id s) st fs) = operations st" for fs st
    by (induction fs arbitrary: st) simp_all
  moreover have "operations (foldl (\<lambda>s i. insert_source scope (issue_path i) (g i) s) st is) = operations st" for "is" st and g :: "DiscoveryIssue \<Rightarrow> SourceRow \<Rightarrow> SourceRow"
    by (induction "is" arbitrary: st) simp_all
  ultimately show ?thesis by (simp add: addSources_def Let_def)
qed

lemma observeSource_operations: "observeSource sha256 i e a st = Some st' \<Longrightarrow> operations st' = operations st"
  by (auto simp: observeSource_def bind_eq_Some_conv Let_def)

lemma review_batch_operations: "review_batch sha256 scope now rows cur av st = Some (full, cur', st') \<Longrightarrow> operations st' = operations st"
  by (induction rows arbitrary: cur av st) (auto simp: bind_eq_Some_conv split: if_splits)

lemma reviewSources_operations: "reviewSources sha256 now ds st = Some st' \<Longrightarrow> operations st' = operations st"
  by (auto simp: reviewSources_def bind_eq_Some_conv Let_def dest: review_batch_operations split: option.splits if_splits)

lemma nextSource_operations: "nextSource sha256 now ds st = (r, st') \<Longrightarrow> operations st' = operations st"
  by (auto simp: nextSource_def dest: reviewSources_operations split: if_splits option.splits)

lemma import_operations: "import_manifest sha256 u v st = Some (b, st') \<Longrightarrow> operations st' = operations st"
  by (auto simp: import_manifest_def bind_eq_Some_conv Let_def split: option.splits if_splits prod.splits)

lemma store_candidate_operations: "store_candidate sha256 i d snap m st = Some (Some st') \<Longrightarrow> operations st' = operations st"
  by (auto simp: store_candidate_def bind_eq_Some_conv Let_def split: option.splits if_splits)

lemma capture_operations: "capture sha256 src snap st = Some (b, st') \<Longrightarrow> operations st' = operations st"
  by (auto simp: capture_def bind_eq_Some_conv Let_def split: option.splits) (simp_all add: store_candidate_operations)

section \<open>Each operation keeps the invariant\<close>

lemma unresolved_states [simp]:
  "unresolved (r\<lparr>op_state := s\<rparr>) \<longleftrightarrow> s \<in> {Op_ready, Op_uncertain, Op_blocked}"
  by (simp add: unresolved_def)

lemma settles_pI: "(\<And>r. r \<in> set ops \<Longrightarrow> p r \<Longrightarrow> op_id (f r) = op_id r \<and> op_request (f r) = op_request r \<and> (unresolved (f r) \<longrightarrow> unresolved r)) \<Longrightarrow> settles p f ops"
  by (simp add: settles_def)

lemma quarantine_exclusive: "exclusive st \<Longrightarrow> exclusive (quarantineOperation x st)"
  by (simp add: quarantineOperation_def Let_def exclusive_cong [OF operations_frame(2)] set_operation_exclusive settles_def)

lemma retire_ready_exclusive: "exclusive st \<Longrightarrow> exclusive (retire_ready r st)"
  by (simp add: retire_ready_def exclusive_cong [OF operations_frame(2)] set_operation_exclusive settles_def unresolved_def)

lemma markUncertain_exclusive: "exclusive st \<Longrightarrow> exclusive (markUncertain i st)"
  by (simp add: markUncertain_def set_operation_exclusive settles_def unresolved_def)

lemma defer_operation_exclusive: "exclusive st \<Longrightarrow> exclusive (defer_operation i due d now st)"
  using set_operation_exclusive [of "\<lambda>r. op_id r = i" "\<lambda>r. r\<lparr>op_due := due, op_attempts := op_attempts r + 1, op_turn := now, op_diagnostic := Some (take 160 d)\<rparr>" st]
  by (simp add: defer_operation_def set_operation_def settles_def unresolved_def)

lemma reject_exclusive: "exclusive st \<Longrightarrow> exclusive (reject x due now st)"
proof -
  assume *: "exclusive st"
  define st1 where "st1 = clearComparison (wo_candidate x) (set_operation (\<lambda>r. op_id r = wo_id x \<and> op_state r \<in> {Op_ready, Op_uncertain}) (\<lambda>r. r\<lparr>op_state := Op_rejected\<rparr>) st)"
  from * have 1: "exclusive st1" by (simp add: st1_def exclusive_cong [OF operations_frame(1)] set_operation_exclusive settles_def)
  then have "exclusive (set_operation (\<lambda>r. op_id r = d) (\<lambda>r. r\<lparr>op_state := Op_fenced\<rparr>) st1)" for d
    by (simp add: set_operation_exclusive settles_def)
  with 1 show ?thesis
    unfolding reject_def Let_def st1_def [symmetric] exclusive_cong [OF operations_frame(4)] by (simp split: option.split)
qed

lemma bind_exclusive: "exclusive st \<Longrightarrow> exclusive (bind_destination d known b st)"
proof -
  assume *: "exclusive st"
  then have "exclusive (set_operation (\<lambda>r. op_destination r = d \<and> unresolved r) (\<lambda>r. r\<lparr>op_state := Op_fenced\<rparr>) st)"
    by (simp add: set_operation_exclusive settles_def)
  with * show ?thesis by (simp add: bind_destination_def Let_def exclusive_def)
qed

lemma replay_exclusive:
  assumes "exclusive st" "replay sha256 i due now st = Some st'"
  shows "exclusive st'"
proof (cases "find (\<lambda>r. op_id r = i \<and> op_state r = Op_uncertain) (operations st)")
  case None
  with assms show ?thesis by (auto simp: replay_def split: if_splits)
next
  case (Some x)
  then have x: "op_id x = i" "unresolved x" by (auto simp: find_Some_iff unresolved_def)
  let ?r = "\<lambda>r. r\<lparr>op_state := Op_ready, op_dispatched := 1, op_turn := now, op_due := 0\<rparr>"
  let ?s = "\<lambda>r. r\<lparr>op_dispatched := 1, op_due := due, op_attempts := op_attempts r + 1, op_turn := now,
             op_diagnostic := (if op_replay_blocked r = 1 then op_diagnostic r else Some ''ancestry-receipt-only'')\<rparr>"
  have "settles (\<lambda>r. op_id r = i) ?r (operations st)" "settles (\<lambda>r. op_id r = i) ?s (operations st)"
    using found_row [OF assms(1) Some] x by (auto simp: settles_def unresolved_def)
  from this [THEN set_operation_exclusive, OF assms(1)] assms(2) Some show ?thesis
    by (auto simp: replay_def bind_eq_Some_conv Let_def exclusive_cong [OF operations_frame(2)] split: if_splits)
qed

lemma failOperation_exclusive:
  assumes "exclusive st"
  shows "exclusive (failOperation i due d now st)"
proof (cases "find (\<lambda>r. op_id r = i \<and> op_state r \<in> {Op_ready, Op_uncertain}) (operations st)")
  case None
  with assms show ?thesis by (simp add: failOperation_def)
next
  case (Some x)
  then have x: "op_id x = i" "unresolved x" by (auto simp: find_Some_iff unresolved_def)
  have "settles (\<lambda>r. op_id r = i) (\<lambda>r. r\<lparr>op_state := Op_uncertain, op_dispatched := 1, op_replay_blocked := 1, op_due := due,
         op_attempts := op_attempts r + 1, op_turn := now, op_diagnostic := Some (take 160 d)\<rparr>) (operations st)"
    using found_row [OF assms Some] x by (auto simp: settles_def)
  from set_operation_exclusive [OF this assms] quarantine_exclusive [OF assms] Some show ?thesis by (simp add: failOperation_def)
qed

lemma accept_exclusive:
  assumes "exclusive st" "accept sha256 x v completes st = Some (b, st')"
  shows "exclusive st'"
proof -
  let ?st = "set_operation (\<lambda>r. op_id r = wo_id x \<and> op_request r = wo_request x \<and> unresolved r) (\<lambda>r. r\<lparr>op_state := Op_accepted, op_receipt := Some v\<rparr>) st"
  have "settles (\<lambda>r. op_id r = wo_id x \<and> op_request r = wo_request x \<and> unresolved r) (\<lambda>r. r\<lparr>op_state := Op_accepted, op_receipt := Some v\<rparr>) (operations st)"
    by (simp add: settles_def)
  note accepted = set_operation_exclusive [OF this assms(1)]
  from assms(2) consider "st' = st" | y where "st' = quarantineOperation y st" | "st' = ?st" | c e where "cover sha256 c e ?st = Some st'"
    by (auto simp: accept_def bind_eq_Some_conv Let_def split: option.splits if_splits)
  then show ?thesis
  proof cases
    case (4 c e)
    with accepted exclusive_cong [OF cover_operations [OF 4]] show ?thesis by simp
  qed (use assms(1) accepted quarantine_exclusive [OF assms(1)] in simp_all)
qed

lemma due_operation_mem: "due_operation ds now st = Some r \<Longrightarrow> r \<in> set (operations st) \<and> op_state r \<in> {Op_ready, Op_uncertain}"
proof -
  have "least_row lt rows = Some r \<Longrightarrow> r \<in> set rows" for lt rows by (induction rows arbitrary: r) (auto split: option.splits if_splits)
  then show "due_operation ds now st = Some r \<Longrightarrow> ?thesis" by (fastforce simp: due_operation_def)
qed

lemma next_operation_exclusive: "exclusive st \<Longrightarrow> exclusive (snd (next_operation n sha256 ds now st))"
proof (induction n arbitrary: st)
  case (Suc n)
  then show ?case
    by (auto simp: quarantine_exclusive retire_ready_exclusive Let_def split: option.split bool.split)
qed simp

lemma next_candidate_operations: "operations (snd (next_candidate n sha256 ds now st)) = operations st"
  by (induction n arbitrary: st) (auto split: option.split bool.split)

subsection \<open>A new operation\<close>

lemma decodeArchiveId_text: "decodeArchiveId (JStr s) = Some t \<Longrightarrow> t = s"
  by (auto simp: decodeArchiveId_def archive_text_def split: if_splits)

lemma archive_text_JStr: "decodeArchiveId v = Some s \<Longrightarrow> v = JStr s"
  by (auto simp: decodeArchiveId_def archive_text_def split: js_value.splits if_splits)

lemma decodeArchiveBinding_texts:
  assumes "decodeArchiveBinding v strict = Some b"
  shows "map (text_at v) [''server_id'', ''namespace_id'', ''history_generation''] = map Some [server_id b, namespace_id b, history_generation b]"
proof -
  from assms obtain row where v: "v = JObj row" and d: "decodeArchiveId (prop_of row ''server_id'') = Some (server_id b)"
    "decodeArchiveId (prop_of row ''namespace_id'') = Some (namespace_id b)" "decodeArchiveId (prop_of row ''history_generation'') = Some (history_generation b)"
    by (cases v) (auto simp: decodeArchiveBinding_def bind_eq_Some_conv object_def split: if_splits)
  from d [THEN archive_text_JStr] show ?thesis by (simp add: v text_at_def js_text_def)
qed

lemma decodeCandidate_session: "decodeCandidate sha256 st r = Some c \<Longrightarrow> wc_session c = cand_session r"
  by (auto simp: decodeCandidate_def bind_eq_Some_conv Let_def dest!: decodeArchiveId_text split: option.splits if_splits)

lemma decodeCandidate_destination: "decodeCandidate sha256 st r = Some c \<Longrightarrow> wc_destination c = cand_destination r \<and> wc_id c = cand_id r"
  by (auto simp: decodeCandidate_def bind_eq_Some_conv Let_def split: option.splits if_splits)

lemma text_at_obj_of: "distinct (map fst ps) \<Longrightarrow> text_at (JObj (obj_of ps)) k = (case map_of ps k of Some (Some v) \<Rightarrow> js_text v | _ \<Rightarrow> None)"
  by (auto simp: text_at_def prop_of_obj_of js_text_def split: option.split)

lemma value_at_obj_of: "distinct (map fst ps) \<Longrightarrow> value_at (JObj (obj_of ps)) k = (case map_of ps k of Some (Some v) \<Rightarrow> v | _ \<Rightarrow> JUndefined)"
  by (simp add: value_at_def prop_of_obj_of)

lemma binding_value_texts: "map (text_at (binding_value b)) [''server_id'', ''namespace_id'', ''history_generation''] = map Some [server_id b, namespace_id b, history_generation b]"
  by (simp add: binding_value_def text_at_def prop_of_def js_text_def)

lemma req_value_key:
  "text_at (req_value r) ''session_id'' = Some (req_session r)" "value_at (req_value r) ''binding'' = binding_value (req_binding r)"
proof -
  have "text_at (req_value r) ''session_id'' = Some (req_session r) \<and> value_at (req_value r) ''binding'' = binding_value (req_binding r)"
  proof (cases r)
    case (Publish_request p)
    then show ?thesis by (simp add: publication_value_def text_at_obj_of value_at_obj_of js_text_def del: obj_of.simps)
  next
    case (Preserve_request q)
    then show ?thesis by (cases q) (simp_all add: text_at_obj_of value_at_obj_of js_text_def del: obj_of.simps)
  qed
  then show "text_at (req_value r) ''session_id'' = Some (req_session r)" "value_at (req_value r) ''binding'' = binding_value (req_binding r)" by simp_all
qed

text \<open>The request of a new operation names the history that its candidate's destination is bound to.\<close>

lemma prepare_excludes:
  assumes c: "candidate sha256 st i = Some c" "candidate_row st i = Some r" and request: "operationRequest kind v c = Some request"
    and bound: "binding_authorized st (wc_destination c) (req_binding request) = Some u" and none: "\<not> has_unresolved st r"
    and x: "x \<in> set (operations st)" "unresolved x"
  shows "op_key x \<noteq> (Some (req_session request), map Some [server_id (req_binding request), namespace_id (req_binding request), history_generation (req_binding request)])"
proof
  assume key: "op_key x = (Some (req_session request), map Some [server_id (req_binding request), namespace_id (req_binding request), history_generation (req_binding request)])"
  from c have d: "decodeCandidate sha256 st r = Some c" by (simp add: candidate_def)
  from bound obtain b where b: "destination_binding st (cand_destination r) = Some b" "decodeArchiveBinding b True = Some (req_binding request)"
    using decodeCandidate_destination [OF d] by (auto simp: binding_authorized_def bind_eq_Some_conv)
  from request have "req_session request = cand_session r"
    using decodeCandidate_session [OF d] by (auto simp: operationRequest_def bind_eq_Some_conv)
  with key decodeArchiveBinding_texts [OF b(2)] x b(1) have "unresolved_match st r x"
    by (simp add: unresolved_match_def op_key_def same_text_def)
  with none x(1) show False by (auto simp: has_unresolved_def list_ex_iff)
qed

lemma open_keys_append: "open_keys (xs @ ys) = open_keys xs @ open_keys ys"
  by (simp add: open_keys_def)

lemma prepare_exclusive:
  assumes "exclusive st" "prepare sha256 i kind v dependency comparison now st = Some st'"
  shows "exclusive st'"
proof -
  from assms(2) obtain c r request u row where c: "candidate sha256 st i = Some c" "candidate_row st i = Some r" "operationRequest kind v c = Some request"
    "binding_authorized st (wc_destination c) (req_binding request) = Some u" "\<not> has_unresolved st r"
    and new: "\<not> list_ex (\<lambda>x. op_id x = req_operation request) (operations st)"
    and row: "op_id row = req_operation request" "op_request row = req_value request"
    and st': "operations st' = operations st @ [row]"
    unfolding prepare_def bind_eq_Some_conv Let_def by (elim exE conjE) (rule that; force)
  have "op_key row = (Some (req_session request), map Some [server_id (req_binding request), namespace_id (req_binding request), history_generation (req_binding request)])"
    using binding_value_texts [of "req_binding request"] by (simp add: op_key_def row req_value_key)
  with prepare_excludes [OF c] have "op_key row \<notin> set (open_keys (operations st))" by (fastforce simp: open_keys_def)
  with assms(1) new show ?thesis by (auto simp: exclusive_def st' open_keys_append row list_ex_iff)
qed

end
