(* ===== verification/Archive_Import.thy ===== *)
theory Archive_Import
  imports Archive_Exclusion "HOL-Library.Sublist"
begin

text \<open>
  Opening the archive worker's state, the constructor of \<open>src/src/server/ArchiveWorkerState.ts\<close> with \<open>importLegacy\<close>: requests
  that an earlier journal left pending become operations that may have been sent, its captured bodies become candidates.
  Opening again imports nothing twice.
\<close>

section \<open>The earlier journal\<close>

text \<open>\<open>INSERT OR IGNORE\<close>\<close>

definition insert_ignore :: "('r \<Rightarrow> string) \<Rightarrow> 'r \<Rightarrow> 'r list \<Rightarrow> 'r list" where
  "insert_ignore key r rows = (if list_ex (\<lambda>x. key x = key r) rows then rows else rows @ [r])"

definition profile_value :: "string \<Rightarrow> Binding \<Rightarrow> js_value" where
  "profile_value origin b = JArr [JStr origin, JStr (server_id b), JStr (namespace_id b), JStr (history_generation b)]"

definition legacy_candidate :: "string \<Rightarrow> string \<Rightarrow> string \<Rightarrow> string \<Rightarrow> int \<Rightarrow> string \<Rightarrow> js_value \<Rightarrow> js_value \<Rightarrow> string option \<Rightarrow> CandidateRow" where
  "legacy_candidate i d sid file len sha metadata profile cap = \<lparr>cand_id = i, cand_destination = d, cand_session = sid, cand_source = file,
     cand_byte_length = len, cand_sha256 = sha, cand_metadata = metadata, cand_body = None, cand_legacy_profile = Some profile, cand_legacy_capture = cap,
     cand_state = Cand_ready, cand_attempts = 0, cand_due = 0, cand_turn = 0, cand_diagnostic = None\<rparr>"

definition legacy_destination :: "(body \<Rightarrow> string) \<Rightarrow> string \<Rightarrow> js_value \<Rightarrow> Binding \<Rightarrow> WorkerState \<Rightarrow> WorkerState" where
  "legacy_destination sha256 origin profile b st = st\<lparr>destinations := insert_ignore dest_id \<lparr>dest_id = destinationId sha256 origin (legacy_generation profile),
     dest_origin = origin, dest_generation = legacy_generation profile, dest_binding = Some (binding_value b)\<rparr> (destinations st)\<rparr>"

text \<open>The checked origin and request of an upload.\<close>

definition legacy_request :: "UploadRow \<Rightarrow> js_value \<Rightarrow> (string \<times> Publication) option" where
  "legacy_request u pending = do {
     request \<leftarrow> decodeArchivePublication pending True;
     (origin, _) \<leftarrow> profile_identity (upl_profile u);
     guard (upl_profile u = profile_value origin (pub_binding request));
     guard (upl_session u = pub_session_id request \<and> path_isAbsolute (upl_source u) \<and> CHR 0x00 \<notin> set (upl_source u));
     Some (origin, request)
   }"

definition legacy_id :: "(body \<Rightarrow> string) \<Rightarrow> UploadRow \<Rightarrow> string \<times> Publication \<Rightarrow> string" where
  "legacy_id sha256 u q = ''legacy:'' @ destinationId sha256 (fst q) (legacy_generation (upl_profile u)) @ '':'' @ pub_operation_id (snd q)"

definition legacy_operation :: "(body \<Rightarrow> string) \<Rightarrow> UploadRow \<Rightarrow> js_value \<Rightarrow> string \<times> Publication \<Rightarrow> OperationRow" where
  "legacy_operation sha256 u pending q = \<lparr>op_id = legacy_id sha256 u q, op_destination = destinationId sha256 (fst q) (legacy_generation (upl_profile u)),
     op_candidate = legacy_id sha256 u q, op_kind = ''publish'', op_request = pending, op_state = Op_uncertain, op_dispatched = 1, op_replay_blocked = 0,
     op_attempts = 0, op_due = 0, op_turn = 0, op_dependency = None, op_comparison = None, op_receipt = None, op_diagnostic = None\<rparr>"

definition import_upload :: "(body \<Rightarrow> string) \<Rightarrow> UploadRow \<Rightarrow> WorkerState \<Rightarrow> WorkerState option" where
  "import_upload sha256 u st = (case upl_pending u of None \<Rightarrow> Some st | Some pending \<Rightarrow> do {
     (origin, request) \<leftarrow> legacy_request u pending;
     let x = legacy_operation sha256 u pending (origin, request);
       st = legacy_destination sha256 origin (upl_profile u) (pub_binding request) st in
     Some (st\<lparr>candidates := insert_ignore cand_id (legacy_candidate (op_candidate x) (op_destination x) (pub_session_id request) (upl_source u)
         (pub_byte_length request) (pub_sha256 request) (nullable_metadata_value (pub_metadata request)) (upl_profile u) None) (candidates st),
       operations := insert_ignore op_id x (operations st)\<rparr>)
   })"

definition import_capture :: "(body \<Rightarrow> string) \<Rightarrow> CaptureRow \<Rightarrow> WorkerState \<Rightarrow> WorkerState option" where
  "import_capture sha256 r st = do {
     (origin, b) \<leftarrow> profile_identity (cap_profile r);
     binding \<leftarrow> profile_binding b;
     len \<leftarrow> safe_number (cap_byte_length r);
     let d = destinationId sha256 origin (legacy_generation (cap_profile r));
       i = ''capture:'' @ value_hash sha256 (cap_profile r) @ '':'' @ cap_id r;
       st = legacy_destination sha256 origin (cap_profile r) binding st in
     Some (st\<lparr>candidates := insert_ignore cand_id (legacy_candidate i d (cap_session r) (cap_source r) len (cap_sha256 r) (cap_metadata r) (cap_profile r)
       (Some (cap_id r))) (candidates st)\<rparr>)
   }"

fun import_each :: "('r \<Rightarrow> WorkerState \<Rightarrow> WorkerState option) \<Rightarrow> 'r list \<Rightarrow> WorkerState \<Rightarrow> WorkerState option" where
  "import_each f [] st = Some st"
| "import_each f (r # rows) st = Option.bind (f r st) (import_each f rows)"

definition importLegacy :: "(body \<Rightarrow> string) \<Rightarrow> WorkerState \<Rightarrow> WorkerState option" where
  "importLegacy sha256 st = do {
     st \<leftarrow> import_each (import_upload sha256) (uploads st) st;
     import_each (import_capture sha256) (captures st) st
   }"

text \<open>The constructor.  \<open>added\<close> tells that the column \<open>dispatched\<close> was missing: rows of the earlier schema may have been
  sent.  Nothing is reserved in the new object.\<close>

definition migrate_dispatched :: "WorkerState \<Rightarrow> WorkerState" where
  "migrate_dispatched st = set_operation (\<lambda>x. op_state x \<in> {Op_ready, Op_uncertain}) (\<lambda>x. x\<lparr>op_dispatched := 1\<rparr>) st"

definition open_state :: "(body \<Rightarrow> string) \<Rightarrow> bool \<Rightarrow> WorkerState \<Rightarrow> WorkerState option" where
  "open_state sha256 added st = map_option (\<lambda>s. s\<lparr>working := 0\<rparr>) (importLegacy sha256 (if added then migrate_dispatched st else st))"

section \<open>What an import adds\<close>

text \<open>The history and the session that a pending upload names, as \<^const>\<open>op_key\<close> reads them from a stored request.\<close>

definition request_key :: "js_value \<Rightarrow> string option \<times> string option list" where
  "request_key v = (text_at v ''session_id'', map (text_at (value_at v ''binding'')) [''server_id'', ''namespace_id'', ''history_generation''])"

definition pending_requests :: "UploadRow list \<Rightarrow> js_value list" where
  "pending_requests us = List.map_filter upl_pending us"

lemma op_key_request: "op_key x = request_key (op_request x)"
  by (simp add: op_key_def request_key_def)

lemma pending_requests_simps [simp]:
  "pending_requests [] = []"
  "pending_requests (u # us) = (case upl_pending u of None \<Rightarrow> pending_requests us | Some v \<Rightarrow> v # pending_requests us)"
  by (simp_all add: pending_requests_def List.map_filter_simps split: option.split)

lemma import_upload_None: "upl_pending u = None \<Longrightarrow> import_upload sha256 u st = Some st"
  by (simp add: import_upload_def)

lemma import_upload_Some:
  assumes "import_upload sha256 u st = Some st'" "upl_pending u = Some pending"
  obtains q where "legacy_request u pending = Some q" "operations st' = insert_ignore op_id (legacy_operation sha256 u pending q) (operations st)"
  using assms by (auto simp: import_upload_def legacy_destination_def bind_eq_Some_conv Let_def)

lemma legacy_operation_simps [simp]:
  "op_id (legacy_operation sha256 u pending q) = legacy_id sha256 u q" "op_request (legacy_operation sha256 u pending q) = pending"
  by (simp_all add: legacy_operation_def)

lemma insert_ignore_cases: "insert_ignore key r rows = (if key r \<in> key ` set rows then rows else rows @ [r])"
proof -
  have "list_ex (\<lambda>x. key x = key r) rows \<longleftrightarrow> key r \<in> key ` set rows" by (auto simp: list_ex_iff intro: rev_image_eqI)
  then show ?thesis by (simp add: insert_ignore_def)
qed

lemma import_upload_operations:
  assumes "import_upload sha256 u st = Some st'"
  shows "operations st' = operations st \<or> (\<exists>x. operations st' = operations st @ [x] \<and> op_id x \<notin> op_id ` set (operations st) \<and> upl_pending u = Some (op_request x))"
proof (cases "upl_pending u")
  case None
  with assms show ?thesis by (simp add: import_upload_None)
next
  case (Some pending)
  with import_upload_Some [OF assms Some] show ?thesis by (metis insert_ignore_cases legacy_operation_simps)
qed

lemma import_upload_uploads: "import_upload sha256 u st = Some st' \<Longrightarrow> uploads st' = uploads st"
  by (auto simp: import_upload_def legacy_destination_def bind_eq_Some_conv Let_def split: option.splits)

lemma import_capture_operations: "import_capture sha256 r st = Some st' \<Longrightarrow> operations st' = operations st \<and> uploads st' = uploads st"
  by (auto simp: import_capture_def legacy_destination_def bind_eq_Some_conv Let_def split: prod.splits)

lemma import_uploads_operations:
  "import_each (import_upload sha256) us st = Some st' \<Longrightarrow> \<exists>xs. operations st' = operations st @ xs
     \<and> (distinct (map op_id (operations st)) \<longrightarrow> distinct (map op_id (operations st @ xs))) \<and> subseq (map op_request xs) (pending_requests us)"
proof (induction us arbitrary: st)
  case (Cons u us)
  then obtain s where s: "import_upload sha256 u st = Some s" "import_each (import_upload sha256) us s = Some st'" by (auto simp: bind_eq_Some_conv)
  from Cons.IH [OF s(2)] obtain xs where xs: "operations st' = operations s @ xs"
    "distinct (map op_id (operations s)) \<longrightarrow> distinct (map op_id (operations s @ xs))" "subseq (map op_request xs) (pending_requests us)" by blast
  from import_upload_operations [OF s(1)] consider "operations s = operations st"
    | x where "operations s = operations st @ [x]" "op_id x \<notin> op_id ` set (operations st)" "upl_pending u = Some (op_request x)" by blast
  then show ?case
  proof cases
    case 1
    with xs show ?thesis by (intro exI [of _ xs]) (auto split: option.split)
  next
    case (2 x)
    with xs show ?thesis by (intro exI [of _ "x # xs"]) auto
  qed
qed simp

lemma import_captures_operations: "import_each (import_capture sha256) rs st = Some st' \<Longrightarrow> operations st' = operations st \<and> uploads st' = uploads st"
  by (induction rs arbitrary: st) (auto simp: bind_eq_Some_conv dest!: import_capture_operations)

lemma import_uploads_uploads: "import_each (import_upload sha256) us st = Some st' \<Longrightarrow> uploads st' = uploads st"
  by (induction us arbitrary: st) (auto simp: bind_eq_Some_conv dest!: import_upload_uploads)

lemma importLegacy_operations:
  assumes "importLegacy sha256 st = Some st'"
  obtains xs where "operations st' = operations st @ xs" "distinct (map op_id (operations st)) \<Longrightarrow> distinct (map op_id (operations st @ xs))"
    "subseq (map op_request xs) (pending_requests (uploads st))"
proof -
  from assms obtain s where s: "import_each (import_upload sha256) (uploads st) st = Some s" "import_each (import_capture sha256) (captures s) s = Some st'"
    by (auto simp: importLegacy_def bind_eq_Some_conv)
  from import_uploads_operations [OF s(1)] import_captures_operations [OF s(2)] show ?thesis by (auto intro: that)
qed

lemma importLegacy_uploads: "importLegacy sha256 st = Some st' \<Longrightarrow> uploads st' = uploads st"
  by (auto simp: importLegacy_def bind_eq_Some_conv dest!: import_uploads_uploads import_captures_operations)

section \<open>What has been imported\<close>

text \<open>Every pending upload has its operation.\<close>

definition imported :: "(body \<Rightarrow> string) \<Rightarrow> WorkerState \<Rightarrow> bool" where
  "imported sha256 st \<longleftrightarrow> (\<forall>u \<in> set (uploads st). \<forall>pending q. upl_pending u = Some pending \<longrightarrow> legacy_request u pending = Some q
     \<longrightarrow> legacy_id sha256 u q \<in> op_id ` set (operations st))"

lemma import_upload_id:
  assumes "import_upload sha256 u st = Some st'" "upl_pending u = Some pending" "legacy_request u pending = Some q"
  shows "legacy_id sha256 u q \<in> op_id ` set (operations st')"
proof -
  from import_upload_Some [OF assms(1,2)] assms(3)
  have "operations st' = insert_ignore op_id (legacy_operation sha256 u pending q) (operations st)" by (metis option.inject)
  then show ?thesis by (simp add: insert_ignore_cases)
qed

lemma import_uploads_ids:
  assumes "import_each (import_upload sha256) us st = Some st'" "u \<in> set us" "upl_pending u = Some pending" "legacy_request u pending = Some q"
  shows "legacy_id sha256 u q \<in> op_id ` set (operations st')"
  using assms
proof (induction us arbitrary: st)
  case (Cons v us)
  then obtain s where s: "import_upload sha256 v st = Some s" "import_each (import_upload sha256) us s = Some st'" by (auto simp: bind_eq_Some_conv)
  show ?case
  proof (cases "u \<in> set us")
    case False
    with Cons.prems have "legacy_id sha256 u q \<in> op_id ` set (operations s)" using import_upload_id s(1) by auto
    then show ?thesis using import_uploads_operations [OF s(2)] by auto
  qed (use Cons s in blast)
qed simp

lemma importLegacy_imports: "importLegacy sha256 st = Some st' \<Longrightarrow> imported sha256 st'"
proof -
  assume "importLegacy sha256 st = Some st'"
  then obtain s where s: "import_each (import_upload sha256) (uploads st) st = Some s" "import_each (import_capture sha256) (captures s) s = Some st'"
    by (auto simp: importLegacy_def bind_eq_Some_conv)
  from import_captures_operations [OF s(2)] import_uploads_uploads [OF s(1)] import_uploads_ids [OF s(1)] show ?thesis
    by (simp add: imported_def)
qed

lemma import_upload_again:
  assumes "import_upload sha256 u st = Some st'" "\<And>pending q. upl_pending u = Some pending \<Longrightarrow> legacy_request u pending = Some q
      \<Longrightarrow> legacy_id sha256 u q \<in> op_id ` set (operations st)"
  shows "operations st' = operations st"
proof (cases "upl_pending u")
  case None
  with assms(1) show ?thesis by (simp add: import_upload_None)
next
  case (Some pending)
  with import_upload_Some [OF assms(1) Some] assms(2) [OF Some] show ?thesis by (metis insert_ignore_cases legacy_operation_simps(1))
qed

lemma import_uploads_again:
  assumes "import_each (import_upload sha256) us st = Some st'" "imported sha256 st" "set us \<subseteq> set (uploads st)"
  shows "operations st' = operations st"
  using assms
proof (induction us arbitrary: st)
  case (Cons u us)
  then obtain s where s: "import_upload sha256 u st = Some s" "import_each (import_upload sha256) us s = Some st'" by (auto simp: bind_eq_Some_conv)
  have "operations s = operations st" using import_upload_again [OF s(1)] Cons.prems(2,3) by (auto simp: imported_def)
  moreover have "uploads s = uploads st" by (rule import_upload_uploads [OF s(1)])
  ultimately show ?case using Cons.IH [OF s(2)] Cons.prems(2,3) by (simp add: imported_def)
qed simp

lemma importLegacy_again: "importLegacy sha256 st = Some st' \<Longrightarrow> imported sha256 st \<Longrightarrow> operations st' = operations st"
proof -
  assume *: "importLegacy sha256 st = Some st'" "imported sha256 st"
  then obtain s where s: "import_each (import_upload sha256) (uploads st) st = Some s" "import_each (import_capture sha256) (captures s) s = Some st'"
    by (auto simp: importLegacy_def bind_eq_Some_conv)
  from import_captures_operations [OF s(2)] import_uploads_again [OF s(1) *(2)] show ?thesis by simp
qed

lemma imported_mono:
  assumes "imported sha256 st" "op_id ` set (operations st) \<subseteq> op_id ` set (operations st')"
    and "\<And>u. u \<in> set (uploads st') \<Longrightarrow> upl_pending u \<noteq> None \<Longrightarrow> u \<in> set (uploads st)"
  shows "imported sha256 st'"
  using assms unfolding imported_def by (metis option.distinct(1) subsetD)

section \<open>Opening\<close>

lemma migrate_dispatched_operations:
  "exclusive (migrate_dispatched st) \<longleftrightarrow> exclusive st" "map op_id (operations (migrate_dispatched st)) = map op_id (operations st)" "uploads (migrate_dispatched st) = uploads st"
proof -
  have "map op_id (update_rows p (\<lambda>x. x\<lparr>op_dispatched := 1\<rparr>) rows) = map op_id rows"
    "open_keys (update_rows p (\<lambda>x. x\<lparr>op_dispatched := 1\<rparr>) rows) = open_keys rows" for p rows
    by (induction rows) (auto simp: op_key_def unresolved_def)
  then show "exclusive (migrate_dispatched st) \<longleftrightarrow> exclusive st" "map op_id (operations (migrate_dispatched st)) = map op_id (operations st)"
      "uploads (migrate_dispatched st) = uploads st"
    by (simp_all add: migrate_dispatched_def set_operation_def exclusive_def)
qed

lemma subseq_distinct: "subseq xs ys \<Longrightarrow> distinct ys \<Longrightarrow> distinct xs"
  by (metis distinct_nthsI subseq_conv_nths)

text \<open>A first opening, with uploads of different histories and sessions.\<close>

lemma open_first:
  assumes "open_state sha256 added st = Some st'" "operations st = []" "distinct (map request_key (pending_requests (uploads st)))"
  shows "exclusive st' \<and> imported sha256 st'"
proof -
  let ?s = "if added then migrate_dispatched st else st"
  have ops: "operations ?s = []" using assms(2) by (simp add: migrate_dispatched_def set_operation_def)
  have upl: "uploads ?s = uploads st" by (simp add: migrate_dispatched_operations)
  from assms(1) obtain s where s: "importLegacy sha256 ?s = Some s" "st' = s\<lparr>working := 0\<rparr>" by (auto simp: open_state_def)
  from importLegacy_operations [OF s(1)] obtain xs where xs: "operations s = xs" "distinct (map op_id xs)" "subseq (map op_request xs) (pending_requests (uploads st))"
    unfolding ops upl by auto
  have "distinct (map request_key (map op_request xs))" using subseq_distinct [OF subseq_map [OF xs(3)] assms(3)] .
  then have "distinct (map op_key xs)" by (simp add: comp_def op_key_request [abs_def])
  then have "distinct (open_keys xs)" by (simp add: open_keys_def distinct_map_filter)
  with xs s(2) importLegacy_imports [OF s(1)] show ?thesis by (simp add: exclusive_def imported_def)
qed

lemma open_again:
  assumes "open_state sha256 added st = Some st'" "imported sha256 st"
  shows "exclusive st \<Longrightarrow> exclusive st'" "uploads st' = uploads st" "map op_id (operations st') = map op_id (operations st)"
proof -
  let ?s = "if added then migrate_dispatched st else st"
  have ids: "map op_id (operations ?s) = map op_id (operations st)" "uploads ?s = uploads st" "exclusive ?s = exclusive st"
    by (simp_all add: migrate_dispatched_operations)
  from ids(1) have "op_id ` set (operations ?s) = op_id ` set (operations st)" by (metis image_set)
  with assms(2) ids(2) have i: "imported sha256 ?s" by (simp add: imported_def)
  from assms(1) obtain s where s: "importLegacy sha256 ?s = Some s" "st' = s\<lparr>working := 0\<rparr>" by (auto simp: open_state_def)
  note again = importLegacy_again [OF s(1) i] importLegacy_uploads [OF s(1)]
  show "exclusive st'" if "exclusive st" using that ids(3) again(1) s(2) by (simp add: exclusive_def)
  show "uploads st' = uploads st" using again(2) ids(2) s(2) by simp
  show "map op_id (operations st') = map op_id (operations st)" using again(1) ids(1) s(2) by simp
qed

text \<open>Opening adds operations behind those there are.\<close>

lemma open_operations:
  assumes "open_state sha256 added st = Some st'"
  shows "\<exists>s xs. (s = st \<or> s = migrate_dispatched st) \<and> operations st' = operations s @ xs
    \<and> (distinct (map op_id (operations s)) \<longrightarrow> distinct (map op_id (operations s @ xs)))"
proof -
  let ?s = "if added then migrate_dispatched st else st"
  from assms obtain s where s: "importLegacy sha256 ?s = Some s" "st' = s\<lparr>working := 0\<rparr>" by (auto simp: open_state_def)
  from importLegacy_operations [OF s(1)] obtain xs where "operations s = operations ?s @ xs"
    "distinct (map op_id (operations ?s)) \<longrightarrow> distinct (map op_id (operations ?s @ xs))" by blast
  with s(2) show ?thesis by (intro exI [of _ ?s] exI [of _ xs]) simp
qed

end
