(* ===== verification/Archive_Safety.thy ===== *)
theory Archive_Safety
  imports Archive_Import
begin

text \<open>
  Runs of the archive worker's state: any sequence of its operations, with any number of new openings.  One unresolved operation per history and session,
  an operation that may have been sent stays until it is settled, and what is handed out for sending was checked.
\<close>

section \<open>Steps\<close>

text \<open>What a step settles: a receipt for an operation, a refusal of one with the dependency it fences, a new binding of a
  destination, or nothing.\<close>

datatype settlement = Nothing | Receipt_for string | Refusal_of string "string option" | Binding_of string

inductive worker_step :: "(body \<Rightarrow> string) \<Rightarrow> (string \<Rightarrow> (string \<times> string) option) \<Rightarrow> settlement \<Rightarrow> WorkerState \<Rightarrow> WorkerState \<Rightarrow> bool"
  for sha256 url_origin where
  prepare: "prepare sha256 i kind v dependency comparison now st = Some st' \<Longrightarrow> worker_step sha256 url_origin Nothing st st'"
| nextOperation: "nextOperation sha256 ds now st = (answer, st') \<Longrightarrow> worker_step sha256 url_origin Nothing st st'"
| nextCandidate: "nextCandidate sha256 ds now st = (found, st') \<Longrightarrow> worker_step sha256 url_origin Nothing st st'"
| markUncertain: "worker_step sha256 url_origin Nothing st (markUncertain i st)"
| replay: "replay sha256 i due now st = Some st' \<Longrightarrow> worker_step sha256 url_origin Nothing st st'"
| failOperation: "worker_step sha256 url_origin Nothing st (failOperation i due diagnostic now st)"
| defer_operation: "worker_step sha256 url_origin Nothing st (defer_operation i due diagnostic now st)"
| accept: "accept sha256 x v completes st = Some (b, st') \<Longrightarrow> worker_step sha256 url_origin (Receipt_for (wo_id x)) st st'"
| reject: "worker_step sha256 url_origin (Refusal_of (wo_id x) (wo_dependency x)) st (reject x due now st)"
| bind: "worker_step sha256 url_origin (Binding_of d) st (bind_destination d known b st)"
| cover: "cover sha256 c evidence st = Some st' \<Longrightarrow> worker_step sha256 url_origin Nothing st st'"
| pause: "worker_step sha256 url_origin Nothing st (pauseCandidate c diagnostic st)"
| resume: "worker_step sha256 url_origin Nothing st (resumeCandidates d st)"
| defer_candidate: "worker_step sha256 url_origin Nothing st (defer_candidate c due diagnostic terminal now st)"
| clear: "worker_step sha256 url_origin Nothing st (clearComparison c st)"
| cursor: "worker_step sha256 url_origin Nothing st (comparisonCursor c cur st)"
| coherent: "worker_step sha256 url_origin Nothing st (coherentComparison c snapshot st)"
| save: "worker_step sha256 url_origin Nothing st (saveComparison c snapshot body st)"
| release_bodies: "worker_step sha256 url_origin Nothing st (releaseComparisonBodies except st)"
| prune: "worker_step sha256 url_origin Nothing st (pruneComparison ds st)"
| reserve: "reserve n st = Some st' \<Longrightarrow> worker_step sha256 url_origin Nothing st st'"
| release: "worker_step sha256 url_origin Nothing st (release n st)"
| authorize: "worker_step sha256 url_origin Nothing st (authorize g b caps st)"
| unauthorize: "worker_step sha256 url_origin Nothing st (authorizationFailure g blocked due st)"
| import: "import_manifest sha256 url_origin v st = Some (b, st') \<Longrightarrow> worker_step sha256 url_origin Nothing st st'"
| addSources: "worker_step sha256 url_origin Nothing st (snd (addSources scope files cur complete issues updateScope now st))"
| nextSource: "nextSource sha256 now only st = (found, st') \<Longrightarrow> worker_step sha256 url_origin Nothing st st'"
| capture: "capture sha256 source snapshot st = Some (b, st') \<Longrightarrow> worker_step sha256 url_origin Nothing st st'"
| observeSource: "observeSource sha256 i evidence ancestry st = Some st' \<Longrightarrow> worker_step sha256 url_origin Nothing st st'"
| finishSource: "worker_step sha256 url_origin Nothing st (finishSource i state st)"
| continuation: "worker_step sha256 url_origin Nothing st (directoryContinuation i cur now st)"
| defer_scope: "worker_step sha256 url_origin Nothing st (defer_scope s due diagnostic now st)"
| defer_source: "worker_step sha256 url_origin Nothing st (defer_source i due diagnostic now st)"
| reopen: "open_state sha256 added st = Some st' \<Longrightarrow> worker_step sha256 url_origin Nothing st st'"

inductive worker_run :: "(body \<Rightarrow> string) \<Rightarrow> (string \<Rightarrow> (string \<times> string) option) \<Rightarrow> WorkerState \<Rightarrow> WorkerState \<Rightarrow> bool"
  for sha256 url_origin where
  start: "worker_run sha256 url_origin st st"
| step: "worker_run sha256 url_origin st st' \<Longrightarrow> worker_step sha256 url_origin l st' st'' \<Longrightarrow> worker_run sha256 url_origin st st''"

lemmas keeps_operations = operations_frame addSources_operations cover_operations reserve_operations import_operations nextSource_operations
  capture_operations observeSource_operations

lemmas keeps_exclusive = prepare_exclusive replay_exclusive accept_exclusive failOperation_exclusive markUncertain_exclusive
  defer_operation_exclusive reject_exclusive bind_exclusive

lemma nextOperation_exclusive: "exclusive st \<Longrightarrow> nextOperation sha256 ds now st = (a, st') \<Longrightarrow> exclusive st'"
  using next_operation_exclusive [of st 64 sha256 ds now] by (auto simp: nextOperation_def split: if_splits)

lemma nextCandidate_operations: "nextCandidate sha256 ds now st = (a, st') \<Longrightarrow> operations st' = operations st"
  using next_candidate_operations [of 64 sha256 ds now st] by (auto simp: nextCandidate_def split: if_splits)

subsection \<open>Identifiers stay, uploads are only settled\<close>

definition op_ids :: "WorkerState \<Rightarrow> string list" where
  "op_ids st = map op_id (operations st)"

lemma op_ids_cong: "operations st' = operations st \<Longrightarrow> op_ids st' = op_ids st"
  by (simp add: op_ids_def)

lemma op_ids_set_operation: "(\<And>r. op_id (f r) = op_id r) \<Longrightarrow> op_ids (set_operation p f st) = op_ids st"
  by (simp add: op_ids_def set_operation_def update_rows_def)

lemma uploads_frame [simp]:
  "uploads (clearComparison c st) = uploads st"
  "uploads (pauseCandidate c d st) = uploads st"
  "uploads (resumeCandidates c st) = uploads st"
  "uploads (defer_candidate c due d t now st) = uploads st"
  "uploads (last_in_turn c st) = uploads st"
  "uploads (comparisonCursor c cur st) = uploads st"
  "uploads (coherentComparison c v st) = uploads st"
  "uploads (releaseComparisonBodies e st) = uploads st"
  "uploads (pruneComparison ds st) = uploads st"
  "uploads (saveComparison c v b st) = uploads st"
  "uploads (release n st) = uploads st"
  "uploads (authorize g bd caps st) = uploads st"
  "uploads (authorizationFailure g bl due st) = uploads st"
  "uploads (defer_scope i due d now st) = uploads st"
  "uploads (defer_source j due d now st) = uploads st"
  "uploads (completeScopes st) = uploads st"
  "uploads (insert_source s f ext st) = uploads st"
  "uploads (finishSource j state st) = uploads st"
  "uploads (directoryContinuation j cur now st) = uploads st"
  "uploads (set_scope i g' st) = uploads st"
  "uploads (set_operation p h st) = uploads st"
  by (simp_all add: clearComparison_def pauseCandidate_def resumeCandidates_def defer_candidate_def last_in_turn_def comparisonCursor_def
    coherentComparison_def releaseComparisonBodies_def pruneComparison_def saveComparison_def release_def authorize_def set_operation_def
    authorizationFailure_def defer_scope_def defer_source_def completeScopes_def insert_source_def finishSource_def directoryContinuation_def set_scope_def
    Let_def split: option.split)

lemma settling_frame [simp]:
  "uploads (quarantineOperation x st) = uploads st" "op_ids (quarantineOperation x st) = op_ids st"
  "uploads (retire_ready r st) = uploads st" "op_ids (retire_ready r st) = op_ids st"
  "uploads (markUncertain i st) = uploads st" "op_ids (markUncertain i st) = op_ids st"
  "uploads (defer_operation i due d now st) = uploads st" "op_ids (defer_operation i due d now st) = op_ids st"
  "uploads (failOperation i due d now st) = uploads st" "op_ids (failOperation i due d now st) = op_ids st"
  "uploads (reject w due now st) = uploads st" "op_ids (reject w due now st) = op_ids st"
  "uploads (bind_destination dst known b st) = uploads st" "op_ids (bind_destination dst known b st) = op_ids st"
proof -
  have s [simp]: "op_ids (set_operation p f st) = op_ids st" if "\<And>r. op_id (f r) = op_id r" for p f st by (rule op_ids_set_operation [OF that])
  have c [simp]: "op_ids (clearComparison c st) = op_ids st" "op_ids (pauseCandidate c d st) = op_ids st" "op_ids (defer_candidate c due d t now st) = op_ids st" for c d due t st
    by (simp_all add: op_ids_def)
  have d: "defer_operation i due d now st = set_operation (\<lambda>r. op_id r = i)
      (\<lambda>r. r\<lparr>op_due := due, op_attempts := op_attempts r + 1, op_turn := now, op_diagnostic := Some (take 160 d)\<rparr>) st"
    by (simp add: defer_operation_def set_operation_def)
  have q: "uploads (quarantineOperation x st) = uploads st \<and> op_ids (quarantineOperation x st) = op_ids st" for x by (simp add: quarantineOperation_def Let_def)
  from q show "uploads (quarantineOperation x st) = uploads st" "op_ids (quarantineOperation x st) = op_ids st" by blast+
  show "uploads (retire_ready r st) = uploads st" "op_ids (retire_ready r st) = op_ids st" by (simp_all add: retire_ready_def)
  show "uploads (markUncertain i st) = uploads st" "op_ids (markUncertain i st) = op_ids st" by (simp_all add: markUncertain_def)
  show "uploads (defer_operation i due d now st) = uploads st" "op_ids (defer_operation i due d now st) = op_ids st" by (simp_all add: d)
  show "uploads (failOperation i due d now st) = uploads st" "op_ids (failOperation i due d now st) = op_ids st"
    using q by (simp_all add: failOperation_def split: option.split)
  show "uploads (reject w due now st) = uploads st" "op_ids (reject w due now st) = op_ids st" by (simp_all add: reject_def Let_def split: option.split)
  show "uploads (bind_destination dst known b st) = uploads st" by (simp add: bind_destination_def Let_def)
  have "op_ids (st'\<lparr>destinations := x\<rparr>) = op_ids st'" "op_ids (st'\<lparr>candidates := y\<rparr>) = op_ids st'" "op_ids (st'\<lparr>comparisons := z\<rparr>) = op_ids st'" for st' x y z
    by (simp_all add: op_ids_def)
  then show "op_ids (bind_destination dst known b st) = op_ids st" by (simp add: bind_destination_def Let_def)
qed

lemma next_operation_frame: "uploads (snd (next_operation n sha256 ds now st)) = uploads st \<and> op_ids (snd (next_operation n sha256 ds now st)) = op_ids st"
  by (induction n arbitrary: st) (auto simp: Let_def split: option.split bool.split)

lemma next_candidate_uploads: "uploads (snd (next_candidate n sha256 ds now st)) = uploads st"
  by (induction n arbitrary: st) (auto split: option.split bool.split)

lemma addSources_uploads: "uploads (snd (addSources scope files cursor complete issues upd now st)) = uploads st"
proof -
  have "uploads (foldl (\<lambda>s f. insert_source scope f id s) st fs) = uploads st" for fs st
    by (induction fs arbitrary: st) simp_all
  moreover have "uploads (foldl (\<lambda>s i. insert_source scope (issue_path i) (g i) s) st is) = uploads st" for "is" st and g :: "DiscoveryIssue \<Rightarrow> SourceRow \<Rightarrow> SourceRow"
    by (induction "is" arbitrary: st) simp_all
  ultimately show ?thesis by (simp add: addSources_def Let_def)
qed

lemma observeSource_uploads: "observeSource sha256 i e a st = Some st' \<Longrightarrow> uploads st' = uploads st"
  by (auto simp: observeSource_def bind_eq_Some_conv Let_def)

lemma review_batch_uploads: "review_batch sha256 scope now rows cur av st = Some (full, cur', st') \<Longrightarrow> uploads st' = uploads st"
  by (induction rows arbitrary: cur av st) (auto simp: bind_eq_Some_conv split: if_splits)

lemma nextSource_uploads: "nextSource sha256 now ds st = (r, st') \<Longrightarrow> uploads st' = uploads st"
proof -
  have "reviewSources sha256 now ds st = Some s \<Longrightarrow> uploads s = uploads st" for s
    by (auto simp: reviewSources_def bind_eq_Some_conv Let_def dest: review_batch_uploads split: option.splits if_splits)
  then show "nextSource sha256 now ds st = (r, st') \<Longrightarrow> uploads st' = uploads st"
    by (auto simp: nextSource_def split: if_splits option.splits)
qed

lemma import_uploads: "import_manifest sha256 u v st = Some (b, st') \<Longrightarrow> uploads st' = uploads st"
  by (auto simp: import_manifest_def bind_eq_Some_conv Let_def split: option.splits if_splits prod.splits)

lemma store_candidate_uploads: "store_candidate sha256 i d snap m st = Some (Some st') \<Longrightarrow> uploads st' = uploads st"
  by (auto simp: store_candidate_def bind_eq_Some_conv Let_def split: option.splits if_splits)

lemma capture_uploads: "capture sha256 src snap st = Some (b, st') \<Longrightarrow> uploads st' = uploads st"
  by (auto simp: capture_def bind_eq_Some_conv Let_def split: option.splits) (simp_all add: store_candidate_uploads)

lemma replay_frame:
  assumes "replay sha256 i due now st = Some st'"
  shows "uploads st' = uploads st \<and> op_ids st' = op_ids st"
proof (cases "find (\<lambda>r. op_id r = i \<and> op_state r = Op_uncertain) (operations st)")
  case None
  with assms show ?thesis by (auto simp: replay_def split: if_splits)
next
  case (Some x)
  have "op_ids (pauseCandidate c d s) = op_ids s" for c d s by (simp add: op_ids_def)
  with assms Some show ?thesis by (auto simp: replay_def bind_eq_Some_conv Let_def op_ids_set_operation split: if_splits)
qed

lemma prepare_frame:
  assumes "prepare sha256 i kind v dep cmp now st = Some st'"
  shows "uploads st' = uploads st \<and> (\<exists>j. op_ids st' = op_ids st @ [j] \<and> j \<notin> set (op_ids st))"
  using assms by (auto simp: prepare_def bind_eq_Some_conv Let_def op_ids_def list_ex_iff image_iff) blast

text \<open>Pending uploads may be settled, by coverage, but no new ones appear.\<close>

definition no_new_uploads :: "WorkerState \<Rightarrow> WorkerState \<Rightarrow> bool" where
  "no_new_uploads st st' \<longleftrightarrow> (\<forall>u \<in> set (uploads st'). upl_pending u \<noteq> None \<longrightarrow> u \<in> set (uploads st))"

lemma no_new_uploads_same: "uploads st' = uploads st \<Longrightarrow> no_new_uploads st st'"
  by (simp add: no_new_uploads_def)

lemma cover_legacy_uploads: "no_new_uploads st (cover_legacy r st)"
  by (auto simp: cover_legacy_def no_new_uploads_def update_rows_def split: option.split)

lemma cover_uploads:
  assumes "cover sha256 c e st = Some st'"
  shows "no_new_uploads st st'"
proof -
  from assms obtain r v where "uploads st' = uploads (cover_legacy r (st\<lparr>coverage := v\<rparr>))"
    by (auto simp: cover_def bind_eq_Some_conv Let_def)
  with cover_legacy_uploads [of "st\<lparr>coverage := v\<rparr>" r] show ?thesis by (simp add: no_new_uploads_def)
qed

lemma accept_frame:
  assumes "accept sha256 x v completes st = Some (b, st')"
  shows "no_new_uploads st st' \<and> op_ids st' = op_ids st"
proof -
  let ?st = "set_operation (\<lambda>r. op_id r = wo_id x \<and> op_request r = wo_request x \<and> unresolved r) (\<lambda>r. r\<lparr>op_state := Op_accepted, op_receipt := Some v\<rparr>) st"
  have ids: "op_ids ?st = op_ids st" by (simp add: op_ids_set_operation)
  from assms consider "st' = st" | y where "st' = quarantineOperation y st" | "st' = ?st" | c e where "cover sha256 c e ?st = Some st'"
    by (auto simp: accept_def bind_eq_Some_conv Let_def split: option.splits if_splits)
  then show ?thesis
  proof cases
    case (4 c e)
    with cover_uploads [OF 4] ids op_ids_cong [OF cover_operations [OF 4]] show ?thesis by (simp add: no_new_uploads_def)
  qed (use ids in \<open>simp_all add: no_new_uploads_same\<close>)
qed

lemmas keeps_uploads = uploads_frame settling_frame addSources_uploads observeSource_uploads nextSource_uploads import_uploads capture_uploads

lemma open_uploads: "open_state sha256 added st = Some st' \<Longrightarrow> uploads st' = uploads st"
  by (auto simp: open_state_def migrate_dispatched_def dest!: importLegacy_uploads split: if_splits)

lemma step_uploads:
  assumes "worker_step sha256 url_origin l st st'"
  shows "no_new_uploads st st'"
  using assms
proof cases
  case prepare
  then show ?thesis using prepare_frame no_new_uploads_same by blast
next
  case nextOperation
  then show ?thesis using next_operation_frame [of 64 sha256 _ _ st] by (metis nextOperation_def no_new_uploads_same snd_conv)
next
  case nextCandidate
  then show ?thesis using next_candidate_uploads [of 64 sha256 _ _ st] by (metis nextCandidate_def no_new_uploads_same snd_conv)
next
  case replay
  then show ?thesis using replay_frame no_new_uploads_same by blast
next
  case accept
  then show ?thesis using accept_frame by blast
next
  case cover
  then show ?thesis using cover_uploads by blast
next
  case reserve
  then show ?thesis by (auto simp: reserve_def no_new_uploads_def split: if_splits)
next
  case "import"
  then show ?thesis using import_uploads no_new_uploads_same by blast
next
  case nextSource
  then show ?thesis using nextSource_uploads no_new_uploads_same by blast
next
  case capture
  then show ?thesis using capture_uploads no_new_uploads_same by blast
next
  case observeSource
  then show ?thesis using observeSource_uploads no_new_uploads_same by blast
next
  case reopen
  then show ?thesis using open_uploads no_new_uploads_same by blast
qed (simp_all add: no_new_uploads_def addSources_uploads)

lemma open_ids:
  assumes "open_state sha256 added st = Some st'"
  shows "(\<exists>xs. op_ids st' = op_ids st @ xs) \<and> (distinct (op_ids st) \<longrightarrow> distinct (op_ids st'))"
proof -
  obtain s xs where s: "s = st \<or> s = migrate_dispatched st" "operations st' = operations s @ xs"
    "distinct (map op_id (operations s)) \<longrightarrow> distinct (map op_id (operations s @ xs))" using open_operations [OF assms] by blast
  then have "map op_id (operations s) = map op_id (operations st)" using migrate_dispatched_operations(2) by auto
  with s show ?thesis by (auto simp: op_ids_def)
qed

lemma step_ids:
  assumes "worker_step sha256 url_origin l st st'"
  shows "(\<exists>xs. op_ids st' = op_ids st @ xs) \<and> (distinct (op_ids st) \<longrightarrow> distinct (op_ids st'))" (is "?grows st st'")
  using assms
proof -
  have same: "?grows st st'" if "op_ids st' = op_ids st" using that by simp
  from assms show ?thesis
  proof cases
    case prepare
    then show ?thesis using prepare_frame by fastforce
  next
    case nextOperation
    then show ?thesis using next_operation_frame [of 64 sha256 _ _ st] by (intro same) (metis nextOperation_def snd_conv)
  next
    case reopen
    then show ?thesis using open_ids by blast
  next
    case replay
    then show ?thesis using replay_frame by (intro same) blast
  next
    case accept
    then show ?thesis using accept_frame by (intro same) blast
  next
    case nextCandidate
    then show ?thesis by (intro same op_ids_cong) (rule nextCandidate_operations)
  next
    case cover
    then show ?thesis by (intro same op_ids_cong) (rule cover_operations)
  next
    case reserve
    then show ?thesis by (intro same op_ids_cong) (rule reserve_operations)
  next
    case "import"
    then show ?thesis by (intro same op_ids_cong) (rule import_operations)
  next
    case nextSource
    then show ?thesis by (intro same op_ids_cong) (rule nextSource_operations)
  next
    case capture
    then show ?thesis by (intro same op_ids_cong) (rule capture_operations)
  next
    case observeSource
    then show ?thesis by (intro same op_ids_cong) (rule observeSource_operations)
  next
    case addSources
    then show ?thesis by (intro same op_ids_cong) simp
  qed (rule same, (simp; fail | simp add: op_ids_def; fail))+
qed

lemma step_imported:
  assumes "worker_step sha256 url_origin l st st'" "imported sha256 st"
  shows "imported sha256 st'"
proof (rule imported_mono [OF assms(2)])
  have "set (op_ids st) \<subseteq> set (op_ids st')" using step_ids [OF assms(1)] by auto
  then show "op_id ` set (operations st) \<subseteq> op_id ` set (operations st')" by (simp add: op_ids_def)
qed (use step_uploads [OF assms(1)] in \<open>simp add: no_new_uploads_def\<close>)

lemma step_exclusive:
  assumes "worker_step sha256 url_origin l st st'" "exclusive st" "imported sha256 st"
  shows "exclusive st'"
  using assms(1)
proof cases
  case nextOperation
  with assms(2) nextOperation_exclusive show ?thesis by blast
next
  case nextCandidate
  with assms(2) nextCandidate_operations exclusive_cong show ?thesis by metis
next
  case reopen
  with open_again(1) [OF reopen(2) assms(3)] assms(2) show ?thesis by blast
qed (use assms(2) keeps_exclusive exclusive_cong keeps_operations in \<open>metis (full_types)\<close>)+

lemma run_exclusive: "worker_run sha256 url_origin st st' \<Longrightarrow> exclusive st \<Longrightarrow> imported sha256 st \<Longrightarrow> exclusive st' \<and> imported sha256 st'"
  by (induction rule: worker_run.induct) (auto intro: step_exclusive step_imported)

lemma run_distinct_ids: "worker_run sha256 url_origin st st' \<Longrightarrow> distinct (op_ids st) \<Longrightarrow> distinct (op_ids st')"
  by (induction rule: worker_run.induct) (auto dest: step_ids)

section \<open>One unresolved operation per history and session\<close>

text \<open>C35: At most one unresolved operation concerns a history and session.  Take a database without worker operations in which no
  two pending uploads of the earlier journal name the same history and session (uploads are keyed by origin, history and
  session, so this fails only if one history was uploaded to under two origins).  Then, in every state that the worker
  reaches after opening it, by any of its operations and any number of new openings with their imports, two unresolved
  operations whose requests name the same history and session are the same operation.\<close>

theorem unresolved_operations_exclusive:
  assumes "open_state sha256 added db = Some st0" "operations db = []" "distinct (map request_key (pending_requests (uploads db)))"
    and "worker_run sha256 url_origin st0 st"
    and "x \<in> set (operations st)" "y \<in> set (operations st)" "unresolved x" "unresolved y" "op_key x = op_key y"
  shows "x = y"
proof -
  from run_exclusive [OF assms(4)] open_first [OF assms(1-3)] have "inj_on op_key (set (filter unresolved (operations st)))"
    by (simp add: exclusive_def open_keys_def distinct_map)
  with assms(5-) show ?thesis by (auto simp: inj_on_def)
qed

definition example_sha :: "body \<Rightarrow> string" where
  "example_sha b = replicate 64 (CHR ''a'')"

definition example_binding :: Binding where
  "example_binding = \<lparr>server_id = ''s'', namespace_id = ''n'', history_generation = ''g''\<rparr>"

definition example_candidate :: CandidateRow where
  "example_candidate = \<lparr>cand_id = example_sha [], cand_destination = example_sha [], cand_session = ''s1'', cand_source = ''/r/a.jsonl'', cand_byte_length = 2,
     cand_sha256 = example_sha [], cand_metadata = metadata_value example_main, cand_body = Some [1, 2], cand_legacy_profile = None, cand_legacy_capture = None,
     cand_state = Cand_ready, cand_attempts = 0, cand_due = 0, cand_turn = 0, cand_diagnostic = None\<rparr>"

definition example_state :: WorkerState where
  "example_state = \<lparr>destinations = [\<lparr>dest_id = example_sha [], dest_origin = ''https://h'', dest_generation = ''1'', dest_binding = Some (binding_value example_binding)\<rparr>],
     scopes = [], sources = [new_source 1 ''q'' ''/r/a.jsonl''], candidates = [example_candidate], operations = [], coverage = [],
     candidate_sources = [\<lparr>link_candidate = example_sha [], link_source = 1, link_dependencies = dependencies_value ([], []), link_key = example_sha []\<rparr>],
     authorizations = [], comparisons = [], uploads = [], captures = [], working = 0\<rparr>"

definition example_request :: Publication where
  "example_request = \<lparr>pub_binding = example_binding, pub_session_id = ''s1'', pub_operation_id = ''01234567-89ab-cdef-0123-456789abcdef'', pub_condition = Absent,
     pub_byte_length = 2, pub_sha256 = example_sha [], pub_metadata = Some example_main\<rparr>"

definition example_prepared :: WorkerState where
  "example_prepared = the (prepare example_sha (example_sha []) ''publish'' (publication_value example_request) None None 5 example_state)"

lemma example_prepares:
  "prepare example_sha (example_sha []) ''publish'' (publication_value example_request) None None 5 example_state \<noteq> None" by code_simp

lemma example_worker_run: "worker_run example_sha (\<lambda>u. None) example_state example_prepared"
proof -
  have "prepare example_sha (example_sha []) ''publish'' (publication_value example_request) None None 5 example_state = Some example_prepared"
    using example_prepares by (simp add: example_prepared_def)
  then show ?thesis by (rule worker_run.step [OF worker_run.start worker_step.prepare])
qed

lemma example_operations: "map op_id (operations example_prepared) = [''01234567-89ab-cdef-0123-456789abcdef''] \<and> list_all unresolved (operations example_prepared)"
  by code_simp

theorem unresolved_operations_exclusive_witness:
  "hd (operations example_prepared) = last (operations example_prepared) \<and> unresolved (hd (operations example_prepared))"
proof -
  from example_operations have 1: "operations example_prepared \<noteq> []" "list_all unresolved (operations example_prepared)" by auto
  then have 2: "hd (operations example_prepared) \<in> set (operations example_prepared)" "last (operations example_prepared) \<in> set (operations example_prepared)" by auto
  have key: "op_key (hd (operations example_prepared)) = op_key (last (operations example_prepared))"
    using example_operations by (cases "operations example_prepared") auto
  have db: "operations example_state = []" "distinct (map request_key (pending_requests (uploads example_state)))" by (simp_all add: example_state_def)
  have opened: "open_state example_sha False example_state = Some example_state"
    by (simp add: example_state_def open_state_def importLegacy_def)
  from unresolved_operations_exclusive [OF opened db example_worker_run 2 _ _ key] 1 2 show ?thesis by (auto simp: list_all_iff)
qed

section \<open>Operations that may have been sent\<close>

definition sent :: "string \<Rightarrow> js_value \<Rightarrow> WorkerState \<Rightarrow> bool" where
  "sent i q st \<longleftrightarrow> (\<exists>y \<in> set (operations st). op_id y = i \<and> op_request y = q \<and> unresolved y \<and> op_dispatched y = 1)"

lemma sent_cong: "operations st' = operations st \<Longrightarrow> sent i q st' = sent i q st"
  by (simp add: sent_def)

lemma set_operation_sent:
  assumes "sent i q st"
    and "\<And>y. y \<in> set (operations st) \<Longrightarrow> p y \<Longrightarrow> op_id y = i \<Longrightarrow> op_dispatched y = 1 \<Longrightarrow> unresolved y \<Longrightarrow>
      op_id (f y) = i \<and> op_request (f y) = op_request y \<and> unresolved (f y) \<and> op_dispatched (f y) = 1"
  shows "sent i q (set_operation p f st)"
proof -
  from assms(1) obtain y where y: "y \<in> set (operations st)" "op_id y = i" "op_request y = q" "unresolved y" "op_dispatched y = 1"
    by (auto simp: sent_def)
  let ?y = "if p y then f y else y"
  have "?y \<in> set (operations (set_operation p f st))" using y(1) by (auto simp: set_operation_def update_rows_def)
  moreover have "op_id ?y = i \<and> op_request ?y = q \<and> unresolved ?y \<and> op_dispatched ?y = 1" using assms(2) [OF y(1)] y by auto
  ultimately show ?thesis by (auto simp: sent_def)
qed

lemma same_id: "distinct (op_ids st) \<Longrightarrow> x \<in> set (operations st) \<Longrightarrow> y \<in> set (operations st) \<Longrightarrow> op_id y = op_id x \<Longrightarrow> y = x"
  by (auto simp: op_ids_def distinct_map inj_on_def)

lemma quarantine_sent:
  assumes "distinct (op_ids st)" "sent i q st" "x \<in> set (operations st)"
  shows "sent i q (quarantineOperation x st)"
  unfolding quarantineOperation_def Let_def sent_cong [OF operations_frame(2)]
proof (rule set_operation_sent [OF assms(2)], goal_cases)
  case (1 y)
  then have "y = x" using same_id [OF assms(1,3)] by blast
  with 1 show ?case by (simp add: unresolved_def)
qed

lemma quarantine_other_sent: "sent i q st \<Longrightarrow> op_id x \<noteq> i \<Longrightarrow> sent i q (quarantineOperation x st)"
  unfolding quarantineOperation_def Let_def sent_cong [OF operations_frame(2)] by (rule set_operation_sent) auto

lemma retire_ready_sent:
  assumes "distinct (op_ids st)" "sent i q st" "x \<in> set (operations st)"
  shows "sent i q (retire_ready x st)"
  unfolding retire_ready_def sent_cong [OF operations_frame(2)]
proof (rule set_operation_sent [OF assms(2)], goal_cases)
  case (1 y)
  then have "y = x" using same_id [OF assms(1,3)] by blast
  with 1 show ?case by (simp add: unresolved_def)
qed

lemma markUncertain_sent: "sent i q st \<Longrightarrow> sent i q (markUncertain j st)"
  unfolding markUncertain_def by (rule set_operation_sent) (auto simp: unresolved_def)

lemma defer_operation_sent: "sent i q st \<Longrightarrow> sent i q (defer_operation j due d now st)"
  using set_operation_sent [of i q st "\<lambda>r. op_id r = j" "\<lambda>r. r\<lparr>op_due := due, op_attempts := op_attempts r + 1, op_turn := now, op_diagnostic := Some (take 160 d)\<rparr>"]
  by (simp add: defer_operation_def set_operation_def unresolved_def)

lemma replay_sent:
  assumes "sent i q st" "replay sha256 j due now st = Some st'"
  shows "sent i q st'"
proof (cases "find (\<lambda>r. op_id r = j \<and> op_state r = Op_uncertain) (operations st)")
  case None
  with assms show ?thesis by (auto simp: replay_def split: if_splits)
next
  case (Some x)
  have "sent i q (set_operation (\<lambda>r. op_id r = j) (\<lambda>r. r\<lparr>op_state := Op_ready, op_dispatched := 1, op_turn := now, op_due := 0\<rparr>) st)"
    using assms(1) by (rule set_operation_sent) (auto simp: unresolved_def)
  moreover have "sent i q (set_operation (\<lambda>r. op_id r = j) (\<lambda>r. r\<lparr>op_dispatched := 1, op_due := due, op_attempts := op_attempts r + 1, op_turn := now,
             op_diagnostic := (if op_replay_blocked r = 1 then op_diagnostic r else Some ''ancestry-receipt-only'')\<rparr>) st)"
    using assms(1) by (rule set_operation_sent) (auto simp: unresolved_def)
  ultimately show ?thesis using assms(2) Some
    by (auto simp: replay_def bind_eq_Some_conv Let_def sent_cong [OF operations_frame(2)] split: if_splits)
qed

lemma failOperation_sent:
  assumes "distinct (op_ids st)" "sent i q st"
  shows "sent i q (failOperation j due d now st)"
proof (cases "find (\<lambda>r. op_id r = j \<and> op_state r \<in> {Op_ready, Op_uncertain}) (operations st)")
  case None
  with assms show ?thesis by (simp add: failOperation_def)
next
  case (Some x)
  then have x: "x \<in> set (operations st)" by (auto simp: find_Some_iff)
  have "sent i q (set_operation (\<lambda>r. op_id r = j) (\<lambda>r. r\<lparr>op_state := Op_uncertain, op_dispatched := 1, op_replay_blocked := 1, op_due := due,
         op_attempts := op_attempts r + 1, op_turn := now, op_diagnostic := Some (take 160 d)\<rparr>) st)"
    using assms(2) by (rule set_operation_sent) (auto simp: unresolved_def)
  with quarantine_sent [OF assms x] Some show ?thesis by (simp add: failOperation_def)
qed

lemma accept_sent:
  assumes "sent i q st" "accept sha256 x v completes st = Some (b, st')" "wo_id x \<noteq> i"
  shows "sent i q st'"
proof -
  let ?st = "set_operation (\<lambda>r. op_id r = wo_id x \<and> op_request r = wo_request x \<and> unresolved r) (\<lambda>r. r\<lparr>op_state := Op_accepted, op_receipt := Some v\<rparr>) st"
  have accepted: "sent i q ?st" using assms(1) by (rule set_operation_sent) (use assms(3) in auto)
  from assms(2) consider "st' = st" | y where "st' = quarantineOperation y st" "op_id y = wo_id x" | "st' = ?st" | c e where "cover sha256 c e ?st = Some st'"
    by (auto simp: accept_def bind_eq_Some_conv Let_def find_Some_iff split: option.splits if_splits)
  then show ?thesis
  proof cases
    case (2 y)
    with quarantine_other_sent [OF assms(1), of y] assms(3) show ?thesis by simp
  next
    case (4 c e)
    with accepted sent_cong [OF cover_operations [OF 4]] show ?thesis by simp
  qed (use assms(1) accepted in auto)
qed

lemma reject_sent:
  assumes "sent i q st" "wo_id x \<noteq> i" "wo_dependency x \<noteq> Some i"
  shows "sent i q (reject x due now st)"
proof -
  define st1 where "st1 = clearComparison (wo_candidate x) (set_operation (\<lambda>r. op_id r = wo_id x \<and> op_state r \<in> {Op_ready, Op_uncertain}) (\<lambda>r. r\<lparr>op_state := Op_rejected\<rparr>) st)"
  have 1: "sent i q st1" unfolding st1_def sent_cong [OF operations_frame(1)]
    by (rule set_operation_sent [OF assms(1)]) (use assms(2) in auto)
  then have "d \<noteq> i \<Longrightarrow> sent i q (set_operation (\<lambda>r. op_id r = d) (\<lambda>r. r\<lparr>op_state := Op_fenced\<rparr>) st1)" for d
    by (rule set_operation_sent) auto
  with 1 assms(3) show ?thesis
    unfolding reject_def Let_def st1_def [symmetric] sent_cong [OF operations_frame(4)] by (auto split: option.split)
qed

lemma bind_sent:
  assumes "sent i q st" "\<forall>y \<in> set (operations st). op_id y = i \<longrightarrow> op_destination y \<noteq> d"
  shows "sent i q (bind_destination d known b st)"
proof -
  have "sent i q (set_operation (\<lambda>r. op_destination r = d \<and> unresolved r) (\<lambda>r. r\<lparr>op_state := Op_fenced\<rparr>) st)"
    by (rule set_operation_sent [OF assms(1)]) (use assms(2) in auto)
  with assms(1) show ?thesis by (simp add: bind_destination_def Let_def sent_def)
qed

lemma prepare_sent: "sent i q st \<Longrightarrow> prepare sha256 c kind v dep cmp now st = Some st' \<Longrightarrow> sent i q st'"
  by (auto simp: prepare_def bind_eq_Some_conv Let_def sent_def)

lemma next_operation_sent: "distinct (op_ids st) \<Longrightarrow> sent i q st \<Longrightarrow> sent i q (snd (next_operation n sha256 ds now st))"
proof (induction n arbitrary: st)
  case (Suc n)
  show ?case
  proof (cases "due_operation ds now st")
    case None
    with Suc.prems show ?thesis by simp
  next
    case (Some r)
    then have r: "r \<in> set (operations st)" using due_operation_mem by blast
    have d: "distinct (op_ids (quarantineOperation r st))" "distinct (op_ids (retire_ready r st))" using Suc.prems(1) by simp_all
    note q = Suc.IH [OF d(1) quarantine_sent [OF Suc.prems r]]
    note t = Suc.IH [OF d(2) retire_ready_sent [OF Suc.prems r]]
    from q t retire_ready_sent [OF Suc.prems r] Suc.prems(2) Some show ?thesis
      by (simp add: Let_def split: option.split bool.split)
  qed
qed simp

lemma open_sent:
  assumes "sent i q st" "open_state sha256 added st = Some st'"
  shows "sent i q st'"
proof -
  obtain s xs where s: "s = st \<or> s = migrate_dispatched st" "operations st' = operations s @ xs"
    using open_operations [OF assms(2)] by blast
  have "sent i q (migrate_dispatched st)" unfolding migrate_dispatched_def
    using assms(1) by (rule set_operation_sent) (auto simp: unresolved_def)
  with s assms(1) show ?thesis by (auto simp: sent_def)
qed

text \<open>Does the settlement concern the operation?\<close>

definition concerns :: "settlement \<Rightarrow> string \<Rightarrow> WorkerState \<Rightarrow> bool" where
  "concerns l i st = (case l of Nothing \<Rightarrow> False | Receipt_for j \<Rightarrow> j = i | Refusal_of j d \<Rightarrow> j = i \<or> d = Some i
     | Binding_of d \<Rightarrow> list_ex (\<lambda>y. op_id y = i \<and> op_destination y = d) (operations st))"

text \<open>C36: An operation that may have been sent is never given up locally.  Whatever the worker does next, it stays unresolved
  with its request and keeps excluding others, unless a receipt or a refusal for it arrives, an operation that depends on
  it is refused, or its destination is bound to another history.\<close>

theorem sent_operation_stays:
  assumes "worker_run sha256 url_origin st0 st" "operations st0 = []" "worker_step sha256 url_origin l st st'"
    and "sent i q st" "\<not> concerns l i st"
  shows "sent i q st'"
proof -
  have e: "distinct (op_ids st)" using run_distinct_ids [OF assms(1)] assms(2) by (simp add: op_ids_def)
  from assms(3) show ?thesis
  proof cases
    case nextOperation
    with next_operation_sent [OF e assms(4), of 64 sha256] assms(4) show ?thesis by (metis nextOperation_def snd_conv)
  next
    case nextCandidate
    with assms(4) nextCandidate_operations sent_cong show ?thesis by metis
  next
    case accept
    with accept_sent [OF assms(4)] assms(5) show ?thesis by (auto simp: concerns_def)
  next
    case reject
    with reject_sent [OF assms(4)] assms(5) show ?thesis by (auto simp: concerns_def)
  next
    case reopen
    with open_sent [OF assms(4)] show ?thesis by blast
  next
    case bind
    with bind_sent [OF assms(4)] assms(5) show ?thesis by (auto simp: concerns_def list_ex_iff)
  qed (use assms(4) e prepare_sent replay_sent failOperation_sent markUncertain_sent defer_operation_sent sent_cong keeps_operations in \<open>metis (full_types)\<close>)+
qed

definition example_sent :: WorkerState where
  "example_sent = markUncertain ''01234567-89ab-cdef-0123-456789abcdef'' example_prepared"

lemma example_sent_run: "worker_run example_sha (\<lambda>u. None) example_state example_sent"
  unfolding example_sent_def by (rule worker_run.step [OF example_worker_run worker_step.markUncertain])

theorem sent_operation_stays_witness:
  "sent ''01234567-89ab-cdef-0123-456789abcdef'' (publication_value example_request)
     (failOperation ''01234567-89ab-cdef-0123-456789abcdef'' 9 ''invalid-protocol-or-state'' 7 example_sent)"
proof (rule sent_operation_stays [OF example_sent_run])
  show "operations example_state = []" by (simp add: example_state_def)
  show "worker_step example_sha (\<lambda>u. None) Nothing example_sent (failOperation ''01234567-89ab-cdef-0123-456789abcdef'' 9 ''invalid-protocol-or-state'' 7 example_sent)"
    by (rule worker_step.failOperation)
  show "sent ''01234567-89ab-cdef-0123-456789abcdef'' (publication_value example_request) example_sent" by code_simp
  show "\<not> concerns Nothing ''01234567-89ab-cdef-0123-456789abcdef'' example_sent" by (simp add: concerns_def)
qed

section \<open>What is handed out for sending\<close>

text \<open>The operation passed the checks of this state.\<close>

definition sendable :: "(body \<Rightarrow> string) \<Rightarrow> WorkerState \<Rightarrow> WorkOperation \<Rightarrow> OperationRow \<Rightarrow> bool" where
  "sendable sha256 st x r \<longleftrightarrow> r \<in> set (operations st) \<and> op_id r = wo_id x \<and> op_request r = wo_request x \<and> op_state r = Op_ready
     \<and> op_replay_blocked r \<noteq> 1 \<and> candidateAuthorized sha256 st (op_candidate r) = Some True \<and> checkStoredOperation sha256 st r \<noteq> None"

lemma work_operation_conv:
  "of_option (work_operation r) = Returned (Some x) \<Longrightarrow> wo_id x = op_id r \<and> wo_request x = op_request r \<and> wo_uncertain x = (op_state r = Op_uncertain)"
  by (auto simp: of_option_def work_operation_def bind_eq_Some_conv split: option.splits)

lemma next_operation_sendable:
  assumes "next_operation n sha256 ds now st = (Returned (Some x), st')" "\<not> wo_uncertain x"
  shows "\<exists>r. sendable sha256 st' x r"
  using assms
proof (induction n arbitrary: st)
  case (Suc n)
  then obtain r where r: "due_operation ds now st = Some r" by (cases "due_operation ds now st") auto
  note mem = due_operation_mem [OF r]
  show ?case
  proof (cases "checkStoredOperation sha256 st r")
    case None
    with Suc r show ?thesis by simp
  next
    case (Some q)
    show ?thesis
    proof (cases "op_state r = Op_ready")
      case False
      with Suc.prems r Some mem work_operation_conv [of r x] show ?thesis by auto
    next
      case True
      consider "may_send sha256 r st = None" | "may_send sha256 r st = Some True" | "may_send sha256 r st = Some False" by (metis (full_types) not_None_eq)
      then show ?thesis
      proof cases
        case 2
        with Suc.prems r Some True mem work_operation_conv [of r x] have "sendable sha256 st' x r"
          by (auto simp: sendable_def may_send_def split: if_splits)
        then show ?thesis ..
      next
        case 3
        with Suc r Some True work_operation_conv [of "r\<lparr>op_state := Op_uncertain\<rparr>" x] show ?thesis
          by (auto simp: Let_def split: if_splits)
      qed (use Suc.prems r Some True in simp)
    qed
  qed
qed simp

text \<open>The request of the operation asks the history to store exactly the candidate's body and metadata for its session, or to
  keep the session's current copy there.\<close>

definition asks_for :: "OperationRow \<Rightarrow> WorkCandidate \<Rightarrow> Binding \<Rightarrow> bool" where
  "asks_for r c b \<longleftrightarrow>
     op_kind r = ''publish'' \<and> (\<exists>p. decodeArchivePublication (op_request r) True = Some p \<and> pub_session_id p = wc_session c \<and> pub_binding p = b
       \<and> pub_byte_length p = wc_byteLength c \<and> pub_sha256 p = wc_sha256 c \<and> pub_metadata p = wc_metadata c)
   \<or> op_kind r = ''uploaded'' \<and> (\<exists>p. decodeArchivePreservation (op_request r) True = Some (Uploaded p) \<and> up_session_id p = wc_session c \<and> up_binding p = b
       \<and> up_byte_length p = wc_byteLength c \<and> up_sha256 p = wc_sha256 c \<and> up_metadata p = wc_metadata c)
   \<or> op_kind r = ''current'' \<and> (\<exists>p. decodeArchivePreservation (op_request r) True = Some (Current p) \<and> cur_session_id p = wc_session c \<and> cur_binding p = b)"

text \<open>The operation publishes over a revision that an accepted operation of the same candidate has preserved, in the same history
  and for the same session.\<close>

definition base_preserved :: "WorkerState \<Rightarrow> OperationRow \<Rightarrow> WorkCandidate \<Rightarrow> Binding \<Rightarrow> string \<Rightarrow> bool" where
  "base_preserved st r c b dep \<longleftrightarrow> (\<exists>p a q v receipt. decodeArchivePublication (op_request r) True = Some p \<and> pub_condition p = Exact_base_revision (cur_revision q)
     \<and> a \<in> set (operations st) \<and> op_id a = dep \<and> op_state a = Op_accepted \<and> op_kind a = ''current'' \<and> op_candidate a = wc_id c
     \<and> decodeArchivePreservation (op_request a) True = Some (Current q) \<and> cur_session_id q = wc_session c \<and> cur_binding q = b
     \<and> op_receipt a = Some v \<and> decodeArchivePreservationReceipt v True = Some receipt \<and> preserved_request receipt = Current q)"

text \<open>Some observation of the candidate's ancestry gives the same key today; only imported candidates have none.\<close>

definition ancestry_current :: "(body \<Rightarrow> string) \<Rightarrow> WorkerState \<Rightarrow> string \<Rightarrow> WorkCandidate \<Rightarrow> bool" where
  "ancestry_current sha256 st i c \<longleftrightarrow>
     (if candidate_observations st i = [] then prefix ''legacy:'' (wc_id c) \<or> prefix ''capture:'' (wc_id c)
      else \<exists>l scope d. (l, scope) \<in> set (candidate_observations st i) \<and> decodeDependencies (link_dependencies l) (wc_source c) = Some d
        \<and> dependencyKey sha256 st scope d = Some (link_key l))"

lemma some_current_True:
  "some_current sha256 st file rows = Some True \<Longrightarrow> \<exists>l scope d. (l, scope) \<in> set rows \<and> decodeDependencies (link_dependencies l) file = Some d
     \<and> dependencyKey sha256 st scope d = Some (link_key l)"
proof (induction rows)
  case (Cons row rows)
  obtain l scope where row: "row = (l, scope)" by fastforce
  with Cons.prems obtain d key where d: "decodeDependencies (link_dependencies l) file = Some d" "dependencyKey sha256 st scope d = Some key"
    and rest: "(if key = link_key l then Some True else some_current sha256 st file rows) = Some True"
    by (auto simp: bind_eq_Some_conv)
  show ?case
  proof (cases "key = link_key l")
    case True
    with row d have "(l, scope) \<in> set (row # rows)" "dependencyKey sha256 st scope d = Some (link_key l)" by simp_all
    with d(1) show ?thesis by blast
  next
    case False
    with rest Cons.IH show ?thesis by auto
  qed
qed simp

lemma candidateAuthorized_True:
  assumes "candidateAuthorized sha256 st i = Some True"
  obtains c where "candidate sha256 st i = Some c" "ancestry_current sha256 st i c"
proof -
  from assms obtain c where c: "candidate sha256 st i = Some c"
    and a: "(if candidate_observations st i = [] then Some (prefix ''legacy:'' (wc_id c) \<or> prefix ''capture:'' (wc_id c))
      else some_current sha256 st (wc_source c) (candidate_observations st i)) = Some True"
    by (auto simp: candidateAuthorized_def bind_eq_Some_conv)
  from a some_current_True [of sha256 st "wc_source c" "candidate_observations st i"] have "ancestry_current sha256 st i c"
    by (simp add: ancestry_current_def split: if_splits)
  with c show ?thesis by (rule that)
qed

lemma operationRequest_asks:
  assumes "operationRequest (op_kind r) (op_request r) c = Some q" "op_kind r \<in> {''publish'', ''uploaded'', ''current''}"
  shows "asks_for r c (req_binding q)"
proof (cases q)
  case (Publish_request p)
  with assms show ?thesis by (auto simp: operationRequest_def asks_for_def bind_eq_Some_conv split: if_splits)
next
  case (Preserve_request p)
  with assms show ?thesis by (cases p) (auto simp: operationRequest_def asks_for_def bind_eq_Some_conv split: if_splits)
qed

lemma check_request_Some:
  assumes "check_request sha256 st r = Some (c, q)"
  shows "candidate sha256 st (op_candidate r) = Some c" "operationRequest (op_kind r) (op_request r) c = Some q" "op_destination r = wc_destination c"
    "op_kind r \<in> {''publish'', ''uploaded'', ''current''}"
  using assms by (auto simp: check_request_def bind_eq_Some_conv)

lemma dependency_preserved:
  assumes "checkPublicationDependency sha256 st c q (Some dep) comparison = Some ()" "operationRequest kind v c = Some q" "op_request r = v"
  shows "base_preserved st r c (req_binding q) dep"
proof -
  from assms(1) obtain a revision ca stored copy w receipt where
    a: "find (\<lambda>x. op_id x = dep \<and> op_state x = Op_accepted \<and> op_kind x = ''current'' \<and> op_candidate x = wc_id c) (operations st) = Some a"
    and condition: "(case q of Publish_request p \<Rightarrow> (case pub_condition p of Exact_base_revision r \<Rightarrow> Some r | Absent \<Rightarrow> None) | _ \<Rightarrow> None) = Some revision"
    and check: "check_request sha256 st a = Some (ca, stored)" "(case stored of Preserve_request p \<Rightarrow> Some p | _ \<Rightarrow> None) = Some copy"
    and receipt: "op_receipt a = Some w" "decodeArchivePreservationReceipt w True = Some receipt" "preserved_request receipt = copy"
    and copy: "(case copy of Current n \<Rightarrow> guard (cur_session_id n = req_session q \<and> sameArchiveBinding (cur_binding n) (req_binding q) \<and> cur_revision n = revision)
        | Uploaded _ \<Rightarrow> None) = Some ()"
    by (auto simp: checkPublicationDependency_def bind_eq_Some_conv)
  from condition obtain p where p: "q = Publish_request p" "pub_condition p = Exact_base_revision revision"
    by (cases q) (auto split: Condition.splits)
  from check have stored: "check_request sha256 st a = Some (ca, Preserve_request copy)" by (cases stored) auto
  from assms(2,3) p have "decodeArchivePublication (op_request r) True = Some p" "pub_session_id p = wc_session c"
    by (auto simp: operationRequest_def bind_eq_Some_conv split: if_splits)
  moreover from copy obtain n where n: "copy = Current n" "cur_session_id n = req_session q" "cur_binding n = req_binding q" "cur_revision n = revision"
    by (cases copy) auto
  moreover from a have a': "a \<in> set (operations st)" "op_id a = dep" "op_state a = Op_accepted" "op_kind a = ''current''" "op_candidate a = wc_id c"
    by (auto simp: find_Some_iff)
  moreover from check_request_Some(2) [OF stored] a'(4) n have "decodeArchivePreservation (op_request a) True = Some (Current n)"
    by (auto simp: operationRequest_def bind_eq_Some_conv)
  ultimately show ?thesis using p receipt unfolding base_preserved_def by auto
qed

lemma checked_operation:
  assumes "checkStoredOperation sha256 st r = Some q" "unresolved r"
  obtains c v b where "candidate sha256 st (op_candidate r) = Some c" "op_destination r = wc_destination c"
    "destination_binding st (wc_destination c) = Some v" "decodeArchiveBinding v True = Some b" "asks_for r c b"
    "\<forall>dep. op_dependency r = Some dep \<longrightarrow> base_preserved st r c b dep"
proof -
  from assms obtain c where check: "check_request sha256 st r = Some (c, q)"
    and bound: "binding_authorized st (wc_destination c) (req_binding q) = Some ()"
    and dep: "checkPublicationDependency sha256 st c q (op_dependency r) (op_comparison r) = Some ()"
    by (auto simp: checkStoredOperation_def bind_eq_Some_conv split: if_splits)
  from bound obtain v where "destination_binding st (wc_destination c) = Some v" "decodeArchiveBinding v True = Some (req_binding q)"
    by (auto simp: binding_authorized_def bind_eq_Some_conv)
  moreover have "\<forall>d. op_dependency r = Some d \<longrightarrow> base_preserved st r c (req_binding q) d"
    using dependency_preserved [OF _ check_request_Some(2) [OF check] refl] dep by auto
  ultimately show ?thesis using check_request_Some [OF check] operationRequest_asks by (intro that) auto
qed

text \<open>C37: What is handed out to be sent is fit to be sent.  The operation is a stored, ready row that no earlier answer blocked from
  being sent; its request asks to store, for the session of its candidate, exactly the length, digest and metadata of the
  candidate (or to keep the session's current copy), in the history that the candidate's destination is bound to; if it
  depends on another operation, it publishes over exactly the revision that this operation, of the same candidate, session
  and history, has preserved, with its receipt; and the candidate's ancestry evidence is the one of today.\<close>

theorem sent_operation_was_checked:
  assumes "nextOperation sha256 ds now st = (Returned (Some x), st')" "\<not> wo_uncertain x"
  shows "\<exists>r c v b. r \<in> set (operations st') \<and> op_id r = wo_id x \<and> op_request r = wo_request x \<and> op_state r = Op_ready \<and> op_replay_blocked r \<noteq> 1
    \<and> candidate sha256 st' (op_candidate r) = Some c \<and> op_destination r = wc_destination c
    \<and> destination_binding st' (wc_destination c) = Some v \<and> decodeArchiveBinding v True = Some b
    \<and> asks_for r c b \<and> (\<forall>dep. op_dependency r = Some dep \<longrightarrow> base_preserved st' r c b dep)
    \<and> ancestry_current sha256 st' (op_candidate r) c"
proof -
  from assms(1) have "next_operation 64 sha256 ds now st = (Returned (Some x), st')" by (simp add: nextOperation_def split: if_splits)
  from next_operation_sendable [OF this assms(2)] obtain r q where r: "r \<in> set (operations st')" "op_id r = wo_id x" "op_request r = wo_request x"
      "op_state r = Op_ready" "op_replay_blocked r \<noteq> 1" "candidateAuthorized sha256 st' (op_candidate r) = Some True"
    and check: "checkStoredOperation sha256 st' r = Some q"
    by (auto simp: sendable_def)
  from candidateAuthorized_True [OF r(6)] obtain c where c: "candidate sha256 st' (op_candidate r) = Some c" "ancestry_current sha256 st' (op_candidate r) c" .
  from r(4) have "unresolved r" by (simp add: unresolved_def)
  with check obtain c' v b where "candidate sha256 st' (op_candidate r) = Some c'" "op_destination r = wc_destination c'"
      "destination_binding st' (wc_destination c') = Some v" "decodeArchiveBinding v True = Some b" "asks_for r c' b"
      "\<forall>dep. op_dependency r = Some dep \<longrightarrow> base_preserved st' r c' b dep" by (rule checked_operation)
  with r c show ?thesis by auto
qed

definition example_handed :: WorkOperation where
  "example_handed = \<lparr>wo_id = ''01234567-89ab-cdef-0123-456789abcdef'', wo_destination = example_sha [], wo_candidate = example_sha [], wo_kind = ''publish'',
     wo_request = publication_value example_request, wo_uncertain = False, wo_dispatched = False, wo_replayBlocked = False, wo_attempts = 0,
     wo_dependency = None, wo_comparison = None\<rparr>"

lemma example_hands_out: "fst (nextOperation example_sha [example_sha []] 6 example_prepared) = Returned (Some example_handed)"
  by code_simp

theorem sent_operation_was_checked_witness:
  "\<exists>r c b. r \<in> set (operations (snd (nextOperation example_sha [example_sha []] 6 example_prepared))) \<and> op_id r = wo_id example_handed \<and> asks_for r c b
     \<and> ancestry_current example_sha (snd (nextOperation example_sha [example_sha []] 6 example_prepared)) (op_candidate r) c"
proof -
  have "nextOperation example_sha [example_sha []] 6 example_prepared = (Returned (Some example_handed), snd (nextOperation example_sha [example_sha []] 6 example_prepared))"
    using example_hands_out by (metis prod.collapse)
  moreover have "\<not> wo_uncertain example_handed" by (simp add: example_handed_def)
  ultimately show ?thesis using sent_operation_was_checked by blast
qed

section \<open>What completes a candidate\<close>

text \<open>The receipt archives the candidate's session with its length, digest and metadata.\<close>

definition archives :: "js_value \<Rightarrow> WorkCandidate \<Rightarrow> bool" where
  "archives v c \<longleftrightarrow> (\<exists>r. decodeArchiveReceipt v True = Some r \<and> pub_session_id (receipt_request r) = wc_session c
       \<and> pub_byte_length (receipt_request r) = wc_byteLength c \<and> pub_sha256 (receipt_request r) = wc_sha256 c \<and> pub_metadata (receipt_request r) = wc_metadata c)
   \<or> (\<exists>r. decodeArchivePreservationReceipt v True = Some r \<and> session_id (preserved_variant r) = wc_session c
       \<and> session_byte_length (preserved_variant r) = wc_byteLength c \<and> session_sha256 (preserved_variant r) = wc_sha256 c
       \<and> session_metadata (preserved_variant r) = Some (wc_metadata c))"

lemma matching_receipt_archives:
  assumes "matching_receipt kind v request comparison = Some e" "operationRequest kind w c = Some request" "kind \<noteq> ''current''"
  shows "archives v c"
proof (cases request)
  case (Publish_request p)
  with assms obtain r where "decodeArchiveReceipt v True = Some r" "receipt_request r = p"
    by (auto simp: matching_receipt_def bind_eq_Some_conv split: if_splits)
  moreover from assms(2) have "pub_session_id p = wc_session c \<and> pub_byte_length p = wc_byteLength c \<and> pub_sha256 p = wc_sha256 c \<and> pub_metadata p = wc_metadata c"
    by (auto simp: operationRequest_def bind_eq_Some_conv Publish_request split: if_splits)
  ultimately show ?thesis by (auto simp: archives_def)
next
  case (Preserve_request p)
  with assms obtain r where r: "decodeArchivePreservationReceipt v True = Some r" "preserved_request r = p"
    by (auto simp: matching_receipt_def bind_eq_Some_conv split: if_splits)
  from assms(2,3) have m: "preservation_session p = wc_session c" "req_matches kind c (Preserve_request p)"
    by (auto simp: operationRequest_def bind_eq_Some_conv Preserve_request split: if_splits)
  show ?thesis
  proof (cases p)
    case (Uploaded u)
    with receipt_answers_request [OF r(1)] r m have "session_id (preserved_variant r) = wc_session c \<and> session_byte_length (preserved_variant r) = wc_byteLength c
        \<and> session_sha256 (preserved_variant r) = wc_sha256 c \<and> session_metadata (preserved_variant r) = Some (wc_metadata c)"
      by (auto simp: receipt_answers_def Let_def)
    with r(1) show ?thesis by (auto simp: archives_def)
  next
    case (Current q)
    with m assms(3) show ?thesis by simp
  qed
qed

lemma covered_row:
  "find (\<lambda>r. cand_id r = i) (update_rows (\<lambda>r. cand_id r = i) (\<lambda>r. r\<lparr>cand_state := Cand_covered, cand_body := None\<rparr>) rows)
     = map_option (\<lambda>r. r\<lparr>cand_state := Cand_covered, cand_body := None\<rparr>) (find (\<lambda>r. cand_id r = i) rows)"
  "candidates (cover_legacy r s) = candidates s"
  by (induction rows) (auto simp: cover_legacy_def split: option.split)

text \<open>C38: A receipt completes a candidate only if it archives the candidate's own session with the candidate's length, digest and
  metadata; the candidate is then covered and its retained body is dropped.\<close>

theorem completed_candidate_was_archived:
  assumes "accept sha256 x v True st = Some (True, st')"
  shows "\<exists>stored c. stored \<in> set (operations st) \<and> op_id stored = wo_id x \<and> candidate sha256 st (op_candidate stored) = Some c \<and> archives v c
    \<and> map_option (\<lambda>r. (cand_state r, cand_body r)) (candidate_row st' (op_candidate stored)) = Some (Cand_covered, None)"
proof -
  from assms obtain stored request e st1 ev where stored: "find (\<lambda>r. op_id r = wo_id x \<and> op_request r = wo_request x \<and> unresolved r) (operations st) = Some stored"
    and check: "checkStoredOperation sha256 st stored = Some request" and receipt: "matching_receipt (op_kind stored) v request (wo_comparison x) = Some e"
    and kind: "op_kind stored \<noteq> ''current''" and cover: "cover sha256 (op_candidate stored) ev st1 = Some st'"
    by (auto simp: accept_def bind_eq_Some_conv Let_def split: option.splits if_splits)
  from check obtain c where c: "candidate sha256 st (op_candidate stored) = Some c" "operationRequest (op_kind stored) (op_request stored) c = Some request"
    by (auto simp: checkStoredOperation_def check_request_def bind_eq_Some_conv split: if_splits prod.splits)
  from cover have "\<exists>r. candidate_row st1 (op_candidate stored) = Some r" by (auto simp: cover_def bind_eq_Some_conv)
  then have "map_option (\<lambda>r. (cand_state r, cand_body r)) (candidate_row st' (op_candidate stored)) = Some (Cand_covered, None)"
    using cover by (auto simp: cover_def bind_eq_Some_conv Let_def candidate_row_def clearComparison_def covered_row)
  moreover from stored have "stored \<in> set (operations st)" "op_id stored = wo_id x" by (auto simp: find_Some_iff)
  ultimately show ?thesis using c(1) matching_receipt_archives [OF receipt c(2) kind] by blast
qed

definition example_answer :: js_value where
  "example_answer = JObj [(''request'', publication_value example_request), (''revision'', revision_value \<lparr>rev_binding = example_binding, seq = ''1''\<rparr>)]"

lemma example_accepts: "map_option fst (accept example_sha example_handed example_answer True example_sent) = Some True"
  by code_simp

theorem completed_candidate_was_archived_witness:
  "\<exists>stored c. stored \<in> set (operations example_sent) \<and> candidate example_sha example_sent (op_candidate stored) = Some c \<and> archives example_answer c"
proof -
  obtain st' where "accept example_sha example_handed example_answer True example_sent = Some (True, st')"
    using example_accepts by (cases "accept example_sha example_handed example_answer True example_sent") auto
  from completed_candidate_was_archived [OF this] show ?thesis by blast
qed

text \<open>The allowance of working memory is never exceeded by a reservation.\<close>

lemma reserve_within_allowance: "reserve n st = Some st' \<Longrightarrow> staged_bytes st' + working st' \<le> ARCHIVE_WORKING_BYTES"
  by (auto simp: reserve_def workingAvailable_def staged_bytes_def split: if_splits)

end
