(* ===== verification/Archive_Evidence.thy ===== *)
theory Archive_Evidence
  imports Archive_Safety
begin

text \<open>
  What the archive worker reads from its tables, \<open>src/src/server/ArchiveWorkerState.ts\<close>: destinations, authorisations, scopes,
  accepted evidence, comparisons and the schedule.  A reading is \<open>None\<close> where
  the program throws.
\<close>

section \<open>Rows\<close>

record WorkDestination =
  wd_id :: string
  wd_origin :: string
  wd_generation :: string
  wd_binding :: "Binding option"

definition nullable_binding :: "js_value option \<Rightarrow> Binding option option" where
  "nullable_binding v = (case v of None \<Rightarrow> Some None | Some b \<Rightarrow> map_option Some (decodeArchiveBinding b True))"

definition decode_destination :: "DestinationRow \<Rightarrow> WorkDestination option" where
  "decode_destination r = do {
     b \<leftarrow> nullable_binding (dest_binding r);
     Some \<lparr>wd_id = dest_id r, wd_origin = dest_origin r, wd_generation = dest_generation r, wd_binding = b\<rparr>
   }"

definition work_destinations :: "WorkerState \<Rightarrow> WorkDestination list option" where
  "work_destinations st = those (map decode_destination (destinations st))"

record WorkAuthorization =
  wa_binding :: "Binding option"
  wa_capabilities :: "string list"
  wa_blocked :: bool
  wa_attempts :: int
  wa_due :: int

definition authorization :: "string \<Rightarrow> WorkerState \<Rightarrow> WorkAuthorization option" where
  "authorization g st = (case find (\<lambda>r. auth_generation r = g) (authorizations st) of
     None \<Rightarrow> Some \<lparr>wa_binding = None, wa_capabilities = [], wa_blocked = False, wa_attempts = 0, wa_due = 0\<rparr>
   | Some r \<Rightarrow> do {
       b \<leftarrow> nullable_binding (auth_binding r);
       attempts \<leftarrow> safe_number (auth_attempts r);
       due \<leftarrow> safe_number (auth_due r);
       Some \<lparr>wa_binding = b, wa_capabilities = auth_capabilities r, wa_blocked = auth_blocked r, wa_attempts = attempts, wa_due = due\<rparr>
     })"

record WorkScope =
  wsc_id :: string
  wsc_destination :: string
  wsc_source :: ArchiveSourceScope
  wsc_cursor :: "string option"
  wsc_attempts :: int

definition decode_scope :: "ScopeRow \<Rightarrow> WorkScope option" where
  "decode_scope r = do {
     source \<leftarrow> decodeArchiveSourceScope (scp_source r);
     attempts \<leftarrow> safe_number (scp_attempts r);
     Some \<lparr>wsc_id = scp_id r, wsc_destination = scp_destination r, wsc_source = source, wsc_cursor = scp_cursor r, wsc_attempts = attempts\<rparr>
   }"

definition work_scope :: "string \<Rightarrow> WorkerState \<Rightarrow> WorkScope option" where
  "work_scope i st = do { r \<leftarrow> find (\<lambda>r. scp_id r = i) (scopes st); decode_scope r }"

definition nextScope :: "int \<Rightarrow> string list option \<Rightarrow> WorkerState \<Rightarrow> WorkScope option call" where
  "nextScope now ds st = (if ds = Some [] then Returned None else case due_scope now ds st of None \<Rightarrow> Returned None | Some r \<Rightarrow> of_option (decode_scope r))"

definition sourceEvidence :: "string \<Rightarrow> WorkerState \<Rightarrow> ArchiveSourceEvidence list option" where
  "sourceEvidence scope st = decode_all decodeArchiveSourceEvidence (List.map_filter src_evidence (filter (\<lambda>r. src_scope r = scope) (sources st)))"

section \<open>Accepted evidence\<close>

definition request_binding_is :: "Binding \<Rightarrow> OperationRow \<Rightarrow> bool" where
  "request_binding_is b x \<longleftrightarrow> (let v = value_at (op_request x) ''binding'' in
     text_at v ''server_id'' = Some (server_id b) \<and> text_at v ''namespace_id'' = Some (namespace_id b) \<and> text_at v ''history_generation'' = Some (history_generation b))"

text \<open>The newest accepted publication of the session to the origin, under the binding.\<close>

definition own_accepted :: "WorkCandidate \<Rightarrow> string \<Rightarrow> Binding \<Rightarrow> WorkerState \<Rightarrow> OperationRow option" where
  "own_accepted c origin b st = find (\<lambda>x. op_kind x = ''publish'' \<and> op_state x = Op_accepted
     \<and> map_option cand_session (candidate_row st (op_candidate x)) = Some (wc_session c)
     \<and> map_option dest_origin (find (\<lambda>d. dest_id d = op_destination x) (destinations st)) = Some origin \<and> request_binding_is b x) (rev (operations st))"

definition own_receipt :: "(body \<Rightarrow> string) \<Rightarrow> OperationRow \<Rightarrow> WorkerState \<Rightarrow> Receipt option" where
  "own_receipt sha256 x st = do {
     request \<leftarrow> checkStoredOperation sha256 st x;
     v \<leftarrow> op_receipt x;
     receipt \<leftarrow> decodeArchiveReceipt v True;
     guard (request = Publish_request (receipt_request receipt));
     Some receipt
   }"

definition legacy_accepted :: "WorkCandidate \<Rightarrow> string \<Rightarrow> Binding \<Rightarrow> WorkerState \<Rightarrow> js_value option" where
  "legacy_accepted c origin b st = Option.bind (find (\<lambda>u. upl_profile u = profile_value origin b \<and> upl_session u = wc_session c \<and> upl_accepted u \<noteq> None) (uploads st)) upl_accepted"

definition canonical_receipt :: "WorkCandidate \<Rightarrow> Binding \<Rightarrow> Receipt \<Rightarrow> bool" where
  "canonical_receipt c b r \<longleftrightarrow> sameArchiveBinding (pub_binding (receipt_request r)) b \<and> pub_session_id (receipt_request r) = wc_session c"

definition best_receipt :: "Receipt list \<Rightarrow> Receipt option" where
  "best_receipt rs = foldl (\<lambda>best r. case best of None \<Rightarrow> Some r
     | Some x \<Rightarrow> if read_nat (seq (receipt_revision x)) < read_nat (seq (receipt_revision r)) then Some r else Some x) None rs"

definition acceptedCanonical :: "(body \<Rightarrow> string) \<Rightarrow> WorkCandidate \<Rightarrow> Binding \<Rightarrow> WorkerState \<Rightarrow> Receipt option option" where
  "acceptedCanonical sha256 c b st = do {
     ds \<leftarrow> work_destinations st;
     d \<leftarrow> find (\<lambda>d. wd_id d = wc_destination c) ds;
     own \<leftarrow> (case own_accepted c (wd_origin d) b st of None \<Rightarrow> Some [] | Some x \<Rightarrow> map_option (\<lambda>r. [r]) (own_receipt sha256 x st));
     legacy \<leftarrow> (case legacy_accepted c (wd_origin d) b st of None \<Rightarrow> Some [] | Some v \<Rightarrow> map_option (\<lambda>r. [r]) (decodeArchiveReceipt v True));
     guard (list_all (canonical_receipt c b) (own @ legacy));
     Some (best_receipt (own @ legacy))
   }"

fun first_dependency :: "(body \<Rightarrow> string) \<Rightarrow> Binding \<Rightarrow> WorkerState \<Rightarrow> OperationRow list \<Rightarrow> (string \<times> js_value) option option" where
  "first_dependency sha256 b st [] = Some None"
| "first_dependency sha256 b st (x # xs) = do {
     request \<leftarrow> checkStoredOperation sha256 st x;
     p \<leftarrow> (case request of Preserve_request p \<Rightarrow> Some p | _ \<Rightarrow> None);
     (case op_comparison x of
        Some comparison \<Rightarrow> if sameArchiveBinding (preservation_binding p) b then do {
            v \<leftarrow> op_receipt x;
            receipt \<leftarrow> decodeArchivePreservationReceipt v True;
            guard (preserved_request receipt = p);
            checkCurrentReceipt receipt (Some comparison);
            Some (Some (op_id x, comparison))
          } else first_dependency sha256 b st xs
      | None \<Rightarrow> first_dependency sha256 b st xs)
   }"

definition dependency :: "(body \<Rightarrow> string) \<Rightarrow> string \<Rightarrow> Binding \<Rightarrow> WorkerState \<Rightarrow> (string \<times> js_value) option option" where
  "dependency sha256 i b st = first_dependency sha256 b st
     (rev (filter (\<lambda>x. op_candidate x = i \<and> op_kind x = ''current'' \<and> op_state x = Op_accepted \<and> request_binding_is b x) (operations st)))"

record Compared =
  compared_snapshot :: SessionMetadata
  compared_body :: "body option"
  compared_cursor :: "string option"

definition comparison :: "(body \<Rightarrow> string) \<Rightarrow> string \<Rightarrow> WorkerState \<Rightarrow> Compared option option" where
  "comparison sha256 i st = (case find (\<lambda>r. cmp_candidate r = i) (comparisons st) of
     None \<Rightarrow> Some None
   | Some r \<Rightarrow> do {
       snapshot \<leftarrow> decodeArchiveSessionMetadata (cmp_snapshot r) True;
       guard (case cmp_body r of None \<Rightarrow> True | Some b \<Rightarrow> int (length b) = session_byte_length snapshot \<and> sha256 b = session_sha256 snapshot);
       Some (Some \<lparr>compared_snapshot = snapshot, compared_body = cmp_body r, compared_cursor = cmp_cursor r\<rparr>)
     })"

definition hasComparisonBody :: "string \<Rightarrow> WorkerState \<Rightarrow> bool" where
  "hasComparisonBody i st \<longleftrightarrow> list_ex (\<lambda>r. cmp_candidate r = i \<and> cmp_body r \<noteq> None) (comparisons st)"

definition operationCandidate :: "string \<Rightarrow> WorkerState \<Rightarrow> string option" where
  "operationCandidate i st = map_option op_candidate (find (\<lambda>x. op_id x = i) (operations st))"

section \<open>The schedule\<close>

definition sameIdentity :: "Binding \<Rightarrow> Binding \<Rightarrow> bool" where
  "sameIdentity a b \<longleftrightarrow> server_id a = server_id b \<and> namespace_id a = namespace_id b"

fun minimum :: "int list \<Rightarrow> int option" where
  "minimum [] = None"
| "minimum (x # xs) = Some (case minimum xs of None \<Rightarrow> x | Some y \<Rightarrow> min x y)"

definition pending_dues :: "string \<Rightarrow> WorkerState \<Rightarrow> int list" where
  "pending_dues d st = map cand_due (filter (\<lambda>r. cand_destination r = d \<and> cand_state r = Cand_ready \<and> \<not> has_unresolved st r) (candidates st))
     @ map op_due (filter (\<lambda>x. op_destination x = d \<and> op_state x \<in> {Op_ready, Op_uncertain}) (operations st))"

definition local_dues :: "string \<Rightarrow> WorkerState \<Rightarrow> int list" where
  "local_dues d st = map scp_due (filter (\<lambda>r. scp_destination r = d \<and> (scp_state r = Scope_ready \<or> scp_review_target r \<noteq> None)) (scopes st))
     @ map src_due (filter (\<lambda>s. src_state s = Source_ready \<and> list_ex (\<lambda>q. scp_id q = src_scope s \<and> scp_destination q = d) (scopes st)) (sources st))"

text \<open>The times at which a destination of the connection has something to do.\<close>

definition destination_dues :: "string \<Rightarrow> Binding option \<Rightarrow> int \<Rightarrow> WorkerState \<Rightarrow> DestinationRow \<Rightarrow> int list option" where
  "destination_dues generation binding authDue st r = do {
     stored \<leftarrow> nullable_binding (dest_binding r);
     Some (if (case stored of Some s \<Rightarrow> (case binding of Some b \<Rightarrow> \<not> sameIdentity s b | None \<Rightarrow> False) | None \<Rightarrow> dest_generation r \<noteq> generation) then []
       else (case minimum (pending_dues (dest_id r) st) of None \<Rightarrow> [] | Some due \<Rightarrow> [max due authDue])
         @ (case minimum (local_dues (dest_id r) st) of None \<Rightarrow> [] | Some due \<Rightarrow> [if stored \<noteq> None then max due authDue else due]))
   }"

record Connection =
  conn_url :: string
  conn_generation :: string

text \<open>\<open>Some None\<close> when nothing is scheduled.\<close>

definition inspect :: "Connection option \<Rightarrow> WorkerState \<Rightarrow> int option option" where
  "inspect connection st = (case connection of None \<Rightarrow> Some None | Some c \<Rightarrow>
     let auth = find (\<lambda>r. auth_generation r = conn_generation c) (authorizations st) in
     if (case auth of Some a \<Rightarrow> auth_blocked a | None \<Rightarrow> False) then Some None
     else do {
       binding \<leftarrow> (case auth of Some a \<Rightarrow> nullable_binding (auth_binding a) | None \<Rightarrow> Some None);
       dues \<leftarrow> those (map (destination_dues (conn_generation c) binding (case auth of Some a \<Rightarrow> auth_due a | None \<Rightarrow> 0) st)
         (filter (\<lambda>r. dest_origin r = conn_url c) (destinations st)));
       Some (minimum (concat dues))
     })"

section \<open>Nothing due is forgotten\<close>

lemma those_member: "those xs = Some ys \<Longrightarrow> x \<in> set xs \<Longrightarrow> \<exists>y \<in> set ys. x = Some y"
  by (induction xs arbitrary: ys) (auto split: option.splits)

lemma minimum_le: "x \<in> set xs \<Longrightarrow> \<exists>m. minimum xs = Some m \<and> m \<le> x"
  by (induction xs) (auto split: option.splits)

lemma minimum_mem: "minimum xs = Some m \<Longrightarrow> m \<in> set xs"
  by (induction xs arbitrary: m) (auto simp: min_def split: option.splits if_splits)

definition auth_row :: "Connection \<Rightarrow> WorkerState \<Rightarrow> AuthorizationRow option" where
  "auth_row c st = find (\<lambda>r. auth_generation r = conn_generation c) (authorizations st)"

text \<open>The connection may work for the destination: its verified server and namespace are those the destination is bound to,
  or the destination was queued under this configuration.\<close>

definition serves :: "Connection \<Rightarrow> WorkerState \<Rightarrow> DestinationRow \<Rightarrow> bool" where
  "serves c st r \<longleftrightarrow> dest_origin r = conn_url c \<and> (case nullable_binding (dest_binding r) of
     Some (Some s) \<Rightarrow> (case Option.bind (auth_row c st) (\<lambda>a. Option.bind (nullable_binding (auth_binding a)) id) of Some b \<Rightarrow> sameIdentity s b | None \<Rightarrow> True)
   | Some None \<Rightarrow> dest_generation r = conn_generation c
   | None \<Rightarrow> False)"

definition retry_from :: "Connection \<Rightarrow> WorkerState \<Rightarrow> int" where
  "retry_from c st = (case auth_row c st of Some a \<Rightarrow> auth_due a | None \<Rightarrow> 0)"

lemma destination_dues_le:
  assumes "destination_dues g b a st r = Some dues" "due \<in> set (pending_dues (dest_id r) st) \<union> set (local_dues (dest_id r) st)"
    and "\<not> (case nullable_binding (dest_binding r) of Some (Some s) \<Rightarrow> (case b of Some b \<Rightarrow> \<not> sameIdentity s b | None \<Rightarrow> False) | _ \<Rightarrow> dest_generation r \<noteq> g)"
  shows "\<exists>d \<in> set dues. d \<le> max due a"
proof -
  consider m where "minimum (pending_dues (dest_id r) st) = Some m" "m \<le> due" | m where "minimum (local_dues (dest_id r) st) = Some m" "m \<le> due"
    using assms(2) minimum_le by fast
  then show ?thesis using assms(1,3) by cases (auto simp: destination_dues_def bind_eq_Some_conv split: option.splits if_splits)
qed

text \<open>No work is forgotten: whenever a destination that the connection may work for has a candidate, an operation, a scope or
  a source that is due at some time, the schedule names a time not later than that one and the end of the pause that
  the authorisation is under.\<close>

lemma due_work_is_scheduled:
  assumes "inspect (Some c) st = Some schedule" "\<not> (case auth_row c st of Some a \<Rightarrow> auth_blocked a | None \<Rightarrow> False)"
    and "r \<in> set (destinations st)" "serves c st r"
    and "due \<in> set (pending_dues (dest_id r) st) \<union> set (local_dues (dest_id r) st)"
  shows "\<exists>n. schedule = Some n \<and> n \<le> max due (retry_from c st)"
proof -
  from assms(1,2) obtain binding dues
    where binding: "(case auth_row c st of Some a \<Rightarrow> nullable_binding (auth_binding a) | None \<Rightarrow> Some None) = Some binding"
      and dues: "those (map (destination_dues (conn_generation c) binding (retry_from c st) st) (filter (\<lambda>r. dest_origin r = conn_url c) (destinations st))) = Some dues"
      and schedule: "schedule = minimum (concat dues)"
    by (auto simp: inspect_def auth_row_def retry_from_def Let_def bind_eq_Some_conv split: if_splits)
  from assms(3,4) those_member [OF dues] obtain ds where ds: "ds \<in> set dues" "destination_dues (conn_generation c) binding (retry_from c st) st r = Some ds"
    by (fastforce simp: serves_def)
  have "\<not> (case nullable_binding (dest_binding r) of Some (Some s) \<Rightarrow> (case binding of Some b \<Rightarrow> \<not> sameIdentity s b | None \<Rightarrow> False) | _ \<Rightarrow> dest_generation r \<noteq> conn_generation c)"
    using assms(4) binding by (auto simp: serves_def split: option.splits)
  from destination_dues_le [OF ds(2) assms(5) this] ds(1) obtain d where "d \<in> set (concat dues)" "d \<le> max due (retry_from c st)" by auto
  with minimum_le [of d "concat dues"] schedule show ?thesis by force
qed

section \<open>The base of a known extension\<close>

lemma best_receipt_snoc:
  "best_receipt (rs @ [r]) = (case best_receipt rs of None \<Rightarrow> Some r
     | Some x \<Rightarrow> if read_nat (seq (receipt_revision x)) < read_nat (seq (receipt_revision r)) then Some r else Some x)"
  by (simp add: best_receipt_def)

lemma best_receipt_None [simp]: "best_receipt rs = None \<longleftrightarrow> rs = []"
  by (cases rs rule: rev_cases) (auto simp: best_receipt_snoc best_receipt_def [of "[]"] split: option.splits)

text \<open>The newest of the accepted receipts is taken.\<close>

lemma best_receipt_max: "best_receipt rs = Some r \<Longrightarrow> r \<in> set rs \<and> (\<forall>x \<in> set rs. read_nat (seq (receipt_revision x)) \<le> read_nat (seq (receipt_revision r)))"
proof (induction rs arbitrary: r rule: rev_induct)
  case (snoc x rs)
  show ?case
  proof (cases "best_receipt rs")
    case None
    with snoc.prems show ?thesis by (simp add: best_receipt_snoc)
  next
    case (Some y)
    with snoc show ?thesis by (fastforce simp: best_receipt_snoc split: if_splits)
  qed
qed (simp add: best_receipt_def)

lemma acceptedCanonical_receipt:
  assumes "acceptedCanonical sha256 c b st = Some (Some r)"
  shows "pub_binding (receipt_request r) = b \<and> pub_session_id (receipt_request r) = wc_session c"
proof -
  from assms obtain rs where "best_receipt rs = Some r" "list_all (canonical_receipt c b) rs"
    by (auto simp: acceptedCanonical_def bind_eq_Some_conv)
  with best_receipt_max show ?thesis by (auto simp: canonical_receipt_def list_all_iff)
qed

end
