(* ===== verification/Server_Transport.thy ===== *)
theory Server_Transport
  imports Archive_Reconciler
begin

text \<open>
  The HTTP boundary of the archive server: \<open>src/src/server/ServerResponses.ts\<close>, \<open>src/src/server/ServerCompatibility.ts\<close> and
  \<open>src/src/server/ServerHttpTransport.ts\<close>.  A request is modelled by what came of it (a \<open>delivery\<close>): it was not authorised,
  was cancelled, timed out, failed on the way, or was answered.  \<open>JSON.parse\<close> on the bytes of a body is the argument
  \<open>json\<close>.  The theory shows that a code, which is what decides about recovery, comes from the server's own error
  envelope only.
\<close>

section \<open>Versions\<close>

definition ident_char :: "char \<Rightarrow> bool" where
  "ident_char c \<longleftrightarrow> is_digit c \<or> c \<in> set ''ABCDEFGHIJKLMNOPQRSTUVWXYZabcdefghijklmnopqrstuvwxyz-''"

definition numeric_ident :: "string \<Rightarrow> bool" where
  "numeric_ident s \<longleftrightarrow> s = ''0'' \<or> (s \<noteq> [] \<and> list_all is_digit s \<and> hd s \<noteq> CHR ''0'')"

definition build_ident :: "string \<Rightarrow> bool" where
  "build_ident s \<longleftrightarrow> s \<noteq> [] \<and> list_all ident_char s"

definition pre_ident :: "string \<Rightarrow> bool" where
  "pre_ident s \<longleftrightarrow> numeric_ident s \<or> (build_ident s \<and> \<not> list_all is_digit s)"

text \<open>The text before the first \<open>c\<close>, and the text behind it if there is one.\<close>

definition cut_at :: "char \<Rightarrow> string \<Rightarrow> string \<times> string option" where
  "cut_at c s = (case index_of c s of None \<Rightarrow> (s, None) | Some i \<Rightarrow> (take i s, Some (drop (Suc i) s)))"

definition VERSION_PATTERN :: "string \<Rightarrow> bool" where
  "VERSION_PATTERN s = (let (r, build) = cut_at (CHR ''+'') s; (core, pre) = cut_at (CHR ''-'') r; parts = split_on (CHR ''.'') core in
     length parts = 3 \<and> list_all numeric_ident parts \<and> (case pre of None \<Rightarrow> True | Some p \<Rightarrow> list_all pre_ident (split_on (CHR ''.'') p))
     \<and> (case build of None \<Rightarrow> True | Some b \<Rightarrow> list_all build_ident (split_on (CHR ''.'') b)))"

definition decodeVersionResponse :: "js_value \<Rightarrow> string option" where
  "decodeVersionResponse v = (case v of JObj row \<Rightarrow> (case prop_of row ''version'' of
       JStr s \<Rightarrow> if length s \<le> 128 \<and> VERSION_PATTERN s then Some s else None | _ \<Rightarrow> None) | _ \<Rightarrow> None)"

definition SERVER_VERSION_REQUIREMENT :: string where "SERVER_VERSION_REQUIREMENT = ''0.4.*''"

definition matchesServerVersion :: "string \<Rightarrow> string \<Rightarrow> bool" where
  "matchesServerVersion version requirement = (
     if decodeVersionResponse (JObj [(''version'', JStr version)]) = None then False
     else if \<not> suffix ''.*'' requirement then version = requirement
     else let required = split_on (CHR ''.'') (take (length requirement - 2) requirement); r = fst (cut_at (CHR ''+'') version) in
       length required \<in> {1, 2} \<and> CHR ''-'' \<notin> set r
       \<and> list_all (\<lambda>(c, i). i < length (split_on (CHR ''.'') r) \<and> c = split_on (CHR ''.'') r ! i) (zip required [0..<length required]))"

section \<open>Errors\<close>

datatype ServerErrorCode = Invalid_request | Integrity | Unauthorized | Rate_limited | Method_not_allowed | Unsupported_media_type
  | Payload_too_large | Binding_mismatch | Cursor_mismatch | Stale_base | Already_exists | Operation_id_mismatch | Capacity | Overloaded
  | Corruption | Not_found | Uncertain_commit | Internal

definition server_error_codes :: "ServerErrorCode list" where
  "server_error_codes = [Invalid_request, Integrity, Unauthorized, Rate_limited, Method_not_allowed, Unsupported_media_type,
     Payload_too_large, Binding_mismatch, Cursor_mismatch, Stale_base, Already_exists, Operation_id_mismatch, Capacity, Overloaded,
     Corruption, Not_found, Uncertain_commit, Internal]"

text \<open>The name, the status, whether the request may be repeated, the message and the advice of a code.\<close>

record ErrorDefinition =
  def_name :: string
  def_status :: nat
  def_retryable :: bool
  def_message :: string
  def_action :: string

fun ERROR_DEFINITIONS :: "ServerErrorCode \<Rightarrow> ErrorDefinition" where
  "ERROR_DEFINITIONS Invalid_request = \<lparr>def_name = ''invalid_request'', def_status = 400, def_retryable = False,
     def_message = ''Server rejected the request'', def_action = ''Check the request format and identifiers.''\<rparr>"
| "ERROR_DEFINITIONS Integrity = \<lparr>def_name = ''integrity'', def_status = 400, def_retryable = False,
     def_message = ''Server rejected the content integrity check'', def_action = ''Check the content length and SHA-256 digest before retrying.''\<rparr>"
| "ERROR_DEFINITIONS Unauthorized = \<lparr>def_name = ''unauthorized'', def_status = 401, def_retryable = False,
     def_message = ''Server API key is missing, invalid, or revoked'', def_action = ''Check the configured API key.''\<rparr>"
| "ERROR_DEFINITIONS Rate_limited = \<lparr>def_name = ''rate_limited'', def_status = 429, def_retryable = True,
     def_message = ''Server rate limit reached'', def_action = ''A temporary IP ban or authentication tracker limit may apply. Wait before retrying.''\<rparr>"
| "ERROR_DEFINITIONS Method_not_allowed = \<lparr>def_name = ''method_not_allowed'', def_status = 405, def_retryable = False,
     def_message = ''Server does not allow this HTTP method'', def_action = ''Check the client endpoint and method.''\<rparr>"
| "ERROR_DEFINITIONS Unsupported_media_type = \<lparr>def_name = ''unsupported_media_type'', def_status = 415, def_retryable = False,
     def_message = ''Server does not support this content type or encoding'', def_action = ''Check the request Content-Type and Content-Encoding.''\<rparr>"
| "ERROR_DEFINITIONS Payload_too_large = \<lparr>def_name = ''payload_too_large'', def_status = 413, def_retryable = False,
     def_message = ''Server request exceeds the size limit'', def_action = ''Reduce the request size before retrying.''\<rparr>"
| "ERROR_DEFINITIONS Binding_mismatch = \<lparr>def_name = ''binding_mismatch'', def_status = 409, def_retryable = False,
     def_message = ''Server binding does not match'', def_action = ''Stop synchronization and reconcile the changed server, namespace, or history binding.''\<rparr>"
| "ERROR_DEFINITIONS Cursor_mismatch = \<lparr>def_name = ''cursor_mismatch'', def_status = 409, def_retryable = False,
     def_message = ''Server discovery cursor does not match'', def_action = ''Restart discovery with the current binding.''\<rparr>"
| "ERROR_DEFINITIONS Stale_base = \<lparr>def_name = ''stale_base'', def_status = 409, def_retryable = False,
     def_message = ''Server session has a newer revision'', def_action = ''Fetch the current revision and resolve the conflict before publishing.''\<rparr>"
| "ERROR_DEFINITIONS Already_exists = \<lparr>def_name = ''already_exists'', def_status = 409, def_retryable = False,
     def_message = ''Server session already exists'', def_action = ''Keep the original upload state intact; recover its receipt or fork a new session.''\<rparr>"
| "ERROR_DEFINITIONS Operation_id_mismatch = \<lparr>def_name = ''operation_id_mismatch'', def_status = 409, def_retryable = False,
     def_message = ''Server operation ID was reused with different content'', def_action = ''Use the original request for that operation ID or a new ID for a new operation.''\<rparr>"
| "ERROR_DEFINITIONS Capacity = \<lparr>def_name = ''capacity'', def_status = 507, def_retryable = True,
     def_message = ''Server capacity limit reached'', def_action = ''Check available storage and configured resource quotas before retrying.''\<rparr>"
| "ERROR_DEFINITIONS Overloaded = \<lparr>def_name = ''overloaded'', def_status = 503, def_retryable = True,
     def_message = ''Server is overloaded'', def_action = ''Retry later.''\<rparr>"
| "ERROR_DEFINITIONS Corruption = \<lparr>def_name = ''corruption'', def_status = 500, def_retryable = False,
     def_message = ''Server detected stored data corruption'', def_action = ''Contact the server administrator to check storage integrity.''\<rparr>"
| "ERROR_DEFINITIONS Not_found = \<lparr>def_name = ''not_found'', def_status = 404, def_retryable = False,
     def_message = ''Server endpoint or resource was not found'', def_action = ''Check the server URL, server version, and requested resource.''\<rparr>"
| "ERROR_DEFINITIONS Uncertain_commit = \<lparr>def_name = ''uncertain_commit'', def_status = 503, def_retryable = True,
     def_message = ''Server publication outcome is uncertain'', def_action = ''Check the operation receipt before retrying the same operation.''\<rparr>"
| "ERROR_DEFINITIONS Internal = \<lparr>def_name = ''internal'', def_status = 500, def_retryable = False,
     def_message = ''Server encountered an internal error'', def_action = ''Contact the server administrator to check the server logs.''\<rparr>"

definition isServerErrorCode :: "js_value \<Rightarrow> ServerErrorCode option" where
  "isServerErrorCode v = find (\<lambda>c. v = JStr (def_name (ERROR_DEFINITIONS c))) server_error_codes"

definition MAX_RETRY_AFTER_MS :: int where "MAX_RETRY_AFTER_MS = 86400000"

definition retryAfterSeconds :: "string option \<Rightarrow> int option" where
  "retryAfterSeconds h = (case h of None \<Rightarrow> None
     | Some s \<Rightarrow> if 1 \<le> length s \<and> length s \<le> 9 \<and> list_all is_digit s then Some (int (read_nat s)) else None)"

definition decodeRetryAfterMs :: "string option \<Rightarrow> int option" where
  "decodeRetryAfterMs h = map_option (\<lambda>n. min (n * 1000) MAX_RETRY_AFTER_MS) (retryAfterSeconds h)"

definition decodeServerError :: "js_value \<Rightarrow> nat \<Rightarrow> ServerErrorCode option" where
  "decodeServerError v httpStatus = (case v of
     JObj row \<Rightarrow> (case prop_of row ''error'' of
         JObj error \<Rightarrow> do {
           code \<leftarrow> isServerErrorCode (prop_of error ''code'');
           guard (httpStatus = def_status (ERROR_DEFINITIONS code) \<and> prop_of error ''retryable'' = JBool (def_retryable (ERROR_DEFINITIONS code))
             \<and> prop_of error ''publication_outcome'' = JStr ''unconfirmed'');
           Some code }
       | _ \<Rightarrow> None)
   | _ \<Rightarrow> None)"

definition formatServerError :: "ServerErrorCode \<Rightarrow> string option \<Rightarrow> string" where
  "formatServerError code retryAfter = (let d = ERROR_DEFINITIONS code;
     retry = (case retryAfterSeconds retryAfter of Some n \<Rightarrow> if def_retryable d then '' Retry after '' @ show_nat (nat n) @ '' seconds.'' else [] | None \<Rightarrow> []) in
     def_message d @ '' ('' @ def_name d @ ''; HTTP '' @ show_nat (def_status d) @ ''). '' @ def_action d @ retry)"

datatype ServerHttpErrorKind = Server_kind | Transport_kind | Timeout_kind | Cancelled_kind | Protocol_kind | Authorization_kind | Configuration_kind

record ServerHttpError =
  err_message :: string
  err_code :: "ServerErrorCode option"
  err_kind :: ServerHttpErrorKind
  err_retryable :: bool
  err_retryAfterMs :: "int option"

definition isRetryableServerErrorCode :: "ServerErrorCode option \<Rightarrow> bool" where
  "isRetryableServerErrorCode code = (case code of None \<Rightarrow> False | Some c \<Rightarrow> def_retryable (ERROR_DEFINITIONS c))"

definition new_ServerHttpError :: "string \<Rightarrow> ServerErrorCode option \<Rightarrow> ServerHttpErrorKind \<Rightarrow> int option \<Rightarrow> ServerHttpError" where
  "new_ServerHttpError message code kind delay = (let retryable = (kind = Transport_kind \<or> kind = Timeout_kind
       \<or> (kind = Server_kind \<and> isRetryableServerErrorCode code)) in
     \<lparr>err_message = message, err_code = code, err_kind = kind, err_retryable = retryable,
      err_retryAfterMs = (case delay of None \<Rightarrow> None
        | Some d \<Rightarrow> if kind = Server_kind \<and> retryable \<and> 0 \<le> d \<and> d \<le> int MAX_SAFE_INTEGER then Some (min d MAX_RETRY_AFTER_MS) else None)\<rparr>)"

text \<open>\<open>new ServerHttpError (message)\<close>\<close>

definition protocol_error :: "string \<Rightarrow> ServerHttpError" where
  "protocol_error message = new_ServerHttpError message None Protocol_kind None"

section \<open>Responses\<close>

text \<open>Header names are in lower case; \<open>resp_chunks\<close> is \<open>None\<close> for a response without a body.\<close>

record Response =
  resp_redirected :: bool
  resp_status :: nat
  resp_url :: string
  resp_headers :: "(string \<times> string) list"
  resp_chunks :: "body list option"

definition SERVER_CONTROL_BYTES :: nat where "SERVER_CONTROL_BYTES = 65536"

definition transport_title :: "string \<Rightarrow> string" where
  "transport_title label = js_upper (take 1 label) @ drop 1 label"

definition protocolFailure :: "string \<Rightarrow> ServerHttpError" where
  "protocolFailure label = protocol_error (''Invalid '' @ label @ '' protocol data.'')"

definition transportFailure :: "string \<Rightarrow> ServerHttpError" where
  "transportFailure label = new_ServerHttpError (transport_title label @ '' server connection or response failed.'') None Transport_kind None"

definition sizeFailure :: "string \<Rightarrow> ServerHttpError" where
  "sizeFailure label = protocol_error (transport_title label @ '' response exceeds the size limit.'')"

definition transport_json :: "(body \<Rightarrow> js_value option) \<Rightarrow> string \<Rightarrow> body \<Rightarrow> ServerHttpError + js_value" where
  "transport_json json label bytes = (case json bytes of Some v \<Rightarrow> Inr v
     | None \<Rightarrow> Inl (protocol_error (transport_title label @ '' server returned invalid JSON.'')))"

definition contentLength :: "string \<Rightarrow> Response \<Rightarrow> ServerHttpError + nat option" where
  "contentLength label response = (case map_of (resp_headers response) ''content-length'' of
     None \<Rightarrow> Inr None
   | Some h \<Rightarrow> if numeric_ident h \<and> length h \<le> 16 \<and> read_nat h \<le> MAX_SAFE_INTEGER then Inr (Some (read_nat h)) else Inl (protocolFailure label))"

fun read_chunks :: "string \<Rightarrow> nat \<Rightarrow> body \<Rightarrow> body list \<Rightarrow> ServerHttpError + body" where
  "read_chunks label limit bytes [] = Inr bytes"
| "read_chunks label limit bytes (c # cs) = (if limit - length bytes < length c then Inl (sizeFailure label) else read_chunks label limit (bytes @ c) cs)"

text \<open>The checks of a response up to its complete body.\<close>

definition response_body :: "string \<Rightarrow> string \<Rightarrow> string \<Rightarrow> nat \<Rightarrow> Response \<Rightarrow> ServerHttpError + body" where
  "response_body label url accept cap response = (
     if resp_redirected response \<or> (300 \<le> resp_status response \<and> resp_status response < 400)
       then Inl (protocol_error (transport_title label @ '' server redirect refused.''))
     else if resp_url response \<noteq> [] \<and> resp_url response \<noteq> url then Inl (protocolFailure label)
     else if map_of (resp_headers response) ''content-encoding'' \<noteq> None then Inl (protocolFailure label)
     else let success = (resp_status response = 200); limit = (if success then cap else SERVER_CONTROL_BYTES) in
       sum_bind (contentLength label response) (\<lambda>declared.
       if (case declared of Some n \<Rightarrow> limit < n | None \<Rightarrow> False) then Inl (sizeFailure label)
       else case resp_chunks response of
         None \<Rightarrow> Inl (protocolFailure label)
       | Some chunks \<Rightarrow> sum_bind (read_chunks label limit [] chunks) (\<lambda>bytes.
           if declared \<noteq> None \<and> declared \<noteq> Some (length bytes) then Inl (protocolFailure label)
           else if map_of (resp_headers response) ''content-type'' \<noteq> Some (if success then accept else ''application/json'') then Inl (protocolFailure label)
           else Inr bytes)))"

text \<open>A request that was not successful.\<close>

definition failed_request :: "(body \<Rightarrow> js_value option) \<Rightarrow> string \<Rightarrow> Response \<Rightarrow> body \<Rightarrow> ServerHttpError" where
  "failed_request json label response bytes = (case transport_json json label bytes of
     Inl e \<Rightarrow> e
   | Inr v \<Rightarrow> (case decodeServerError v (resp_status response) of
       Some code \<Rightarrow> let retryAfter = map_of (resp_headers response) ''retry-after'' in
         new_ServerHttpError (formatServerError code retryAfter) (Some code) Server_kind (decodeRetryAfterMs retryAfter)
     | None \<Rightarrow> protocol_error (''Unexpected '' @ label @ '' server response (HTTP '' @ show_nat (resp_status response) @ '').'')))"

definition receive :: "(body \<Rightarrow> js_value option) \<Rightarrow> string \<Rightarrow> string \<Rightarrow> string \<Rightarrow> nat \<Rightarrow> (Response \<Rightarrow> body \<Rightarrow> ServerHttpError + 'a) \<Rightarrow> Response \<Rightarrow> ServerHttpError + 'a" where
  "receive json label url accept cap decode response = sum_bind (response_body label url accept cap response) (\<lambda>bytes.
     if resp_status response \<noteq> 200 then Inl (failed_request json label response bytes) else decode response bytes)"

datatype delivery = Not_authorized | Cancelled | Timed_out | Connection_failed | Responded Response

definition transport_request :: "(body \<Rightarrow> js_value option) \<Rightarrow> string \<Rightarrow> string \<Rightarrow> string \<Rightarrow> nat \<Rightarrow> (Response \<Rightarrow> body \<Rightarrow> ServerHttpError + 'a) \<Rightarrow> delivery \<Rightarrow> ServerHttpError + 'a" where
  "transport_request json label url accept cap decode d = (case d of
     Not_authorized \<Rightarrow> Inl (new_ServerHttpError (transport_title label @ '' request authorization failed.'') None Authorization_kind None)
   | Cancelled \<Rightarrow> Inl (new_ServerHttpError (transport_title label @ '' request cancelled.'') None Cancelled_kind None)
   | Timed_out \<Rightarrow> Inl (new_ServerHttpError (transport_title label @ '' request timed out.'') None Timeout_kind None)
   | Connection_failed \<Rightarrow> Inl (transportFailure label)
   | Responded response \<Rightarrow> receive json label url accept cap decode response)"

text \<open>A transport knows whether it has verified the server's version.\<close>

definition connect :: "(body \<Rightarrow> js_value option) \<Rightarrow> string \<Rightarrow> string \<Rightarrow> delivery \<Rightarrow> bool \<Rightarrow> ServerHttpError + unit" where
  "connect json label origin d compatible = (if compatible then Inr ()
     else sum_bind (transport_request json label (origin @ ''/v1/version'') ''application/json'' 4096
         (\<lambda>_ bytes. sum_bind (transport_json json label bytes) (\<lambda>v. Inr (decodeVersionResponse v))) d) (\<lambda>version.
       if version = None \<or> \<not> matchesServerVersion (the version) SERVER_VERSION_REQUIREMENT
       then Inl (new_ServerHttpError (''Incompatible pi.server version; required '' @ SERVER_VERSION_REQUIREMENT @ ''.'') None Configuration_kind None)
       else Inr ()))"

definition transport_exchange :: "(body \<Rightarrow> js_value option) \<Rightarrow> string \<Rightarrow> string \<Rightarrow> delivery \<Rightarrow> bool \<Rightarrow> string \<Rightarrow> string \<Rightarrow> nat \<Rightarrow> (Response \<Rightarrow> body \<Rightarrow> ServerHttpError + 'a)
    \<Rightarrow> delivery \<Rightarrow> ServerHttpError + 'a" where
  "transport_exchange json label origin v compatible path accept cap decode d =
     sum_bind (connect json label origin v compatible) (\<lambda>_. transport_request json label (origin @ path) accept cap decode d)"

section \<open>Codes come from the server's envelope\<close>

lemma new_ServerHttpError_simps [simp]:
  "err_code (new_ServerHttpError m c k d) = c" "err_kind (new_ServerHttpError m c k d) = k" "err_message (new_ServerHttpError m c k d) = m"
  by (simp_all add: new_ServerHttpError_def Let_def)

lemma codeless [simp]:
  "err_code (protocol_error m) = None" "err_code (protocolFailure l) = None" "err_code (transportFailure l) = None" "err_code (sizeFailure l) = None"
  by (simp_all add: protocol_error_def protocolFailure_def transportFailure_def sizeFailure_def)

lemma read_chunks_error: "read_chunks label limit bytes cs = Inl e \<Longrightarrow> err_code e = None"
  by (induction cs arbitrary: bytes) (auto split: if_splits)

lemma read_chunks_ok: "read_chunks label limit bytes cs = Inr b \<Longrightarrow> b = bytes @ concat cs"
  by (induction cs arbitrary: bytes) (fastforce split: if_splits)+

lemma read_chunks_length: "read_chunks label limit bytes cs = Inr b \<Longrightarrow> length bytes \<le> limit \<Longrightarrow> length b \<le> limit"
  by (induction cs arbitrary: bytes) (auto split: if_splits)

lemma contentLength_error: "contentLength label response = Inl e \<Longrightarrow> err_code e = None"
  by (auto simp: contentLength_def split: option.splits if_splits)

lemma transport_json_error: "transport_json json label bytes = Inl e \<Longrightarrow> err_code e = None"
  by (auto simp: transport_json_def split: option.splits)

lemma response_body_error: "response_body label url accept cap response = Inl e \<Longrightarrow> err_code e = None"
  by (auto simp: response_body_def Let_def sum_bind_Inl dest: contentLength_error read_chunks_error split: if_splits option.splits)

text \<open>The whole body was read, in one piece, and fits the limit.\<close>

lemma response_body_ok:
  assumes "response_body label url accept cap response = Inr b"
  shows "resp_chunks response \<noteq> None" "b = concat (the (resp_chunks response))"
    "length b \<le> (if resp_status response = 200 then cap else SERVER_CONTROL_BYTES)"
  using assms
  by (auto simp: response_body_def Let_def sum_bind_Inr dest: read_chunks_ok read_chunks_length split: if_splits option.splits)

lemma decodeServerError_status: "decodeServerError v n = Some c \<Longrightarrow> n = def_status (ERROR_DEFINITIONS c)"
  by (auto simp: decodeServerError_def bind_eq_Some_conv split: js_value.splits)

text \<open>Every code has a status of its own class, and none is a success or a redirection.\<close>

lemma error_status_range: "400 \<le> def_status (ERROR_DEFINITIONS c) \<and> def_status (ERROR_DEFINITIONS c) < 600"
  by (cases c) simp_all

lemma isServerErrorCode_name: "isServerErrorCode (JStr (def_name (ERROR_DEFINITIONS c))) = Some c"
  by (cases c) (simp_all add: isServerErrorCode_def server_error_codes_def)

text \<open>The envelope of the response names the code.\<close>

definition envelope :: "(body \<Rightarrow> js_value option) \<Rightarrow> Response \<Rightarrow> ServerErrorCode \<Rightarrow> bool" where
  "envelope json response c \<longleftrightarrow> resp_status response = def_status (ERROR_DEFINITIONS c)
     \<and> (\<exists>chunks v. resp_chunks response = Some chunks \<and> json (concat chunks) = Some v \<and> decodeServerError v (resp_status response) = Some c)"

lemma failed_request_code:
  assumes "err_code (failed_request json label response b) = Some c"
  shows "\<exists>v. json b = Some v \<and> decodeServerError v (resp_status response) = Some c"
  using assms by (auto simp: failed_request_def transport_json_def Let_def split: sum.splits option.splits if_splits)

lemma receive_code:
  assumes "receive json label url accept cap decode response = Inl e" "err_code e = Some c"
    and decode: "\<And>b e. decode response b = Inl e \<Longrightarrow> err_code e = None"
  shows "envelope json response c"
proof -
  from assms(1,2) obtain b where b: "response_body label url accept cap response = Inr b"
    and rest: "(if resp_status response \<noteq> 200 then Inl (failed_request json label response b) else decode response b) = Inl e"
    by (auto simp: receive_def sum_bind_Inl dest: response_body_error)
  from rest assms(2) decode have "e = failed_request json label response b" by (auto split: if_splits)
  with assms(2) failed_request_code response_body_ok(1,2) [OF b] decodeServerError_status show ?thesis
    unfolding envelope_def by fastforce
qed

lemma transport_request_code:
  assumes "transport_request json label url accept cap decode d = Inl e" "err_code e = Some c"
    and "\<And>r b e. decode r b = Inl e \<Longrightarrow> err_code e = None"
  shows "\<exists>response. d = Responded response \<and> envelope json response c"
  using assms receive_code [of json label url accept cap decode _ e c]
  by (auto simp: transport_request_def split: delivery.splits)

lemma connect_code:
  assumes "connect json label origin v compatible = Inl e" "err_code e = Some c"
  shows "\<exists>response. v = Responded response \<and> envelope json response c"
proof -
  from assms have "transport_request json label (origin @ ''/v1/version'') ''application/json'' 4096
      (\<lambda>_ bytes. sum_bind (transport_json json label bytes) (\<lambda>v. Inr (decodeVersionResponse v))) v = Inl e"
    by (auto simp: connect_def sum_bind_Inl split: if_splits)
  from transport_request_code [OF this assms(2)] show ?thesis by (auto simp: sum_bind_Inl dest: transport_json_error)
qed

lemma transport_exchange_code:
  assumes "transport_exchange json label origin v compatible path accept cap decode d = Inl e" "err_code e = Some c"
    and "\<And>r b e. decode r b = Inl e \<Longrightarrow> err_code e = None"
  shows "\<exists>response. (v = Responded response \<or> d = Responded response) \<and> envelope json response c"
proof -
  from assms(1) consider "connect json label origin v compatible = Inl e" | "transport_request json label (origin @ path) accept cap decode d = Inl e"
    by (auto simp: transport_exchange_def sum_bind_Inl)
  then show ?thesis
  proof cases
    case 1
    from connect_code [OF 1 assms(2)] show ?thesis by auto
  next
    case 2
    with transport_request_code [OF 2 assms(2)] assms(3) show ?thesis by blast
  qed
qed

text \<open>Only the hint of a retryable server error bounds a later delay, by at most one day.\<close>

lemma retry_hint_bounds: "err_retryAfterMs (new_ServerHttpError m c k d) = Some n \<Longrightarrow> 0 \<le> n \<and> n \<le> MAX_RETRY_AFTER_MS"
  by (auto simp: new_ServerHttpError_def Let_def MAX_RETRY_AFTER_MS_def split: option.splits if_splits)

text \<open>A server with the required minor version is accepted whatever its patch level is.\<close>

lemma matches_stable: "matchesServerVersion ''0.4.17+x'' SERVER_VERSION_REQUIREMENT" "\<not> matchesServerVersion ''0.4.1-rc.1'' SERVER_VERSION_REQUIREMENT"
    "\<not> matchesServerVersion ''0.04.1'' SERVER_VERSION_REQUIREMENT"
  by code_simp+

end
