(* ===== verification/Archive_Client.thy ===== *)
theory Archive_Client
  imports Server_Transport Archive_State
begin

text \<open>
  The client of the archive server, \<open>src/src/server/ArchiveClient.ts\<close>.  The server is the argument \<open>server\<close>, which gives
  what comes of a request to a path with a payload.  A failed call is \<open>Inl\<close> of its error.  The theory shows that an
  answer that a call returns is one to its own request, that downloaded bytes are those the snapshot describes, and that
  the code of an error was given by the server.
\<close>

section \<open>Base64url\<close>

definition base64url_alphabet :: string where
  "base64url_alphabet = ''ABCDEFGHIJKLMNOPQRSTUVWXYZabcdefghijklmnopqrstuvwxyz0123456789-_''"

definition digit64 :: "nat \<Rightarrow> char" where
  "digit64 n = base64url_alphabet ! n"

fun base64url_digits :: "nat list \<Rightarrow> nat list" where
  "base64url_digits [] = []"
| "base64url_digits [a] = [a div 4, a mod 4 * 16]"
| "base64url_digits [a, b] = [a div 4, a mod 4 * 16 + b div 16, b mod 16 * 4]"
| "base64url_digits (a # b # c # r) = a div 4 # (a mod 4 * 16 + b div 16) # (b mod 16 * 4 + c div 64) # c mod 64 # base64url_digits r"

fun base64url_bytes :: "nat list \<Rightarrow> nat list" where
  "base64url_bytes [] = []"
| "base64url_bytes [x] = []"
| "base64url_bytes [x, y] = [x * 4 + y div 16]"
| "base64url_bytes [x, y, z] = [x * 4 + y div 16, y mod 16 * 16 + z div 4]"
| "base64url_bytes (x # y # z # w # r) = (x * 4 + y div 16) # (y mod 16 * 16 + z div 4) # (z mod 4 * 64 + w) # base64url_bytes r"

definition toBase64url :: "body \<Rightarrow> string" where
  "toBase64url b = map digit64 (base64url_digits (map unat b))"

definition fromBase64url :: "string \<Rightarrow> body" where
  "fromBase64url s = map of_nat (base64url_bytes (map (\<lambda>c. the_default 0 (index_of c base64url_alphabet)) s))"

section \<open>Errors\<close>

record ArchiveClientError = ServerHttpError +
  publicationUncertain :: bool

definition new_ArchiveClientError :: "string \<Rightarrow> ServerErrorCode option \<Rightarrow> bool \<Rightarrow> ServerHttpErrorKind \<Rightarrow> int option \<Rightarrow> ArchiveClientError" where
  "new_ArchiveClientError message code uncertain kind delay =
     ServerHttpError.extend (new_ServerHttpError message code kind delay) (ArchiveClientError.fields uncertain)"

definition safeError :: "ServerHttpError \<Rightarrow> ArchiveClientError" where
  "safeError e = new_ArchiveClientError (err_message e) (err_code e) False (err_kind e) (err_retryAfterMs e)"

definition archive_protocol_error :: ServerHttpError where
  "archive_protocol_error = protocol_error ''Invalid archive protocol data.''"

text \<open>\<open>localRequest\<close>: a request that is not well formed is not sent.\<close>

definition localRequest :: "'a option \<Rightarrow> ArchiveClientError + 'a" where
  "localRequest x = (case x of Some y \<Rightarrow> Inr y | None \<Rightarrow> Inl (new_ArchiveClientError ''Invalid archive protocol data.'' None False Protocol_kind None))"

text \<open>A mutation that failed may have happened.\<close>

definition uncertain_mutation :: "ArchiveClientError + 'a \<Rightarrow> ArchiveClientError + 'a" where
  "uncertain_mutation r = (case r of Inr x \<Rightarrow> Inr x
     | Inl e \<Rightarrow> Inl (new_ArchiveClientError (err_message e) (err_code e) True (err_kind e) (err_retryAfterMs e)))"

section \<open>Requests\<close>

record ServerHttpPayload =
  payload_body :: "body option"
  payload_headers :: "(string \<times> string) list"

definition CONTROL_BYTES :: nat where "CONTROL_BYTES = SERVER_CONTROL_BYTES"

definition JSON_BYTES :: nat where "JSON_BYTES = 1048576"

definition no_payload :: ServerHttpPayload where
  "no_payload = \<lparr>payload_body = None, payload_headers = []\<rparr>"

definition control :: "js_value \<Rightarrow> ArchiveClientError + ServerHttpPayload" where
  "control v = (let b = text_bytes (stringify v) in
     localRequest (if length b \<le> CONTROL_BYTES then Some \<lparr>payload_body = Some b, payload_headers = [(''Content-Type'', ''application/json'')]\<rparr> else None))"

definition client_exchange :: "(body \<Rightarrow> js_value option) \<Rightarrow> string \<Rightarrow> (string \<Rightarrow> ServerHttpPayload \<Rightarrow> delivery) \<Rightarrow> string \<Rightarrow> ServerHttpPayload \<Rightarrow> string \<Rightarrow> nat
    \<Rightarrow> (Response \<Rightarrow> body \<Rightarrow> ServerHttpError + 'a) \<Rightarrow> ArchiveClientError + 'a" where
  "client_exchange json origin server path payload accept cap decode =
     (case transport_exchange json ''archive'' origin (server ''/v1/version'' no_payload) False path accept cap decode (server path payload) of
        Inl e \<Rightarrow> Inl (safeError e) | Inr x \<Rightarrow> Inr x)"

definition decoded_json :: "(body \<Rightarrow> js_value option) \<Rightarrow> (js_value \<Rightarrow> 'a option) \<Rightarrow> body \<Rightarrow> ServerHttpError + 'a" where
  "decoded_json json decode bytes = sum_bind (transport_json json ''archive'' bytes) (\<lambda>v. case decode v of Some x \<Rightarrow> Inr x | None \<Rightarrow> Inl archive_protocol_error)"

definition client_binding :: "(body \<Rightarrow> js_value option) \<Rightarrow> string \<Rightarrow> (string \<Rightarrow> ServerHttpPayload \<Rightarrow> delivery) \<Rightarrow> ArchiveClientError + BindingResponse" where
  "client_binding json origin server = client_exchange json origin server ''/v1/binding'' no_payload ''application/json'' CONTROL_BYTES
     (\<lambda>_ b. decoded_json json decodeArchiveBindingResponse b)"

definition filters_value :: "ListFilters \<Rightarrow> js_value" where
  "filters_value f = JObj (obj_of [(''session_id'', map_option JStr (filter_session_id f)), (''kind'', map_option (\<lambda>k. JStr (sessionKindValue k)) (filter_kind f)),
     (''root_session_id'', map_option JStr (filter_root_session_id f)), (''started_from'', map_option JStr (started_from f)), (''started_to'', map_option JStr (started_to f)),
     (''activity_from'', map_option JStr (activity_from f)), (''activity_to'', map_option JStr (activity_to f))])"

definition listRequest_value :: "Binding \<Rightarrow> ListParameters \<Rightarrow> js_value" where
  "listRequest_value b p = JObj (obj_of [(''binding'', Some (binding_value b)), (''limit'', Some (JInt (list_limit p))), (''filters'', map_option filters_value (list_filters p)),
     (''cursor'', map_option (\<lambda>c. case c of None \<Rightarrow> JNull | Some s \<Rightarrow> JStr s) (list_cursor p)), (''include_preserved'', if include_preserved p then Some (JBool True) else None)])"

definition client_list :: "(body \<Rightarrow> js_value option) \<Rightarrow> string \<Rightarrow> (string \<Rightarrow> ServerHttpPayload \<Rightarrow> delivery) \<Rightarrow> js_value \<Rightarrow> ArchiveClientError + ListPage" where
  "client_list json origin server request = sum_bind (localRequest (decodeArchiveListRequest request)) (\<lambda>(b, p).
     sum_bind (control (listRequest_value b p)) (\<lambda>payload.
     client_exchange json origin server ''/v1/list'' payload ''application/json'' JSON_BYTES (\<lambda>_ bytes.
       sum_bind (decoded_json json (\<lambda>v. decodeArchiveListPage v (include_preserved p)) bytes) (\<lambda>page.
         if sameArchiveBinding b (page_binding page) \<and> int (length (page_sessions page)) \<le> list_limit p
           \<and> (case Option.bind (list_filters p) filter_session_id of None \<Rightarrow> True | Some i \<Rightarrow> list_all (\<lambda>s. session_id s = i) (page_sessions page))
         then Inr page else Inl archive_protocol_error))))"

definition matchingOutcome :: "Publication \<Rightarrow> js_value \<Rightarrow> Receipt outcome option" where
  "matchingOutcome request v = do {
     outcome \<leftarrow> decodeArchiveReceiptOutcome v;
     same \<leftarrow> (case outcome of Accepted r \<Rightarrow> sameArchivePublication (receipt_request r) request | Unknown \<Rightarrow> Some True);
     guard same;
     Some outcome
   }"

definition matchingPreservationOutcome :: "Preservation \<Rightarrow> js_value \<Rightarrow> PreservationReceipt outcome option" where
  "matchingPreservationOutcome request v = do {
     outcome \<leftarrow> decodeArchivePreservationReceiptOutcome v;
     same \<leftarrow> (case outcome of Accepted r \<Rightarrow> sameArchivePreservation (preserved_request r) request | Unknown \<Rightarrow> Some True);
     guard same;
     Some outcome
   }"

definition accepted_only :: "'r outcome option \<Rightarrow> 'r option" where
  "accepted_only x = (case x of Some (Accepted r) \<Rightarrow> Some r | _ \<Rightarrow> None)"

text \<open>The payload of an upload, with its description in a header.\<close>

definition upload_payload :: "(body \<Rightarrow> string) \<Rightarrow> string \<Rightarrow> js_value \<Rightarrow> int \<Rightarrow> string \<Rightarrow> body \<Rightarrow> ServerHttpPayload option" where
  "upload_payload sha256 header v len sha b = do {
     guard (int (length b) = len \<and> sha256 b = sha);
     Some \<lparr>payload_body = Some b, payload_headers = [(''Content-Type'', ''application/octet-stream''), (header, toBase64url (text_bytes (stringify v)))]\<rparr>
   }"

definition publish_payload :: "(body \<Rightarrow> string) \<Rightarrow> Publication \<Rightarrow> body \<Rightarrow> ServerHttpPayload option" where
  "publish_payload sha256 p b = do {
     payload \<leftarrow> upload_payload sha256 ''X-Pi-Publication'' (publication_value p) (pub_byte_length p) (pub_sha256 p) b;
     guard (length (text_bytes (stringify (publication_value p))) \<le> CONTROL_BYTES);
     Some payload
   }"

definition client_publish :: "(body \<Rightarrow> string) \<Rightarrow> (body \<Rightarrow> js_value option) \<Rightarrow> string \<Rightarrow> (string \<Rightarrow> ServerHttpPayload \<Rightarrow> delivery) \<Rightarrow> Publication \<Rightarrow> body
    \<Rightarrow> ArchiveClientError + Receipt" where
  "client_publish sha256 json origin server request b = uncertain_mutation (
     sum_bind (localRequest (do { p \<leftarrow> decodeArchivePublication (publication_value request) True; payload \<leftarrow> publish_payload sha256 p b; Some (p, payload) })) (\<lambda>(p, payload).
     client_exchange json origin server ''/v1/publish'' payload ''application/json'' CONTROL_BYTES (\<lambda>_ bytes.
       decoded_json json (\<lambda>v. accepted_only (matchingOutcome p v)) bytes)))"

definition client_receipt :: "(body \<Rightarrow> js_value option) \<Rightarrow> string \<Rightarrow> (string \<Rightarrow> ServerHttpPayload \<Rightarrow> delivery) \<Rightarrow> Publication \<Rightarrow> ArchiveClientError + Receipt outcome" where
  "client_receipt json origin server request = sum_bind (localRequest (decodeArchivePublication (publication_value request) True)) (\<lambda>p.
     sum_bind (control (publication_value p)) (\<lambda>payload.
     client_exchange json origin server ''/v1/receipt'' payload ''application/json'' CONTROL_BYTES (\<lambda>_ bytes. decoded_json json (matchingOutcome p) bytes)))"

definition preserve_payload :: "(body \<Rightarrow> string) \<Rightarrow> Preservation \<Rightarrow> body option \<Rightarrow> ServerHttpPayload option" where
  "preserve_payload sha256 p b = (case (p, b) of
     (Uploaded u, Some bytes) \<Rightarrow> do {
       payload \<leftarrow> upload_payload sha256 ''X-Pi-Preservation'' (preservation_value p) (up_byte_length u) (up_sha256 u) bytes;
       guard (length (toBase64url (text_bytes (stringify (preservation_value p)))) \<le> CONTROL_BYTES);
       Some payload }
   | (Current _, None) \<Rightarrow> (case control (preservation_value p) of Inr payload \<Rightarrow> Some payload | Inl _ \<Rightarrow> None)
   | _ \<Rightarrow> None)"

definition client_preserve :: "(body \<Rightarrow> string) \<Rightarrow> (body \<Rightarrow> js_value option) \<Rightarrow> string \<Rightarrow> (string \<Rightarrow> ServerHttpPayload \<Rightarrow> delivery) \<Rightarrow> Preservation \<Rightarrow> body option
    \<Rightarrow> ArchiveClientError + PreservationReceipt" where
  "client_preserve sha256 json origin server request b = uncertain_mutation (
     sum_bind (localRequest (do { p \<leftarrow> decodeArchivePreservation (preservation_value request) True; payload \<leftarrow> preserve_payload sha256 p b; Some (p, payload) })) (\<lambda>(p, payload).
     client_exchange json origin server ''/v1/preserve'' payload ''application/json'' CONTROL_BYTES (\<lambda>_ bytes.
       decoded_json json (\<lambda>v. accepted_only (matchingPreservationOutcome p v)) bytes)))"

definition client_preserveReceipt :: "(body \<Rightarrow> js_value option) \<Rightarrow> string \<Rightarrow> (string \<Rightarrow> ServerHttpPayload \<Rightarrow> delivery) \<Rightarrow> Preservation \<Rightarrow> ArchiveClientError + PreservationReceipt outcome" where
  "client_preserveReceipt json origin server request = sum_bind (localRequest (decodeArchivePreservation (preservation_value request) True)) (\<lambda>p.
     sum_bind (control (preservation_value p)) (\<lambda>payload.
     client_exchange json origin server ''/v1/preserve-receipt'' payload ''application/json'' CONTROL_BYTES (\<lambda>_ bytes. decoded_json json (matchingPreservationOutcome p) bytes)))"

text \<open>The snapshot that a download describes in its header.\<close>

definition snapshot_header :: "(body \<Rightarrow> js_value option) \<Rightarrow> Response \<Rightarrow> ServerHttpError + SessionMetadata" where
  "snapshot_header json response = (case map_of (resp_headers response) ''x-pi-snapshot'' of
     None \<Rightarrow> Inl archive_protocol_error
   | Some h \<Rightarrow> if CONTROL_BYTES < length h \<or> h = [] \<or> \<not> list_all (\<lambda>c. c \<in> set base64url_alphabet) h \<or> toBase64url (fromBase64url h) \<noteq> h then Inl archive_protocol_error
       else decoded_json json (\<lambda>v. decodeArchiveSessionMetadata v False) (fromBase64url h))"

definition client_download :: "(body \<Rightarrow> string) \<Rightarrow> (body \<Rightarrow> js_value option) \<Rightarrow> string \<Rightarrow> (string \<Rightarrow> ServerHttpPayload \<Rightarrow> delivery) \<Rightarrow> Binding \<Rightarrow> string \<Rightarrow> string option
    \<Rightarrow> ArchiveClientError + (SessionMetadata \<times> body)" where
  "client_download sha256 json origin server binding sid variant =
     sum_bind (localRequest (do {
       b \<leftarrow> decodeArchiveBinding (binding_value binding) True;
       i \<leftarrow> decodeArchiveId (JStr sid);
       x \<leftarrow> (case variant of None \<Rightarrow> Some None | Some w \<Rightarrow> map_option Some (decodeArchiveId (JStr w)));
       Some (b, i, x) })) (\<lambda>(b, i, x).
     sum_bind (control (JObj (obj_of [(''binding'', Some (binding_value b)), (''session_id'', Some (JStr i)), (''variant_id'', map_option JStr x)]))) (\<lambda>payload.
     client_exchange json origin server ''/v1/download'' payload ''application/octet-stream'' (nat MAX_ARCHIVE_BYTES) (\<lambda>response bytes.
       sum_bind (snapshot_header json response) (\<lambda>snapshot.
       sum_bind (contentLength ''archive'' response) (\<lambda>declared.
       if sameArchiveBinding b (rev_binding (session_revision snapshot)) \<and> session_id snapshot = i \<and> variant_id snapshot = x
         \<and> (x = None \<or> session_metadata snapshot \<noteq> None) \<and> map_option int declared = Some (session_byte_length snapshot)
         \<and> int (length bytes) = session_byte_length snapshot \<and> sha256 bytes = session_sha256 snapshot
       then Inr (snapshot, bytes) else Inl archive_protocol_error)))))"

section \<open>Laws\<close>

lemma digit64_index: "n < 64 \<Longrightarrow> the_default 0 (index_of (digit64 n) base64url_alphabet) = n"
proof -
  have "list_all (\<lambda>n. the_default 0 (index_of (digit64 n) base64url_alphabet) = n) [0..<64]" by code_simp
  then show "n < 64 \<Longrightarrow> ?thesis" by (simp add: list_all_iff)
qed

lemma base64url_digits_range: "list_all (\<lambda>a. a < 256) as \<Longrightarrow> list_all (\<lambda>n. n < 64) (base64url_digits as)"
  by (induction as rule: base64url_digits.induct) auto

lemma base64url_bytes_digits: "list_all (\<lambda>a. a < 256) as \<Longrightarrow> base64url_bytes (base64url_digits as) = as"
  by (induction as rule: base64url_digits.induct) (auto simp: div_mult2_eq)

lemma base64url_roundtrip: "fromBase64url (toBase64url b) = b"
proof -
  let ?as = "map unat b"
  have "unat x < 2 ^ LENGTH(8)" for x :: "8 word" by (rule unsigned_less)
  then have as: "list_all (\<lambda>a. a < 256) ?as" by (simp add: list_all_iff)
  have "map (\<lambda>c. the_default 0 (index_of c base64url_alphabet)) (map digit64 ns) = ns" if "list_all (\<lambda>n. n < 64) ns" for ns
    using that by (induction ns) (simp_all add: digit64_index)
  from this [OF base64url_digits_range [OF as]] have "map (\<lambda>c. the_default 0 (index_of c base64url_alphabet)) (map digit64 (base64url_digits ?as)) = base64url_digits ?as" .
  with as show ?thesis by (simp add: fromBase64url_def toBase64url_def base64url_bytes_digits comp_def)
qed

lemma client_error_simps [simp]:
  "err_code (new_ArchiveClientError m c u k d) = c" "err_kind (new_ArchiveClientError m c u k d) = k" "publicationUncertain (new_ArchiveClientError m c u k d) = u"
  "err_code (safeError e) = err_code e" "err_code archive_protocol_error = None"
  by (simp_all add: new_ArchiveClientError_def safeError_def archive_protocol_error_def ServerHttpError.defs ArchiveClientError.defs)

lemma localRequest_conv [simp]: "localRequest x = Inr y \<longleftrightarrow> x = Some y"
  by (auto simp: localRequest_def split: option.splits)

lemma localRequest_code: "localRequest x = Inl e \<Longrightarrow> err_code e = None"
  by (auto simp: localRequest_def split: option.splits)

lemma control_code: "control v = Inl e \<Longrightarrow> err_code e = None"
  by (auto simp: control_def Let_def dest: localRequest_code)

lemma decoded_json_code: "decoded_json json decode b = Inl e \<Longrightarrow> err_code e = None"
  by (auto simp: decoded_json_def sum_bind_Inl dest: transport_json_error split: option.splits)

lemma decoded_json_ok: "decoded_json json decode b = Inr x \<longleftrightarrow> (\<exists>v. json b = Some v \<and> decode v = Some x)"
  by (auto simp: decoded_json_def sum_bind_Inr transport_json_def split: option.splits)

text \<open>What a successful call read.\<close>

lemma transport_request_ok:
  assumes "transport_request json label url accept cap decode d = Inr x"
  shows "\<exists>response b. d = Responded response \<and> resp_status response = 200 \<and> response_body label url accept cap response = Inr b \<and> decode response b = Inr x"
  using assms by (auto simp: transport_request_def receive_def sum_bind_Inr split: delivery.splits if_splits)

lemma client_exchange_ok:
  assumes "client_exchange json origin server path payload accept cap decode = Inr x"
  shows "\<exists>response b. server path payload = Responded response \<and> resp_status response = 200 \<and> length b \<le> cap \<and> decode response b = Inr x"
proof -
  from assms have "transport_request json ''archive'' (origin @ path) accept cap decode (server path payload) = Inr x"
    by (auto simp: client_exchange_def transport_exchange_def sum_bind_Inr split: sum.splits)
  from transport_request_ok [OF this] show ?thesis using response_body_ok(3) by fastforce
qed

text \<open>The server gave this code in an answer to a request.\<close>

definition server_said :: "(body \<Rightarrow> js_value option) \<Rightarrow> (string \<Rightarrow> ServerHttpPayload \<Rightarrow> delivery) \<Rightarrow> ServerErrorCode \<Rightarrow> bool" where
  "server_said json server c \<longleftrightarrow> (\<exists>path payload response. server path payload = Responded response \<and> envelope json response c)"

lemma client_exchange_code:
  assumes "client_exchange json origin server path payload accept cap decode = Inl e" "err_code e = Some c"
    and "\<And>r b e. decode r b = Inl e \<Longrightarrow> err_code e = None"
  shows "server_said json server c"
proof -
  from assms(1,2) obtain e' where "transport_exchange json ''archive'' origin (server ''/v1/version'' no_payload) False path accept cap decode (server path payload) = Inl e'"
    "err_code e' = Some c"
    by (auto simp: client_exchange_def split: sum.splits)
  from transport_exchange_code [OF this] assms(3) show ?thesis by (auto simp: server_said_def)
qed

lemmas no_code = localRequest_code control_code decoded_json_code contentLength_error

lemma uncertain_mutation_conv [simp]: "uncertain_mutation r = Inr x \<longleftrightarrow> r = Inr x"
  by (auto simp: uncertain_mutation_def split: sum.splits)

lemma uncertain_mutation_code: "uncertain_mutation r = Inl e \<Longrightarrow> \<exists>e'. r = Inl e' \<and> err_code e = err_code e' \<and> publicationUncertain e"
  by (auto simp: uncertain_mutation_def split: sum.splits)

lemma snapshot_header_code: "snapshot_header json response = Inl e \<Longrightarrow> err_code e = None"
  by (auto simp: snapshot_header_def dest: decoded_json_code split: option.splits if_splits)

lemma same_publication_equal:
  assumes "decodeArchivePublication v strict = Some p" "decodeArchivePublication w strict' = Some q" "sameArchivePublication p q = Some b"
  shows "b \<longleftrightarrow> p = q"
proof -
  note p = decodeArchivePublication_again [OF assms(1)] and q = decodeArchivePublication_again [OF assms(2)]
  then have "publication_value p = publication_value q \<longleftrightarrow> p = q" by (metis option.inject)
  with p q assms(3) show ?thesis by (simp add: sameArchivePublication_def stringify_inject)
qed

lemma outcome_accepted:
  assumes "decode_outcome decode v = Some (Accepted r)"
  shows "\<exists>w. decode w = Some r"
  using assms by (auto simp: decode_outcome_def bind_eq_Some_conv split: if_splits)

lemma matchingOutcome_request:
  assumes "matchingOutcome p v = Some (Accepted r)" "decodeArchivePublication w strict = Some p"
  shows "receipt_request r = p"
proof -
  from assms(1) have "decode_outcome (\<lambda>x. decodeArchiveReceipt x False) v = Some (Accepted r)" and same: "sameArchivePublication (receipt_request r) p = Some True"
    by (auto simp: matchingOutcome_def decodeArchiveReceiptOutcome_def bind_eq_Some_conv)
  then obtain u where "decodeArchiveReceipt u False = Some r" using outcome_accepted by metis
  then obtain x where "decodeArchivePublication x False = Some (receipt_request r)"
    by (auto simp: decodeArchiveReceipt_def bind_eq_Some_conv)
  from same_publication_equal [OF this assms(2) same] show ?thesis by simp
qed

lemma preservation_receipt_request:
  assumes "decodeArchivePreservationReceipt v strict = Some r"
  shows "\<exists>w. decodeArchivePreservation w strict = Some (preserved_request r)"
  using assms unfolding decodeArchivePreservationReceipt_def bind_eq_Some_conv
  apply (elim exE conjE)
  subgoal for row request by (cases request) (auto simp: bind_eq_Some_conv)
  done

lemma matchingPreservationOutcome_request:
  assumes "matchingPreservationOutcome p v = Some (Accepted r)" "decodeArchivePreservation w strict = Some p"
  shows "preserved_request r = p"
proof -
  from assms(1) have "decode_outcome (\<lambda>x. decodeArchivePreservationReceipt x False) v = Some (Accepted r)" and same: "sameArchivePreservation (preserved_request r) p = Some True"
    by (auto simp: matchingPreservationOutcome_def decodeArchivePreservationReceiptOutcome_def bind_eq_Some_conv)
  then obtain u where "decodeArchivePreservationReceipt u False = Some r" using outcome_accepted by metis
  then obtain x where "decodeArchivePreservation x False = Some (preserved_request r)" using preservation_receipt_request by blast
  from sameArchivePreservation_iff_equal [OF this assms(2)] same show ?thesis by simp
qed

lemma accepted_only_conv [simp]: "accepted_only x = Some r \<longleftrightarrow> x = Some (Accepted r)"
  by (auto simp: accepted_only_def split: option.splits outcome.splits)

lemma upload_payload_ok: "upload_payload sha256 h v len sha b = Some payload \<Longrightarrow> payload_body payload = Some b \<and> int (length b) = len \<and> sha256 b = sha"
  by (auto simp: upload_payload_def bind_eq_Some_conv)

text \<open>What is published are the bytes the request describes, and the receipt is one for that request.\<close>

lemma client_publish_ok:
  assumes "client_publish sha256 json origin server request b = Inr r"
  shows "decodeArchivePublication (publication_value request) True = Some (receipt_request r)"
    "int (length b) = pub_byte_length (receipt_request r)" "sha256 b = pub_sha256 (receipt_request r)"
proof -
  from assms obtain p payload where p: "decodeArchivePublication (publication_value request) True = Some p" "publish_payload sha256 p b = Some payload"
    and x: "client_exchange json origin server ''/v1/publish'' payload ''application/json'' CONTROL_BYTES
      (\<lambda>_ bytes. decoded_json json (\<lambda>v. accepted_only (matchingOutcome p v)) bytes) = Inr r"
    by (auto simp: client_publish_def sum_bind_Inr bind_eq_Some_conv)
  from client_exchange_ok [OF x] obtain v where "matchingOutcome p v = Some (Accepted r)" by (auto simp: decoded_json_ok)
  then have "receipt_request r = p" using p(1) by (rule matchingOutcome_request)
  with p show "decodeArchivePublication (publication_value request) True = Some (receipt_request r)"
    "int (length b) = pub_byte_length (receipt_request r)" "sha256 b = pub_sha256 (receipt_request r)"
    by (auto simp: publish_payload_def bind_eq_Some_conv dest: upload_payload_ok)
qed

lemma client_preserve_ok:
  assumes "client_preserve sha256 json origin server request b = Inr r"
  shows "decodeArchivePreservation (preservation_value request) True = Some (preserved_request r)"
proof -
  from assms obtain p payload where p: "decodeArchivePreservation (preservation_value request) True = Some p"
    and x: "client_exchange json origin server ''/v1/preserve'' payload ''application/json'' CONTROL_BYTES
      (\<lambda>_ bytes. decoded_json json (\<lambda>v. accepted_only (matchingPreservationOutcome p v)) bytes) = Inr r"
    by (auto simp: client_preserve_def sum_bind_Inr bind_eq_Some_conv)
  from client_exchange_ok [OF x] obtain v where "matchingPreservationOutcome p v = Some (Accepted r)" by (auto simp: decoded_json_ok)
  with p show ?thesis using matchingPreservationOutcome_request by blast
qed

lemma client_receipt_ok:
  assumes "client_receipt json origin server request = Inr (Accepted r)"
  shows "decodeArchivePublication (publication_value request) True = Some (receipt_request r)"
proof -
  from assms obtain p payload where p: "decodeArchivePublication (publication_value request) True = Some p"
    and x: "client_exchange json origin server ''/v1/receipt'' payload ''application/json'' CONTROL_BYTES (\<lambda>_ bytes. decoded_json json (matchingOutcome p) bytes) = Inr (Accepted r)"
    by (auto simp: client_receipt_def sum_bind_Inr)
  from client_exchange_ok [OF x] obtain v where "matchingOutcome p v = Some (Accepted r)" by (auto simp: decoded_json_ok)
  with p show ?thesis using matchingOutcome_request by blast
qed

text \<open>A download returns exactly the session that was asked for: the snapshot is one of that binding, session and variant, and
  the bytes have the length and the digest that the snapshot states and fit the size limit.\<close>

lemma download_is_snapshot:
  assumes "client_download sha256 json origin server binding sid variant = Inr (snapshot, bytes)"
  shows "session_id snapshot = sid \<and> rev_binding (session_revision snapshot) = binding \<and> variant_id snapshot = variant
    \<and> int (length bytes) = session_byte_length snapshot \<and> sha256 bytes = session_sha256 snapshot \<and> int (length bytes) \<le> MAX_ARCHIVE_BYTES"
proof -
  from assms obtain b i x payload where req: "decodeArchiveBinding (binding_value binding) True = Some b" "decodeArchiveId (JStr sid) = Some i"
      "(case variant of None \<Rightarrow> Some None | Some w \<Rightarrow> map_option Some (decodeArchiveId (JStr w))) = Some x"
    and call: "client_exchange json origin server ''/v1/download'' payload ''application/octet-stream'' (nat MAX_ARCHIVE_BYTES) (\<lambda>response bytes.
       sum_bind (snapshot_header json response) (\<lambda>snapshot. sum_bind (contentLength ''archive'' response) (\<lambda>declared.
       if sameArchiveBinding b (rev_binding (session_revision snapshot)) \<and> session_id snapshot = i \<and> variant_id snapshot = x
         \<and> (x = None \<or> session_metadata snapshot \<noteq> None) \<and> map_option int declared = Some (session_byte_length snapshot)
         \<and> int (length bytes) = session_byte_length snapshot \<and> sha256 bytes = session_sha256 snapshot
       then Inr (snapshot, bytes) else Inl archive_protocol_error))) = Inr (snapshot, bytes)"
    by (auto simp: client_download_def sum_bind_Inr bind_eq_Some_conv split: prod.splits)
  have "b = binding" using req(1) by (auto simp: decodeArchiveBinding_def binding_value_def bind_eq_Some_conv prop_of_def decodeArchiveId_def archive_text_def split: if_splits)
  moreover have "i = sid" using req(2) by (auto simp: decodeArchiveId_def archive_text_def split: if_splits)
  moreover have "x = variant" using req(3) by (auto simp: decodeArchiveId_def archive_text_def split: option.splits if_splits)
  ultimately show ?thesis using client_exchange_ok [OF call] by (auto simp: sum_bind_Inr MAX_ARCHIVE_BYTES_def split: if_splits)
qed

text \<open>The code of a failed publication or preservation, on which the worker decides whether the request was refused, is never
  guessed from a status or a text: the server sent it, in an error envelope whose status and flags agree with it.\<close>

lemma refusal_comes_from_server:
  assumes "client_publish sha256 json origin server p b = Inl e \<or> client_preserve sha256 json origin server q b' = Inl e" "err_code e = Some c"
  shows "server_said json server c"
  using assms(1)
proof
  assume "client_publish sha256 json origin server p b = Inl e"
  with assms(2) show ?thesis unfolding client_publish_def
    by (force simp: sum_bind_Inl dest!: uncertain_mutation_code dest: no_code client_exchange_code)
next
  assume "client_preserve sha256 json origin server q b' = Inl e"
  with assms(2) show ?thesis unfolding client_preserve_def
    by (force simp: sum_bind_Inl dest!: uncertain_mutation_code dest: no_code client_exchange_code)
qed


end
