(* ===== verification/Archive_Reading.thy ===== *)
theory Archive_Reading
  imports Archive_Ancestry Archive_Json Archive_Reconciler
begin

text \<open>
  Reading one session file, \<open>src/src/server/ArchiveSessions.ts\<close>: the snapshot that did not change while it was read, and the
  identity and metadata that its lines give.  What the file system answers in one attempt is an \<open>Attempt\<close>.  Decoding of
  UTF-8 is the argument \<open>decode\<close>, which gives the text and whether the last character is cut short, and \<open>None\<close> for
  bytes that are not UTF-8; \<open>JSON.parse\<close> of a line is the argument \<open>json\<close>.
\<close>

section \<open>Failures\<close>

datatype ArchiveSourceFailure = Missing | Changing | Invalid_source | Unreadable

datatype fs_error = ENOENT | ELOOP | ENOTDIR | Other_errno

fun fromFilesystem :: "fs_error \<Rightarrow> ArchiveSourceFailure" where
  "fromFilesystem ENOENT = Missing"
| "fromFilesystem ELOOP = Invalid_source"
| "fromFilesystem ENOTDIR = Invalid_source"
| "fromFilesystem Other_errno = Unreadable"

definition fs_result :: "fs_error + 'a \<Rightarrow> ArchiveSourceFailure + 'a" where
  "fs_result r = (case r of Inl e \<Rightarrow> Inl (fromFilesystem e) | Inr x \<Rightarrow> Inr x)"

section \<open>A stable snapshot\<close>

record FileStat =
  stat_file :: bool
  stat_dev :: nat
  stat_ino :: nat
  stat_size :: nat
  stat_mtime :: nat
  stat_ctime :: nat

text \<open>The results of the calls of one attempt, in their order: \<open>lstat\<close>, \<open>realpath\<close>, \<open>open\<close> and \<open>stat\<close> on the handle, reading
  up to the size, reading one byte more, and the three calls afterwards.\<close>

record Attempt =
  at_lstat :: "fs_error + FileStat"
  at_realpath :: "fs_error + string"
  at_open :: "fs_error + FileStat"
  at_read :: "fs_error + body"
  at_probe :: "fs_error + nat"
  at_after :: "fs_error + FileStat"
  at_named :: "fs_error + FileStat"
  at_original :: "fs_error + FileStat"

definition same_file :: "FileStat \<Rightarrow> FileStat \<Rightarrow> bool" where
  "same_file a b \<longleftrightarrow> stat_dev a = stat_dev b \<and> stat_ino a = stat_ino b"

definition same_version :: "FileStat \<Rightarrow> FileStat \<Rightarrow> bool" where
  "same_version a b \<longleftrightarrow> same_file a b \<and> stat_size a = stat_size b \<and> stat_mtime a = stat_mtime b \<and> stat_ctime a = stat_ctime b"

text \<open>After the file was opened: \<open>Some\<close> of the body when nothing changed.\<close>

definition read_opened :: "string \<Rightarrow> string \<Rightarrow> Attempt \<Rightarrow> FileStat \<Rightarrow> FileStat \<Rightarrow> ArchiveSourceFailure + body option" where
  "read_opened file canonical a original before = (let changed = (\<not> same_file original before) in
     if \<not> stat_file before then Inl Invalid_source
     else if MAX_ARCHIVE_BYTES < int (stat_size before) then Inl Invalid_source
     else sum_bind (if changed then Inr [] else sum_bind (fs_result (at_read a)) (\<lambda>b. Inr (take (stat_size before) b))) (\<lambda>bytes.
       sum_bind (if changed then Inr 0 else fs_result (at_probe a)) (\<lambda>extra.
       sum_bind (fs_result (at_after a)) (\<lambda>after. sum_bind (fs_result (at_named a)) (\<lambda>named.
       sum_bind (if canonical = file then Inr named else fs_result (at_original a)) (\<lambda>originalName.
       Inr (if changed \<or> \<not> stat_file originalName \<or> \<not> same_file named originalName \<or> length bytes \<noteq> stat_size before \<or> extra \<noteq> 0 \<or> \<not> stat_file named
           \<or> \<not> same_version before after \<or> \<not> same_version after named then None else Some bytes)))))))"

text \<open>One attempt: the failure with whether the file had been observed, or the body if it was stable.\<close>

definition read_attempt :: "string \<Rightarrow> Attempt \<Rightarrow> (ArchiveSourceFailure \<times> bool) + body option" where
  "read_attempt file a = (case at_lstat a of
     Inl e \<Rightarrow> Inl (fromFilesystem e, False)
   | Inr original \<Rightarrow> if \<not> stat_file original then Inl (Invalid_source, True)
     else (case at_realpath a of
         Inl e \<Rightarrow> Inl (fromFilesystem e, True)
       | Inr canonical \<Rightarrow> (case at_open a of
           Inl e \<Rightarrow> Inl (fromFilesystem e, True)
         | Inr before \<Rightarrow> (case read_opened file canonical a original before of Inl e \<Rightarrow> Inl (e, True) | Inr r \<Rightarrow> Inr r))))"

fun read_attempts :: "string \<Rightarrow> bool \<Rightarrow> Attempt list \<Rightarrow> ArchiveSourceFailure + body" where
  "read_attempts file sawChange [] = Inl Changing"
| "read_attempts file sawChange (a # as) = (case read_attempt file a of
     Inr (Some b) \<Rightarrow> Inr b
   | Inr None \<Rightarrow> read_attempts file True as
   | Inl (failure, observed) \<Rightarrow> if failure = Missing \<and> (observed \<or> sawChange) then read_attempts file True as else Inl failure)"

definition readStable :: "string \<Rightarrow> Attempt list \<Rightarrow> ArchiveSourceFailure + body" where
  "readStable file as = read_attempts file False (take 3 as)"

section \<open>Lines\<close>

text \<open>\<open>Date.parse\<close> reads at most three digits of a fraction.\<close>

definition shorten_fraction :: "string \<Rightarrow> string" where
  "shorten_fraction s = (case drop 19 s of
     [] \<Rightarrow> s
   | c # r \<Rightarrow> if c = CHR ''.'' then take 19 s @ [c] @ take 3 (takeWhile is_digit r) @ dropWhile is_digit r else s)"

definition persistedTime :: "js_value \<Rightarrow> int option" where
  "persistedTime v = (case v of
     JStr s \<Rightarrow> do { t \<leftarrow> parse_millis (shorten_fraction s); guard (0 \<le> t \<and> t \<le> 253402300799999); Some t }
   | _ \<Rightarrow> None)"

fun text_prefix :: "nat \<Rightarrow> string \<Rightarrow> string" where
  "text_prefix n [] = []"
| "text_prefix n (c # s) = (let size = byte_length [c] in if size \<le> n then c # text_prefix (n - size) s else [])"

definition shortTitle :: "string \<Rightarrow> string option" where
  "shortTitle s = (let r = text_prefix 256 (js_trim (filter (\<lambda>c. \<not> control_char c) s)) in if r = [] then None else Some r)"

definition is_record :: "js_value \<Rightarrow> (string \<times> js_value) list option" where
  "is_record v = (case v of JObj row \<Rightarrow> Some row | _ \<Rightarrow> None)"

definition text_blocks :: "js_value list \<Rightarrow> string list" where
  "text_blocks vs = List.map_filter (\<lambda>v. do { b \<leftarrow> is_record v; guard (prop_of b ''type'' = JStr ''text''); js_text (prop_of b ''text'') }) vs"

definition userText :: "js_value \<Rightarrow> string" where
  "userText v = (case v of JStr s \<Rightarrow> s | JArr vs \<Rightarrow> join_with '' '' (text_blocks vs) | _ \<Rightarrow> [])"

definition tool_call_blocks :: "js_value \<Rightarrow> nat" where
  "tool_call_blocks v = (case v of JArr vs \<Rightarrow> length (filter (\<lambda>b. case is_record b of Some row \<Rightarrow> prop_of row ''type'' = JStr ''toolCall'' | None \<Rightarrow> False) vs) | _ \<Rightarrow> 0)"

record ParseState =
  ps_head :: "((string \<times> js_value) list \<times> SessionIdentity) option"
  ps_started :: "string option"
  ps_last :: "int option"
  ps_first :: "string option"
  ps_name :: "string option"
  ps_counts :: SessionCounts

definition parse_start :: ParseState where
  "parse_start = \<lparr>ps_head = None, ps_started = None, ps_last = None, ps_first = None, ps_name = None,
     ps_counts = \<lparr>user_messages = 0, assistant_messages = 0, tool_calls = 0\<rparr>\<rparr>"

definition parse_header :: "(string \<times> js_value) list \<Rightarrow> ParseState \<Rightarrow> ArchiveSourceFailure + ParseState" where
  "parse_header row ps = (case native_id (prop_of row ''id'') of
     Some i \<Rightarrow> if prop_of row ''type'' = JStr ''session'' \<and> (prop_of row ''version'' = JUndefined \<or> (case prop_of row ''version'' of JInt n \<Rightarrow> 1 \<le> n | _ \<Rightarrow> False))
       then Inr (ps\<lparr>ps_head := Some (row, new_SessionIdentity i),
         ps_started := map_option (\<lambda>t. toISOString (nat t)) (persistedTime (prop_of row ''timestamp'')), ps_last := persistedTime (prop_of row ''timestamp'')\<rparr>)
       else Inl Invalid_source
   | None \<Rightarrow> Inl Invalid_source)"

definition count_message :: "(string \<times> js_value) list \<Rightarrow> ParseState \<Rightarrow> ParseState" where
  "count_message message ps = (let counts = ps_counts ps in
     if prop_of message ''role'' = JStr ''user'' then
       ps\<lparr>ps_counts := counts\<lparr>user_messages := user_messages counts + 1\<rparr>,
          ps_first := (case ps_first ps of Some t \<Rightarrow> Some t | None \<Rightarrow> shortTitle (userText (prop_of message ''content'')))\<rparr>
     else if prop_of message ''role'' = JStr ''assistant'' then
       ps\<lparr>ps_counts := counts\<lparr>assistant_messages := assistant_messages counts + 1,
          tool_calls := tool_calls counts + int (tool_call_blocks (prop_of message ''content''))\<rparr>\<rparr>
     else ps)"

definition parse_entry :: "(string \<times> js_value) list \<Rightarrow> ParseState \<Rightarrow> ArchiveSourceFailure + ParseState" where
  "parse_entry row ps = (if prop_of row ''type'' = JStr ''session'' then Inl Invalid_source else let
     ps = (case persistedTime (prop_of row ''timestamp'') of None \<Rightarrow> ps | Some t \<Rightarrow> ps\<lparr>ps_last := Some (case ps_last ps of None \<Rightarrow> t | Some l \<Rightarrow> max l t)\<rparr>);
     ps = (if prop_of row ''type'' = JStr ''session_info'' then ps\<lparr>ps_name := (case prop_of row ''name'' of JStr s \<Rightarrow> shortTitle s | _ \<Rightarrow> None)\<rparr> else ps);
     ps = (case prop_of row ''customType'' of
         JStr c \<Rightarrow> if prop_of row ''type'' = JStr ''custom'' then ps\<lparr>ps_head := map_option (\<lambda>(h, s). (h, applyRecord s (c, prop_of row ''data''))) (ps_head ps)\<rparr> else ps
       | _ \<Rightarrow> ps) in
     Inr (case (prop_of row ''type'', prop_of row ''message'') of (JStr t, JObj message) \<Rightarrow> if t = ''message'' then count_message message ps else ps | _ \<Rightarrow> ps))"

definition parse_line :: "(string \<Rightarrow> js_value option) \<Rightarrow> bool \<Rightarrow> string \<Rightarrow> ParseState \<Rightarrow> ArchiveSourceFailure + ParseState" where
  "parse_line json final line ps = (if final \<and> js_trim line = [] then Inr ps
     else case json line of
       None \<Rightarrow> Inl (if final \<and> isIncompleteArchiveJsonPrefix line then Changing else Invalid_source)
     | Some v \<Rightarrow> (case is_record v of
         None \<Rightarrow> Inl Invalid_source
       | Some row \<Rightarrow> if js_text (prop_of row ''type'') = None then Inl Invalid_source
           else if ps_head ps = None then parse_header row ps else parse_entry row ps))"

fun parse_lines :: "(string \<Rightarrow> js_value option) \<Rightarrow> string list \<Rightarrow> ParseState \<Rightarrow> ArchiveSourceFailure + ParseState" where
  "parse_lines json [] ps = Inr ps"
| "parse_lines json (l # ls) ps = sum_bind (parse_line json (ls = []) l ps) (parse_lines json ls)"

definition parsed_metadata :: "ParseState \<Rightarrow> ArchiveMetadata" where
  "parsed_metadata ps = \<lparr>meta_kind = None, root_session_id = None, meta_title = (case ps_name ps of Some t \<Rightarrow> Some t | None \<Rightarrow> ps_first ps), started_at = ps_started ps,
     last_activity_at = map_option (\<lambda>t. toISOString (nat t)) (ps_last ps), meta_counts = Some (ps_counts ps), meta_summary = None\<rparr>"

definition parsed_entry :: "string \<Rightarrow> (string \<times> js_value) list \<Rightarrow> SessionIdentity \<Rightarrow> ArchiveSourceEvidence" where
  "parsed_entry file header session = \<lparr>evidence_file = file,
     evidence_parent = (case prop_of header ''parentSession'' of JStr s \<Rightarrow> if byte_length s \<le> 4096 then Some s else None | _ \<Rightarrow> None),
     evidence_session = captureArchiveSourceIdentity session\<rparr>"

definition parse_session :: "(body \<Rightarrow> (string \<times> bool) option) \<Rightarrow> (string \<Rightarrow> js_value option) \<Rightarrow> string \<Rightarrow> body \<Rightarrow> ArchiveSourceFailure + (ArchiveSourceEvidence \<times> ArchiveMetadata)" where
  "parse_session decode json file b = (if b = [] then Inl Changing else case decode b of
     None \<Rightarrow> Inl Invalid_source
   | Some (t, incompleteUtf8) \<Rightarrow> sum_bind (parse_lines json (split_on (CHR 0x0A) t) parse_start) (\<lambda>ps.
       if incompleteUtf8 then Inl Changing
       else case ps_head ps of
         None \<Rightarrow> Inl (if suffix [CHR 0x0A] t then Invalid_source else Changing)
       | Some (header, session) \<Rightarrow> Inr (parsed_entry file header session, parsed_metadata ps)))"

section \<open>Capturing a source file\<close>

record CapturedSource =
  csrc_evidence :: ArchiveSourceEvidence
  csrc_body :: body
  csrc_metadata :: ArchiveMetadata
  csrc_capture :: SourceCapture

definition with_family :: "Family option \<Rightarrow> ArchiveMetadata \<Rightarrow> ArchiveMetadata" where
  "with_family f m = (case f of None \<Rightarrow> m | Some x \<Rightarrow> m\<lparr>meta_kind := Some (family_kind x), root_session_id := Some (family_root x)\<rparr>)"

definition capture_file :: "(body \<Rightarrow> (string \<times> bool) option) \<Rightarrow> (string \<Rightarrow> js_value option) \<Rightarrow> string \<Rightarrow> ArchiveSourceScope \<Rightarrow> string \<Rightarrow> Attempt list \<Rightarrow> ArchiveSourceEvidence list
    \<Rightarrow> ArchiveSourceFailure + CapturedSource" where
  "capture_file decode json wd source file as evidence = (if \<not> ownsFile source file then Inl Invalid_source
     else sum_bind (readStable file as) (\<lambda>b. sum_bind (parse_session decode json file b) (\<lambda>(entry, m).
       let c = captureSource source wd entry evidence in
       Inr \<lparr>csrc_evidence = entry, csrc_body = b, csrc_metadata = with_family (captured_family c) m, csrc_capture = c\<rparr>)))"

section \<open>The body was stable\<close>

lemma fs_result_Inr [simp]: "fs_result r = Inr x \<longleftrightarrow> r = Inr x"
  by (auto simp: fs_result_def split: sum.splits)

text \<open>The attempt saw one version of one regular file, from before the first byte was read to after the last.\<close>

definition saw_stable :: "Attempt \<Rightarrow> body \<Rightarrow> bool" where
  "saw_stable a b \<longleftrightarrow> (\<exists>original before after named bytes.
     at_lstat a = Inr original \<and> at_open a = Inr before \<and> at_after a = Inr after \<and> at_named a = Inr named \<and> at_read a = Inr bytes \<and> at_probe a = Inr 0
     \<and> stat_file before \<and> stat_file named \<and> same_file original before \<and> same_version before after \<and> same_version after named
     \<and> b = take (stat_size before) bytes \<and> length b = stat_size before \<and> int (length b) \<le> MAX_ARCHIVE_BYTES)"

lemma read_attempt_stable: "read_attempt file a = Inr (Some b) \<Longrightarrow> saw_stable a b"
  by (auto simp: read_attempt_def read_opened_def saw_stable_def Let_def sum_bind_Inr split: sum.splits if_splits)

lemma read_attempts_stable: "read_attempts file sawChange as = Inr b \<Longrightarrow> \<exists>a \<in> set as. saw_stable a b"
  by (induction as arbitrary: sawChange) (auto dest: read_attempt_stable split: sum.splits option.splits prod.splits if_splits)

text \<open>The body of a captured source is one that the file had at one time: one of at most three attempts read all of it, and
  nothing behind it, from the same version of the same regular file, and it is at most 64 MiB long.\<close>

lemma captured_body_was_stable:
  assumes "capture_file decode json wd source file as evidence = Inr c"
  shows "ownsFile source file \<and> (\<exists>a \<in> set (take 3 as). saw_stable a (csrc_body c))"
  using assms by (auto simp: capture_file_def readStable_def Let_def sum_bind_Inr dest!: read_attempts_stable split: if_splits)

section \<open>The metadata is wire metadata\<close>

lemma byte_length_simps [simp]: "byte_length [] = 0" "byte_length (c # s) = (if (of_char c :: nat) < 128 then 1 else 2) + byte_length s"
    "byte_length (s @ t) = byte_length s + byte_length t"
  by (simp_all add: byte_length_def)

lemma byte_length_ascii: "list_all (\<lambda>c. (of_char c :: nat) < 128) s \<Longrightarrow> byte_length s = length s"
  by (induction s) auto

lemma text_prefix_spec: "prefix (text_prefix n s) s \<and> byte_length (text_prefix n s) \<le> n"
  by (induction n s rule: text_prefix.induct) (auto simp: Let_def)

lemma trimmed_hd:
  assumes "prefix t (js_trim s)" "t \<noteq> []"
  shows "\<not> is_ws (hd t)"
proof -
  have "suffix (dropWhile is_ws (rev (dropWhile is_ws s))) (rev (dropWhile is_ws s))" by (rule suffix_dropWhile)
  then have "prefix (js_trim s) (dropWhile is_ws s)" by (simp add: js_trim_def suffix_to_prefix)
  with assms have "prefix t (dropWhile is_ws s)" by (metis prefix_order.trans)
  then obtain zs where zs: "dropWhile is_ws s = t @ zs" by (auto simp: prefix_def)
  with assms(2) have "\<not> is_ws (hd (dropWhile is_ws s))" by (intro hd_dropWhile) auto
  with zs assms(2) show ?thesis by simp
qed

lemma shortTitle_text: "shortTitle s = Some t \<Longrightarrow> archive_text 256 True True (JStr t) = Some t"
proof -
  let ?clean = "js_trim (filter (\<lambda>c. \<not> control_char c) s)"
  assume t: "shortTitle s = Some t"
  then have p: "t = text_prefix 256 ?clean" "t \<noteq> []" by (auto simp: shortTitle_def Let_def split: if_splits)
  with text_prefix_spec [of 256 ?clean] have pre: "prefix t ?clean" "byte_length t \<le> 256" by auto
  have "set ?clean \<subseteq> set (filter (\<lambda>c. \<not> control_char c) s)"
    unfolding js_trim_def by (metis set_dropWhileD set_rev subsetI)
  with pre(1) have "\<not> list_ex control_char t" by (auto simp: list_ex_iff dest: set_mono_prefix)
  moreover have "\<not> is_ws (hd t)"
    by (rule trimmed_hd [OF pre(1) p(2)])
  then have "js_trim t \<noteq> []" using p(2) by (cases t) (auto simp: js_trim_def dropWhile_eq_Nil_conv)
  ultimately show ?thesis using pre(2) p(2) by (simp add: archive_text_def)
qed

text \<open>A time that the program writes.\<close>

definition written_time :: "string \<Rightarrow> int \<Rightarrow> bool" where
  "written_time s t \<longleftrightarrow> 0 \<le> t \<and> t \<le> 253402300799999 \<and> s = toISOString (nat t)"

lemma written_time_parse: "written_time s t \<Longrightarrow> parse_millis s = Some t"
  using parse_toISOString [of "nat t"] by (auto simp: written_time_def)

lemma written_time_value: "written_time s t \<Longrightarrow> timestamp_value (JStr s) = Some s"
  by (simp add: timestamp_value_def timestamp_def written_time_parse) (simp add: written_time_def)

lemma persistedTime_range: "persistedTime v = Some t \<Longrightarrow> 0 \<le> t \<and> t \<le> 253402300799999"
  by (auto simp: persistedTime_def bind_eq_Some_conv split: js_value.splits)

definition title_ok :: "string option \<Rightarrow> bool" where
  "title_ok t = pred_option (\<lambda>s. archive_text 256 True True (JStr s) = Some s) t"

definition time_ok :: "string option \<Rightarrow> int option \<Rightarrow> bool" where
  "time_ok started latest = (pred_option (\<lambda>l. 0 \<le> l \<and> l \<le> 253402300799999) latest
     \<and> (case started of None \<Rightarrow> True | Some s \<Rightarrow> (case latest of None \<Rightarrow> False | Some l \<Rightarrow> \<exists>t \<le> l. written_time s t)))"

definition parse_ok :: "ParseState \<Rightarrow> bool" where
  "parse_ok ps \<longleftrightarrow> title_ok (ps_first ps) \<and> title_ok (ps_name ps) \<and> time_ok (ps_started ps) (ps_last ps)
     \<and> 0 \<le> user_messages (ps_counts ps) \<and> 0 \<le> assistant_messages (ps_counts ps) \<and> 0 \<le> tool_calls (ps_counts ps)"

lemma title_ok_short [simp]: "title_ok (shortTitle s)" "title_ok None"
  by (cases "shortTitle s") (auto simp: title_ok_def shortTitle_text)

lemma header_time_ok: "time_ok (map_option (\<lambda>t. toISOString (nat t)) (persistedTime v)) (persistedTime v)"
  by (cases "persistedTime v") (auto simp: time_ok_def written_time_def dest: persistedTime_range)

lemma parse_header_ok: "parse_ok ps \<Longrightarrow> parse_header row ps = Inr ps' \<Longrightarrow> parse_ok ps'"
  by (auto simp: parse_header_def parse_ok_def header_time_ok split: option.splits if_splits)

lemma count_message_ok: "parse_ok ps \<Longrightarrow> parse_ok (count_message m ps)"
  by (auto simp: count_message_def parse_ok_def Let_def split: option.splits)

lemma later_ok: "time_ok s l \<Longrightarrow> persistedTime v = Some t \<Longrightarrow> time_ok s (Some (case l of None \<Rightarrow> t | Some l \<Rightarrow> max l t))"
  by (cases s; cases l) (auto simp: time_ok_def max_def dest: persistedTime_range intro: order_trans)

lemma parse_entry_ok:
  assumes "parse_ok ps" "parse_entry row ps = Inr ps'"
  shows "parse_ok ps'"
proof -
  define p1 where "p1 = (case persistedTime (prop_of row ''timestamp'') of None \<Rightarrow> ps | Some t \<Rightarrow> ps\<lparr>ps_last := Some (case ps_last ps of None \<Rightarrow> t | Some l \<Rightarrow> max l t)\<rparr>)"
  define p2 where "p2 = (if prop_of row ''type'' = JStr ''session_info'' then p1\<lparr>ps_name := (case prop_of row ''name'' of JStr s \<Rightarrow> shortTitle s | _ \<Rightarrow> None)\<rparr> else p1)"
  have "parse_ok p1" using assms(1) later_ok [of "ps_started ps" "ps_last ps"] by (cases "persistedTime (prop_of row ''timestamp'')") (auto simp: p1_def parse_ok_def)
  then have 2: "parse_ok p2" by (cases "prop_of row ''name''") (auto simp: p2_def parse_ok_def)
  then have "parse_ok (p2\<lparr>ps_head := h\<rparr>)" for h by (simp add: parse_ok_def)
  with 2 assms(2) count_message_ok show ?thesis
    unfolding parse_entry_def Let_def p1_def [symmetric] p2_def [symmetric] by (auto split: if_splits js_value.splits)
qed

lemma parse_line_ok: "parse_ok ps \<Longrightarrow> parse_line json final l ps = Inr ps' \<Longrightarrow> parse_ok ps'"
  by (auto simp: parse_line_def dest: parse_header_ok parse_entry_ok split: if_splits option.splits)

lemma parse_lines_ok: "parse_ok ps \<Longrightarrow> parse_lines json ls ps = Inr ps' \<Longrightarrow> parse_ok ps'"
  by (induction ls arbitrary: ps) (auto simp: sum_bind_Inr dest: parse_line_ok)

lemma parse_start_ok: "parse_ok parse_start"
  by (simp add: parse_ok_def parse_start_def time_ok_def)

lemma quote_bytes: "\<not> list_ex control_char s \<Longrightarrow> byte_length (quote s) \<le> 2 * byte_length s + 2"
proof -
  have "byte_length (concat (map quote_char s)) \<le> 2 * byte_length s" if "\<not> list_ex control_char s"
    using that by (induction s) (auto simp: quote_char_def control_char_def)
  then show "\<not> list_ex control_char s \<Longrightarrow> ?thesis" by (simp add: quote_def)
qed

lemma join_bytes: "byte_length (join_with '','' xs) \<le> sum_list (map (\<lambda>x. byte_length x + 1) xs)"
  by (induction "'',''" xs rule: join_with.induct) auto

definition prop_bytes :: "string \<times> js_value option \<Rightarrow> nat" where
  "prop_bytes p = (case p of (k, v) \<Rightarrow> (case v of None \<Rightarrow> 0 | Some x \<Rightarrow> byte_length (quote k) + byte_length (stringify x) + 2))"

lemma object_bytes: "byte_length (stringify (JObj (obj_of ps))) \<le> 2 + sum_list (map prop_bytes ps)"
proof -
  have "sum_list (map (\<lambda>x. byte_length x + 1) (stringify_props (obj_of ps))) \<le> sum_list (map prop_bytes ps)"
    by (induction ps rule: obj_of.induct) (auto simp: prop_bytes_def)
  with join_bytes [of "stringify_props (obj_of ps)"] show ?thesis by simp
qed

lemma digit_plain: "(of_char (digit_char (n mod 10)) :: nat) < 128" "\<not> control_char (digit_char (n mod 10))"
  using of_char_digit_char [of "n mod 10"] by (simp_all add: control_char_def Let_def)

lemma show_nat_bytes: "n < 10 ^ k \<Longrightarrow> 0 < k \<Longrightarrow> byte_length (show_nat n) \<le> k"
proof (induction k arbitrary: n)
  case (Suc k)
  show ?case
  proof (cases "n < 10")
    case False
    with Suc.prems have "n div 10 < 10 ^ k" "0 < k" by (auto simp: less_mult_imp_div_less mult.commute) (cases k; simp)
    with Suc.IH [of "n div 10"] False show ?thesis by (subst show_nat.simps) (simp add: digit_plain del: of_char_digit_char)
  next
    case True
    then show ?thesis using digit_plain(1) [of n] by (subst show_nat.simps) simp
  qed
qed simp

lemma count_bytes: "0 \<le> i \<Longrightarrow> i \<le> int MAX_SAFE_INTEGER \<Longrightarrow> byte_length (stringify (JInt i)) \<le> 16"
  using show_nat_bytes [of "nat i" 16] by (simp add: MAX_SAFE_INTEGER_def)

lemma control_plain: "\<not> control_char (CHR ''-'')" "\<not> control_char (CHR ''T'')" "\<not> control_char (CHR '':'')" "\<not> control_char (CHR ''.'')" "\<not> control_char (CHR ''Z'')"
  by code_simp+

lemma iso_bytes: "byte_length (toISOString t) = 24 \<and> \<not> list_ex control_char (toISOString t)"
proof -
  have "byte_length (iso_text a b c d e f g) = 24 \<and> \<not> list_ex control_char (iso_text a b c d e f g)" for a b c d e f g
    by (simp add: iso_text_def pad4_def pad3_def pad2_def digit_plain control_plain del: of_char_digit_char)
  then show ?thesis by (simp add: toISOString_def Let_def split: prod.splits)
qed

lemma time_bytes: "written_time s t \<Longrightarrow> byte_length (stringify (JStr s)) \<le> 50"
  using iso_bytes [of "nat t"] quote_bytes [of s] by (auto simp: written_time_def)

lemma text_value_bytes: "archive_text n True b (JStr s) = Some s \<Longrightarrow> byte_length (stringify (JStr s)) \<le> 2 * n + 2"
  using quote_bytes [of s] by (auto simp: archive_text_def split: if_splits)

lemma key_bytes: "byte_length (quote ''kind'') = 6" "byte_length (quote ''root_session_id'') = 17" "byte_length (quote ''title'') = 7" "byte_length (quote ''started_at'') = 12"
    "byte_length (quote ''last_activity_at'') = 18" "byte_length (quote ''counts'') = 8" "byte_length (quote ''user_messages'') = 15" "byte_length (quote ''assistant_messages'') = 20"
    "byte_length (quote ''tool_calls'') = 12"
  by code_simp+

lemma kind_bytes: "byte_length (quote (sessionKindValue k)) \<le> 17"
proof -
  have "list_all (\<lambda>k. byte_length (quote (sessionKindValue k)) \<le> 17) [Main, Subagent, PolicyApprover]" by code_simp
  then show ?thesis by (cases k) simp_all
qed

lemma counts_bytes:
  assumes "0 \<le> user_messages c" "user_messages c \<le> int MAX_SAFE_INTEGER" "0 \<le> assistant_messages c" "assistant_messages c \<le> int MAX_SAFE_INTEGER"
    "0 \<le> tool_calls c" "tool_calls c \<le> int MAX_SAFE_INTEGER"
  shows "byte_length (stringify (counts_value c)) \<le> 103"
  using object_bytes [of "[(''user_messages'', Some (JInt (user_messages c))), (''assistant_messages'', Some (JInt (assistant_messages c))), (''tool_calls'', Some (JInt (tool_calls c)))]"]
    count_bytes [OF assms(1,2)] count_bytes [OF assms(3,4)] count_bytes [OF assms(5,6)]
  by (simp add: counts_value_def prop_bytes_def key_bytes del: stringify.simps(4))

lemma opt_prop_value:
  assumes "pred_option (\<lambda>x. f (g x) = Some x) p" "\<And>x. present (g x)"
  shows "opt_prop f (case map_option g p of None \<Rightarrow> JUndefined | Some w \<Rightarrow> w) = Some p"
  using assms by (cases p) (simp_all add: opt_prop_def)

lemma wire_metadata:
  assumes "pred_option (\<lambda>s. decodeArchiveId (JStr s) = Some s) (root_session_id m)" "pred_option (\<lambda>s. archive_text 256 True True (JStr s) = Some s) (meta_title m)"
    "pred_option (\<lambda>s. timestamp_value (JStr s) = Some s) (started_at m)" "pred_option (\<lambda>s. timestamp_value (JStr s) = Some s) (last_activity_at m)"
    "pred_option (\<lambda>c. decodeCounts True (counts_value c) = Some c) (meta_counts m)" "meta_summary m = None"
    and g: "meta_kind m \<noteq> Some Main \<or> root_session_id m = Some sid"
      "meta_kind m \<noteq> Some Subagent \<and> meta_kind m \<noteq> Some PolicyApprover \<or> (root_session_id m \<noteq> None \<and> root_session_id m \<noteq> Some sid)"
      "time_ordered (started_at m) (last_activity_at m)" "byte_length (stringify (metadata_value m)) \<le> 2048"
  shows "decodeArchiveMetadata (metadata_value m) sid True = Some m"
proof -
  have "pred_option (\<lambda>k. session_kind (JStr (sessionKindValue k)) = Some k) (meta_kind m)" by (cases "meta_kind m") (simp_all add: session_kind_again)
  note again = this [THEN opt_prop_value] assms(1-5) [THEN opt_prop_value]
  obtain k r t s l c where m: "m = \<lparr>meta_kind = k, root_session_id = r, meta_title = t, started_at = s, last_activity_at = l, meta_counts = c, meta_summary = None\<rparr>"
    using assms(6) by (cases m) simp
  have summary: "opt_prop (archive_text 1024 False True) JUndefined = Some None" by (simp add: opt_prop_def)
  show ?thesis using g again unfolding m
    by (simp add: decodeArchiveMetadata_def metadata_value_def prop_of_obj_of summary Let_def del: stringify.simps case_map_option)
qed

definition counts_safe :: "SessionCounts \<Rightarrow> bool" where
  "counts_safe c \<longleftrightarrow> user_messages c \<le> int MAX_SAFE_INTEGER \<and> assistant_messages c \<le> int MAX_SAFE_INTEGER \<and> tool_calls c \<le> int MAX_SAFE_INTEGER"

text \<open>A family that fits the session: its root is a session identifier, and it is the session itself exactly for a main one.\<close>

definition family_fits :: "string \<Rightarrow> Family option \<Rightarrow> bool" where
  "family_fits sid f = (case f of None \<Rightarrow> True
     | Some x \<Rightarrow> decodeArchiveId (JStr (family_root x)) = Some (family_root x) \<and> (family_kind x = Main \<longleftrightarrow> family_root x = sid))"

lemma metadata_bytes:
  assumes ok: "parse_ok ps" and safe: "counts_safe (ps_counts ps)" and fits: "family_fits sid f"
  shows "byte_length (stringify (metadata_value (with_family f (parsed_metadata ps)))) \<le> 2048"
proof -
  let ?m = "with_family f (parsed_metadata ps)"
  have plain: "meta_title ?m = meta_title (parsed_metadata ps)" "started_at ?m = ps_started ps" "last_activity_at ?m = map_option (\<lambda>t. toISOString (nat t)) (ps_last ps)"
      "meta_counts ?m = Some (ps_counts ps)" "meta_summary ?m = None"
    by (simp_all add: with_family_def parsed_metadata_def split: option.split)
  have kind: "prop_bytes (''kind'', map_option (\<lambda>k. JStr (sessionKindValue k)) (meta_kind ?m)) \<le> 25"
    using kind_bytes by (auto simp: prop_bytes_def key_bytes split: option.split)
  have root: "prop_bytes (''root_session_id'', map_option JStr (root_session_id ?m)) \<le> 1045"
    using fits text_value_bytes [of 512] by (cases f) (auto simp: prop_bytes_def key_bytes with_family_def parsed_metadata_def family_fits_def decodeArchiveId_def simp del: stringify.simps)
  have "title_ok (meta_title ?m)" using ok unfolding plain by (auto simp: parse_ok_def parsed_metadata_def split: option.split)
  then have title: "prop_bytes (''title'', map_option JStr (meta_title ?m)) \<le> 523"
    using text_value_bytes [of 256] by (cases "meta_title ?m") (auto simp: prop_bytes_def key_bytes title_ok_def simp del: stringify.simps)
  have started: "prop_bytes (''started_at'', map_option JStr (started_at ?m)) \<le> 64"
    using ok time_bytes unfolding plain by (cases "ps_started ps"; cases "ps_last ps") (auto simp: prop_bytes_def key_bytes parse_ok_def time_ok_def simp del: stringify.simps)
  have last: "prop_bytes (''last_activity_at'', map_option JStr (last_activity_at ?m)) \<le> 70"
    using ok time_bytes unfolding plain by (cases "ps_last ps") (auto simp: prop_bytes_def key_bytes parse_ok_def time_ok_def written_time_def simp del: stringify.simps)
  have counts: "prop_bytes (''counts'', map_option counts_value (meta_counts ?m)) \<le> 113"
    using counts_bytes [of "ps_counts ps"] ok safe unfolding plain by (simp add: prop_bytes_def key_bytes parse_ok_def counts_safe_def)
  show ?thesis
    using object_bytes [of "[(''kind'', map_option (\<lambda>k. JStr (sessionKindValue k)) (meta_kind ?m)), (''root_session_id'', map_option JStr (root_session_id ?m)),
       (''title'', map_option JStr (meta_title ?m)), (''started_at'', map_option JStr (started_at ?m)), (''last_activity_at'', map_option JStr (last_activity_at ?m)),
       (''counts'', map_option counts_value (meta_counts ?m)), (''summary'', map_option JStr (meta_summary ?m))]"] kind root title started last counts plain(5)
    unfolding metadata_value_def by (simp add: prop_bytes_def [of "(''summary'', None)"] del: stringify.simps)
qed

text \<open>C16: What is read from a session file is well-typed metadata: whatever the lines hold, the title, the times and the counts pass
  the checks of the wire protocol (lengths, characters, canonical and ordered times, the total size) unchanged, also with
  a family added.  The counts must be safe integers, and the family must fit the session (\<open>family_fits\<close>): its root is a
  valid identifier, and it is the session itself exactly for a main one.\<close>

theorem parsed_metadata_is_wire_metadata:
  assumes "parse_session decode json file b = Inr (entry, m)" "counts_safe (the (meta_counts m))" "family_fits sid f"
  shows "decodeArchiveMetadata (metadata_value (with_family f m)) sid True = Some (with_family f m)"
proof -
  from assms(1) obtain t ps where "parse_lines json (split_on (CHR 0x0A) t) parse_start = Inr ps" and m: "m = parsed_metadata ps"
    by (auto simp: parse_session_def sum_bind_Inr split: if_splits option.splits prod.splits)
  then have ok: "parse_ok ps" using parse_lines_ok parse_start_ok by blast
  have safe: "counts_safe (ps_counts ps)" using assms(2) m by (simp add: parsed_metadata_def)
  let ?m = "with_family f m"
  have fields: "meta_title ?m = meta_title m" "started_at ?m = ps_started ps" "last_activity_at ?m = map_option (\<lambda>t. toISOString (nat t)) (ps_last ps)"
      "meta_counts ?m = Some (ps_counts ps)" "meta_summary ?m = None"
    by (simp_all add: m with_family_def parsed_metadata_def split: option.split)
  have title: "pred_option (\<lambda>s. archive_text 256 True True (JStr s) = Some s) (meta_title ?m)"
    using ok unfolding fields by (auto simp: m parsed_metadata_def parse_ok_def title_ok_def split: option.split)
  have root: "pred_option (\<lambda>s. decodeArchiveId (JStr s) = Some s) (root_session_id ?m)"
    using assms(3) by (cases f) (auto simp: m with_family_def parsed_metadata_def family_fits_def)
  have started: "pred_option (\<lambda>s. timestamp_value (JStr s) = Some s) (started_at ?m)"
    using ok written_time_value unfolding fields by (cases "ps_started ps"; cases "ps_last ps") (auto simp: parse_ok_def time_ok_def)
  have last: "pred_option (\<lambda>s. timestamp_value (JStr s) = Some s) (last_activity_at ?m)"
    using ok written_time_value unfolding fields by (cases "ps_last ps") (auto simp: parse_ok_def time_ok_def written_time_def)
  have counts: "decodeCounts True (counts_value (ps_counts ps)) = Some (ps_counts ps)"
    using ok safe by (auto simp: decodeCounts_def counts_value_def prop_of_def archive_integer_def parse_ok_def counts_safe_def)
  have ordered: "time_ordered (started_at ?m) (last_activity_at ?m)"
    using ok unfolding fields
    by (cases "ps_started ps"; cases "ps_last ps") (auto simp: parse_ok_def time_ok_def time_ordered_def written_time_parse parse_toISOString)
  have family: "meta_kind ?m \<noteq> Some Main \<or> root_session_id ?m = Some sid"
      "meta_kind ?m \<noteq> Some Subagent \<and> meta_kind ?m \<noteq> Some PolicyApprover \<or> (root_session_id ?m \<noteq> None \<and> root_session_id ?m \<noteq> Some sid)"
    using assms(3) by (cases f; auto simp: m with_family_def parsed_metadata_def family_fits_def)+
  have "pred_option (\<lambda>c. decodeCounts True (counts_value c) = Some c) (meta_counts ?m)" using counts unfolding fields by simp
  from wire_metadata [OF root title started last this fields(5) family ordered] metadata_bytes [OF ok safe assms(3)] show ?thesis unfolding m .
qed

definition example_lines :: "string \<Rightarrow> js_value option" where
  "example_lines l = Some (JObj [(''type'', JStr ''session''), (''id'', JStr ''s1''), (''timestamp'', JStr ''2024-02-29T01:00:00.1234Z'')])"

lemma example_parsed: "(case parse_session (\<lambda>b. Some (''{}'', False)) example_lines ''/s/a.jsonl'' [1] of Inr (_, m) \<Rightarrow> counts_safe (the (meta_counts m)) \<and> meta_kind m = None | Inl _ \<Rightarrow> False)"
  by code_simp

lemma example_family: "family_fits ''s1'' (Some \<lparr>family_kind = Subagent, family_root = ''r''\<rparr>)"
  by code_simp

theorem parsed_metadata_is_wire_metadata_witness:
  "\<exists>m. meta_kind m = None \<and> decodeArchiveMetadata (metadata_value (m\<lparr>meta_kind := Some Subagent, root_session_id := Some ''r''\<rparr>)) ''s1'' True
     = Some (m\<lparr>meta_kind := Some Subagent, root_session_id := Some ''r''\<rparr>)"
proof -
  from example_parsed obtain e m where m: "parse_session (\<lambda>b. Some (''{}'', False)) example_lines ''/s/a.jsonl'' [1] = Inr (e, m)" "counts_safe (the (meta_counts m))" "meta_kind m = None"
    by (auto split: sum.splits prod.splits)
  from parsed_metadata_is_wire_metadata [OF m(1,2) example_family] m(3) show ?thesis by (auto simp: with_family_def)
qed

end
