(* ===== verification/Spec2Isabelle.thy ===== *)
theory Spec2Isabelle
  imports Runtime_Delegation Network_Policy Native_Bridge Pausable_Timeout Decision_Flow Subagent_Policy Dns_Rewrite
    Archive_Json_Laws Archive_Evidence Archive_Client Archive_Reading
begin

text \<open>
  Pilot is an extension of a coding agent.  It mediates what an agent and its subagents do on a machine: every
  file access and every network access is judged by stored rules, by the agents above, by a language model or by
  the user, and native helpers enforce the verdicts.  This library models the parts that decide.

  \<^bold>\<open>The parts and how they interact.\<close>  A \<^emph>\<open>policy engine\<close> holds rules and evaluates a target against them; a
  \<^emph>\<open>database\<close> keeps the rules that outlive a session.  The \<^emph>\<open>policy runtime\<close> owns one engine per agent (a tree of
  principals below the root agent), consults ancestors, default responses, a reviewing agent and the user, and
  writes audit records.  The \<^emph>\<open>coordinator of subagents\<close> registers and removes principals as jobs come and go.  The
  \<^emph>\<open>approval dialogue\<close> asks the user; \<^emph>\<open>pausable timeouts\<close> bound work without counting the time an approval takes.
  The \<^emph>\<open>network policy\<close> turns packets and requests into questions to the runtime and remembers answers; the
  \<^emph>\<open>native filesystem bridge\<close> answers a file system daemon from snapshots of the rules and from the runtime.  Beside the policy, an \<^emph>\<open>archive worker\<close>
  copies sessions to a server: it discovers sources, retains bodies, and publishes or preserves them by requests whose
  outcome it may have to find out later.

  \<^bold>\<open>Theories.\<close>  \<open>Prelude\<close>: strings, ordered dictionaries, exceptions, safe integers and the lemmas shared below.
  \<^item> \<open>Policy_Types\<close> (\<open>policy/types.ts\<close>, \<open>policy/defaults.ts\<close>): enumerations, records, policy areas.
  \<^item> \<open>Parsed_Uri\<close>, \<open>Parsed_Uri_Canonical\<close> (\<open>policy/network/ParsedUri.ts\<close>): network targets, their canonical text and
    coverage.
  \<^item> \<open>Policy_Scope\<close>, \<open>Policy_Scope_Laws\<close> (\<open>policy/PolicyScope.ts\<close>, \<open>policy/path/validation.ts\<close>): file targets, physical
    paths, coverage and scope hierarchies.  The file system is an argument (\<open>fs_env\<close>).
  \<^item> \<open>Policy_Engine\<close>, \<open>Policy_Evaluation\<close> (\<open>policy/PolicyEngine.ts\<close>): the rule store; it refines a table of rules, and
    evaluation picks the most specific one.
  \<^item> \<open>Policy_Dao\<close> (\<open>storage/PolicyDao.ts\<close>): the rule table and its round trip with the engine.
  \<^item> \<open>Runtime_State\<close>, \<open>Policy_Runtime\<close>, \<open>Runtime_Evaluation\<close> (\<open>policy/PolicyRuntime.ts\<close>, \<open>policy/AgentPolicyDecisionFlow.ts\<close>,
    \<open>policy/PolicyApprovalAuditLog.ts\<close>, \<open>policy/path/native/NativeFilesystemPolicyView.ts\<close>): principals, defaults,
    evaluation, approvals, audit records, native bases and views.  References of the program are indices into heaps.
    An evaluation that waits for an answer is split there: \<open>evaluate_begin\<close>, then \<open>agent_answer\<close> or
    \<open>completeUserApproval\<close> on whatever state the runtime has by then.
  \<^item> \<open>Runtime_Tree\<close>, \<open>Runtime_Invariant\<close>, \<open>Runtime_Safety\<close>, \<open>Runtime_Delegation\<close>: the tree of principals, the invariant
    of the step relation \<open>runtime_step\<close>, safety of agent and user decisions, inheritance and native views.
  \<^item> \<open>Network_Protocol\<close>, \<open>Network_Policy\<close> (\<open>network-queue-protocol.ts\<close>, \<open>tcp-gateway-protocol.ts\<close>, \<open>NetworkPolicy.ts\<close>,
    \<open>NetworkPolicyAuthorizer.ts\<close>): parsing of events, projection to scopes, reuse of decisions.
  \<^item> \<open>Dns_Message\<close>, \<open>Dns_Leases\<close> (\<open>policy/network/SyntheticDnsProxy.ts\<close>): DNS messages as byte lists, the table of synthetic
    addresses and the rewriting of responses.  A request for a lease is split at its await.  \<open>Dns_Names\<close>, \<open>Dns_Safety\<close>,
    \<open>Dns_Rewrite\<close>: reading of names, the invariant of the table under \<open>lease_step\<close>, and what a client sees.
  \<^item> \<open>Archive_Json\<close>, \<open>Archive_Json_Laws\<close> (\<open>server/ArchiveSourceJson.ts\<close>): the scanner for JSON texts that are cut short, and the
    JSON grammar it is compared with.  \<open>Archive_Time\<close>, \<open>Archive_Protocol\<close>, \<open>Archive_Protocol_Laws\<close>
    (\<open>server/ArchiveProtocol.ts\<close>): times and the wire types of the session archive, their decoders and comparison.
    \<open>Archive_Reconciler\<close> (\<open>server/ArchiveReconciler.ts\<close>): what to do with a local copy of a session.
  \<^item> \<open>Archive_Identity\<close>, \<open>Archive_Ancestry\<close> (\<open>sessions/SessionIdentity.ts\<close>, \<open>server/ArchiveSourceScope.ts\<close>, \<open>server/ArchiveSessions.ts\<close>):
    the identity a session's records give and the walk to the root of its family.  \<open>Archive_Reading\<close> (\<open>server/ArchiveSessions.ts\<close>,
    \<open>server/ArchiveSourceError.ts\<close>): reading a session file that does not change meanwhile, its lines and the metadata they
    give.  \<open>Archive_State\<close>, \<open>Archive_Worker\<close>,
    \<open>Archive_Sources\<close> (\<open>server/ArchiveWorkerState.ts\<close>): the tables of the archive worker, the checks that read them, and the
    operations that settle requests and take in sources.  \<open>Archive_Exclusion\<close>, \<open>Archive_Import\<close> (opening the state with the import of the
    earlier journal), \<open>Archive_Safety\<close>: the invariant of the step relation \<open>worker_step\<close>, which includes new openings, and
    what it protects.  \<open>Archive_Evidence\<close>: what the worker reads from its tables, and the schedule.
  \<^item> \<open>Server_Transport\<close> (\<open>server/ServerResponses.ts\<close>, \<open>server/ServerCompatibility.ts\<close>, \<open>server/ServerHttpTransport.ts\<close>),
    \<open>Archive_Client\<close> (\<open>server/ArchiveClient.ts\<close>): error codes, the checks of a response, and the calls of the client; what
    comes of a request is an argument.
  \<^item> \<open>Native_Protocol\<close>, \<open>Native_Bridge\<close> (\<open>NativeFilesystemPolicyProtocol.ts\<close>, \<open>NativeFilesystemPolicyBridge.ts\<close>): snapshots
    and frames as byte lists, and the bridge as a state machine on received chunks and answers.
  \<^item> \<open>Decision_Flow\<close> (\<open>tui/UiDecisionFlowManager.ts\<close>, \<open>policy/PolicyDecisionFlow.ts\<close>): the dialogue as a function of the
    user's answers.  \<open>Pausable_Timeout\<close> (\<open>runtime/PausableTimeout.ts\<close>): the timer as a state machine over clock readings.
  \<^item> \<open>Subagent_Job\<close>, \<open>Subagent_Coordinator\<close> (\<open>subagents/AgentCapability.ts\<close>, \<open>subagents/types.ts\<close>,
    \<open>subagents/SubagentCoordinator.ts\<close>): capabilities, requests, jobs and the coordinator.  A turn is split at its awaits
    into events.  \<open>Subagent_Frame\<close>, \<open>Subagent_Invariant\<close>, \<open>Subagent_Release\<close>, \<open>Subagent_Principals\<close>, \<open>Subagent_Policy\<close>:
    what its operations observe, the scheduler, the job tree, the release of principals, and the composition with the
    policy runtime.

  \<^bold>\<open>Interfaces.\<close>  Locales state what one part relies on: laws of a rule store, of the file system, of the tree of
  principals, and \<open>principal_registry\<close>, which the coordinator needs and the policy runtime provides
  (\<open>runtime_principals\<close>).  Every locale is interpreted on the model's own definitions.

  \<^bold>\<open>What the lemmas show.\<close>  Engine: evaluation is the most specific covering rule, the store refines a table, rules
  whose patterns resolve to themselves survive a restart.  Runtime: the invariant of every reachable state; agents grant only within their own authority;
  only users persist rules; stale and late answers change nothing; a denying ancestor ends an evaluation about which the
  requester's own rules say nothing; a child starts with its parent's effective rules, as far as their patterns resolve to themselves.
  Native and network: verdicts come from evaluations, formats round-trip, the bridge does not depend on how bytes
  arrive.  Resolver: a synthetic address stands for one lease for ever, and clients see leased addresses or an empty answer only.  Archive: the JSON scanner is
  exact, decoded requests are canonical, reconciliation discards nothing; in the worker, one unresolved operation per history and session
  (unless the earlier journal already had two), what is sent agrees with its candidate, binding and preserved base, nothing sent is given up, and a candidate is complete only when its bytes are archived; what is read from a session file is valid metadata, a
  captured body was stable, a download is the session asked for, error codes come from the server, and no due work is forgotten.  Dialogue: it allows only by
  explicit choice.  Subagents: limits hold, no slot is wasted, a job manages exactly the jobs below it, capabilities shrink downwards, an active job is registered under its parent, ended jobs stay ended and give up their principals.

  \<^bold>\<open>Bounds and fuel.\<close>  Loops over lists are structural.  The walk to the root of the principal tree and the walk to an
  ancestor of a job (\<open>descends\<close>) carry a bound, the number of principals and the depth of the job; the tree invariants
  show that they are enough.  The release loop of the coordinator carries the number of jobs plus one; each repetition
  has attempted another job.  Reading a DNS name ends because no offset is visited twice; the search for aliased names
  carries the number of answers plus one, and each round but the last adds the target of an answer.  The walk to the root of a session's family ends because no file
  is visited twice; the worker's scheduling loops try 64 rows, as the code does.  Integers that the program checks against the safe range are checked in the model.

  \<^bold>\<open>Not modelled.\<close>  The network sandbox and its brokers, the mount lifecycle and the Rust daemons (platform processes;
  their protocols are modelled), sessions, models and compaction of the agent SDK and MCP (third-party packages), the
  loop, locks and directory reading of the archive worker, streams and deadlines of the HTTP transport, configuration synchronisation, tools, web search, drawing and key handling, commands and wiring.
  Of modelled parts: wait scopes of approvals and the deadline of a user approval do not influence a decision and are
  left out of the runtime; waiting for a subagent's status; the texts of prompts and summaries; the statements that create the worker's tables.
\<close>

end
